(* ===== verification/Bisq_Prelude.thy ===== *)
theory Bisq_Prelude
  imports Main "HOL-Library.Word" "HOL-Library.AList" "HOL-Library.Char_ord" "HOL-Library.List_Lexorder"
begin

text \<open>
  The prelude of the development: the exceptions of the code as values, the result type with
  its bind and its loops over a list, actions that keep the state across an exception, and the generic facts on lists, maps and finite sums that
  the component theories share.  A Python call that may raise is a value of \<open>'a res\<close>: \<open>Inl\<close>
  the exception, \<open>Inr\<close> the result.  The state a caller would see after an exception is not
  part of the value: the code that calls the parser abandons the block when it raises.
\<close>

named_theorems mutator_defs \<open>the operations of the state service that change the state\<close>
named_theorems codec_defs \<open>the encoders and decoders of serialized data\<close>

section \<open>Exceptions and results\<close>

datatype py_error =
    Dao_State_Change_Error \<comment> \<open>the RuntimeError of \<open>_assert_dao_state_change\<close>\<close>
  | Illegal_Argument \<comment> \<open>\<open>check_argument\<close>\<close>
  | Assertion_Error
  | Index_Error
  | Value_Error
  | Unbound_Local_Error
  | Zero_Division_Error
  | Invalid_Parsing_Condition
  | Invalid_Genesis_Tx
  | Block_Height_Not_Connecting
  | Block_Hash_Not_Connecting
  | Consensus_Exception
  | Validation_Exception
  | Decryption_Exception
  | Runtime_Error \<comment> \<open>\<open>DevEnv.log_error_and_throw_if_dev_mode\<close>\<close>
  | Key_Error
  | Missing_Ballot "string list"
  | Type_Error
  | Attribute_Error
  | Overflow_Error
  | Proposal_Validation_Exception
  | Param_Validation_Exception
  | Vote_Result_Error \<comment> \<open>the plain \<open>Exception(msg)\<close> of \<open>vote_result_service.py\<close>\<close>
  | Key_Conversion_Exception \<comment> \<open>a public key that cannot be read\<close>
  | Address_Format_Exception
  | Invalid_Checksum \<comment> \<open>of \<open>electrum_min\<close>, no \<open>AddressFormatException\<close>\<close>
  | Illegal_State \<comment> \<open>\<open>check_state\<close>\<close>

type_synonym 'a res = "py_error + 'a"

definition rbind :: "'a res \<Rightarrow> ('a \<Rightarrow> 'b res) \<Rightarrow> 'b res" where
  "rbind r f = (case r of Inl e \<Rightarrow> Inl e | Inr x \<Rightarrow> f x)"

definition is_ok :: "'a res \<Rightarrow> bool" where
  "is_ok r = (case r of Inl _ \<Rightarrow> False | Inr _ \<Rightarrow> True)"

text \<open>The \<open>if not cond: raise e\<close> of the code.\<close>

definition check :: "bool \<Rightarrow> py_error \<Rightarrow> unit res" where
  "check b e = (if b then Inr () else Inl e)"

lemma rbind_simps [simp]:
  "rbind (Inl e) f = Inl e"
  "rbind (Inr x) f = f x"
  by (simp_all add: rbind_def)

lemma rbind_eq_Inr [simp]: "rbind r f = Inr y \<longleftrightarrow> (\<exists>x. r = Inr x \<and> f x = Inr y)"
  by (cases r) auto

lemma rbind_eq_Inl: "rbind r f = Inl e \<longleftrightarrow> r = Inl e \<or> (\<exists>x. r = Inr x \<and> f x = Inl e)"
  by (cases r) auto

lemma rbind_assoc: "rbind (rbind r f) g = rbind r (\<lambda>x. rbind (f x) g)"
  by (cases r) auto

lemma is_ok_simps [simp]: "is_ok (Inl e) = False" "is_ok (Inr x) = True"
  by (simp_all add: is_ok_def)

lemma is_ok_iff: "is_ok r \<longleftrightarrow> (\<exists>x. r = Inr x)"
  by (cases r) auto

lemma check_simps [simp]:
  "check True e = Inr ()"
  "check False e = Inl e"
  "check b e = Inr u \<longleftrightarrow> b"
  by (simp_all add: check_def)

text \<open>A \<open>for\<close> loop whose body may raise: the first exception ends the loop.\<close>

fun fold_res :: "('a \<Rightarrow> 's \<Rightarrow> 's res) \<Rightarrow> 'a list \<Rightarrow> 's \<Rightarrow> 's res" where
  "fold_res f [] s = Inr s"
| "fold_res f (x # xs) s = rbind (f x s) (fold_res f xs)"

lemma fold_res_append:
  "fold_res f (xs @ ys) s = rbind (fold_res f xs s) (fold_res f ys)"
  by (induction xs arbitrary: s) (simp_all add: rbind_def split: sum.split)

lemma fold_res_map: "fold_res f (map g xs) s = fold_res (\<lambda>x. f (g x)) xs s"
  by (induction xs arbitrary: s) (simp_all add: rbind_def split: sum.split)

lemma fold_res_inv [consumes 1, case_names init step]:
  assumes "fold_res f xs s = Inr t" and "P s"
    and "\<And>x u v. x \<in> set xs \<Longrightarrow> P u \<Longrightarrow> f x u = Inr v \<Longrightarrow> P v"
  shows "P t"
  using assms by (induction xs arbitrary: s) auto

lemma fold_res_ok:
  assumes "P s" and "\<And>x u. x \<in> set xs \<Longrightarrow> P u \<Longrightarrow> \<exists>v. f x u = Inr v \<and> P v"
  shows "\<exists>t. fold_res f xs s = Inr t \<and> P t"
  using assms
proof (induction xs arbitrary: s)
  case Nil
  then show ?case by simp
next
  case (Cons x xs)
  then obtain v where "f x s = Inr v" and "P v" by (meson list.set_intros(1))
  moreover have "\<exists>t. fold_res f xs v = Inr t \<and> P t"
    using Cons.IH [OF \<open>P v\<close>] Cons.prems(2) by (meson list.set_intros(2))
  ultimately show ?case by simp
qed

lemma fold_res_cong_ok:
  assumes "\<And>x u. x \<in> set xs \<Longrightarrow> f x u = Inr (g x u)"
  shows "fold_res f xs s = Inr (fold g xs s)"
  using assms by (induction xs arbitrary: s) auto

text \<open>A loop over \<open>range(n)\<close>: the invariant may speak of the number of rounds done.\<close>

lemma fold_res_upt [consumes 1, case_names init step]:
  assumes "fold_res f [0..<n] s = Inr t" and "P 0 s"
    and "\<And>k u v. k < n \<Longrightarrow> P k u \<Longrightarrow> f k u = Inr v \<Longrightarrow> P (Suc k) v"
  shows "P n t"
  using assms
proof (induction n arbitrary: t)
  case 0
  then show ?case by simp
next
  case (Suc n)
  from Suc.prems(1) obtain u where u: "fold_res f [0..<n] s = Inr u" "f n u = Inr t"
    by (auto simp: fold_res_append)
  have "P n u" by (rule Suc.IH [OF u(1) Suc.prems(2)]) (auto intro: Suc.prems(3))
  then show ?case using Suc.prems(3) [OF _ _ u(2)] by simp
qed

text \<open>The same loop over the indices of a list, as \<open>enumerate\<close> gives them.\<close>

definition enumerate_from :: "nat \<Rightarrow> 'a list \<Rightarrow> (nat \<times> 'a) list" where
  "enumerate_from n xs = zip [n..<n + length xs] xs"

lemma enumerate_from_simps [simp]:
  "enumerate_from n [] = []"
  "enumerate_from n (x # xs) = (n, x) # enumerate_from (Suc n) xs"
  by (simp_all add: enumerate_from_def upt_rec [of n] del: upt_Suc)

lemma set_enumerate_from: "(i, x) \<in> set (enumerate_from n xs) \<Longrightarrow> x \<in> set xs"
  by (auto simp: enumerate_from_def dest: set_zip_rightD)

section \<open>Actions\<close>

text \<open>Code that catches exceptions keeps the changes made before the raise.  An action returns the
  result and, whether it raised or not, the state it leaves behind; \<open>call\<close> embeds an operation
  that changes nothing when it raises, \<open>query\<close> one that only reads.\<close>

type_synonym ('s, 'a) action = "'s \<Rightarrow> 'a res \<times> 's"

definition return :: "'a \<Rightarrow> ('s, 'a) action" where "return x s = (Inr x, s)"
definition raise :: "py_error \<Rightarrow> ('s, 'a) action" where "raise e s = (Inl e, s)"
definition query :: "('s \<Rightarrow> 'a res) \<Rightarrow> ('s, 'a) action" where "query f s = (f s, s)"
definition modify :: "('s \<Rightarrow> 's) \<Rightarrow> ('s, unit) action" where "modify f s = (Inr (), f s)"

definition call :: "('s \<Rightarrow> 's res) \<Rightarrow> ('s, unit) action" where
  "call f s = (case f s of Inl e \<Rightarrow> (Inl e, s) | Inr t \<Rightarrow> (Inr (), t))"

definition abind :: "('s, 'a) action \<Rightarrow> ('a \<Rightarrow> ('s, 'b) action) \<Rightarrow> ('s, 'b) action" where
  "abind m f s = (case m s of (Inl e, t) \<Rightarrow> (Inl e, t) | (Inr x, t) \<Rightarrow> f x t)"

definition try_except :: "('s, 'a) action \<Rightarrow> (py_error \<Rightarrow> ('s, 'a) action) \<Rightarrow> ('s, 'a) action" where
  "try_except m h s = (case m s of (Inl e, t) \<Rightarrow> h e t | (Inr x, t) \<Rightarrow> (Inr x, t))"

fun for_each :: "('a \<Rightarrow> ('s, unit) action) \<Rightarrow> 'a list \<Rightarrow> ('s, unit) action" where
  "for_each f [] s = (Inr (), s)"
| "for_each f (x # xs) s = (case f x s of (Inl e, t) \<Rightarrow> (Inl e, t) | (Inr _, t) \<Rightarrow> for_each f xs t)"

lemmas action_defs = return_def raise_def query_def modify_def call_def abind_def try_except_def

lemma abind_Inr: "abind m f s = (Inr y, t) \<longleftrightarrow> (\<exists>x u. m s = (Inr x, u) \<and> f x u = (Inr y, t))"
  by (auto simp: abind_def split: prod.splits sum.splits)

lemma for_each_inv [consumes 1, case_names init step]:
  assumes "for_each f xs s = (r, t)" and "P s"
    and "\<And>x u v r'. x \<in> set xs \<Longrightarrow> P u \<Longrightarrow> f x u = (r', v) \<Longrightarrow> P v"
  shows "P t"
  using assms
proof (induction xs arbitrary: s)
  case (Cons x xs)
  obtain r' v where v: "f x s = (r', v)" by fastforce
  have "P v" by (rule Cons.prems(3) [OF _ Cons.prems(2) v]) simp
  with Cons v show ?case by (cases r') (auto, metis)
qed simp

text \<open>On success the loop is the one of \<open>fold_res\<close>.\<close>

lemma for_each_call: "for_each (\<lambda>x. call (f x)) xs s = (Inr (), t) \<longleftrightarrow> fold_res f xs s = Inr t"
  by (induction xs arbitrary: s) (auto simp: call_def split: sum.splits)

text \<open>What an action may change, as a relation between the state before and after, whether it raised or
  not.  Any reflexive and transitive relation is kept by the composed actions when their parts keep
  it.\<close>

definition keeps :: "('s \<Rightarrow> 's \<Rightarrow> bool) \<Rightarrow> ('s, 'a) action \<Rightarrow> bool" where
  "keeps R m \<longleftrightarrow> (\<forall>s r t. m s = (r, t) \<longrightarrow> R s t)"

lemma keepsI: "(\<And>s r t. m s = (r, t) \<Longrightarrow> R s t) \<Longrightarrow> keeps R m"
  by (simp add: keeps_def)

lemma keepsD: "keeps R m \<Longrightarrow> m s = (r, t) \<Longrightarrow> R s t"
  by (simp add: keeps_def)

locale action_frame =
  fixes R :: "'s \<Rightarrow> 's \<Rightarrow> bool"
  assumes frame_refl: "R s s"
    and frame_trans: "R s t \<Longrightarrow> R t u \<Longrightarrow> R s u"
begin

lemma keeps_return: "keeps R (return x)"
  by (simp add: keeps_def return_def frame_refl)

lemma keeps_raise: "keeps R (raise e)"
  by (simp add: keeps_def raise_def frame_refl)

lemma keeps_query: "keeps R (query f)"
  by (simp add: keeps_def query_def frame_refl)

lemma keeps_modify: "(\<And>s. R s (f s)) \<Longrightarrow> keeps R (modify f)"
  by (simp add: keeps_def modify_def)

lemma keeps_call: "(\<And>s t. f s = Inr t \<Longrightarrow> R s t) \<Longrightarrow> keeps R (call f)"
  by (auto simp: keeps_def call_def frame_refl split: sum.splits)

lemma keeps_abind: "keeps R m \<Longrightarrow> (\<And>x. keeps R (f x)) \<Longrightarrow> keeps R (abind m f)"
  by (auto simp: keeps_def abind_def split: prod.splits sum.splits) (blast intro: frame_trans)+

lemma keeps_try: "keeps R m \<Longrightarrow> (\<And>e. keeps R (h e)) \<Longrightarrow> keeps R (try_except m h)"
  by (auto simp: keeps_def try_except_def split: prod.splits sum.splits) (blast intro: frame_trans)+

lemma keeps_for_each: "(\<And>x. x \<in> set xs \<Longrightarrow> keeps R (f x)) \<Longrightarrow> keeps R (for_each f xs)"
proof (induction xs)
  case Nil
  then show ?case by (simp add: keeps_def frame_refl)
next
  case (Cons x xs)
  then have "keeps R (f x)" "keeps R (for_each f xs)" by simp_all
  then show ?case by (auto simp: keeps_def split: prod.splits sum.splits) (blast intro: frame_trans)+
qed

lemma keeps_reader: "(\<And>s. keeps R (m s)) \<Longrightarrow> keeps R (\<lambda>s. m s s)"
  by (simp add: keeps_def)

lemmas keeps_intros = keeps_return keeps_raise keeps_query keeps_modify keeps_call keeps_abind keeps_try
  keeps_for_each keeps_reader

end

section \<open>Lists, dictionaries and sums\<close>

text \<open>Python's \<open>xs[i]\<close> for a constant \<open>i \<ge> 0\<close>, and \<open>xs[-1]\<close>.\<close>

definition py_nth :: "'a list \<Rightarrow> nat \<Rightarrow> 'a res" where
  "py_nth xs i = (if i < length xs then Inr (xs ! i) else Inl Index_Error)"

definition py_last :: "'a list \<Rightarrow> 'a res" where
  "py_last xs = (if xs = [] then Inl Index_Error else Inr (last xs))"

text \<open>\<open>next((x for x in xs if p(x)), None)\<close> is \<open>find p xs\<close>.  \<open>dict.setdefault\<close> on an
  insertion-ordered dictionary, an association list here.\<close>

definition al_setdefault :: "'k \<Rightarrow> 'v \<Rightarrow> ('k \<times> 'v) list \<Rightarrow> ('k \<times> 'v) list" where
  "al_setdefault k v al = (case map_of al k of None \<Rightarrow> al @ [(k, v)] | Some _ \<Rightarrow> al)"

lemma map_of_setdefault:
  "map_of (al_setdefault k v al) =
     (case map_of al k of None \<Rightarrow> (map_of al)(k \<mapsto> v) | Some _ \<Rightarrow> map_of al)"
  by (auto simp: al_setdefault_def map_add_def fun_eq_iff split: option.splits)

lemma distinct_setdefault:
  "distinct (map fst al) \<Longrightarrow> distinct (map fst (al_setdefault k v al))"
  by (auto simp: al_setdefault_def map_of_eq_None_iff split: option.splits)

lemma set_al_setdefault: "set (al_setdefault k v al) \<subseteq> insert (k, v) (set al)"
  by (auto simp: al_setdefault_def split: option.splits)

text \<open>The value of a dictionary under a weight: the sum over its entries.\<close>

definition map_total :: "('v \<Rightarrow> int) \<Rightarrow> ('k \<rightharpoonup> 'v) \<Rightarrow> int" where
  "map_total w m = (\<Sum>k \<in> dom m. w (the (m k)))"

lemma map_total_empty [simp]: "map_total w Map.empty = 0"
  by (simp add: map_total_def)

lemma map_total_insert:
  assumes "finite (dom m)" and "m k = None"
  shows "map_total w (m(k \<mapsto> v)) = map_total w m + w v"
proof -
  have "(\<Sum>x \<in> dom m. w (the ((m(k \<mapsto> v)) x))) = (\<Sum>x \<in> dom m. w (the (m x)))"
    using assms(2) by (intro sum.cong) auto
  then show ?thesis using assms by (simp add: map_total_def domIff)
qed

lemma map_total_remove:
  assumes "finite (dom m)" and "m k = Some v"
  shows "map_total w (m(k := None)) = map_total w m - w v"
proof -
  have k: "k \<in> dom m" using assms(2) by blast
  have "(\<Sum>x \<in> dom m - {k}. w (the ((m(k := None)) x))) = (\<Sum>x \<in> dom m - {k}. w (the (m x)))"
    by (intro sum.cong) auto
  then show ?thesis
    using assms k by (simp add: map_total_def sum_diff1)
qed

lemma map_total_nonneg:
  "(\<And>k v. m k = Some v \<Longrightarrow> 0 \<le> w v) \<Longrightarrow> 0 \<le> map_total w m"
  unfolding map_total_def by (intro sum_nonneg) auto

lemma finite_dom_update [simp]: "finite (dom (m(k := x))) = finite (dom m)"
  by (cases x) auto

lemma sum_list_distinct_nth:
  "distinct is \<Longrightarrow> (\<Sum>i\<leftarrow>is. f i) = (\<Sum>i \<in> set is. f i)"
  for f :: "'a \<Rightarrow> int"
  by (rule sum_list_distinct_conv_sum_set)

lemma find_Some_iff_ex: "find p xs = Some x \<Longrightarrow> x \<in> set xs \<and> p x"
  by (induction xs) (auto split: if_splits)

lemma find_not_None: "x \<in> set xs \<Longrightarrow> p x \<Longrightarrow> \<exists>y. find p xs = Some y"
  by (induction xs) auto

end
