(* ===== verification/Bisq_Bytes.thy ===== *)
theory Bisq_Bytes
  imports Bisq_Prelude
begin

unbundle bit_operations_syntax

text \<open>
  Strings, bytes and the Java compatibility helpers of the code
  (\<open>utils/java_compat.py\<close>, \<open>bisq/common/util/utilities.py\<close>): the Java string order, the
  unsigned shift, the big-endian integers of the OP_RETURN data, and Python's \<open>str\<close> and
  \<open>int\<close> between integers and ASCII strings.  A \<open>bytes\<close> value is a list of 8-bit words, a
  string is a list of characters below code point 256.
\<close>

type_synonym bytes = "8 word list"

section \<open>Java's string order\<close>

fun java_string_compare :: "string \<Rightarrow> string \<Rightarrow> int" where
  "java_string_compare (x # xs) (y # ys) =
     (if x \<noteq> y then of_char x - of_char y else java_string_compare xs ys)"
| "java_string_compare s t = int (length s) - int (length t)"

text \<open>\<open>java_cmp_str\<close> wraps this comparison as a sort key; the next lemmas show that the order
  it induces is the lexicographic order of \<open>string\<close>, so \<open>sort_key\<close> models every
  \<open>sort(key=lambda e: java_cmp_str(...))\<close> of the code.\<close>

lemma of_char_less_iff: "(of_char x :: int) < of_char y \<longleftrightarrow> x < y"
  by (metis less_char_def of_nat_less_iff of_nat_of_char)

lemma java_string_compare_less: "java_string_compare s t < 0 \<longleftrightarrow> s < t"
proof (induction s arbitrary: t)
  case Nil
  show ?case by (cases t) auto
next
  case (Cons x s)
  then show ?case by (cases t) (auto simp: of_char_less_iff)
qed

lemma java_string_compare_eq: "java_string_compare s t = 0 \<longleftrightarrow> s = t"
  by (induction s t rule: java_string_compare.induct) auto

lemma java_string_compare_swap: "java_string_compare t s = - java_string_compare s t"
  by (induction s t rule: java_string_compare.induct) auto

section \<open>Integers as strings\<close>

definition digit_char :: "nat \<Rightarrow> char" where
  "digit_char d = char_of (48 + d)"

fun nat_str :: "nat \<Rightarrow> string" where
  "nat_str n = (if n < 10 then [digit_char n] else nat_str (n div 10) @ [digit_char (n mod 10)])"

declare nat_str.simps [simp del]

definition py_str :: "int \<Rightarrow> string" where
  "py_str i = (if i < 0 then CHR ''-'' # nat_str (nat (- i)) else nat_str (nat i))"

definition is_digit :: "char \<Rightarrow> bool" where
  "is_digit c \<longleftrightarrow> 48 \<le> (of_char c :: nat) \<and> (of_char c :: nat) \<le> 57"

definition is_space :: "char \<Rightarrow> bool" where
  "is_space c \<longleftrightarrow> (of_char c :: nat) \<in> {9, 10, 11, 12, 13, 28, 29, 30, 31, 32}"

definition py_strip :: "string \<Rightarrow> string" where
  "py_strip s = rev (dropWhile is_space (rev (dropWhile is_space s)))"

text \<open>\<open>int(s)\<close> on ASCII: optional sign, digits, and single underscores between digits.\<close>

fun digits_value :: "nat \<Rightarrow> bool \<Rightarrow> string \<Rightarrow> nat option" where
  "digits_value acc d [] = (if d then Some acc else None)"
| "digits_value acc d (c # cs) =
     (if is_digit c then digits_value (10 * acc + (of_char c - 48)) True cs
      else if c = CHR ''_'' \<and> d \<and> cs \<noteq> [] then digits_value acc False cs
      else None)"

definition py_int :: "string \<Rightarrow> int res" where
  "py_int s =
     (let t = py_strip s;
          neg = (t \<noteq> [] \<and> hd t = CHR ''-'');
          u = (if t \<noteq> [] \<and> (hd t = CHR ''-'' \<or> hd t = CHR ''+'') then tl t else t)
      in case digits_value 0 False u of
           None \<Rightarrow> Inl Value_Error
         | Some n \<Rightarrow> Inr (if neg then - int n else int n))"

lemma of_char_digit: "d < 10 \<Longrightarrow> (of_char (digit_char d) :: nat) = 48 + d"
  by (simp add: digit_char_def)

lemma is_digit_digit: "d < 10 \<Longrightarrow> is_digit (digit_char d)"
  by (simp add: is_digit_def of_char_digit)

lemma nat_str_not_Nil [simp]: "nat_str n \<noteq> []"
  by (subst nat_str.simps) simp

lemma nat_str_digits: "c \<in> set (nat_str n) \<Longrightarrow> is_digit c"
proof (induction n rule: nat_str.induct)
  case (1 n)
  then show ?case
    by (cases "n < 10") (auto simp: nat_str.simps [of n] is_digit_digit)
qed

lemma digit_not_special:
  "is_digit c \<Longrightarrow> \<not> is_space c \<and> c \<noteq> CHR ''-'' \<and> c \<noteq> CHR ''+'' \<and> c \<noteq> CHR '':'' \<and> c \<noteq> CHR ''_''"
  by (auto simp: is_digit_def is_space_def)

lemma digits_value_append_digit:
  "d < 10 \<Longrightarrow> digits_value acc b s = Some n \<Longrightarrow>
     digits_value acc b (s @ [digit_char d]) = Some (10 * n + d)"
  by (induction s arbitrary: acc b)
    (auto simp: is_digit_digit of_char_digit split: if_splits)

lemma digits_value_nat_str: "digits_value 0 False (nat_str n) = Some n"
proof (induction n rule: nat_str.induct)
  case (1 n)
  show ?case
  proof (cases "n < 10")
    case True
    then show ?thesis by (simp add: nat_str.simps [of n] is_digit_digit of_char_digit)
  next
    case False
    then show ?thesis
      using 1 by (simp add: nat_str.simps [of n] digits_value_append_digit)
  qed
qed

lemma hd_nat_str_digit: "is_digit (hd (nat_str n))"
  by (rule nat_str_digits [OF hd_in_set]) simp

lemma last_nat_str_digit: "is_digit (last (nat_str n))"
  by (rule nat_str_digits [OF last_in_set]) simp

lemma py_strip_id:
  assumes "s \<noteq> []" and "\<not> is_space (hd s)" and "\<not> is_space (last s)"
  shows "py_strip s = s"
proof -
  have "dropWhile is_space s = s" using assms by (cases s) auto
  moreover have "dropWhile is_space (rev s) = rev s"
    using assms(1,3) by (cases s rule: rev_cases) auto
  ultimately show ?thesis by (simp add: py_strip_def)
qed

lemma py_int_py_str [simp]: "py_int (py_str i) = Inr i"
proof (cases "i < 0")
  case True
  let ?n = "nat_str (nat (- i))"
  have "py_strip (CHR ''-'' # ?n) = CHR ''-'' # ?n"
    using last_nat_str_digit [of "nat (- i)"]
    by (intro py_strip_id) (auto simp: digit_not_special is_space_def is_digit_def)
  with True show ?thesis by (simp add: py_int_def py_str_def digits_value_nat_str)
next
  case False
  let ?n = "nat_str (nat i)"
  have "py_strip ?n = ?n"
    using hd_nat_str_digit [of "nat i"] last_nat_str_digit [of "nat i"]
    by (intro py_strip_id) (auto simp: digit_not_special)
  moreover have "hd ?n \<noteq> CHR ''-''" and "hd ?n \<noteq> CHR ''+''"
    using hd_nat_str_digit [of "nat i"] digit_not_special by blast+
  ultimately show ?thesis using False by (simp add: py_int_def py_str_def digits_value_nat_str)
qed

lemma py_str_no_colon: "CHR '':'' \<notin> set (py_str i)"
  by (auto simp: py_str_def dest: nat_str_digits digit_not_special)

lemma py_str_inject [simp]: "py_str i = py_str j \<longleftrightarrow> i = j"
  by (metis py_int_py_str sum.inject(2))

section \<open>Splitting at a separator\<close>

fun py_split :: "char \<Rightarrow> string \<Rightarrow> string list" where
  "py_split c [] = [[]]"
| "py_split c (x # xs) =
     (if x = c then [] # py_split c xs
      else (case py_split c xs of [] \<Rightarrow> [[x]] | t # ts \<Rightarrow> (x # t) # ts))"

lemma py_split_none: "c \<notin> set s \<Longrightarrow> py_split c s = [s]"
  by (induction s) auto

lemma py_split_append: "c \<notin> set s \<Longrightarrow> py_split c (s @ c # t) = s # py_split c t"
  by (induction s) auto

section \<open>Integers as bytes\<close>

definition int_unsigned_right_shift :: "int \<Rightarrow> nat \<Rightarrow> int" where
  "int_unsigned_right_shift number bits =
     (let b = bits AND 31; n = number AND 0xFFFFFFFF
      in drop_bit b n AND drop_bit b 0xFFFFFFFF)"

fun integer_to_byte_array_loop :: "nat \<Rightarrow> int \<Rightarrow> bytes \<Rightarrow> bytes" where
  "integer_to_byte_array_loop 0 v acc = acc"
| "integer_to_byte_array_loop (Suc i) v acc =
     integer_to_byte_array_loop i (int_unsigned_right_shift v 8) (word_of_int (v AND 0xFF) # acc)"

definition integer_to_byte_array :: "int \<Rightarrow> nat \<Rightarrow> bytes" where
  "integer_to_byte_array int_value num_bytes = integer_to_byte_array_loop num_bytes int_value []"

definition byte_array_to_integer :: "bytes \<Rightarrow> int" where
  "byte_array_to_integer bs =
     (let result = fold (\<lambda>b r. push_bit 8 r OR (uint b AND 0xFF)) bs 0;
          result = result AND 0xFFFFFFFF
      in if 0x80000000 \<le> result then result - 0x100000000 else result)"

lemma and_0xFF: "(v :: int) AND 0xFF = v mod 2 ^ 8"
  using take_bit_eq_mask [of 8 v] by (simp add: mask_eq_exp_minus_1 take_bit_eq_mod)

lemma and_0xFFFFFFFF: "(v :: int) AND 0xFFFFFFFF = v mod 2 ^ 32"
  using take_bit_eq_mask [of 32 v] by (simp add: mask_eq_exp_minus_1 take_bit_eq_mod)

lemma uint_byte_bounds: "0 \<le> uint (b :: 8 word) \<and> uint b < 256"
  using uint_lt2p [of b] by simp

lemma shift_or_byte: "push_bit 8 r OR (uint (b :: 8 word) AND 0xFF) = r * 256 + uint b"
proof -
  have b: "uint b AND 0xFF = uint b" using uint_byte_bounds [of b] by (simp add: and_0xFF)
  have "push_bit 8 r AND uint b = 0"
  proof (rule bit_eqI)
    fix n show "bit (push_bit 8 r AND uint b) n \<longleftrightarrow> bit (0 :: int) n"
      by (auto simp: bit_simps dest: bit_imp_le_length)
  qed
  then show ?thesis
    by (simp add: b disjunctive_add_eq_or [symmetric] push_bit_eq_mult)
qed

lemma unsigned_right_shift_8: "int_unsigned_right_shift v 8 = (v mod 2 ^ 32) div 2 ^ 8"
proof -
  have s: "(8 :: nat) AND 31 = 8" by simp
  have d: "drop_bit 8 (0xFFFFFFFF :: int) = 0xFFFFFF" by (simp add: drop_bit_eq_div)
  have m: "x AND 0xFFFFFF = x mod 2 ^ 24" for x :: int
    using take_bit_eq_mask [of 24 x] by (simp add: mask_eq_exp_minus_1 take_bit_eq_mod)
  have "v mod 2 ^ 32 \<le> 2 ^ 32 - 1"
    using pos_mod_bound [of "2 ^ 32" v] by simp
  then have "(v mod 2 ^ 32) div 2 ^ 8 \<le> (2 ^ 32 - 1) div 2 ^ 8" by (rule zdiv_mono1) simp
  then have "(v mod 2 ^ 32) div 2 ^ 8 < 2 ^ 24" by simp
  moreover have "0 \<le> (v mod 2 ^ 32) div 2 ^ 8" by simp
  ultimately have "(v mod 2 ^ 32) div 2 ^ 8 mod 2 ^ 24 = (v mod 2 ^ 32) div 2 ^ 8"
    by (rule mod_pos_pos_trivial [rotated])
  then show ?thesis
    unfolding int_unsigned_right_shift_def Let_def s d and_0xFFFFFFFF m
    by (simp add: drop_bit_eq_div)
qed

definition be_value :: "int \<Rightarrow> bytes \<Rightarrow> int" where
  "be_value r bs = fold (\<lambda>b r. r * 256 + uint b) bs r"

lemma be_value_simps [simp]:
  "be_value r [] = r"
  "be_value r (b # bs) = be_value (r * 256 + uint b) bs"
  by (simp_all add: be_value_def)

lemma byte_array_to_integer_be:
  "byte_array_to_integer bs =
     (let r = be_value 0 bs mod 2 ^ 32 in if 2 ^ 31 \<le> r then r - 2 ^ 32 else r)"
  unfolding byte_array_to_integer_def be_value_def shift_or_byte and_0xFFFFFFFF Let_def by simp

lemma be_value_loop:
  "0 \<le> v \<Longrightarrow> v < 2 ^ 32 \<Longrightarrow>
     be_value r (integer_to_byte_array_loop n v acc) =
     be_value (r * 256 ^ n + v mod 256 ^ n) acc"
proof (induction n arbitrary: v acc)
  case 0
  then show ?case by simp
next
  case (Suc n)
  have v8: "int_unsigned_right_shift v 8 = v div 256"
    using Suc.prems by (simp add: unsigned_right_shift_8)
  have range: "0 \<le> v div 256" "v div 256 < 2 ^ 32" using Suc.prems by auto
  have w: "uint (word_of_int (v AND 0xFF) :: 8 word) = v mod 256"
    by (simp add: and_0xFF uint_word_of_int)
  have "v mod (256 * 256 ^ n) = 256 * (v div 256 mod 256 ^ n) + v mod 256"
    by (rule zmod_zmult2_eq) simp
  then have e: "(r * 256 ^ n + v div 256 mod 256 ^ n) * 256 + v mod 256 =
      r * 256 ^ Suc n + v mod 256 ^ Suc n"
    by (simp add: algebra_simps)
  show ?case
    by (simp only: integer_to_byte_array_loop.simps be_value_simps v8 w Suc.IH [OF range] e)
qed

lemma length_integer_to_byte_array_loop [simp]:
  "length (integer_to_byte_array_loop n v acc) = n + length acc"
  by (induction n arbitrary: v acc) auto

lemma length_integer_to_byte_array [simp]: "length (integer_to_byte_array v n) = n"
  by (simp add: integer_to_byte_array_def)

lemma byte_array_round_trip:
  assumes "0 \<le> v" and "v < 256 ^ n" and "v < 2 ^ 31"
  shows "byte_array_to_integer (integer_to_byte_array v n) = v"
proof -
  have "be_value 0 (integer_to_byte_array v n) = v"
    using assms be_value_loop [of v 0 n "[]"] by (simp add: integer_to_byte_array_def)
  with assms show ?thesis by (simp add: byte_array_to_integer_be)
qed

lemma be_value_bounds: "0 \<le> be_value 0 bs \<and> be_value 0 bs < 256 ^ length bs"
proof -
  have "0 \<le> r \<Longrightarrow> 0 \<le> be_value r bs \<and> be_value r bs < (r + 1) * 256 ^ length bs" for r
  proof (induction bs arbitrary: r)
    case Nil
    then show ?case by simp
  next
    case (Cons b bs)
    have "0 \<le> r * 256 + uint b" using Cons.prems by simp
    note IH = Cons.IH [OF this]
    have "(r * 256 + uint b + 1) * 256 ^ length bs \<le> (r + 1) * 256 * 256 ^ length bs"
      using uint_byte_bounds [of b] by (intro mult_right_mono) auto
    from order.strict_trans2 [OF IH [THEN conjunct2] this] IH
    show ?case by (simp only: be_value_simps list.size power_Suc mult.assoc) simp
  qed
  from this [of 0] show ?thesis by simp
qed

lemma byte_array_to_integer_two_bytes:
  "length bs = 2 \<Longrightarrow> 0 \<le> byte_array_to_integer bs \<and> byte_array_to_integer bs \<le> 65535"
  using be_value_bounds [of bs] by (simp add: byte_array_to_integer_be)

end
