(* ===== verification/Dao_Model.thy ===== *)
theory Dao_Model
  imports Bisq_Bytes
begin

text \<open>
  The data of the DAO blockchain (\<open>bisq/core/dao/state/model/blockchain/\<close>, the raw
  transactions of \<open>dao/node/full/\<close> and the temporary ones of \<open>dao/node/parser/\<close>): the enums,
  the output keys with their order, the transactions and blocks, and the conversions between
  the raw, the temporary and the persisted form.  Enum members whose name several Python enums
  share carry a prefix; record fields carry the prefix of their class.
\<close>

section \<open>Enums\<close>

datatype op_return_type =
    OpR_UNDEFINED | OpR_PROPOSAL | OpR_COMPENSATION_REQUEST | OpR_REIMBURSEMENT_REQUEST
  | OpR_BLIND_VOTE | OpR_VOTE_REVEAL | OpR_LOCKUP | OpR_ASSET_LISTING_FEE | OpR_PROOF_OF_BURN

primrec opr_type :: "op_return_type \<Rightarrow> bytes" where
  "opr_type OpR_UNDEFINED = [0x00]"
| "opr_type OpR_PROPOSAL = [0x10]"
| "opr_type OpR_COMPENSATION_REQUEST = [0x11]"
| "opr_type OpR_REIMBURSEMENT_REQUEST = [0x12]"
| "opr_type OpR_BLIND_VOTE = [0x13]"
| "opr_type OpR_VOTE_REVEAL = [0x14]"
| "opr_type OpR_LOCKUP = [0x15]"
| "opr_type OpR_ASSET_LISTING_FEE = [0x16]"
| "opr_type OpR_PROOF_OF_BURN = [0x17]"

definition all_op_return_types :: "op_return_type list" where
  "all_op_return_types =
     [OpR_UNDEFINED, OpR_PROPOSAL, OpR_COMPENSATION_REQUEST, OpR_REIMBURSEMENT_REQUEST,
      OpR_BLIND_VOTE, OpR_VOTE_REVEAL, OpR_LOCKUP, OpR_ASSET_LISTING_FEE, OpR_PROOF_OF_BURN]"

definition get_op_return_type :: "bytes \<Rightarrow> op_return_type option" where
  "get_op_return_type t = find (\<lambda>p. opr_type p = t) all_op_return_types"

lemma get_op_return_type_type [simp]: "get_op_return_type (opr_type t) = Some t"
  by (cases t) (simp_all add: get_op_return_type_def all_op_return_types_def)

lemma get_op_return_type_Some: "get_op_return_type b = Some t \<Longrightarrow> b = opr_type t"
  by (auto simp: get_op_return_type_def dest: find_Some_iff_ex)

datatype tx_output_type =
    TXO_UNDEFINED | UNDEFINED_OUTPUT | GENESIS_OUTPUT | BSQ_OUTPUT | BTC_OUTPUT
  | PROPOSAL_OP_RETURN_OUTPUT | COMP_REQ_OP_RETURN_OUTPUT | REIMBURSEMENT_OP_RETURN_OUTPUT
  | CONFISCATE_BOND_OP_RETURN_OUTPUT | ISSUANCE_CANDIDATE_OUTPUT | BLIND_VOTE_LOCK_STAKE_OUTPUT
  | BLIND_VOTE_OP_RETURN_OUTPUT | VOTE_REVEAL_UNLOCK_STAKE_OUTPUT | VOTE_REVEAL_OP_RETURN_OUTPUT
  | ASSET_LISTING_FEE_OP_RETURN_OUTPUT | PROOF_OF_BURN_OP_RETURN_OUTPUT | LOCKUP_OUTPUT
  | LOCKUP_OP_RETURN_OUTPUT | UNLOCK_OUTPUT | INVALID_OUTPUT

datatype tx_type =
    TX_UNDEFINED | UNDEFINED_TX_TYPE | UNVERIFIED | INVALID | GENESIS | TRANSFER_BSQ
  | PAY_TRADE_FEE | PROPOSAL | COMPENSATION_REQUEST | REIMBURSEMENT_REQUEST | BLIND_VOTE
  | VOTE_REVEAL | LOCKUP | UNLOCK | ASSET_LISTING_FEE | PROOF_OF_BURN | IRREGULAR

fun has_op_return :: "tx_type \<Rightarrow> bool" where
  "has_op_return t =
     (t \<in> {PROPOSAL, COMPENSATION_REQUEST, REIMBURSEMENT_REQUEST, BLIND_VOTE, VOTE_REVEAL,
           LOCKUP, UNLOCK, ASSET_LISTING_FEE, PROOF_OF_BURN})"

fun requires_fee :: "tx_type \<Rightarrow> bool" where
  "requires_fee t =
     (t \<in> {PAY_TRADE_FEE, PROPOSAL, COMPENSATION_REQUEST, REIMBURSEMENT_REQUEST, BLIND_VOTE,
           ASSET_LISTING_FEE, PROOF_OF_BURN})"

datatype script_type =
    Script_UNDEFINED | NONSTANDARD | PUB_KEY | PUB_KEY_HASH | SCRIPT_HASH | MULTISIG | NULL_DATA
  | WITNESS_V0_KEYHASH | WITNESS_V0_SCRIPTHASH | WITNESS_V1_TAPROOT | WITNESS_UNKNOWN

primrec json_name :: "script_type \<Rightarrow> string" where
  "json_name Script_UNDEFINED = ''undefined''"
| "json_name NONSTANDARD = ''nonstandard''"
| "json_name PUB_KEY = ''pubkey''"
| "json_name PUB_KEY_HASH = ''pubkeyhash''"
| "json_name SCRIPT_HASH = ''scripthash''"
| "json_name MULTISIG = ''multisig''"
| "json_name NULL_DATA = ''nulldata''"
| "json_name WITNESS_V0_KEYHASH = ''witness_v0_keyhash''"
| "json_name WITNESS_V0_SCRIPTHASH = ''witness_v0_scripthash''"
| "json_name WITNESS_V1_TAPROOT = ''witness_v1_taproot''"
| "json_name WITNESS_UNKNOWN = ''witness_unknown''"

definition script_type_from_json_name :: "string \<Rightarrow> script_type res" where
  "script_type_from_json_name s =
     (case find (\<lambda>t. json_name t = s)
        [Script_UNDEFINED, NONSTANDARD, PUB_KEY, PUB_KEY_HASH, SCRIPT_HASH, MULTISIG, NULL_DATA,
         WITNESS_V0_KEYHASH, WITNESS_V0_SCRIPTHASH, WITNESS_V1_TAPROOT, WITNESS_UNKNOWN] of
        Some t \<Rightarrow> Inr t
      | None \<Rightarrow> Inl Illegal_Argument)"

lemma script_type_json_round_trip: "script_type_from_json_name (json_name t) = Inr t"
  by (cases t) (simp_all add: script_type_from_json_name_def)

section \<open>Output keys\<close>

datatype tx_output_key = TxOutputKey (key_tx_id: string) (key_index: int)

definition key_str :: "tx_output_key \<Rightarrow> string" where
  "key_str k = key_tx_id k @ '':'' @ py_str (key_index k)"

definition get_key_from_string :: "string \<Rightarrow> tx_output_key res" where
  "get_key_from_string s =
     (let tokens = py_split (CHR '':'') s
      in rbind (py_nth tokens 0) (\<lambda>t0.
         rbind (py_nth tokens 1) (\<lambda>t1.
         rbind (py_int t1) (\<lambda>i. Inr (TxOutputKey t0 i)))))"

text \<open>\<open>__eq__\<close> and \<open>__lt__\<close> compare the string forms.\<close>

definition key_eq :: "tx_output_key \<Rightarrow> tx_output_key \<Rightarrow> bool" where
  "key_eq k l \<longleftrightarrow> java_string_compare (key_str k) (key_str l) = 0"

definition key_lt :: "tx_output_key \<Rightarrow> tx_output_key \<Rightarrow> bool" where
  "key_lt k l \<longleftrightarrow> java_string_compare (key_str k) (key_str l) < 0"

lemma append_sep_inject:
  "c \<notin> set t \<Longrightarrow> c \<notin> set t' \<Longrightarrow> s @ c # t = s' @ c # t' \<longleftrightarrow> s = s' \<and> t = t'"
proof
  assume c: "c \<notin> set t" "c \<notin> set t'" and e: "s @ c # t = s' @ c # t'"
  then have "rev t @ c # rev s = rev t' @ c # rev s'"
    by (metis append.assoc append_Cons append_Nil rev.simps(2) rev_append)
  moreover have "takeWhile (\<lambda>x. x \<noteq> c) (rev u @ c # v) = rev u" if "c \<notin> set u" for u v
    using that by (subst takeWhile_append2) auto
  ultimately have "rev t = rev t'" using c by metis
  with e show "s = s' \<and> t = t'" by simp
qed simp

lemma key_str_inject [simp]: "key_str k = key_str l \<longleftrightarrow> k = l"
  using py_str_no_colon
  by (cases k; cases l) (simp add: key_str_def append_sep_inject)

lemma key_string_round_trip:
  "CHR '':'' \<notin> set (key_tx_id k) \<Longrightarrow> get_key_from_string (key_str k) = Inr k"
  by (cases k)
    (simp add: get_key_from_string_def key_str_def py_split_append py_split_none py_str_no_colon py_nth_def)

lemma key_eq_iff: "key_eq k l \<longleftrightarrow> k = l"
  by (simp add: key_eq_def java_string_compare_eq)

lemma key_str_linear: "key_str k < key_str l \<or> k = l \<or> key_str l < key_str k"
  by (metis key_str_inject neq_iff)

instantiation tx_output_key :: linorder
begin

definition less_tx_output_key where "k < l \<longleftrightarrow> key_lt k l"
definition less_eq_tx_output_key where "k \<le> l \<longleftrightarrow> key_lt k l \<or> key_eq k l"

instance
  by standard
    (use key_str_linear in \<open>auto simp: less_tx_output_key_def less_eq_tx_output_key_def
       key_lt_def key_eq_iff java_string_compare_less\<close>)

end

lemma key_less_iff: "k < l \<longleftrightarrow> key_str k < key_str l"
  by (simp add: less_tx_output_key_def key_lt_def java_string_compare_less)

section \<open>Outputs and inputs\<close>

record pub_key_script =
  pks_req_sigs :: int
  pks_script_type :: script_type
  pks_addresses :: "string list option"
  pks_asm :: string
  pks_hex :: string

record base_tx_output =
  txo_index :: int
  txo_value :: int
  txo_tx_id :: string
  txo_pub_key_script :: "pub_key_script option"
  txo_address :: "string option"
  txo_op_return_data :: "bytes option"
  txo_block_height :: int

type_synonym raw_tx_output = base_tx_output

record temp_tx_output = base_tx_output +
  tmp_output_type :: tx_output_type
  tmp_lock_time :: int
  tmp_unlock_block_height :: int

record tx_output = base_tx_output +
  out_type :: tx_output_type
  out_lock_time :: int
  out_unlock_block_height :: int

definition get_key :: "'a base_tx_output_scheme \<Rightarrow> tx_output_key" where
  "get_key out = TxOutputKey (txo_tx_id out) (txo_index out)"

definition from_raw_tx_output :: "raw_tx_output \<Rightarrow> temp_tx_output" where
  "from_raw_tx_output r =
     \<lparr> txo_index = txo_index r, txo_value = txo_value r, txo_tx_id = txo_tx_id r,
       txo_pub_key_script = txo_pub_key_script r, txo_address = txo_address r,
       txo_op_return_data = txo_op_return_data r, txo_block_height = txo_block_height r,
       tmp_output_type = UNDEFINED_OUTPUT, tmp_lock_time = -1, tmp_unlock_block_height = 0 \<rparr>"

definition from_temp_output :: "temp_tx_output \<Rightarrow> tx_output" where
  "from_temp_output t =
     \<lparr> txo_index = txo_index t, txo_value = txo_value t, txo_tx_id = txo_tx_id t,
       txo_pub_key_script = txo_pub_key_script t, txo_address = txo_address t,
       txo_op_return_data = txo_op_return_data t, txo_block_height = txo_block_height t,
       out_type = tmp_output_type t, out_lock_time = tmp_lock_time t,
       out_unlock_block_height = tmp_unlock_block_height t \<rparr>"

definition raw_output_from_tx_output :: "tx_output \<Rightarrow> raw_tx_output" where
  "raw_output_from_tx_output t =
     \<lparr> txo_index = txo_index t, txo_value = txo_value t, txo_tx_id = txo_tx_id t,
       txo_pub_key_script = txo_pub_key_script t, txo_address = txo_address t,
       txo_op_return_data = txo_op_return_data t, txo_block_height = txo_block_height t \<rparr>"

definition is_op_return_output :: "'a base_tx_output_scheme \<Rightarrow> bool" where
  "is_op_return_output out \<longleftrightarrow> txo_op_return_data out \<noteq> None"

record tx_input =
  connected_tx_output_tx_id :: string
  connected_tx_output_index :: int
  in_pub_key :: "string option"

definition get_connected_tx_output_key :: "tx_input \<Rightarrow> tx_output_key" where
  "get_connected_tx_output_key i =
     TxOutputKey (connected_tx_output_tx_id i) (connected_tx_output_index i)"

record spent_info =
  si_block_height :: int
  si_tx_id :: string
  si_input_index :: int

section \<open>Transactions\<close>

record base_tx =
  tx_version :: string
  tx_id :: string
  tx_block_height :: int
  tx_block_hash :: string
  tx_time :: int
  tx_inputs :: "tx_input list"

record raw_tx = base_tx +
  raw_tx_outputs :: "raw_tx_output list"

record temp_tx = base_tx +
  temp_tx_outputs :: "temp_tx_output list"
  temp_tx_type :: "tx_type option"
  temp_burnt_bsq :: int

record tx = base_tx +
  tx_outputs :: "tx_output list"
  tx_tx_type :: "tx_type option"
  tx_burnt_bsq :: int

definition temp_tx_from_raw_tx :: "raw_tx \<Rightarrow> temp_tx" where
  "temp_tx_from_raw_tx r =
     \<lparr> tx_version = tx_version r, tx_id = tx_id r, tx_block_height = tx_block_height r,
       tx_block_hash = tx_block_hash r, tx_time = tx_time r, tx_inputs = tx_inputs r,
       temp_tx_outputs = map from_raw_tx_output (raw_tx_outputs r),
       temp_tx_type = None, temp_burnt_bsq = 0 \<rparr>"

definition from_temp_tx :: "temp_tx \<Rightarrow> tx" where
  "from_temp_tx t =
     \<lparr> tx_version = tx_version t, tx_id = tx_id t, tx_block_height = tx_block_height t,
       tx_block_hash = tx_block_hash t, tx_time = tx_time t, tx_inputs = tx_inputs t,
       tx_outputs = map from_temp_output (temp_tx_outputs t),
       tx_tx_type = temp_tx_type t, tx_burnt_bsq = temp_burnt_bsq t \<rparr>"

definition raw_tx_from_tx :: "tx \<Rightarrow> raw_tx" where
  "raw_tx_from_tx t =
     \<lparr> tx_version = tx_version t, tx_id = tx_id t, tx_block_height = tx_block_height t,
       tx_block_hash = tx_block_hash t, tx_time = tx_time t, tx_inputs = tx_inputs t,
       raw_tx_outputs = map raw_output_from_tx_output (tx_outputs t) \<rparr>"

definition last_tx_output :: "tx \<Rightarrow> tx_output res" where
  "last_tx_output t = py_last (tx_outputs t)"

definition burnt_fee :: "tx \<Rightarrow> int" where
  "burnt_fee t = (if tx_tx_type t = Some INVALID then 0 else tx_burnt_bsq t)"

definition invalidated_bsq :: "tx \<Rightarrow> int" where
  "invalidated_bsq t = (if tx_tx_type t = Some INVALID then tx_burnt_bsq t else 0)"

definition lockup_output :: "tx \<Rightarrow> tx_output res" where
  "lockup_output t = py_nth (tx_outputs t) 0"

definition tx_lock_time :: "tx \<Rightarrow> int res" where
  "tx_lock_time t = rbind (lockup_output t) (\<lambda>out. Inr (out_lock_time out))"

definition locked_amount :: "tx \<Rightarrow> int res" where
  "locked_amount t = rbind (lockup_output t) (\<lambda>out. Inr (txo_value out))"

definition tx_unlock_block_height :: "tx \<Rightarrow> int res" where
  "tx_unlock_block_height t = rbind (lockup_output t) (\<lambda>out. Inr (out_unlock_block_height out))"

section \<open>Blocks\<close>

record base_block =
  blk_height :: int
  blk_time :: int
  blk_hash :: string
  blk_previous_block_hash :: "string option"

record block = base_block +
  blk_txs :: "tx list"

record raw_block = base_block +
  raw_txs :: "raw_tx list"

definition add_tx :: "tx \<Rightarrow> block \<Rightarrow> block" where
  "add_tx t b = b\<lparr>blk_txs := blk_txs b @ [t]\<rparr>"

definition raw_block_from_block :: "block \<Rightarrow> raw_block" where
  "raw_block_from_block b =
     \<lparr> blk_height = blk_height b, blk_time = blk_time b, blk_hash = blk_hash b,
       blk_previous_block_hash = blk_previous_block_hash b,
       raw_txs = map raw_tx_from_tx (blk_txs b) \<rparr>"

section \<open>Facts on the conversions\<close>

lemma get_key_conversions [simp]:
  "get_key (from_raw_tx_output r) = get_key r"
  "get_key (from_temp_output t) = get_key t"
  by (simp_all add: get_key_def from_raw_tx_output_def from_temp_output_def)

lemma from_temp_output_sel [simp]:
  "txo_index (from_temp_output t) = txo_index t"
  "txo_value (from_temp_output t) = txo_value t"
  "txo_tx_id (from_temp_output t) = txo_tx_id t"
  "txo_address (from_temp_output t) = txo_address t"
  "txo_op_return_data (from_temp_output t) = txo_op_return_data t"
  "txo_block_height (from_temp_output t) = txo_block_height t"
  "out_type (from_temp_output t) = tmp_output_type t"
  "out_lock_time (from_temp_output t) = tmp_lock_time t"
  "out_unlock_block_height (from_temp_output t) = tmp_unlock_block_height t"
  by (simp_all add: from_temp_output_def)

lemma from_raw_tx_output_sel [simp]:
  "txo_index (from_raw_tx_output r) = txo_index r"
  "txo_value (from_raw_tx_output r) = txo_value r"
  "txo_tx_id (from_raw_tx_output r) = txo_tx_id r"
  "txo_op_return_data (from_raw_tx_output r) = txo_op_return_data r"
  "txo_block_height (from_raw_tx_output r) = txo_block_height r"
  "tmp_output_type (from_raw_tx_output r) = UNDEFINED_OUTPUT"
  by (simp_all add: from_raw_tx_output_def)

lemma raw_output_round_trip: "raw_output_from_tx_output (from_temp_output (from_raw_tx_output r)) = r"
  by (simp add: raw_output_from_tx_output_def from_temp_output_def from_raw_tx_output_def)

lemma temp_tx_from_raw_tx_sel [simp]:
  "tx_id (temp_tx_from_raw_tx r) = tx_id r"
  "tx_block_height (temp_tx_from_raw_tx r) = tx_block_height r"
  "tx_inputs (temp_tx_from_raw_tx r) = tx_inputs r"
  "temp_tx_outputs (temp_tx_from_raw_tx r) = map from_raw_tx_output (raw_tx_outputs r)"
  "temp_tx_type (temp_tx_from_raw_tx r) = None"
  by (simp_all add: temp_tx_from_raw_tx_def)

lemma from_temp_tx_sel [simp]:
  "tx_id (from_temp_tx t) = tx_id t"
  "tx_block_height (from_temp_tx t) = tx_block_height t"
  "tx_inputs (from_temp_tx t) = tx_inputs t"
  "tx_outputs (from_temp_tx t) = map from_temp_output (temp_tx_outputs t)"
  "tx_tx_type (from_temp_tx t) = temp_tx_type t"
  "tx_burnt_bsq (from_temp_tx t) = temp_burnt_bsq t"
  by (simp_all add: from_temp_tx_def)

end
