(* ===== verification/Op_Return.thy ===== *)
theory Op_Return
  imports Dao_Model
begin

text \<open>
  The OP_RETURN data of the DAO transactions: the encoders and decoders of the consensus
  classes (\<open>bond_consensus.py\<close>, \<open>proposal_consensus.py\<close>, \<open>blind_vote_consensus.py\<close>,
  \<open>vote_result_consensus.py\<close>, \<open>vote_reveal_consensus.py\<close>, \<open>asset_consensus.py\<close>,
  \<open>proof_of_burn_consensus.py\<close>) and the classifier \<open>OpReturnParser.get_tx_output_type\<close>.  The
  locale \<open>op_return_format\<close> is the contract between an encoder and the classifier; every
  encoder of the code is an interpretation of it.
\<close>

section \<open>Consensus helpers\<close>

definition py_slice :: "nat \<Rightarrow> nat \<Rightarrow> 'a list \<Rightarrow> 'a list" where
  "py_slice a b xs = take (b - a) (drop a xs)"

text \<open>The version bytes of \<open>Version\<close> (\<open>bisq/common/version.py\<close>).\<close>

definition Version_COMPENSATION_REQUEST :: bytes where "Version_COMPENSATION_REQUEST = [0x01]"
definition Version_REIMBURSEMENT_REQUEST :: bytes where "Version_REIMBURSEMENT_REQUEST = [0x01]"
definition Version_PROPOSAL :: bytes where "Version_PROPOSAL = [0x01]"
definition Version_BLIND_VOTE :: bytes where "Version_BLIND_VOTE = [0x01]"
definition Version_VOTE_REVEAL :: bytes where "Version_VOTE_REVEAL = [0x01]"
definition Version_LOCKUP :: bytes where "Version_LOCKUP = [0x01]"
definition Version_ASSET_LISTING_FEE :: bytes where "Version_ASSET_LISTING_FEE = [0x01]"
definition Version_PROOF_OF_BURN :: bytes where "Version_PROOF_OF_BURN = [0x01]"

lemmas version_bytes =
  Version_COMPENSATION_REQUEST_def Version_REIMBURSEMENT_REQUEST_def Version_PROPOSAL_def
  Version_BLIND_VOTE_def Version_VOTE_REVEAL_def Version_LOCKUP_def
  Version_ASSET_LISTING_FEE_def Version_PROOF_OF_BURN_def

subsection \<open>Bonds\<close>

datatype lockup_reason = LR_UNDEFINED | BONDED_ROLE | REPUTATION

fun lockup_reason_id :: "lockup_reason \<Rightarrow> bytes" where
  "lockup_reason_id LR_UNDEFINED = [0x00]"
| "lockup_reason_id BONDED_ROLE = [0x01]"
| "lockup_reason_id REPUTATION = [0x02]"

definition lockup_reason_of_id :: "bytes \<Rightarrow> lockup_reason option" where
  "lockup_reason_of_id b = find (\<lambda>r. lockup_reason_id r = b) [LR_UNDEFINED, BONDED_ROLE, REPUTATION]"

definition MIN_LOCK_TIME :: int where "MIN_LOCK_TIME = 1"
definition MAX_LOCK_TIME :: int where "MAX_LOCK_TIME = 65535"

definition get_lockup_op_return_data :: "int \<Rightarrow> lockup_reason \<Rightarrow> bytes \<Rightarrow> bytes" where
  "get_lockup_op_return_data lock_time reason hash_value =
     opr_type OpR_LOCKUP @ Version_LOCKUP @ lockup_reason_id reason @
     integer_to_byte_array lock_time 2 @ hash_value"

definition bond_has_valid_length :: "bytes \<Rightarrow> bool" where
  "bond_has_valid_length d \<longleftrightarrow> length d = 25"

definition get_lock_time :: "bytes \<Rightarrow> int" where
  "get_lock_time d = byte_array_to_integer (py_slice 3 5 d)"

definition get_hash_from_op_return_data :: "bytes \<Rightarrow> bytes" where
  "get_hash_from_op_return_data d = py_slice 5 25 d"

definition is_lock_time_in_valid_range :: "int \<Rightarrow> bool" where
  "is_lock_time_in_valid_range t \<longleftrightarrow> MIN_LOCK_TIME \<le> t \<and> t \<le> MAX_LOCK_TIME"

definition get_lockup_reason :: "bytes \<Rightarrow> lockup_reason option" where
  "get_lockup_reason d = lockup_reason_of_id (py_slice 2 3 d)"

definition is_lock_time_over :: "int \<Rightarrow> int \<Rightarrow> bool" where
  "is_lock_time_over unlock_block_height current_block_height \<longleftrightarrow>
     unlock_block_height \<le> current_block_height"

subsection \<open>Proposals, votes, fees and burns\<close>

definition proposal_op_return_data :: "bytes \<Rightarrow> bytes \<Rightarrow> bytes \<Rightarrow> bytes" where
  "proposal_op_return_data hash_of_payload op_type version = op_type @ version @ hash_of_payload"

definition proposal_has_valid_length :: "bytes \<Rightarrow> bool" where
  "proposal_has_valid_length d \<longleftrightarrow> length d = 22"

definition blind_vote_op_return_data :: "bytes \<Rightarrow> bytes" where
  "blind_vote_op_return_data h = opr_type OpR_BLIND_VOTE @ Version_BLIND_VOTE @ h"

definition blind_vote_has_valid_length :: "bytes \<Rightarrow> bool" where
  "blind_vote_has_valid_length d \<longleftrightarrow> length d = 22"

definition vote_reveal_op_return_data :: "bytes \<Rightarrow> bytes \<Rightarrow> bytes" where
  "vote_reveal_op_return_data hash_of_blind_vote_list secret_key =
     opr_type OpR_VOTE_REVEAL @ Version_VOTE_REVEAL @ hash_of_blind_vote_list @ secret_key"

definition vote_result_has_valid_length :: "bytes \<Rightarrow> bool" where
  "vote_result_has_valid_length d \<longleftrightarrow> length d = 38"

definition get_hash_of_blind_vote_list :: "bytes \<Rightarrow> bytes" where
  "get_hash_of_blind_vote_list d = py_slice 2 22 d"

definition get_secret_key :: "bytes \<Rightarrow> bytes" where
  "get_secret_key d = py_slice 22 38 d"

definition asset_op_return_data :: "bytes \<Rightarrow> bytes" where
  "asset_op_return_data h = opr_type OpR_ASSET_LISTING_FEE @ Version_ASSET_LISTING_FEE @ h"

definition asset_has_valid_length :: "bytes \<Rightarrow> bool" where
  "asset_has_valid_length d \<longleftrightarrow> length d = 22"

definition proof_of_burn_op_return_data :: "bytes \<Rightarrow> bytes" where
  "proof_of_burn_op_return_data h = opr_type OpR_PROOF_OF_BURN @ Version_PROOF_OF_BURN @ h"

definition proof_of_burn_has_valid_length :: "bytes \<Rightarrow> bool" where
  "proof_of_burn_has_valid_length d \<longleftrightarrow> length d = 22"

definition pob_hash_from_op_return_data :: "bytes \<Rightarrow> bytes" where
  "pob_hash_from_op_return_data d = py_slice 2 22 d"

section \<open>The classifier\<close>

definition op_return_data_type :: "bytes \<Rightarrow> op_return_type \<Rightarrow> tx_output_type res" where
  "op_return_data_type d t =
     (case t of
        OpR_PROPOSAL \<Rightarrow>
          Inr (if proposal_has_valid_length d then PROPOSAL_OP_RETURN_OUTPUT else INVALID_OUTPUT)
      | OpR_COMPENSATION_REQUEST \<Rightarrow>
          Inr (if proposal_has_valid_length d then COMP_REQ_OP_RETURN_OUTPUT else INVALID_OUTPUT)
      | OpR_REIMBURSEMENT_REQUEST \<Rightarrow>
          Inr (if proposal_has_valid_length d then REIMBURSEMENT_OP_RETURN_OUTPUT
               else INVALID_OUTPUT)
      | OpR_BLIND_VOTE \<Rightarrow>
          Inr (if blind_vote_has_valid_length d then BLIND_VOTE_OP_RETURN_OUTPUT
               else INVALID_OUTPUT)
      | OpR_VOTE_REVEAL \<Rightarrow>
          Inr (if vote_result_has_valid_length d then VOTE_REVEAL_OP_RETURN_OUTPUT
               else INVALID_OUTPUT)
      | OpR_LOCKUP \<Rightarrow>
          Inr (if \<not> bond_has_valid_length d then INVALID_OUTPUT
               else if get_lockup_reason d = None then INVALID_OUTPUT
               else if is_lock_time_in_valid_range (get_lock_time d) then LOCKUP_OP_RETURN_OUTPUT
               else INVALID_OUTPUT)
      | OpR_ASSET_LISTING_FEE \<Rightarrow>
          Inr (if asset_has_valid_length d then ASSET_LISTING_FEE_OP_RETURN_OUTPUT
               else INVALID_OUTPUT)
      | OpR_PROOF_OF_BURN \<Rightarrow>
          Inr (if proof_of_burn_has_valid_length d then PROOF_OF_BURN_OP_RETURN_OUTPUT
               else INVALID_OUTPUT)
      | OpR_UNDEFINED \<Rightarrow> Inl Invalid_Parsing_Condition)"

text \<open>An enum member is truthy whatever its value, so \<open>if not op_return_type\<close> only rejects
  \<open>None\<close>: the \<open>UNDEFINED\<close> member falls through to the final \<open>else\<close>, which raises.\<close>

definition get_tx_output_type :: "'a base_tx_output_scheme \<Rightarrow> tx_output_type res" where
  "get_tx_output_type out =
     (case txo_op_return_data out of
        None \<Rightarrow> Inl Assertion_Error
      | Some d \<Rightarrow>
          if txo_value out \<noteq> 0 \<or> length d < 22 then Inr INVALID_OUTPUT
          else (case get_op_return_type (py_slice 0 1 d) of
                  None \<Rightarrow> Inr INVALID_OUTPUT
                | Some t \<Rightarrow> op_return_data_type d t))"

fun get_mapped_op_return_type :: "tx_output_type \<Rightarrow> op_return_type option" where
  "get_mapped_op_return_type PROPOSAL_OP_RETURN_OUTPUT = Some OpR_PROPOSAL"
| "get_mapped_op_return_type COMP_REQ_OP_RETURN_OUTPUT = Some OpR_COMPENSATION_REQUEST"
| "get_mapped_op_return_type REIMBURSEMENT_OP_RETURN_OUTPUT = Some OpR_REIMBURSEMENT_REQUEST"
| "get_mapped_op_return_type BLIND_VOTE_OP_RETURN_OUTPUT = Some OpR_BLIND_VOTE"
| "get_mapped_op_return_type VOTE_REVEAL_OP_RETURN_OUTPUT = Some OpR_VOTE_REVEAL"
| "get_mapped_op_return_type LOCKUP_OP_RETURN_OUTPUT = Some OpR_LOCKUP"
| "get_mapped_op_return_type ASSET_LISTING_FEE_OP_RETURN_OUTPUT = Some OpR_ASSET_LISTING_FEE"
| "get_mapped_op_return_type PROOF_OF_BURN_OP_RETURN_OUTPUT = Some OpR_PROOF_OF_BURN"
| "get_mapped_op_return_type _ = None"

lemmas op_return_length_defs =
  proposal_has_valid_length_def blind_vote_has_valid_length_def vote_result_has_valid_length_def
  bond_has_valid_length_def asset_has_valid_length_def proof_of_burn_has_valid_length_def

lemma op_return_data_type_range:
  "op_return_data_type d t = Inr ty \<Longrightarrow> ty = INVALID_OUTPUT \<or> get_mapped_op_return_type ty = Some t"
  by (auto simp: op_return_data_type_def split: op_return_type.splits if_splits)

lemma get_tx_output_type_range:
  "get_tx_output_type out = Inr ty \<Longrightarrow>
     ty = INVALID_OUTPUT \<or>
     (\<exists>t d. txo_op_return_data out = Some d \<and> take 1 d = opr_type t \<and>
        get_mapped_op_return_type ty = Some t)"
  by (auto simp: get_tx_output_type_def py_slice_def split: option.splits if_splits
      dest!: op_return_data_type_range get_op_return_type_Some)

lemma get_tx_output_type_error:
  "get_tx_output_type out = Inl e \<longleftrightarrow>
     (txo_op_return_data out = None \<and> e = Assertion_Error) \<or>
     (\<exists>d. txo_op_return_data out = Some d \<and> txo_value out = 0 \<and> 22 \<le> length d \<and>
        take 1 d = [0] \<and> e = Invalid_Parsing_Condition)"
proof (cases "txo_op_return_data out")
  case None
  then show ?thesis by (auto simp: get_tx_output_type_def)
next
  case (Some d)
  have e: "op_return_data_type d t = Inl e \<longleftrightarrow> t = OpR_UNDEFINED \<and> e = Invalid_Parsing_Condition" for t
    by (cases t) (auto simp: op_return_data_type_def)
  have u: "get_op_return_type b = Some OpR_UNDEFINED \<longleftrightarrow> b = [0]" for b
    using get_op_return_type_Some [of b OpR_UNDEFINED] get_op_return_type_type [of OpR_UNDEFINED]
    by auto
  show ?thesis
    by (auto simp: get_tx_output_type_def Some e py_slice_def u [symmetric] not_less
        split: option.splits)
qed

section \<open>The contract of an OP_RETURN encoder\<close>

locale op_return_format =
  fixes kind :: op_return_type
    and out_ty :: tx_output_type
    and encode :: "'p \<Rightarrow> bytes"
    and decode :: "bytes \<Rightarrow> 'p"
    and valid :: "'p \<Rightarrow> bool"
  assumes decode_encode: "valid p \<Longrightarrow> decode (encode p) = p"
    and type_byte: "valid p \<Longrightarrow> take 1 (encode p) = opr_type kind"
    and min_length: "valid p \<Longrightarrow> 22 \<le> length (encode p)"
    and data_type: "valid p \<Longrightarrow> op_return_data_type (encode p) kind = Inr out_ty"
    and mapped: "get_mapped_op_return_type out_ty = Some kind"
begin

lemma encode_inject: "valid p \<Longrightarrow> valid q \<Longrightarrow> encode p = encode q \<longleftrightarrow> p = q"
  by (metis decode_encode)

lemma classified:
  assumes "valid p" and "txo_value out = 0" and "txo_op_return_data out = Some (encode p)"
  shows "get_tx_output_type out = Inr out_ty"
  using assms min_length [of p] type_byte [of p] data_type [of p]
  by (simp add: get_tx_output_type_def py_slice_def)

lemma classified_with_value:
  assumes "txo_value out \<noteq> 0" and "txo_op_return_data out = Some (encode p)"
  shows "get_tx_output_type out = Inr INVALID_OUTPUT"
  using assms by (simp add: get_tx_output_type_def)

lemma round_trip:
  assumes "valid p" and "txo_value out = 0" and "txo_op_return_data out = Some (encode p)"
  shows "\<exists>ty. get_tx_output_type out = Inr ty \<and> get_mapped_op_return_type ty = Some kind \<and>
           map_option decode (txo_op_return_data out) = Some p"
  using classified [OF assms] assms mapped by (simp add: decode_encode)

end

definition hash20 :: "bytes \<Rightarrow> bool" where
  "hash20 h \<longleftrightarrow> length h = 20"

interpretation proposal: op_return_format OpR_PROPOSAL PROPOSAL_OP_RETURN_OUTPUT
  "\<lambda>h. proposal_op_return_data h (opr_type OpR_PROPOSAL) Version_PROPOSAL" "drop 2" hash20
  by unfold_locales
    (simp_all add: proposal_op_return_data_def version_bytes hash20_def op_return_data_type_def
      op_return_length_defs)

interpretation compensation: op_return_format OpR_COMPENSATION_REQUEST COMP_REQ_OP_RETURN_OUTPUT
  "\<lambda>h. proposal_op_return_data h (opr_type OpR_COMPENSATION_REQUEST) Version_COMPENSATION_REQUEST"
  "drop 2" hash20
  by unfold_locales
    (simp_all add: proposal_op_return_data_def version_bytes hash20_def op_return_data_type_def
      op_return_length_defs)

interpretation reimbursement: op_return_format OpR_REIMBURSEMENT_REQUEST
  REIMBURSEMENT_OP_RETURN_OUTPUT
  "\<lambda>h. proposal_op_return_data h (opr_type OpR_REIMBURSEMENT_REQUEST) Version_REIMBURSEMENT_REQUEST"
  "drop 2" hash20
  by unfold_locales
    (simp_all add: proposal_op_return_data_def version_bytes hash20_def op_return_data_type_def
      op_return_length_defs)

interpretation blind_vote: op_return_format OpR_BLIND_VOTE BLIND_VOTE_OP_RETURN_OUTPUT
  blind_vote_op_return_data "drop 2" hash20
  by unfold_locales
    (simp_all add: blind_vote_op_return_data_def version_bytes hash20_def op_return_data_type_def
      op_return_length_defs)

interpretation vote_reveal: op_return_format OpR_VOTE_REVEAL VOTE_REVEAL_OP_RETURN_OUTPUT
  "\<lambda>(h, k). vote_reveal_op_return_data h k"
  "\<lambda>d. (get_hash_of_blind_vote_list d, get_secret_key d)"
  "\<lambda>(h, k). hash20 h \<and> length k = 16"
  by unfold_locales
    (auto simp: vote_reveal_op_return_data_def version_bytes hash20_def op_return_data_type_def
      op_return_length_defs get_hash_of_blind_vote_list_def get_secret_key_def py_slice_def)

interpretation asset: op_return_format OpR_ASSET_LISTING_FEE ASSET_LISTING_FEE_OP_RETURN_OUTPUT
  asset_op_return_data "drop 2" hash20
  by unfold_locales
    (simp_all add: asset_op_return_data_def version_bytes hash20_def op_return_data_type_def
      op_return_length_defs)

interpretation proof_of_burn: op_return_format OpR_PROOF_OF_BURN PROOF_OF_BURN_OP_RETURN_OUTPUT
  proof_of_burn_op_return_data pob_hash_from_op_return_data hash20
  by unfold_locales
    (simp_all add: proof_of_burn_op_return_data_def version_bytes hash20_def op_return_data_type_def
      op_return_length_defs pob_hash_from_op_return_data_def py_slice_def)

text \<open>A lockup payload: lock time, reason and hash.\<close>

definition lockup_payload_ok :: "int \<times> lockup_reason \<times> bytes \<Rightarrow> bool" where
  "lockup_payload_ok = (\<lambda>(t, r, h). is_lock_time_in_valid_range t \<and> hash20 h)"

definition decode_lockup :: "bytes \<Rightarrow> int \<times> lockup_reason \<times> bytes" where
  "decode_lockup d =
     (get_lock_time d, the (get_lockup_reason d), get_hash_from_op_return_data d)"

lemma length_lockup_reason_id [simp]: "length (lockup_reason_id r) = Suc 0"
  by (cases r) auto

lemma lockup_reason_round_trip [simp]: "lockup_reason_of_id (lockup_reason_id r) = Some r"
  by (cases r) (simp_all add: lockup_reason_of_id_def)

lemma lockup_slices:
  assumes "length h = 20"
  shows "py_slice 2 3 (get_lockup_op_return_data t r h) = lockup_reason_id r"
    and "py_slice 3 5 (get_lockup_op_return_data t r h) = integer_to_byte_array t 2"
    and "py_slice 5 25 (get_lockup_op_return_data t r h) = h"
    and "length (get_lockup_op_return_data t r h) = 25"
    and "take (Suc 0) (get_lockup_op_return_data t r h) = opr_type OpR_LOCKUP"
  using assms by (simp_all add: get_lockup_op_return_data_def py_slice_def version_bytes)

lemma get_lock_time_lockup:
  "length h = 20 \<Longrightarrow> 0 \<le> t \<Longrightarrow> t \<le> 65535 \<Longrightarrow>
     get_lock_time (get_lockup_op_return_data t r h) = t"
  by (simp add: get_lock_time_def lockup_slices byte_array_round_trip)

interpretation lockup: op_return_format OpR_LOCKUP LOCKUP_OP_RETURN_OUTPUT
  "\<lambda>(t, r, h). get_lockup_op_return_data t r h" decode_lockup lockup_payload_ok
  by unfold_locales
    (auto simp: lockup_payload_ok_def hash20_def decode_lockup_def get_lockup_reason_def
      get_hash_from_op_return_data_def lockup_slices get_lock_time_lockup op_return_data_type_def
      op_return_length_defs is_lock_time_in_valid_range_def MIN_LOCK_TIME_def MAX_LOCK_TIME_def)

lemma get_lock_time_bounds:
  "length d = 25 \<Longrightarrow> 0 \<le> get_lock_time d \<and> get_lock_time d \<le> MAX_LOCK_TIME"
  using byte_array_to_integer_two_bytes [of "py_slice 3 5 d"]
  by (simp add: get_lock_time_def MAX_LOCK_TIME_def py_slice_def)

section \<open>Properties\<close>

text \<open>C40: a lockup OP_RETURN that \<open>BondConsensus.get_lockup_op_return_data\<close> builds for a lock time
  in the valid range and a 20-byte hash, in an output of value 0, is classified as
  \<open>LOCKUP_OP_RETURN_OUTPUT\<close>, and the decoders of \<open>BondConsensus\<close> read back the lock time, the
  reason and the hash.\<close>

theorem op_return_lockup_round_trip:
  assumes "1 \<le> t" and "t \<le> 65535" and "length h = 20" and "txo_value out = 0"
    and "txo_op_return_data out = Some (get_lockup_op_return_data t r h)"
  shows "get_tx_output_type out = Inr LOCKUP_OP_RETURN_OUTPUT \<and>
     get_lock_time (get_lockup_op_return_data t r h) = t \<and>
     get_lockup_reason (get_lockup_op_return_data t r h) = Some r \<and>
     get_hash_from_op_return_data (get_lockup_op_return_data t r h) = h"
  using assms lockup.classified [of "(t, r, h)" out]
  by (simp add: lockup_payload_ok_def hash20_def is_lock_time_in_valid_range_def MIN_LOCK_TIME_def
      MAX_LOCK_TIME_def get_lock_time_lockup get_lockup_reason_def get_hash_from_op_return_data_def
      lockup_slices)

lemma op_return_lockup_round_trip_witness:
  "let d = get_lockup_op_return_data 4096 REPUTATION (replicate 20 7);
       out = \<lparr>txo_index = 1, txo_value = 0, txo_tx_id = ''t'', txo_pub_key_script = None,
              txo_address = None, txo_op_return_data = Some d, txo_block_height = 700000\<rparr>
   in get_tx_output_type out = Inr LOCKUP_OP_RETURN_OUTPUT \<and> get_lock_time d = 4096"
  using op_return_lockup_round_trip [of 4096 "replicate 20 7"
      "\<lparr>txo_index = 1, txo_value = 0, txo_tx_id = ''t'', txo_pub_key_script = None,
        txo_address = None,
        txo_op_return_data = Some (get_lockup_op_return_data 4096 REPUTATION (replicate 20 7)),
        txo_block_height = 700000\<rparr>" REPUTATION]
  by (simp add: Let_def)

end
