(* ===== verification/Dao_Cycle.thy ===== *)
theory Dao_Cycle
  imports Dao_Model
begin

text \<open>
  Phases and cycles (\<open>dao/state/model/governance/dao_phase.py\<close>, \<open>cycle.py\<close>).  The locale
  \<open>interval_schedule\<close> is the contract of a schedule that tiles a range of block heights; it
  is interpreted for the phases of a cycle here and for the cycles of the chain in
  \<open>Cycle_Service\<close>.
\<close>

section \<open>Schedules that tile a range\<close>

fun tiles :: "int \<Rightarrow> (int \<times> int) list \<Rightarrow> int \<Rightarrow> bool" where
  "tiles a [] b \<longleftrightarrow> b = a - 1"
| "tiles a ((l, h) # xs) b \<longleftrightarrow> l = a \<and> l \<le> h + 1 \<and> tiles (h + 1) xs b"

lemma tiles_le: "tiles a xs b \<Longrightarrow> a \<le> b + 1"
  by (induction a xs b rule: tiles.induct) auto

lemma tiles_append:
  "tiles a (xs @ ys) b \<longleftrightarrow> (\<exists>m. tiles a xs m \<and> tiles (m + 1) ys b)"
  by (induction xs arbitrary: a) auto

lemma tiles_seg_bounds: "tiles a xs b \<Longrightarrow> (l, h) \<in> set xs \<Longrightarrow> a \<le> l \<and> h \<le> b"
proof (induction a xs b rule: tiles.induct)
  case (2 a l' h' xs b)
  then show ?case using tiles_le [of "h' + 1" xs b] by fastforce
qed simp

lemma tiles_covers:
  "tiles a xs b \<Longrightarrow> a \<le> x \<and> x \<le> b \<longleftrightarrow> (\<exists>(l, h) \<in> set xs. l \<le> x \<and> x \<le> h)"
proof (induction a xs b rule: tiles.induct)
  case (2 a l h xs b)
  then have "h + 1 \<le> x \<and> x \<le> b \<longleftrightarrow> (\<exists>(l, h) \<in> set xs. l \<le> x \<and> x \<le> h)" by simp
  with 2 show ?case using tiles_le [of "h + 1" xs b] by (cases "x \<le> h") auto
qed auto

lemma tiles_unique:
  assumes "tiles a xs b" and "i < length xs" and "j < length xs" and "i < j"
    and "fst (xs ! i) \<le> x" "x \<le> snd (xs ! i)" "fst (xs ! j) \<le> x" "x \<le> snd (xs ! j)"
  shows False
  using assms
proof (induction a xs b arbitrary: i j rule: tiles.induct)
  case (2 a l h xs b)
  show ?case
  proof (cases i)
    case 0
    then obtain j' where j: "j = Suc j'" using "2.prems"(4) by (cases j) auto
    with "2.prems" have m: "xs ! j' \<in> set xs" by simp
    then have "h + 1 \<le> fst (xs ! j')"
      using tiles_seg_bounds [of "h + 1" xs b "fst (xs ! j')" "snd (xs ! j')"] "2.prems"(1) by simp
    with "2.prems" 0 j show False by simp
  next
    case (Suc i')
    then obtain j' where "j = Suc j'" using "2.prems"(4) by (cases j) auto
    with Suc "2.prems" show False by (intro "2.IH" [of i' j']) auto
  qed
qed simp

locale interval_schedule =
  fixes segments :: "'s \<Rightarrow> 'i list"
    and seg_lo seg_hi :: "'s \<Rightarrow> 'i \<Rightarrow> int"
    and start stop :: "'s \<Rightarrow> int"
    and wf :: "'s \<Rightarrow> bool"
  assumes tiling:
    "wf s \<Longrightarrow> tiles (start s) (map (\<lambda>i. (seg_lo s i, seg_hi s i)) (segments s)) (stop s)"
begin

lemma covered_iff:
  "wf s \<Longrightarrow> start s \<le> h \<and> h \<le> stop s \<longleftrightarrow>
     (\<exists>i \<in> set (segments s). seg_lo s i \<le> h \<and> h \<le> seg_hi s i)"
  by (subst tiles_covers [OF tiling]) auto

lemma seg_unique:
  assumes "wf s" and "i \<in> set (segments s)" and "j \<in> set (segments s)"
    and "seg_lo s i \<le> h" "h \<le> seg_hi s i" "seg_lo s j \<le> h" "h \<le> seg_hi s j"
  shows "i = j"
proof -
  obtain m n where mn: "m < length (segments s)" "segments s ! m = i"
      "n < length (segments s)" "segments s ! n = j"
    using assms(2,3) by (auto simp: in_set_conv_nth)
  have "m = n"
    using tiles_unique [OF tiling [OF assms(1)], of m n h]
      tiles_unique [OF tiling [OF assms(1)], of n m h] mn assms
    by (cases m n rule: linorder_cases) auto
  with mn show ?thesis by simp
qed

lemma find_segment:
  assumes "wf s"
  shows "find (\<lambda>i. seg_lo s i \<le> h \<and> h \<le> seg_hi s i) (segments s) = Some i \<longleftrightarrow>
           i \<in> set (segments s) \<and> seg_lo s i \<le> h \<and> h \<le> seg_hi s i"
    (is "find ?p _ = _ \<longleftrightarrow> ?r")
proof
  assume "find ?p (segments s) = Some i"
  then show ?r by (rule find_Some_iff_ex)
next
  assume r: ?r
  then obtain j where j: "find ?p (segments s) = Some j"
    using find_not_None [of i "segments s" ?p] by auto
  from find_Some_iff_ex [OF this] r have "j = i" by (auto intro: seg_unique [OF assms])
  with j show "find ?p (segments s) = Some i" by simp
qed

lemma find_segment_None:
  assumes "wf s"
  shows "find (\<lambda>i. seg_lo s i \<le> h \<and> h \<le> seg_hi s i) (segments s) = None \<longleftrightarrow>
           \<not> (start s \<le> h \<and> h \<le> stop s)"
  unfolding covered_iff [OF assms] by (auto simp: find_None_iff)

end

section \<open>Phases\<close>

datatype phase =
    Phase_UNDEFINED | Phase_PROPOSAL | Phase_BREAK1 | Phase_BLIND_VOTE | Phase_BREAK2
  | Phase_VOTE_REVEAL | Phase_BREAK3 | Phase_RESULT

fun phase_value :: "phase \<Rightarrow> int" where
  "phase_value Phase_UNDEFINED = 0"
| "phase_value Phase_PROPOSAL = 1"
| "phase_value Phase_BREAK1 = 2"
| "phase_value Phase_BLIND_VOTE = 3"
| "phase_value Phase_BREAK2 = 4"
| "phase_value Phase_VOTE_REVEAL = 5"
| "phase_value Phase_BREAK3 = 6"
| "phase_value Phase_RESULT = 7"

definition all_phases :: "phase list" where
  "all_phases =
     [Phase_UNDEFINED, Phase_PROPOSAL, Phase_BREAK1, Phase_BLIND_VOTE, Phase_BREAK2,
      Phase_VOTE_REVEAL, Phase_BREAK3, Phase_RESULT]"

lemma phase_value_inject [simp]: "phase_value p = phase_value q \<longleftrightarrow> p = q"
  by (cases p; cases q) simp_all

record dao_phase =
  dp_phase :: phase
  dp_duration :: int

text \<open>The Protobuffer form of a \<open>DaoPhase\<close> is the pair of its ordinal and its duration.\<close>

definition dao_phase_to_proto :: "dao_phase \<Rightarrow> int \<times> int" where
  "dao_phase_to_proto d = (phase_value (dp_phase d), dp_duration d)"

definition dao_phase_from_proto :: "int \<times> int \<Rightarrow> dao_phase res" where
  "dao_phase_from_proto pr =
     (case pr of (ordinal, duration) \<Rightarrow>
        if int (length all_phases) \<le> ordinal
        then Inr \<lparr>dp_phase = Phase_UNDEFINED, dp_duration = 0\<rparr>
        else (case find (\<lambda>p. phase_value p = ordinal) all_phases of
                None \<Rightarrow> Inl Value_Error
              | Some p \<Rightarrow> Inr \<lparr>dp_phase = p, dp_duration = duration\<rparr>))"

lemma dao_phase_round_trip: "dao_phase_from_proto (dao_phase_to_proto d) = Inr d"
  by (cases "dp_phase d")
    (simp_all add: dao_phase_from_proto_def dao_phase_to_proto_def all_phases_def)

section \<open>Cycles\<close>

record cycle =
  cyc_dao_phase_list :: "dao_phase list"
  cyc_height_of_first_block :: int

definition get_phase_wrapper :: "cycle \<Rightarrow> phase \<Rightarrow> dao_phase option" where
  "get_phase_wrapper c p = find (\<lambda>d. dp_phase d = p) (cyc_dao_phase_list c)"

definition get_duration :: "cycle \<Rightarrow> phase option \<Rightarrow> int" where
  "get_duration c p =
     (case p of
        None \<Rightarrow> sum_list (map dp_duration (cyc_dao_phase_list c))
      | Some p' \<Rightarrow> (case get_phase_wrapper c p' of Some d \<Rightarrow> dp_duration d | None \<Rightarrow> 0))"

definition height_of_last_block :: "cycle \<Rightarrow> int" where
  "height_of_last_block c = cyc_height_of_first_block c + get_duration c None - 1"

definition cycle_first_block_of_phase :: "cycle \<Rightarrow> phase \<Rightarrow> int" where
  "cycle_first_block_of_phase c p =
     cyc_height_of_first_block c +
     sum_list (map dp_duration
       (filter (\<lambda>d. phase_value (dp_phase d) < phase_value p) (cyc_dao_phase_list c)))"

definition cycle_last_block_of_phase :: "cycle \<Rightarrow> phase \<Rightarrow> int" where
  "cycle_last_block_of_phase c p = cycle_first_block_of_phase c p + get_duration c (Some p) - 1"

definition cycle_is_in_phase :: "cycle \<Rightarrow> int \<Rightarrow> phase \<Rightarrow> bool" where
  "cycle_is_in_phase c h p \<longleftrightarrow>
     cycle_first_block_of_phase c p \<le> h \<and> h \<le> cycle_last_block_of_phase c p"

definition is_in_cycle :: "cycle \<Rightarrow> int \<Rightarrow> bool" where
  "is_in_cycle c h \<longleftrightarrow> cyc_height_of_first_block c \<le> h \<and> h \<le> height_of_last_block c"

definition get_duration_of_phase :: "cycle \<Rightarrow> phase \<Rightarrow> int" where
  "get_duration_of_phase c p =
     sum_list (map dp_duration (filter (\<lambda>d. dp_phase d = p) (cyc_dao_phase_list c)))"

definition cycle_phase_for_height :: "cycle \<Rightarrow> int \<Rightarrow> phase option" where
  "cycle_phase_for_height c h =
     map_option dp_phase
       (find (\<lambda>d. cycle_is_in_phase c h (dp_phase d)) (cyc_dao_phase_list c))"

text \<open>A well-formed cycle: the phases in the order of the enum, no duration negative.\<close>

definition wf_cycle :: "cycle \<Rightarrow> bool" where
  "wf_cycle c \<longleftrightarrow>
     sorted_wrt (<) (map (phase_value \<circ> dp_phase) (cyc_dao_phase_list c)) \<and>
     (\<forall>d \<in> set (cyc_dao_phase_list c). 0 \<le> dp_duration d)"

lemma wrapper_at:
  assumes "sorted_wrt (<) (map (phase_value \<circ> dp_phase) (xs @ d # ys))"
  shows "find (\<lambda>e. dp_phase e = dp_phase d) (xs @ d # ys) = Some d"
    and "filter (\<lambda>e. phase_value (dp_phase e) < phase_value (dp_phase d)) (xs @ d # ys) = xs"
  using assms by (induction xs) (auto simp: filter_empty_conv)

lemma phases_tile:
  assumes "sorted_wrt (<) (map (phase_value \<circ> dp_phase) (xs @ ys))"
    and "\<forall>d \<in> set (xs @ ys). 0 \<le> dp_duration d"
    and "cyc_dao_phase_list c = xs @ ys"
  shows "tiles (cyc_height_of_first_block c + sum_list (map dp_duration xs))
     (map (\<lambda>d. (cycle_first_block_of_phase c (dp_phase d), cycle_last_block_of_phase c (dp_phase d))) ys)
     (height_of_last_block c)"
  using assms
proof (induction ys arbitrary: xs)
  case Nil
  then show ?case by (simp add: height_of_last_block_def get_duration_def)
next
  case (Cons d ys)
  have f: "cycle_first_block_of_phase c (dp_phase d) =
      cyc_height_of_first_block c + sum_list (map dp_duration xs)"
    unfolding cycle_first_block_of_phase_def Cons.prems(3) wrapper_at(2) [OF Cons.prems(1)] ..
  have l: "cycle_last_block_of_phase c (dp_phase d) =
      cyc_height_of_first_block c + sum_list (map dp_duration xs) + dp_duration d - 1"
    by (simp add: cycle_last_block_of_phase_def f get_duration_def get_phase_wrapper_def
        Cons.prems(3) wrapper_at(1) [OF Cons.prems(1)] del: find.simps)
  from Cons.IH [of "xs @ [d]"] Cons.prems show ?case by (simp add: f l algebra_simps)
qed

interpretation phases: interval_schedule cyc_dao_phase_list
  "\<lambda>c d. cycle_first_block_of_phase c (dp_phase d)" "\<lambda>c d. cycle_last_block_of_phase c (dp_phase d)"
  cyc_height_of_first_block height_of_last_block wf_cycle
  by unfold_locales (use phases_tile [of "[]"] in \<open>simp add: wf_cycle_def\<close>)

lemma phase_for_height_iff:
  assumes "wf_cycle c"
  shows "cycle_phase_for_height c h = Some p \<longleftrightarrow>
           p \<in> dp_phase ` set (cyc_dao_phase_list c) \<and> cycle_is_in_phase c h p"
proof -
  note f = phases.find_segment [OF assms, of h, folded cycle_is_in_phase_def]
  have "cycle_phase_for_height c h = Some p \<longleftrightarrow>
      (\<exists>d \<in> set (cyc_dao_phase_list c). cycle_is_in_phase c h (dp_phase d) \<and> dp_phase d = p)"
    unfolding cycle_phase_for_height_def map_option_eq_Some f by blast
  then show ?thesis by auto
qed

lemma phase_for_height_None:
  "wf_cycle c \<Longrightarrow> cycle_phase_for_height c h = None \<longleftrightarrow> \<not> is_in_cycle c h"
  by (simp add: cycle_phase_for_height_def is_in_cycle_def cycle_is_in_phase_def
      phases.find_segment_None)

lemma duration_of_phase_eq:
  assumes "wf_cycle c"
  shows "get_duration_of_phase c p = get_duration c (Some p)"
proof (cases "get_phase_wrapper c p")
  case None
  then have "filter (\<lambda>d. dp_phase d = p) (cyc_dao_phase_list c) = []"
    by (auto simp: get_phase_wrapper_def find_None_iff filter_empty_conv)
  with None show ?thesis by (simp add: get_duration_of_phase_def get_duration_def)
next
  case (Some d)
  then have d: "d \<in> set (cyc_dao_phase_list c)" "dp_phase d = p"
    unfolding get_phase_wrapper_def by (auto dest: find_Some_iff_ex)
  obtain xs ys where xs: "cyc_dao_phase_list c = xs @ d # ys" using d(1) split_list by metis
  have "\<forall>x \<in> set xs. dp_phase x \<noteq> p" and "\<forall>x \<in> set ys. dp_phase x \<noteq> p"
    using assms d(2) unfolding wf_cycle_def xs by (auto simp: sorted_wrt_append)
  then have "filter (\<lambda>e. dp_phase e = p) (xs @ d # ys) = [d]" using d(2) by simp
  then show ?thesis by (simp add: get_duration_of_phase_def get_duration_def Some xs)
qed

end
