(* ===== verification/Dao_Param.thy ===== *)
theory Dao_Param
  imports Dao_Cycle
begin

text \<open>
  The DAO parameters (\<open>dao/governance/param/param.py\<close>, \<open>param_type.py\<close>) with their default
  values, which depend on the configured network (\<open>bisq/common/config/base_currency_network.py\<close>),
  and the persisted parameter changes.  The limits \<open>max_decrease\<close> and \<open>max_increase\<close> are only
  read by the proposal validators and are not modelled.
\<close>

datatype base_currency_network =
    BTC_MAINNET | BTC_TESTNET | BTC_REGTEST | BTC_DAO_TESTNET | BTC_DAO_BETANET | BTC_DAO_REGTEST

definition is_mainnet :: "base_currency_network \<Rightarrow> bool" where "is_mainnet n \<longleftrightarrow> n = BTC_MAINNET"
definition is_testnet :: "base_currency_network \<Rightarrow> bool" where "is_testnet n \<longleftrightarrow> n = BTC_TESTNET"
definition is_regtest :: "base_currency_network \<Rightarrow> bool" where "is_regtest n \<longleftrightarrow> n = BTC_REGTEST"
definition is_dao_regtest :: "base_currency_network \<Rightarrow> bool" where
  "is_dao_regtest n \<longleftrightarrow> n = BTC_DAO_REGTEST"
definition is_dao_betanet :: "base_currency_network \<Rightarrow> bool" where
  "is_dao_betanet n \<longleftrightarrow> n = BTC_DAO_BETANET"

lemmas network_defs =
  is_mainnet_def is_testnet_def is_regtest_def is_dao_regtest_def is_dao_betanet_def

datatype param_type = PT_UNDEFINED | PT_BSQ | PT_BTC | PT_PERCENT | PT_BLOCK | PT_ADDRESS

datatype param =
    Param_UNDEFINED
  | DEFAULT_MAKER_FEE_BTC | DEFAULT_TAKER_FEE_BTC | MIN_MAKER_FEE_BTC | MIN_TAKER_FEE_BTC
  | DEFAULT_MAKER_FEE_BSQ | DEFAULT_TAKER_FEE_BSQ | MIN_MAKER_FEE_BSQ | MIN_TAKER_FEE_BSQ
  | PROPOSAL_FEE | BLIND_VOTE_FEE
  | COMPENSATION_REQUEST_MIN_AMOUNT | COMPENSATION_REQUEST_MAX_AMOUNT
  | REIMBURSEMENT_MIN_AMOUNT | REIMBURSEMENT_MAX_AMOUNT
  | QUORUM_COMP_REQUEST | QUORUM_REIMBURSEMENT | QUORUM_CHANGE_PARAM | QUORUM_ROLE
  | QUORUM_CONFISCATION | QUORUM_GENERIC | QUORUM_REMOVE_ASSET
  | THRESHOLD_COMP_REQUEST | THRESHOLD_REIMBURSEMENT | THRESHOLD_CHANGE_PARAM | THRESHOLD_ROLE
  | THRESHOLD_CONFISCATION | THRESHOLD_GENERIC | THRESHOLD_REMOVE_ASSET
  | RECIPIENT_BTC_ADDRESS | ASSET_LISTING_FEE_PER_DAY | ASSET_MIN_VOLUME
  | LOCK_TIME_TRADE_PAYOUT | ARBITRATOR_FEE | MAX_TRADE_LIMIT | BONDED_ROLE_FACTOR | ISSUANCE_LIMIT
  | PHASE_UNDEFINED | PHASE_PROPOSAL | PHASE_BREAK1 | PHASE_BLIND_VOTE | PHASE_BREAK2
  | PHASE_VOTE_REVEAL | PHASE_BREAK3 | PHASE_RESULT

primrec param_name :: "param \<Rightarrow> string" where
  "param_name Param_UNDEFINED = ''UNDEFINED''"
| "param_name DEFAULT_MAKER_FEE_BTC = ''DEFAULT_MAKER_FEE_BTC''"
| "param_name DEFAULT_TAKER_FEE_BTC = ''DEFAULT_TAKER_FEE_BTC''"
| "param_name MIN_MAKER_FEE_BTC = ''MIN_MAKER_FEE_BTC''"
| "param_name MIN_TAKER_FEE_BTC = ''MIN_TAKER_FEE_BTC''"
| "param_name DEFAULT_MAKER_FEE_BSQ = ''DEFAULT_MAKER_FEE_BSQ''"
| "param_name DEFAULT_TAKER_FEE_BSQ = ''DEFAULT_TAKER_FEE_BSQ''"
| "param_name MIN_MAKER_FEE_BSQ = ''MIN_MAKER_FEE_BSQ''"
| "param_name MIN_TAKER_FEE_BSQ = ''MIN_TAKER_FEE_BSQ''"
| "param_name PROPOSAL_FEE = ''PROPOSAL_FEE''"
| "param_name BLIND_VOTE_FEE = ''BLIND_VOTE_FEE''"
| "param_name COMPENSATION_REQUEST_MIN_AMOUNT = ''COMPENSATION_REQUEST_MIN_AMOUNT''"
| "param_name COMPENSATION_REQUEST_MAX_AMOUNT = ''COMPENSATION_REQUEST_MAX_AMOUNT''"
| "param_name REIMBURSEMENT_MIN_AMOUNT = ''REIMBURSEMENT_MIN_AMOUNT''"
| "param_name REIMBURSEMENT_MAX_AMOUNT = ''REIMBURSEMENT_MAX_AMOUNT''"
| "param_name QUORUM_COMP_REQUEST = ''QUORUM_COMP_REQUEST''"
| "param_name QUORUM_REIMBURSEMENT = ''QUORUM_REIMBURSEMENT''"
| "param_name QUORUM_CHANGE_PARAM = ''QUORUM_CHANGE_PARAM''"
| "param_name QUORUM_ROLE = ''QUORUM_ROLE''"
| "param_name QUORUM_CONFISCATION = ''QUORUM_CONFISCATION''"
| "param_name QUORUM_GENERIC = ''QUORUM_GENERIC''"
| "param_name QUORUM_REMOVE_ASSET = ''QUORUM_REMOVE_ASSET''"
| "param_name THRESHOLD_COMP_REQUEST = ''THRESHOLD_COMP_REQUEST''"
| "param_name THRESHOLD_REIMBURSEMENT = ''THRESHOLD_REIMBURSEMENT''"
| "param_name THRESHOLD_CHANGE_PARAM = ''THRESHOLD_CHANGE_PARAM''"
| "param_name THRESHOLD_ROLE = ''THRESHOLD_ROLE''"
| "param_name THRESHOLD_CONFISCATION = ''THRESHOLD_CONFISCATION''"
| "param_name THRESHOLD_GENERIC = ''THRESHOLD_GENERIC''"
| "param_name THRESHOLD_REMOVE_ASSET = ''THRESHOLD_REMOVE_ASSET''"
| "param_name RECIPIENT_BTC_ADDRESS = ''RECIPIENT_BTC_ADDRESS''"
| "param_name ASSET_LISTING_FEE_PER_DAY = ''ASSET_LISTING_FEE_PER_DAY''"
| "param_name ASSET_MIN_VOLUME = ''ASSET_MIN_VOLUME''"
| "param_name LOCK_TIME_TRADE_PAYOUT = ''LOCK_TIME_TRADE_PAYOUT''"
| "param_name ARBITRATOR_FEE = ''ARBITRATOR_FEE''"
| "param_name MAX_TRADE_LIMIT = ''MAX_TRADE_LIMIT''"
| "param_name BONDED_ROLE_FACTOR = ''BONDED_ROLE_FACTOR''"
| "param_name ISSUANCE_LIMIT = ''ISSUANCE_LIMIT''"
| "param_name PHASE_UNDEFINED = ''PHASE_UNDEFINED''"
| "param_name PHASE_PROPOSAL = ''PHASE_PROPOSAL''"
| "param_name PHASE_BREAK1 = ''PHASE_BREAK1''"
| "param_name PHASE_BLIND_VOTE = ''PHASE_BLIND_VOTE''"
| "param_name PHASE_BREAK2 = ''PHASE_BREAK2''"
| "param_name PHASE_VOTE_REVEAL = ''PHASE_VOTE_REVEAL''"
| "param_name PHASE_BREAK3 = ''PHASE_BREAK3''"
| "param_name PHASE_RESULT = ''PHASE_RESULT''"

definition btc_recipient_network_address :: "base_currency_network \<Rightarrow> string" where
  "btc_recipient_network_address n =
     (if is_mainnet n then ''1BVxNn3T12veSK6DgqwU4Hdn7QHcDDRag7''
      else if is_dao_betanet n then ''1BVxNn3T12veSK6DgqwU4Hdn7QHcDDRag7''
      else if is_testnet n then ''2N4mVTpUZAnhm9phnxB7VrHB4aBhnWrcUrV''
      else ''2MzBNTJDjjXgViKBGnatDU3yWkJ8pJkEg9w'')"

text \<open>The \<open>mainnet and a or regtest and b or ...\<close> chain of the phase durations.\<close>

definition by_network ::
  "base_currency_network \<Rightarrow> string \<Rightarrow> string \<Rightarrow> string \<Rightarrow> string \<Rightarrow> string \<Rightarrow> string" where
  "by_network n main reg beta daoreg rest =
     (if is_mainnet n then main else if is_regtest n then reg
      else if is_dao_betanet n then beta else if is_dao_regtest n then daoreg else rest)"

primrec default_value :: "base_currency_network \<Rightarrow> param \<Rightarrow> string" where
  "default_value n Param_UNDEFINED = ''N/A''"
| "default_value n DEFAULT_MAKER_FEE_BTC = ''0.001''"
| "default_value n DEFAULT_TAKER_FEE_BTC = ''0.003''"
| "default_value n MIN_MAKER_FEE_BTC = ''0.00005''"
| "default_value n MIN_TAKER_FEE_BTC = ''0.00005''"
| "default_value n DEFAULT_MAKER_FEE_BSQ = ''0.50''"
| "default_value n DEFAULT_TAKER_FEE_BSQ = ''1.5''"
| "default_value n MIN_MAKER_FEE_BSQ = ''0.03''"
| "default_value n MIN_TAKER_FEE_BSQ = ''0.03''"
| "default_value n PROPOSAL_FEE = ''2''"
| "default_value n BLIND_VOTE_FEE = ''2''"
| "default_value n COMPENSATION_REQUEST_MIN_AMOUNT = ''10''"
| "default_value n COMPENSATION_REQUEST_MAX_AMOUNT = ''100000''"
| "default_value n REIMBURSEMENT_MIN_AMOUNT = ''10''"
| "default_value n REIMBURSEMENT_MAX_AMOUNT = ''10000''"
| "default_value n QUORUM_COMP_REQUEST = ''20000''"
| "default_value n QUORUM_REIMBURSEMENT = ''20000''"
| "default_value n QUORUM_CHANGE_PARAM = ''100000''"
| "default_value n QUORUM_ROLE = ''50000''"
| "default_value n QUORUM_CONFISCATION = ''200000''"
| "default_value n QUORUM_GENERIC = ''5000''"
| "default_value n QUORUM_REMOVE_ASSET = ''10000''"
| "default_value n THRESHOLD_COMP_REQUEST = ''50.01''"
| "default_value n THRESHOLD_REIMBURSEMENT = ''50.01''"
| "default_value n THRESHOLD_CHANGE_PARAM = ''75.01''"
| "default_value n THRESHOLD_ROLE = ''50.01''"
| "default_value n THRESHOLD_CONFISCATION = ''85.01''"
| "default_value n THRESHOLD_GENERIC = ''50.01''"
| "default_value n THRESHOLD_REMOVE_ASSET = ''50.01''"
| "default_value n RECIPIENT_BTC_ADDRESS = btc_recipient_network_address n"
| "default_value n ASSET_LISTING_FEE_PER_DAY = ''1''"
| "default_value n ASSET_MIN_VOLUME = ''0.01''"
| "default_value n LOCK_TIME_TRADE_PAYOUT = ''4320''"
| "default_value n ARBITRATOR_FEE = ''0''"
| "default_value n MAX_TRADE_LIMIT = ''2''"
| "default_value n BONDED_ROLE_FACTOR = ''1000''"
| "default_value n ISSUANCE_LIMIT = ''200000''"
| "default_value n PHASE_UNDEFINED = ''0''"
| "default_value n PHASE_PROPOSAL = by_network n ''3601'' ''4'' ''144'' ''134'' ''380''"
| "default_value n PHASE_BREAK1 = by_network n ''149'' ''1'' ''10'' ''10'' ''10''"
| "default_value n PHASE_BLIND_VOTE = by_network n ''451'' ''2'' ''144'' ''134'' ''300''"
| "default_value n PHASE_BREAK2 = by_network n ''9'' ''1'' ''10'' ''10'' ''10''"
| "default_value n PHASE_VOTE_REVEAL = by_network n ''451'' ''2'' ''144'' ''132'' ''300''"
| "default_value n PHASE_BREAK3 = by_network n ''9'' ''1'' ''10'' ''10'' ''10''"
| "default_value n PHASE_RESULT = by_network n ''10'' ''2'' ''10'' ''2'' ''2''"

fun param_type_of :: "param \<Rightarrow> param_type" where
  "param_type_of p =
     (if p = Param_UNDEFINED then PT_UNDEFINED
      else if p \<in> {DEFAULT_MAKER_FEE_BTC, DEFAULT_TAKER_FEE_BTC, MIN_MAKER_FEE_BTC,
                   MIN_TAKER_FEE_BTC, ASSET_MIN_VOLUME, MAX_TRADE_LIMIT} then PT_BTC
      else if p \<in> {THRESHOLD_COMP_REQUEST, THRESHOLD_REIMBURSEMENT, THRESHOLD_CHANGE_PARAM,
                   THRESHOLD_ROLE, THRESHOLD_CONFISCATION, THRESHOLD_GENERIC,
                   THRESHOLD_REMOVE_ASSET, ARBITRATOR_FEE} then PT_PERCENT
      else if p = RECIPIENT_BTC_ADDRESS then PT_ADDRESS
      else if p \<in> {LOCK_TIME_TRADE_PAYOUT, PHASE_UNDEFINED, PHASE_PROPOSAL, PHASE_BREAK1,
                   PHASE_BLIND_VOTE, PHASE_BREAK2, PHASE_VOTE_REVEAL, PHASE_BREAK3,
                   PHASE_RESULT} then PT_BLOCK
      else PT_BSQ)"

text \<open>\<open>Param[f"PHASE_{phase.name}"]\<close>; every phase has its parameter.\<close>

primrec param_of_phase :: "phase \<Rightarrow> param" where
  "param_of_phase Phase_UNDEFINED = PHASE_UNDEFINED"
| "param_of_phase Phase_PROPOSAL = PHASE_PROPOSAL"
| "param_of_phase Phase_BREAK1 = PHASE_BREAK1"
| "param_of_phase Phase_BLIND_VOTE = PHASE_BLIND_VOTE"
| "param_of_phase Phase_BREAK2 = PHASE_BREAK2"
| "param_of_phase Phase_VOTE_REVEAL = PHASE_VOTE_REVEAL"
| "param_of_phase Phase_BREAK3 = PHASE_BREAK3"
| "param_of_phase Phase_RESULT = PHASE_RESULT"

record param_change =
  pc_param_name :: string
  pc_value :: string
  pc_activation_height :: int

text \<open>The names of the parameters are pairwise different, so a recorded change belongs to one
  parameter.\<close>

definition all_params :: "param list" where
  "all_params =
     [Param_UNDEFINED, DEFAULT_MAKER_FEE_BTC, DEFAULT_TAKER_FEE_BTC, MIN_MAKER_FEE_BTC,
      MIN_TAKER_FEE_BTC, DEFAULT_MAKER_FEE_BSQ, DEFAULT_TAKER_FEE_BSQ, MIN_MAKER_FEE_BSQ,
      MIN_TAKER_FEE_BSQ, PROPOSAL_FEE, BLIND_VOTE_FEE, COMPENSATION_REQUEST_MIN_AMOUNT,
      COMPENSATION_REQUEST_MAX_AMOUNT, REIMBURSEMENT_MIN_AMOUNT, REIMBURSEMENT_MAX_AMOUNT,
      QUORUM_COMP_REQUEST, QUORUM_REIMBURSEMENT, QUORUM_CHANGE_PARAM, QUORUM_ROLE,
      QUORUM_CONFISCATION, QUORUM_GENERIC, QUORUM_REMOVE_ASSET, THRESHOLD_COMP_REQUEST,
      THRESHOLD_REIMBURSEMENT, THRESHOLD_CHANGE_PARAM, THRESHOLD_ROLE, THRESHOLD_CONFISCATION,
      THRESHOLD_GENERIC, THRESHOLD_REMOVE_ASSET, RECIPIENT_BTC_ADDRESS, ASSET_LISTING_FEE_PER_DAY,
      ASSET_MIN_VOLUME, LOCK_TIME_TRADE_PAYOUT, ARBITRATOR_FEE, MAX_TRADE_LIMIT,
      BONDED_ROLE_FACTOR, ISSUANCE_LIMIT, PHASE_UNDEFINED, PHASE_PROPOSAL, PHASE_BREAK1,
      PHASE_BLIND_VOTE, PHASE_BREAK2, PHASE_VOTE_REVEAL, PHASE_BREAK3, PHASE_RESULT]"

lemma in_all_params: "p \<in> set all_params"
  by (cases p) (simp_all add: all_params_def)

lemma distinct_param_names: "distinct (map param_name all_params)"
  by code_simp

lemma param_name_inject [simp]: "param_name p = param_name q \<longleftrightarrow> p = q"
  using distinct_param_names in_all_params by (auto simp: distinct_map dest: inj_onD)

end
