(* ===== verification/Gov_Model.thy ===== *)
theory Gov_Model
  imports Op_Return Dao_Param "HOL-Library.Multiset"
begin

text \<open>
  The data of proposals and votes: the classes of \<open>dao/state/model/governance\<close> with their
  comparison methods, the classes of \<open>dao/governance/blindvote\<close>, the interface
  \<open>IssuanceProposal\<close> and the validator of the extra data map
  (\<open>bisq/common/util/extra_data_map_validator.py\<close>).  The abstract class \<open>Proposal\<close> is the record
  \<open>proposal\<close>, its subclasses are the constructors of \<open>proposal_kind\<close>.  A Python dictionary of
  strings is an association list in insertion order with distinct keys.
\<close>

section \<open>Issuance\<close>

datatype issuance_type = IT_UNDEFINED | IT_COMPENSATION | IT_REIMBURSEMENT

record issuance =
  iss_tx_id :: string
  iss_chain_height :: int
  iss_amount :: int
  iss_pub_key :: "string option"
  iss_issuance_type :: issuance_type

section \<open>Extra data\<close>

type_synonym extra_data = "(string \<times> string) list"

definition MAX_SIZE :: nat where "MAX_SIZE = 10"
definition MAX_KEY_LENGTH :: nat where "MAX_KEY_LENGTH = 100"
definition MAX_VALUE_LENGTH :: nat where "MAX_VALUE_LENGTH = 100000"

definition validate_with_limits :: "extra_data option \<Rightarrow> nat \<Rightarrow> nat \<Rightarrow> nat \<Rightarrow> unit res" where
  "validate_with_limits m max_size max_key_length max_value_length =
     (case m of
        None \<Rightarrow> Inr ()
      | Some d \<Rightarrow>
          rbind (check (length d \<le> max_size) Illegal_Argument) (\<lambda>_.
          fold_res (\<lambda>(k, v) _.
            rbind (check (length k \<le> max_key_length) Illegal_Argument) (\<lambda>_.
            check (length v \<le> max_value_length) Illegal_Argument)) d ()))"

definition validate_extra_data :: "extra_data option \<Rightarrow> unit res" where
  "validate_extra_data m = validate_with_limits m MAX_SIZE MAX_KEY_LENGTH MAX_VALUE_LENGTH"

text \<open>The constructors replace an extra data map that is not valid by the empty one.\<close>

definition get_validated_extra_data_map_with_limits ::
  "extra_data option \<Rightarrow> nat \<Rightarrow> nat \<Rightarrow> nat \<Rightarrow> extra_data option" where
  "get_validated_extra_data_map_with_limits m max_size max_key_length max_value_length =
     (case m of
        None \<Rightarrow> None
      | Some d \<Rightarrow>
          if is_ok (validate_with_limits m max_size max_key_length max_value_length) then Some d else Some [])"

definition get_validated_extra_data_map :: "extra_data option \<Rightarrow> extra_data option" where
  "get_validated_extra_data_map m =
     get_validated_extra_data_map_with_limits m MAX_SIZE MAX_KEY_LENGTH MAX_VALUE_LENGTH"

lemma validate_with_limits_iff:
  "validate_with_limits (Some d) n k v = Inr () \<longleftrightarrow>
     length d \<le> n \<and> (\<forall>(a, b) \<in> set d. length a \<le> k \<and> length b \<le> v)"
proof -
  have "fold_res (\<lambda>(a, b) _. rbind (check (length a \<le> k) Illegal_Argument) (\<lambda>_.
            check (length b \<le> v) Illegal_Argument)) d () = Inr () \<longleftrightarrow>
      (\<forall>(a, b) \<in> set d. length a \<le> k \<and> length b \<le> v)"
    by (induction d) auto
  then show ?thesis by (simp add: validate_with_limits_def)
qed

lemma validated_extra_data_valid: "validate_extra_data (get_validated_extra_data_map m) = Inr ()"
proof (cases m)
  case None
  then show ?thesis
    by (simp add: get_validated_extra_data_map_def get_validated_extra_data_map_with_limits_def
        validate_extra_data_def validate_with_limits_def)
next
  case (Some d)
  have "validate_with_limits (Some []) MAX_SIZE MAX_KEY_LENGTH MAX_VALUE_LENGTH = Inr ()"
    by (simp add: validate_with_limits_def)
  then show ?thesis
    by (simp add: Some get_validated_extra_data_map_def get_validated_extra_data_map_with_limits_def
        validate_extra_data_def is_ok_iff)
qed

text \<open>\<open>==\<close> of two dictionaries, or of \<open>None\<close>.\<close>

definition dict_eq :: "extra_data option \<Rightarrow> extra_data option \<Rightarrow> bool" where
  "dict_eq m n =
     (case (m, n) of (None, None) \<Rightarrow> True | (Some a, Some b) \<Rightarrow> set a = set b | _ \<Rightarrow> False)"

section \<open>Bonded roles\<close>

datatype bonded_role_type =
    Role_UNDEFINED | GITHUB_ADMIN | FORUM_ADMIN | TWITTER_ADMIN | ROCKET_CHAT_ADMIN
    | YOUTUBE_ADMIN | BISQ_MAINTAINER | BITCOINJ_MAINTAINER | NETLAYER_MAINTAINER
    | WEBSITE_OPERATOR | FORUM_OPERATOR | SEED_NODE_OPERATOR | DATA_RELAY_NODE_OPERATOR
    | BTC_NODE_OPERATOR | MARKETS_OPERATOR | BSQ_EXPLORER_OPERATOR
    | MOBILE_NOTIFICATIONS_RELAY_OPERATOR | DOMAIN_NAME_HOLDER | DNS_ADMIN | MEDIATOR
    | ARBITRATOR | BTC_DONATION_ADDRESS_OWNER

primrec role_type_data :: "bonded_role_type \<Rightarrow> int \<times> int \<times> string \<times> bool" where
  "role_type_data Role_UNDEFINED = (0, 0, ''N/A'', False)"
| "role_type_data GITHUB_ADMIN = (50, 110, ''https://bisq.network/roles/16'', True)"
| "role_type_data FORUM_ADMIN = (20, 110, ''https://bisq.network/roles/19'', True)"
| "role_type_data TWITTER_ADMIN = (20, 110, ''https://bisq.network/roles/21'', True)"
| "role_type_data ROCKET_CHAT_ADMIN = (20, 110, ''https://bisq.network/roles/79'', True)"
| "role_type_data YOUTUBE_ADMIN = (10, 110, ''https://bisq.network/roles/56'', True)"
| "role_type_data BISQ_MAINTAINER = (50, 110, ''https://bisq.network/roles/63'', True)"
| "role_type_data BITCOINJ_MAINTAINER = (20, 110, ''https://bisq.network/roles/8'', True)"
| "role_type_data NETLAYER_MAINTAINER = (20, 110, ''https://bisq.network/roles/81'', True)"
| "role_type_data WEBSITE_OPERATOR = (50, 110, ''https://bisq.network/roles/12'', True)"
| "role_type_data FORUM_OPERATOR = (50, 110, ''https://bisq.network/roles/19'', True)"
| "role_type_data SEED_NODE_OPERATOR = (20, 110, ''https://bisq.network/roles/15'', True)"
| "role_type_data DATA_RELAY_NODE_OPERATOR = (20, 110, ''https://bisq.network/roles/14'', True)"
| "role_type_data BTC_NODE_OPERATOR = (5, 110, ''https://bisq.network/roles/67'', True)"
| "role_type_data MARKETS_OPERATOR = (20, 110, ''https://bisq.network/roles/9'', True)"
| "role_type_data BSQ_EXPLORER_OPERATOR = (20, 110, ''https://bisq.network/roles/11'', True)"
| "role_type_data MOBILE_NOTIFICATIONS_RELAY_OPERATOR = (20, 110, ''https://bisq.network/roles/82'', True)"
| "role_type_data DOMAIN_NAME_HOLDER = (50, 110, ''https://bisq.network/roles/77'', False)"
| "role_type_data DNS_ADMIN = (20, 110, ''https://bisq.network/roles/18'', False)"
| "role_type_data MEDIATOR = (10, 110, ''https://bisq.network/roles/83'', True)"
| "role_type_data ARBITRATOR = (200, 110, ''https://bisq.network/roles/13'', True)"
| "role_type_data BTC_DONATION_ADDRESS_OWNER = (50, 110, ''https://bisq.network/roles/80'', True)"

definition required_bond_unit :: "bonded_role_type \<Rightarrow> int" where
  "required_bond_unit t = (case role_type_data t of (u, _, _, _) \<Rightarrow> u)"

definition unlock_time_in_blocks :: "base_currency_network \<Rightarrow> bonded_role_type \<Rightarrow> int" where
  "unlock_time_in_blocks n t =
     (case role_type_data t of (_, days, _, _) \<Rightarrow>
        if is_mainnet n then days * 144 else if is_regtest n then 5 else 144)"

record role =
  role_uid :: string
  role_name :: string
  role_link :: string
  role_bonded_role_type :: bonded_role_type

section \<open>Proposals\<close>

datatype proposal_kind =
    Compensation_Proposal (kind_requested_bsq: int) (kind_bsq_address: string)
  | Reimbursement_Proposal (kind_requested_bsq: int) (kind_bsq_address: string)
  | Change_Param_Proposal param string
  | Role_Proposal role int int
  | Confiscate_Bond_Proposal string
  | Generic_Proposal
  | Remove_Asset_Proposal string

record proposal =
  prop_name :: string
  prop_link :: string
  prop_version :: int
  prop_creation_date :: int
  prop_tx_id :: "string option"
  prop_extra_data_map :: "extra_data option"
  prop_kind :: proposal_kind

definition new_proposal ::
  "string \<Rightarrow> string \<Rightarrow> int \<Rightarrow> int \<Rightarrow> string option \<Rightarrow> extra_data option \<Rightarrow> proposal_kind \<Rightarrow> proposal" where
  "new_proposal name link version creation_date txid extra k =
     \<lparr>prop_name = name, prop_link = link, prop_version = version, prop_creation_date = creation_date,
      prop_tx_id = txid, prop_extra_data_map = get_validated_extra_data_map extra, prop_kind = k\<rparr>"

definition clone_proposal_and_add_tx_id :: "proposal \<Rightarrow> string \<Rightarrow> proposal" where
  "clone_proposal_and_add_tx_id p i =
     new_proposal (prop_name p) (prop_link p) (prop_version p) (prop_creation_date p) (Some i)
       (prop_extra_data_map p) (prop_kind p)"

definition role_proposal_from_role ::
  "base_currency_network \<Rightarrow> role \<Rightarrow> extra_data option \<Rightarrow> int \<Rightarrow> int \<Rightarrow> proposal" where
  "role_proposal_from_role n r extra version now =
     new_proposal (role_name r) (role_link r) version now None extra
       (Role_Proposal r (required_bond_unit (role_bonded_role_type r))
          (unlock_time_in_blocks n (role_bonded_role_type r)))"

datatype proposal_type =
    PrT_UNDEFINED | PrT_COMPENSATION_REQUEST | PrT_REIMBURSEMENT_REQUEST | PrT_CHANGE_PARAM
  | PrT_BONDED_ROLE | PrT_CONFISCATE_BOND | PrT_GENERIC | PrT_REMOVE_ASSET

primrec kind_type :: "proposal_kind \<Rightarrow> proposal_type" where
  "kind_type (Compensation_Proposal _ _) = PrT_COMPENSATION_REQUEST"
| "kind_type (Reimbursement_Proposal _ _) = PrT_REIMBURSEMENT_REQUEST"
| "kind_type (Change_Param_Proposal _ _) = PrT_CHANGE_PARAM"
| "kind_type (Role_Proposal _ _ _) = PrT_BONDED_ROLE"
| "kind_type (Confiscate_Bond_Proposal _) = PrT_CONFISCATE_BOND"
| "kind_type Generic_Proposal = PrT_GENERIC"
| "kind_type (Remove_Asset_Proposal _) = PrT_REMOVE_ASSET"

primrec kind_quorum_param :: "proposal_kind \<Rightarrow> param" where
  "kind_quorum_param (Compensation_Proposal _ _) = QUORUM_COMP_REQUEST"
| "kind_quorum_param (Reimbursement_Proposal _ _) = QUORUM_REIMBURSEMENT"
| "kind_quorum_param (Change_Param_Proposal _ _) = QUORUM_CHANGE_PARAM"
| "kind_quorum_param (Role_Proposal _ _ _) = QUORUM_ROLE"
| "kind_quorum_param (Confiscate_Bond_Proposal _) = QUORUM_CONFISCATION"
| "kind_quorum_param Generic_Proposal = QUORUM_GENERIC"
| "kind_quorum_param (Remove_Asset_Proposal _) = QUORUM_REMOVE_ASSET"

primrec kind_threshold_param :: "proposal_kind \<Rightarrow> param" where
  "kind_threshold_param (Compensation_Proposal _ _) = THRESHOLD_COMP_REQUEST"
| "kind_threshold_param (Reimbursement_Proposal _ _) = THRESHOLD_REIMBURSEMENT"
| "kind_threshold_param (Change_Param_Proposal _ _) = THRESHOLD_CHANGE_PARAM"
| "kind_threshold_param (Role_Proposal _ _ _) = THRESHOLD_ROLE"
| "kind_threshold_param (Confiscate_Bond_Proposal _) = THRESHOLD_CONFISCATION"
| "kind_threshold_param Generic_Proposal = THRESHOLD_GENERIC"
| "kind_threshold_param (Remove_Asset_Proposal _) = THRESHOLD_REMOVE_ASSET"

primrec kind_tx_type :: "proposal_kind \<Rightarrow> tx_type" where
  "kind_tx_type (Compensation_Proposal _ _) = COMPENSATION_REQUEST"
| "kind_tx_type (Reimbursement_Proposal _ _) = REIMBURSEMENT_REQUEST"
| "kind_tx_type (Change_Param_Proposal _ _) = PROPOSAL"
| "kind_tx_type (Role_Proposal _ _ _) = PROPOSAL"
| "kind_tx_type (Confiscate_Bond_Proposal _) = PROPOSAL"
| "kind_tx_type Generic_Proposal = PROPOSAL"
| "kind_tx_type (Remove_Asset_Proposal _) = PROPOSAL"

definition get_quorum_param :: "proposal \<Rightarrow> param" where
  "get_quorum_param p = kind_quorum_param (prop_kind p)"
definition get_threshold_param :: "proposal \<Rightarrow> param" where
  "get_threshold_param p = kind_threshold_param (prop_kind p)"

text \<open>\<open>isinstance(p, IssuanceProposal)\<close> and what the interface gives.\<close>

definition is_issuance_proposal :: "proposal \<Rightarrow> bool" where
  "is_issuance_proposal p \<longleftrightarrow>
     (case prop_kind p of Compensation_Proposal _ _ \<Rightarrow> True | Reimbursement_Proposal _ _ \<Rightarrow> True | _ \<Rightarrow> False)"

definition requested_bsq :: "proposal \<Rightarrow> int" where
  "requested_bsq p =
     (case prop_kind p of Compensation_Proposal a _ \<Rightarrow> a | Reimbursement_Proposal a _ \<Rightarrow> a | _ \<Rightarrow> 0)"

definition bsq_address :: "proposal \<Rightarrow> string" where
  "bsq_address p =
     (case prop_kind p of Compensation_Proposal _ b \<Rightarrow> b | Reimbursement_Proposal _ b \<Rightarrow> b | _ \<Rightarrow> [])"

subsection \<open>Comparison\<close>

definition base_proposal_eq :: "proposal \<Rightarrow> proposal \<Rightarrow> bool" where
  "base_proposal_eq p q \<longleftrightarrow>
     prop_version p = prop_version q \<and> prop_creation_date p = prop_creation_date q \<and>
     prop_name p = prop_name q \<and> prop_link p = prop_link q \<and> prop_tx_id p = prop_tx_id q \<and>
     dict_eq (prop_extra_data_map p) (prop_extra_data_map q)"

text \<open>\<open>p == q\<close>.  Compensation and reimbursement requests inherit the comparison of the base class;
  \<open>RoleProposal.__eq__\<close> ends in a tuple of one element, which is true whatever the element is.\<close>

definition proposal_eq :: "proposal \<Rightarrow> proposal \<Rightarrow> bool" where
  "proposal_eq p q \<longleftrightarrow>
     (case prop_kind p of
        Compensation_Proposal _ _ \<Rightarrow> base_proposal_eq p q
      | Reimbursement_Proposal _ _ \<Rightarrow> base_proposal_eq p q
      | Change_Param_Proposal x v \<Rightarrow>
          (case prop_kind q of
             Change_Param_Proposal y w \<Rightarrow>
               base_proposal_eq p q \<and> param_type_of x = param_type_of y \<and> param_name x = param_name y \<and> v = w
           | _ \<Rightarrow> False)
      | Role_Proposal _ _ _ \<Rightarrow>
          (case prop_kind q of Role_Proposal _ _ _ \<Rightarrow> base_proposal_eq p q | _ \<Rightarrow> False)
      | Confiscate_Bond_Proposal i \<Rightarrow>
          (case prop_kind q of Confiscate_Bond_Proposal j \<Rightarrow> base_proposal_eq p q \<and> i = j | _ \<Rightarrow> False)
      | Generic_Proposal \<Rightarrow>
          (case prop_kind q of Generic_Proposal \<Rightarrow> base_proposal_eq p q | _ \<Rightarrow> False)
      | Remove_Asset_Proposal i \<Rightarrow>
          (case prop_kind q of Remove_Asset_Proposal j \<Rightarrow> base_proposal_eq p q \<and> i = j | _ \<Rightarrow> False))"

text \<open>The tuple that \<open>__hash__\<close> hashes.  Hashes of different tuples are taken to be different, as
  Python's randomised string hash makes them up to chance.\<close>

datatype hash_args = No_Args | Str_Arg string | Param_Args string string | Role_Args role int int

definition proposal_hash ::
  "proposal \<Rightarrow> (int \<times> int \<times> string \<times> string \<times> string option \<times> extra_data) \<times> hash_args" where
  "proposal_hash p =
     ((prop_version p, prop_creation_date p, prop_name p, prop_link p, prop_tx_id p,
       case prop_extra_data_map p of None \<Rightarrow> [] | Some d \<Rightarrow> d),
      case prop_kind p of
        Compensation_Proposal _ _ \<Rightarrow> No_Args
      | Reimbursement_Proposal _ _ \<Rightarrow> No_Args
      | Change_Param_Proposal x v \<Rightarrow> Param_Args (param_name x) v
      | Role_Proposal r u t \<Rightarrow> Role_Args r u t
      | Confiscate_Bond_Proposal i \<Rightarrow> Str_Arg i
      | Generic_Proposal \<Rightarrow> No_Args
      | Remove_Asset_Proposal i \<Rightarrow> Str_Arg i)"

text \<open>Two proposals are the same key of a dictionary, or the same member of a set, when they have
  the same hash and are equal.\<close>

definition same_proposal_key :: "proposal \<Rightarrow> proposal \<Rightarrow> bool" where
  "same_proposal_key p q \<longleftrightarrow> proposal_hash p = proposal_hash q \<and> proposal_eq p q"

lemma proposal_eq_refl [simp]: "proposal_eq p p"
  by (auto simp: proposal_eq_def base_proposal_eq_def dict_eq_def split: proposal_kind.split option.split)

lemma same_proposal_key_refl [simp]: "same_proposal_key p p"
  by (simp add: same_proposal_key_def)

lemma proposal_eq_tx_id: "proposal_eq p q \<Longrightarrow> prop_tx_id p = prop_tx_id q"
  by (auto simp: proposal_eq_def base_proposal_eq_def split: proposal_kind.splits)

lemma same_key_tx_id: "same_proposal_key p q \<Longrightarrow> prop_tx_id p = prop_tx_id q"
  by (simp add: same_proposal_key_def proposal_eq_tx_id)

section \<open>Votes and ballots\<close>

datatype vote = Vote (vote_accepted: bool)

record ballot =
  bal_proposal :: proposal
  bal_vote :: "vote option"

definition ballot_tx_id :: "ballot \<Rightarrow> string option" where
  "ballot_tx_id b = prop_tx_id (bal_proposal b)"

definition ballot_eq :: "ballot \<Rightarrow> ballot \<Rightarrow> bool" where
  "ballot_eq a b \<longleftrightarrow> proposal_eq (bal_proposal a) (bal_proposal b) \<and> bal_vote a = bal_vote b"

record vote_with_proposal_tx_id =
  vwp_proposal_tx_id :: string
  vwp_vote :: "vote option"

record merit =
  merit_issuance :: issuance
  merit_signature :: bytes

record blind_vote =
  bv_encrypted_votes :: bytes
  bv_tx_id :: string
  bv_stake :: int
  bv_encrypted_merit_list :: bytes
  bv_date :: int
  bv_extra_data_map :: "extra_data option"

record blind_vote_payload =
  bvp_blind_vote :: blind_vote
  bvp_hash :: bytes

definition blind_vote_eq :: "blind_vote \<Rightarrow> blind_vote \<Rightarrow> bool" where
  "blind_vote_eq a b \<longleftrightarrow>
     bv_encrypted_votes a = bv_encrypted_votes b \<and> bv_tx_id a = bv_tx_id b \<and> bv_stake a = bv_stake b \<and>
     bv_encrypted_merit_list a = bv_encrypted_merit_list b \<and> bv_date a = bv_date b \<and>
     dict_eq (bv_extra_data_map a) (bv_extra_data_map b)"

definition blind_vote_payload_eq :: "blind_vote_payload \<Rightarrow> blind_vote_payload \<Rightarrow> bool" where
  "blind_vote_payload_eq a b \<longleftrightarrow>
     blind_vote_eq (bvp_blind_vote a) (bvp_blind_vote b) \<and> bvp_hash a = bvp_hash b"

record proposal_payload =
  pp_proposal :: proposal
  pp_hash :: bytes

definition proposal_payload_eq :: "proposal_payload \<Rightarrow> proposal_payload \<Rightarrow> bool" where
  "proposal_payload_eq a b \<longleftrightarrow> proposal_eq (pp_proposal a) (pp_proposal b) \<and> pp_hash a = pp_hash b"

record decrypted_ballots =
  dbm_hash_of_blind_vote_list :: bytes
  dbm_blind_vote_tx_id :: string
  dbm_vote_reveal_tx_id :: string
  dbm_stake :: int
  dbm_ballot_list :: "ballot list"
  dbm_merit_list :: "merit list"

definition dbm_eq :: "decrypted_ballots \<Rightarrow> decrypted_ballots \<Rightarrow> bool" where
  "dbm_eq a b \<longleftrightarrow>
     dbm_hash_of_blind_vote_list a = dbm_hash_of_blind_vote_list b \<and>
     dbm_blind_vote_tx_id a = dbm_blind_vote_tx_id b \<and>
     dbm_vote_reveal_tx_id a = dbm_vote_reveal_tx_id b \<and> dbm_stake a = dbm_stake b \<and>
     list_all2 ballot_eq (dbm_ballot_list a) (dbm_ballot_list b) \<and> dbm_merit_list a = dbm_merit_list b"

definition get_vote :: "decrypted_ballots \<Rightarrow> string \<Rightarrow> vote option" where
  "get_vote d i =
     (case find (\<lambda>b. ballot_tx_id b = Some i) (dbm_ballot_list d) of Some b \<Rightarrow> bal_vote b | None \<Rightarrow> None)"

section \<open>Vote results\<close>

record proposal_vote_result =
  pvr_proposal :: proposal
  pvr_stake_of_accepted_votes :: int
  pvr_stake_of_rejected_votes :: int
  pvr_num_accepted_votes :: int
  pvr_num_rejected_votes :: int
  pvr_num_ignored_votes :: int

definition num_active_votes :: "proposal_vote_result \<Rightarrow> int" where
  "num_active_votes r = pvr_num_accepted_votes r + pvr_num_rejected_votes r"

definition total_stake :: "proposal_vote_result \<Rightarrow> int" where
  "total_stake r = pvr_stake_of_accepted_votes r + pvr_stake_of_rejected_votes r"

definition quorum :: "proposal_vote_result \<Rightarrow> int" where
  "quorum r = total_stake r"

definition threshold :: "proposal_vote_result \<Rightarrow> int res" where
  "threshold r =
     rbind (check (0 \<le> pvr_stake_of_accepted_votes r) Illegal_Argument) (\<lambda>_.
     rbind (check (0 \<le> pvr_stake_of_rejected_votes r) Illegal_Argument) (\<lambda>_.
     if pvr_stake_of_accepted_votes r = 0 then Inr 0
     else Inr (pvr_stake_of_accepted_votes r * 10000 div total_stake r)))"

record evaluated_proposal =
  ev_is_accepted :: bool
  ev_proposal_vote_result :: proposal_vote_result

definition ev_proposal :: "evaluated_proposal \<Rightarrow> proposal" where
  "ev_proposal e = pvr_proposal (ev_proposal_vote_result e)"

definition ev_proposal_tx_id :: "evaluated_proposal \<Rightarrow> string option" where
  "ev_proposal_tx_id e = prop_tx_id (ev_proposal e)"

text \<open>The share of the accepting stake in hundredths of a percent.\<close>

lemma threshold_bounds: "threshold r = Inr n \<Longrightarrow> 0 \<le> n \<and> n \<le> 10000"
proof (cases "pvr_stake_of_accepted_votes r = 0")
  case False
  assume t: "threshold r = Inr n"
  let ?a = "pvr_stake_of_accepted_votes r" and ?b = "pvr_stake_of_rejected_votes r"
  have n: "0 < ?a" "0 \<le> ?b" "n = ?a * 10000 div (?a + ?b)"
    using t False by (auto simp: threshold_def total_stake_def)
  have "?a * 10000 div (?a + ?b) \<le> 10000 * (?a + ?b) div (?a + ?b)" using n by (intro zdiv_mono1) simp_all
  also have "\<dots> = 10000" using n by (intro nonzero_mult_div_cancel_right) simp
  finally have "n \<le> 10000" by (simp only: n)
  moreover have "0 \<le> n" using n by (simp add: pos_imp_zdiv_nonneg_iff)
  ultimately show ?thesis by simp
qed (auto simp: threshold_def)

text \<open>More than 50 percent of the stake can only be reached by one side.\<close>

lemma threshold_exceeds:
  assumes "threshold r = Inr n" and "k < n" and "0 \<le> k"
  shows "k * total_stake r < 10000 * pvr_stake_of_accepted_votes r"
proof -
  let ?a = "pvr_stake_of_accepted_votes r"
  have n: "0 < ?a" "0 < total_stake r" "n = ?a * 10000 div total_stake r"
    using assms by (auto simp: threshold_def total_stake_def split: if_splits)
  have "k * total_stake r < n * total_stake r" using assms n by simp
  also have "\<dots> \<le> ?a * 10000"
    using mult_div_mod_eq [of "total_stake r" "?a * 10000"] pos_mod_sign [OF n(2), of "?a * 10000"]
    unfolding n(3) by (simp only: mult.commute)
  finally show ?thesis by simp
qed

section \<open>Sorting by transaction id\<close>

text \<open>\<open>sort(key=lambda x: java_cmp_str(x.tx_id))\<close>: comparing \<open>None\<close> raises, and every element of a
  list with at least two is compared.\<close>

definition sort_by_tx_id :: "('v \<Rightarrow> string option) \<Rightarrow> 'v list \<Rightarrow> 'v list res" where
  "sort_by_tx_id f xs =
     (if 2 \<le> length xs \<and> (\<exists>x \<in> set xs. f x = None) then Inl Type_Error
      else Inr (sort_key (\<lambda>x. case f x of Some i \<Rightarrow> i | None \<Rightarrow> []) xs))"

lemma sort_by_tx_id_mset: "sort_by_tx_id f xs = Inr ys \<Longrightarrow> mset ys = mset xs"
  by (auto simp: sort_by_tx_id_def split: if_splits)

lemma sort_by_tx_id_set: "sort_by_tx_id f xs = Inr ys \<Longrightarrow> set ys = set xs"
  by (auto simp: sort_by_tx_id_def split: if_splits)

end
