(* ===== verification/Dao_State.thy ===== *)
theory Dao_State
  imports Gov_Model
begin

text \<open>
  The state of the DAO (\<open>dao/state/model/dao_state.py\<close>) and the service all components go
  through (\<open>dao/state/dao_state_service.py\<close>), in the order of the two files.  The service
  record extends the state record with the service's own fields.  Dictionaries whose order no
  code observes are maps; \<open>tx_cache\<close>, whose values are iterated, is an association list in
  insertion order.  A \<open>Block\<close> object is mutable and shared by \<open>blocks\<close>, by
  \<open>blocks_by_height\<close> and by the parser's local variable: it is identified by its position in
  \<open>blocks\<close> (\<open>In_Chain i\<close>); an object not added to the list is \<open>Detached\<close>.  \<open>bsq_formatter\<close>
  reads the coin value of a parameter string, \<open>percent_parser\<close> the value of a percentage string in
  hundredths of a percent (\<open>ParsingUtils.parse_percent_string_to_double\<close> rounds to four decimals,
  so the double it returns stands for that integer).
\<close>

section \<open>State\<close>

record dao_state =
  chain_height :: int
  blocks :: "block list"
  cycles :: "cycle list"
  unspent_tx_output_map :: "tx_output_key \<rightharpoonup> tx_output"
  spent_info_map :: "tx_output_key \<rightharpoonup> spent_info"
  confiscated_lockup_tx_list :: "string list"
  issuance_map :: "string \<rightharpoonup> issuance"
  param_change_list :: "param_change list"
  evaluated_proposal_list :: "evaluated_proposal list"
  decrypted_ballots_with_merits_list :: "decrypted_ballots list"
  tx_cache :: "(string \<times> tx) list"
  blocks_by_height :: "int \<rightharpoonup> nat"
  tx_outputs_by_type :: "tx_output_type \<rightharpoonup> tx_output set"

record dao_service = dao_state +
  network :: base_currency_network
  bsq_formatter :: "param \<Rightarrow> string \<Rightarrow> int res"
  percent_parser :: "string \<Rightarrow> int res"
  genesis_tx_id :: string
  genesis_block_height :: int
  genesis_total_supply :: int
  parse_block_chain_complete :: bool
  allow_dao_state_change :: bool
  cached_tx_id_set_by_address :: "string \<rightharpoonup> string set"

datatype block_ref = In_Chain nat | Detached block

subsection \<open>Operations of \<open>DaoState\<close>\<close>

definition index_tx_output ::
  "tx_output \<Rightarrow> (tx_output_type \<rightharpoonup> tx_output set) \<Rightarrow> (tx_output_type \<rightharpoonup> tx_output set)" where
  "index_tx_output out m =
     (let m' = (if m (out_type out) = None then m(out_type out \<mapsto> {}) else m)
      in m'(out_type out \<mapsto> insert out (the (m' (out_type out)))))"

definition add_to_tx_outputs_by_type ::
  "tx \<Rightarrow> 'a dao_state_scheme \<Rightarrow> 'a dao_state_scheme" where
  "add_to_tx_outputs_by_type t s =
     s\<lparr>tx_outputs_by_type := fold index_tx_output (tx_outputs t) (tx_outputs_by_type s)\<rparr>"

definition add_to_tx_cache :: "tx \<Rightarrow> 'a dao_state_scheme \<Rightarrow> 'a dao_state_scheme" where
  "add_to_tx_cache t s =
     add_to_tx_outputs_by_type t (s\<lparr>tx_cache := al_setdefault (tx_id t) t (tx_cache s)\<rparr>)"

definition set_tx_cache :: "(string \<times> tx) list \<Rightarrow> 'a dao_state_scheme \<Rightarrow> 'a dao_state_scheme" where
  "set_tx_cache cache s =
     fold (\<lambda>(i, t). add_to_tx_outputs_by_type t) cache
       (s\<lparr>tx_cache := cache, tx_outputs_by_type := Map.empty\<rparr>)"

definition get_tx_output_by_tx_output_type ::
  "'a dao_state_scheme \<Rightarrow> tx_output_type \<Rightarrow> tx_output set" where
  "get_tx_output_by_tx_output_type s ty =
     (case tx_outputs_by_type s ty of Some S \<Rightarrow> S | None \<Rightarrow> {})"

definition add_block :: "block \<Rightarrow> 'a dao_state_scheme \<Rightarrow> 'a dao_state_scheme" where
  "add_block b s =
     s\<lparr>blocks := blocks s @ [b],
       blocks_by_height := (blocks_by_height s)(blk_height b \<mapsto> length (blocks s))\<rparr>"

definition clear_and_set_blocks :: "block list \<Rightarrow> 'a dao_state_scheme \<Rightarrow> 'a dao_state_scheme" where
  "clear_and_set_blocks bs s = fold add_block bs (s\<lparr>blocks := [], blocks_by_height := Map.empty\<rparr>)"

text \<open>The constructor fills the caches from the blocks; it assigns \<open>tx_cache[tx.id] = tx\<close>.\<close>

definition dao_state_init :: "block list \<Rightarrow> 'a dao_state_scheme \<Rightarrow> 'a dao_state_scheme" where
  "dao_state_init bs s =
     fold (\<lambda>t u. (add_to_tx_outputs_by_type t u)\<lparr>tx_cache := AList.update (tx_id t) t (tx_cache u)\<rparr>)
       (concat (map blk_txs bs))
       (s\<lparr>blocks := bs,
          blocks_by_height := fold (\<lambda>(i, b) m. m(blk_height b \<mapsto> i)) (enumerate_from 0 bs) Map.empty,
          tx_cache := [], tx_outputs_by_type := Map.empty\<rparr>)"

section \<open>The service\<close>

definition assert_dao_state_change :: "'a dao_service_scheme \<Rightarrow> unit res" where
  "assert_dao_state_change s = check (allow_dao_state_change s) Dao_State_Change_Error"

text \<open>Every mutator starts with the assertion.\<close>

definition guarded :: "('a dao_service_scheme \<Rightarrow> 'a dao_service_scheme) \<Rightarrow>
    'a dao_service_scheme \<Rightarrow> 'a dao_service_scheme res" where
  "guarded f s = rbind (assert_dao_state_change s) (\<lambda>_. Inr (f s))"

lemma guarded_eq_Inr [simp]: "guarded f s = Inr t \<longleftrightarrow> allow_dao_state_change s \<and> t = f s"
  by (auto simp: guarded_def assert_dao_state_change_def)

lemma guarded_closed: "\<not> allow_dao_state_change s \<Longrightarrow> guarded f s = Inl Dao_State_Change_Error"
  by (simp add: guarded_def assert_dao_state_change_def)

definition service_start :: "'a dao_service_scheme \<Rightarrow> 'a dao_service_scheme res" where
  "service_start s =
     guarded (\<lambda>u. u\<lparr>chain_height := genesis_block_height u\<rparr>) (s\<lparr>allow_dao_state_change := True\<rparr>)"

definition apply_snapshot ::
  "'b dao_state_scheme \<Rightarrow> 'a dao_service_scheme \<Rightarrow> 'a dao_service_scheme res" where
  "apply_snapshot snapshot s =
     guarded (\<lambda>u. (clear_and_set_blocks (blocks snapshot)
                     (set_tx_cache (tx_cache snapshot) (u\<lparr>chain_height := chain_height snapshot\<rparr>)))
                  \<lparr>cycles := cycles snapshot,
                   unspent_tx_output_map := unspent_tx_output_map snapshot,
                   spent_info_map := spent_info_map snapshot,
                   confiscated_lockup_tx_list := confiscated_lockup_tx_list snapshot,
                   issuance_map := issuance_map snapshot,
                   param_change_list := param_change_list snapshot,
                   evaluated_proposal_list := evaluated_proposal_list snapshot,
                   decrypted_ballots_with_merits_list := decrypted_ballots_with_merits_list snapshot\<rparr>)
       (s\<lparr>allow_dao_state_change := True\<rparr>)"

subsection \<open>Cycles\<close>

definition add_cycle :: "cycle \<Rightarrow> 'a dao_service_scheme \<Rightarrow> 'a dao_service_scheme res" where
  "add_cycle c = guarded (\<lambda>s. s\<lparr>cycles := cycles s @ [c]\<rparr>)"

definition current_cycle :: "'a dao_state_scheme \<Rightarrow> cycle option" where
  "current_cycle s = (if cycles s = [] then None else Some (last (cycles s)))"

definition find_cycle :: "int \<Rightarrow> cycle list \<Rightarrow> cycle option" where
  "find_cycle h cs = find (\<lambda>c. cyc_height_of_first_block c \<le> h \<and> h \<le> height_of_last_block c) cs"

definition get_cycle :: "'a dao_state_scheme \<Rightarrow> int \<Rightarrow> cycle option" where
  "get_cycle s h = find_cycle h (cycles s)"

definition get_start_height_of_next_cycle :: "'a dao_state_scheme \<Rightarrow> int \<Rightarrow> int option" where
  "get_start_height_of_next_cycle s h = map_option (\<lambda>c. height_of_last_block c + 1) (get_cycle s h)"

definition get_start_height_of_current_cycle :: "'a dao_state_scheme \<Rightarrow> int \<Rightarrow> int option" where
  "get_start_height_of_current_cycle s h = map_option cyc_height_of_first_block (get_cycle s h)"

definition get_next_cycle :: "'a dao_state_scheme \<Rightarrow> cycle \<Rightarrow> cycle option" where
  "get_next_cycle s c = get_cycle s (height_of_last_block c + 1)"

definition get_previous_cycle :: "'a dao_state_scheme \<Rightarrow> cycle \<Rightarrow> cycle option" where
  "get_previous_cycle s c = get_cycle s (cyc_height_of_first_block c - 1)"

fun get_past_cycle :: "'a dao_state_scheme \<Rightarrow> cycle \<Rightarrow> nat \<Rightarrow> cycle option" where
  "get_past_cycle s c 0 = None"
| "get_past_cycle s c (Suc n) =
     (case get_previous_cycle s c of
        None \<Rightarrow> None
      | Some p \<Rightarrow> if n = 0 then Some p else get_past_cycle s p n)"

subsection \<open>Blocks and parser events\<close>

text \<open>The listeners are the components registered with the service; each hook is the list of
  their handlers.\<close>

record 's dao_listeners =
  l_new_block_height :: "(int \<Rightarrow> 's \<Rightarrow> 's res) list"
  l_parse_block_complete :: "(block \<Rightarrow> 's \<Rightarrow> 's res) list"
  l_parse_block_complete_after_batch :: "(block \<Rightarrow> 's \<Rightarrow> 's res) list"
  l_dao_state_changed :: "(block \<Rightarrow> 's \<Rightarrow> 's res) list"
  l_parse_block_chain_complete :: "('s \<Rightarrow> 's res) list"

definition deref_block :: "'a dao_state_scheme \<Rightarrow> block_ref \<Rightarrow> block" where
  "deref_block s r = (case r of In_Chain i \<Rightarrow> blocks s ! i | Detached b \<Rightarrow> b)"

definition last_block :: "'a dao_state_scheme \<Rightarrow> block option" where
  "last_block s = (if blocks s = [] then None else Some (last (blocks s)))"

definition on_new_block_height ::
  "'a dao_service_scheme dao_listeners \<Rightarrow> int \<Rightarrow> 'a dao_service_scheme \<Rightarrow> 'a dao_service_scheme res" where
  "on_new_block_height ls h s =
     fold_res (\<lambda>l. l h) (l_new_block_height ls)
       (s\<lparr>allow_dao_state_change := True, chain_height := h\<rparr>)"

definition on_new_block_with_empty_txs ::
  "block \<Rightarrow> 'a dao_service_scheme \<Rightarrow> ('a dao_service_scheme \<times> block_ref) res" where
  "on_new_block_with_empty_txs b s =
     rbind (assert_dao_state_change s) (\<lambda>_.
       if blocks s = [] \<and> blk_height b \<noteq> genesis_block_height s then Inr (s, Detached b)
       else Inr (add_block b s, In_Chain (length (blocks s))))"

definition on_new_tx_for_last_block ::
  "block_ref \<Rightarrow> tx \<Rightarrow> 'a dao_service_scheme \<Rightarrow> 'a dao_service_scheme res" where
  "on_new_tx_for_last_block r t s =
     rbind (assert_dao_state_change s) (\<lambda>_.
       if blocks s \<noteq> [] \<and> r = In_Chain (length (blocks s) - 1)
       then Inr (add_to_tx_cache t
              (s\<lparr>blocks := (blocks s)[length (blocks s) - 1 := add_tx t (last (blocks s))]\<rparr>))
       else Inr s)"

definition on_parse_block_complete ::
  "'a dao_service_scheme dao_listeners \<Rightarrow> block_ref \<Rightarrow> 'a dao_service_scheme \<Rightarrow> 'a dao_service_scheme res" where
  "on_parse_block_complete ls r s =
     rbind (fold_res (\<lambda>l u. l (deref_block u r) u) (l_parse_block_complete ls) s) (\<lambda>s1.
     rbind (if parse_block_chain_complete s1
            then fold_res (\<lambda>l u. l (deref_block u r) u) (l_parse_block_complete_after_batch ls) s1
            else Inr s1) (\<lambda>s2.
     rbind (fold_res (\<lambda>l u. l (deref_block u r) u) (l_dao_state_changed ls)
              (s2\<lparr>allow_dao_state_change := False\<rparr>)) (\<lambda>s3.
     Inr (if blk_txs (deref_block s3 r) \<noteq> [] then s3\<lparr>cached_tx_id_set_by_address := Map.empty\<rparr>
          else s3))))"

definition on_parse_block_chain_complete ::
  "'a dao_service_scheme dao_listeners \<Rightarrow> 'a dao_service_scheme \<Rightarrow> 'a dao_service_scheme res" where
  "on_parse_block_chain_complete ls s =
     (let s1 = s\<lparr>parse_block_chain_complete := True\<rparr>
      in rbind (case last_block s1 of
                  None \<Rightarrow> Inr s1
                | Some b \<Rightarrow> fold_res (\<lambda>l. l b) (l_parse_block_complete_after_batch ls) s1)
           (fold_res (\<lambda>l. l) (l_parse_block_chain_complete ls)))"

definition block_height_of_last_block :: "'a dao_state_scheme \<Rightarrow> int" where
  "block_height_of_last_block s = (case last_block s of Some b \<Rightarrow> blk_height b | None \<Rightarrow> 0)"

definition block_hash_of_last_block :: "'a dao_state_scheme \<Rightarrow> string" where
  "block_hash_of_last_block s = (case last_block s of Some b \<Rightarrow> blk_hash b | None \<Rightarrow> '''')"

definition get_block_at_height :: "'a dao_state_scheme \<Rightarrow> int \<Rightarrow> block option" where
  "get_block_at_height s h = map_option (\<lambda>i. blocks s ! i) (blocks_by_height s h)"

definition get_block_time :: "'a dao_state_scheme \<Rightarrow> int \<Rightarrow> int" where
  "get_block_time s h = (case get_block_at_height s h of Some b \<Rightarrow> blk_time b | None \<Rightarrow> 0)"

definition get_blocks_from_block_height :: "'a dao_state_scheme \<Rightarrow> int \<Rightarrow> nat \<Rightarrow> block list" where
  "get_blocks_from_block_height s from_height num_max_blocks =
     take num_max_blocks (filter (\<lambda>b. from_height \<le> blk_height b) (blocks s))"

subsection \<open>Transactions\<close>

definition get_unordered_txs :: "'a dao_state_scheme \<Rightarrow> tx list" where
  "get_unordered_txs s = map snd (tx_cache s)"

definition get_tx :: "'a dao_state_scheme \<Rightarrow> string \<Rightarrow> tx option" where
  "get_tx s i = map_of (tx_cache s) i"

definition contains_tx :: "'a dao_state_scheme \<Rightarrow> string \<Rightarrow> bool" where
  "contains_tx s i \<longleftrightarrow> get_tx s i \<noteq> None"

definition get_num_txs :: "'a dao_state_scheme \<Rightarrow> nat" where
  "get_num_txs s = length (tx_cache s)"

definition get_invalid_txs :: "'a dao_state_scheme \<Rightarrow> tx list" where
  "get_invalid_txs s = filter (\<lambda>t. tx_tx_type t = Some INVALID) (get_unordered_txs s)"

definition get_irregular_txs :: "'a dao_state_scheme \<Rightarrow> tx list" where
  "get_irregular_txs s = filter (\<lambda>t. tx_tx_type t = Some IRREGULAR) (get_unordered_txs s)"

definition get_optional_tx_type :: "'a dao_state_scheme \<Rightarrow> string \<Rightarrow> tx_type option" where
  "get_optional_tx_type s i = (case get_tx s i of Some t \<Rightarrow> tx_tx_type t | None \<Rightarrow> None)"

definition get_burnt_fee :: "'a dao_state_scheme \<Rightarrow> string \<Rightarrow> int" where
  "get_burnt_fee s i = (case get_tx s i of Some t \<Rightarrow> burnt_fee t | None \<Rightarrow> 0)"

definition has_tx_burnt_fee :: "'a dao_state_scheme \<Rightarrow> string \<Rightarrow> bool" where
  "has_tx_burnt_fee s i \<longleftrightarrow> 0 < get_burnt_fee s i"

definition get_trade_fee_txs :: "'a dao_state_scheme \<Rightarrow> tx set" where
  "get_trade_fee_txs s = set (filter (\<lambda>t. tx_tx_type t = Some PAY_TRADE_FEE) (get_unordered_txs s))"

definition get_proof_of_burn_txs :: "'a dao_state_scheme \<Rightarrow> tx set" where
  "get_proof_of_burn_txs s = set (filter (\<lambda>t. tx_tx_type t = Some PROOF_OF_BURN) (get_unordered_txs s))"

definition get_burnt_fee_txs :: "'a dao_state_scheme \<Rightarrow> tx set" where
  "get_burnt_fee_txs s = set (filter (\<lambda>t. 0 < burnt_fee t) (get_unordered_txs s))"

text \<open>Python indexing: a negative index counts from the end.\<close>

definition get_connected_tx_output :: "'a dao_state_scheme \<Rightarrow> tx_input \<Rightarrow> tx_output option res" where
  "get_connected_tx_output s i =
     (case get_tx s (connected_tx_output_tx_id i) of
        None \<Rightarrow> Inr None
      | Some t \<Rightarrow>
          let n = int (length (tx_outputs t)); j = connected_tx_output_index i;
              j' = (if j < 0 then n + j else j)
          in if 0 \<le> j' \<and> j' < n then Inr (Some (tx_outputs t ! nat j')) else Inl Index_Error)"

definition get_unordered_tx_outputs :: "'a dao_state_scheme \<Rightarrow> tx_output list" where
  "get_unordered_tx_outputs s = concat (map tx_outputs (get_unordered_txs s))"

definition exists_tx_output :: "'a dao_state_scheme \<Rightarrow> tx_output_key \<Rightarrow> bool" where
  "exists_tx_output s k \<longleftrightarrow> (\<exists>out \<in> set (get_unordered_tx_outputs s). get_key out = k)"

definition get_tx_output :: "'a dao_state_scheme \<Rightarrow> tx_output_key \<Rightarrow> tx_output option" where
  "get_tx_output s k = find (\<lambda>out. get_key out = k) (get_unordered_tx_outputs s)"

subsection \<open>Unspent outputs\<close>

definition add_unspent_tx_output ::
  "tx_output \<Rightarrow> 'a dao_service_scheme \<Rightarrow> 'a dao_service_scheme res" where
  "add_unspent_tx_output out =
     guarded (\<lambda>s. s\<lparr>unspent_tx_output_map := (unspent_tx_output_map s)(get_key out \<mapsto> out)\<rparr>)"

definition remove_unspent_tx_output ::
  "tx_output \<Rightarrow> 'a dao_service_scheme \<Rightarrow> 'a dao_service_scheme res" where
  "remove_unspent_tx_output out =
     guarded (\<lambda>s. s\<lparr>unspent_tx_output_map := (unspent_tx_output_map s)(get_key out := None)\<rparr>)"

definition is_unspent :: "'a dao_state_scheme \<Rightarrow> tx_output_key \<Rightarrow> bool" where
  "is_unspent s k \<longleftrightarrow> unspent_tx_output_map s k \<noteq> None"

definition get_unspent_tx_output :: "'a dao_state_scheme \<Rightarrow> tx_output_key \<Rightarrow> tx_output option" where
  "get_unspent_tx_output s k = unspent_tx_output_map s k"

definition get_unspent_tx_output_value :: "'a dao_state_scheme \<Rightarrow> tx_output_key \<Rightarrow> int" where
  "get_unspent_tx_output_value s k =
     (case get_unspent_tx_output s k of Some out \<Rightarrow> txo_value out | None \<Rightarrow> 0)"

definition get_unlock_block_height :: "'a dao_state_scheme \<Rightarrow> string \<Rightarrow> int option res" where
  "get_unlock_block_height s i =
     (case get_tx s i of
        None \<Rightarrow> Inr None
      | Some t \<Rightarrow> rbind (tx_unlock_block_height t) (\<lambda>h. Inr (Some h)))"

definition is_lock_time_over_for_unlock_tx_output ::
  "'a dao_state_scheme \<Rightarrow> tx_output \<Rightarrow> bool res" where
  "is_lock_time_over_for_unlock_tx_output s out =
     rbind (check (out_type out = UNLOCK_OUTPUT) Illegal_Argument) (\<lambda>_.
     rbind (get_unlock_block_height s (txo_tx_id out)) (\<lambda>h.
       Inr (case h of None \<Rightarrow> False | Some h' \<Rightarrow> is_lock_time_over h' (chain_height s))))"

definition is_tx_output_spendable :: "'a dao_state_scheme \<Rightarrow> tx_output \<Rightarrow> bool res" where
  "is_tx_output_spendable s out =
     (let ty = out_type out in
      if ty = UNDEFINED_OUTPUT then Inr False
      else if ty \<in> {GENESIS_OUTPUT, BSQ_OUTPUT, PROPOSAL_OP_RETURN_OUTPUT,
          COMP_REQ_OP_RETURN_OUTPUT, REIMBURSEMENT_OP_RETURN_OUTPUT, ISSUANCE_CANDIDATE_OUTPUT,
          BLIND_VOTE_OP_RETURN_OUTPUT, VOTE_REVEAL_UNLOCK_STAKE_OUTPUT,
          VOTE_REVEAL_OP_RETURN_OUTPUT, LOCKUP_OP_RETURN_OUTPUT} then Inr True
      else if ty \<in> {BTC_OUTPUT, BLIND_VOTE_LOCK_STAKE_OUTPUT, ASSET_LISTING_FEE_OP_RETURN_OUTPUT,
          PROOF_OF_BURN_OP_RETURN_OUTPUT, LOCKUP_OUTPUT, INVALID_OUTPUT} then Inr False
      else if ty = UNLOCK_OUTPUT then is_lock_time_over_for_unlock_tx_output s out
      else Inr False)"

definition is_tx_output_key_spendable :: "'a dao_state_scheme \<Rightarrow> tx_output_key \<Rightarrow> bool res" where
  "is_tx_output_key_spendable s k =
     (if \<not> is_unspent s k then Inr False
      else case get_unspent_tx_output s k of
             None \<Rightarrow> Inl Illegal_Argument
           | Some out \<Rightarrow> is_tx_output_spendable s out)"

subsection \<open>Issuance\<close>

definition add_issuance :: "issuance \<Rightarrow> 'a dao_service_scheme \<Rightarrow> 'a dao_service_scheme res" where
  "add_issuance i = guarded (\<lambda>s. s\<lparr>issuance_map := (issuance_map s)(iss_tx_id i \<mapsto> i)\<rparr>)"

definition get_issuance :: "'a dao_state_scheme \<Rightarrow> string \<Rightarrow> issuance_type option \<Rightarrow> issuance option" where
  "get_issuance s i ty =
     (case issuance_map s i of
        Some iss \<Rightarrow> if ty = None \<or> ty = Some (iss_issuance_type iss) then Some iss else None
      | None \<Rightarrow> None)"

definition is_issuance_tx :: "'a dao_state_scheme \<Rightarrow> string \<Rightarrow> issuance_type option \<Rightarrow> bool" where
  "is_issuance_tx s i ty \<longleftrightarrow> get_issuance s i ty \<noteq> None"

definition get_issuance_block_height :: "'a dao_state_scheme \<Rightarrow> string \<Rightarrow> int" where
  "get_issuance_block_height s i =
     (case get_issuance s i None of Some iss \<Rightarrow> iss_chain_height iss | None \<Rightarrow> 0)"

definition is_bsq_tx_output_type :: "'a dao_state_scheme \<Rightarrow> tx_output \<Rightarrow> bool" where
  "is_bsq_tx_output_type s out =
     (let ty = out_type out in
      if ty = UNDEFINED_OUTPUT then False
      else if ty \<in> {GENESIS_OUTPUT, BSQ_OUTPUT, PROPOSAL_OP_RETURN_OUTPUT,
          COMP_REQ_OP_RETURN_OUTPUT, REIMBURSEMENT_OP_RETURN_OUTPUT, BLIND_VOTE_LOCK_STAKE_OUTPUT,
          BLIND_VOTE_OP_RETURN_OUTPUT, VOTE_REVEAL_UNLOCK_STAKE_OUTPUT,
          VOTE_REVEAL_OP_RETURN_OUTPUT, ASSET_LISTING_FEE_OP_RETURN_OUTPUT,
          PROOF_OF_BURN_OP_RETURN_OUTPUT, LOCKUP_OUTPUT, LOCKUP_OP_RETURN_OUTPUT, UNLOCK_OUTPUT}
        then True
      else if ty = ISSUANCE_CANDIDATE_OUTPUT then is_issuance_tx s (txo_tx_id out) None
      else False)"

definition get_total_issued_amount :: "'a dao_state_scheme \<Rightarrow> issuance_type \<Rightarrow> int" where
  "get_total_issued_amount s ty =
     sum txo_value {out \<in> get_tx_output_by_tx_output_type s ISSUANCE_CANDIDATE_OUTPUT.
        is_issuance_tx s (txo_tx_id out) (Some ty)}"

definition is_rejected_issuance_output :: "'a dao_state_scheme \<Rightarrow> tx_output_key \<Rightarrow> bool" where
  "is_rejected_issuance_output s k =
     (case current_cycle s of
        None \<Rightarrow> False
      | Some c \<Rightarrow>
          \<exists>out \<in> get_tx_output_by_tx_output_type s ISSUANCE_CANDIDATE_OUTPUT.
            get_key out = k \<and> \<not> is_in_cycle c (txo_block_height out) \<and>
            \<not> is_issuance_tx s (txo_tx_id out) None)"

definition get_issuance_candidate_tx_outputs :: "'a dao_state_scheme \<Rightarrow> tx_output set" where
  "get_issuance_candidate_tx_outputs s = get_tx_output_by_tx_output_type s ISSUANCE_CANDIDATE_OUTPUT"

definition get_vote_reveal_op_return_tx_outputs :: "'a dao_state_scheme \<Rightarrow> tx_output set" where
  "get_vote_reveal_op_return_tx_outputs s =
     get_tx_output_by_tx_output_type s VOTE_REVEAL_OP_RETURN_OUTPUT"

definition get_asset_listing_fee_op_return_tx_outputs :: "'a dao_state_scheme \<Rightarrow> tx_output set" where
  "get_asset_listing_fee_op_return_tx_outputs s =
     get_tx_output_by_tx_output_type s ASSET_LISTING_FEE_OP_RETURN_OUTPUT"

definition get_proof_of_burn_op_return_tx_outputs :: "'a dao_state_scheme \<Rightarrow> tx_output set" where
  "get_proof_of_burn_op_return_tx_outputs s =
     get_tx_output_by_tx_output_type s PROOF_OF_BURN_OP_RETURN_OUTPUT"

definition get_unspent_blind_vote_stake_tx_outputs :: "'a dao_state_scheme \<Rightarrow> tx_output set" where
  "get_unspent_blind_vote_stake_tx_outputs s =
     {out \<in> get_tx_output_by_tx_output_type s BLIND_VOTE_LOCK_STAKE_OUTPUT. is_unspent s (get_key out)}"

end
