(* ===== verification/Dao_Bond.thy ===== *)
theory Dao_Bond
  imports Dao_State
begin

text \<open>
  The bond, parameter, spent-info and address operations of \<open>DaoStateService\<close>
  (\<open>dao/state/dao_state_service.py\<close>, from "Bond" on), and the facts on parameter changes and
  confiscation that do not need the ledger invariant.
\<close>

section \<open>Spent info\<close>

definition set_spent_info ::
  "tx_output_key \<Rightarrow> spent_info \<Rightarrow> 'a dao_service_scheme \<Rightarrow> 'a dao_service_scheme res" where
  "set_spent_info k si = guarded (\<lambda>s. s\<lparr>spent_info_map := (spent_info_map s)(k \<mapsto> si)\<rparr>)"

definition get_spent_info :: "'a dao_state_scheme \<Rightarrow> tx_output \<Rightarrow> spent_info option" where
  "get_spent_info s out = spent_info_map s (get_key out)"

section \<open>Bonds\<close>

definition get_lock_time_of_tx :: "'a dao_state_scheme \<Rightarrow> string \<Rightarrow> int option res" where
  "get_lock_time_of_tx s i =
     (case get_tx s i of
        None \<Rightarrow> Inr None
      | Some t \<Rightarrow> rbind (tx_lock_time t) (\<lambda>l. Inr (Some l)))"

definition is_lockup_output_tx :: "tx_output \<Rightarrow> bool" where
  "is_lockup_output_tx out \<longleftrightarrow> out_type out = LOCKUP_OUTPUT"

definition is_unlock_output :: "tx_output \<Rightarrow> bool" where
  "is_unlock_output out \<longleftrightarrow> out_type out = UNLOCK_OUTPUT"

definition is_unlock_tx_output_and_lock_time_not_over ::
  "'a dao_state_scheme \<Rightarrow> tx_output \<Rightarrow> bool res" where
  "is_unlock_tx_output_and_lock_time_not_over s out =
     (if out_type out = UNLOCK_OUTPUT
      then rbind (is_lock_time_over_for_unlock_tx_output s out) (\<lambda>b. Inr (\<not> b))
      else Inr False)"

definition is_lockup_output :: "'a dao_state_scheme \<Rightarrow> tx_output_key \<Rightarrow> bool" where
  "is_lockup_output s k =
     (case get_unspent_tx_output s k of Some out \<Rightarrow> is_lockup_output_tx out | None \<Rightarrow> False)"

definition is_unspent_unlock_output :: "'a dao_state_scheme \<Rightarrow> tx_output_key \<Rightarrow> bool" where
  "is_unspent_unlock_output s k =
     (case get_unspent_tx_output s k of Some out \<Rightarrow> is_unlock_output out | None \<Rightarrow> False)"

definition get_lockup_tx_outputs :: "'a dao_state_scheme \<Rightarrow> tx_output set" where
  "get_lockup_tx_outputs s = get_tx_output_by_tx_output_type s LOCKUP_OUTPUT"

definition get_unlock_tx_outputs :: "'a dao_state_scheme \<Rightarrow> tx_output set" where
  "get_unlock_tx_outputs s = get_tx_output_by_tx_output_type s UNLOCK_OUTPUT"

definition get_unspent_lockup_tx_outputs :: "'a dao_state_scheme \<Rightarrow> tx_output set" where
  "get_unspent_lockup_tx_outputs s = {out \<in> get_lockup_tx_outputs s. is_unspent s (get_key out)}"

definition get_lockup_tx_output :: "'a dao_state_scheme \<Rightarrow> string \<Rightarrow> tx_output option" where
  "get_lockup_tx_output s i =
     (case get_tx s i of Some t \<Rightarrow> find is_lockup_output_tx (tx_outputs t) | None \<Rightarrow> None)"

definition get_lockup_op_return_tx_output :: "'a dao_state_scheme \<Rightarrow> string \<Rightarrow> tx_output option res" where
  "get_lockup_op_return_tx_output s i =
     (case get_tx s i of
        None \<Rightarrow> Inr None
      | Some t \<Rightarrow> rbind (last_tx_output t) (\<lambda>out.
          Inr (if txo_op_return_data out \<noteq> None then Some out else None)))"

definition get_lockup_tx_from_unlock_tx_id :: "'a dao_state_scheme \<Rightarrow> string \<Rightarrow> tx option res" where
  "get_lockup_tx_from_unlock_tx_id s i =
     (case get_tx s i of
        None \<Rightarrow> Inr None
      | Some t \<Rightarrow> rbind (py_nth (tx_inputs t) 0) (\<lambda>inp.
          Inr (get_tx s (connected_tx_output_tx_id inp))))"

definition get_unlock_tx_from_lockup_tx_id :: "'a dao_state_scheme \<Rightarrow> string \<Rightarrow> tx option res" where
  "get_unlock_tx_from_lockup_tx_id s i =
     (case get_tx s i of
        None \<Rightarrow> Inr None
      | Some t \<Rightarrow> rbind (py_nth (tx_outputs t) 0) (\<lambda>out.
          Inr (case get_spent_info s out of Some si \<Rightarrow> get_tx s (si_tx_id si) | None \<Rightarrow> None)))"

definition get_lockup_hash :: "'a dao_state_scheme \<Rightarrow> tx_output \<Rightarrow> bytes option res" where
  "get_lockup_hash s out =
     rbind (if out_type out = LOCKUP_OUTPUT then Inr (get_tx s (txo_tx_id out))
            else rbind (is_unlock_tx_output_and_lock_time_not_over s out) (\<lambda>b.
              if b then get_lockup_tx_from_unlock_tx_id s (txo_tx_id out) else Inr None)) (\<lambda>lt.
     case lt of
       None \<Rightarrow> Inr None
     | Some t \<Rightarrow> rbind (last_tx_output t) (\<lambda>o'.
         Inr (case txo_op_return_data o' of
                None \<Rightarrow> None
              | Some d \<Rightarrow> if d = [] then None else Some (get_hash_from_op_return_data d))))"

section \<open>Confiscation\<close>

definition is_confiscated_lockup_tx_output :: "'a dao_state_scheme \<Rightarrow> string \<Rightarrow> bool" where
  "is_confiscated_lockup_tx_output s i \<longleftrightarrow> i \<in> set (confiscated_lockup_tx_list s)"

definition is_confiscated_unlock_tx_output :: "'a dao_state_scheme \<Rightarrow> string \<Rightarrow> bool res" where
  "is_confiscated_unlock_tx_output s i =
     rbind (get_lockup_tx_from_unlock_tx_id s i) (\<lambda>lt.
       Inr (case lt of None \<Rightarrow> False | Some t \<Rightarrow> is_confiscated_lockup_tx_output s (tx_id t)))"

definition is_confiscated_output :: "'a dao_state_scheme \<Rightarrow> tx_output_key \<Rightarrow> bool res" where
  "is_confiscated_output s k =
     (if is_lockup_output s k then Inr (is_confiscated_lockup_tx_output s (key_tx_id k))
      else if is_unspent_unlock_output s k then is_confiscated_unlock_tx_output s (key_tx_id k)
      else Inr False)"

definition is_unlocking_and_unspent_tx_output :: "'a dao_state_scheme \<Rightarrow> tx_output \<Rightarrow> bool res" where
  "is_unlocking_and_unspent_tx_output s out =
     (if out_type out = UNLOCK_OUTPUT \<and> is_unspent s (get_key out)
      then rbind (is_lock_time_over_for_unlock_tx_output s out) (\<lambda>b. Inr (\<not> b))
      else Inr False)"

definition is_unlocking_and_unspent_key :: "'a dao_state_scheme \<Rightarrow> tx_output_key \<Rightarrow> bool res" where
  "is_unlocking_and_unspent_key s k =
     (case get_unspent_tx_output s k of
        None \<Rightarrow> Inr False
      | Some out \<Rightarrow> is_unlocking_and_unspent_tx_output s out)"

definition is_unlocking_and_unspent_tx_id :: "'a dao_state_scheme \<Rightarrow> string \<Rightarrow> bool res" where
  "is_unlocking_and_unspent_tx_id s i =
     (case get_tx s i of
        None \<Rightarrow> Inr False
      | Some t \<Rightarrow> rbind (py_nth (tx_outputs t) 0) (is_unlocking_and_unspent_tx_output s))"

definition do_confiscate_bond :: "string \<Rightarrow> 'a dao_service_scheme \<Rightarrow> 'a dao_service_scheme res" where
  "do_confiscate_bond i =
     guarded (\<lambda>s. s\<lparr>confiscated_lockup_tx_list := confiscated_lockup_tx_list s @ [i]\<rparr>)"

definition confiscate_bond :: "string \<Rightarrow> 'a dao_service_scheme \<Rightarrow> 'a dao_service_scheme res" where
  "confiscate_bond lockup_tx_id s =
     (case get_lockup_tx_output s lockup_tx_id of
        None \<Rightarrow> Inr s
      | Some out \<Rightarrow>
          if is_unspent s (get_key out) then do_confiscate_bond lockup_tx_id s
          else (case get_spent_info s out of
                  None \<Rightarrow> Inl Illegal_Argument
                | Some si \<Rightarrow>
                    rbind (is_unlocking_and_unspent_tx_id s (si_tx_id si)) (\<lambda>b.
                      if b then do_confiscate_bond lockup_tx_id s else Inr s)))"

subsection \<open>Totals\<close>

text \<open>A generator expression over a set whose filter may raise an \<open>IndexError\<close>: it raises when
  the filter raises for some member, whatever the iteration order.\<close>

definition filter_set_res :: "('v \<Rightarrow> bool res) \<Rightarrow> 'v set \<Rightarrow> 'v set res" where
  "filter_set_res p S =
     (if \<forall>x \<in> S. is_ok (p x) then Inr {x \<in> S. p x = Inr True} else Inl Index_Error)"

definition get_unspent_unlocking_tx_outputs :: "'a dao_state_scheme \<Rightarrow> tx_output set res" where
  "get_unspent_unlocking_tx_outputs s =
     filter_set_res (\<lambda>out.
       if is_unspent s (get_key out)
       then rbind (is_lock_time_over_for_unlock_tx_output s out) (\<lambda>b. Inr (\<not> b))
       else Inr False) (get_unlock_tx_outputs s)"

definition get_total_amount_of_unlocking_tx_outputs :: "'a dao_state_scheme \<Rightarrow> int res" where
  "get_total_amount_of_unlocking_tx_outputs s =
     rbind (get_unspent_unlocking_tx_outputs s) (\<lambda>S.
     rbind (filter_set_res (\<lambda>out.
        rbind (is_confiscated_unlock_tx_output s (txo_tx_id out)) (\<lambda>b. Inr (\<not> b))) S) (\<lambda>T.
     Inr (sum txo_value T)))"

definition get_unlocked_tx_outputs :: "'a dao_state_scheme \<Rightarrow> tx_output set res" where
  "get_unlocked_tx_outputs s =
     filter_set_res (\<lambda>out.
       rbind (is_confiscated_unlock_tx_output s (txo_tx_id out)) (\<lambda>b.
         if b then Inr False else is_lock_time_over_for_unlock_tx_output s out))
       (get_unlock_tx_outputs s)"

definition get_total_amount_of_unlocked_tx_outputs :: "'a dao_state_scheme \<Rightarrow> int res" where
  "get_total_amount_of_unlocked_tx_outputs s =
     rbind (get_unlocked_tx_outputs s) (\<lambda>S. Inr (sum txo_value S))"

definition get_total_amount_of_lockup_tx_outputs :: "'a dao_state_scheme \<Rightarrow> int" where
  "get_total_amount_of_lockup_tx_outputs s =
     sum txo_value {out \<in> get_lockup_tx_outputs s. \<not> is_confiscated_lockup_tx_output s (txo_tx_id out)}"

definition get_total_lockup_amount :: "'a dao_state_scheme \<Rightarrow> int res" where
  "get_total_lockup_amount s =
     rbind (get_total_amount_of_unlocking_tx_outputs s) (\<lambda>u.
     rbind (get_total_amount_of_unlocked_tx_outputs s) (\<lambda>v.
     Inr (get_total_amount_of_lockup_tx_outputs s - u - v)))"

definition get_total_amount_of_confiscated_tx_outputs :: "'a dao_state_scheme \<Rightarrow> int res" where
  "get_total_amount_of_confiscated_tx_outputs s =
     fold_res (\<lambda>i acc. case get_tx s i of
         None \<Rightarrow> Inr acc
       | Some t \<Rightarrow> rbind (locked_amount t) (\<lambda>v. Inr (acc + v))) (confiscated_lockup_tx_list s) 0"

definition get_total_amount_of_invalidated_bsq :: "'a dao_state_scheme \<Rightarrow> int" where
  "get_total_amount_of_invalidated_bsq s = sum_list (map invalidated_bsq (get_unordered_txs s))"

definition get_total_amount_of_burnt_bsq :: "'a dao_state_scheme \<Rightarrow> int" where
  "get_total_amount_of_burnt_bsq s = sum_list (map tx_burnt_bsq (get_unordered_txs s))"

lemma burnt_splits:
  "get_total_amount_of_burnt_bsq s =
     sum_list (map burnt_fee (get_unordered_txs s)) + get_total_amount_of_invalidated_bsq s"
proof -
  have "sum_list (map tx_burnt_bsq ts) =
      sum_list (map burnt_fee ts) + sum_list (map invalidated_bsq ts)" for ts
    by (induction ts) (auto simp: burnt_fee_def invalidated_bsq_def)
  then show ?thesis
    by (simp add: get_total_amount_of_burnt_bsq_def get_total_amount_of_invalidated_bsq_def)
qed

section \<open>Parameters\<close>

definition set_new_param ::
  "int \<Rightarrow> param \<Rightarrow> string \<Rightarrow> 'a dao_service_scheme \<Rightarrow> 'a dao_service_scheme res" where
  "set_new_param h p v =
     guarded (\<lambda>s. case get_start_height_of_next_cycle s h of
        None \<Rightarrow> s
      | Some n \<Rightarrow>
          s\<lparr>param_change_list := sort_key pc_activation_height
              (param_change_list s @
               [\<lparr>pc_param_name = param_name p, pc_value = v, pc_activation_height = n\<rparr>])\<rparr>)"

definition get_param_value :: "'a dao_service_scheme \<Rightarrow> param \<Rightarrow> int \<Rightarrow> string" where
  "get_param_value s p h =
     (case find (\<lambda>pc. pc_param_name pc = param_name p \<and> pc_activation_height pc \<le> h)
             (rev (param_change_list s)) of
        Some pc \<Rightarrow> pc_value pc
      | None \<Rightarrow> default_value (network s) p)"

definition get_param_value_as_coin :: "'a dao_service_scheme \<Rightarrow> param \<Rightarrow> int \<Rightarrow> int res" where
  "get_param_value_as_coin s p h = bsq_formatter s p (get_param_value s p h)"

definition get_param_change_list :: "'a dao_service_scheme \<Rightarrow> param \<Rightarrow> int list res" where
  "get_param_change_list s p =
     fold_res (\<lambda>pc acc.
       if pc_param_name pc = param_name p
       then rbind (bsq_formatter s p (pc_value pc)) (\<lambda>v. Inr (acc @ [v]))
       else Inr acc) (param_change_list s) []"

definition get_param_value_as_block :: "'a dao_service_scheme \<Rightarrow> param \<Rightarrow> int \<Rightarrow> int res" where
  "get_param_value_as_block s p h = py_int (get_param_value s p h)"

declare add_cycle_def [mutator_defs] add_unspent_tx_output_def [mutator_defs]
  remove_unspent_tx_output_def [mutator_defs] add_issuance_def [mutator_defs]
  set_spent_info_def [mutator_defs] do_confiscate_bond_def [mutator_defs]
  set_new_param_def [mutator_defs]

subsection \<open>Facts on parameter changes\<close>

lemma sort_key_snoc_greatest:
  assumes "sorted (map f xs)" and "\<forall>y \<in> set xs. f y \<le> f x"
  shows "sort_key f (xs @ [x]) = xs @ [x]"
proof -
  have "sorted (map f (xs @ [x]))" using assms by (auto simp: sorted_append)
  then show ?thesis by (rule sort_key_id_if_sorted)
qed

lemma set_new_param_sorted:
  "set_new_param h p v s = Inr t \<Longrightarrow> sorted (map pc_activation_height (param_change_list s)) \<Longrightarrow>
     sorted (map pc_activation_height (param_change_list t))"
  by (auto simp: set_new_param_def split: option.splits)

lemma set_new_param_append:
  assumes "set_new_param h p v s = Inr t" and "get_start_height_of_next_cycle s h = Some n"
    and "sorted (map pc_activation_height (param_change_list s))"
    and "\<forall>pc \<in> set (param_change_list s). pc_activation_height pc \<le> n"
  shows "param_change_list t = param_change_list s @
           [\<lparr>pc_param_name = param_name p, pc_value = v, pc_activation_height = n\<rparr>]"
  using assms by (auto simp: set_new_param_def sort_key_snoc_greatest)

lemma get_param_value_new:
  assumes "set_new_param h p v s = Inr t" and "get_start_height_of_next_cycle s h = Some n"
    and "sorted (map pc_activation_height (param_change_list s))"
    and "\<forall>pc \<in> set (param_change_list s). pc_activation_height pc \<le> n"
  shows "get_param_value t q h' = (if q = p \<and> n \<le> h' then v else get_param_value s q h')"
proof -
  have net: "network t = network s" using assms(1) by (auto simp: set_new_param_def split: option.splits)
  show ?thesis
    using set_new_param_append [OF assms] by (auto simp: get_param_value_def net split: option.split)
qed

lemma set_new_param_network: "set_new_param h p v s = Inr t \<Longrightarrow> network t = network s"
  by (auto simp: set_new_param_def split: option.splits)

section \<open>Addresses\<close>

definition add_to_set_map :: "string \<Rightarrow> string \<Rightarrow> (string \<rightharpoonup> string set) \<Rightarrow> (string \<rightharpoonup> string set)" where
  "add_to_set_map k x m = m(k \<mapsto> insert x (case m k of Some S \<Rightarrow> S | None \<Rightarrow> {}))"

definition has_address :: "'a dao_state_scheme \<Rightarrow> tx_output \<Rightarrow> string option" where
  "has_address s out =
     (if is_bsq_tx_output_type s out
      then (case txo_address out of Some a \<Rightarrow> if a = [] then None else Some a | None \<Rightarrow> None)
      else None)"

definition address_outputs_step ::
  "'a dao_state_scheme \<Rightarrow> tx \<Rightarrow> tx_output \<Rightarrow>
     (string \<rightharpoonup> string set) \<times> (tx_output_key \<rightharpoonup> string) \<Rightarrow>
     (string \<rightharpoonup> string set) \<times> (tx_output_key \<rightharpoonup> string)" where
  "address_outputs_step s t out st =
     (case has_address s out of
        None \<Rightarrow> st
      | Some a \<Rightarrow>
          (add_to_set_map a (tx_id t) (fst st),
           fold (\<lambda>inp m. m(get_connected_tx_output_key inp \<mapsto> tx_id t)) (tx_inputs t) (snd st)))"

definition get_tx_id_set_by_address ::
  "'a dao_service_scheme \<Rightarrow> 'a dao_service_scheme \<times> (string \<rightharpoonup> string set)" where
  "get_tx_id_set_by_address s =
     (if cached_tx_id_set_by_address s \<noteq> Map.empty then (s, cached_tx_id_set_by_address s)
      else let st = fold (\<lambda>t. fold (address_outputs_step s t) (tx_outputs t))
                      (get_unordered_txs s) (cached_tx_id_set_by_address s, Map.empty);
               m = fold (\<lambda>out m. case has_address s out of
                      None \<Rightarrow> m
                    | Some a \<Rightarrow> (case snd st (get_key out) of
                        None \<Rightarrow> m
                      | Some i \<Rightarrow> if i = [] then m else add_to_set_map a i m))
                     (get_unordered_tx_outputs s) (fst st)
           in (s\<lparr>cached_tx_id_set_by_address := m\<rparr>, m))"


section \<open>Percent parameters\<close>

definition get_param_value_as_percent :: "'a dao_service_scheme \<Rightarrow> param \<Rightarrow> int \<Rightarrow> int res" where
  "get_param_value_as_percent s p h = percent_parser s (get_param_value s p h)"

section \<open>Vote result data\<close>

text \<open>\<open>EvaluatedProposal\<close> has no comparison of its own, so objects that were just created are
  never in the list.  The argument is the set in the order in which it is iterated.\<close>

definition add_evaluated_proposal_set ::
  "evaluated_proposal list \<Rightarrow> ('a dao_service_scheme, unit) action" where
  "add_evaluated_proposal_set es =
     abind (query assert_dao_state_change) (\<lambda>_.
     abind (modify (\<lambda>s. s\<lparr>evaluated_proposal_list := evaluated_proposal_list s @ es\<rparr>)) (\<lambda>_.
     call (\<lambda>s. rbind (sort_by_tx_id ev_proposal_tx_id (evaluated_proposal_list s)) (\<lambda>l.
       Inr (s\<lparr>evaluated_proposal_list := l\<rparr>)))))"

definition add_decrypted_ballots :: "decrypted_ballots \<Rightarrow> decrypted_ballots list \<Rightarrow> decrypted_ballots list" where
  "add_decrypted_ballots d ds = (if \<exists>x \<in> set ds. dbm_eq x d then ds else ds @ [d])"

definition add_decrypted_ballots_with_merits_set ::
  "decrypted_ballots list \<Rightarrow> 'a dao_service_scheme \<Rightarrow> 'a dao_service_scheme res" where
  "add_decrypted_ballots_with_merits_set ds =
     guarded (\<lambda>s. s\<lparr>decrypted_ballots_with_merits_list :=
        sort_key dbm_blind_vote_tx_id
          (fold add_decrypted_ballots ds (decrypted_ballots_with_merits_list s))\<rparr>)"

end
