(* ===== verification/Utxo_Ledger.thy ===== *)
theory Utxo_Ledger
  imports Dao_Bond
begin

text \<open>
  The unspent-output map as a ledger.  The locale \<open>coin_ledger\<close> is the contract between the
  state service and the parsers: what adding and removing a coin does to look-ups and to the
  total, and that both succeed in a good state.  Its client lemmas (committing a list of
  coins, spending one) are proved once; the interpretation on \<open>add_unspent_tx_output\<close> and
  \<open>remove_unspent_tx_output\<close> provides them for the model.
\<close>

section \<open>The contract\<close>

locale coin_ledger =
  fixes lookup :: "'s \<Rightarrow> 'k \<Rightarrow> 'o option"
    and add rem :: "'o \<Rightarrow> 's \<Rightarrow> 's res"
    and key_of :: "'o \<Rightarrow> 'k"
    and worth :: "'o \<Rightarrow> int"
    and total :: "'s \<Rightarrow> int"
    and ok :: "'s \<Rightarrow> bool"
  assumes add_succeeds: "ok s \<Longrightarrow> \<exists>t. add v s = Inr t"
    and add_ok: "ok s \<Longrightarrow> add v s = Inr t \<Longrightarrow> ok t"
    and add_lookup: "ok s \<Longrightarrow> add v s = Inr t \<Longrightarrow> lookup t = (lookup s)(key_of v \<mapsto> v)"
    and add_total:
      "ok s \<Longrightarrow> add v s = Inr t \<Longrightarrow> lookup s (key_of v) = None \<Longrightarrow> total t = total s + worth v"
    and rem_succeeds: "ok s \<Longrightarrow> \<exists>t. rem v s = Inr t"
    and rem_ok: "ok s \<Longrightarrow> rem v s = Inr t \<Longrightarrow> ok t"
    and rem_lookup: "ok s \<Longrightarrow> rem v s = Inr t \<Longrightarrow> lookup t = (lookup s)(key_of v := None)"
    and rem_total:
      "ok s \<Longrightarrow> rem v s = Inr t \<Longrightarrow> lookup s (key_of v) = Some v \<Longrightarrow> total t = total s - worth v"
begin

lemma add_many:
  assumes "ok s" and "distinct (map key_of vs)" and "\<forall>v \<in> set vs. lookup s (key_of v) = None"
  shows "\<exists>t. fold_res add vs s = Inr t \<and> ok t \<and>
     total t = total s + sum_list (map worth vs) \<and>
     (\<forall>k. lookup t k = (case find (\<lambda>v. key_of v = k) vs of Some v \<Rightarrow> Some v | None \<Rightarrow> lookup s k))"
  using assms
proof (induction vs arbitrary: s)
  case Nil
  then show ?case by simp
next
  case (Cons v vs)
  obtain u where u: "add v s = Inr u" using add_succeeds [OF Cons.prems(1)] by blast
  have ok: "ok u" and l: "lookup u = (lookup s)(key_of v \<mapsto> v)"
      and t: "total u = total s + worth v"
    using Cons.prems u by (auto intro: add_ok dest: add_lookup add_total)
  have fresh: "\<forall>w \<in> set vs. lookup u (key_of w) = None"
    using Cons.prems by (auto simp: l image_iff)
  from Cons.IH [OF ok _ fresh] Cons.prems(2) obtain t where
    "fold_res add vs u = Inr t" "ok t" "total t = total u + sum_list (map worth vs)"
    "\<forall>k. lookup t k = (case find (\<lambda>v. key_of v = k) vs of Some v \<Rightarrow> Some v | None \<Rightarrow> lookup u k)"
    by auto
  moreover have "find (\<lambda>w. key_of w = key_of v) vs = None"
    using Cons.prems(2) by (auto simp: find_None_iff image_iff)
  ultimately show ?case by (auto simp: u t l split: option.splits)
qed

lemma spend:
  assumes "ok s" and "lookup s k = Some v" and "key_of v = k"
  shows "\<exists>t. rem v s = Inr t \<and> ok t \<and> lookup t = (lookup s)(k := None) \<and>
     total t = total s - worth v"
  using rem_succeeds [OF assms(1), of v] assms rem_ok rem_lookup rem_total by metis

end

section \<open>The ledger of the DAO state\<close>

definition utxo_total :: "'a dao_state_scheme \<Rightarrow> int" where
  "utxo_total s = map_total txo_value (unspent_tx_output_map s)"

definition utxo_keyed :: "'a dao_state_scheme \<Rightarrow> bool" where
  "utxo_keyed s \<longleftrightarrow> finite (dom (unspent_tx_output_map s)) \<and>
     (\<forall>k out. unspent_tx_output_map s k = Some out \<longrightarrow> get_key out = k)"

definition utxo_ok :: "'a dao_service_scheme \<Rightarrow> bool" where
  "utxo_ok s \<longleftrightarrow> allow_dao_state_change s \<and> utxo_keyed s"

lemma utxo_keyed_update:
  "utxo_keyed s \<Longrightarrow> utxo_keyed (s\<lparr>unspent_tx_output_map := (unspent_tx_output_map s)(get_key out \<mapsto> out)\<rparr>)"
  by (auto simp: utxo_keyed_def)

lemma utxo_keyed_remove:
  "utxo_keyed s \<Longrightarrow> utxo_keyed (s\<lparr>unspent_tx_output_map := (unspent_tx_output_map s)(k := None)\<rparr>)"
  by (auto simp: utxo_keyed_def)

interpretation ledger: coin_ledger get_unspent_tx_output
  "add_unspent_tx_output :: tx_output \<Rightarrow> 'a dao_service_scheme \<Rightarrow> 'a dao_service_scheme res"
  remove_unspent_tx_output get_key txo_value utxo_total utxo_ok
proof unfold_locales
  fix s t :: "'a dao_service_scheme" and v :: tx_output
  assume ok: "utxo_ok s"
  then have fin: "finite (dom (unspent_tx_output_map s))" by (simp add: utxo_ok_def utxo_keyed_def)
  show "\<exists>t. add_unspent_tx_output v s = Inr t" "\<exists>t. remove_unspent_tx_output v s = Inr t"
    using ok by (simp_all add: mutator_defs utxo_ok_def)
  { assume a: "add_unspent_tx_output v s = Inr t"
    show "utxo_ok t"
      using ok a by (simp add: mutator_defs utxo_ok_def utxo_keyed_def)
    show "get_unspent_tx_output t = (get_unspent_tx_output s)(get_key v \<mapsto> v)"
      using a by (simp add: mutator_defs get_unspent_tx_output_def fun_eq_iff)
    assume "get_unspent_tx_output s (get_key v) = None"
    then show "utxo_total t = utxo_total s + txo_value v"
      using a fin by (simp add: mutator_defs get_unspent_tx_output_def utxo_total_def
          map_total_insert) }
  { assume r: "remove_unspent_tx_output v s = Inr t"
    show "utxo_ok t"
      using ok r by (auto simp: mutator_defs utxo_ok_def utxo_keyed_def)
    show "get_unspent_tx_output t = (get_unspent_tx_output s)(get_key v := None)"
      using r by (simp add: mutator_defs get_unspent_tx_output_def fun_eq_iff)
    assume "get_unspent_tx_output s (get_key v) = Some v"
    then show "utxo_total t = utxo_total s - txo_value v"
      using r fin by (simp add: mutator_defs get_unspent_tx_output_def
          utxo_total_def map_total_remove) }
qed

text \<open>Outputs that are not in the ledger are not confiscated.\<close>

lemma not_confiscated_fresh:
  "get_unspent_tx_output s k = None \<Longrightarrow> is_confiscated_output s k = Inr False"
  by (simp add: is_confiscated_output_def is_lockup_output_def is_unspent_unlock_output_def)

text \<open>What the ledger operations leave alone.\<close>

definition same_but_ledger :: "'a dao_service_scheme \<Rightarrow> 'a dao_service_scheme \<Rightarrow> bool" where
  "same_but_ledger s t \<longleftrightarrow>
     t\<lparr>unspent_tx_output_map := unspent_tx_output_map s, spent_info_map := spent_info_map s\<rparr> = s"

lemma same_but_ledger_refl [simp]: "same_but_ledger s s"
  by (simp add: same_but_ledger_def)

lemma same_but_ledger_sel:
  assumes "same_but_ledger s t"
  shows "blocks t = blocks s" "tx_cache t = tx_cache s" "cycles t = cycles s"
    "blocks_by_height t = blocks_by_height s" "tx_outputs_by_type t = tx_outputs_by_type s"
    "allow_dao_state_change t = allow_dao_state_change s" "chain_height t = chain_height s"
    "confiscated_lockup_tx_list t = confiscated_lockup_tx_list s"
    "issuance_map t = issuance_map s" "param_change_list t = param_change_list s"
    "network t = network s" "bsq_formatter t = bsq_formatter s"
    "genesis_tx_id t = genesis_tx_id s" "genesis_block_height t = genesis_block_height s"
    "genesis_total_supply t = genesis_total_supply s"
    "parse_block_chain_complete t = parse_block_chain_complete s"
    "cached_tx_id_set_by_address t = cached_tx_id_set_by_address s"
  using assms by (cases s; cases t; simp add: same_but_ledger_def)+

lemma same_but_ledger_trans: "same_but_ledger s t \<Longrightarrow> same_but_ledger t u \<Longrightarrow> same_but_ledger s u"
  by (cases s; cases t; cases u) (simp add: same_but_ledger_def)

lemma ledger_ops_same:
  "add_unspent_tx_output out s = Inr t \<Longrightarrow> same_but_ledger s t"
  "remove_unspent_tx_output out s = Inr t \<Longrightarrow> same_but_ledger s t"
  "set_spent_info k si s = Inr t \<Longrightarrow> same_but_ledger s t"
  by (auto simp: mutator_defs same_but_ledger_def)

lemma add_many_same: "fold_res add_unspent_tx_output outs s = Inr t \<Longrightarrow> same_but_ledger s t"
  by (induction rule: fold_res_inv) (auto intro: same_but_ledger_trans ledger_ops_same)

end
