(* ===== verification/Tx_Input_Parser.thy ===== *)
theory Tx_Input_Parser
  imports Utxo_Ledger
begin

text \<open>
  \<open>TxInputParser\<close> (\<open>dao/node/parser/tx_input_parser.py\<close>): the parser object is a record, its
  \<open>process\<close> updates the parser and the DAO state.  The lemmas account for every BSQ that
  leaves the ledger: it is either in \<open>accumulated_input_value\<close> or in \<open>burnt_bond_value\<close>.
\<close>

record tx_input_parser =
  accumulated_input_value :: int
  burnt_bond_value :: int
  tip_unlock_block_height :: int
  tip_spent_lockup_tx_output :: "tx_output option"
  is_unlock_input_valid :: bool
  num_vote_reveal_inputs :: int

definition new_tx_input_parser :: tx_input_parser where
  "new_tx_input_parser =
     \<lparr> accumulated_input_value = 0, burnt_bond_value = 0, tip_unlock_block_height = 0,
       tip_spent_lockup_tx_output = None, is_unlock_input_valid = True,
       num_vote_reveal_inputs = 0 \<rparr>"

definition is_vote_reveal_input_valid :: "tx_input_parser \<Rightarrow> bool" where
  "is_vote_reveal_input_valid p \<longleftrightarrow> num_vote_reveal_inputs p = 1"

text \<open>The effect of a connected unspent output on the parser.\<close>

definition input_parser_step :: "int \<Rightarrow> tx_output \<Rightarrow> tx_input_parser \<Rightarrow> tx_input_parser" where
  "input_parser_step block_height out p =
     (let v = txo_value out;
          p = p\<lparr>accumulated_input_value := accumulated_input_value p + v\<rparr>
      in if out_type out = BLIND_VOTE_LOCK_STAKE_OUTPUT then
           p\<lparr>num_vote_reveal_inputs := num_vote_reveal_inputs p + 1\<rparr>
         else if out_type out = LOCKUP_OUTPUT then
           (let p = p\<lparr>is_unlock_input_valid := (tip_spent_lockup_tx_output p = None)\<rparr>
            in if is_unlock_input_valid p
               then p\<lparr>tip_spent_lockup_tx_output := Some out,
                      tip_unlock_block_height := block_height + out_lock_time out\<rparr>
               else p)
         else if out_type out = UNLOCK_OUTPUT then
           (if block_height < out_unlock_block_height out
            then p\<lparr>accumulated_input_value := accumulated_input_value p - v,
                   burnt_bond_value := burnt_bond_value p + v\<rparr>
            else p)
         else p)"

definition process ::
  "tx_output_key \<Rightarrow> int \<Rightarrow> string \<Rightarrow> nat \<Rightarrow> tx_input_parser \<times> 'a dao_service_scheme \<Rightarrow>
     (tx_input_parser \<times> 'a dao_service_scheme) res" where
  "process tx_output_key block_height i input_index ps =
     (case ps of (p, s) \<Rightarrow>
        rbind (is_confiscated_output s tx_output_key) (\<lambda>confiscated.
          if confiscated then Inr (p, s)
          else (case get_unspent_tx_output s tx_output_key of
                  None \<Rightarrow> Inr (p, s)
                | Some out \<Rightarrow>
                    rbind (set_spent_info (get_key out)
                             \<lparr>si_block_height = block_height, si_tx_id = i,
                              si_input_index = int input_index\<rparr> s) (\<lambda>s1.
                    rbind (remove_unspent_tx_output out s1) (\<lambda>s2.
                    Inr (input_parser_step block_height out p, s2))))))"

text \<open>The loop over the inputs at the start of \<open>TxParser._find_tx\<close>.\<close>

definition process_inputs ::
  "raw_tx \<Rightarrow> tx_input_parser \<times> 'a dao_service_scheme \<Rightarrow>
     (tx_input_parser \<times> 'a dao_service_scheme) res" where
  "process_inputs raw =
     fold_res (\<lambda>(n, inp). process (get_connected_tx_output_key inp) (tx_block_height raw) (tx_id raw) n)
       (enumerate_from 0 (tx_inputs raw))"

section \<open>Accounting\<close>

definition input_value :: "tx_input_parser \<Rightarrow> int" where
  "input_value p = accumulated_input_value p + burnt_bond_value p"

lemma input_parser_step_value: "input_value (input_parser_step h out p) = input_value p + txo_value out"
  by (simp add: input_value_def input_parser_step_def Let_def)

lemma input_parser_step_spent_lockup:
  "(\<forall>out'. tip_spent_lockup_tx_output p = Some out' \<longrightarrow> out_type out' = LOCKUP_OUTPUT) \<Longrightarrow>
   (\<forall>out'. tip_spent_lockup_tx_output (input_parser_step h out p) = Some out' \<longrightarrow>
     out_type out' = LOCKUP_OUTPUT)"
  by (simp add: input_parser_step_def Let_def)

lemma process_cases:
  assumes "process k h i n (p, s) = Inr (p', s')"
  obtains (Skipped) "p' = p" "s' = s"
      "is_confiscated_output s k = Inr True \<or> get_unspent_tx_output s k = None"
    | (Spent) out s1 where "is_confiscated_output s k = Inr False"
      "get_unspent_tx_output s k = Some out" "p' = input_parser_step h out p"
      "set_spent_info (get_key out) \<lparr>si_block_height = h, si_tx_id = i, si_input_index = int n\<rparr> s = Inr s1"
      "remove_unspent_tx_output out s1 = Inr s'"
  using assms by (auto simp: process_def split: if_splits option.splits)

lemma set_spent_info_ledger:
  assumes "set_spent_info k si s = Inr t"
  shows "utxo_ok s \<Longrightarrow> utxo_ok t" "utxo_total t = utxo_total s"
    "get_unspent_tx_output t = get_unspent_tx_output s" "spent_info_map t = (spent_info_map s)(k \<mapsto> si)"
  using assms
  by (auto simp: set_spent_info_def utxo_ok_def utxo_keyed_def utxo_total_def
      get_unspent_tx_output_def fun_eq_iff)

text \<open>One input: the ledger loses what the parser gains, and only the connected output.\<close>

lemma process_spec:
  assumes "process k h i n (p, s) = Inr (p', s')" and "utxo_ok s"
  shows "utxo_ok s' \<and> utxo_total s' + input_value p' = utxo_total s + input_value p \<and>
     get_unspent_tx_output s' =
       (if p' = p \<and> s' = s then get_unspent_tx_output s else (get_unspent_tx_output s)(k := None)) \<and>
     same_but_ledger s s'"
  using assms(1)
proof (cases rule: process_cases)
  case Skipped
  with assms(2) show ?thesis by simp
next
  case (Spent out s1)
  have k: "get_key out = k"
    using assms(2) Spent(2) by (simp add: utxo_ok_def utxo_keyed_def get_unspent_tx_output_def)
  note s1 = set_spent_info_ledger [OF Spent(4)]
  have out: "get_unspent_tx_output s1 (get_key out) = Some out" using Spent(2) k s1(3) by simp
  obtain t where "remove_unspent_tx_output out s1 = Inr t" "utxo_ok t"
      "get_unspent_tx_output t = (get_unspent_tx_output s1)(get_key out := None)"
      "utxo_total t = utxo_total s1 - txo_value out"
    using ledger.spend [OF s1(1) [OF assms(2)] out refl] by blast
  with Spent(5) have t: "utxo_ok s'" "utxo_total s' = utxo_total s1 - txo_value out"
      "get_unspent_tx_output s' = (get_unspent_tx_output s1)(get_key out := None)" by auto
  have "get_unspent_tx_output s' k = None" using t(3) k by simp
  then have "s' \<noteq> s" using Spent(2) by auto
  moreover have "same_but_ledger s s'"
    using ledger_ops_same(3) [OF Spent(4)] ledger_ops_same(2) [OF Spent(5)]
    by (rule same_but_ledger_trans)
  ultimately show ?thesis
    using t s1 k by (simp add: Spent(3) input_parser_step_value)
qed

lemma process_inputs_spec:
  assumes "process_inputs raw (p, s) = Inr (p', s')" and "utxo_ok s"
  shows "utxo_ok s' \<and> utxo_total s' + input_value p' = utxo_total s + input_value p \<and>
     (\<forall>k. get_unspent_tx_output s' k = get_unspent_tx_output s k \<or>
        get_unspent_tx_output s' k = None) \<and> same_but_ledger s s'"
proof -
  let ?P = "\<lambda>(q, t). utxo_ok t \<and> utxo_total t + input_value q = utxo_total s + input_value p \<and>
     (\<forall>k. get_unspent_tx_output t k = get_unspent_tx_output s k \<or>
        get_unspent_tx_output t k = None) \<and> same_but_ledger s t"
  have "?P (p', s')"
    using assms(1) unfolding process_inputs_def
  proof (induction rule: fold_res_inv)
    case init
    show ?case using assms(2) by simp
  next
    case (step x u v)
    obtain n inp q t q' t' where x: "x = (n, inp)" "u = (q, t)" "v = (q', t')"
      by (metis surj_pair)
    from step have pr: "process (get_connected_tx_output_key inp) (tx_block_height raw)
        (tx_id raw) n (q, t) = Inr (q', t')" by (simp add: x)
    from step have P: "?P (q, t)" by (simp add: x)
    then have I: "utxo_ok t" "same_but_ledger s t" by simp_all
    from process_spec [OF pr I(1)] P show ?case
      by (auto simp: x dest: same_but_ledger_trans [OF I(2)] split: if_splits)
  qed
  then show ?thesis by simp
qed

text \<open>A spent lockup output kept by the parser is a lockup output.\<close>

lemma process_inputs_spent_lockup:
  assumes "process_inputs raw (new_tx_input_parser, s) = Inr (p', s')"
    and "tip_spent_lockup_tx_output p' = Some out"
  shows "out_type out = LOCKUP_OUTPUT"
proof -
  let ?P = "\<lambda>(q, t :: 'a dao_service_scheme).
     \<forall>out'. tip_spent_lockup_tx_output q = Some out' \<longrightarrow> out_type out' = LOCKUP_OUTPUT"
  have "?P (p', s')"
    using assms(1) unfolding process_inputs_def
  proof (induction rule: fold_res_inv)
    case init
    show ?case by (simp add: new_tx_input_parser_def)
  next
    case (step x u v)
    obtain n inp q t q' t' where x: "x = (n, inp)" "u = (q, t)" "v = (q', t')"
      by (metis surj_pair)
    from step have pr: "process (get_connected_tx_output_key inp) (tx_block_height raw)
        (tx_id raw) n (q, t) = Inr (q', t')" by (simp add: x)
    from step have P: "?P (q, t)" by (simp add: x)
    from pr show ?case
    proof (cases rule: process_cases)
      case Skipped
      with P show ?thesis by (simp add: x)
    next
      case (Spent out s1)
      from P have "\<forall>out'. tip_spent_lockup_tx_output q = Some out' \<longrightarrow> out_type out' = LOCKUP_OUTPUT"
        by simp
      from input_parser_step_spent_lockup [OF this] show ?thesis by (simp add: x Spent(3))
    qed
  qed
  with assms(2) show ?thesis by simp
qed

section \<open>Guards of the input parser\<close>

lemma process_confiscated:
  "is_confiscated_output s k = Inr True \<Longrightarrow> process k h i n (p, s) = Inr (p, s)"
  by (simp add: process_def)

lemma process_closed:
  assumes "\<not> allow_dao_state_change s" and "is_confiscated_output s k = Inr False"
    and "get_unspent_tx_output s k = Some out"
  shows "process k h i n (p, s) = Inl Dao_State_Change_Error"
  using assms by (simp add: process_def set_spent_info_def guarded_closed)

end
