(* ===== verification/Tx_Output_Parser.thy ===== *)
theory Tx_Output_Parser
  imports Tx_Input_Parser
begin

text \<open>
  \<open>TxOutputParser\<close> (\<open>dao/node/parser/tx_output_parser.py\<close>).  The parser keeps references to
  the mutable \<open>TempTxOutput\<close> objects of the transaction (the candidates, the stake, the lockup
  and the issuance output) and changes them later through those references: a reference is
  the position of the object in \<open>temp_tx_outputs\<close>, and the operations return the parser together
  with the list of outputs.  The lemmas describe one output and the loop over the outputs: what
  leaves \<open>available_input_value\<close> is in a candidate, and how the types are assigned.
\<close>

section \<open>The parser object\<close>

record tx_output_parser =
  available_input_value :: int
  top_unlock_block_height :: int
  top_spent_lockup_tx_output :: "tx_output option"
  bsq_output_found :: bool
  optional_op_return_type :: "op_return_type option"
  optional_issuance_candidate :: "nat option"
  optional_blind_vote_lock_stake_output :: "nat option"
  optional_vote_reveal_unlock_stake_output :: "nat option"
  optional_lockup_output :: "nat option"
  optional_op_return_index :: "int option"
  top_lock_time :: int
  utxo_candidates :: "nat list"
  prohibit_more_bsq_outputs :: bool

definition new_tx_output_parser :: tx_output_parser where
  "new_tx_output_parser =
     \<lparr> available_input_value = 0, top_unlock_block_height = 0, top_spent_lockup_tx_output = None,
       bsq_output_found = False, optional_op_return_type = None,
       optional_issuance_candidate = None, optional_blind_vote_lock_stake_output = None,
       optional_vote_reveal_unlock_stake_output = None, optional_lockup_output = None,
       optional_op_return_index = None, top_lock_time = 0, utxo_candidates = [],
       prohibit_more_bsq_outputs = False \<rparr>"

type_synonym parse_state = "tx_output_parser \<times> temp_tx_output list"

definition set_output_type :: "nat \<Rightarrow> tx_output_type \<Rightarrow> temp_tx_output list \<Rightarrow> temp_tx_output list" where
  "set_output_type i ty outs = outs[i := (outs ! i)\<lparr>tmp_output_type := ty\<rparr>]"

section \<open>Hard fork\<close>

definition get_activate_hard_fork_1_height :: "base_currency_network \<Rightarrow> int" where
  "get_activate_hard_fork_1_height n =
     (if is_mainnet n then 605000 else if is_testnet n then 1583054 else 1)"

definition is_hard_fork_activated :: "base_currency_network \<Rightarrow> temp_tx_output \<Rightarrow> bool" where
  "is_hard_fork_activated n out \<longleftrightarrow> get_activate_hard_fork_1_height n \<le> txo_block_height out"

section \<open>Operations\<close>

definition process_op_return_output :: "nat \<Rightarrow> parse_state \<Rightarrow> parse_state res" where
  "process_op_return_output i st =
     (case st of (p, outs) \<Rightarrow>
        case txo_op_return_data (outs ! i) of
          None \<Rightarrow> Inl Assertion_Error
        | Some d \<Rightarrow>
            rbind (get_tx_output_type (outs ! i)) (\<lambda>ty.
              let ort = get_mapped_op_return_type ty;
                  p1 = p\<lparr>optional_op_return_type := ort\<rparr>;
                  p2 = (if ort \<noteq> None
                        then p1\<lparr>optional_op_return_index := Some (txo_index (outs ! i))\<rparr> else p1);
                  p3 = (if ort = Some OpR_LOCKUP then p2\<lparr>top_lock_time := get_lock_time d\<rparr> else p2)
              in Inr (p3, set_output_type i ty outs)))"

definition is_unlock_bond_tx :: "tx_output_parser \<Rightarrow> int \<Rightarrow> int \<Rightarrow> bool" where
  "is_unlock_bond_tx p tx_output_value index \<longleftrightarrow>
     index = 0 \<and> available_input_value p = tx_output_value \<and>
     (case top_spent_lockup_tx_output p of None \<Rightarrow> False | Some out \<Rightarrow> txo_value out = tx_output_value)"

definition handle_unlock_bond_tx :: "nat \<Rightarrow> parse_state \<Rightarrow> parse_state res" where
  "handle_unlock_bond_tx i st =
     (case st of (p, outs) \<Rightarrow>
        case top_spent_lockup_tx_output p of
          None \<Rightarrow> Inl Illegal_Argument
        | Some lockup \<Rightarrow>
            Inr (p\<lparr>available_input_value := available_input_value p - txo_value lockup,
                   utxo_candidates := utxo_candidates p @ [i],
                   bsq_output_found := True,
                   prohibit_more_bsq_outputs := True\<rparr>,
                 outs[i := (outs ! i)\<lparr>tmp_output_type := UNLOCK_OUTPUT,
                                     tmp_unlock_block_height := top_unlock_block_height p\<rparr>]))"

definition is_btc_output_of_burn_fee_tx ::
  "'a dao_service_scheme \<Rightarrow> tx_output_parser \<Rightarrow> temp_tx_output \<Rightarrow> bool res" where
  "is_btc_output_of_burn_fee_tx s p out =
     (let index = txo_index out; hf = is_hard_fork_activated (network s) out
      in case optional_op_return_type p of
           None \<Rightarrow> Inr False
         | Some OpR_PROPOSAL \<Rightarrow> Inr (hf \<and> 1 \<le> index)
         | Some OpR_BLIND_VOTE \<Rightarrow>
             if \<not> hf then Inr False
             else if index = 0 then Inr False
             else if available_input_value p \<le> 0 then Inr False
             else (case optional_op_return_index p of
                     None \<Rightarrow> Inl Illegal_Argument
                   | Some j \<Rightarrow>
                       if index \<noteq> j - 1 then Inr False
                       else rbind (get_param_value_as_coin s BLIND_VOTE_FEE (txo_block_height out))
                              (\<lambda>blind_vote_fee. Inr (available_input_value p = blind_vote_fee)))
         | Some OpR_ASSET_LISTING_FEE \<Rightarrow> Inr (1 \<le> index)
         | Some OpR_PROOF_OF_BURN \<Rightarrow> Inr (1 \<le> index)
         | Some _ \<Rightarrow> Inr False)"

definition is_issuance_candidate_tx_output :: "tx_output_parser \<Rightarrow> temp_tx_output \<Rightarrow> bool" where
  "is_issuance_candidate_tx_output p out \<longleftrightarrow>
     0 < available_input_value p \<and> txo_index out = 1 \<and>
     optional_op_return_type p \<in> {Some OpR_COMPENSATION_REQUEST, Some OpR_REIMBURSEMENT_REQUEST}"

definition handle_issuance_candidate_output :: "nat \<Rightarrow> parse_state \<Rightarrow> parse_state" where
  "handle_issuance_candidate_output i st =
     (case st of (p, outs) \<Rightarrow>
        (p\<lparr>prohibit_more_bsq_outputs := True, optional_issuance_candidate := Some i\<rparr>, outs))"

definition handle_bsq_output :: "nat \<Rightarrow> int \<Rightarrow> int \<Rightarrow> parse_state \<Rightarrow> parse_state" where
  "handle_bsq_output i index tx_output_value st =
     (case st of (p, outs) \<Rightarrow>
        let p1 = p\<lparr>available_input_value := available_input_value p - tx_output_value\<rparr>;
            is_first_output = (index = 0);
            candidate = optional_op_return_type p1;
            (p2, out, ty) =
              (if is_first_output \<and> candidate = Some OpR_BLIND_VOTE then
                 (p1\<lparr>optional_blind_vote_lock_stake_output := Some i\<rparr>, outs ! i,
                  BLIND_VOTE_LOCK_STAKE_OUTPUT)
               else if is_first_output \<and> candidate = Some OpR_VOTE_REVEAL then
                 (p1\<lparr>optional_vote_reveal_unlock_stake_output := Some i,
                     prohibit_more_bsq_outputs := True\<rparr>, outs ! i,
                  VOTE_REVEAL_UNLOCK_STAKE_OUTPUT)
               else if is_first_output \<and> candidate = Some OpR_LOCKUP then
                 (p1\<lparr>optional_lockup_output := Some i\<rparr>,
                  (outs ! i)\<lparr>tmp_lock_time := top_lock_time p1\<rparr>, LOCKUP_OUTPUT)
               else (p1, outs ! i, BSQ_OUTPUT))
        in (p2\<lparr>utxo_candidates := utxo_candidates p2 @ [i], bsq_output_found := True\<rparr>,
            outs[i := out\<lparr>tmp_output_type := ty\<rparr>]))"

definition handle_btc_output ::
  "base_currency_network \<Rightarrow> nat \<Rightarrow> int \<Rightarrow> parse_state \<Rightarrow> parse_state" where
  "handle_btc_output n i index st =
     (case st of (p, outs) \<Rightarrow>
        if is_hard_fork_activated n (outs ! i) then
          (p\<lparr>prohibit_more_bsq_outputs := True\<rparr>, set_output_type i BTC_OUTPUT outs)
        else if 0 < available_input_value p \<and> index = 1 \<and>
          optional_op_return_type p \<in> {Some OpR_COMPENSATION_REQUEST, Some OpR_REIMBURSEMENT_REQUEST}
        then (p\<lparr>optional_issuance_candidate := Some i, prohibit_more_bsq_outputs := True\<rparr>, outs)
        else (p\<lparr>prohibit_more_bsq_outputs := True\<rparr>, set_output_type i BTC_OUTPUT outs))"

definition process_tx_output ::
  "'a dao_service_scheme \<Rightarrow> nat \<Rightarrow> parse_state \<Rightarrow> parse_state res" where
  "process_tx_output s i st =
     (case st of (p, outs) \<Rightarrow>
        let out = outs ! i in
        if is_op_return_output out then Inr (p, set_output_type i INVALID_OUTPUT outs)
        else rbind (is_confiscated_output s (get_key out)) (\<lambda>confiscated.
          if \<not> confiscated then
            (let tx_output_value = txo_value out; index = txo_index out
             in if is_unlock_bond_tx p tx_output_value index then handle_unlock_bond_tx i (p, outs)
                else rbind (is_btc_output_of_burn_fee_tx s p out) (\<lambda>burn_fee.
                  if burn_fee then Inr (handle_btc_output (network s) i index (p, outs))
                  else if is_hard_fork_activated (network s) out \<and> is_issuance_candidate_tx_output p out
                  then Inr (handle_issuance_candidate_output i (p, outs))
                  else if 0 < available_input_value p \<and> tx_output_value \<le> available_input_value p
                  then (if is_hard_fork_activated (network s) out \<and> prohibit_more_bsq_outputs p
                        then Inr (handle_btc_output (network s) i index (p, outs))
                        else Inr (handle_bsq_output i index tx_output_value (p, outs)))
                  else Inr (handle_btc_output (network s) i index (p, outs))))
          else Inr (p\<lparr>available_input_value := available_input_value p - txo_value out\<rparr>,
                    set_output_type i BTC_OUTPUT outs)))"

definition commit_utxo_candidates ::
  "parse_state \<Rightarrow> 'a dao_service_scheme \<Rightarrow> 'a dao_service_scheme res" where
  "commit_utxo_candidates st =
     (case st of (p, outs) \<Rightarrow>
        fold_res (\<lambda>i. add_unspent_tx_output (from_temp_output (outs ! i))) (utxo_candidates p))"

definition invalidate_utxo_candidates :: "parse_state \<Rightarrow> temp_tx_output list" where
  "invalidate_utxo_candidates st =
     (case st of (p, outs) \<Rightarrow> fold (\<lambda>i. set_output_type i BTC_OUTPUT) (utxo_candidates p) outs)"

text \<open>The outputs part of \<open>TxParser._find_tx\<close>: the last output first, then the others in
  order; \<open>outputs[last_index]\<close> raises when there is no output.\<close>

definition process_outputs ::
  "'a dao_service_scheme \<Rightarrow> parse_state \<Rightarrow> parse_state res" where
  "process_outputs s st =
     (let n = length (snd st)
      in if n = 0 then Inl Index_Error
         else if is_op_return_output (snd st ! (n - 1))
         then rbind (process_op_return_output (n - 1) st)
                (fold_res (process_tx_output s) [0..<n - 1])
         else fold_res (process_tx_output s) [0..<n] st)"

section \<open>The step relation\<close>

text \<open>What one output can do to the parse state, without the conditions under which the code
  chooses: the specification \<open>process_tx_output\<close> refines for an output that is not confiscated.\<close>

inductive output_step :: "base_currency_network \<Rightarrow> nat \<Rightarrow> parse_state \<Rightarrow> parse_state \<Rightarrow> bool" where
  invalid: "is_op_return_output (outs ! i) \<Longrightarrow>
     output_step n i (p, outs) (p, set_output_type i INVALID_OUTPUT outs)"
| btc: "\<not> is_op_return_output (outs ! i) \<Longrightarrow>
     output_step n i (p, outs) (p\<lparr>prohibit_more_bsq_outputs := True\<rparr>, set_output_type i BTC_OUTPUT outs)"
| issuance: "\<not> is_op_return_output (outs ! i) \<Longrightarrow> is_issuance_candidate_tx_output p (outs ! i) \<Longrightarrow>
     output_step n i (p, outs) (handle_issuance_candidate_output i (p, outs))"
| unlock: "\<not> is_op_return_output (outs ! i) \<Longrightarrow>
     is_unlock_bond_tx p (txo_value (outs ! i)) (txo_index (outs ! i)) \<Longrightarrow>
     handle_unlock_bond_tx i (p, outs) = Inr st \<Longrightarrow> output_step n i (p, outs) st"
| bsq: "\<not> is_op_return_output (outs ! i) \<Longrightarrow> 0 < available_input_value p \<Longrightarrow>
     txo_value (outs ! i) \<le> available_input_value p \<Longrightarrow>
     \<not> (is_hard_fork_activated n (outs ! i) \<and> prohibit_more_bsq_outputs p) \<Longrightarrow>
     output_step n i (p, outs)
       (handle_bsq_output i (txo_index (outs ! i)) (txo_value (outs ! i)) (p, outs))"

lemma handle_btc_output_step:
  assumes "\<not> is_op_return_output (outs ! i)"
  shows "output_step m i (p, outs) (handle_btc_output n i (txo_index (outs ! i)) (p, outs))"
proof -
  have "handle_btc_output n i (txo_index (outs ! i)) (p, outs) =
      (p\<lparr>prohibit_more_bsq_outputs := True\<rparr>, set_output_type i BTC_OUTPUT outs) \<or>
    is_issuance_candidate_tx_output p (outs ! i) \<and>
    handle_btc_output n i (txo_index (outs ! i)) (p, outs) =
      handle_issuance_candidate_output i (p, outs)"
    by (simp add: handle_btc_output_def is_issuance_candidate_tx_output_def
        handle_issuance_candidate_output_def)
  with assms show ?thesis by (metis output_step.btc output_step.issuance)
qed

lemma process_tx_output_refines:
  assumes "process_tx_output s i (p, outs) = Inr st"
    and "is_confiscated_output s (get_key (outs ! i)) = Inr False"
  shows "output_step (network s) i (p, outs) st"
proof (cases "is_op_return_output (outs ! i)")
  case True
  with assms(1) output_step.invalid [OF True, of "network s" p] show ?thesis
    by (simp add: process_tx_output_def)
next
  case False
  note steps = handle_btc_output_step [OF False] output_step.issuance [OF False]
    output_step.unlock [OF False] output_step.bsq [OF False]
  show ?thesis
    using assms False steps
    by (auto simp: process_tx_output_def Let_def split: if_splits)
qed

section \<open>Invariants of the outputs loop\<close>

definition raw_part :: "temp_tx_output \<Rightarrow> raw_tx_output" where
  "raw_part t = raw_output_from_tx_output (from_temp_output t)"

definition bsq_candidate_types :: "tx_output_type set" where
  "bsq_candidate_types =
     {BSQ_OUTPUT, BLIND_VOTE_LOCK_STAKE_OUTPUT, VOTE_REVEAL_UNLOCK_STAKE_OUTPUT, LOCKUP_OUTPUT,
      UNLOCK_OUTPUT}"

text \<open>\<open>accounts a raws k\<close>: after \<open>k\<close> outputs, the outputs still have their raw data \<open>raws\<close>, and the
  input value \<open>a\<close> is the value still available plus the values of the candidates; the issuance
  candidate is none of them.\<close>

definition accounts :: "int \<Rightarrow> raw_tx_output list \<Rightarrow> nat \<Rightarrow> parse_state \<Rightarrow> bool" where
  "accounts a raws k st =
     (case st of (p, outs) \<Rightarrow>
        map raw_part outs = raws \<and>
        available_input_value p + (\<Sum>i\<leftarrow>utxo_candidates p. txo_value (raws ! i)) = a \<and>
        0 \<le> available_input_value p \<and>
        distinct (utxo_candidates p) \<and> (\<forall>i \<in> set (utxo_candidates p). i < k) \<and>
        (bsq_output_found p \<longleftrightarrow> utxo_candidates p \<noteq> []) \<and>
        (\<forall>i. optional_issuance_candidate p = Some i \<longrightarrow> i < k \<and> i \<notin> set (utxo_candidates p)))"

lemma no_bsq_candidate_types [simp]:
  "BTC_OUTPUT \<notin> bsq_candidate_types" "INVALID_OUTPUT \<notin> bsq_candidate_types"
  "UNDEFINED_OUTPUT \<notin> bsq_candidate_types" "ISSUANCE_CANDIDATE_OUTPUT \<notin> bsq_candidate_types"
  by (simp_all add: bsq_candidate_types_def)

text \<open>\<open>types_match\<close>: exactly the candidates carry a BSQ type, and the special ones stand at output
  index 0 only.  \<open>refs_match\<close>: the references the parser keeps fit the OP_RETURN type.\<close>

definition types_match :: "parse_state \<Rightarrow> bool" where
  "types_match st =
     (case st of (p, outs) \<Rightarrow>
        (\<forall>i < length outs. i \<in> set (utxo_candidates p) \<longleftrightarrow>
             tmp_output_type (outs ! i) \<in> bsq_candidate_types) \<and>
        (\<forall>i < length outs. tmp_output_type (outs ! i) \<in> bsq_candidate_types - {BSQ_OUTPUT} \<longrightarrow>
             txo_index (outs ! i) = 0))"

definition refs_match :: "parse_state \<Rightarrow> bool" where
  "refs_match st =
     (case st of (p, outs) \<Rightarrow>
        (\<forall>i. optional_issuance_candidate p = Some i \<longrightarrow>
             i < length outs \<and> txo_index (outs ! i) = 1 \<and>
             optional_op_return_type p \<in> {Some OpR_COMPENSATION_REQUEST, Some OpR_REIMBURSEMENT_REQUEST}) \<and>
        (\<forall>i. optional_blind_vote_lock_stake_output p = Some i \<longrightarrow>
             i \<in> set (utxo_candidates p) \<and> optional_op_return_type p = Some OpR_BLIND_VOTE) \<and>
        (\<forall>i. optional_vote_reveal_unlock_stake_output p = Some i \<longrightarrow>
             i \<in> set (utxo_candidates p) \<and> optional_op_return_type p = Some OpR_VOTE_REVEAL) \<and>
        (\<forall>i. optional_lockup_output p = Some i \<longrightarrow>
             i \<in> set (utxo_candidates p) \<and> optional_op_return_type p = Some OpR_LOCKUP))"

lemma raw_part_sel:
  "txo_value (raw_part t) = txo_value t" "txo_index (raw_part t) = txo_index t"
  "get_key (raw_part t) = get_key t" "txo_op_return_data (raw_part t) = txo_op_return_data t"
  "txo_tx_id (raw_part t) = txo_tx_id t" "txo_block_height (raw_part t) = txo_block_height t"
  by (simp_all add: raw_part_def raw_output_from_tx_output_def get_key_def)

lemma raw_part_update [simp]:
  "raw_part (t\<lparr>tmp_output_type := ty\<rparr>) = raw_part t"
  "raw_part (t\<lparr>tmp_lock_time := l\<rparr>) = raw_part t"
  "raw_part (t\<lparr>tmp_unlock_block_height := h\<rparr>) = raw_part t"
  by (simp_all add: raw_part_def raw_output_from_tx_output_def from_temp_output_def)

lemma raw_part_from_raw [simp]: "raw_part (from_raw_tx_output r) = r"
  by (simp add: raw_part_def raw_output_round_trip)

lemma map_raw_part_update: "i < length outs \<Longrightarrow> raw_part t = raw_part (outs ! i) \<Longrightarrow>
  map raw_part (outs[i := t]) = map raw_part outs"
  by (simp add: map_update list_update_same_conv)

lemma set_output_type_nth:
  "i < length outs \<Longrightarrow> set_output_type i ty outs ! j =
     (if j = i then (outs ! i)\<lparr>tmp_output_type := ty\<rparr> else outs ! j)"
  by (auto simp: set_output_type_def)

lemma length_set_output_type [simp]: "length (set_output_type i ty outs) = length outs"
  by (simp add: set_output_type_def)

lemma map_raw_part_set_output_type [simp]:
  "map raw_part (set_output_type i ty outs) = map raw_part outs"
  by (cases "i < length outs") (simp_all add: set_output_type_def map_raw_part_update list_update_beyond)

lemma output_step_accounts:
  assumes "output_step n k st st'" and "accounts a raws k st" and "k < length raws"
  shows "accounts a raws (Suc k) st'"
proof -
  obtain p outs where st: "st = (p, outs)" by (cases st)
  have len: "k < length outs" and v: "txo_value (raws ! k) = txo_value (outs ! k)"
    using assms(2,3) by (auto simp: accounts_def st raw_part_sel)
  note acc = assms(2) [unfolded accounts_def st]
  from assms(1) [unfolded st] show ?thesis
  proof (cases rule: output_step.cases)
    case unlock
    then show ?thesis using acc v len
      by (auto simp: accounts_def handle_unlock_bond_tx_def is_unlock_bond_tx_def
          map_raw_part_update less_Suc_eq split: option.splits)
  next
    case bsq
    then show ?thesis using acc v len
      by (auto simp: accounts_def handle_bsq_output_def Let_def map_raw_part_update less_Suc_eq)
  qed (use acc in \<open>auto simp: accounts_def handle_issuance_candidate_output_def\<close>)
qed

lemma output_step_types:
  assumes "output_step n k st st'" and "types_match st" and "accounts a raws k st" and "k < length raws"
  shows "types_match st'"
proof -
  obtain p outs where st: "st = (p, outs)" by (cases st)
  have len: "k < length outs" using assms(3,4) by (auto simp: accounts_def st)
  have fresh: "k \<notin> set (utxo_candidates p)" using assms(3) by (auto simp: accounts_def st)
  note ty = assms(2) [unfolded types_match_def st]
  from assms(1) [unfolded st] show ?thesis
  proof (cases rule: output_step.cases)
    case unlock
    then show ?thesis using ty fresh len
      by (auto simp: types_match_def handle_unlock_bond_tx_def is_unlock_bond_tx_def nth_list_update
          bsq_candidate_types_def split: option.splits if_splits)
  next
    case bsq
    then show ?thesis using ty fresh len
      by (auto simp: types_match_def handle_bsq_output_def Let_def nth_list_update
          bsq_candidate_types_def split: if_splits)
  qed (use ty fresh len in \<open>auto simp: types_match_def set_output_type_nth bsq_candidate_types_def
         handle_issuance_candidate_output_def split: if_splits\<close>)
qed

lemma output_step_refs:
  assumes "output_step n k st st'" and "refs_match st" and "k < length (snd st)"
  shows "refs_match st'"
proof -
  obtain p outs where st: "st = (p, outs)" by (cases st)
  have len: "k < length outs" using assms(3) by (simp add: st)
  have index [simp]: "txo_index (outs[k := (outs ! k)\<lparr>tmp_output_type := ty\<rparr>] ! i) = txo_index (outs ! i)"
    "txo_index (outs[k := (outs ! k)\<lparr>tmp_output_type := ty, tmp_unlock_block_height := h\<rparr>] ! i) = txo_index (outs ! i)"
    "txo_index (outs[k := (outs ! k)\<lparr>tmp_output_type := ty, tmp_lock_time := l\<rparr>] ! i) = txo_index (outs ! i)"
    for ty h l i by (cases "i = k"; simp add: len)+
  note refs = assms(2) [unfolded refs_match_def st]
  from assms(1) [unfolded st] show ?thesis
  proof (cases rule: output_step.cases)
    case unlock
    then show ?thesis using refs
      by (auto simp: refs_match_def handle_unlock_bond_tx_def split: option.splits)
  next
    case bsq
    then show ?thesis using refs
      by (cases "optional_op_return_type p = Some OpR_BLIND_VOTE";
          cases "optional_op_return_type p = Some OpR_VOTE_REVEAL";
          cases "optional_op_return_type p = Some OpR_LOCKUP")
        (simp_all add: refs_match_def handle_bsq_output_def Let_def)
  next
    case issuance
    then show ?thesis using refs len
      by (simp add: refs_match_def handle_issuance_candidate_output_def
          is_issuance_candidate_tx_output_def)
  qed (use refs in \<open>simp_all add: refs_match_def set_output_type_def\<close>)
qed

section \<open>The loop over the outputs\<close>

definition fresh_outputs :: "'a dao_state_scheme \<Rightarrow> raw_tx_output list \<Rightarrow> bool" where
  "fresh_outputs s raws \<longleftrightarrow> (\<forall>r \<in> set raws. get_unspent_tx_output s (get_key r) = None)"

definition outputs_inv ::
  "int \<Rightarrow> raw_tx_output list \<Rightarrow> nat \<Rightarrow> parse_state \<Rightarrow> bool" where
  "outputs_inv a raws k st \<longleftrightarrow> accounts a raws k st \<and> types_match st \<and> refs_match st"

definition initial_parser :: "int \<Rightarrow> tx_output_parser \<Rightarrow> bool" where
  "initial_parser a p \<longleftrightarrow>
     available_input_value p = a \<and> 0 \<le> a \<and> utxo_candidates p = [] \<and> \<not> bsq_output_found p \<and>
     optional_issuance_candidate p = None \<and> optional_blind_vote_lock_stake_output p = None \<and>
     optional_vote_reveal_unlock_stake_output p = None \<and> optional_lockup_output p = None"

lemma length_accounts: "accounts a raws k (p, outs) \<Longrightarrow> length outs = length raws"
  by (auto simp: accounts_def)

lemma nth_accounts:
  "accounts a raws k (p, outs) \<Longrightarrow> i < length raws \<Longrightarrow> raw_part (outs ! i) = raws ! i"
  by (auto simp: accounts_def)

lemma initial_outputs_inv:
  "initial_parser a p \<Longrightarrow> outputs_inv a raws 0 (p, map from_raw_tx_output raws)"
  by (auto simp: outputs_inv_def accounts_def types_match_def refs_match_def initial_parser_def
      bsq_candidate_types_def comp_def)

lemma process_tx_output_inv:
  assumes "process_tx_output s k st = Inr st'" and "outputs_inv a raws k st"
    and "fresh_outputs s raws" and "k < length raws"
  shows "output_step (network s) k st st'" and "outputs_inv a raws (Suc k) st'"
proof -
  obtain p outs where st: "st = (p, outs)" by (cases st)
  note inv = assms(2) [unfolded outputs_inv_def st]
  have "raw_part (outs ! k) = raws ! k" using inv assms(4) nth_accounts by blast
  then have "get_key (outs ! k) = get_key (raws ! k)" by (metis raw_part_sel(3))
  with assms(3,4) have "is_confiscated_output s (get_key (outs ! k)) = Inr False"
    by (simp add: fresh_outputs_def not_confiscated_fresh)
  from process_tx_output_refines [OF assms(1) [unfolded st] this]
  show step: "output_step (network s) k st st'" by (simp add: st)
  show "outputs_inv a raws (Suc k) st'"
    using inv assms(4) length_accounts output_step_accounts [OF step] output_step_types [OF step]
      output_step_refs [OF step]
    by (auto simp: outputs_inv_def st)
qed

text \<open>Reading the OP_RETURN output changes no value and gives no output a BSQ type.\<close>

lemma op_return_no_candidate:
  "get_tx_output_type out = Inr ty \<Longrightarrow> ty \<notin> bsq_candidate_types"
  by (auto dest!: get_tx_output_type_range simp: bsq_candidate_types_def)

lemma process_op_return_output_inv:
  assumes "process_op_return_output i (p, outs) = Inr (p', outs')" and "outputs_inv a raws 0 (p, outs)"
    and "initial_parser a p" and "i < length outs"
  shows "outputs_inv a raws 0 (p', outs') \<and> initial_parser a p' \<and>
     (\<forall>j. j \<noteq> i \<longrightarrow> outs' ! j = outs ! j) \<and> prohibit_more_bsq_outputs p' = prohibit_more_bsq_outputs p \<and>
     top_spent_lockup_tx_output p' = top_spent_lockup_tx_output p \<and>
     top_unlock_block_height p' = top_unlock_block_height p"
proof -
  from assms(1) obtain d ty where ty: "get_tx_output_type (outs ! i) = Inr ty"
    and outs': "outs' = set_output_type i ty outs"
    and p': "initial_parser a p = initial_parser a p'"
      "prohibit_more_bsq_outputs p' = prohibit_more_bsq_outputs p"
      "top_spent_lockup_tx_output p' = top_spent_lockup_tx_output p"
      "top_unlock_block_height p' = top_unlock_block_height p"
    by (auto simp: process_op_return_output_def Let_def initial_parser_def split: option.splits
        if_splits)
  have ini: "initial_parser a p'" using assms(3) p'(1) by simp
  have "\<forall>j < length outs. tmp_output_type (outs' ! j) \<notin> bsq_candidate_types"
    using assms(2,3,4) op_return_no_candidate [OF ty]
    by (auto simp: outs' outputs_inv_def types_match_def initial_parser_def set_output_type_nth)
  then have "outputs_inv a raws 0 (p', outs')"
    using assms(2) ini by (auto simp: outs' outputs_inv_def accounts_def types_match_def
        refs_match_def initial_parser_def)
  with ini p' assms(4) show ?thesis by (simp add: outs' set_output_type_nth)
qed

lemma process_outputs_inv:
  assumes "process_outputs s (p, map from_raw_tx_output raws) = Inr (p', outs')"
    and "initial_parser a p" and "fresh_outputs s raws"
  shows "outputs_inv a raws (length raws) (p', outs')"
proof -
  let ?outs = "map from_raw_tx_output raws" let ?n = "length raws"
  note inv0 = initial_outputs_inv [OF assms(2), of raws]
  have loop: "outputs_inv a raws m st'"
    if "fold_res (process_tx_output s) [0..<m] st = Inr st'" "outputs_inv a raws 0 st" "m \<le> ?n"
    for m st st'
    using that
    by (induction rule: fold_res_upt) (auto intro: process_tx_output_inv(2) [OF _ _ assms(3)])
  have weaken: "outputs_inv a raws m st' \<Longrightarrow> m \<le> m' \<Longrightarrow> outputs_inv a raws m' st'" for m m' st'
    by (auto simp: outputs_inv_def accounts_def)
  show ?thesis
  proof (cases "is_op_return_output (?outs ! (?n - 1))")
    case True
    with assms(1) obtain st where op: "process_op_return_output (?n - 1) (p, ?outs) = Inr st"
      and f: "fold_res (process_tx_output s) [0..<?n - 1] st = Inr (p', outs')" and n: "?n \<noteq> 0"
      by (auto simp: process_outputs_def Let_def split: if_splits)
    obtain q outs where st: "st = (q, outs)" by (cases st)
    from process_op_return_output_inv [OF op [unfolded st] inv0 assms(2)] n
    have "outputs_inv a raws 0 st" by (simp add: st)
    from loop [OF f this] weaken show ?thesis by simp
  next
    case False
    with assms(1) have "fold_res (process_tx_output s) [0..<?n] (p, ?outs) = Inr (p', outs')"
      by (simp add: process_outputs_def Let_def split: if_splits)
    from loop [OF this inv0] show ?thesis by simp
  qed
qed

section \<open>Committing and invalidating the candidates\<close>

lemma invalidate_types:
  assumes "\<forall>i \<in> set is. i < length outs"
  shows "length (fold (\<lambda>i. set_output_type i ty) is outs) = length outs \<and>
     map raw_part (fold (\<lambda>i. set_output_type i ty) is outs) = map raw_part outs \<and>
     (\<forall>j. tmp_output_type (fold (\<lambda>i. set_output_type i ty) is outs ! j) =
        (if j \<in> set is then ty else tmp_output_type (outs ! j)))"
  using assms by (induction "is" arbitrary: outs) (auto simp: set_output_type_nth)

text \<open>Committing succeeds, adds the values of the candidates to the ledger and makes exactly
  them unspent.\<close>

lemma commit_utxo_candidates_spec:
  assumes "map raw_part outs = raws" and "distinct (map get_key raws)" and "fresh_outputs s raws"
    and "utxo_ok s" and "distinct (utxo_candidates p)" and "\<forall>i \<in> set (utxo_candidates p). i < length raws"
  shows "\<exists>t. commit_utxo_candidates (p, outs) s = Inr t \<and> utxo_ok t \<and> same_but_ledger s t \<and>
     spent_info_map t = spent_info_map s \<and>
     utxo_total t = utxo_total s + (\<Sum>i\<leftarrow>utxo_candidates p. txo_value (raws ! i)) \<and>
     (\<forall>k out. get_unspent_tx_output t k = Some out \<longleftrightarrow> get_unspent_tx_output s k = Some out \<or>
        (\<exists>i \<in> set (utxo_candidates p). out = from_temp_output (outs ! i) \<and> k = get_key (raws ! i)))"
proof -
  let ?cs = "map (\<lambda>i. from_temp_output (outs ! i)) (utxo_candidates p)"
  have raw: "raw_part (outs ! i) = raws ! i" if "i \<in> set (utxo_candidates p)" for i
    using assms(1,6) that by auto
  have key: "get_key (from_temp_output (outs ! i)) = get_key (raws ! i)"
    and val: "txo_value (from_temp_output (outs ! i)) = txo_value (raws ! i)"
    if "i \<in> set (utxo_candidates p)" for i
    using raw [OF that] raw_part_sel(1,3) [of "outs ! i"] by simp_all
  have keys: "map get_key ?cs = map (\<lambda>i. get_key (raws ! i)) (utxo_candidates p)"
    and vals: "map txo_value ?cs = map (\<lambda>i. txo_value (raws ! i)) (utxo_candidates p)"
    using key val by simp_all
  have inj: "inj_on (\<lambda>i. get_key (raws ! i)) (set (utxo_candidates p))"
    using assms(2,6) by (auto intro!: inj_onI simp: distinct_conv_nth)
  have dist: "distinct (map get_key ?cs)"
    unfolding keys using inj assms(5) by (simp add: distinct_map)
  have fresh: "\<forall>c \<in> set ?cs. get_unspent_tx_output s (get_key c) = None"
    using assms(3,6) key by (auto simp: fresh_outputs_def)
  from ledger.add_many [OF assms(4) dist fresh] obtain t where
    t: "fold_res add_unspent_tx_output ?cs s = Inr t" "utxo_ok t"
      "utxo_total t = utxo_total s + sum_list (map txo_value ?cs)"
      "\<forall>k. get_unspent_tx_output t k = (case find (\<lambda>v. get_key v = k) ?cs of Some v \<Rightarrow> Some v
         | None \<Rightarrow> get_unspent_tx_output s k)" by blast
  have same: "same_but_ledger s t" using t(1) by (rule add_many_same)
  have si: "spent_info_map t = spent_info_map s"
    using t(1) by (induction rule: fold_res_inv) (auto simp: mutator_defs)
  have look: "get_unspent_tx_output t k = Some out \<longleftrightarrow> get_unspent_tx_output s k = Some out \<or>
      (\<exists>i \<in> set (utxo_candidates p). out = from_temp_output (outs ! i) \<and> k = get_key (raws ! i))" for k out
  proof (cases "find (\<lambda>v. get_key v = k) ?cs")
    case None
    then have "get_unspent_tx_output t k = get_unspent_tx_output s k"
      using t(4) by simp
    then show ?thesis using None key by (auto simp: find_None_iff)
  next
    case (Some v)
    then obtain i where i: "i \<in> set (utxo_candidates p)" "v = from_temp_output (outs ! i)"
      "get_key (raws ! i) = k"
      using find_Some_iff_ex [OF Some] key by auto
    have uniq: "j = i" if "j \<in> set (utxo_candidates p)" "get_key (raws ! j) = k" for j
      using inj_onD [OF inj] that i by blast
    have "get_unspent_tx_output t k = Some v" using t(4) Some by simp
    moreover have "get_unspent_tx_output s k = None"
      using assms(3,6) i by (auto simp: fresh_outputs_def)
    moreover have "(\<exists>j \<in> set (utxo_candidates p). out = from_temp_output (outs ! j) \<and>
        k = get_key (raws ! j)) \<longleftrightarrow> v = out" using i uniq by blast
    ultimately show ?thesis by simp
  qed
  have "commit_utxo_candidates (p, outs) s = Inr t"
    using t(1) by (simp add: commit_utxo_candidates_def fold_res_map)
  moreover have "utxo_total t = utxo_total s + (\<Sum>i\<leftarrow>utxo_candidates p. txo_value (raws ! i))"
    using t(3) unfolding vals .
  ultimately show ?thesis
    using t(2) same si look by (intro exI [of _ t] conjI allI) assumption+
qed

section \<open>The hard-fork rule\<close>

text \<open>After the activation, an output that is neither BSQ nor OP_RETURN forbids BSQ outputs
  behind it.\<close>

definition bsq_prefix :: "nat \<Rightarrow> parse_state \<Rightarrow> bool" where
  "bsq_prefix k st =
     (case st of (p, outs) \<Rightarrow>
        (\<forall>i < k. \<not> is_op_return_output (outs ! i) \<longrightarrow> tmp_output_type (outs ! i) \<notin> bsq_candidate_types \<longrightarrow>
           prohibit_more_bsq_outputs p \<and>
           (\<forall>j. i < j \<longrightarrow> j < length outs \<longrightarrow> tmp_output_type (outs ! j) \<notin> bsq_candidate_types)) \<and>
        (\<forall>i. k \<le> i \<longrightarrow> i < length outs \<longrightarrow> tmp_output_type (outs ! i) \<notin> bsq_candidate_types))"

lemma bsq_prefix_behind:
  "bsq_prefix k (p, outs) \<Longrightarrow> i < k \<Longrightarrow> \<not> is_op_return_output (outs ! i) \<Longrightarrow>
     tmp_output_type (outs ! i) \<notin> bsq_candidate_types \<Longrightarrow> i < j \<Longrightarrow> j < length outs \<Longrightarrow>
     tmp_output_type (outs ! j) \<notin> bsq_candidate_types"
  by (simp add: bsq_prefix_def)

lemma is_op_return_update [simp]:
  "is_op_return_output (t\<lparr>tmp_output_type := ty\<rparr>) = is_op_return_output t"
  "is_op_return_output (t\<lparr>tmp_output_type := ty, tmp_unlock_block_height := h\<rparr>) = is_op_return_output t"
  "is_op_return_output (t\<lparr>tmp_output_type := ty, tmp_lock_time := l\<rparr>) = is_op_return_output t"
  by (simp_all add: is_op_return_output_def)

lemma handle_bsq_output_shape:
  "\<exists>p' out. handle_bsq_output i index v (p, outs) = (p', outs[i := out]) \<and>
     tmp_output_type out \<in> bsq_candidate_types"
  by (simp add: handle_bsq_output_def bsq_candidate_types_def Let_def, safe)
    (rule exI, rule conjI, rule refl, simp)+

lemma bsq_prefix_candidate:
  assumes "bsq_prefix k (p, outs)" and "k < length outs" and "\<not> prohibit_more_bsq_outputs p"
    and "tmp_output_type out \<in> bsq_candidate_types"
  shows "bsq_prefix (Suc k) (p', outs[k := out])"
proof -
  have pre: "is_op_return_output (outs ! i) \<or> tmp_output_type (outs ! i) \<in> bsq_candidate_types"
    if "i < k" for i using assms(1,3) that by (auto simp: bsq_prefix_def)
  have rest: "tmp_output_type (outs ! i) \<notin> bsq_candidate_types" if "k \<le> i" "i < length outs" for i
    using assms(1) that by (auto simp: bsq_prefix_def)
  show ?thesis
    unfolding bsq_prefix_def
    using pre rest assms(2,4) by (auto simp: less_Suc_eq)
qed

lemma bsq_prefix_other:
  assumes "bsq_prefix k (p, outs)" and "k < length outs" and "length outs' = length outs"
    and "\<And>j. j < length outs \<Longrightarrow> tmp_output_type (outs' ! j) \<in> bsq_candidate_types \<longleftrightarrow>
           tmp_output_type (outs ! j) \<in> bsq_candidate_types"
    and "\<And>j. j < length outs \<Longrightarrow> is_op_return_output (outs' ! j) = is_op_return_output (outs ! j)"
    and "prohibit_more_bsq_outputs p \<or> \<not> is_op_return_output (outs ! k) \<longrightarrow> prohibit_more_bsq_outputs p'"
  shows "bsq_prefix (Suc k) (p', outs')"
proof -
  have stop: "prohibit_more_bsq_outputs p"
    and behind: "i < j \<Longrightarrow> j < length outs \<Longrightarrow> tmp_output_type (outs ! j) \<notin> bsq_candidate_types"
    if "i < k" "\<not> is_op_return_output (outs ! i)" "tmp_output_type (outs ! i) \<notin> bsq_candidate_types"
    for i j using assms(1) that by (simp_all add: bsq_prefix_def)
  have rest: "tmp_output_type (outs ! i) \<notin> bsq_candidate_types" if "k \<le> i" "i < length outs" for i
    using assms(1) that by (simp add: bsq_prefix_def)
  have "prohibit_more_bsq_outputs p' \<and>
      (\<forall>j. i < j \<longrightarrow> j < length outs' \<longrightarrow> tmp_output_type (outs' ! j) \<notin> bsq_candidate_types)"
    if i: "i < Suc k" "\<not> is_op_return_output (outs' ! i)"
      "tmp_output_type (outs' ! i) \<notin> bsq_candidate_types" for i
  proof (cases "i = k")
    case True
    with i rest assms(2-6) show ?thesis by simp
  next
    case False
    with i assms(2) have "i < k" "i < length outs" by simp_all
    with i assms(4,5) stop behind assms(3,6) show ?thesis by metis
  qed
  with rest assms(3,4) show ?thesis by (simp add: bsq_prefix_def)
qed

lemma set_output_type_not_bsq:
  assumes "ty \<notin> bsq_candidate_types" and "tmp_output_type (outs ! i) \<notin> bsq_candidate_types"
  shows "tmp_output_type (set_output_type i ty outs ! j) \<in> bsq_candidate_types \<longleftrightarrow>
     tmp_output_type (outs ! j) \<in> bsq_candidate_types"
proof (cases "i < length outs")
  case True
  with assms show ?thesis by (simp add: set_output_type_nth)
qed (simp add: set_output_type_def list_update_beyond)

lemma set_output_type_op_return [simp]:
  "is_op_return_output (set_output_type i ty outs ! j) = is_op_return_output (outs ! j)"
proof (cases "i < length outs")
  case True
  then show ?thesis by (simp add: set_output_type_nth)
qed (simp add: set_output_type_def list_update_beyond)

lemma output_step_bsq_prefix:
  assumes "output_step n k st st'" and "bsq_prefix k st" and "k < length (snd st)"
    and "is_hard_fork_activated n (snd st ! k)" and "txo_index (snd st ! k) = int k"
  shows "bsq_prefix (Suc k) st'"
proof -
  obtain p outs where st: "st = (p, outs)" by (cases st)
  have len: "k < length outs" and hf: "is_hard_fork_activated n (outs ! k)"
    and ix: "txo_index (outs ! k) = int k" using assms(3-5) by (simp_all add: st)
  note pre = assms(2) [unfolded bsq_prefix_def st]
  have k_type: "tmp_output_type (outs ! k) \<notin> bsq_candidate_types" using pre len by simp
  from assms(1) [unfolded st] show ?thesis
  proof (cases rule: output_step.cases)
    case unlock
    then have k: "k = 0" by (simp add: is_unlock_bond_tx_def ix)
    from unlock show ?thesis using pre len
      by (auto simp: k bsq_prefix_def handle_unlock_bond_tx_def bsq_candidate_types_def
          split: option.splits)
  next
    case bsq
    have np: "\<not> prohibit_more_bsq_outputs p" using bsq(5) hf by simp
    obtain p' out where "st' = (p', outs[k := out])" "tmp_output_type out \<in> bsq_candidate_types"
      using bsq(1,2) handle_bsq_output_shape
        [of k "txo_index (outs ! k)" "txo_value (outs ! k)" p outs] by auto
    with bsq_prefix_candidate [OF assms(2) [unfolded st] len np] show ?thesis by simp
  next
    case invalid
    show ?thesis unfolding invalid(1)
      by (rule bsq_prefix_other [OF assms(2) [unfolded st] len])
        (use invalid(2) k_type in \<open>simp_all add: set_output_type_not_bsq\<close>)
  next
    case btc
    show ?thesis unfolding btc(1)
      by (rule bsq_prefix_other [OF assms(2) [unfolded st] len])
        (use k_type in \<open>simp_all add: set_output_type_not_bsq\<close>)
  next
    case issuance
    show ?thesis unfolding issuance(1) handle_issuance_candidate_output_def
      by simp (rule bsq_prefix_other [OF assms(2) [unfolded st] len], simp_all)
  qed
qed

text \<open>The rule for the whole loop.\<close>

definition indexed_after_fork :: "base_currency_network \<Rightarrow> raw_tx_output list \<Rightarrow> bool" where
  "indexed_after_fork n raws \<longleftrightarrow>
     (\<forall>i < length raws. txo_index (raws ! i) = int i \<and>
        get_activate_hard_fork_1_height n \<le> txo_block_height (raws ! i))"

lemma process_outputs_bsq_prefix:
  assumes "process_outputs s (p, map from_raw_tx_output raws) = Inr (p', outs')"
    and "initial_parser a p" and "fresh_outputs s raws" and "indexed_after_fork (network s) raws"
    and "i < j" and "j < length raws" and "\<not> is_op_return_output (raws ! i)"
    and "tmp_output_type (outs' ! i) \<notin> bsq_candidate_types"
  shows "tmp_output_type (outs' ! j) \<notin> bsq_candidate_types"
proof -
  let ?outs = "map from_raw_tx_output raws" let ?n = "length raws"
  note inv0 = initial_outputs_inv [OF assms(2), of raws]
  have loop: "outputs_inv a raws m st' \<and> bsq_prefix m st'"
    if "fold_res (process_tx_output s) [0..<m] st = Inr st'" and "outputs_inv a raws 0 st"
      and "bsq_prefix 0 st" and "m \<le> ?n" for m st st'
    using that(1)
  proof (induction rule: fold_res_upt)
    case init
    show ?case using that by simp
  next
    case (step k u v)
    have k: "k < ?n" using step(1) that(4) by simp
    from step have pr: "process_tx_output s k u = Inr v" and inv: "outputs_inv a raws k u"
      and pre: "bsq_prefix k u" by simp_all
    from inv k have "raw_part (snd u ! k) = raws ! k" and len: "k < length (snd u)"
      by (cases u; auto simp: outputs_inv_def accounts_def)+
    then have "txo_block_height (snd u ! k) = txo_block_height (raws ! k)"
      "txo_index (snd u ! k) = txo_index (raws ! k)" by (metis raw_part_sel(6), metis raw_part_sel(2))
    then have "is_hard_fork_activated (network s) (snd u ! k)" "txo_index (snd u ! k) = int k"
      using assms(4) k by (simp_all add: indexed_after_fork_def is_hard_fork_activated_def)
    from output_step_bsq_prefix [OF process_tx_output_inv(1) [OF pr inv assms(3) k] pre len this]
      process_tx_output_inv(2) [OF pr inv assms(3) k] show ?case by simp
  qed
  have final: "\<not> is_op_return_output (outs' ! i)" if "outputs_inv a raws ?n (p', outs')"
  proof -
    have "raw_part (outs' ! i) = raws ! i"
      using that assms(5,6) nth_accounts by (auto simp: outputs_inv_def)
    then show ?thesis using assms(7) raw_part_sel(4) [of "outs' ! i"] by (simp add: is_op_return_output_def)
  qed
  have len: "length outs' = ?n"
    using process_outputs_inv [OF assms(1-3)] by (auto simp: outputs_inv_def dest: length_accounts)
  show ?thesis
  proof (cases "is_op_return_output (?outs ! (?n - 1))")
    case True
    with assms(1) obtain st where op: "process_op_return_output (?n - 1) (p, ?outs) = Inr st"
      and f: "fold_res (process_tx_output s) [0..<?n - 1] st = Inr (p', outs')" and n: "?n \<noteq> 0"
      by (auto simp: process_outputs_def Let_def split: if_splits)
    obtain q outs where st: "st = (q, outs)" by (cases st)
    from process_op_return_output_inv [OF op [unfolded st] inv0 assms(2)] n
    have st0: "outputs_inv a raws 0 st" by (simp add: st)
    then have "bsq_prefix 0 st" using process_op_return_output_inv [OF op [unfolded st] inv0 assms(2)] n
      by (auto simp: st bsq_prefix_def outputs_inv_def types_match_def initial_parser_def)
    from loop [OF f st0 this] have "bsq_prefix (?n - 1) (p', outs')" "i < ?n - 1"
      using assms(5,6) by simp_all
    then show ?thesis using assms(5-8) len final [OF process_outputs_inv [OF assms(1-3)]]
      by (auto simp: bsq_prefix_def)
  next
    case False
    with assms(1) have f: "fold_res (process_tx_output s) [0..<?n] (p, ?outs) = Inr (p', outs')"
      by (simp add: process_outputs_def Let_def split: if_splits)
    have "bsq_prefix 0 (p, ?outs)" by (simp add: bsq_prefix_def)
    from loop [OF f inv0 this] have "bsq_prefix ?n (p', outs')" and "i < ?n"
      using assms(5,6) by simp_all
    then show ?thesis
      using assms(5-8) len final [OF process_outputs_inv [OF assms(1-3)]]
      by (intro bsq_prefix_behind [of ?n p' outs' i j]) simp_all
  qed
qed

end
