(* ===== verification/Period_Service.thy ===== *)
theory Period_Service
  imports Dao_Bond
begin

text \<open>
  The period queries (\<open>dao/governance/period/period_service.py\<close>) and the cycle service
  (\<open>cycle_service.py\<close>) that appends a cycle when the last one is over.  The cycles of the chain
  interpret \<open>interval_schedule\<close>: the lemmas show that they tile the chain without gap or overlap
  and that the current block is always in the last one.
\<close>

section \<open>Period service\<close>

definition get_current_phase :: "'a dao_state_scheme \<Rightarrow> phase" where
  "get_current_phase s =
     (case current_cycle s of
        Some c \<Rightarrow> (case cycle_phase_for_height c (chain_height s) of
                    Some p \<Rightarrow> p | None \<Rightarrow> Phase_UNDEFINED)
      | None \<Rightarrow> Phase_UNDEFINED)"

definition is_first_block_in_cycle :: "'a dao_state_scheme \<Rightarrow> int \<Rightarrow> bool" where
  "is_first_block_in_cycle s h =
     (case get_cycle s h of None \<Rightarrow> False | Some c \<Rightarrow> cyc_height_of_first_block c = h)"

definition is_last_block_in_cycle :: "'a dao_state_scheme \<Rightarrow> int \<Rightarrow> bool" where
  "is_last_block_in_cycle s h =
     (case get_cycle s h of None \<Rightarrow> False | Some c \<Rightarrow> height_of_last_block c = h)"

definition is_in_phase :: "'a dao_state_scheme \<Rightarrow> int \<Rightarrow> phase \<Rightarrow> bool" where
  "is_in_phase s h p =
     (case get_cycle s h of None \<Rightarrow> False | Some c \<Rightarrow> cycle_is_in_phase c h p)"

definition is_tx_in_phase :: "'a dao_state_scheme \<Rightarrow> string \<Rightarrow> phase \<Rightarrow> bool" where
  "is_tx_in_phase s i p =
     (case get_tx s i of None \<Rightarrow> False | Some t \<Rightarrow> is_in_phase s (tx_block_height t) p)"

definition is_tx_in_correct_cycle :: "'a dao_state_scheme \<Rightarrow> int \<Rightarrow> int \<Rightarrow> bool" where
  "is_tx_in_correct_cycle s tx_height current_chain_head_height =
     (case get_cycle s tx_height of
        None \<Rightarrow> False
      | Some c \<Rightarrow> cyc_height_of_first_block c \<le> current_chain_head_height \<and>
                  current_chain_head_height \<le> height_of_last_block c)"

definition is_tx_in_correct_cycle_by_id :: "'a dao_state_scheme \<Rightarrow> string \<Rightarrow> int \<Rightarrow> bool" where
  "is_tx_in_correct_cycle_by_id s i current_chain_head_height =
     (case get_tx s i of
        None \<Rightarrow> False
      | Some t \<Rightarrow> is_tx_in_correct_cycle s (tx_block_height t) current_chain_head_height)"

definition is_tx_in_phase_and_cycle :: "'a dao_state_scheme \<Rightarrow> string \<Rightarrow> phase \<Rightarrow> int \<Rightarrow> bool" where
  "is_tx_in_phase_and_cycle s i p current_chain_head_height \<longleftrightarrow>
     is_tx_in_phase s i p \<and> is_tx_in_correct_cycle_by_id s i current_chain_head_height"

definition get_phase_for_height :: "'a dao_state_scheme \<Rightarrow> int \<Rightarrow> phase" where
  "get_phase_for_height s h =
     (case (case get_cycle s h of Some c \<Rightarrow> cycle_phase_for_height c h | None \<Rightarrow> None) of
        Some p \<Rightarrow> p | None \<Rightarrow> Phase_UNDEFINED)"

definition is_tx_height_in_past_cycle :: "'a dao_state_scheme \<Rightarrow> int \<Rightarrow> int \<Rightarrow> bool" where
  "is_tx_height_in_past_cycle s tx_height current_chain_head_height =
     (case get_cycle s tx_height of
        None \<Rightarrow> False | Some c \<Rightarrow> height_of_last_block c < current_chain_head_height)"

definition is_tx_in_past_cycle :: "'a dao_state_scheme \<Rightarrow> string \<Rightarrow> int \<Rightarrow> bool" where
  "is_tx_in_past_cycle s i h =
     (case get_tx s i of None \<Rightarrow> False | Some t \<Rightarrow> is_tx_height_in_past_cycle s (tx_block_height t) h)"

definition get_duration_for_phase :: "'a dao_state_scheme \<Rightarrow> phase \<Rightarrow> int \<Rightarrow> int" where
  "get_duration_for_phase s p h =
     (case get_cycle s h of Some c \<Rightarrow> get_duration_of_phase c p | None \<Rightarrow> 0)"

definition get_first_block_of_phase :: "'a dao_state_scheme \<Rightarrow> int \<Rightarrow> phase \<Rightarrow> int" where
  "get_first_block_of_phase s h p =
     (case get_cycle s h of Some c \<Rightarrow> cycle_first_block_of_phase c p | None \<Rightarrow> 0)"

definition get_last_block_of_phase :: "'a dao_state_scheme \<Rightarrow> int \<Rightarrow> phase \<Rightarrow> int" where
  "get_last_block_of_phase s h p =
     (case get_cycle s h of Some c \<Rightarrow> cycle_last_block_of_phase c p | None \<Rightarrow> 0)"

definition is_first_block_in_current_cycle :: "'a dao_state_scheme \<Rightarrow> bool" where
  "is_first_block_in_current_cycle s \<longleftrightarrow>
     get_first_block_of_phase s (chain_height s) Phase_PROPOSAL = chain_height s"

definition is_in_phase_but_not_last_block :: "'a dao_state_scheme \<Rightarrow> phase \<Rightarrow> bool" where
  "is_in_phase_but_not_last_block s p \<longleftrightarrow>
     is_in_phase s (chain_height s) p \<and>
     chain_height s \<noteq> get_last_block_of_phase s (chain_height s) p"

section \<open>Cycle service\<close>

definition get_phase_with_default_duration :: "base_currency_network \<Rightarrow> phase \<Rightarrow> dao_phase res" where
  "get_phase_with_default_duration n p =
     rbind (py_int (default_value n (param_of_phase p)))
       (\<lambda>d. Inr \<lparr>dp_phase = p, dp_duration = d\<rparr>)"

definition get_first_cycle :: "'a dao_service_scheme \<Rightarrow> cycle res" where
  "get_first_cycle s =
     rbind (fold_res (\<lambda>p ds. rbind (get_phase_with_default_duration (network s) p) (\<lambda>d. Inr (ds @ [d])))
              all_phases []) (\<lambda>ds.
     Inr \<lparr>cyc_dao_phase_list = ds, cyc_height_of_first_block = genesis_block_height s\<rparr>)"

definition add_first_cycle :: "'a dao_service_scheme \<Rightarrow> 'a dao_service_scheme res" where
  "add_first_cycle s = rbind (get_first_cycle s) (\<lambda>c. add_cycle c s)"

text \<open>The \<open>try ... except: continue\<close> of the loop drops a phase whose value is not an integer.\<close>

definition create_new_cycle :: "'a dao_service_scheme \<Rightarrow> int \<Rightarrow> cycle \<Rightarrow> cycle" where
  "create_new_cycle s block_height previous_cycle =
     \<lparr>cyc_dao_phase_list =
        concat (map (\<lambda>d. case get_param_value_as_block s (param_of_phase (dp_phase d)) block_height of
                            Inl _ \<Rightarrow> []
                          | Inr v \<Rightarrow> [\<lparr>dp_phase = dp_phase d, dp_duration = v\<rparr>])
                  (cyc_dao_phase_list previous_cycle)),
      cyc_height_of_first_block = block_height\<rparr>"

definition is_first_block_after_previous_cycle :: "int \<Rightarrow> cycle list \<Rightarrow> bool" where
  "is_first_block_after_previous_cycle height cs =
     (case find_cycle (height - 1) cs of
        None \<Rightarrow> False | Some c \<Rightarrow> height_of_last_block c + 1 = height)"

definition maybe_create_new_cycle :: "'a dao_service_scheme \<Rightarrow> int \<Rightarrow> cycle list \<Rightarrow> cycle option" where
  "maybe_create_new_cycle s block_height cs =
     (if genesis_block_height s < block_height \<and> cs \<noteq> [] \<and>
         is_first_block_after_previous_cycle block_height cs
      then Some (create_new_cycle s block_height (last cs)) else None)"

definition cycle_on_new_block_height ::
  "int \<Rightarrow> 'a dao_service_scheme \<Rightarrow> 'a dao_service_scheme res" where
  "cycle_on_new_block_height block_height s =
     (case maybe_create_new_cycle s block_height (cycles s) of
        Some c \<Rightarrow> add_cycle c s
      | None \<Rightarrow> Inr s)"

definition is_block_height_in_cycle :: "int \<Rightarrow> cycle \<Rightarrow> bool" where
  "is_block_height_in_cycle h c \<longleftrightarrow> cyc_height_of_first_block c \<le> h \<and> h \<le> height_of_last_block c"

definition is_tx_in_cycle :: "'a dao_state_scheme \<Rightarrow> cycle \<Rightarrow> string \<Rightarrow> bool" where
  "is_tx_in_cycle s c i =
     (case get_tx s i of None \<Rightarrow> False | Some t \<Rightarrow> is_block_height_in_cycle (tx_block_height t) c)"

section \<open>The cycles tile the chain\<close>

definition cycles_ok :: "cycle list \<Rightarrow> bool" where
  "cycles_ok cs \<longleftrightarrow>
     cs \<noteq> [] \<and> (\<forall>c \<in> set cs. wf_cycle c \<and> 0 < get_duration c None) \<and>
     tiles (cyc_height_of_first_block (hd cs))
       (map (\<lambda>c. (cyc_height_of_first_block c, height_of_last_block c)) cs)
       (height_of_last_block (last cs))"

interpretation chain: interval_schedule "\<lambda>cs. cs" "\<lambda>_. cyc_height_of_first_block"
  "\<lambda>_. height_of_last_block" "\<lambda>cs. cyc_height_of_first_block (hd cs)"
  "\<lambda>cs. height_of_last_block (last cs)" cycles_ok
  by unfold_locales (simp add: cycles_ok_def)

text \<open>\<open>in_last_cycle h cs\<close>: the cycles tile the chain and \<open>h\<close> lies in the last one.\<close>

definition in_last_cycle :: "int \<Rightarrow> cycle list \<Rightarrow> bool" where
  "in_last_cycle h cs \<longleftrightarrow> cycles_ok cs \<and> is_in_cycle (last cs) h"

lemma in_last_cycle_find:
  "in_last_cycle h cs \<Longrightarrow> find_cycle h cs = Some (last cs)"
  unfolding find_cycle_def in_last_cycle_def
  by (subst chain.find_segment) (auto simp: is_in_cycle_def cycles_ok_def)

lemma cycles_ok_append:
  assumes "cycles_ok cs" and "wf_cycle c" and "0 < get_duration c None"
    and "cyc_height_of_first_block c = height_of_last_block (last cs) + 1"
  shows "cycles_ok (cs @ [c])"
  using assms by (auto simp: cycles_ok_def tiles_append height_of_last_block_def)

text \<open>The durations voted in are usable: none negative, not all zero.\<close>

definition phase_params_ok :: "'a dao_service_scheme \<Rightarrow> int \<Rightarrow> cycle \<Rightarrow> bool" where
  "phase_params_ok s h c \<longleftrightarrow>
     (\<forall>d \<in> set (cyc_dao_phase_list c). \<forall>v.
        get_param_value_as_block s (param_of_phase (dp_phase d)) h = Inr v \<longrightarrow> 0 \<le> v) \<and>
     (\<exists>d \<in> set (cyc_dao_phase_list c). \<exists>v.
        get_param_value_as_block s (param_of_phase (dp_phase d)) h = Inr v \<and> 0 < v)"

lemma create_new_cycle_wf:
  assumes "wf_cycle c" and "phase_params_ok s h c"
  shows "wf_cycle (create_new_cycle s h c) \<and> 0 < get_duration (create_new_cycle s h c) None"
proof -
  let ?f = "\<lambda>d. case get_param_value_as_block s (param_of_phase (dp_phase d)) h of
              Inl _ \<Rightarrow> [] | Inr v \<Rightarrow> [\<lparr>dp_phase = dp_phase d, dp_duration = v\<rparr>]"
  have sorted: "sorted_wrt (<) (map (phase_value \<circ> dp_phase) (concat (map ?f ds)))"
    if "sorted_wrt (<) (map (phase_value \<circ> dp_phase) ds)" for ds
    using that by (induction ds) (auto split: sum.splits)
  have nonneg: "\<forall>d \<in> set (cyc_dao_phase_list (create_new_cycle s h c)). 0 \<le> dp_duration d"
    using assms(2) by (auto simp: create_new_cycle_def phase_params_ok_def split: sum.splits)
  obtain d v where d: "d \<in> set (cyc_dao_phase_list c)"
    "get_param_value_as_block s (param_of_phase (dp_phase d)) h = Inr v" "0 < v"
    using assms(2) by (auto simp: phase_params_ok_def)
  let ?e = "\<lparr>dp_phase = dp_phase d, dp_duration = v\<rparr>"
  have e: "?e \<in> set (cyc_dao_phase_list (create_new_cycle s h c))"
    using d by (auto simp: create_new_cycle_def intro!: bexI [of _ d])
  have "v \<le> sum_list (map dp_duration (cyc_dao_phase_list (create_new_cycle s h c)))"
    using member_le_sum_list [of v "map dp_duration (cyc_dao_phase_list (create_new_cycle s h c))"]
      e nonneg by (force simp: image_iff)
  with d(3) show ?thesis
    using sorted assms(1) nonneg
    by (auto simp: wf_cycle_def create_new_cycle_def get_duration_def)
qed

lemma cycle_on_new_block_height_step:
  assumes "in_last_cycle h (cycles s)" and "genesis_block_height s \<le> h" and "allow_dao_state_change s"
    and "phase_params_ok s (h + 1) (last (cycles s))"
  shows "\<exists>t. cycle_on_new_block_height (h + 1) s = Inr t \<and> in_last_cycle (h + 1) (cycles t) \<and>
     (cycles t = cycles s \<or> (\<exists>c. cycles t = cycles s @ [c] \<and> cyc_height_of_first_block c = h + 1)) \<and>
     t\<lparr>cycles := cycles s\<rparr> = s"
proof -
  let ?c = "last (cycles s)"
  have ok: "cycles_ok (cycles s)" and ne: "cycles s \<noteq> []" and h: "is_in_cycle ?c h"
    using assms(1) by (auto simp: in_last_cycle_def cycles_ok_def)
  have wf: "wf_cycle ?c" using ok ne by (simp add: cycles_ok_def)
  note find = in_last_cycle_find [OF assms(1)]
  show ?thesis
  proof (cases "height_of_last_block ?c = h")
    case True
    let ?n = "create_new_cycle s (h + 1) ?c"
    have m: "maybe_create_new_cycle s (h + 1) (cycles s) = Some ?n"
      using True ne assms(2) find
      by (simp add: maybe_create_new_cycle_def is_first_block_after_previous_cycle_def)
    have first: "cyc_height_of_first_block ?n = h + 1" by (simp add: create_new_cycle_def)
    have n: "wf_cycle ?n" "0 < get_duration ?n None"
      using create_new_cycle_wf [OF wf assms(4)] by simp_all
    have "cycles_ok (cycles s @ [?n])"
      by (rule cycles_ok_append [OF ok n]) (simp add: first True)
    moreover have "is_in_cycle ?n (h + 1)"
      using n(2) by (simp add: is_in_cycle_def height_of_last_block_def first)
    ultimately show ?thesis
      using assms(3) first
      by (simp add: cycle_on_new_block_height_def m mutator_defs in_last_cycle_def)
  next
    case False
    then have "maybe_create_new_cycle s (h + 1) (cycles s) = None"
      using find by (simp add: maybe_create_new_cycle_def is_first_block_after_previous_cycle_def)
    moreover have "in_last_cycle (h + 1) (cycles s)"
      using ok h False by (auto simp: in_last_cycle_def is_in_cycle_def)
    ultimately show ?thesis by (simp add: cycle_on_new_block_height_def)
  qed
qed

text \<open>The first cycle: built from the default durations of the network, never failing.\<close>

lemma default_phase_durations:
  "\<exists>d. py_int (default_value n (param_of_phase p)) = Inr d \<and> 0 \<le> d \<and> (p = Phase_PROPOSAL \<longrightarrow> 0 < d)"
  by (cases p; cases n)
    (simp_all add: by_network_def is_mainnet_def is_regtest_def is_dao_betanet_def is_dao_regtest_def
      py_int_def py_strip_def is_digit_def is_space_def of_char_def)

lemma add_first_cycle_step:
  assumes "allow_dao_state_change s" and "cycles s = []"
  shows "\<exists>t. add_first_cycle s = Inr t \<and> in_last_cycle (genesis_block_height s) (cycles t) \<and>
     t\<lparr>cycles := []\<rparr> = s"
proof -
  obtain f where f: "\<And>p. py_int (default_value (network s) (param_of_phase p)) = Inr (f p)"
    and pos: "\<And>p. 0 \<le> f p" "0 < f Phase_PROPOSAL"
    using default_phase_durations [of "network s"] by metis
  let ?c = "\<lparr>cyc_dao_phase_list = map (\<lambda>p. \<lparr>dp_phase = p, dp_duration = f p\<rparr>) all_phases,
             cyc_height_of_first_block = genesis_block_height s\<rparr>"
  have c: "get_first_cycle s = Inr ?c"
    by (simp add: get_first_cycle_def get_phase_with_default_duration_def f all_phases_def)
  have "wf_cycle ?c" using pos by (auto simp: wf_cycle_def all_phases_def)
  moreover have "0 < get_duration ?c None"
    using pos(2) pos(1) [of Phase_UNDEFINED] pos(1) [of Phase_BREAK1] pos(1) [of Phase_BLIND_VOTE]
      pos(1) [of Phase_BREAK2] pos(1) [of Phase_VOTE_REVEAL] pos(1) [of Phase_BREAK3]
      pos(1) [of Phase_RESULT]
    by (simp add: get_duration_def all_phases_def)
  ultimately have "in_last_cycle (genesis_block_height s) [?c]"
    by (simp add: in_last_cycle_def cycles_ok_def is_in_cycle_def height_of_last_block_def)
  then show ?thesis using assms by (simp add: add_first_cycle_def c mutator_defs)
qed

lemma add_first_cycle_single:
  assumes "allow_dao_state_change s" and "cycles s = []"
  shows "\<exists>t c. add_first_cycle s = Inr t \<and> cycles t = [c] \<and> wf_cycle c \<and>
     cyc_height_of_first_block c = genesis_block_height s \<and> is_in_cycle c (genesis_block_height s) \<and>
     t\<lparr>cycles := []\<rparr> = s"
proof -
  obtain t where t: "add_first_cycle s = Inr t" "in_last_cycle (genesis_block_height s) (cycles t)"
    "t\<lparr>cycles := []\<rparr> = s"
    using add_first_cycle_step [OF assms] by blast
  obtain c where c: "get_first_cycle s = Inr c" "add_cycle c s = Inr t"
    using t(1) by (auto simp: add_first_cycle_def)
  then have "cycles t = [c]" using assms(2) by (auto simp: mutator_defs)
  moreover have "cyc_height_of_first_block c = genesis_block_height s"
    using c(1) by (auto simp: get_first_cycle_def)
  ultimately show ?thesis using t by (auto simp: in_last_cycle_def cycles_ok_def)
qed

lemma in_last_cycle_unique:
  assumes "in_last_cycle h cs" and "cyc_height_of_first_block (hd cs) \<le> g" and "g \<le> h"
  shows "\<exists>!c. c \<in> set cs \<and> is_in_cycle c g"
proof -
  have ok: "cycles_ok cs" and "g \<le> height_of_last_block (last cs)"
    using assms by (auto simp: in_last_cycle_def is_in_cycle_def)
  then obtain c where "c \<in> set cs" "is_in_cycle c g"
    using chain.covered_iff [OF ok, of g] assms(2) by (auto simp: is_in_cycle_def)
  moreover have "d = c" if "d \<in> set cs" "is_in_cycle d g" for d
    using chain.seg_unique [OF ok, of d c g] that calculation by (simp add: is_in_cycle_def)
  ultimately show ?thesis by blast
qed

end
