(* ===== verification/Tx_Parser.thy ===== *)
theory Tx_Parser
  imports Tx_Output_Parser Period_Service
begin

text \<open>
  \<open>GenesisTxParser\<close> (\<open>dao/node/genesis_tx_parser.py\<close>) and \<open>TxParser\<close>
  (\<open>dao/node/parser/tx_parser.py\<close>): from a raw transaction to the persisted one, with the change
  of the DAO state.  The output parser works on the outputs of the temporary transaction; the
  functions below update them in \<open>temp_tx_outputs\<close>.  The lemmas give the conservation of BSQ, the
  types of what becomes unspent, and the phase and fee rules.
\<close>

section \<open>Genesis\<close>

definition is_genesis :: "raw_tx \<Rightarrow> string \<Rightarrow> int \<Rightarrow> bool" where
  "is_genesis raw i h \<longleftrightarrow> tx_block_height raw = h \<and> tx_id raw = i"

text \<open>The loop gives every output the genesis type and counts the remaining supply.\<close>

fun genesis_outputs :: "int \<Rightarrow> temp_tx_output list \<Rightarrow> (int \<times> temp_tx_output list) res" where
  "genesis_outputs remaining [] = Inr (remaining, [])"
| "genesis_outputs remaining (out # outs) =
     (if remaining < txo_value out then Inl Invalid_Genesis_Tx
      else rbind (genesis_outputs (remaining - txo_value out) outs) (\<lambda>(r, outs').
             Inr (r, out\<lparr>tmp_output_type := GENESIS_OUTPUT\<rparr> # outs')))"

definition get_genesis_temp_tx :: "raw_tx \<Rightarrow> int \<Rightarrow> temp_tx res" where
  "get_genesis_temp_tx raw supply =
     (let tt = (temp_tx_from_raw_tx raw)\<lparr>temp_tx_type := Some GENESIS\<rparr>
      in rbind (genesis_outputs supply (temp_tx_outputs tt)) (\<lambda>(remaining, outs).
           if 0 < remaining then Inl Invalid_Genesis_Tx
           else Inr (tt\<lparr>temp_tx_outputs := outs\<rparr>)))"

definition commit_utxos :: "temp_tx \<Rightarrow> 'a dao_service_scheme \<Rightarrow> 'a dao_service_scheme res" where
  "commit_utxos tt = fold_res (\<lambda>out. add_unspent_tx_output (from_temp_output out)) (temp_tx_outputs tt)"

definition get_genesis_tx ::
  "raw_tx \<Rightarrow> int \<Rightarrow> 'a dao_service_scheme \<Rightarrow> ('a dao_service_scheme \<times> tx option) res" where
  "get_genesis_tx raw supply s =
     rbind (get_genesis_temp_tx raw supply) (\<lambda>tt.
     rbind (commit_utxos tt s) (\<lambda>s'. Inr (s', Some (from_temp_tx tt))))"

section \<open>Fee, phase and types\<close>

definition is_fee_and_phase_valid ::
  "'a dao_service_scheme \<Rightarrow> int \<Rightarrow> int \<Rightarrow> phase \<Rightarrow> param \<Rightarrow> bool res" where
  "is_fee_and_phase_valid s block_height bsq_fee p par =
     (if \<not> is_in_phase s block_height p then Inr False
      else rbind (get_param_value_as_coin s par block_height) (\<lambda>v. Inr (bsq_fee = v)))"

definition set_tx_output_type :: "nat \<Rightarrow> tx_output_type \<Rightarrow> temp_tx \<Rightarrow> temp_tx" where
  "set_tx_output_type i ty tt = tt\<lparr>temp_tx_outputs := set_output_type i ty (temp_tx_outputs tt)\<rparr>"

text \<open>\<open>if ref: ref.tx_output_type = ty\<close>.\<close>

definition set_ref_type :: "nat option \<Rightarrow> tx_output_type \<Rightarrow> temp_tx \<Rightarrow> temp_tx" where
  "set_ref_type r ty tt = (case r of None \<Rightarrow> tt | Some i \<Rightarrow> set_tx_output_type i ty tt)"

definition process_proposal :: "'a dao_service_scheme \<Rightarrow> int \<Rightarrow> int \<Rightarrow> temp_tx \<Rightarrow> temp_tx res" where
  "process_proposal s block_height bsq_fee tt =
     rbind (is_fee_and_phase_valid s block_height bsq_fee Phase_PROPOSAL PROPOSAL_FEE) (\<lambda>valid.
       Inr (if valid then tt else tt\<lparr>temp_tx_type := Some IRREGULAR\<rparr>))"

definition process_issuance ::
  "'a dao_service_scheme \<Rightarrow> tx_output_parser \<Rightarrow> int \<Rightarrow> int \<Rightarrow> temp_tx \<Rightarrow> temp_tx res" where
  "process_issuance s p block_height bsq_fee tt =
     rbind (is_fee_and_phase_valid s block_height bsq_fee Phase_PROPOSAL PROPOSAL_FEE) (\<lambda>valid.
       Inr (if valid then
              (case optional_issuance_candidate p of
                 Some i \<Rightarrow> set_tx_output_type i ISSUANCE_CANDIDATE_OUTPUT tt
               | None \<Rightarrow> tt\<lparr>temp_tx_type := Some IRREGULAR\<rparr>)
            else set_ref_type (optional_issuance_candidate p) BTC_OUTPUT
                   (tt\<lparr>temp_tx_type := Some IRREGULAR\<rparr>)))"

definition process_blind_vote ::
  "'a dao_service_scheme \<Rightarrow> tx_output_parser \<Rightarrow> int \<Rightarrow> int \<Rightarrow> temp_tx \<Rightarrow> temp_tx res" where
  "process_blind_vote s p block_height bsq_fee tt =
     rbind (is_fee_and_phase_valid s block_height bsq_fee Phase_BLIND_VOTE BLIND_VOTE_FEE) (\<lambda>valid.
       Inr (if valid then tt
            else set_ref_type (optional_blind_vote_lock_stake_output p) BSQ_OUTPUT
                   (tt\<lparr>temp_tx_type := Some IRREGULAR\<rparr>)))"

definition apply_tx_type_and_tx_output_type ::
  "'a dao_service_scheme \<Rightarrow> tx_output_parser \<Rightarrow> int \<Rightarrow> int \<Rightarrow> temp_tx \<Rightarrow> temp_tx res" where
  "apply_tx_type_and_tx_output_type s p block_height bsq_fee tt =
     (let ort = optional_op_return_type p
      in rbind (case ort of
                  Some OpR_PROPOSAL \<Rightarrow> process_proposal s block_height bsq_fee tt
                | Some OpR_COMPENSATION_REQUEST \<Rightarrow> process_issuance s p block_height bsq_fee tt
                | Some OpR_REIMBURSEMENT_REQUEST \<Rightarrow> process_issuance s p block_height bsq_fee tt
                | Some OpR_BLIND_VOTE \<Rightarrow> process_blind_vote s p block_height bsq_fee tt
                | _ \<Rightarrow> Inr tt) (\<lambda>tt1.
         let tt2 = (if ort \<notin> {Some OpR_COMPENSATION_REQUEST, Some OpR_REIMBURSEMENT_REQUEST}
                    then set_ref_type (optional_issuance_candidate p) BTC_OUTPUT tt1 else tt1);
             tt3 = (if ort \<noteq> Some OpR_BLIND_VOTE
                    then set_ref_type (optional_blind_vote_lock_stake_output p) BTC_OUTPUT tt2 else tt2);
             tt4 = (if ort \<noteq> Some OpR_VOTE_REVEAL
                    then set_ref_type (optional_vote_reveal_unlock_stake_output p) BTC_OUTPUT tt3 else tt3)
         in Inr (if ort \<noteq> Some OpR_LOCKUP
                 then set_ref_type (optional_lockup_output p) BTC_OUTPUT tt4 else tt4)))"

definition is_tx_invalid :: "temp_tx \<Rightarrow> bool \<Rightarrow> bool \<Rightarrow> bool" where
  "is_tx_invalid tt found burnt_bond =
     (if temp_tx_type tt = Some INVALID then True
      else if 1 < length (filter is_op_return_output (temp_tx_outputs tt)) then True
      else if temp_tx_type tt \<in> {Some COMPENSATION_REQUEST, Some REIMBURSEMENT_REQUEST} \<and>
              \<not> found then True
      else if burnt_bond then True
      else list_ex (\<lambda>out. tmp_output_type out \<in> {UNDEFINED_OUTPUT, INVALID_OUTPUT}) (temp_tx_outputs tt))"

definition evaluate_tx_type_from_op_return_type :: "temp_tx \<Rightarrow> op_return_type \<Rightarrow> tx_type" where
  "evaluate_tx_type_from_op_return_type tt ort =
     (case ort of
        OpR_PROPOSAL \<Rightarrow> PROPOSAL
      | OpR_BLIND_VOTE \<Rightarrow> BLIND_VOTE
      | OpR_VOTE_REVEAL \<Rightarrow> VOTE_REVEAL
      | OpR_LOCKUP \<Rightarrow> LOCKUP
      | OpR_ASSET_LISTING_FEE \<Rightarrow> ASSET_LISTING_FEE
      | OpR_PROOF_OF_BURN \<Rightarrow> PROOF_OF_BURN
      | OpR_UNDEFINED \<Rightarrow> IRREGULAR
      | _ \<Rightarrow>
          if length (temp_tx_outputs tt) < 3 then INVALID
          else if tmp_output_type (temp_tx_outputs tt ! 1) \<noteq> ISSUANCE_CANDIDATE_OUTPUT then INVALID
          else if ort = OpR_COMPENSATION_REQUEST then COMPENSATION_REQUEST
          else REIMBURSEMENT_REQUEST)"

definition evaluate_tx_type :: "temp_tx \<Rightarrow> op_return_type option \<Rightarrow> bool \<Rightarrow> bool \<Rightarrow> tx_type res" where
  "evaluate_tx_type tt ort has_burnt_bsq unlock_valid =
     (case ort of
        Some t \<Rightarrow> Inr (evaluate_tx_type_from_op_return_type tt t)
      | None \<Rightarrow>
          if has_burnt_bsq then Inr PAY_TRADE_FEE
          else rbind (py_nth (temp_tx_outputs tt) 0) (\<lambda>out.
            Inr (if tmp_output_type out = UNLOCK_OUTPUT
                 then (if \<not> unlock_valid then INVALID else UNLOCK)
                 else TRANSFER_BSQ)))"

section \<open>Finding a BSQ transaction\<close>

definition start_output_parser :: "tx_input_parser \<Rightarrow> tx_output_parser" where
  "start_output_parser ip =
     new_tx_output_parser\<lparr>available_input_value := accumulated_input_value ip,
       top_unlock_block_height := tip_unlock_block_height ip,
       top_spent_lockup_tx_output := tip_spent_lockup_tx_output ip\<rparr>"

definition finish_tx ::
  "tx_input_parser \<Rightarrow> parse_state \<Rightarrow> raw_tx \<Rightarrow> 'a dao_service_scheme \<Rightarrow>
     ('a dao_service_scheme \<times> tx option) res" where
  "finish_tx ip st raw s =
     (case st of (p, outs) \<Rightarrow>
        let remaining_input_value = available_input_value p;
            burnt_bsq = remaining_input_value + burnt_bond_value ip;
            has_burnt_bsq = (0 < burnt_bsq);
            tt0 = (temp_tx_from_raw_tx raw)\<lparr>temp_tx_outputs := outs\<rparr>;
            tt1 = (if has_burnt_bsq then tt0\<lparr>temp_burnt_bsq := burnt_bsq\<rparr> else tt0)
        in rbind (apply_tx_type_and_tx_output_type s p (tx_block_height raw) remaining_input_value tt1) (\<lambda>tt2.
           rbind (if temp_tx_type tt2 \<notin> {Some IRREGULAR, Some INVALID}
                  then rbind (evaluate_tx_type tt2 (optional_op_return_type p) has_burnt_bsq
                                (is_unlock_input_valid ip)) (\<lambda>ty.
                         Inr (tt2\<lparr>temp_tx_type := Some ty\<rparr>))
                  else Inr tt2) (\<lambda>tt3.
           if is_tx_invalid tt3 (bsq_output_found p) (0 < burnt_bond_value ip)
           then (let tt4 = tt3\<lparr>temp_tx_type := Some INVALID,
                               temp_burnt_bsq := accumulated_input_value ip,
                               temp_tx_outputs := invalidate_utxo_candidates (p, temp_tx_outputs tt3)\<rparr>
                 in Inr (s, Some (from_temp_tx tt4)))
           else rbind (commit_utxo_candidates (p, temp_tx_outputs tt3) s) (\<lambda>s'.
                  Inr (s', Some (from_temp_tx tt3))))))"

text \<open>\<open>TxParser._find_tx\<close>: inputs, outputs, types, then commit or invalidate.\<close>

definition find_tx_body ::
  "raw_tx \<Rightarrow> 'a dao_service_scheme \<Rightarrow> ('a dao_service_scheme \<times> tx option) res" where
  "find_tx_body raw s =
     rbind (process_inputs raw (new_tx_input_parser, s)) (\<lambda>(ip, s1).
       if \<not> 0 < accumulated_input_value ip \<and> \<not> 0 < burnt_bond_value ip then Inr (s1, None)
       else rbind (process_outputs s1 (start_output_parser ip, map from_raw_tx_output (raw_tx_outputs raw)))
              (\<lambda>st. finish_tx ip st raw s1))"

definition find_tx ::
  "raw_tx \<Rightarrow> string \<Rightarrow> int \<Rightarrow> int \<Rightarrow> 'a dao_service_scheme \<Rightarrow>
     ('a dao_service_scheme \<times> tx option) res" where
  "find_tx raw g_id g_height g_supply s =
     (if is_genesis raw g_id g_height then get_genesis_tx raw g_supply s else find_tx_body raw s)"

section \<open>What the last pass changes\<close>

text \<open>\<open>retyped p outs outs'\<close>: the pass that applies the types keeps the raw data, leaves every
  candidate with a BSQ type, and otherwise only decides the issuance candidate.\<close>

definition retyped :: "tx_output_parser \<Rightarrow> temp_tx_output list \<Rightarrow> temp_tx_output list \<Rightarrow> bool" where
  "retyped p outs outs' \<longleftrightarrow>
     map raw_part outs' = map raw_part outs \<and>
     (\<forall>i < length outs.
        (tmp_lock_time (outs' ! i) = tmp_lock_time (outs ! i) \<and>
         tmp_unlock_block_height (outs' ! i) = tmp_unlock_block_height (outs ! i)) \<and>
        (tmp_output_type (outs' ! i) = tmp_output_type (outs ! i) \<or>
         optional_blind_vote_lock_stake_output p = Some i \<and> tmp_output_type (outs' ! i) = BSQ_OUTPUT \<or>
         optional_issuance_candidate p = Some i \<and>
           tmp_output_type (outs' ! i) \<in> {ISSUANCE_CANDIDATE_OUTPUT, BTC_OUTPUT}))"

lemma retyped_refl [simp]: "retyped p outs outs"
  by (simp add: retyped_def)

lemma set_ref_type_sel [simp]:
  "temp_tx_outputs (set_ref_type r ty tt) =
     (case r of None \<Rightarrow> temp_tx_outputs tt | Some i \<Rightarrow> set_output_type i ty (temp_tx_outputs tt))"
  "temp_tx_type (set_ref_type r ty tt) = temp_tx_type tt"
  "temp_burnt_bsq (set_ref_type r ty tt) = temp_burnt_bsq tt"
  "set_ref_type None ty tt = tt"
  by (simp_all add: set_ref_type_def set_tx_output_type_def split: option.splits)

lemma retyped_set:
  assumes "i < length outs"
    and "optional_blind_vote_lock_stake_output p = Some i \<and> ty = BSQ_OUTPUT \<or>
       optional_issuance_candidate p = Some i \<and> ty \<in> {ISSUANCE_CANDIDATE_OUTPUT, BTC_OUTPUT}"
  shows "retyped p outs (set_output_type i ty outs)"
  using assms by (auto simp: retyped_def set_output_type_nth)

text \<open>The type may be set to \<open>IRREGULAR\<close>, and only when the phase or the fee is wrong or the
  issuance output is missing.\<close>

definition needs_phase :: "op_return_type \<Rightarrow> (phase \<times> param) option" where
  "needs_phase ort =
     (case ort of
        OpR_PROPOSAL \<Rightarrow> Some (Phase_PROPOSAL, PROPOSAL_FEE)
      | OpR_COMPENSATION_REQUEST \<Rightarrow> Some (Phase_PROPOSAL, PROPOSAL_FEE)
      | OpR_REIMBURSEMENT_REQUEST \<Rightarrow> Some (Phase_PROPOSAL, PROPOSAL_FEE)
      | OpR_BLIND_VOTE \<Rightarrow> Some (Phase_BLIND_VOTE, BLIND_VOTE_FEE)
      | _ \<Rightarrow> None)"

text \<open>\<open>applied s p h fee tt tt'\<close>: the contract of the pass.\<close>

definition applied ::
  "'a dao_service_scheme \<Rightarrow> tx_output_parser \<Rightarrow> int \<Rightarrow> int \<Rightarrow> temp_tx \<Rightarrow> temp_tx \<Rightarrow> bool" where
  "applied s p h fee tt tt' \<longleftrightarrow>
     (\<exists>outs ty. tt' = tt\<lparr>temp_tx_outputs := outs, temp_tx_type := ty\<rparr> \<and>
        retyped p (temp_tx_outputs tt) outs \<and> (ty = None \<or> ty = Some IRREGULAR) \<and>
        (ty = None \<longrightarrow> (case optional_op_return_type p of None \<Rightarrow> True | Some ort \<Rightarrow>
          (case needs_phase ort of None \<Rightarrow> True
           | Some (ph, par) \<Rightarrow> is_in_phase s h ph \<and> get_param_value_as_coin s par h = Inr fee))))"

definition refs_in_range :: "tx_output_parser \<Rightarrow> temp_tx \<Rightarrow> bool" where
  "refs_in_range p tt \<longleftrightarrow> temp_tx_type tt = None \<and>
     (\<forall>i. optional_issuance_candidate p = Some i \<or> optional_blind_vote_lock_stake_output p = Some i \<longrightarrow>
        i < length (temp_tx_outputs tt))"

lemma appliedI:
  assumes "temp_tx_type tt = None" and "retyped p (temp_tx_outputs tt) outs"
    and "tt' = tt\<lparr>temp_tx_outputs := outs, temp_tx_type := ty\<rparr>" and "ty = None \<or> ty = Some IRREGULAR"
    and "\<And>ort ph par. ty = None \<Longrightarrow> optional_op_return_type p = Some ort \<Longrightarrow>
           needs_phase ort = Some (ph, par) \<Longrightarrow>
           is_in_phase s h ph \<and> get_param_value_as_coin s par h = Inr fee"
  shows "applied s p h fee tt tt'"
  unfolding applied_def using assms
  by (intro exI [of _ outs] exI [of _ ty]) (auto split: option.splits)

lemma set_ref_type_irregular:
  "set_ref_type r ty (tt\<lparr>temp_tx_type := t\<rparr>) =
     tt\<lparr>temp_tx_outputs := temp_tx_outputs (set_ref_type r ty tt), temp_tx_type := t\<rparr>"
  by (cases tt; cases r) (simp_all add: set_ref_type_def set_tx_output_type_def)

lemma set_tx_output_type_untyped:
  "temp_tx_type tt = None \<Longrightarrow> set_tx_output_type i ty tt =
     tt\<lparr>temp_tx_outputs := set_output_type i ty (temp_tx_outputs tt), temp_tx_type := None\<rparr>"
  by (cases tt) (simp add: set_tx_output_type_def)

lemma untyped_same:
  "temp_tx_type tt = None \<Longrightarrow> tt\<lparr>temp_tx_outputs := temp_tx_outputs tt, temp_tx_type := None\<rparr> = tt"
  "temp_tx_type tt = None \<Longrightarrow> tt\<lparr>temp_tx_type := None\<rparr> = tt"
  by (cases tt, simp)+

lemma fee_and_phase:
  "is_fee_and_phase_valid s h fee ph par = Inr True \<Longrightarrow>
     is_in_phase s h ph \<and> get_param_value_as_coin s par h = Inr fee"
  by (auto simp: is_fee_and_phase_valid_def split: if_splits)

lemma process_proposal_applied:
  assumes "process_proposal s h fee tt = Inr tt'" and "optional_op_return_type p = Some OpR_PROPOSAL"
    and "temp_tx_type tt = None"
  shows "applied s p h fee tt tt'"
proof -
  obtain v where v: "is_fee_and_phase_valid s h fee Phase_PROPOSAL PROPOSAL_FEE = Inr v"
    and tt': "tt' = (if v then tt else tt\<lparr>temp_tx_type := Some IRREGULAR\<rparr>)"
    using assms(1) by (auto simp: process_proposal_def)
  show ?thesis
    by (rule appliedI [of _ _ "temp_tx_outputs tt" _ "if v then None else Some IRREGULAR"])
      (use assms(2,3) v untyped_same [OF assms(3)] set_ref_type_irregular [of None] in
        \<open>auto simp: tt' needs_phase_def dest!: fee_and_phase split: if_splits\<close>)
qed

lemma process_blind_vote_applied:
  assumes "process_blind_vote s p h fee tt = Inr tt'" and "optional_op_return_type p = Some OpR_BLIND_VOTE"
    and "refs_in_range p tt"
  shows "applied s p h fee tt tt'"
proof -
  have none: "temp_tx_type tt = None" using assms(3) by (simp add: refs_in_range_def)
  obtain v where v: "is_fee_and_phase_valid s h fee Phase_BLIND_VOTE BLIND_VOTE_FEE = Inr v"
    and tt': "tt' = (if v then tt else set_ref_type (optional_blind_vote_lock_stake_output p)
        BSQ_OUTPUT (tt\<lparr>temp_tx_type := Some IRREGULAR\<rparr>))"
    using assms(1) by (auto simp: process_blind_vote_def)
  show ?thesis
  proof (cases v)
    case True
    show ?thesis
      by (rule appliedI [of _ _ "temp_tx_outputs tt" _ None])
        (use assms(2) v True untyped_same [OF none] none in
          \<open>auto simp: tt' needs_phase_def dest!: fee_and_phase\<close>)
  next
    case False
    then show ?thesis
      by (intro appliedI [of _ _ _ _ "Some IRREGULAR", OF none])
        (use assms(3) in \<open>auto simp: tt' set_ref_type_irregular refs_in_range_def intro!: retyped_set
           split: option.splits\<close>)
  qed
qed

lemma process_issuance_applied:
  assumes "process_issuance s p h fee tt = Inr tt'"
    and "optional_op_return_type p \<in> {Some OpR_COMPENSATION_REQUEST, Some OpR_REIMBURSEMENT_REQUEST}"
    and "refs_in_range p tt"
  shows "applied s p h fee tt tt'"
proof -
  let ?issuance = "optional_issuance_candidate p"
  have none: "temp_tx_type tt = None" using assms(3) by (simp add: refs_in_range_def)
  obtain v where v: "is_fee_and_phase_valid s h fee Phase_PROPOSAL PROPOSAL_FEE = Inr v"
    and tt': "tt' = (if v then (case ?issuance of
               Some i \<Rightarrow> set_tx_output_type i ISSUANCE_CANDIDATE_OUTPUT tt
             | None \<Rightarrow> tt\<lparr>temp_tx_type := Some IRREGULAR\<rparr>)
          else set_ref_type ?issuance BTC_OUTPUT (tt\<lparr>temp_tx_type := Some IRREGULAR\<rparr>))"
    using assms(1) by (auto simp: process_issuance_def)
  show ?thesis
  proof (cases "v \<and> ?issuance \<noteq> None")
    case True
    then obtain i where i: "?issuance = Some i" and v': "v" by auto
    have "retyped p (temp_tx_outputs tt) (set_output_type i ISSUANCE_CANDIDATE_OUTPUT (temp_tx_outputs tt))"
      using i assms(3) by (intro retyped_set) (auto simp: refs_in_range_def)
    then show ?thesis
      by (rule appliedI [OF none, of _ _ _ None])
        (use v v' i assms(2) none in
          \<open>auto simp: tt' needs_phase_def set_tx_output_type_untyped dest!: fee_and_phase\<close>)
  next
    case False
    have "retyped p (temp_tx_outputs tt) (temp_tx_outputs (set_ref_type ?issuance BTC_OUTPUT tt))"
      using assms(3) by (auto simp: refs_in_range_def intro!: retyped_set split: option.splits)
    then show ?thesis
      by (rule appliedI [OF none, of _ _ _ "Some IRREGULAR"])
        (use False in \<open>auto simp: tt' set_ref_type_irregular split: option.splits\<close>)
  qed
qed

text \<open>The pass of the code is the type-specific step: the references that would be reset to BTC
  outputs afterwards are empty.\<close>

lemma apply_cases:
  assumes "apply_tx_type_and_tx_output_type s p h fee tt = Inr tt'"
    and "refs_match (p, temp_tx_outputs tt)"
  shows "(case optional_op_return_type p of
            Some OpR_PROPOSAL \<Rightarrow> process_proposal s h fee tt
          | Some OpR_COMPENSATION_REQUEST \<Rightarrow> process_issuance s p h fee tt
          | Some OpR_REIMBURSEMENT_REQUEST \<Rightarrow> process_issuance s p h fee tt
          | Some OpR_BLIND_VOTE \<Rightarrow> process_blind_vote s p h fee tt
          | _ \<Rightarrow> Inr tt) = Inr tt'"
proof -
  let ?ort = "optional_op_return_type p"
  have "?ort \<notin> {Some OpR_COMPENSATION_REQUEST, Some OpR_REIMBURSEMENT_REQUEST} \<Longrightarrow>
        optional_issuance_candidate p = None"
      "?ort \<noteq> Some OpR_BLIND_VOTE \<Longrightarrow> optional_blind_vote_lock_stake_output p = None"
      "?ort \<noteq> Some OpR_VOTE_REVEAL \<Longrightarrow> optional_vote_reveal_unlock_stake_output p = None"
      "?ort \<noteq> Some OpR_LOCKUP \<Longrightarrow> optional_lockup_output p = None"
    using assms(2) by (auto simp: refs_match_def)
  with assms(1) show ?thesis
    unfolding apply_tx_type_and_tx_output_type_def Let_def by (auto split: if_splits)
qed

lemma apply_spec:
  assumes "apply_tx_type_and_tx_output_type s p h fee tt = Inr tt'"
    and "refs_match (p, temp_tx_outputs tt)" and "\<forall>i \<in> set (utxo_candidates p). i < length (temp_tx_outputs tt)"
    and "temp_tx_type tt = None"
  shows "applied s p h fee tt tt'"
proof -
  have range: "refs_in_range p tt"
    using assms(2-4) by (auto simp: refs_in_range_def refs_match_def)
  have keep: "applied s p h fee tt tt"
    if "\<And>ort. optional_op_return_type p = Some ort \<Longrightarrow> needs_phase ort = None"
    using that by (intro appliedI [OF assms(4), of _ "temp_tx_outputs tt" _ None])
      (auto simp: untyped_same [OF assms(4)])
  show ?thesis
  proof (cases "optional_op_return_type p")
    case None
    then show ?thesis using apply_cases [OF assms(1,2)] keep by simp
  next
    case (Some ort)
    show ?thesis
    proof (cases "needs_phase ort")
      case None
      then have "tt' = tt"
        using Some apply_cases [OF assms(1,2)] by (cases ort) (simp_all add: needs_phase_def)
      with None Some keep show ?thesis by simp
    next
      case (Some x)
      then show ?thesis
        using \<open>optional_op_return_type p = Some ort\<close> apply_cases [OF assms(1,2)] range assms(4)
        by (cases ort) (auto intro: process_proposal_applied process_blind_vote_applied
            process_issuance_applied simp: needs_phase_def)
    qed
  qed
qed

section \<open>The result of a transaction\<close>

definition parsed_tx :: "raw_tx \<Rightarrow> temp_tx_output list \<Rightarrow> tx_type \<Rightarrow> int \<Rightarrow> tx" where
  "parsed_tx raw outs ty burnt =
     from_temp_tx ((temp_tx_from_raw_tx raw)\<lparr>temp_tx_outputs := outs, temp_tx_type := Some ty,
       temp_burnt_bsq := burnt\<rparr>)"

lemma parsed_tx_sel [simp]:
  "tx_id (parsed_tx raw outs ty b) = tx_id raw" "tx_inputs (parsed_tx raw outs ty b) = tx_inputs raw"
  "tx_block_height (parsed_tx raw outs ty b) = tx_block_height raw"
  "tx_outputs (parsed_tx raw outs ty b) = map from_temp_output outs"
  "tx_tx_type (parsed_tx raw outs ty b) = Some ty" "tx_burnt_bsq (parsed_tx raw outs ty b) = b"
  by (simp_all add: parsed_tx_def temp_tx_from_raw_tx_def)

lemma parsed_tx_raw:
  "map raw_part outs = raw_tx_outputs raw \<Longrightarrow> raw_tx_from_tx (parsed_tx raw outs ty b) = raw"
  by (cases raw) (simp add: parsed_tx_def raw_tx_from_tx_def from_temp_tx_def temp_tx_from_raw_tx_def
      raw_part_def [abs_def] comp_def)

text \<open>The tests that keep a transaction from being invalid.\<close>

definition tx_accepted :: "temp_tx_output list \<Rightarrow> tx_type \<Rightarrow> bool \<Rightarrow> bool \<Rightarrow> bool" where
  "tx_accepted outs ty found burnt_bond \<longleftrightarrow>
     ty \<noteq> INVALID \<and> length (filter is_op_return_output outs) \<le> 1 \<and>
     (ty \<in> {COMPENSATION_REQUEST, REIMBURSEMENT_REQUEST} \<longrightarrow> found) \<and> \<not> burnt_bond \<and>
     (\<forall>out \<in> set outs. tmp_output_type out \<notin> {UNDEFINED_OUTPUT, INVALID_OUTPUT})"

lemma is_tx_invalid_iff:
  "temp_tx_type tt = Some ty \<Longrightarrow>
     is_tx_invalid tt found bond \<longleftrightarrow> \<not> tx_accepted (temp_tx_outputs tt) ty found bond"
  by (auto simp: is_tx_invalid_def tx_accepted_def list_ex_iff)

text \<open>Where the type of an accepted transaction comes from.\<close>

definition type_justified ::
  "'a dao_service_scheme \<Rightarrow> tx_input_parser \<Rightarrow> tx_output_parser \<Rightarrow> raw_tx \<Rightarrow> temp_tx_output list \<Rightarrow>
     tx_type \<Rightarrow> bool" where
  "type_justified s ip p raw outs ty \<longleftrightarrow>
     ty = IRREGULAR \<or>
     (case optional_op_return_type p of
        Some ort \<Rightarrow>
          ty = evaluate_tx_type_from_op_return_type ((temp_tx_from_raw_tx raw)\<lparr>temp_tx_outputs := outs\<rparr>) ort \<and>
          (case needs_phase ort of None \<Rightarrow> True
           | Some (ph, par) \<Rightarrow> is_in_phase s (tx_block_height raw) ph \<and>
               get_param_value_as_coin s par (tx_block_height raw) = Inr (available_input_value p))
      | None \<Rightarrow>
          if 0 < available_input_value p + burnt_bond_value ip then ty = PAY_TRADE_FEE
          else outs \<noteq> [] \<and> ty = (if tmp_output_type (hd outs) = UNLOCK_OUTPUT
                 then (if is_unlock_input_valid ip then UNLOCK else INVALID) else TRANSFER_BSQ))"

lemma evaluate_outputs_only:
  "temp_tx_outputs tt = temp_tx_outputs tt' \<Longrightarrow>
     evaluate_tx_type_from_op_return_type tt ort = evaluate_tx_type_from_op_return_type tt' ort"
  by (cases ort) (simp_all add: evaluate_tx_type_from_op_return_type_def)

lemma evaluate_justified:
  assumes "evaluate_tx_type tt (optional_op_return_type p)
      (0 < available_input_value p + burnt_bond_value ip) (is_unlock_input_valid ip) = Inr ty"
    and "temp_tx_outputs tt = outs"
    and "\<And>ort ph par. optional_op_return_type p = Some ort \<Longrightarrow> needs_phase ort = Some (ph, par) \<Longrightarrow>
      is_in_phase s (tx_block_height raw) ph \<and>
      get_param_value_as_coin s par (tx_block_height raw) = Inr (available_input_value p)"
  shows "type_justified s ip p raw outs ty"
proof (cases "optional_op_return_type p")
  case None
  then show ?thesis using assms(1,2)
    by (auto simp: type_justified_def evaluate_tx_type_def py_nth_def hd_conv_nth split: if_splits)
next
  case (Some ort)
  have "ty = evaluate_tx_type_from_op_return_type ((temp_tx_from_raw_tx raw)\<lparr>temp_tx_outputs := outs\<rparr>) ort"
    using Some assms(1,2) evaluate_outputs_only [of tt "(temp_tx_from_raw_tx raw)\<lparr>temp_tx_outputs := outs\<rparr>" ort]
    by (simp add: evaluate_tx_type_def)
  then show ?thesis using Some assms(3) by (auto simp: type_justified_def split: option.splits)
qed

lemma finish_tx_cases:
  assumes "finish_tx ip (p, outs) raw s = Inr (s', ot)" and "refs_match (p, outs)"
    and "\<forall>i \<in> set (utxo_candidates p). i < length outs"
  obtains outs' ty where "retyped p outs outs'" "type_justified s ip p raw outs' ty"
    "\<not> tx_accepted outs' ty (bsq_output_found p) (0 < burnt_bond_value ip)" "s' = s"
    "ot = Some (parsed_tx raw (invalidate_utxo_candidates (p, outs')) INVALID (accumulated_input_value ip))"
  | outs' ty where "retyped p outs outs'" "type_justified s ip p raw outs' ty"
    "tx_accepted outs' ty (bsq_output_found p) (0 < burnt_bond_value ip)"
    "commit_utxo_candidates (p, outs') s = Inr s'"
    "ot = Some (parsed_tx raw outs' ty (max 0 (available_input_value p + burnt_bond_value ip)))"
proof -
  let ?burnt = "available_input_value p + burnt_bond_value ip"
  let ?tt0 = "(temp_tx_from_raw_tx raw)\<lparr>temp_tx_outputs := outs\<rparr>"
  let ?tt1 = "if 0 < ?burnt then ?tt0\<lparr>temp_burnt_bsq := ?burnt\<rparr> else ?tt0"
  let ?h = "tx_block_height raw"
  have tt1: "?tt1 = ?tt0\<lparr>temp_burnt_bsq := max 0 ?burnt\<rparr>"
    by (auto simp: temp_tx_from_raw_tx_def)
  from assms(1) obtain tt2 tt3 where
    ap: "apply_tx_type_and_tx_output_type s p ?h (available_input_value p) ?tt1 = Inr tt2"
    and ev: "(if temp_tx_type tt2 \<notin> {Some IRREGULAR, Some INVALID}
        then rbind (evaluate_tx_type tt2 (optional_op_return_type p) (0 < ?burnt) (is_unlock_input_valid ip))
          (\<lambda>ty. Inr (tt2\<lparr>temp_tx_type := Some ty\<rparr>)) else Inr tt2) = Inr tt3"
    and fin: "(if is_tx_invalid tt3 (bsq_output_found p) (0 < burnt_bond_value ip)
        then Inr (s, Some (from_temp_tx (tt3\<lparr>temp_tx_type := Some INVALID,
               temp_burnt_bsq := accumulated_input_value ip,
               temp_tx_outputs := invalidate_utxo_candidates (p, temp_tx_outputs tt3)\<rparr>)))
        else rbind (commit_utxo_candidates (p, temp_tx_outputs tt3) s)
               (\<lambda>s'. Inr (s', Some (from_temp_tx tt3)))) = Inr (s', ot)"
    unfolding finish_tx_def Let_def prod.case rbind_eq_Inr by blast
  have "applied s p ?h (available_input_value p) ?tt1 tt2"
    by (rule apply_spec [OF ap]) (use assms(2,3) in \<open>simp_all add: tt1\<close>)
  then obtain outs' ty2 where tt2: "tt2 = ?tt1\<lparr>temp_tx_outputs := outs', temp_tx_type := ty2\<rparr>"
    and re: "retyped p outs outs'" and ty2: "ty2 = None \<or> ty2 = Some IRREGULAR"
    and ph: "ty2 = None \<longrightarrow> (case optional_op_return_type p of None \<Rightarrow> True | Some ort \<Rightarrow>
        (case needs_phase ort of None \<Rightarrow> True
         | Some (ph, par) \<Rightarrow> is_in_phase s ?h ph \<and>
             get_param_value_as_coin s par ?h = Inr (available_input_value p)))"
    by (auto simp: applied_def tt1)
  obtain ty where tt3: "tt3 = tt2\<lparr>temp_tx_type := Some ty\<rparr>"
    and ty: "ty2 = Some IRREGULAR \<and> ty = IRREGULAR \<or> ty2 = None \<and>
      evaluate_tx_type tt2 (optional_op_return_type p) (0 < ?burnt) (is_unlock_input_valid ip) = Inr ty"
    using ev ty2 by (auto simp: tt2 split: if_splits)
  have just: "type_justified s ip p raw outs' ty"
    using ty
  proof
    assume "ty2 = None \<and> evaluate_tx_type tt2 (optional_op_return_type p) (0 < ?burnt)
      (is_unlock_input_valid ip) = Inr ty"
    then show ?thesis by (intro evaluate_justified [of tt2]) (use ph in \<open>auto simp: tt2\<close>)
  qed (simp add: type_justified_def)
  have out3: "temp_tx_outputs tt3 = outs'" "temp_tx_type tt3 = Some ty" by (simp_all add: tt3 tt2)
  note inv = is_tx_invalid_iff [OF out3(2), unfolded out3(1)]
  show thesis
  proof (cases "tx_accepted outs' ty (bsq_output_found p) (0 < burnt_bond_value ip)")
    case True
    show thesis
      by (rule that(2) [OF re just True])
        (use fin inv True in \<open>auto simp: out3 parsed_tx_def tt3 tt2 tt1 temp_tx_from_raw_tx_def\<close>)
  next
    case False
    show thesis
      by (rule that(1) [OF re just False])
        (use fin inv False in \<open>auto simp: out3 parsed_tx_def tt3 tt2 tt1 temp_tx_from_raw_tx_def\<close>)
  qed
qed

section \<open>Conservation\<close>

definition nonneg_ledger :: "'a dao_state_scheme \<Rightarrow> bool" where
  "nonneg_ledger s \<longleftrightarrow> (\<forall>k out. get_unspent_tx_output s k = Some out \<longrightarrow> 0 \<le> txo_value out)"

definition raw_tx_ok :: "'a dao_state_scheme \<Rightarrow> raw_tx \<Rightarrow> bool" where
  "raw_tx_ok s raw \<longleftrightarrow> fresh_outputs s (raw_tx_outputs raw) \<and> distinct (map get_key (raw_tx_outputs raw)) \<and>
     (\<forall>r \<in> set (raw_tx_outputs raw). 0 \<le> txo_value r)"

lemma process_inputs_nonneg:
  assumes "process_inputs raw (new_tx_input_parser, s) = Inr (ip, s1)" and "utxo_ok s" and "nonneg_ledger s"
  shows "0 \<le> accumulated_input_value ip" and "0 \<le> burnt_bond_value ip"
proof -
  let ?P = "\<lambda>(q, t). utxo_ok t \<and> nonneg_ledger t \<and> 0 \<le> accumulated_input_value q \<and> 0 \<le> burnt_bond_value q"
  have "?P (ip, s1)"
    using assms(1) unfolding process_inputs_def
  proof (induction rule: fold_res_inv)
    case init
    show ?case using assms(2,3) by (simp add: new_tx_input_parser_def)
  next
    case (step x u v)
    obtain n inp q t q' t' where x: "x = (n, inp)" "u = (q, t)" "v = (q', t')" by (metis surj_pair)
    from step have pr: "process (get_connected_tx_output_key inp) (tx_block_height raw)
        (tx_id raw) n (q, t) = Inr (q', t')" by (simp add: x)
    from step have P: "utxo_ok t" "nonneg_ledger t" "0 \<le> accumulated_input_value q" "0 \<le> burnt_bond_value q"
      by (simp_all add: x)
    have "nonneg_ledger t'"
      using process_spec [OF pr P(1)] P(2) by (auto simp: nonneg_ledger_def split: if_splits)
    moreover have "0 \<le> accumulated_input_value q' \<and> 0 \<le> burnt_bond_value q'"
      using pr
    proof (cases rule: process_cases)
      case (Spent out u)
      then have "0 \<le> txo_value out" using P(2) by (auto simp: nonneg_ledger_def)
      then show ?thesis using P(3,4) by (simp add: Spent(3) input_parser_step_def Let_def)
    qed (use P in simp)
    ultimately show ?case using process_spec [OF pr P(1)] by (simp add: x)
  qed
  then show "0 \<le> accumulated_input_value ip" "0 \<le> burnt_bond_value ip" by simp_all
qed

lemma fresh_after_inputs:
  "process_inputs raw (new_tx_input_parser, s) = Inr (ip, s1) \<Longrightarrow> utxo_ok s \<Longrightarrow> fresh_outputs s rs \<Longrightarrow>
     fresh_outputs s1 rs"
  by (drule process_inputs_spec, assumption) (simp add: fresh_outputs_def, metis)

text \<open>Every run of \<open>_find_tx\<close>, with what each stage guarantees.\<close>

definition parsed_outputs ::
  "raw_tx \<Rightarrow> 'a dao_service_scheme \<Rightarrow> tx_input_parser \<Rightarrow> 'a dao_service_scheme \<Rightarrow> parse_state \<Rightarrow> bool" where
  "parsed_outputs raw s ip s1 st \<longleftrightarrow>
     process_inputs raw (new_tx_input_parser, s) = Inr (ip, s1) \<and>
     process_outputs s1 (start_output_parser ip, map from_raw_tx_output (raw_tx_outputs raw)) = Inr st \<and>
     outputs_inv (accumulated_input_value ip) (raw_tx_outputs raw) (length (raw_tx_outputs raw)) st \<and>
     fresh_outputs s1 (raw_tx_outputs raw) \<and> utxo_ok s1 \<and>
     utxo_total s1 + input_value ip = utxo_total s \<and> same_but_ledger s s1 \<and>
     0 \<le> accumulated_input_value ip \<and> 0 \<le> burnt_bond_value ip"

lemma parsed_outputs_inv:
  "parsed_outputs raw s ip s1 st \<Longrightarrow>
     outputs_inv (accumulated_input_value ip) (raw_tx_outputs raw) (length (raw_tx_outputs raw)) st"
  by (simp add: parsed_outputs_def)

lemma initial_start_parser:
  "0 \<le> accumulated_input_value ip \<Longrightarrow> initial_parser (accumulated_input_value ip) (start_output_parser ip)"
  by (simp add: initial_parser_def start_output_parser_def new_tx_output_parser_def)

lemma find_tx_body_cases:
  assumes "find_tx_body raw s = Inr (s', ot)" and "utxo_ok s" and "nonneg_ledger s"
    and "fresh_outputs s (raw_tx_outputs raw)"
  obtains (Ignored) ip where "process_inputs raw (new_tx_input_parser, s) = Inr (ip, s')" "ot = None"
      "accumulated_input_value ip = 0" "burnt_bond_value ip = 0"
    | (Rejected) ip p outs outs' ty where "parsed_outputs raw s ip s' (p, outs)" "retyped p outs outs'"
      "type_justified s' ip p raw outs' ty"
      "\<not> tx_accepted outs' ty (bsq_output_found p) (0 < burnt_bond_value ip)"
      "ot = Some (parsed_tx raw (invalidate_utxo_candidates (p, outs')) INVALID (accumulated_input_value ip))"
    | (Accepted) ip s1 p outs outs' ty where "parsed_outputs raw s ip s1 (p, outs)" "retyped p outs outs'"
      "type_justified s1 ip p raw outs' ty"
      "tx_accepted outs' ty (bsq_output_found p) (0 < burnt_bond_value ip)" "burnt_bond_value ip = 0"
      "commit_utxo_candidates (p, outs') s1 = Inr s'"
      "ot = Some (parsed_tx raw outs' ty (available_input_value p))"
proof -
  from assms(1) obtain ip s1 where pi: "process_inputs raw (new_tx_input_parser, s) = Inr (ip, s1)"
    and rest: "(if \<not> 0 < accumulated_input_value ip \<and> \<not> 0 < burnt_bond_value ip then Inr (s1, None)
       else rbind (process_outputs s1 (start_output_parser ip, map from_raw_tx_output (raw_tx_outputs raw)))
              (\<lambda>st. finish_tx ip st raw s1)) = Inr (s', ot)"
    by (auto simp: find_tx_body_def)
  note nn = process_inputs_nonneg [OF pi assms(2,3)]
  show thesis
  proof (cases "accumulated_input_value ip = 0 \<and> burnt_bond_value ip = 0")
    case True
    with rest pi that(1) show thesis by auto
  next
    case False
    with rest nn obtain p outs where po: "process_outputs s1 (start_output_parser ip,
        map from_raw_tx_output (raw_tx_outputs raw)) = Inr (p, outs)"
      and fin: "finish_tx ip (p, outs) raw s1 = Inr (s', ot)" by (auto split: if_splits)
    have fresh: "fresh_outputs s1 (raw_tx_outputs raw)"
      by (rule fresh_after_inputs [OF pi assms(2,4)])
    have inv: "outputs_inv (accumulated_input_value ip) (raw_tx_outputs raw) (length (raw_tx_outputs raw)) (p, outs)"
      by (rule process_outputs_inv [OF po initial_start_parser [OF nn(1)] fresh])
    have st: "parsed_outputs raw s ip s1 (p, outs)"
      using pi po inv fresh nn process_inputs_spec [OF pi assms(2)]
      by (simp add: parsed_outputs_def input_value_def new_tx_input_parser_def)
    have len: "length outs = length (raw_tx_outputs raw)"
      using inv by (auto simp: outputs_inv_def intro: length_accounts)
    have refs: "refs_match (p, outs)" "\<forall>i \<in> set (utxo_candidates p). i < length outs"
      and avail: "0 \<le> available_input_value p"
      using inv len by (auto simp: outputs_inv_def accounts_def)
    from fin refs show thesis
    proof (cases rule: finish_tx_cases)
      case (1 outs' ty)
      then show thesis using that(2) st by blast
    next
      case (2 outs' ty)
      then have "burnt_bond_value ip = 0" using nn by (auto simp: tx_accepted_def)
      moreover from this 2(5) avail have "ot = Some (parsed_tx raw outs' ty (available_input_value p))" by simp
      ultimately show thesis using 2 st by (intro that(3))
    qed
  qed
qed

definition burnt_bond :: "'a dao_service_scheme \<Rightarrow> raw_tx \<Rightarrow> int" where
  "burnt_bond s raw =
     (case process_inputs raw (new_tx_input_parser, s) of
        Inl _ \<Rightarrow> 0 | Inr (ip, _) \<Rightarrow> burnt_bond_value ip)"

lemma retyped_candidates:
  assumes "outputs_inv a raws k (p, outs)" and "retyped p outs outs'"
  shows "map raw_part outs' = raws" and "length outs' = length raws"
    and "\<And>i. i < length raws \<Longrightarrow>
      i \<in> set (utxo_candidates p) \<longleftrightarrow> tmp_output_type (outs' ! i) \<in> bsq_candidate_types"
    and "\<And>i. i < length raws \<Longrightarrow> tmp_output_type (outs' ! i) \<in> bsq_candidate_types - {BSQ_OUTPUT} \<Longrightarrow>
      txo_index (outs' ! i) = 0"
proof -
  have raws: "map raw_part outs = raws" and tm: "types_match (p, outs)" and rm: "refs_match (p, outs)"
    and issuance: "\<And>i. optional_issuance_candidate p = Some i \<Longrightarrow> i \<notin> set (utxo_candidates p)"
    using assms(1) by (auto simp: outputs_inv_def accounts_def)
  show raws': "map raw_part outs' = raws" using assms(2) raws by (simp add: retyped_def)
  show len: "length outs' = length raws" using arg_cong [OF raws', of length] by simp
  have len0: "length outs = length raws" using arg_cong [OF raws, of length] by simp
  fix i assume i: "i < length raws"
  have t: "tmp_output_type (outs' ! i) = tmp_output_type (outs ! i) \<or>
      i \<in> set (utxo_candidates p) \<and> tmp_output_type (outs' ! i) = BSQ_OUTPUT \<or>
      i \<notin> set (utxo_candidates p) \<and> tmp_output_type (outs' ! i) \<in> {ISSUANCE_CANDIDATE_OUTPUT, BTC_OUTPUT}"
    using assms(2) i len0 issuance rm by (auto simp: retyped_def refs_match_def)
  have m: "i \<in> set (utxo_candidates p) \<longleftrightarrow> tmp_output_type (outs ! i) \<in> bsq_candidate_types"
    using tm i len0 by (simp add: types_match_def)
  show "i \<in> set (utxo_candidates p) \<longleftrightarrow> tmp_output_type (outs' ! i) \<in> bsq_candidate_types"
    using t m by (auto simp: bsq_candidate_types_def)
  assume special: "tmp_output_type (outs' ! i) \<in> bsq_candidate_types - {BSQ_OUTPUT}"
  then have "tmp_output_type (outs' ! i) = tmp_output_type (outs ! i)"
    using t by (auto simp: bsq_candidate_types_def)
  with special tm i len0 have "txo_index (outs ! i) = 0" by (simp add: types_match_def)
  moreover have "raw_part (outs' ! i) = raw_part (outs ! i)"
    using raws raws' i len len0 by (metis nth_map)
  ultimately show "txo_index (outs' ! i) = 0" by (metis raw_part_sel(2))
qed

lemma commit_retyped:
  assumes "parsed_outputs raw s ip s1 (p, outs)" and "retyped p outs outs'"
    and "distinct (map get_key (raw_tx_outputs raw))" and "commit_utxo_candidates (p, outs') s1 = Inr s'"
  shows "utxo_ok s' \<and> same_but_ledger s1 s' \<and> spent_info_map s' = spent_info_map s1 \<and>
     utxo_total s' + available_input_value p = utxo_total s1 + accumulated_input_value ip \<and>
     (\<forall>k out. get_unspent_tx_output s' k = Some out \<longleftrightarrow> get_unspent_tx_output s1 k = Some out \<or>
        (\<exists>i \<in> set (utxo_candidates p). out = from_temp_output (outs' ! i) \<and> k = get_key (raw_tx_outputs raw ! i)))"
proof -
  let ?raws = "raw_tx_outputs raw"
  have inv: "outputs_inv (accumulated_input_value ip) ?raws (length ?raws) (p, outs)"
    and fresh: "fresh_outputs s1 ?raws" and ok: "utxo_ok s1"
    using assms(1) by (simp_all add: parsed_outputs_def)
  have acc: "available_input_value p + (\<Sum>i\<leftarrow>utxo_candidates p. txo_value (?raws ! i)) = accumulated_input_value ip"
    "distinct (utxo_candidates p)" "\<forall>i \<in> set (utxo_candidates p). i < length ?raws"
    using inv by (simp_all add: outputs_inv_def accounts_def)
  from commit_utxo_candidates_spec [OF retyped_candidates(1) [OF inv assms(2)] assms(3) fresh ok acc(2,3)]
    assms(4) acc(1) show ?thesis by auto
qed

text \<open>The BSQ in circulation change exactly by what the transaction reports as burnt, plus, for
  an invalid transaction, the bond it burnt.\<close>

lemma find_tx_body_conserves:
  assumes "find_tx_body raw s = Inr (s', ot)" and "utxo_ok s" and "nonneg_ledger s" and "raw_tx_ok s raw"
  shows "utxo_ok s' \<and>
     (case ot of
        None \<Rightarrow> utxo_total s' = utxo_total s
      | Some t \<Rightarrow> utxo_total s' + tx_burnt_bsq t +
          (if tx_tx_type t = Some INVALID then burnt_bond s raw else 0) = utxo_total s)"
proof -
  have fresh: "fresh_outputs s (raw_tx_outputs raw)" and dist: "distinct (map get_key (raw_tx_outputs raw))"
    using assms(4) by (simp_all add: raw_tx_ok_def)
  from assms(1-3) fresh show ?thesis
  proof (cases rule: find_tx_body_cases)
    case (Ignored ip)
    with process_inputs_spec [OF Ignored(1) assms(2)] show ?thesis
      by (simp add: input_value_def new_tx_input_parser_def)
  next
    case (Rejected ip p outs outs' ty)
    then show ?thesis by (auto simp: parsed_outputs_def burnt_bond_def input_value_def)
  next
    case (Accepted ip s1 p outs outs' ty)
    from commit_retyped [OF Accepted(1,2) dist Accepted(6)] Accepted show ?thesis
      by (auto simp: parsed_outputs_def input_value_def tx_accepted_def)
  qed
qed

section \<open>What becomes unspent\<close>

lemma invalidated_outputs:
  assumes "outputs_inv a raws k (p, outs)" and "retyped p outs outs'" and "k = length raws"
  shows "map raw_part (invalidate_utxo_candidates (p, outs')) = raws \<and>
     (\<forall>out \<in> set (invalidate_utxo_candidates (p, outs')). tmp_output_type out \<notin> bsq_candidate_types)"
proof -
  note re = retyped_candidates [OF assms(1,2)]
  have range: "\<forall>i \<in> set (utxo_candidates p). i < length outs'"
    using assms(1,3) re(2) by (auto simp: outputs_inv_def accounts_def)
  note inv = invalidate_types [OF range, of BTC_OUTPUT]
  have "tmp_output_type (invalidate_utxo_candidates (p, outs') ! j) \<notin> bsq_candidate_types"
    if "j < length outs'" for j
    using inv re(2,3) that by (simp add: invalidate_utxo_candidates_def)
  then show ?thesis
    using inv re(1) by (auto simp: invalidate_utxo_candidates_def in_set_conv_nth)
qed

lemma find_tx_body_raw:
  assumes "find_tx_body raw s = Inr (s', Some t)" and "utxo_ok s" and "nonneg_ledger s" and "raw_tx_ok s raw"
  shows "raw_tx_from_tx t = raw"
proof -
  have fresh: "fresh_outputs s (raw_tx_outputs raw)" using assms(4) by (simp add: raw_tx_ok_def)
  from assms(1-3) fresh show ?thesis
  proof (cases rule: find_tx_body_cases)
    case (Rejected ip p outs outs' ty)
    then show ?thesis using invalidated_outputs [OF parsed_outputs_inv [OF Rejected(1)] Rejected(2) refl]
      by (simp add: parsed_tx_raw)
  next
    case (Accepted ip s1 p outs outs' ty)
    then show ?thesis using retyped_candidates(1) [OF parsed_outputs_inv [OF Accepted(1)] Accepted(2)]
      by (simp add: parsed_tx_raw)
  qed simp
qed

definition is_bsq_output :: "tx_output \<Rightarrow> bool" where
  "is_bsq_output out \<longleftrightarrow> out_type out \<in> bsq_candidate_types"

definition unspent_result :: "'a dao_service_scheme \<Rightarrow> 'a dao_service_scheme \<Rightarrow> tx \<Rightarrow> bool" where
  "unspent_result s s' t \<longleftrightarrow>
     (\<forall>out \<in> set (tx_outputs t). is_bsq_output out \<longleftrightarrow> get_unspent_tx_output s' (get_key out) = Some out) \<and>
     (\<forall>k out. get_unspent_tx_output s' k = Some out \<longrightarrow>
        get_unspent_tx_output s k = Some out \<or> out \<in> set (tx_outputs t) \<and> is_bsq_output out \<and> k = get_key out) \<and>
     (tx_tx_type t = Some INVALID \<longrightarrow> (\<forall>out \<in> set (tx_outputs t). \<not> is_bsq_output out))"

lemma inputs_only_remove:
  assumes "parsed_outputs raw s ip s1 st" and "utxo_ok s" and "get_unspent_tx_output s1 k = Some out"
  shows "get_unspent_tx_output s k = Some out"
  using process_inputs_spec [of raw new_tx_input_parser s ip s1] assms
  by (auto simp: parsed_outputs_def dest: spec [of _ k])

lemma rejected_unspent:
  assumes "parsed_outputs raw s ip s' (p, outs)" and "retyped p outs outs'" and "utxo_ok s"
  shows "unspent_result s s'
     (parsed_tx raw (invalidate_utxo_candidates (p, outs')) INVALID (accumulated_input_value ip))"
proof -
  let ?outs = "invalidate_utxo_candidates (p, outs')"
  have inv: "map raw_part ?outs = raw_tx_outputs raw"
      "\<forall>out \<in> set ?outs. tmp_output_type out \<notin> bsq_candidate_types"
    using invalidated_outputs [OF parsed_outputs_inv [OF assms(1)] assms(2) refl] by simp_all
  have "get_unspent_tx_output s' (get_key out) = None" if "out \<in> set ?outs" for out
  proof -
    have "raw_part out \<in> set (raw_tx_outputs raw)" using that inv(1) by (metis image_eqI set_map)
    then have "get_unspent_tx_output s' (get_key (raw_part out)) = None"
      using assms(1) by (simp add: parsed_outputs_def fresh_outputs_def)
    then show ?thesis by (simp add: raw_part_sel)
  qed
  with inv(2) inputs_only_remove [OF assms(1,3)] show ?thesis
    by (auto simp: unspent_result_def is_bsq_output_def)
qed

lemma accepted_unspent:
  assumes "parsed_outputs raw s ip s1 (p, outs)" and "retyped p outs outs'" and "utxo_ok s"
    and "distinct (map get_key (raw_tx_outputs raw))" and "commit_utxo_candidates (p, outs') s1 = Inr s'"
    and "ty \<noteq> INVALID"
  shows "unspent_result s s' (parsed_tx raw outs' ty b)"
proof -
  let ?raws = "raw_tx_outputs raw"
  note inv = parsed_outputs_inv [OF assms(1)]
  have fresh1: "fresh_outputs s1 ?raws" using assms(1) by (simp add: parsed_outputs_def)
  note re = retyped_candidates [OF inv assms(2)]
  have key: "get_key (outs' ! i) = get_key (?raws ! i)" if "i < length ?raws" for i
    using re(1,2) that by (metis nth_map raw_part_sel(3))
  have range: "i < length ?raws" if "i \<in> set (utxo_candidates p)" for i
    using inv that by (auto simp: outputs_inv_def accounts_def)
  have com: "get_unspent_tx_output s' k = Some out \<longleftrightarrow> get_unspent_tx_output s1 k = Some out \<or>
      (\<exists>i \<in> set (utxo_candidates p). out = from_temp_output (outs' ! i) \<and> k = get_key (?raws ! i))" for k out
    using commit_retyped [OF assms(1,2,4,5)] by blast
  have uniq: "j = i" if "i < length ?raws" "j < length ?raws" "get_key (?raws ! i) = get_key (?raws ! j)" for i j
    using assms(4) that nth_eq_iff_index_eq [of "map get_key ?raws" i j] by simp
  have new: "tmp_output_type (outs' ! i) \<in> bsq_candidate_types \<longleftrightarrow>
      get_unspent_tx_output s' (get_key (outs' ! i)) = Some (from_temp_output (outs' ! i))"
    if i: "i < length ?raws" for i
  proof -
    have "get_unspent_tx_output s1 (get_key (outs' ! i)) = None"
      using fresh1 i key [OF i] by (simp add: fresh_outputs_def)
    then have "get_unspent_tx_output s' (get_key (outs' ! i)) = Some (from_temp_output (outs' ! i)) \<longleftrightarrow>
        i \<in> set (utxo_candidates p)"
      unfolding com key [OF i] using uniq [OF i] range by auto
    then show ?thesis using re(3) [OF i] by simp
  qed
  have old: "get_unspent_tx_output s k = Some out \<or>
      out \<in> set (tx_outputs (parsed_tx raw outs' ty b)) \<and> is_bsq_output out \<and> k = get_key out"
    if un: "get_unspent_tx_output s' k = Some out" for k out
  proof (cases "get_unspent_tx_output s1 k = Some out")
    case False
    then obtain i where i: "i \<in> set (utxo_candidates p)" "out = from_temp_output (outs' ! i)"
        "k = get_key (?raws ! i)" using un com by blast
    from range [OF i(1)] i re(2) re(3) [OF range [OF i(1)]] key [OF range [OF i(1)]] show ?thesis
      by (simp add: is_bsq_output_def)
  qed (use inputs_only_remove [OF assms(1,3)] in blast)
  show ?thesis
    unfolding unspent_result_def
    using new old re(2) assms(6) by (auto simp: is_bsq_output_def in_set_conv_nth)
qed

lemma find_tx_body_unspent:
  assumes "find_tx_body raw s = Inr (s', Some t)" and "utxo_ok s" and "nonneg_ledger s" and "raw_tx_ok s raw"
  shows "unspent_result s s' t"
proof -
  have fresh: "fresh_outputs s (raw_tx_outputs raw)" and dist: "distinct (map get_key (raw_tx_outputs raw))"
    using assms(4) by (simp_all add: raw_tx_ok_def)
  from assms(1-3) fresh show ?thesis
  proof (cases rule: find_tx_body_cases)
    case (Rejected ip p outs outs' ty)
    then show ?thesis using rejected_unspent assms(2) by simp
  next
    case (Accepted ip s1 p outs outs' ty)
    then show ?thesis using accepted_unspent [OF Accepted(1,2) assms(2) dist Accepted(6)]
      by (simp add: tx_accepted_def)
  qed simp
qed

end
