(* ===== verification/Tx_Rules.thy ===== *)
theory Tx_Rules
  imports Tx_Parser
begin

text \<open>
  The rules \<open>TxParser\<close> enforces on a single transaction, derived from the staged description
  of \<open>_find_tx\<close>: the genesis supply, the phase and fee of proposals and votes, unlocking,
  burnt bonds, the hard-fork rule, and the account of the inputs.
\<close>

section \<open>Genesis\<close>

lemma genesis_outputs_spec:
  "genesis_outputs g_supply outs = Inr (r, outs') \<Longrightarrow>
     r = g_supply - sum_list (map txo_value outs) \<and> map raw_part outs' = map raw_part outs \<and>
     (\<forall>out \<in> set outs'. tmp_output_type out = GENESIS_OUTPUT) \<and> (0 \<le> g_supply \<longrightarrow> 0 \<le> r)"
proof (induction outs arbitrary: g_supply outs')
  case (Cons out outs)
  then obtain outs1 where 1: "genesis_outputs (g_supply - txo_value out) outs = Inr (r, outs1)"
    and o': "outs' = out\<lparr>tmp_output_type := GENESIS_OUTPUT\<rparr> # outs1" and "txo_value out \<le> g_supply"
    by (auto split: if_splits)
  with Cons.IH [OF 1] show ?case by simp
qed simp

lemma genesis_outputs_ok:
  "\<forall>out \<in> set outs. 0 \<le> txo_value out \<Longrightarrow> sum_list (map txo_value outs) \<le> g_supply \<Longrightarrow>
     \<exists>outs'. genesis_outputs g_supply outs = Inr (g_supply - sum_list (map txo_value outs), outs')"
proof (induction outs arbitrary: g_supply)
  case (Cons out outs)
  then have "0 \<le> sum_list (map txo_value outs)" by (auto intro!: sum_list_nonneg)
  with Cons.prems have "txo_value out \<le> g_supply" by simp
  moreover obtain outs' where "genesis_outputs (g_supply - txo_value out) outs =
      Inr (g_supply - txo_value out - sum_list (map txo_value outs), outs')"
    using Cons.IH [of "g_supply - txo_value out"] Cons.prems by auto
  ultimately show ?case by (simp add: algebra_simps)
qed simp

text \<open>The genesis transaction is accepted exactly when its outputs use the whole supply.\<close>

lemma genesis_exact:
  assumes "\<forall>r \<in> set (raw_tx_outputs raw). 0 \<le> txo_value r" and "0 \<le> g_supply"
  shows "(\<exists>tt. get_genesis_temp_tx raw g_supply = Inr tt) \<longleftrightarrow>
     sum_list (map txo_value (raw_tx_outputs raw)) = g_supply"
proof
  let ?outs = "map from_raw_tx_output (raw_tx_outputs raw)"
  have sum: "sum_list (map txo_value ?outs) = sum_list (map txo_value (raw_tx_outputs raw))"
    by (simp add: comp_def)
  {
    assume "\<exists>tt. get_genesis_temp_tx raw g_supply = Inr tt"
    then obtain r outs' where g: "genesis_outputs g_supply ?outs = Inr (r, outs')" and r: "\<not> 0 < r"
      by (auto simp: get_genesis_temp_tx_def Let_def split: if_splits)
    from genesis_outputs_spec [OF g] r assms(2) sum
    show "sum_list (map txo_value (raw_tx_outputs raw)) = g_supply" by (cases "raw_tx_outputs raw") auto
  next
    assume s: "sum_list (map txo_value (raw_tx_outputs raw)) = g_supply"
    have "\<exists>outs'. genesis_outputs g_supply ?outs = Inr (g_supply - sum_list (map txo_value ?outs), outs')"
      by (rule genesis_outputs_ok) (use assms(1) s sum in auto)
    with s sum show "\<exists>tt. get_genesis_temp_tx raw g_supply = Inr tt"
      by (auto simp: get_genesis_temp_tx_def Let_def)
  }
qed

lemma get_genesis_tx_spec:
  assumes "get_genesis_tx raw g_supply s = Inr (s', ot)" and "utxo_ok s" and "raw_tx_ok s raw" and "0 \<le> g_supply"
  shows "\<exists>t. ot = Some t \<and> raw_tx_from_tx t = raw \<and> tx_tx_type t = Some GENESIS \<and> tx_burnt_bsq t = 0 \<and>
     utxo_ok s' \<and> same_but_ledger s s' \<and> utxo_total s' = utxo_total s + g_supply \<and>
     (\<forall>k out. get_unspent_tx_output s' k = Some out \<longrightarrow> get_unspent_tx_output s k = Some out \<or>
        out \<in> set (tx_outputs t) \<and> out_type out = GENESIS_OUTPUT)"
proof -
  let ?outs = "map from_raw_tx_output (raw_tx_outputs raw)"
  obtain tt where tt: "get_genesis_temp_tx raw g_supply = Inr tt" and com: "commit_utxos tt s = Inr s'"
    and ot: "ot = Some (from_temp_tx tt)"
    using assms(1) by (auto simp: get_genesis_tx_def)
  then obtain r outs' where g: "genesis_outputs g_supply ?outs = Inr (r, outs')"
    and tt': "tt = (temp_tx_from_raw_tx raw)\<lparr>temp_tx_type := Some GENESIS, temp_tx_outputs := outs'\<rparr>"
    by (auto simp: get_genesis_temp_tx_def Let_def split: if_splits)
  have total: "sum_list (map txo_value (raw_tx_outputs raw)) = g_supply"
    using genesis_exact [of raw g_supply] assms(3,4) tt by (auto simp: raw_tx_ok_def)
  note gs = genesis_outputs_spec [OF g]
  have raws: "map raw_part outs' = raw_tx_outputs raw" using gs by (simp add: comp_def)
  let ?cs = "map from_temp_output outs'"
  have keys: "map get_key ?cs = map get_key (raw_tx_outputs raw)"
    and vals: "map txo_value ?cs = map txo_value (raw_tx_outputs raw)"
    unfolding raws [symmetric] by (simp_all add: raw_part_sel comp_def)
  have "get_unspent_tx_output s (get_key (raw_part c)) = None" if "c \<in> set outs'" for c
    using assms(3) that unfolding raw_tx_ok_def fresh_outputs_def raws [symmetric] by simp
  then have "\<forall>c \<in> set ?cs. get_unspent_tx_output s (get_key c) = None" by (simp add: raw_part_sel)
  with ledger.add_many [OF assms(2), of ?cs] keys assms(3) obtain t where
    t: "fold_res add_unspent_tx_output ?cs s = Inr t" "utxo_ok t"
      "utxo_total t = utxo_total s + sum_list (map txo_value ?cs)"
      "\<forall>k. get_unspent_tx_output t k = (case find (\<lambda>v. get_key v = k) ?cs of Some v \<Rightarrow> Some v
         | None \<Rightarrow> get_unspent_tx_output s k)"
    by (auto simp: raw_tx_ok_def)
  have s': "t = s'" using com t(1) by (simp add: commit_utxos_def tt' fold_res_map)
  have raw: "raw_tx_from_tx (from_temp_tx tt) = raw" and burnt: "temp_burnt_bsq tt = 0"
    using parsed_tx_raw [OF raws, of GENESIS 0]
    by (simp_all add: parsed_tx_def tt' temp_tx_from_raw_tx_def)
  have genesis: "\<forall>out \<in> set ?cs. out_type out = GENESIS_OUTPUT" using gs by auto
  have un: "get_unspent_tx_output s k = Some out \<or> out \<in> set ?cs \<and> out_type out = GENESIS_OUTPUT"
    if "get_unspent_tx_output s' k = Some out" for k out
    using that t(4) genesis unfolding s' by (auto split: option.splits dest!: find_Some_iff_ex)
  show ?thesis
    using t(2,3) vals total add_many_same [OF t(1)] raw burnt un s'
    by (intro exI [of _ "from_temp_tx tt"]) (simp add: ot tt')
qed

section \<open>Phase and fee\<close>

definition phase_rule :: "tx_type \<Rightarrow> (phase \<times> param) option" where
  "phase_rule ty =
     (if ty \<in> {PROPOSAL, COMPENSATION_REQUEST, REIMBURSEMENT_REQUEST} then Some (Phase_PROPOSAL, PROPOSAL_FEE)
      else if ty = BLIND_VOTE then Some (Phase_BLIND_VOTE, BLIND_VOTE_FEE) else None)"

lemma phase_rule_justified:
  assumes "type_justified s ip p raw outs ty" and "phase_rule ty = Some (ph, par)"
  shows "is_in_phase s (tx_block_height raw) ph \<and>
     get_param_value_as_coin s par (tx_block_height raw) = Inr (available_input_value p)"
proof -
  have ty: "ty \<noteq> IRREGULAR" "ty \<notin> {PAY_TRADE_FEE, UNLOCK, INVALID, TRANSFER_BSQ}"
    using assms(2) by (auto simp: phase_rule_def split: if_splits)
  then obtain ort where ort: "optional_op_return_type p = Some ort"
    using assms(1) by (cases "optional_op_return_type p") (auto simp: type_justified_def split: if_splits)
  have "needs_phase ort = phase_rule ty"
    using assms(1) ty ort
    by (cases ort) (auto simp: type_justified_def evaluate_tx_type_from_op_return_type_def
        needs_phase_def phase_rule_def split: if_splits)
  with assms ty ort show ?thesis by (simp add: type_justified_def)
qed

lemma same_but_ledger_params:
  assumes "same_but_ledger s t"
  shows "is_in_phase t h ph = is_in_phase s h ph"
    and "get_param_value_as_coin t par h = get_param_value_as_coin s par h"
  using same_but_ledger_sel [OF assms]
  by (simp_all add: is_in_phase_def get_cycle_def get_param_value_as_coin_def get_param_value_def
      split: option.split)

lemma find_tx_body_phase_and_fee:
  assumes "find_tx_body raw s = Inr (s', Some t)" and "utxo_ok s" and "nonneg_ledger s"
    and "fresh_outputs s (raw_tx_outputs raw)"
    and "tx_tx_type t = Some ty" and "phase_rule ty = Some (ph, par)"
  shows "is_in_phase s (tx_block_height raw) ph \<and>
     get_param_value_as_coin s par (tx_block_height raw) = Inr (tx_burnt_bsq t)"
  using assms(1-4)
proof (cases rule: find_tx_body_cases)
  case (Rejected ip p outs outs' ty')
  with assms(5,6) show ?thesis by (simp add: phase_rule_def)
next
  case (Accepted ip s1 p outs outs' ty')
  have same: "same_but_ledger s s1" using Accepted(1) by (simp add: parsed_outputs_def)
  from Accepted assms(5) have "ty' = ty" by simp
  with phase_rule_justified [OF Accepted(3), of ph par] assms(6) Accepted(7) same_but_ledger_params [OF same]
  show ?thesis by simp
qed simp

section \<open>Burnt bonds\<close>

lemma find_tx_body_burnt_bond:
  assumes "find_tx_body raw s = Inr (s', ot)" and "utxo_ok s" and "nonneg_ledger s"
    and "fresh_outputs s (raw_tx_outputs raw)" and "0 < burnt_bond s raw"
  shows "\<exists>t. ot = Some t \<and> tx_tx_type t = Some INVALID"
  using assms(1-4)
proof (cases rule: find_tx_body_cases)
  case (Ignored ip)
  with assms(5) show ?thesis by (simp add: burnt_bond_def)
next
  case (Accepted ip s1 p outs outs' ty)
  with assms(5) show ?thesis by (simp add: parsed_outputs_def burnt_bond_def)
qed simp

section \<open>The hard-fork rule\<close>

lemma invalidated_not_bsq:
  assumes "parsed_outputs raw s ip s1 (p, outs)" and "retyped p outs outs'"
    and "j < length (raw_tx_outputs raw)"
  shows "\<not> is_bsq_output (map from_temp_output (invalidate_utxo_candidates (p, outs')) ! j)"
proof -
  note inv = invalidated_outputs [OF parsed_outputs_inv [OF assms(1)] assms(2) refl]
  then have "length (invalidate_utxo_candidates (p, outs')) = length (raw_tx_outputs raw)"
    by (metis length_map)
  with inv assms(3) show ?thesis by (simp add: is_bsq_output_def)
qed

lemma find_tx_body_hard_fork:
  assumes "find_tx_body raw s = Inr (s', Some t)" and "utxo_ok s" and "nonneg_ledger s"
    and "fresh_outputs s (raw_tx_outputs raw)" and "indexed_after_fork (network s) (raw_tx_outputs raw)"
    and "i < j" and "j < length (raw_tx_outputs raw)" and "\<not> is_op_return_output (raw_tx_outputs raw ! i)"
    and "\<not> is_bsq_output (tx_outputs t ! i)"
  shows "\<not> is_bsq_output (tx_outputs t ! j)"
  using assms(1-4)
proof (cases rule: find_tx_body_cases)
  case (Rejected ip p outs outs' ty)
  with invalidated_not_bsq [OF Rejected(1,2) assms(7)] show ?thesis by simp
next
  case (Accepted ip s1 p outs outs' ty)
  let ?raws = "raw_tx_outputs raw"
  have po: "process_outputs s1 (start_output_parser ip, map from_raw_tx_output ?raws) = Inr (p, outs)"
    and acc: "0 \<le> accumulated_input_value ip" and fresh: "fresh_outputs s1 ?raws"
    and net: "network s1 = network s"
    using Accepted(1) same_but_ledger_sel [of s s1] by (auto simp: parsed_outputs_def)
  note re = retyped_candidates [OF parsed_outputs_inv [OF Accepted(1)] Accepted(2)]
  note re0 = retyped_candidates [OF parsed_outputs_inv [OF Accepted(1)] retyped_refl]
  have i: "i < length ?raws" using assms(6,7) by simp
  have bsq: "is_bsq_output (tx_outputs t ! k) \<longleftrightarrow> tmp_output_type (outs ! k) \<in> bsq_candidate_types"
    if "k < length ?raws" for k
    using Accepted(7) re(2) re(3) [OF that] re0(3) [OF that] that by (simp add: is_bsq_output_def)
  from process_outputs_bsq_prefix [OF po initial_start_parser [OF acc] fresh _ assms(6-8)]
  show ?thesis using assms(5,9) bsq i assms(7) net by simp
qed simp

text \<open>The special outputs stand at index 0.\<close>

lemma find_tx_body_special_first:
  assumes "find_tx_body raw s = Inr (s', Some t)" and "utxo_ok s" and "nonneg_ledger s"
    and "fresh_outputs s (raw_tx_outputs raw)" and "out \<in> set (tx_outputs t)"
    and "out_type out \<in> {BLIND_VOTE_LOCK_STAKE_OUTPUT, VOTE_REVEAL_UNLOCK_STAKE_OUTPUT, LOCKUP_OUTPUT, UNLOCK_OUTPUT}"
  shows "txo_index out = 0"
  using assms(1-4)
proof (cases rule: find_tx_body_cases)
  case (Rejected ip p outs outs' ty)
  with invalidated_outputs [OF parsed_outputs_inv [OF Rejected(1)] Rejected(2) refl] assms(5,6)
  show ?thesis by (auto simp: bsq_candidate_types_def)
next
  case (Accepted ip s1 p outs outs' ty)
  note re = retyped_candidates [OF parsed_outputs_inv [OF Accepted(1)] Accepted(2)]
  obtain i where "i < length (raw_tx_outputs raw)" "out = from_temp_output (outs' ! i)"
    using assms(5) Accepted(7) re(2) by (auto simp: in_set_conv_nth)
  with re(4) [of i] assms(6) show ?thesis by (auto simp: bsq_candidate_types_def)
qed simp

section \<open>Lockup and unlock\<close>

text \<open>Induction over the outputs of a transaction, after the OP_RETURN output is read.\<close>

lemma process_outputs_induct [consumes 3, case_names start step]:
  assumes "process_outputs s (p, map from_raw_tx_output raws) = Inr st"
    and "initial_parser a p" and "fresh_outputs s raws"
    and "\<And>q outs. outputs_inv a raws 0 (q, outs) \<Longrightarrow> initial_parser a q \<Longrightarrow>
      q = p \<and> outs = map from_raw_tx_output raws \<or>
      process_op_return_output (length raws - 1) (p, map from_raw_tx_output raws) = Inr (q, outs) \<Longrightarrow>
      P (q, outs)"
    and "\<And>k u v. output_step (network s) k u v \<Longrightarrow> outputs_inv a raws k u \<Longrightarrow> k < length raws \<Longrightarrow>
      P u \<Longrightarrow> P v"
  shows "P st"
proof -
  let ?outs = "map from_raw_tx_output raws" let ?n = "length raws"
  note inv0 = initial_outputs_inv [OF assms(2), of raws]
  have loop: "outputs_inv a raws m st' \<and> P st'"
    if "fold_res (process_tx_output s) [0..<m] st0 = Inr st'" "outputs_inv a raws 0 st0" "P st0" "m \<le> ?n"
    for m st0 st'
    using that(1)
  proof (induction rule: fold_res_upt)
    case (step k u v)
    then have "process_tx_output s k u = Inr v" "outputs_inv a raws k u" "k < ?n" "P u"
      using that(4) by auto
    with process_tx_output_inv [OF this(1,2) assms(3) this(3)] assms(5) show ?case by blast
  qed (use that in simp)
  show ?thesis
  proof (cases "is_op_return_output (?outs ! (?n - 1))")
    case True
    with assms(1) obtain st0 where op: "process_op_return_output (?n - 1) (p, ?outs) = Inr st0"
      and f: "fold_res (process_tx_output s) [0..<?n - 1] st0 = Inr st" and n: "?n \<noteq> 0"
      by (auto simp: process_outputs_def Let_def split: if_splits)
    obtain q outs where st0: "st0 = (q, outs)" by (cases st0)
    note pop = process_op_return_output_inv [OF op [unfolded st0] inv0 assms(2)]
    have "P (q, outs)" using pop n op by (intro assms(4)) (auto simp: st0)
    with loop [OF f] pop n show ?thesis by (simp add: st0)
  next
    case False
    with assms(1) have f: "fold_res (process_tx_output s) [0..<?n] (p, ?outs) = Inr st"
      by (simp add: process_outputs_def Let_def split: if_splits)
    show ?thesis using loop [OF f inv0] assms(4) [OF inv0 assms(2)] by simp
  qed
qed

text \<open>The references and the two special types fit the spent lockup and the OP_RETURN lock time.\<close>

definition bond_output :: "tx_output option \<Rightarrow> int \<Rightarrow> temp_tx_output \<Rightarrow> bool" where
  "bond_output lockup h out \<longleftrightarrow>
     (tmp_output_type out = UNLOCK_OUTPUT \<longrightarrow> tmp_unlock_block_height out = h \<and>
        (\<exists>l. lockup = Some l \<and> txo_value l = txo_value out)) \<and>
     (tmp_output_type out = LOCKUP_OUTPUT \<longrightarrow> is_lock_time_in_valid_range (tmp_lock_time out))"

definition bond_outputs :: "tx_output option \<Rightarrow> int \<Rightarrow> parse_state \<Rightarrow> bool" where
  "bond_outputs lockup h st =
     (case st of (p, outs) \<Rightarrow>
        top_spent_lockup_tx_output p = lockup \<and> top_unlock_block_height p = h \<and>
        (optional_op_return_type p = Some OpR_LOCKUP \<longrightarrow> is_lock_time_in_valid_range (top_lock_time p)) \<and>
        list_all (bond_output lockup h) outs)"

lemma bond_outputs_update:
  "list_all (bond_output lockup h) outs \<Longrightarrow> bond_output lockup h x \<Longrightarrow>
     list_all (bond_output lockup h) (outs[k := x])"
  using set_update_subset_insert [of outs k x] by (auto simp: list_all_iff)

lemma bond_output_nth: "list_all (bond_output lockup h) outs \<Longrightarrow> k < length outs \<Longrightarrow> bond_output lockup h (outs ! k)"
  by (simp add: list_all_length)

lemma output_step_bond_outputs:
  assumes "output_step n k st st'" and "bond_outputs lockup h st"
  shows "bond_outputs lockup h st'"
proof -
  obtain p outs where st: "st = (p, outs)" by (cases st)
  note bo = assms(2) [unfolded bond_outputs_def st prod.case]
  from assms(1) [unfolded st] show ?thesis
  proof (cases rule: output_step.cases)
    case unlock
    then have "bond_output lockup h ((outs ! k)\<lparr>tmp_output_type := UNLOCK_OUTPUT,
        tmp_unlock_block_height := h\<rparr>)"
      using bo by (auto simp: bond_output_def is_unlock_bond_tx_def split: option.splits)
    with unlock bo show ?thesis
      by (auto simp: bond_outputs_def handle_unlock_bond_tx_def dest: bond_outputs_update split: option.splits)
  next
    case bsq
    have "bond_output lockup h ((outs ! k)\<lparr>tmp_output_type := ty\<rparr>)"
      if "ty \<in> {BLIND_VOTE_LOCK_STAKE_OUTPUT, VOTE_REVEAL_UNLOCK_STAKE_OUTPUT, BSQ_OUTPUT}" for ty
      using that by (auto simp: bond_output_def)
    moreover have "bond_output lockup h ((outs ! k)\<lparr>tmp_lock_time := top_lock_time p, tmp_output_type := LOCKUP_OUTPUT\<rparr>)"
      if "optional_op_return_type p = Some OpR_LOCKUP" using bo that by (simp add: bond_output_def)
    ultimately show ?thesis using bo
      unfolding bsq(1) by (simp add: bond_outputs_def handle_bsq_output_def Let_def bond_outputs_update)
  next
    case invalid
    then show ?thesis using bo
      by (simp add: bond_outputs_def set_output_type_def bond_outputs_update bond_output_def)
  next
    case btc
    then show ?thesis using bo
      by (simp add: bond_outputs_def set_output_type_def bond_outputs_update bond_output_def)
  next
    case issuance
    then show ?thesis using bo by (simp add: bond_outputs_def handle_issuance_candidate_output_def)
  qed
qed

lemma process_op_return_output_cases:
  assumes "process_op_return_output i (p, outs) = Inr (q, outs')"
  obtains d ty where "txo_op_return_data (outs ! i) = Some d" "get_tx_output_type (outs ! i) = Inr ty"
    "outs' = set_output_type i ty outs"
    "top_spent_lockup_tx_output q = top_spent_lockup_tx_output p"
    "top_unlock_block_height q = top_unlock_block_height p"
    "optional_op_return_type q = get_mapped_op_return_type ty"
    "get_mapped_op_return_type ty = Some OpR_LOCKUP \<longrightarrow> top_lock_time q = get_lock_time d"
proof -
  obtain d where d: "txo_op_return_data (outs ! i) = Some d"
    using assms by (auto simp: process_op_return_output_def split: option.splits)
  obtain ty where ty: "get_tx_output_type (outs ! i) = Inr ty"
    using assms by (auto simp: process_op_return_output_def split: option.splits)
  show thesis
    by (rule that [OF d ty])
      (use assms in \<open>auto simp: process_op_return_output_def d ty Let_def split: if_splits\<close>)
qed

lemma bond_outputs_start:
  assumes "initial_parser a p" and "\<And>ort. optional_op_return_type p \<noteq> Some ort"
    and "q = p \<and> outs = map from_raw_tx_output raws \<or>
      process_op_return_output (length raws - 1) (p, map from_raw_tx_output raws) = Inr (q, outs)"
  shows "bond_outputs (top_spent_lockup_tx_output p) (top_unlock_block_height p) (q, outs)"
  using assms(3)
proof
  assume "q = p \<and> outs = map from_raw_tx_output raws"
  then show ?thesis using assms(2) by (auto simp: bond_outputs_def bond_output_def list_all_iff)
next
  let ?outs = "map from_raw_tx_output raws" let ?i = "length raws - 1"
  assume op: "process_op_return_output ?i (p, ?outs) = Inr (q, outs)"
  then obtain d ty where d: "txo_op_return_data (?outs ! ?i) = Some d"
    and ty: "get_tx_output_type (?outs ! ?i) = Inr ty" and outs: "outs = set_output_type ?i ty ?outs"
    and q: "top_spent_lockup_tx_output q = top_spent_lockup_tx_output p"
      "top_unlock_block_height q = top_unlock_block_height p"
      "optional_op_return_type q = get_mapped_op_return_type ty"
      "get_mapped_op_return_type ty = Some OpR_LOCKUP \<longrightarrow> top_lock_time q = get_lock_time d"
    by (rule process_op_return_output_cases)
  have "is_lock_time_in_valid_range (get_lock_time d)" if "get_mapped_op_return_type ty = Some OpR_LOCKUP"
    using ty d that
    by (auto simp: get_tx_output_type_def op_return_data_type_def split: option.splits if_splits
        op_return_type.splits)
  moreover have "list_all (bond_output l h) ?outs" for l h
    by (simp add: list_all_iff bond_output_def)
  moreover have "bond_output l h ((?outs ! ?i)\<lparr>tmp_output_type := ty\<rparr>)" for l h
    using op_return_no_candidate [OF ty] by (auto simp: bond_output_def bsq_candidate_types_def)
  ultimately show ?thesis
    using q by (simp add: bond_outputs_def outs set_output_type_def bond_outputs_update)
qed

lemma process_inputs_lockup:
  assumes "process_inputs raw (new_tx_input_parser, s) = Inr (ip, s1)" and "utxo_ok s"
    and "tip_spent_lockup_tx_output ip = Some l"
  shows "out_type l = LOCKUP_OUTPUT \<and> get_unspent_tx_output s (get_key l) = Some l \<and>
     get_key l \<in> set (map get_connected_tx_output_key (tx_inputs raw)) \<and>
     tip_unlock_block_height ip = tx_block_height raw + out_lock_time l"
proof -
  let ?ok = "\<lambda>q. \<forall>l. tip_spent_lockup_tx_output q = Some l \<longrightarrow>
     out_type l = LOCKUP_OUTPUT \<and> get_unspent_tx_output s (get_key l) = Some l \<and>
     get_key l \<in> set (map get_connected_tx_output_key (tx_inputs raw)) \<and>
     tip_unlock_block_height q = tx_block_height raw + out_lock_time l"
  let ?P = "\<lambda>(q, t). utxo_ok t \<and>
     (\<forall>k. get_unspent_tx_output t k = get_unspent_tx_output s k \<or> get_unspent_tx_output t k = None) \<and> ?ok q"
  have "?P (ip, s1)"
    using assms(1) unfolding process_inputs_def
  proof (induction rule: fold_res_inv)
    case init
    show ?case using assms(2) by (simp add: new_tx_input_parser_def)
  next
    case (step x u v)
    obtain n inp q t q' t' where x: "x = (n, inp)" "u = (q, t)" "v = (q', t')" by (metis surj_pair)
    let ?k = "get_connected_tx_output_key inp"
    from step have pr: "process ?k (tx_block_height raw) (tx_id raw) n (q, t) = Inr (q', t')"
      and inp: "inp \<in> set (tx_inputs raw)" by (auto simp: x dest: set_enumerate_from)
    from step have P: "?P (q, t)" by (simp add: x)
    have "?ok q'"
      using pr
    proof (cases rule: process_cases)
      case (Spent out u')
      have "get_unspent_tx_output s ?k = Some out" "get_key out = ?k"
        using Spent(2) P by (auto simp: utxo_ok_def utxo_keyed_def get_unspent_tx_output_def dest!: spec [of _ ?k])
      with P inp show ?thesis unfolding Spent(3) by (auto simp: input_parser_step_def Let_def)
    qed (use P in simp)
    moreover have "\<forall>k. get_unspent_tx_output t' k = get_unspent_tx_output s k \<or> get_unspent_tx_output t' k = None"
      using process_spec [OF pr] P by (auto split: if_splits)
    ultimately show ?case using process_spec [OF pr] P by (simp add: x)
  qed
  with assms(3) show ?thesis by auto
qed

definition valid_bond :: "'a dao_service_scheme \<Rightarrow> raw_tx \<Rightarrow> tx_output \<Rightarrow> bool" where
  "valid_bond s raw out \<longleftrightarrow>
     (out_type out = LOCKUP_OUTPUT \<longrightarrow> is_lock_time_in_valid_range (out_lock_time out)) \<and>
     (out_type out = UNLOCK_OUTPUT \<longrightarrow>
        (\<exists>l. get_unspent_tx_output s (get_key l) = Some l \<and> out_type l = LOCKUP_OUTPUT \<and>
           get_key l \<in> set (map get_connected_tx_output_key (tx_inputs raw)) \<and>
           txo_value l = txo_value out \<and>
           out_unlock_block_height out = tx_block_height raw + out_lock_time l))"

lemma parsed_bonds:
  assumes "parsed_outputs raw s ip s1 (p, outs)" and "retyped p outs outs'" and "utxo_ok s"
    and "out \<in> set outs'"
  shows "valid_bond s raw (from_temp_output out)"
proof -
  let ?raws = "raw_tx_outputs raw"
  have po: "process_outputs s1 (start_output_parser ip, map from_raw_tx_output ?raws) = Inr (p, outs)"
    and acc: "0 \<le> accumulated_input_value ip" and fresh: "fresh_outputs s1 ?raws"
    and pi: "process_inputs raw (new_tx_input_parser, s) = Inr (ip, s1)"
    using assms(1) by (auto simp: parsed_outputs_def)
  have "bond_outputs (tip_spent_lockup_tx_output ip) (tip_unlock_block_height ip) (p, outs)"
    using po initial_start_parser [OF acc] fresh
  proof (induction rule: process_outputs_induct)
    case (start q outs)
    then show ?case
      using bond_outputs_start [OF initial_start_parser [OF acc], of q outs ?raws]
      by (simp add: start_output_parser_def new_tx_output_parser_def)
  next
    case (step k u v)
    then show ?case using output_step_bond_outputs by blast
  qed
  then have all: "list_all (bond_output (tip_spent_lockup_tx_output ip) (tip_unlock_block_height ip)) outs"
    by (simp add: bond_outputs_def)
  obtain i where i: "i < length outs'" "out = outs' ! i" using assms(4) by (auto simp: in_set_conv_nth)
  have len: "length outs' = length outs"
    using retyped_candidates(2) [OF parsed_outputs_inv [OF assms(1)]] assms(2) retyped_refl by metis
  have raws: "map raw_part outs' = map raw_part outs" using assms(2) by (simp add: retyped_def)
  have val: "txo_value out = txo_value (outs ! i)"
    using i len raws by (metis nth_map raw_part_sel(1))
  have ty: "tmp_output_type (outs ! i) = tmp_output_type out \<and>
      tmp_lock_time (outs ! i) = tmp_lock_time out \<and>
      tmp_unlock_block_height (outs ! i) = tmp_unlock_block_height out"
    if "tmp_output_type out \<in> {LOCKUP_OUTPUT, UNLOCK_OUTPUT}"
    using assms(2) i len that by (auto simp: retyped_def)
  from bond_output_nth [OF all] i len have "bond_output (tip_spent_lockup_tx_output ip)
      (tip_unlock_block_height ip) (outs ! i)" by simp
  then show ?thesis
    using ty val process_inputs_lockup [OF pi assms(3)]
    by (auto simp: valid_bond_def bond_output_def)
qed

lemma find_tx_body_bonds:
  assumes "find_tx_body raw s = Inr (s', Some t)" and "utxo_ok s" and "nonneg_ledger s"
    and "fresh_outputs s (raw_tx_outputs raw)" and "out \<in> set (tx_outputs t)"
  shows "valid_bond s raw out"
  using assms(1-4)
proof (cases rule: find_tx_body_cases)
  case (Rejected ip p outs outs' ty)
  with invalidated_outputs [OF parsed_outputs_inv [OF Rejected(1)] Rejected(2) refl] assms(5)
  show ?thesis by (auto simp: valid_bond_def bsq_candidate_types_def)
next
  case (Accepted ip s1 p outs outs' ty)
  with parsed_bonds [OF Accepted(1,2) assms(2)] assms(5) show ?thesis by auto
qed simp

section \<open>The inputs\<close>

lemma enumerate_from_nth: "(i, x) \<in> set (enumerate_from n xs) \<Longrightarrow> n \<le> i \<and> i < n + length xs \<and> xs ! (i - n) = x"
  by (auto simp: enumerate_from_def in_set_zip)

lemma is_confiscated_same:
  assumes "same_but_ledger s t" and "get_unspent_tx_output t k = get_unspent_tx_output s k"
  shows "is_confiscated_output t k = is_confiscated_output s k"
proof -
  have g: "get_tx t = get_tx s" and c: "is_confiscated_lockup_tx_output t = is_confiscated_lockup_tx_output s"
    using same_but_ledger_sel [OF assms(1)]
    by (simp_all add: fun_eq_iff get_tx_def is_confiscated_lockup_tx_output_def)
  show ?thesis
    unfolding is_confiscated_output_def is_lockup_output_def is_unspent_unlock_output_def
      is_confiscated_unlock_tx_output_def get_lockup_tx_from_unlock_tx_id_def g c assms(2) by (rule refl)
qed

text \<open>Each key: untouched, or spent by an input of this transaction that the spent info names.\<close>

definition spent_by :: "raw_tx \<Rightarrow> 'a dao_state_scheme \<Rightarrow> tx_output_key \<Rightarrow> bool" where
  "spent_by raw t k \<longleftrightarrow>
     (\<exists>n < length (tx_inputs raw). get_connected_tx_output_key (tx_inputs raw ! n) = k \<and>
        spent_info_map t k = Some \<lparr>si_block_height = tx_block_height raw, si_tx_id = tx_id raw,
                                   si_input_index = int n\<rparr>)"

definition inputs_account :: "raw_tx \<Rightarrow> 'a dao_service_scheme \<Rightarrow> 'a dao_service_scheme \<Rightarrow> bool" where
  "inputs_account raw s t \<longleftrightarrow> utxo_ok t \<and> same_but_ledger s t \<and>
     (\<forall>k. get_unspent_tx_output t k = get_unspent_tx_output s k \<and> spent_info_map t k = spent_info_map s k \<or>
        get_unspent_tx_output s k \<noteq> None \<and> get_unspent_tx_output t k = None \<and>
        is_confiscated_output s k = Inr False \<and> spent_by raw t k)"

lemma process_account:
  assumes "process k (tx_block_height raw) (tx_id raw) n (q, t) = Inr (q', t')"
    and "inputs_account raw s t" and "n < length (tx_inputs raw)"
    and "get_connected_tx_output_key (tx_inputs raw ! n) = k"
  shows "inputs_account raw s t' \<and>
     (get_unspent_tx_output t' k = None \<or> is_confiscated_output s k = Inr True)"
  using assms(1)
proof (cases rule: process_cases)
  case Skipped
  have ok: "same_but_ledger s t"
    "get_unspent_tx_output t k = get_unspent_tx_output s k \<or> get_unspent_tx_output t k = None"
    using assms(2) by (auto simp: inputs_account_def)
  with Skipped is_confiscated_same [OF ok(1)] assms(2) show ?thesis by metis
next
  case (Spent out u)
  let ?si = "\<lparr>si_block_height = tx_block_height raw, si_tx_id = tx_id raw, si_input_index = int n\<rparr>"
  have ok: "utxo_ok t" and same: "same_but_ledger s t" using assms(2) by (simp_all add: inputs_account_def)
  have k: "get_key out = k"
    using ok Spent(2) by (auto simp: utxo_ok_def utxo_keyed_def get_unspent_tx_output_def)
  have sk: "get_unspent_tx_output s k = Some out"
    using assms(2) Spent(2) by (auto simp: inputs_account_def dest!: spec [of _ k])
  have conf: "is_confiscated_output s k = Inr False"
    using is_confiscated_same [OF same] Spent(1,2) sk by simp
  have t': "get_unspent_tx_output t' = (get_unspent_tx_output t)(k := None)"
    "spent_info_map t' = (spent_info_map t)(k \<mapsto> ?si)"
    using Spent(4,5) k by (auto simp: mutator_defs get_unspent_tx_output_def fun_eq_iff)
  have "utxo_ok t'" "same_but_ledger t t'"
    using process_spec [OF assms(1) ok] by simp_all
  then show ?thesis
    using assms(2-4) same t' sk conf
    by (auto simp: inputs_account_def spent_by_def dest: same_but_ledger_trans)
qed

lemma process_inputs_account:
  assumes "process_inputs raw (new_tx_input_parser, s) = Inr (ip, s1)" and "utxo_ok s"
  shows "inputs_account raw s s1 \<and>
     (\<forall>inp \<in> set (tx_inputs raw).
        get_unspent_tx_output s1 (get_connected_tx_output_key inp) = None \<or>
        is_confiscated_output s (get_connected_tx_output_key inp) = Inr True)"
proof -
  let ?f = "\<lambda>(n, inp). process (get_connected_tx_output_key inp) (tx_block_height raw) (tx_id raw) n"
  have gen: "inputs_account raw s v \<and>
      (\<forall>k. get_unspent_tx_output u k = None \<longrightarrow> get_unspent_tx_output v k = None) \<and>
      (\<forall>(n, inp) \<in> set xs. get_unspent_tx_output v (get_connected_tx_output_key inp) = None \<or>
        is_confiscated_output s (get_connected_tx_output_key inp) = Inr True)"
    if "fold_res ?f xs (q, u) = Inr (q', v)" "inputs_account raw s u"
      "\<forall>(n, inp) \<in> set xs. n < length (tx_inputs raw) \<and> tx_inputs raw ! n = inp" for xs q u q' v
    using that
  proof (induction xs arbitrary: q u)
    case (Cons x xs)
    obtain n inp where x: "x = (n, inp)" by (cases x)
    from Cons.prems(1) obtain q1 u1 where
      1: "process (get_connected_tx_output_key inp) (tx_block_height raw) (tx_id raw) n (q, u) = Inr (q1, u1)"
      and 2: "fold_res ?f xs (q1, u1) = Inr (q', v)" by (auto simp: x)
    have pa: "inputs_account raw s u1 \<and> (get_unspent_tx_output u1 (get_connected_tx_output_key inp) = None \<or>
        is_confiscated_output s (get_connected_tx_output_key inp) = Inr True)"
      by (rule process_account [OF 1 Cons.prems(2)]) (use Cons.prems(3) in \<open>auto simp: x\<close>)
    have mono: "get_unspent_tx_output u1 k = None" if "get_unspent_tx_output u k = None" for k
      using process_spec [OF 1] Cons.prems(2) that by (auto simp: inputs_account_def split: if_splits)
    from Cons.IH [OF 2] pa Cons.prems(3) mono show ?case by (auto simp: x)
  qed simp
  have "inputs_account raw s s" using assms(2) by (simp add: inputs_account_def)
  moreover have "\<forall>(n, inp) \<in> set (enumerate_from 0 (tx_inputs raw)). n < length (tx_inputs raw) \<and> tx_inputs raw ! n = inp"
    using enumerate_from_nth [of _ _ 0 "tx_inputs raw"] by fastforce
  moreover have "\<exists>n. (n, inp) \<in> set (enumerate_from 0 (tx_inputs raw))" if "inp \<in> set (tx_inputs raw)" for inp
    using that by (force simp: enumerate_from_def in_set_conv_nth set_zip)
  ultimately show ?thesis
    using gen [OF assms(1) [unfolded process_inputs_def]] by fastforce
qed

end
