(* ===== verification/Dao_Caches.thy ===== *)
theory Dao_Caches
  imports Dao_Bond
begin

text \<open>
  The indices of \<open>DaoState\<close>: \<open>tx_cache\<close>, \<open>blocks_by_height\<close> and the outputs by type are kept
  beside the list of blocks.  \<open>caches_ok\<close> says that each of them is the function of the blocks
  it stands for; the constructor, the snapshot and the parser events keep it, so that the
  queries of the service answer as a search of the chain would.
\<close>

section \<open>The invariant\<close>

definition all_txs :: "'a dao_state_scheme \<Rightarrow> tx list" where
  "all_txs s = concat (map blk_txs (blocks s))"

definition cache_of :: "tx list \<Rightarrow> (string \<times> tx) list" where
  "cache_of ts = map (\<lambda>t. (tx_id t, t)) ts"

definition outputs_of_type :: "tx list \<Rightarrow> tx_output_type \<Rightarrow> tx_output set" where
  "outputs_of_type ts ty = {out \<in> set (concat (map tx_outputs ts)). out_type out = ty}"

definition height_index :: "block list \<Rightarrow> int \<Rightarrow> nat option" where
  "height_index bs h = find (\<lambda>i. blk_height (bs ! i) = h) [0..<length bs]"

definition caches_ok :: "'a dao_state_scheme \<Rightarrow> bool" where
  "caches_ok s \<longleftrightarrow>
     distinct (map tx_id (all_txs s)) \<and> distinct (map blk_height (blocks s)) \<and>
     tx_cache s = cache_of (all_txs s) \<and>
     blocks_by_height s = height_index (blocks s) \<and>
     (\<forall>ty. get_tx_output_by_tx_output_type s ty = outputs_of_type (all_txs s) ty)"

section \<open>The queries search the chain\<close>

lemma map_of_cache_of: "map_of (cache_of ts) i = find (\<lambda>t. tx_id t = i) ts"
  by (induction ts) (auto simp: cache_of_def)

lemma get_tx_searches_chain:
  "caches_ok s \<Longrightarrow> get_tx s i = find (\<lambda>t. tx_id t = i) (all_txs s)"
  by (simp add: caches_ok_def get_tx_def map_of_cache_of)

lemma find_map: "find p (map f xs) = map_option f (find (\<lambda>x. p (f x)) xs)"
  by (induction xs) auto

lemma find_nth:
  "map_option ((!) xs) (find (\<lambda>i. p (xs ! i)) [0..<length xs]) = find p xs"
proof (induction xs)
  case (Cons x xs)
  have "[0..<length (x # xs)] = 0 # map Suc [0..<length xs]"
    by (simp add: upt_conv_Cons map_Suc_upt del: upt_Suc)
  with Cons show ?case by (simp add: find_map option.map_comp comp_def del: upt_Suc)
qed simp

lemma get_block_at_height_searches_chain:
  "caches_ok s \<Longrightarrow> get_block_at_height s h = find (\<lambda>b. blk_height b = h) (blocks s)"
  by (simp add: caches_ok_def get_block_at_height_def height_index_def
      find_nth [of "blocks s" "\<lambda>b. blk_height b = h"])

section \<open>Keeping it\<close>

lemma index_tx_output_get:
  "(case index_tx_output out m ty of Some S \<Rightarrow> S | None \<Rightarrow> {}) =
     (case m ty of Some S \<Rightarrow> S | None \<Rightarrow> {}) \<union> (if out_type out = ty then {out} else {})"
  by (auto simp: index_tx_output_def Let_def split: option.splits)

lemma fold_index_tx_output:
  "(case fold index_tx_output outs m ty of Some S \<Rightarrow> S | None \<Rightarrow> {}) =
     (case m ty of Some S \<Rightarrow> S | None \<Rightarrow> {}) \<union> {out \<in> set outs. out_type out = ty}"
  by (induction outs arbitrary: m) (auto simp: index_tx_output_get)

lemma add_outputs_get:
  "get_tx_output_by_tx_output_type (add_to_tx_outputs_by_type t s) ty =
     get_tx_output_by_tx_output_type s ty \<union> {out \<in> set (tx_outputs t). out_type out = ty}"
  by (simp add: get_tx_output_by_tx_output_type_def add_to_tx_outputs_by_type_def fold_index_tx_output)

lemma add_outputs_sel [simp]:
  "blocks (add_to_tx_outputs_by_type t s) = blocks s"
  "tx_cache (add_to_tx_outputs_by_type t s) = tx_cache s"
  "blocks_by_height (add_to_tx_outputs_by_type t s) = blocks_by_height s"
  "add_to_tx_outputs_by_type t (s\<lparr>tx_cache := c\<rparr>) = (add_to_tx_outputs_by_type t s)\<lparr>tx_cache := c\<rparr>"
  by (simp_all add: add_to_tx_outputs_by_type_def)

lemma setdefault_cache_of:
  "tx_id t \<notin> set (map tx_id ts) \<Longrightarrow> al_setdefault (tx_id t) t (cache_of ts) = cache_of (ts @ [t])"
proof -
  assume "tx_id t \<notin> set (map tx_id ts)"
  then have "map_of (cache_of ts) (tx_id t) = None" by (auto simp: map_of_cache_of find_None_iff) (metis image_eqI)
  then show ?thesis by (simp add: al_setdefault_def cache_of_def)
qed

lemma height_index_append:
  "blk_height b \<notin> set (map blk_height bs) \<Longrightarrow>
     height_index (bs @ [b]) = (height_index bs)(blk_height b \<mapsto> length bs)"
proof
  fix h
  assume new: "blk_height b \<notin> set (map blk_height bs)"
  have app: "find q (ys @ zs) = (case find q ys of Some y \<Rightarrow> Some y | None \<Rightarrow> find q zs)"
    for q and ys zs :: "nat list" by (induction ys) auto
  have cong: "find (\<lambda>i. blk_height ((bs @ [b]) ! i) = h) [0..<length bs] = height_index bs h"
    unfolding height_index_def by (rule find_cong) (auto simp: nth_append)
  have "height_index bs (blk_height b) = None"
    using new by (auto simp: height_index_def find_None_iff) (metis image_eqI nth_mem)
  then show "height_index (bs @ [b]) h = ((height_index bs)(blk_height b \<mapsto> length bs)) h"
    using cong by (auto simp: height_index_def app split: option.splits)
qed

lemma height_index_heights_only:
  "map blk_height bs = map blk_height bs' \<Longrightarrow> height_index bs = height_index bs'"
proof -
  assume h: "map blk_height bs = map blk_height bs'"
  then have "length bs = length bs'" by (metis length_map)
  moreover from this h have "blk_height (bs ! i) = blk_height (bs' ! i)" if "i < length bs" for i
    using that by (metis nth_map)
  ultimately show ?thesis unfolding height_index_def
    by (intro ext find_cong) simp_all
qed

lemma on_new_block_caches:
  assumes "on_new_block_with_empty_txs b s = Inr (s', r)" and "caches_ok s" and "blk_txs b = []"
    and "blk_height b \<notin> set (map blk_height (blocks s))"
  shows "caches_ok s'"
proof -
  have "caches_ok (add_block b s)"
    using assms(2-4) height_index_append [of b "blocks s"]
    by (simp add: caches_ok_def add_block_def all_txs_def get_tx_output_by_tx_output_type_def)
  with assms(1,2) show ?thesis
    by (auto simp: on_new_block_with_empty_txs_def split: if_splits)
qed

lemma all_txs_add_last:
  "blocks s \<noteq> [] \<Longrightarrow>
     all_txs (s\<lparr>blocks := (blocks s)[length (blocks s) - 1 := add_tx t (last (blocks s))]\<rparr>) = all_txs s @ [t]"
  by (cases "blocks s" rule: rev_cases) (simp_all add: all_txs_def add_tx_def)

lemma on_new_tx_caches:
  assumes "on_new_tx_for_last_block r t s = Inr s'" and "caches_ok s"
    and "tx_id t \<notin> set (map tx_id (all_txs s))"
  shows "caches_ok s'"
proof (cases "blocks s \<noteq> [] \<and> r = In_Chain (length (blocks s) - 1)")
  case True
  let ?bs = "(blocks s)[length (blocks s) - 1 := add_tx t (last (blocks s))]"
  let ?u = "s\<lparr>blocks := ?bs\<rparr>"
  have s': "s' = add_to_tx_cache t ?u"
    using assms(1) True by (auto simp: on_new_tx_for_last_block_def split: if_splits)
  have txs: "all_txs ?u = all_txs s @ [t]" using True all_txs_add_last by blast
  have heights: "map blk_height ?bs = map blk_height (blocks s)"
    using True by (cases "blocks s" rule: rev_cases) (simp_all add: add_tx_def)
  have "get_tx_output_by_tx_output_type ?u ty = outputs_of_type (all_txs s) ty" for ty
    using assms(2) by (simp add: caches_ok_def get_tx_output_by_tx_output_type_def)
  then have "get_tx_output_by_tx_output_type s' ty = outputs_of_type (all_txs s @ [t]) ty" for ty
    using add_outputs_get [of t ?u ty]
    by (auto simp: s' add_to_tx_cache_def outputs_of_type_def get_tx_output_by_tx_output_type_def)
  moreover have "tx_cache s' = cache_of (all_txs s @ [t])"
    using assms(2,3) setdefault_cache_of [of t "all_txs s"]
    by (simp add: s' add_to_tx_cache_def caches_ok_def)
  moreover have "all_txs s' = all_txs s @ [t]"
    using txs by (simp add: s' add_to_tx_cache_def all_txs_def)
  ultimately show ?thesis
    using assms(2,3) heights height_index_heights_only [OF heights]
    by (simp add: caches_ok_def s' add_to_tx_cache_def)
next
  case False
  with assms(1,2) show ?thesis by (auto simp: on_new_tx_for_last_block_def)
qed

section \<open>The constructor and snapshots\<close>

lemma fold_outputs_get:
  "get_tx_output_by_tx_output_type (fold (\<lambda>(i, t). add_to_tx_outputs_by_type t) cache s) ty =
     get_tx_output_by_tx_output_type s ty \<union> outputs_of_type (map snd cache) ty"
  by (induction cache arbitrary: s) (auto simp: add_outputs_get outputs_of_type_def)

lemma fold_outputs_sel [simp]:
  "blocks (fold (\<lambda>(i, t). add_to_tx_outputs_by_type t) cache s) = blocks s"
  "tx_cache (fold (\<lambda>(i, t). add_to_tx_outputs_by_type t) cache s) = tx_cache s"
  "blocks_by_height (fold (\<lambda>(i, t). add_to_tx_outputs_by_type t) cache s) = blocks_by_height s"
  by (induction cache arbitrary: s) auto

lemma add_block_sel [simp]:
  "blocks (add_block b s) = blocks s @ [b]" "tx_cache (add_block b s) = tx_cache s"
  "tx_outputs_by_type (add_block b s) = tx_outputs_by_type s"
  by (simp_all add: add_block_def)

lemma fold_add_block:
  "distinct (map blk_height (blocks s @ bs)) \<Longrightarrow> blocks_by_height s = height_index (blocks s) \<Longrightarrow>
     blocks (fold add_block bs s) = blocks s @ bs \<and>
     blocks_by_height (fold add_block bs s) = height_index (blocks s @ bs) \<and>
     tx_cache (fold add_block bs s) = tx_cache s \<and>
     tx_outputs_by_type (fold add_block bs s) = tx_outputs_by_type s"
proof (induction bs arbitrary: s)
  case (Cons b bs)
  have "blk_height b \<notin> set (map blk_height (blocks s))" using Cons.prems(1) by auto
  then have "blocks_by_height (add_block b s) = height_index (blocks s @ [b])"
    using Cons.prems(2) by (simp add: add_block_def height_index_append)
  with Cons.IH [of "add_block b s"] Cons.prems(1) show ?case by simp
qed simp

lemma clear_and_set_blocks_sel:
  assumes "distinct (map blk_height bs)"
  shows "blocks (clear_and_set_blocks bs s) = bs"
    and "blocks_by_height (clear_and_set_blocks bs s) = height_index bs"
    and "tx_cache (clear_and_set_blocks bs s) = tx_cache s"
    and "tx_outputs_by_type (clear_and_set_blocks bs s) = tx_outputs_by_type s"
  using fold_add_block [of "s\<lparr>blocks := [], blocks_by_height := Map.empty\<rparr>" bs] assms
  by (simp_all add: clear_and_set_blocks_def height_index_def fun_eq_iff)

lemma apply_snapshot_caches:
  assumes "apply_snapshot snapshot s = Inr s'" and "caches_ok snapshot"
  shows "caches_ok s'"
proof -
  let ?c = "set_tx_cache (tx_cache snapshot)
      (s\<lparr>allow_dao_state_change := True, chain_height := chain_height snapshot\<rparr>)"
  have h: "distinct (map blk_height (blocks snapshot))" using assms(2) by (simp add: caches_ok_def)
  note sel = clear_and_set_blocks_sel [OF h, of ?c]
  have snd: "map snd (cache_of ts) = ts" for ts by (simp add: cache_of_def comp_def)
  have s': "blocks s' = blocks snapshot" "blocks_by_height s' = height_index (blocks snapshot)"
    "tx_cache s' = tx_cache snapshot" "tx_outputs_by_type s' = tx_outputs_by_type ?c"
    using assms(1) sel by (auto simp: apply_snapshot_def set_tx_cache_def)
  have "get_tx_output_by_tx_output_type ?c ty = outputs_of_type (all_txs snapshot) ty" for ty
    using assms(2) snd
    by (simp add: set_tx_cache_def fold_outputs_get caches_ok_def get_tx_output_by_tx_output_type_def [of "_\<lparr>tx_outputs_by_type := _\<rparr>"])
  then have "get_tx_output_by_tx_output_type s' ty = outputs_of_type (all_txs snapshot) ty" for ty
    using s'(4) by (simp add: get_tx_output_by_tx_output_type_def)
  then show ?thesis
    using assms(2) s' by (simp add: caches_ok_def all_txs_def)
qed

lemma enumerate_from_snoc: "enumerate_from n (xs @ [x]) = enumerate_from n xs @ [(n + length xs, x)]"
  by (induction xs arbitrary: n) auto

lemma fold_height_index:
  "distinct (map blk_height bs) \<Longrightarrow>
     fold (\<lambda>(i, b) m. m(blk_height b \<mapsto> i)) (enumerate_from 0 bs) Map.empty = height_index bs"
proof (induction bs rule: rev_induct)
  case (snoc b bs)
  let ?f = "\<lambda>(i, b) m. m(blk_height b \<mapsto> i)"
  have "fold ?f (enumerate_from 0 (bs @ [b])) Map.empty =
      (fold ?f (enumerate_from 0 bs) Map.empty)(blk_height b \<mapsto> length bs)"
    by (simp add: enumerate_from_snoc)
  also have "\<dots> = (height_index bs)(blk_height b \<mapsto> length bs)"
    using snoc.IH snoc.prems by (subst snoc.IH) simp_all
  also have "\<dots> = height_index (bs @ [b])"
    using snoc.prems by (intro height_index_append [symmetric]) simp
  finally show ?case .
qed (simp add: height_index_def fun_eq_iff)

lemma fold_init_cache:
  assumes "distinct (map tx_id (us @ ts))" and "tx_cache s = cache_of us"
    and "\<And>ty. get_tx_output_by_tx_output_type s ty = outputs_of_type us ty"
  shows "tx_cache (fold (\<lambda>t u. (add_to_tx_outputs_by_type t u)\<lparr>tx_cache := AList.update (tx_id t) t (tx_cache u)\<rparr>) ts s) =
       cache_of (us @ ts) \<and>
     (\<forall>ty. get_tx_output_by_tx_output_type
        (fold (\<lambda>t u. (add_to_tx_outputs_by_type t u)\<lparr>tx_cache := AList.update (tx_id t) t (tx_cache u)\<rparr>) ts s) ty =
        outputs_of_type (us @ ts) ty) \<and>
     blocks (fold (\<lambda>t u. (add_to_tx_outputs_by_type t u)\<lparr>tx_cache := AList.update (tx_id t) t (tx_cache u)\<rparr>) ts s) = blocks s \<and>
     blocks_by_height (fold (\<lambda>t u. (add_to_tx_outputs_by_type t u)\<lparr>tx_cache := AList.update (tx_id t) t (tx_cache u)\<rparr>) ts s) =
        blocks_by_height s"
  using assms
proof (induction ts arbitrary: us s)
  case (Cons t ts)
  let ?u = "(add_to_tx_outputs_by_type t s)\<lparr>tx_cache := AList.update (tx_id t) t (tx_cache s)\<rparr>"
  have upd: "AList.update k v al = al @ [(k, v)]" if "k \<notin> fst ` set al" for k v and al :: "(string \<times> tx) list"
    using that by (induction al) auto
  have "tx_id t \<notin> fst ` set (cache_of us)" using Cons.prems(1) by (auto simp: cache_of_def)
  then have 1: "tx_cache ?u = cache_of (us @ [t])"
    using Cons.prems(2) upd by (simp add: cache_of_def)
  have 2: "get_tx_output_by_tx_output_type ?u ty = outputs_of_type (us @ [t]) ty" for ty
    using Cons.prems(3) [of ty] add_outputs_get [of t s ty]
    by (auto simp: get_tx_output_by_tx_output_type_def outputs_of_type_def)
  from Cons.IH [OF _ 1 2] Cons.prems(1) show ?case by simp
qed simp

lemma dao_state_init_caches:
  assumes "distinct (map tx_id (concat (map blk_txs bs)))" and "distinct (map blk_height bs)"
  shows "caches_ok (dao_state_init bs s)"
  using fold_init_cache [of "[]" "concat (map blk_txs bs)" "s\<lparr>blocks := bs,
          blocks_by_height := height_index bs, tx_cache := [], tx_outputs_by_type := Map.empty\<rparr>"] assms
  by (simp add: caches_ok_def dao_state_init_def fold_height_index all_txs_def cache_of_def
      outputs_of_type_def get_tx_output_by_tx_output_type_def)

lemma apply_snapshot_fields:
  assumes "apply_snapshot snapshot s = Inr s'" and "caches_ok snapshot"
  shows "blocks s' = blocks snapshot \<and> unspent_tx_output_map s' = unspent_tx_output_map snapshot \<and>
     cycles s' = cycles snapshot \<and> issuance_map s' = issuance_map snapshot \<and>
     param_change_list s' = param_change_list snapshot \<and> chain_height s' = chain_height snapshot"
proof -
  have h: "distinct (map blk_height (blocks snapshot))" using assms(2) by (simp add: caches_ok_def)
  have add: "chain_height (fold add_block bs t) = chain_height t"
    for bs and t :: "'x dao_service_scheme"
    by (induction bs arbitrary: t) (simp_all add: add_block_def)
  have outs: "chain_height (fold (\<lambda>(i, t). add_to_tx_outputs_by_type t) cache u) = chain_height u"
    for cache and u :: "'x dao_service_scheme"
    by (induction cache arbitrary: u) (auto simp: add_to_tx_outputs_by_type_def)
  show ?thesis
    using assms(1) clear_and_set_blocks_sel(1) [OF h]
    by (auto simp: apply_snapshot_def clear_and_set_blocks_def set_tx_cache_def add outs)
qed

end
