(* ===== verification/Block_Parser.thy ===== *)
theory Block_Parser
  imports Tx_Rules Dao_Caches "HOL-Library.Sublist"
begin

text \<open>
  \<open>BlockParser\<close> (\<open>dao/node/parser/block_parser.py\<close>): a raw block must connect to the chain, then
  its transactions are parsed in order and the BSQ transactions are added to the new block.  The
  lemmas lift the facts on single transactions to the loop over a block: the BSQ in circulation,
  the ledger and the caches.
\<close>

section \<open>Operations\<close>

definition validate_if_block_is_connecting :: "raw_block \<Rightarrow> 'a dao_state_scheme \<Rightarrow> unit res" where
  "validate_if_block_is_connecting raw s =
     (if blocks s = [] then Inr ()
      else if block_height_of_last_block s + 1 \<noteq> blk_height raw then Inl Block_Height_Not_Connecting
      else if Some (block_hash_of_last_block s) \<noteq> blk_previous_block_hash raw
      then Inl Block_Hash_Not_Connecting
      else Inr ())"

definition is_block_already_added :: "raw_block \<Rightarrow> 'a dao_state_scheme \<Rightarrow> bool" where
  "is_block_already_added raw s =
     (case get_block_at_height s (blk_height raw) of
        None \<Rightarrow> False | Some b \<Rightarrow> blk_hash b = blk_hash raw)"

text \<open>The body of the loop over \<open>raw_block.raw_txs\<close>.\<close>

definition parse_tx ::
  "block_ref \<Rightarrow> raw_tx \<Rightarrow> 'a dao_service_scheme \<Rightarrow> 'a dao_service_scheme res" where
  "parse_tx r raw s =
     rbind (find_tx raw (genesis_tx_id s) (genesis_block_height s) (genesis_total_supply s) s) (\<lambda>(s', ot).
       case ot of None \<Rightarrow> Inr s' | Some t \<Rightarrow> on_new_tx_for_last_block r t s')"

definition new_block :: "raw_block \<Rightarrow> block" where
  "new_block raw =
     \<lparr>blk_height = blk_height raw, blk_time = blk_time raw, blk_hash = blk_hash raw,
      blk_previous_block_hash = blk_previous_block_hash raw, blk_txs = []\<rparr>"

definition parse_block ::
  "bool \<Rightarrow> 'a dao_service_scheme dao_listeners \<Rightarrow> raw_block \<Rightarrow> 'a dao_service_scheme \<Rightarrow>
     ('a dao_service_scheme \<times> block_ref) res" where
  "parse_block dev_mode ls raw s =
     rbind (validate_if_block_is_connecting raw s) (\<lambda>_.
     rbind (on_new_block_height ls (blk_height raw) s) (\<lambda>s1.
     rbind (if is_block_already_added raw s1
            then (if dev_mode then Inl Runtime_Error else Inr (s1, Detached (new_block raw)))
            else on_new_block_with_empty_txs (new_block raw) s1) (\<lambda>(s2, r).
     rbind (fold_res (parse_tx r) (raw_txs raw) s2) (\<lambda>s3.
     rbind (on_parse_block_complete ls r s3) (\<lambda>s4. Inr (s4, r))))))"

section \<open>Connecting blocks\<close>

lemma connecting_iff:
  "validate_if_block_is_connecting raw s = Inr () \<longleftrightarrow>
     blocks s = [] \<or>
     blk_height raw = blk_height (last (blocks s)) + 1 \<and>
     blk_previous_block_hash raw = Some (blk_hash (last (blocks s)))"
  by (auto simp: validate_if_block_is_connecting_def block_height_of_last_block_def
      block_hash_of_last_block_def last_block_def)

lemma parse_block_not_connecting:
  assumes "blocks s \<noteq> []"
  shows "blk_height raw \<noteq> blk_height (last (blocks s)) + 1 \<Longrightarrow>
      parse_block dev ls raw s = Inl Block_Height_Not_Connecting"
    and "blk_height raw = blk_height (last (blocks s)) + 1 \<Longrightarrow>
      blk_previous_block_hash raw \<noteq> Some (blk_hash (last (blocks s))) \<Longrightarrow>
      parse_block dev ls raw s = Inl Block_Hash_Not_Connecting"
  using assms
  by (auto simp: parse_block_def validate_if_block_is_connecting_def block_height_of_last_block_def
      block_hash_of_last_block_def last_block_def)

section \<open>One transaction\<close>

lemma unspent_resultD:
  "unspent_result s s' t \<Longrightarrow> get_unspent_tx_output s' k = Some out \<Longrightarrow>
     get_unspent_tx_output s k = Some out \<or> out \<in> set (tx_outputs t) \<and> is_bsq_output out \<and> k = get_key out"
  unfolding unspent_result_def by blast

lemma find_tx_body_same:
  assumes "find_tx_body raw s = Inr (s', ot)" and "utxo_ok s" and "nonneg_ledger s" and "raw_tx_ok s raw"
  shows "same_but_ledger s s' \<and> nonneg_ledger s' \<and>
     (\<forall>k. get_unspent_tx_output s' k \<noteq> None \<longrightarrow>
        get_unspent_tx_output s k \<noteq> None \<or> k \<in> set (map get_key (raw_tx_outputs raw)))"
proof (cases ot)
  case None
  have fresh: "fresh_outputs s (raw_tx_outputs raw)" using assms(4) by (simp add: raw_tx_ok_def)
  from assms(1-3) fresh show ?thesis
  proof (cases rule: find_tx_body_cases)
    case (Ignored ip)
    note spec = process_inputs_spec [OF Ignored(1) assms(2)]
    have "get_unspent_tx_output s k = Some out" if "get_unspent_tx_output s' k = Some out" for k out
      using spec that by (metis option.distinct(1))
    with spec assms(3) show ?thesis by (auto simp: nonneg_ledger_def)
  qed (use None in simp_all)
next
  case (Some t)
  have un: "unspent_result s s' t" and raw: "raw_tx_from_tx t = raw"
    using find_tx_body_unspent find_tx_body_raw assms Some by blast+
  have key: "get_key (raw_output_from_tx_output out) = get_key out" for out
    by (simp add: get_key_def raw_output_from_tx_output_def)
  have outs: "raw_output_from_tx_output out \<in> set (raw_tx_outputs raw)" if "out \<in> set (tx_outputs t)" for out
    using that raw by (auto simp: raw_tx_from_tx_def)
  have val: "0 \<le> txo_value out" if "out \<in> set (tx_outputs t)" for out
    using outs [OF that] assms(4) by (auto simp: raw_tx_ok_def raw_output_from_tx_output_def)
  have "nonneg_ledger s'"
    using unspent_resultD [OF un] assms(3) val unfolding nonneg_ledger_def by blast
  moreover have "get_unspent_tx_output s k \<noteq> None \<or> k \<in> set (map get_key (raw_tx_outputs raw))"
    if "get_unspent_tx_output s' k \<noteq> None" for k
  proof -
    from that obtain out where "get_unspent_tx_output s' k = Some out" by blast
    from unspent_resultD [OF un this] show ?thesis using outs key by (force simp: image_iff)
  qed
  moreover have "same_but_ledger s s'"
  proof -
    have fresh: "fresh_outputs s (raw_tx_outputs raw)" using assms(4) by (simp add: raw_tx_ok_def)
    from assms(1-3) fresh show ?thesis
    proof (cases rule: find_tx_body_cases)
      case (Accepted ip s1 p outs outs' ty)
      with commit_retyped [OF Accepted(1,2) _ Accepted(6)] assms(4) show ?thesis
        by (auto simp: parsed_outputs_def raw_tx_ok_def dest: same_but_ledger_trans)
    qed (use Some in \<open>simp_all add: parsed_outputs_def\<close>)
  qed
  ultimately show ?thesis by blast
qed

lemma burnt_bond_nonneg: "utxo_ok s \<Longrightarrow> nonneg_ledger s \<Longrightarrow> 0 \<le> burnt_bond s raw"
  using process_inputs_nonneg(2) [of raw s] by (auto simp: burnt_bond_def split: sum.split)

text \<open>What a transaction takes out of circulation and what the genesis transaction puts in.\<close>

definition tx_lost :: "'a dao_service_scheme \<Rightarrow> raw_tx \<Rightarrow> tx option \<Rightarrow> int" where
  "tx_lost s raw ot =
     (case ot of
        None \<Rightarrow> 0
      | Some t \<Rightarrow> tx_burnt_bsq t + (if tx_tx_type t = Some INVALID then burnt_bond s raw else 0))"

definition minted :: "'a dao_service_scheme \<Rightarrow> raw_tx \<Rightarrow> int" where
  "minted s raw =
     (if is_genesis raw (genesis_tx_id s) (genesis_block_height s) then genesis_total_supply s else 0)"

definition ledger_ok :: "'a dao_service_scheme \<Rightarrow> bool" where
  "ledger_ok s \<longleftrightarrow> utxo_ok s \<and> nonneg_ledger s \<and> 0 \<le> genesis_total_supply s"

lemma find_tx_spec:
  assumes "find_tx raw (genesis_tx_id s) (genesis_block_height s) (genesis_total_supply s) s = Inr (s', ot)"
    and "ledger_ok s" and "raw_tx_ok s raw"
  shows "ledger_ok s' \<and> same_but_ledger s s' \<and>
     utxo_total s' + tx_lost s raw ot = utxo_total s + minted s raw \<and>
     (\<forall>k. get_unspent_tx_output s' k \<noteq> None \<longrightarrow>
        get_unspent_tx_output s k \<noteq> None \<or> k \<in> set (map get_key (raw_tx_outputs raw))) \<and>
     (\<forall>t. ot = Some t \<longrightarrow> raw_tx_from_tx t = raw)"
proof (cases "is_genesis raw (genesis_tx_id s) (genesis_block_height s)")
  case True
  have ok: "utxo_ok s" "nonneg_ledger s" "0 \<le> genesis_total_supply s" using assms(2) by (simp_all add: ledger_ok_def)
  have "get_genesis_tx raw (genesis_total_supply s) s = Inr (s', ot)"
    using assms(1) True by (simp add: find_tx_def)
  from get_genesis_tx_spec [OF this ok(1) assms(3) ok(3)] obtain t where
    t: "ot = Some t" "raw_tx_from_tx t = raw" "tx_tx_type t = Some GENESIS" "tx_burnt_bsq t = 0"
      "utxo_ok s'" "same_but_ledger s s'" "utxo_total s' = utxo_total s + genesis_total_supply s"
      "\<forall>k out. get_unspent_tx_output s' k = Some out \<longrightarrow> get_unspent_tx_output s k = Some out \<or>
        out \<in> set (tx_outputs t) \<and> out_type out = GENESIS_OUTPUT" by blast
  have outs: "raw_output_from_tx_output out \<in> set (raw_tx_outputs raw)" if "out \<in> set (tx_outputs t)" for out
    using that t(2) by (auto simp: raw_tx_from_tx_def)
  have val: "0 \<le> txo_value out \<and> get_key out \<in> set (map get_key (raw_tx_outputs raw))" if "out \<in> set (tx_outputs t)" for out
    using outs [OF that] assms(3)
    by (force simp: raw_tx_ok_def raw_output_from_tx_output_def get_key_def image_iff)
  have keyed: "get_key out = k" if "get_unspent_tx_output s' k = Some out" for k out
    using t(5) that by (simp add: utxo_ok_def utxo_keyed_def get_unspent_tx_output_def)
  have "nonneg_ledger s'" using ok(2) t(8) val unfolding nonneg_ledger_def by blast
  moreover have "get_unspent_tx_output s k \<noteq> None \<or> k \<in> set (map get_key (raw_tx_outputs raw))"
    if "get_unspent_tx_output s' k \<noteq> None" for k
    using that t(8) keyed val by blast
  ultimately show ?thesis
    using t same_but_ledger_sel [OF t(6)] ok(3) True by (simp add: ledger_ok_def tx_lost_def minted_def)
next
  case False
  have ok: "utxo_ok s" "nonneg_ledger s" "0 \<le> genesis_total_supply s" using assms(2) by (simp_all add: ledger_ok_def)
  have f: "find_tx_body raw s = Inr (s', ot)" using assms(1) False by (simp add: find_tx_def)
  note same = find_tx_body_same [OF f ok(1,2) assms(3)] and con = find_tx_body_conserves [OF f ok(1,2) assms(3)]
  have "raw_tx_from_tx t = raw" if "ot = Some t" for t
    using find_tx_body_raw [OF _ ok(1,2) assms(3)] f that by blast
  moreover have "utxo_total s' + tx_lost s raw ot = utxo_total s + minted s raw"
    using con False by (cases ot) (auto simp: tx_lost_def minted_def)
  ultimately show ?thesis
    using same con same_but_ledger_sel [of s s'] ok(3) by (simp add: ledger_ok_def)
qed

section \<open>The transactions of a block\<close>

text \<open>\<open>txs_added s s' new\<close>: the last block has the transactions \<open>new\<close> more, the other blocks are the
  same.\<close>

definition txs_added :: "'a dao_state_scheme \<Rightarrow> 'a dao_state_scheme \<Rightarrow> tx list \<Rightarrow> bool" where
  "txs_added s s' new \<longleftrightarrow>
     blocks s' = butlast (blocks s) @ [(last (blocks s))\<lparr>blk_txs := blk_txs (last (blocks s)) @ new\<rparr>]"

definition txs_ok :: "'a dao_state_scheme \<Rightarrow> raw_tx list \<Rightarrow> bool" where
  "txs_ok s raws \<longleftrightarrow>
     distinct (concat (map (\<lambda>raw. map get_key (raw_tx_outputs raw)) raws)) \<and>
     (\<forall>raw \<in> set raws. raw_tx_ok s raw \<and> tx_id raw \<notin> set (map tx_id (all_txs s))) \<and>
     distinct (map tx_id raws)"

lemma on_new_tx_ledger:
  assumes "on_new_tx_for_last_block r t s = Inr s'"
  shows "unspent_tx_output_map s' = unspent_tx_output_map s"
    "allow_dao_state_change s' = allow_dao_state_change s"
    "genesis_total_supply s' = genesis_total_supply s" "genesis_tx_id s' = genesis_tx_id s"
    "genesis_block_height s' = genesis_block_height s" "issuance_map s' = issuance_map s"
  using assms
  by (auto simp: on_new_tx_for_last_block_def add_to_tx_cache_def add_to_tx_outputs_by_type_def
      split: if_splits)

lemma on_new_tx_added:
  assumes "on_new_tx_for_last_block r t s = Inr s'" and "blocks s \<noteq> []"
    and "r = In_Chain (length (blocks s) - 1)"
  shows "txs_added s s' [t]"
proof -
  have "blocks s' = (blocks s)[length (blocks s) - 1 := add_tx t (last (blocks s))]"
    using assms by (auto simp: on_new_tx_for_last_block_def add_to_tx_cache_def add_to_tx_outputs_by_type_def)
  with assms(2) show ?thesis
    by (cases "blocks s" rule: rev_cases) (simp_all add: txs_added_def add_tx_def)
qed

lemma ledger_ok_cong:
  assumes "unspent_tx_output_map s' = unspent_tx_output_map s"
    "allow_dao_state_change s' = allow_dao_state_change s" "genesis_total_supply s' = genesis_total_supply s"
  shows "ledger_ok s' = ledger_ok s" "utxo_total s' = utxo_total s"
    "get_unspent_tx_output s' = get_unspent_tx_output s"
  using assms
  by (simp_all add: ledger_ok_def utxo_ok_def utxo_keyed_def nonneg_ledger_def utxo_total_def
      get_unspent_tx_output_def [abs_def])

lemma caches_same_but_ledger: "same_but_ledger s t \<Longrightarrow> caches_ok s \<Longrightarrow> caches_ok t \<and> all_txs t = all_txs s"
  using same_but_ledger_sel [of s t]
  by (simp add: caches_ok_def all_txs_def get_tx_output_by_tx_output_type_def)

lemma txs_added_same: "blocks s \<noteq> [] \<Longrightarrow> blocks s' = blocks s \<Longrightarrow> txs_added s s' []"
  by (simp add: txs_added_def append_butlast_last_id)

lemma txs_added_trans: "txs_added s t new \<Longrightarrow> txs_added t u new' \<Longrightarrow> txs_added s u (new @ new')"
  by (simp add: txs_added_def butlast_append)

lemma txs_added_all: "blocks s \<noteq> [] \<Longrightarrow> txs_added s s' new \<Longrightarrow> all_txs s' = all_txs s @ new"
  by (cases "blocks s" rule: rev_cases) (simp_all add: txs_added_def all_txs_def)

definition burnt_by :: "tx list \<Rightarrow> int" where
  "burnt_by ts = sum_list (map tx_burnt_bsq ts)"

definition parse_step :: "'a dao_service_scheme \<Rightarrow> raw_tx list \<Rightarrow> 'a dao_service_scheme \<Rightarrow> tx list \<Rightarrow> int \<Rightarrow> bool" where
  "parse_step s raws s' new bonds \<longleftrightarrow>
     ledger_ok s' \<and> caches_ok s' \<and> txs_added s s' new \<and> blocks s' \<noteq> [] \<and> length (blocks s') = length (blocks s) \<and>
     genesis_tx_id s' = genesis_tx_id s \<and> genesis_block_height s' = genesis_block_height s \<and>
     genesis_total_supply s' = genesis_total_supply s \<and> issuance_map s' = issuance_map s \<and>
     0 \<le> bonds \<and> ((\<forall>t \<in> set new. tx_tx_type t \<noteq> Some INVALID) \<longrightarrow> bonds = 0) \<and>
     utxo_total s' + burnt_by new + bonds = utxo_total s + sum_list (map (minted s) raws) \<and>
     subseq (map raw_tx_from_tx new) raws \<and>
     (\<forall>k. get_unspent_tx_output s' k \<noteq> None \<longrightarrow> get_unspent_tx_output s k \<noteq> None \<or>
        k \<in> set (concat (map (\<lambda>raw. map get_key (raw_tx_outputs raw)) raws)))"

lemma parse_tx_step:
  assumes "parse_tx r raw s = Inr s'" and "ledger_ok s" and "caches_ok s" and "blocks s \<noteq> []"
    and "r = In_Chain (length (blocks s) - 1)" and "raw_tx_ok s raw"
    and "tx_id raw \<notin> set (map tx_id (all_txs s))"
  shows "\<exists>new bonds. parse_step s [raw] s' new bonds"
proof -
  obtain s1 ot where f: "find_tx raw (genesis_tx_id s) (genesis_block_height s) (genesis_total_supply s) s = Inr (s1, ot)"
    and n: "(case ot of None \<Rightarrow> Inr s1 | Some t \<Rightarrow> on_new_tx_for_last_block r t s1) = Inr s'"
    using assms(1) by (auto simp: parse_tx_def)
  note fs = find_tx_spec [OF f assms(2,6)]
  have same: "same_but_ledger s s1" using fs by simp
  note sel = same_but_ledger_sel [OF same]
  have c1: "caches_ok s1" "all_txs s1 = all_txs s" using caches_same_but_ledger [OF same assms(3)] by simp_all
  show ?thesis
  proof (cases ot)
    case None
    have "parse_step s [raw] s1 [] 0"
      using fs c1 sel assms(4) None
      by (simp add: parse_step_def txs_added_same tx_lost_def burnt_by_def)
    then show ?thesis using n None by auto
  next
    case (Some t)
    have raw: "raw_tx_from_tx t = raw" using fs Some by blast
    then have id: "tx_id t = tx_id raw" by (auto simp: raw_tx_from_tx_def)
    have on: "on_new_tx_for_last_block r t s1 = Inr s'" using n Some by simp
    note led = on_new_tx_ledger [OF on]
    have added: "txs_added s1 s' [t]" by (rule on_new_tx_added [OF on]) (use assms(4,5) sel in simp_all)
    have cache: "caches_ok s'" by (rule on_new_tx_caches [OF on c1(1)]) (use assms(7) c1 id in simp)
    let ?bonds = "if tx_tx_type t = Some INVALID then burnt_bond s raw else 0"
    have nn: "0 \<le> ?bonds" using burnt_bond_nonneg [of s raw] assms(2) by (simp add: ledger_ok_def)
    have "txs_added s s' [t]" using added sel by (simp add: txs_added_def)
    moreover have "length (blocks s') = length (blocks s)" "blocks s' \<noteq> []"
      using added sel(1) assms(4) by (simp_all add: txs_added_def)
    ultimately have "parse_step s [raw] s' [t] ?bonds"
      using fs cache led ledger_ok_cong [OF led(1-3)] sel nn raw Some
      by (simp add: parse_step_def tx_lost_def burnt_by_def)
    then show ?thesis by blast
  qed
qed

lemma txs_ok_step:
  assumes "txs_ok s (raw # raws)" and "parse_step s [raw] s1 new bonds" and "blocks s \<noteq> []"
  shows "txs_ok s1 raws"
proof -
  have txs: "all_txs s1 = all_txs s @ new"
    using assms(2,3) txs_added_all by (auto simp: parse_step_def)
  have sub: "subseq (map raw_tx_from_tx new) [raw]" using assms(2) by (simp add: parse_step_def)
  have ids: "tx_id t = tx_id raw" if "t \<in> set new" for t
  proof -
    have "raw_tx_from_tx t \<in> set (map raw_tx_from_tx new)" using that by simp
    from list_emb_set [OF sub this] have "raw_tx_from_tx t = raw" by auto
    then show ?thesis by (auto simp: raw_tx_from_tx_def)
  qed
  have dis: "get_key ` set (raw_tx_outputs raw) \<inter> (\<Union>x\<in>set raws. get_key ` set (raw_tx_outputs x)) = {}"
    using assms(1) by (simp add: txs_ok_def)
  have "raw_tx_ok s1 raw'" if raw': "raw' \<in> set raws" for raw'
  proof -
    have ok: "raw_tx_ok s raw'" using assms(1) raw' by (simp add: txs_ok_def)
    have "get_unspent_tx_output s1 (get_key out) = None" if out: "out \<in> set (raw_tx_outputs raw')" for out
    proof (rule ccontr)
      assume "get_unspent_tx_output s1 (get_key out) \<noteq> None"
      then have "get_unspent_tx_output s (get_key out) \<noteq> None \<or> get_key out \<in> get_key ` set (raw_tx_outputs raw)"
        using assms(2) unfolding parse_step_def by fastforce
      moreover have "get_unspent_tx_output s (get_key out) = None"
        using ok out by (simp add: raw_tx_ok_def fresh_outputs_def)
      moreover have "get_key out \<notin> get_key ` set (raw_tx_outputs raw)"
        using dis raw' out by auto
      ultimately show False by simp
    qed
    with ok show ?thesis by (simp add: raw_tx_ok_def fresh_outputs_def)
  qed
  moreover have "tx_id raw' \<notin> set (map tx_id (all_txs s1))" if "raw' \<in> set raws" for raw'
  proof -
    have "tx_id raw' \<noteq> tx_id raw" "tx_id raw' \<notin> set (map tx_id (all_txs s))"
      using assms(1) that by (auto simp: txs_ok_def) (metis image_eqI)
    then show ?thesis using ids by (auto simp: txs)
  qed
  ultimately show ?thesis using assms(1) by (simp add: txs_ok_def)
qed

lemma parse_step_trans:
  assumes "parse_step s [raw] s1 new1 b1" and "parse_step s1 raws s2 new2 b2"
  shows "parse_step s (raw # raws) s2 (new1 @ new2) (b1 + b2)"
proof -
  have "minted s1 = minted s" using assms(1) by (auto simp: parse_step_def minted_def fun_eq_iff)
  moreover have "subseq (map raw_tx_from_tx (new1 @ new2)) (raw # raws)"
    using assms list_emb_append_mono [of "(=)" "map raw_tx_from_tx new1" "[raw]"] by (simp add: parse_step_def)
  moreover have "txs_added s s2 (new1 @ new2)"
    by (rule txs_added_trans [of s s1 new1 s2 new2]) (use assms in \<open>simp_all add: parse_step_def\<close>)
  moreover have "get_unspent_tx_output s k \<noteq> None \<or>
      k \<in> set (concat (map (\<lambda>raw. map get_key (raw_tx_outputs raw)) (raw # raws)))"
    if "get_unspent_tx_output s2 k \<noteq> None" for k
  proof -
    have "get_unspent_tx_output s1 k \<noteq> None \<or>
        k \<in> set (concat (map (\<lambda>raw. map get_key (raw_tx_outputs raw)) raws))"
      using assms(2) that unfolding parse_step_def by blast
    moreover have "get_unspent_tx_output s k \<noteq> None \<or>
        k \<in> set (concat (map (\<lambda>raw. map get_key (raw_tx_outputs raw)) [raw]))"
      if "get_unspent_tx_output s1 k \<noteq> None"
      using assms(1) that unfolding parse_step_def by blast
    ultimately show ?thesis by auto
  qed
  moreover have "(\<forall>t \<in> set (new1 @ new2). tx_tx_type t \<noteq> Some INVALID) \<longrightarrow> b1 + b2 = 0"
    using assms by (simp add: parse_step_def)
  moreover have "utxo_total s2 + burnt_by (new1 @ new2) + (b1 + b2) =
      utxo_total s + sum_list (map (minted s) (raw # raws))"
    using assms calculation(1) by (simp add: parse_step_def burnt_by_def)
  ultimately show ?thesis
    using assms(1,2) unfolding parse_step_def by (intro conjI allI impI) (blast | simp)+
qed

lemma parse_txs_step:
  assumes "fold_res (parse_tx r) raws s = Inr s'" and "ledger_ok s" and "caches_ok s" and "blocks s \<noteq> []"
    and "r = In_Chain (length (blocks s) - 1)" and "txs_ok s raws"
  shows "\<exists>new bonds. parse_step s raws s' new bonds"
  using assms
proof (induction raws arbitrary: s)
  case Nil
  then have "parse_step s [] s' [] 0"
    by (simp add: parse_step_def txs_added_same burnt_by_def)
  then show ?case by blast
next
  case (Cons raw raws)
  obtain s1 where 1: "parse_tx r raw s = Inr s1" and 2: "fold_res (parse_tx r) raws s1 = Inr s'"
    using Cons.prems(1) by auto
  obtain new1 b1 where st: "parse_step s [raw] s1 new1 b1"
    using parse_tx_step [OF 1 Cons.prems(2-5)] Cons.prems(6) by (auto simp: txs_ok_def)
  have "\<exists>new bonds. parse_step s1 raws s' new bonds"
    by (rule Cons.IH [OF 2]) (use st txs_ok_step [OF Cons.prems(6) st] Cons.prems(4,5) in
      \<open>auto simp: parse_step_def\<close>)
  with parse_step_trans [OF st] show ?case by blast
qed

end
