(* ===== verification/Dao_Chain.thy ===== *)
theory Dao_Chain
  imports Block_Parser Period_Service
begin

text \<open>
  The chain of blocks: linked heights and hashes, and what parsing one block does to it.  A
  listener called at the start of a block may change everything but the chain (the cycle service
  is one); what happens before \<open>on_parse_block_complete\<close> is then the work of the transaction
  loop.
\<close>

section \<open>Linked blocks\<close>

fun chain_linked :: "block list \<Rightarrow> bool" where
  "chain_linked (a # b # bs) \<longleftrightarrow>
     blk_height b = blk_height a + 1 \<and> blk_previous_block_hash b = Some (blk_hash a) \<and>
     chain_linked (b # bs)"
| "chain_linked _ \<longleftrightarrow> True"

lemma chain_linked_snoc:
  "chain_linked (bs @ [b]) \<longleftrightarrow> chain_linked bs \<and>
     (bs \<noteq> [] \<longrightarrow> blk_height b = blk_height (last bs) + 1 \<and>
        blk_previous_block_hash b = Some (blk_hash (last bs)))"
  by (induction bs rule: chain_linked.induct) auto

lemma chain_linked_heights: "chain_linked bs \<Longrightarrow> b \<in> set bs \<Longrightarrow> blk_height b \<le> blk_height (last bs)"
  by (induction bs arbitrary: b rule: rev_induct) (auto simp: chain_linked_snoc, force)

section \<open>One block\<close>

definition same_chain :: "'a dao_service_scheme \<Rightarrow> 'a dao_service_scheme \<Rightarrow> bool" where
  "same_chain s t \<longleftrightarrow>
     blocks t = blocks s \<and> tx_cache t = tx_cache s \<and> blocks_by_height t = blocks_by_height s \<and>
     tx_outputs_by_type t = tx_outputs_by_type s \<and> unspent_tx_output_map t = unspent_tx_output_map s \<and>
     allow_dao_state_change t = allow_dao_state_change s \<and> genesis_tx_id t = genesis_tx_id s \<and>
     genesis_block_height t = genesis_block_height s \<and> genesis_total_supply t = genesis_total_supply s \<and>
     issuance_map t = issuance_map s"

definition keeps_chain :: "('a dao_service_scheme \<Rightarrow> 'a dao_service_scheme res) \<Rightarrow> bool" where
  "keeps_chain l \<longleftrightarrow> (\<forall>s t. l s = Inr t \<longrightarrow> same_chain s t)"

lemma fold_keeps_chain:
  "\<forall>l \<in> set ls. keeps_chain (f l) \<Longrightarrow> fold_res f ls s = Inr t \<Longrightarrow> same_chain s t"
  by (induction ls arbitrary: s) (auto simp: keeps_chain_def same_chain_def)

text \<open>The cycle service only appends a cycle.\<close>

lemma cycle_service_keeps_chain: "keeps_chain (cycle_on_new_block_height h)"
  by (auto simp: keeps_chain_def same_chain_def cycle_on_new_block_height_def add_cycle_def
      split: option.splits)

text \<open>The state when the transactions of a block are parsed: the state change window is open.\<close>

definition opened :: "int \<Rightarrow> 'a dao_service_scheme \<Rightarrow> 'a dao_service_scheme" where
  "opened h s = s\<lparr>allow_dao_state_change := True, chain_height := h\<rparr>"

lemma opened_sel [simp]:
  "blocks (opened h s) = blocks s" "tx_cache (opened h s) = tx_cache s"
  "unspent_tx_output_map (opened h s) = unspent_tx_output_map s"
  "allow_dao_state_change (opened h s)" "genesis_tx_id (opened h s) = genesis_tx_id s"
  "genesis_block_height (opened h s) = genesis_block_height s"
  "genesis_total_supply (opened h s) = genesis_total_supply s" "issuance_map (opened h s) = issuance_map s"
  by (simp_all add: opened_def)

lemma same_chain_caches:
  "same_chain s t \<Longrightarrow> caches_ok t = caches_ok s" "same_chain s t \<Longrightarrow> all_txs t = all_txs s"
  "same_chain s t \<Longrightarrow> ledger_ok t = ledger_ok s" "same_chain s t \<Longrightarrow> utxo_total t = utxo_total s"
  "same_chain s t \<Longrightarrow> get_unspent_tx_output t = get_unspent_tx_output s"
  "same_chain s t \<Longrightarrow> txs_ok t raws = txs_ok s raws" "same_chain s t \<Longrightarrow> minted t = minted s"
  using ledger_ok_cong [of t s]
  by (simp_all add: same_chain_def caches_ok_def all_txs_def get_tx_output_by_tx_output_type_def
      txs_ok_def raw_tx_ok_def fresh_outputs_def minted_def fun_eq_iff)

text \<open>The ledger part of \<open>ledger_ok\<close>, which also holds while the window is closed.\<close>

definition chain_ok :: "'a dao_service_scheme \<Rightarrow> bool" where
  "chain_ok s \<longleftrightarrow> chain_linked (blocks s) \<and> caches_ok s \<and> utxo_keyed s \<and> nonneg_ledger s \<and>
     0 \<le> genesis_total_supply s"

text \<open>The block that \<open>parse_block\<close> has built when the listeners for a complete block are called.\<close>

definition block_parsed ::
  "'a dao_service_scheme \<Rightarrow> raw_block \<Rightarrow> 'a dao_service_scheme \<Rightarrow> tx list \<Rightarrow> int \<Rightarrow> bool" where
  "block_parsed s raw t new bonds \<longleftrightarrow>
     blocks t = blocks s @ [(new_block raw)\<lparr>blk_txs := new\<rparr>] \<and> chain_ok t \<and>
     issuance_map t = issuance_map s \<and> genesis_total_supply t = genesis_total_supply s \<and>
     subseq (map raw_tx_from_tx new) (raw_txs raw) \<and>
     0 \<le> bonds \<and> ((\<forall>x \<in> set new. tx_tx_type x \<noteq> Some INVALID) \<longrightarrow> bonds = 0) \<and>
     utxo_total t + burnt_by new + bonds = utxo_total s + sum_list (map (minted s) (raw_txs raw))"

lemma new_block_sel [simp]:
  "blk_height (new_block raw) = blk_height raw" "blk_hash (new_block raw) = blk_hash raw"
  "blk_previous_block_hash (new_block raw) = blk_previous_block_hash raw"
  "blk_txs (new_block raw) = []"
  by (simp_all add: new_block_def)

lemma on_new_block_height_same_chain:
  assumes "on_new_block_height ls h s = Inr t"
    and "\<forall>l \<in> set (l_new_block_height ls). keeps_chain (l h)"
  shows "same_chain (opened h s) t"
  using fold_keeps_chain [of "l_new_block_height ls" "\<lambda>l. l h"] assms
  by (simp add: on_new_block_height_def opened_def)

lemma chain_ok_opened: "chain_ok s \<Longrightarrow> ledger_ok (opened h s) \<and> caches_ok (opened h s)"
  by (simp add: chain_ok_def ledger_ok_def utxo_ok_def utxo_keyed_def nonneg_ledger_def
      get_unspent_tx_output_def opened_def caches_ok_def all_txs_def get_tx_output_by_tx_output_type_def)

lemma connecting_height_new:
  "chain_linked bs \<Longrightarrow> bs \<noteq> [] \<Longrightarrow> h = blk_height (last bs) + 1 \<Longrightarrow> h \<notin> set (map blk_height bs)"
  using chain_linked_heights by fastforce

lemma utxo_total_opened [simp]: "utxo_total (opened h s) = utxo_total s"
  by (simp add: utxo_total_def)

lemma parse_block_step:
  assumes "parse_block dev ls raw s = Inr (s', r)" and "chain_ok s"
    and "\<forall>l \<in> set (l_new_block_height ls). keeps_chain (l (blk_height raw))"
    and "txs_ok s (raw_txs raw)"
    and "blocks s = [] \<longrightarrow> blk_height raw = genesis_block_height s"
  shows "\<exists>t new bonds. block_parsed s raw t new bonds \<and> r = In_Chain (length (blocks s)) \<and>
     on_parse_block_complete ls r t = Inr s'"
proof -
  let ?h = "blk_height raw" and ?o = "opened (blk_height raw) s"
  from assms(1) obtain s1 s2 s3 where
    1: "validate_if_block_is_connecting raw s = Inr ()" and
    2: "on_new_block_height ls ?h s = Inr s1" and
    3: "(if is_block_already_added raw s1
         then (if dev then Inl Runtime_Error else Inr (s1, Detached (new_block raw)))
         else on_new_block_with_empty_txs (new_block raw) s1) = Inr (s2, r)" and
    4: "fold_res (parse_tx r) (raw_txs raw) s2 = Inr s3" and
    5: "on_parse_block_complete ls r s3 = Inr s'"
    by (auto simp: parse_block_def)
  note same = on_new_block_height_same_chain [OF 2 assms(3)]
  note sc = same_chain_caches [OF same]
  have b1: "blocks s1 = blocks s" "allow_dao_state_change s1" "genesis_block_height s1 = genesis_block_height s"
    "genesis_total_supply s1 = genesis_total_supply s"
    using same by (simp_all add: same_chain_def)
  have ok1: "ledger_ok s1" "caches_ok s1" using chain_ok_opened [OF assms(2)] sc by simp_all
  have linked: "chain_linked (blocks s)" using assms(2) by (simp add: chain_ok_def)
  have conn: "blocks s \<noteq> [] \<Longrightarrow> ?h = blk_height (last (blocks s)) + 1 \<and>
      blk_previous_block_hash raw = Some (blk_hash (last (blocks s)))"
    using 1 by (auto simp: connecting_iff)
  have fresh: "?h \<notin> set (map blk_height (blocks s))"
    using conn connecting_height_new [OF linked] by fastforce
  then have "get_block_at_height s1 ?h = None"
    using get_block_at_height_searches_chain [OF ok1(2)] b1 by (auto simp: find_None_iff) (metis image_eqI)
  then have nb: "on_new_block_with_empty_txs (new_block raw) s1 = Inr (s2, r)"
    using 3 by (simp add: is_block_already_added_def)
  then have s2: "s2 = add_block (new_block raw) s1" and r: "r = In_Chain (length (blocks s))"
    using b1 assms(5) by (auto simp: on_new_block_with_empty_txs_def assert_dao_state_change_def check_def split: if_splits)
  have b2: "blocks s2 = blocks s @ [new_block raw]" "unspent_tx_output_map s2 = unspent_tx_output_map s1"
    "allow_dao_state_change s2 = allow_dao_state_change s1" "genesis_total_supply s2 = genesis_total_supply s1"
    "genesis_tx_id s2 = genesis_tx_id s1" "genesis_block_height s2 = genesis_block_height s1"
    "issuance_map s2 = issuance_map s1"
    using b1 by (simp_all add: s2 add_block_def)
  note cong = ledger_ok_cong [OF b2(2-4)]
  have c2: "caches_ok s2" using on_new_block_caches [OF nb ok1(2)] fresh b1 by simp
  have txs: "txs_ok s2 (raw_txs raw)"
    using assms(4) b1 b2 sc cong same
    by (simp add: txs_ok_def raw_tx_ok_def fresh_outputs_def all_txs_def same_chain_def
        get_unspent_tx_output_def)
  obtain new bonds where st: "parse_step s2 (raw_txs raw) s3 new bonds"
    using parse_txs_step [OF 4 _ c2] ok1 cong b2 r txs by auto
  have m: "minted s2 = minted s" "utxo_total s2 = utxo_total s"
    using b2 same cong(2) sc(4) by (simp_all add: minted_def same_chain_def fun_eq_iff)
  have bl: "blocks s3 = blocks s @ [(new_block raw)\<lparr>blk_txs := new\<rparr>]"
    using st b2 by (simp add: parse_step_def txs_added_def)
  have "chain_linked (blocks s3)" using linked conn by (simp add: bl chain_linked_snoc)
  then have "chain_ok s3" using st by (simp add: parse_step_def chain_ok_def ledger_ok_def utxo_ok_def)
  moreover have "issuance_map s2 = issuance_map s" using b2 same by (simp add: same_chain_def)
  ultimately have "block_parsed s raw s3 new bonds"
    using st m bl b1 b2 by (simp add: block_parsed_def parse_step_def)
  with 5 r show ?thesis by blast
qed

end
