(* ===== verification/Dao_Examples.thy ===== *)
theory Dao_Examples
  imports Dao_Chain
begin

text \<open>
  A small concrete DAO on the regtest network, at which the properties of the root theory are
  applied: a cycle of 13 blocks from height 111, a ledger with a BSQ output, a lockup output and
  an unlock output whose lock time is not over, and transactions that spend them.
\<close>

definition ex_output :: "string \<Rightarrow> int \<Rightarrow> int \<Rightarrow> raw_tx_output" where
  "ex_output i n v =
     \<lparr>txo_index = n, txo_value = v, txo_tx_id = i, txo_pub_key_script = None, txo_address = None,
      txo_op_return_data = None, txo_block_height = 112\<rparr>"

definition ex_op_return :: "string \<Rightarrow> int \<Rightarrow> bytes \<Rightarrow> raw_tx_output" where
  "ex_op_return i n d = (ex_output i n 0)\<lparr>txo_op_return_data := Some d\<rparr>"

definition ex_tx_output :: "string \<Rightarrow> int \<Rightarrow> tx_output_type \<Rightarrow> int \<Rightarrow> int \<Rightarrow> tx_output" where
  "ex_tx_output i v ty lock unlock =
     (from_temp_output (from_raw_tx_output (ex_output i 0 v)))
       \<lparr>out_type := ty, out_lock_time := lock, out_unlock_block_height := unlock\<rparr>"

definition ex_raw_tx :: "string \<Rightarrow> (string \<times> int) list \<Rightarrow> raw_tx_output list \<Rightarrow> raw_tx" where
  "ex_raw_tx i inps outs =
     \<lparr>tx_version = ''1'', tx_id = i, tx_block_height = 112, tx_block_hash = ''h'', tx_time = 0,
      tx_inputs = map (\<lambda>(j, n). \<lparr>connected_tx_output_tx_id = j, connected_tx_output_index = n,
                                in_pub_key = None\<rparr>) inps,
      raw_tx_outputs = outs\<rparr>"

definition ex_bsq :: tx_output where "ex_bsq = ex_tx_output ''a'' 1000 BSQ_OUTPUT 0 0"
definition ex_lockup :: tx_output where "ex_lockup = ex_tx_output ''l'' 500 LOCKUP_OUTPUT 10 0"
definition ex_unlock :: tx_output where "ex_unlock = ex_tx_output ''u'' 300 UNLOCK_OUTPUT 0 200"

definition ex_cycle :: cycle where
  "ex_cycle =
     \<lparr>cyc_dao_phase_list = map (\<lambda>(p, d). \<lparr>dp_phase = p, dp_duration = d\<rparr>)
        [(Phase_UNDEFINED, 0), (Phase_PROPOSAL, 4), (Phase_BREAK1, 1), (Phase_BLIND_VOTE, 2),
         (Phase_BREAK2, 1), (Phase_VOTE_REVEAL, 2), (Phase_BREAK3, 1), (Phase_RESULT, 2)],
      cyc_height_of_first_block = 111\<rparr>"

definition ex_ledger :: "tx_output_key \<rightharpoonup> tx_output" where
  "ex_ledger = Map.empty(get_key ex_bsq \<mapsto> ex_bsq, get_key ex_lockup \<mapsto> ex_lockup,
                         get_key ex_unlock \<mapsto> ex_unlock)"

definition ex_state :: "dao_service" where
  "ex_state =
     \<lparr>chain_height = 112, blocks = [], cycles = [ex_cycle], unspent_tx_output_map = ex_ledger,
      spent_info_map = Map.empty, confiscated_lockup_tx_list = [], issuance_map = Map.empty,
      param_change_list = [], evaluated_proposal_list = [],
      decrypted_ballots_with_merits_list = [], tx_cache = [], blocks_by_height = Map.empty,
      tx_outputs_by_type = Map.empty(LOCKUP_OUTPUT \<mapsto> {ex_lockup}, UNLOCK_OUTPUT \<mapsto> {ex_unlock}),
      network = BTC_REGTEST,
      bsq_formatter = (\<lambda>p v. rbind (py_int v) (\<lambda>n. Inr (100 * n))),
      percent_parser = (\<lambda>v. rbind (py_int v) (\<lambda>n. Inr (100 * n))),
      genesis_tx_id = ''g'', genesis_block_height = 111, genesis_total_supply = 1000,
      parse_block_chain_complete = False, allow_dao_state_change = True,
      cached_tx_id_set_by_address = Map.empty\<rparr>"

text \<open>Transactions: a transfer that burns 10, a proposal, a lockup, an unlock, the spending of
  the locked unlock output, a transaction whose second output is more than is left, and the
  genesis transaction.\<close>

definition ex_transfer :: raw_tx where
  "ex_transfer = ex_raw_tx ''t'' [(''a'', 0)] [ex_output ''t'' 0 600, ex_output ''t'' 1 390]"

definition ex_proposal :: raw_tx where
  "ex_proposal = ex_raw_tx ''p'' [(''a'', 0)]
     [ex_output ''p'' 0 800,
      ex_op_return ''p'' 1 (proposal_op_return_data (replicate 20 7) (opr_type OpR_PROPOSAL) Version_PROPOSAL)]"

definition ex_lockup_tx :: raw_tx where
  "ex_lockup_tx = ex_raw_tx ''k'' [(''a'', 0)]
     [ex_output ''k'' 0 1000,
      ex_op_return ''k'' 1 (get_lockup_op_return_data 20 BONDED_ROLE (replicate 20 7))]"

definition ex_unlock_tx :: raw_tx where
  "ex_unlock_tx = ex_raw_tx ''m'' [(''l'', 0)] [ex_output ''m'' 0 500]"

definition ex_early :: raw_tx where
  "ex_early = ex_raw_tx ''e'' [(''u'', 0), (''a'', 0)] [ex_output ''e'' 0 900]"

definition ex_short :: raw_tx where
  "ex_short = ex_raw_tx ''s'' [(''a'', 0)]
     [ex_output ''s'' 0 600, ex_output ''s'' 1 500, ex_output ''s'' 2 300]"

definition ex_genesis :: raw_tx where
  "ex_genesis = (ex_raw_tx ''g'' [] [ex_output ''g'' 0 600, ex_output ''g'' 1 400])\<lparr>tx_block_height := 111\<rparr>"

definition parsed_type :: "('s \<times> tx option) res \<Rightarrow> tx_type option" where
  "parsed_type r = (case r of Inr (s, Some t) \<Rightarrow> tx_tx_type t | _ \<Rightarrow> None)"

lemma parsed_typeD: "parsed_type r = Some ty \<Longrightarrow> \<exists>s t. r = Inr (s, Some t) \<and> tx_tx_type t = Some ty"
  by (auto simp: parsed_type_def split: sum.splits option.splits prod.splits)

lemma ex_types:
  "parsed_type (find_tx_body ex_transfer ex_state) = Some PAY_TRADE_FEE"
  "parsed_type (find_tx_body ex_proposal ex_state) = Some PROPOSAL"
  "parsed_type (find_tx_body ex_lockup_tx ex_state) = Some LOCKUP"
  "parsed_type (find_tx_body ex_unlock_tx ex_state) = Some UNLOCK"
  "parsed_type (find_tx_body ex_early ex_state) = Some INVALID"
  by code_simp+

lemma ex_short_result:
  "\<exists>s' t. find_tx_body ex_short ex_state = Inr (s', Some t) \<and> \<not> is_bsq_output (tx_outputs t ! 1)"
proof -
  have "case find_tx_body ex_short ex_state of
      Inr (s', Some t) \<Rightarrow> \<not> is_bsq_output (tx_outputs t ! 1) | _ \<Rightarrow> False" by code_simp
  then show ?thesis by (auto split: sum.splits option.splits prod.splits)
qed

lemma ex_lockup_result:
  "\<exists>s' t out. find_tx_body ex_lockup_tx ex_state = Inr (s', Some t) \<and> out \<in> set (tx_outputs t) \<and>
     out_type out = LOCKUP_OUTPUT"
proof -
  have "case find_tx_body ex_lockup_tx ex_state of
      Inr (s', Some t) \<Rightarrow> list_ex (\<lambda>out. out_type out = LOCKUP_OUTPUT) (tx_outputs t) | _ \<Rightarrow> False"
    by code_simp
  then show ?thesis by (auto simp: list_ex_iff split: sum.splits option.splits prod.splits)
qed

lemma ex_state_ok: "utxo_ok ex_state" "nonneg_ledger ex_state"
  by (auto simp: utxo_ok_def utxo_keyed_def nonneg_ledger_def get_unspent_tx_output_def ex_state_def
      ex_ledger_def ex_bsq_def ex_lockup_def ex_unlock_def ex_tx_output_def ex_output_def get_key_def
      split: if_splits)

text \<open>Before the first block: an empty chain, and a first block with the genesis transaction and a
  transaction that spends one of its outputs and burns 10.\<close>

definition ex_start :: dao_service where
  "ex_start = ex_state\<lparr>unspent_tx_output_map := Map.empty, tx_outputs_by_type := Map.empty,
                       allow_dao_state_change := False\<rparr>"

definition ex_spend :: raw_tx where
  "ex_spend = (ex_raw_tx ''x'' [(''g'', 0)] [ex_output ''x'' 0 590])\<lparr>tx_block_height := 111\<rparr>"

definition ex_block :: raw_block where
  "ex_block = \<lparr>blk_height = 111, blk_time = 0, blk_hash = ''b'', blk_previous_block_hash = None,
               raw_txs = [ex_genesis, ex_spend]\<rparr>"

definition ex_listeners :: "dao_service dao_listeners" where
  "ex_listeners =
     \<lparr>l_new_block_height = [cycle_on_new_block_height], l_parse_block_complete = [],
      l_parse_block_complete_after_batch = [], l_dao_state_changed = [], l_parse_block_chain_complete = []\<rparr>"

lemma ex_start_ok: "chain_ok ex_start"
  by (auto simp: chain_ok_def caches_ok_def ex_start_def ex_state_def all_txs_def cache_of_def
      height_index_def outputs_of_type_def get_tx_output_by_tx_output_type_def utxo_keyed_def
      nonneg_ledger_def get_unspent_tx_output_def)

lemma ex_block_txs_ok: "txs_ok ex_start (raw_txs ex_block)"
  by code_simp

lemma ex_listeners_keep: "\<forall>l \<in> set (l_new_block_height ex_listeners). keeps_chain (l (blk_height ex_block))"
  by (simp add: ex_listeners_def cycle_service_keeps_chain)

lemma ex_block_parsed: "\<exists>s r. parse_block False ex_listeners ex_block ex_start = Inr (s, r)"
proof -
  have "is_ok (parse_block False ex_listeners ex_block ex_start)" by code_simp
  then show ?thesis by (auto simp: is_ok_iff)
qed

text \<open>A chain of one block with the genesis transaction, while the next transaction is added.\<close>

definition ex_chain :: dao_service where
  "ex_chain = (dao_state_init
     [\<lparr>blk_height = 111, blk_time = 0, blk_hash = ''b'', blk_previous_block_hash = None,
       blk_txs = [from_temp_tx (temp_tx_from_raw_tx ex_genesis)]\<rparr>] ex_start)\<lparr>allow_dao_state_change := True\<rparr>"

lemma ex_chain_caches: "caches_ok ex_chain"
proof -
  let ?b = "\<lparr>blk_height = 111, blk_time = 0, blk_hash = ''b'', blk_previous_block_hash = None,
       blk_txs = [from_temp_tx (temp_tx_from_raw_tx ex_genesis)]\<rparr>"
  have "caches_ok (dao_state_init [?b] ex_start)"
    by (rule dao_state_init_caches) simp_all
  then show ?thesis
    by (simp add: caches_ok_def ex_chain_def all_txs_def get_tx_output_by_tx_output_type_def)
qed

lemma ex_phase_params: "phase_params_ok ex_state (123 + 1) (last (cycles ex_state))"
proof -
  let ?p = "\<lambda>d. get_param_value_as_block ex_state (param_of_phase (dp_phase d)) (123 + 1)"
  have all: "list_all (\<lambda>d. case ?p d of Inr v \<Rightarrow> 0 \<le> v | Inl e \<Rightarrow> True) (cyc_dao_phase_list (last (cycles ex_state)))"
    "list_ex (\<lambda>d. case ?p d of Inr v \<Rightarrow> 0 < v | Inl e \<Rightarrow> False) (cyc_dao_phase_list (last (cycles ex_state)))"
    by code_simp+
  show ?thesis
    using all unfolding phase_params_ok_def list_all_iff list_ex_iff by (fastforce split: sum.splits)
qed

end
