(* ===== verification/Py_Float.thy ===== *)
theory Py_Float
  imports Bisq_Prelude "HOL-Library.Log_Nat"
begin

text \<open>
  Python's \<open>float\<close> as far as the consensus code uses it: the quotient of two numbers, rounded to
  the nearest IEEE-754 double (53 significant bits, ties to even).  A double is the rational
  number it stands for.  Python divides two integers \<open>a / b\<close> with a single rounding whatever
  their size, so \<open>py_div a b\<close> is that operator; overflow and subnormal results (quotients above
  \<open>2\<^sup>1\<^sup>0\<^sup>2\<^sup>4\<close> or below \<open>2\<^sup>-\<^sup>1\<^sup>0\<^sup>2\<^sup>2\<close>) cannot arise from the amounts of the chain and are not modelled.
\<close>

section \<open>Rounding\<close>

definition round_half_even :: "rat \<Rightarrow> int" where
  "round_half_even x =
     (let n = \<lfloor>x\<rfloor>; d = x - of_int n
      in if d < 1 / 2 then n else if 1 / 2 < d then n + 1 else if even n then n else n + 1)"

text \<open>The power of two whose product with a 53-bit integer lies next to \<open>x > 0\<close>.\<close>

definition pow2 :: "int \<Rightarrow> rat" where
  "pow2 e = (if 0 \<le> e then 2 ^ nat e else 1 / 2 ^ nat (- e))"

definition float_exponent :: "rat \<Rightarrow> int" where
  "float_exponent x =
     (let (a, b) = quotient_of x; e = bitlen a - bitlen b - 53
      in if x < pow2 (e + 53) then e else e + 1)"

definition to_float :: "rat \<Rightarrow> rat" where
  "to_float x =
     (if x = 0 then 0
      else let e = float_exponent \<bar>x\<bar>
           in sgn x * (of_int (round_half_even (\<bar>x\<bar> / pow2 e)) * pow2 e))"

text \<open>The true division of integers.\<close>

definition py_div :: "int \<Rightarrow> int \<Rightarrow> rat res" where
  "py_div a b = (if b = 0 then Inl Zero_Division_Error else Inr (to_float (of_int a / of_int b)))"

section \<open>Monotonicity\<close>

lemma round_half_even_mono: "x \<le> y \<Longrightarrow> round_half_even x \<le> round_half_even y"
proof -
  assume le: "x \<le> y"
  have m: "\<lfloor>x\<rfloor> \<le> \<lfloor>y\<rfloor>" using le by (rule floor_mono)
  show ?thesis
  proof (cases "\<lfloor>x\<rfloor> = \<lfloor>y\<rfloor>")
    case True
    then show ?thesis using le by (simp add: round_half_even_def Let_def)
  next
    case False
    then show ?thesis using m by (auto simp: round_half_even_def Let_def)
  qed
qed

lemma round_half_even_int [simp]: "round_half_even (of_int n) = n"
  by (simp add: round_half_even_def)

lemma round_half_even_less: "x < of_int n - 1 / 2 \<Longrightarrow> round_half_even x < n"
proof -
  assume l: "x < of_int n - 1 / 2"
  then have "\<lfloor>x\<rfloor> < n" by (simp add: floor_less_iff)
  moreover have "\<lfloor>x\<rfloor> = n - 1 \<Longrightarrow> x - of_int \<lfloor>x\<rfloor> < 1 / 2" using l by simp
  ultimately show ?thesis by (cases "\<lfloor>x\<rfloor> = n - 1") (auto simp: round_half_even_def Let_def)
qed

lemma pow2_pos [simp]: "0 < pow2 e" "0 \<le> pow2 e" "pow2 e \<noteq> 0" "\<not> pow2 e < 0"
  by (simp_all add: pow2_def)

lemma pow2_add_nat: "pow2 (e + int n) = pow2 e * 2 ^ n"
proof (induction n)
  case (Suc n)
  have "pow2 (k + 1) = pow2 k * 2" for k
  proof (cases "0 \<le> k")
    case True
    then show ?thesis by (simp add: pow2_def nat_add_distrib)
  next
    case False
    then have "nat (- k) = Suc (nat (- (k + 1)))" by simp
    then show ?thesis using False by (simp add: pow2_def)
  qed
  from this [of "e + int n"] Suc show ?case by (simp add: algebra_simps)
qed simp

lemma pow2_mono: "e \<le> f \<Longrightarrow> pow2 e \<le> pow2 f"
proof -
  assume "e \<le> f"
  then have "pow2 f = pow2 e * 2 ^ nat (f - e)" using pow2_add_nat [of e "nat (f - e)"] by simp
  then show ?thesis by (simp add: mult_le_cancel_left1)
qed

lemma pow2_strict: "pow2 e < pow2 f \<Longrightarrow> e < f"
  using pow2_mono [of f e] by (meson not_le)


lemma bitlen_bounds_pow2:
  assumes "0 < a"
  shows "pow2 (bitlen a - 1) \<le> of_int a" and "of_int a < pow2 (bitlen a)"
proof -
  have l: "0 < bitlen a" using assms by (simp add: bitlen_alt_def)
  have b: "2 ^ nat (bitlen a - 1) \<le> a \<and> a < 2 ^ nat (bitlen a)" by (rule bitlen_bounds [OF assms])
  then have "(of_int (2 ^ nat (bitlen a - 1)) :: rat) \<le> of_int a" "(of_int a :: rat) < of_int (2 ^ nat (bitlen a))"
    by (simp_all only: of_int_le_iff of_int_less_iff)
  then show "pow2 (bitlen a - 1) \<le> of_int a" and "of_int a < pow2 (bitlen a)"
    using l by (simp_all add: pow2_def)
qed

lemma pow2_diff: "pow2 (e - f) = pow2 e / pow2 f"
proof -
  have p: "pow2 (int n) = 2 ^ n" for n by (simp add: pow2_def)
  show ?thesis
  proof (cases "0 \<le> f")
    case True
    then show ?thesis using pow2_add_nat [of "e - f" "nat f"] p [of "nat f"] by simp
  next
    case False
    then have "pow2 f = 1 / 2 ^ nat (- f)" by (simp add: pow2_def)
    then show ?thesis using False pow2_add_nat [of e "nat (- f)"] by simp
  qed
qed

lemma float_exponent_bounds:
  assumes "0 < x"
  shows "pow2 (float_exponent x + 52) \<le> x" and "x < pow2 (float_exponent x + 53)"
proof -
  obtain a b where q: "quotient_of x = (a, b)" by fastforce
  have b: "0 < b" and x: "x = of_int a / of_int b"
    using quotient_of_denom_pos [OF q] quotient_of_div [OF q] by simp_all
  have a: "0 < a" using assms b by (simp add: x zero_less_divide_iff)
  let ?e = "bitlen a - bitlen b - 53"
  have l: "pow2 (?e + 52) \<le> x"
  proof -
    have "pow2 (bitlen a - 1) / pow2 (bitlen b) \<le> of_int a / of_int b"
      using bitlen_bounds_pow2 [OF a] bitlen_bounds_pow2 [OF b] b a
      by (intro frac_le) auto
    then show ?thesis by (simp add: x pow2_diff [symmetric] algebra_simps)
  qed
  have u: "x < pow2 (?e + 54)"
  proof -
    have "of_int a / of_int b < pow2 (bitlen a) / pow2 (bitlen b - 1)"
      using bitlen_bounds_pow2 [OF a] bitlen_bounds_pow2 [OF b] a
      by (intro frac_less) auto
    then show ?thesis by (simp add: x pow2_diff [symmetric] algebra_simps)
  qed
  show "pow2 (float_exponent x + 52) \<le> x" and "x < pow2 (float_exponent x + 53)"
    using l u by (auto simp: float_exponent_def q Let_def algebra_simps)
qed

lemma float_exponent_mono:
  assumes "0 < x" and "x \<le> y"
  shows "float_exponent x \<le> float_exponent y"
proof -
  have "pow2 (float_exponent x + 52) < pow2 (float_exponent y + 53)"
    using float_exponent_bounds [of x] float_exponent_bounds [of y] assms by linarith
  then show ?thesis using pow2_strict by fastforce
qed

lemma to_float_pos: "0 < x \<Longrightarrow> to_float x =
    of_int (round_half_even (x / pow2 (float_exponent x))) * pow2 (float_exponent x)"
  by (simp add: to_float_def Let_def)

lemma to_float_range:
  assumes "0 < x"
  shows "pow2 (float_exponent x + 52) \<le> to_float x" and "to_float x \<le> pow2 (float_exponent x + 53)"
proof -
  let ?e = "float_exponent x"
  have p: "pow2 (?e + 52) = 2 ^ 52 * pow2 ?e" "pow2 (?e + 53) = 2 ^ 53 * pow2 ?e"
    using pow2_add_nat [of ?e 52] pow2_add_nat [of ?e 53] by simp_all
  have "of_int (2 ^ 52) \<le> x / pow2 ?e" "x / pow2 ?e \<le> of_int (2 ^ 53)"
    using float_exponent_bounds [OF assms] p by (simp_all add: field_simps)
  then have "2 ^ 52 \<le> round_half_even (x / pow2 ?e)" "round_half_even (x / pow2 ?e) \<le> 2 ^ 53"
    using round_half_even_mono by (metis round_half_even_int)+
  then have "(of_int (2 ^ 52) :: rat) \<le> of_int (round_half_even (x / pow2 ?e))"
    "(of_int (round_half_even (x / pow2 ?e)) :: rat) \<le> of_int (2 ^ 53)"
    by (simp_all only: of_int_le_iff)
  then show "pow2 (?e + 52) \<le> to_float x" and "to_float x \<le> pow2 (?e + 53)"
    by (simp_all only: p to_float_pos [OF assms], simp_all add: mult_le_cancel_right)
qed

lemma to_float_mono_pos:
  assumes "0 < x" and "x \<le> y"
  shows "to_float x \<le> to_float y"
proof (cases "float_exponent x = float_exponent y")
  case True
  have "x / pow2 (float_exponent y) \<le> y / pow2 (float_exponent y)"
    using assms by (simp add: divide_right_mono less_imp_le)
  then show ?thesis
    using assms round_half_even_mono by (simp add: to_float_pos True mult_le_cancel_right)
next
  case False
  then have "float_exponent x + 53 \<le> float_exponent y + 52" using float_exponent_mono [OF assms] by simp
  from pow2_mono [OF this] show ?thesis
    using to_float_range [of x] to_float_range [of y] assms by linarith
qed

lemma to_float_nonneg: "0 \<le> x \<Longrightarrow> 0 \<le> to_float x"
proof (cases "x = 0")
  case False
  assume "0 \<le> x"
  with False have "0 < x" by simp
  from order.trans [OF pow2_pos(2) to_float_range(1) [OF this]] show ?thesis .
qed (simp add: to_float_def)

lemma to_float_mono: "0 \<le> x \<Longrightarrow> x \<le> y \<Longrightarrow> to_float x \<le> to_float y"
  using to_float_mono_pos [of x y] to_float_nonneg [of y] by (cases "x = 0") (auto simp: to_float_def [of 0])


section \<open>Comparing with a literal\<close>

lemma float_exponent_unique:
  assumes "pow2 (e + 52) \<le> x" and "x < pow2 (e + 53)"
  shows "float_exponent x = e"
proof -
  have "0 < x" using assms(1) pow2_pos(1) by (rule order.strict_trans2 [rotated])
  note b = float_exponent_bounds [OF this]
  have "pow2 (e + 52) < pow2 (float_exponent x + 53)" "pow2 (float_exponent x + 52) < pow2 (e + 53)"
    using b assms by linarith+
  from this [THEN pow2_strict] show ?thesis by simp
qed

lemma to_float_half_to_one:
  assumes "1 / 2 \<le> x" and "x < 1"
  shows "to_float x = of_int (round_half_even (x * 2 ^ 53)) / 2 ^ 53"
proof -
  have "float_exponent x = - 53"
    using assms by (intro float_exponent_unique) (simp_all add: pow2_def)
  then show ?thesis using assms by (simp add: to_float_pos pow2_def)
qed

lemma to_float_08: "to_float (4 / 5) = 7205759403792794 / 2 ^ 53"
proof -
  have "\<lfloor>36028797018963968 / 5 :: rat\<rfloor> = 7205759403792793" by (rule floor_unique) simp_all
  then show ?thesis by (simp add: to_float_half_to_one round_half_even_def Let_def)
qed

text \<open>The doubles decide \<open>a / b < 0.8\<close> as the rationals do while \<open>b\<close> is at most \<open>2\<^sup>5\<^sup>3\<close>.\<close>

lemma py_div_less_08:
  assumes "0 \<le> a" and "0 < b" and "b \<le> 2 ^ 53"
  shows "to_float (of_int a / of_int b) < to_float (4 / 5) \<longleftrightarrow> 5 * a < 4 * b"
proof
  let ?x = "of_int a / of_int b :: rat"
  have nn: "0 \<le> ?x" using assms by simp
  assume l: "to_float ?x < to_float (4 / 5)"
  show "5 * a < 4 * b"
  proof (rule ccontr)
    assume "\<not> 5 * a < 4 * b"
    then have "(of_int (4 * b) :: rat) \<le> of_int (5 * a)" by (simp only: of_int_le_iff)
    then have "4 / 5 \<le> ?x" using assms by (simp add: field_simps)
    from to_float_mono [OF _ this] l show False by simp
  qed
next
  let ?x = "of_int a / of_int b :: rat"
  assume "5 * a < 4 * b"
  then have "5 * a + 1 \<le> 4 * b" by simp
  then have i: "(of_int (5 * a + 1) :: rat) \<le> of_int (4 * b)" by (simp only: of_int_le_iff)
  have b: "0 < (of_int b :: rat)" "(of_int b :: rat) \<le> 2 ^ 53"
    using assms of_int_le_iff [of b "2 ^ 53", where 'a = rat] by simp_all
  show "to_float ?x < to_float (4 / 5)"
  proof (cases "?x < 1 / 2")
    case True
    then have "to_float ?x \<le> to_float (1 / 2)" using assms by (intro to_float_mono) auto
    also have "\<dots> = 1 / 2" by (simp add: to_float_half_to_one round_half_even_def)
    also have "\<dots> < to_float (4 / 5)" by (simp add: to_float_08)
    finally show ?thesis .
  next
    case False
    have x: "?x \<le> 4 / 5 - 1 / (5 * 2 ^ 53)"
    proof -
      have "1 / (5 * 2 ^ 53) \<le> 1 / (5 * of_int b :: rat)" using b by (intro frac_le) auto
      moreover have "?x \<le> 4 / 5 - 1 / (5 * of_int b)" using i b by (simp add: field_simps)
      ultimately show ?thesis by linarith
    qed
    then have "?x * 2 ^ 53 < of_int 7205759403792794 - 1 / 2" by simp
    then have "round_half_even (?x * 2 ^ 53) < 7205759403792794" by (rule round_half_even_less)
    then have "(of_int (round_half_even (?x * 2 ^ 53)) :: rat) < of_int 7205759403792794"
      by (simp only: of_int_less_iff)
    moreover have "1 / 2 \<le> ?x" using False by simp
    moreover have "?x < 1" using x by (rule order.strict_trans1) simp
    ultimately show ?thesis by (simp add: to_float_half_to_one to_float_08)
  qed
qed


section \<open>Exactness and error\<close>

lemma to_float_int:
  assumes "0 \<le> n" and "n < 2 ^ 53"
  shows "to_float (of_int n) = of_int n"
proof (cases "n = 0")
  case True
  then show ?thesis by (simp add: to_float_def)
next
  case False
  let ?x = "of_int n :: rat" and ?e = "float_exponent (of_int n)"
  have x: "0 < ?x" using assms False by simp
  have "?x < 2 ^ 53" using assms(2) of_int_less_iff [of n "2 ^ 53", where 'a = rat] by simp
  then have "pow2 (?e + 52) < pow2 53"
    using float_exponent_bounds(1) [OF x] by (simp add: pow2_def [of 53])
  then have "?e \<le> 0" using pow2_strict by fastforce
  then have "pow2 ?e = 1 / 2 ^ nat (- ?e)" by (cases "?e = 0") (simp_all add: pow2_def)
  then have "?x / pow2 ?e = of_int (n * 2 ^ nat (- ?e))" by simp
  then have "of_int (round_half_even (?x / pow2 ?e)) = ?x / pow2 ?e" by (simp only: round_half_even_int)
  then show ?thesis by (simp only: to_float_pos [OF x]) simp
qed

lemma round_half_even_error: "\<bar>of_int (round_half_even x) - x\<bar> \<le> 1 / 2"
proof -
  have "x - of_int \<lfloor>x\<rfloor> < 1" "0 \<le> x - of_int \<lfloor>x\<rfloor>" by linarith+
  then show ?thesis unfolding round_half_even_def Let_def by (auto simp: abs_le_iff)
qed

lemma to_float_error:
  assumes "0 \<le> x"
  shows "\<bar>to_float x - x\<bar> \<le> x / 2 ^ 53"
proof (cases "x = 0")
  case True
  then show ?thesis by (simp add: to_float_def)
next
  case False
  with assms have x: "0 < x" by simp
  let ?p = "pow2 (float_exponent x)"
  have "to_float x - x = (of_int (round_half_even (x / ?p)) - x / ?p) * ?p"
    by (simp add: to_float_pos [OF x] left_diff_distrib)
  then have "\<bar>to_float x - x\<bar> \<le> 1 / 2 * ?p"
    using round_half_even_error [of "x / ?p"] by (simp only: abs_mult) (simp add: mult_right_mono)
  moreover have "2 ^ 52 * ?p \<le> x" using float_exponent_bounds(1) [OF x] pow2_add_nat [of _ 52] by simp
  ultimately show ?thesis by simp
qed

text \<open>A quotient of amounts that does not exceed an integer as a double does not exceed it.\<close>

lemma quotient_le_int:
  assumes "0 \<le> a" and "0 < b" and "0 < k" and "k * b < 2 ^ 52"
    and "to_float (of_int a / of_int b) \<le> of_int k"
  shows "a \<le> k * b"
proof (rule ccontr)
  assume "\<not> a \<le> k * b"
  then have "k * b + 1 \<le> a" by simp
  then have "(of_int (k * b + 1) :: rat) \<le> of_int a" by (simp only: of_int_le_iff)
  then have a: "(of_int (k * b) :: rat) + 1 \<le> of_int a" by (simp only: of_int_add of_int_1)
  have "(of_int (k * b) :: rat) < of_int (2 ^ 52)" using assms(4) by (simp only: of_int_less_iff)
  then have kb: "(of_int (k * b) :: rat) < 4503599627370496" by (simp del: of_int_mult)
  have b: "0 < (of_int b :: rat)" using assms(2) by simp
  let ?x = "of_int a / of_int b :: rat"
  have "?x - ?x / 2 ^ 53 \<le> of_int k" using to_float_error [of ?x] assms b by simp
  then have "(?x - ?x / 2 ^ 53) * of_int b \<le> of_int k * of_int b" using b by (intro mult_right_mono) auto
  then have "(?x - ?x / 2 ^ 53) * of_int b \<le> of_int (k * b)" by (simp only: of_int_mult)
  moreover have "(?x - ?x / 2 ^ 53) * of_int b = of_int a - of_int a / 9007199254740992"
    using b by (simp add: left_diff_distrib)
  ultimately have "of_int a - of_int a / 9007199254740992 \<le> (of_int (k * b) :: rat)" by (simp only:)
  with a kb show False by linarith
qed

lemma quotient_ge_inverse:
  assumes "0 \<le> a" and "0 < b" and "0 < k" and "b < 2 ^ 52"
    and "to_float (1 / of_int k) \<le> to_float (of_int a / of_int b)"
  shows "b \<le> k * a"
proof (rule ccontr)
  assume "\<not> b \<le> k * a"
  then have "k * a + 1 \<le> b" by simp
  then have "(of_int (k * a + 1) :: rat) \<le> of_int b" by (simp only: of_int_le_iff)
  then have a: "(of_int (k * a) :: rat) + 1 \<le> of_int b" by (simp only: of_int_add of_int_1)
  have r: "0 < (of_int b :: rat)" "(of_int b :: rat) < 2 ^ 52" "0 < (of_int k :: rat)" "0 \<le> (of_int a :: rat)"
    using assms of_int_less_iff [of b "2 ^ 52", where 'a = rat] by simp_all
  let ?x = "of_int a / of_int b :: rat" and ?y = "1 / of_int k :: rat"
  have "?y - ?y / 2 ^ 53 \<le> ?x + ?x / 2 ^ 53"
    using to_float_error [of ?x] to_float_error [of ?y] assms(5) r by simp
  then have "(?y - ?y / 2 ^ 53) * (of_int k * of_int b) \<le> (?x + ?x / 2 ^ 53) * (of_int k * of_int b)"
    using r by (intro mult_right_mono) auto
  moreover have "(?y - ?y / 2 ^ 53) * (of_int k * of_int b) = of_int b - of_int b / 9007199254740992"
    "(?x + ?x / 2 ^ 53) * (of_int k * of_int b) = of_int (k * a) + of_int (k * a) / 9007199254740992"
    using r by (simp_all add: left_diff_distrib distrib_right)
  ultimately have "of_int b - of_int b / 9007199254740992 \<le>
      (of_int (k * a) :: rat) + of_int (k * a) / 9007199254740992" by (simp only:)
  moreover have "(of_int b :: rat) < 4503599627370496" using r by simp
  ultimately show False using a by linarith
qed

end
