(* ===== verification/Gov_State.thy ===== *)
theory Gov_State
  imports Dao_Bond Period_Service Py_Float
begin

text \<open>
  The state of the governance services: \<open>gov_service\<close> extends the state service with the lists
  that \<open>BallotListService\<close>, \<open>BlindVoteListService\<close>, \<open>ProposalService\<close>, \<open>ProposalListPresentation\<close>
  and \<open>VoteResultService\<close> keep, and \<open>gov_env\<close> names what their code takes from outside: the
  decryption and parsing of blind votes, signatures, hashes, addresses, and the order in which
  Python iterates a set.  The order is a function of the members (in the order in which they were
  added, for sets built in the code): \<open>fair_order\<close> is all that is known of it.
\<close>

record gov_env =
  decrypt_votes_with_key :: "bytes \<Rightarrow> bytes \<Rightarrow> vote_with_proposal_tx_id list option"
  decrypt_merits_with_key :: "bytes \<Rightarrow> bytes \<Rightarrow> merit list option"
  ecdsa_verify :: "string \<Rightarrow> bytes \<Rightarrow> string \<Rightarrow> bool option"
  sha256_ripemd160 :: "bytes \<Rightarrow> bytes"
  serialize_for_hash :: "blind_vote \<Rightarrow> bytes"
  address_format_ok :: "string \<Rightarrow> bool"
  order_outputs :: "tx_output set \<Rightarrow> tx_output list"
  order_ballots :: "decrypted_ballots list \<Rightarrow> decrypted_ballots list"
  order_evaluated :: "evaluated_proposal list \<Rightarrow> evaluated_proposal list"

definition fair_order :: "gov_env \<Rightarrow> bool" where
  "fair_order env \<longleftrightarrow>
     (\<forall>S. finite S \<longrightarrow> set (order_outputs env S) = S \<and> distinct (order_outputs env S)) \<and>
     (\<forall>xs. mset (order_ballots env xs) = mset xs) \<and> (\<forall>xs. mset (order_evaluated env xs) = mset xs)"

record gov_service = dao_service +
  ballot_list :: "ballot list"
  blind_vote_payloads :: "blind_vote_payload list"
  storage_not_in_vote_reveal_phase :: bool
  temp_proposals :: "proposal list"
  proposal_payloads :: "proposal_payload list"
  active_or_my_unconfirmed_proposals :: "proposal list"
  vote_result_exceptions :: "(int \<times> py_error) list"
  invalid_decrypted_ballots :: "decrypted_ballots list"
  republish_requests :: nat

lemma fair_order_sets:
  assumes "fair_order env"
  shows "set (order_ballots env ds) = set ds" and "set (order_evaluated env es) = set es"
    and "length (order_ballots env ds) = length ds"
  using assms by (metis fair_order_def mset_eq_setD mset_eq_length)+

text \<open>\<open>get_tx(None)\<close> finds nothing.\<close>

definition proposal_tx :: "'a dao_state_scheme \<Rightarrow> proposal \<Rightarrow> tx option" where
  "proposal_tx s p = (case prop_tx_id p of None \<Rightarrow> None | Some i \<Rightarrow> get_tx s i)"

text \<open>A set built by adding elements one by one: an element equal to a member is not added.\<close>

definition set_add :: "('v \<Rightarrow> 'v \<Rightarrow> bool) \<Rightarrow> 'v \<Rightarrow> 'v list \<Rightarrow> 'v list" where
  "set_add eq x xs = (if \<exists>y \<in> set xs. eq y x then xs else xs @ [x])"

definition set_of_list :: "('v \<Rightarrow> 'v \<Rightarrow> bool) \<Rightarrow> 'v list \<Rightarrow> 'v list" where
  "set_of_list eq xs = fold (set_add eq) xs []"

lemma set_add_subset: "set (set_add eq x xs) \<subseteq> insert x (set xs)"
  by (auto simp: set_add_def)

lemma set_of_list_subset: "set (set_of_list eq xs) \<subseteq> set xs"
proof -
  have "set (fold (set_add eq) xs ys) \<subseteq> set xs \<union> set ys" for ys
    using set_add_subset by (induction xs arbitrary: ys) fastforce+
  then show ?thesis by (force simp: set_of_list_def)
qed

lemma set_of_list_covers: "x \<in> set xs \<Longrightarrow> (\<And>y. eq y y) \<Longrightarrow> \<exists>y \<in> set (set_of_list eq xs). y = x \<or> eq y x"
proof -
  assume refl: "\<And>y. eq y y"
  have keep: "set ys \<subseteq> set (fold (set_add eq) xs ys)" for xs ys
    by (induction xs arbitrary: ys) (auto simp: set_add_def, fastforce)
  have "x \<in> set xs \<Longrightarrow> \<exists>y \<in> set (fold (set_add eq) xs ys). y = x \<or> eq y x" for ys
  proof (induction xs arbitrary: ys)
    case (Cons z zs)
    show ?case
    proof (cases "x = z")
      case True
      then have "\<exists>y \<in> set (set_add eq z ys). y = x \<or> eq y x" by (auto simp: set_add_def)
      then show ?thesis using keep [of "set_add eq z ys" zs] by auto
    next
      case False
      then show ?thesis using Cons by auto
    qed
  qed simp
  then show "x \<in> set xs \<Longrightarrow> \<exists>y \<in> set (set_of_list eq xs). y = x \<or> eq y x" by (simp add: set_of_list_def)
qed

end
