(* ===== verification/Proposal_Validator.thy ===== *)
theory Proposal_Validator
  imports Gov_State
begin

text \<open>
  The proposal validators (\<open>dao/governance/proposal/proposal_validator.py\<close> and its subclasses,
  chosen by \<open>proposal_validator_provider.py\<close>).  Every validator turns every exception into a
  \<open>ProposalValidationException\<close>.  Coin values and percentages are compared as doubles, as in the
  code; whether a string is a bitcoin address is a parameter.
\<close>

section \<open>Fields\<close>

definition as_validation_error :: "unit res \<Rightarrow> unit res" where
  "as_validation_error r = (case r of Inl _ \<Rightarrow> Inl Proposal_Validation_Exception | Inr u \<Rightarrow> Inr u)"

definition validate_base_fields :: "proposal \<Rightarrow> unit res" where
  "validate_base_fields p = as_validation_error (
     rbind (check (prop_name p \<noteq> []) Illegal_Argument) (\<lambda>_.
     rbind (check (prop_link p \<noteq> []) Illegal_Argument) (\<lambda>_.
     rbind (check (length (prop_name p) \<le> 200) Illegal_Argument) (\<lambda>_.
     rbind (check (length (prop_link p) \<le> 200) Illegal_Argument) (\<lambda>_.
     rbind (case prop_tx_id p of None \<Rightarrow> Inr () | Some i \<Rightarrow> check (length i = 64) Illegal_Argument) (\<lambda>_.
     validate_extra_data (prop_extra_data_map p)))))))"

definition get_block_height :: "'a dao_state_scheme \<Rightarrow> proposal \<Rightarrow> int" where
  "get_block_height s p =
     (case proposal_tx s p of Some t \<Rightarrow> tx_block_height t | None \<Rightarrow> chain_height s)"

subsection \<open>Requests\<close>

definition get_min_compensation_request_amount :: "'a dao_service_scheme \<Rightarrow> int \<Rightarrow> int res" where
  "get_min_compensation_request_amount s h = get_param_value_as_coin s COMPENSATION_REQUEST_MIN_AMOUNT h"
definition get_max_compensation_request_amount :: "'a dao_service_scheme \<Rightarrow> int \<Rightarrow> int res" where
  "get_max_compensation_request_amount s h = get_param_value_as_coin s COMPENSATION_REQUEST_MAX_AMOUNT h"
definition get_min_reimbursement_request_amount :: "'a dao_service_scheme \<Rightarrow> int \<Rightarrow> int res" where
  "get_min_reimbursement_request_amount s h = get_param_value_as_coin s REIMBURSEMENT_MIN_AMOUNT h"
definition get_max_reimbursement_request_amount :: "'a dao_service_scheme \<Rightarrow> int \<Rightarrow> int res" where
  "get_max_reimbursement_request_amount s h = get_param_value_as_coin s REIMBURSEMENT_MAX_AMOUNT h"

text \<open>\<open>get_address\<close> parses the address without its first letter.\<close>

definition request_fields_ok ::
  "gov_env \<Rightarrow> string \<Rightarrow> int \<Rightarrow> int res \<Rightarrow> int res \<Rightarrow> unit res" where
  "request_fields_ok env address requested max_amount min_amount =
     rbind (check (address \<noteq> []) Illegal_Argument) (\<lambda>_.
     rbind (check (hd address = CHR ''B'') Illegal_Argument) (\<lambda>_.
     rbind (check (address_format_ok env (tl address)) Value_Error) (\<lambda>_.
     rbind max_amount (\<lambda>mx.
     rbind (check (requested \<le> mx) Illegal_Argument) (\<lambda>_.
     rbind min_amount (\<lambda>mn.
     check (mn \<le> requested) Illegal_Argument))))))"

definition validate_compensation ::
  "gov_env \<Rightarrow> 'a dao_service_scheme \<Rightarrow> proposal \<Rightarrow> unit res" where
  "validate_compensation env s p = as_validation_error (
     rbind (validate_base_fields p) (\<lambda>_.
     case prop_kind p of
       Compensation_Proposal requested address \<Rightarrow>
         request_fields_ok env address requested
           (get_max_compensation_request_amount s (get_block_height s p))
           (get_min_compensation_request_amount s (get_block_height s p))
     | _ \<Rightarrow> Inl Proposal_Validation_Exception))"

definition validate_reimbursement ::
  "gov_env \<Rightarrow> 'a dao_service_scheme \<Rightarrow> proposal \<Rightarrow> unit res" where
  "validate_reimbursement env s p = as_validation_error (
     rbind (validate_base_fields p) (\<lambda>_.
     case prop_kind p of
       Reimbursement_Proposal requested address \<Rightarrow>
         request_fields_ok env address requested
           (get_max_reimbursement_request_amount s (get_block_height s p))
           (get_min_reimbursement_request_amount s (get_block_height s p))
     | _ \<Rightarrow> Inl Proposal_Validation_Exception))"

subsection \<open>Bonds, roles, assets, generic proposals\<close>

definition validate_confiscate_bond :: "proposal \<Rightarrow> unit res" where
  "validate_confiscate_bond p = as_validation_error (
     rbind (validate_base_fields p) (\<lambda>_.
     case prop_kind p of
       Confiscate_Bond_Proposal i \<Rightarrow>
         rbind (check (i \<noteq> []) Illegal_Argument) (\<lambda>_. check (length i = 64) Illegal_Argument)
     | _ \<Rightarrow> Inl Proposal_Validation_Exception))"

definition validate_role :: "proposal \<Rightarrow> unit res" where
  "validate_role p = as_validation_error (
     rbind (validate_base_fields p) (\<lambda>_.
     case prop_kind p of Role_Proposal _ _ _ \<Rightarrow> Inr () | _ \<Rightarrow> Inl Proposal_Validation_Exception))"

definition validate_generic :: "proposal \<Rightarrow> unit res" where
  "validate_generic p = as_validation_error (validate_base_fields p)"

definition validate_remove_asset :: "proposal \<Rightarrow> unit res" where
  "validate_remove_asset p = as_validation_error (
     rbind (validate_base_fields p) (\<lambda>_.
     case prop_kind p of
       Remove_Asset_Proposal i \<Rightarrow>
         rbind (check (i \<noteq> []) Illegal_Argument) (\<lambda>_. check (length i \<le> 100) Illegal_Argument)
     | _ \<Rightarrow> Inl Proposal_Validation_Exception))"

section \<open>Parameter changes\<close>

text \<open>\<open>max_decrease\<close> and \<open>max_increase\<close> of a parameter are equal or, for the limits of requests,
  4 and 2; they are literals of the code.\<close>

definition max_decrease :: "param \<Rightarrow> rat" where
  "max_decrease p =
     (if p \<in> {COMPENSATION_REQUEST_MIN_AMOUNT, COMPENSATION_REQUEST_MAX_AMOUNT,
              REIMBURSEMENT_MIN_AMOUNT, REIMBURSEMENT_MAX_AMOUNT} then 4
      else if p \<in> {DEFAULT_MAKER_FEE_BTC, DEFAULT_TAKER_FEE_BTC, MIN_MAKER_FEE_BTC, MIN_TAKER_FEE_BTC,
              DEFAULT_MAKER_FEE_BSQ, DEFAULT_TAKER_FEE_BSQ, MIN_MAKER_FEE_BSQ, MIN_TAKER_FEE_BSQ,
              PROPOSAL_FEE, BLIND_VOTE_FEE} then 5
      else if p \<in> {ASSET_LISTING_FEE_PER_DAY, ASSET_MIN_VOLUME} then 10
      else if p \<in> {THRESHOLD_COMP_REQUEST, THRESHOLD_REIMBURSEMENT, THRESHOLD_CHANGE_PARAM,
              THRESHOLD_ROLE, THRESHOLD_CONFISCATION, THRESHOLD_GENERIC, THRESHOLD_REMOVE_ASSET}
        then to_float (12 / 10)
      else if p \<in> {Param_UNDEFINED, RECIPIENT_BTC_ADDRESS, LOCK_TIME_TRADE_PAYOUT, ARBITRATOR_FEE,
              PHASE_UNDEFINED} then 0
      else 2)"

definition max_increase :: "param \<Rightarrow> rat" where
  "max_increase p = (if max_decrease p = 4 then 2 else max_decrease p)"

text \<open>The three formatted values of the messages may raise, too; every exception becomes the same
  error.\<close>

definition validate_change :: "rat \<Rightarrow> rat \<Rightarrow> rat \<Rightarrow> rat \<Rightarrow> unit res" where
  "validate_change current_value new_value mn mx =
     rbind (check (0 \<le> mn) Illegal_Argument) (\<lambda>_.
     rbind (check (0 \<le> mx) Illegal_Argument) (\<lambda>_.
     if current_value = new_value then Inl Param_Validation_Exception
     else if mx = 0 then Inr ()
     else let change = (if current_value \<noteq> 0 then to_float (new_value / current_value) else 0)
          in if mx < change then Inl Param_Validation_Exception
             else if mn = 0 then Inr ()
             else if current_value = 0 then Inl Param_Validation_Exception
             else check (to_float (1 / mn) \<le> change) Param_Validation_Exception))"

definition validation_change :: "rat \<Rightarrow> rat \<Rightarrow> param \<Rightarrow> unit res" where
  "validation_change current_value new_value p =
     validate_change current_value new_value (max_decrease p) (max_increase p)"

definition MIN_NON_DUST_OUTPUT :: int where "MIN_NON_DUST_OUTPUT = 546"

definition validate_bsq_value :: "int \<Rightarrow> int \<Rightarrow> param \<Rightarrow> unit res" where
  "validate_bsq_value current input p =
     rbind (if p \<in> {COMPENSATION_REQUEST_MIN_AMOUNT, REIMBURSEMENT_MIN_AMOUNT,
                   COMPENSATION_REQUEST_MAX_AMOUNT, REIMBURSEMENT_MAX_AMOUNT}
            then rbind (check (MIN_NON_DUST_OUTPUT \<le> input) Illegal_Argument) (\<lambda>_.
                 check (input \<le> 200000000) Illegal_Argument)
            else if p \<in> {QUORUM_COMP_REQUEST, QUORUM_REIMBURSEMENT, QUORUM_CHANGE_PARAM, QUORUM_ROLE,
                   QUORUM_CONFISCATION, QUORUM_GENERIC, QUORUM_REMOVE_ASSET}
            then check (100000 < input) Illegal_Argument
            else if p = BONDED_ROLE_FACTOR then check (100 < input) Illegal_Argument
            else Inr ()) (\<lambda>_.
     rbind (check (0 < input) Illegal_Argument) (\<lambda>_.
     validation_change (to_float (of_int current)) (to_float (of_int input)) p))"

definition validate_btc_value :: "int \<Rightarrow> int \<Rightarrow> param \<Rightarrow> unit res" where
  "validate_btc_value current input p =
     rbind (if p \<in> {DEFAULT_MAKER_FEE_BTC, DEFAULT_TAKER_FEE_BTC, MIN_MAKER_FEE_BTC, MIN_TAKER_FEE_BTC}
            then check (MIN_NON_DUST_OUTPUT \<le> input) Illegal_Argument
            else if p \<in> {ASSET_MIN_VOLUME, MAX_TRADE_LIMIT} then check (0 < input) Illegal_Argument
            else Inr ()) (\<lambda>_.
     validation_change (to_float (of_int current)) (to_float (of_int input)) p)"

text \<open>A percentage is given in hundredths of a percent; the double is the one nearest to it.\<close>

definition percent_double :: "int \<Rightarrow> rat" where
  "percent_double n = to_float (of_int n / 10000)"

definition validate_percent_value :: "int \<Rightarrow> int \<Rightarrow> param \<Rightarrow> unit res" where
  "validate_percent_value current input p =
     rbind (if p \<in> {THRESHOLD_COMP_REQUEST, THRESHOLD_REIMBURSEMENT, THRESHOLD_CHANGE_PARAM,
                   THRESHOLD_ROLE, THRESHOLD_CONFISCATION, THRESHOLD_GENERIC, THRESHOLD_REMOVE_ASSET}
            then rbind (check (to_float (5001 / 10000) \<le> percent_double input) Illegal_Argument) (\<lambda>_.
                 check (percent_double input \<le> 1) Illegal_Argument)
            else if p = ARBITRATOR_FEE then check (0 \<le> percent_double input) Illegal_Argument
            else Inr ()) (\<lambda>_.
     validation_change (percent_double current) (percent_double input) p)"

definition validate_block_value ::
  "base_currency_network \<Rightarrow> int \<Rightarrow> int \<Rightarrow> param \<Rightarrow> unit res" where
  "validate_block_value n current input p =
     rbind (if p \<in> {PHASE_PROPOSAL, PHASE_BREAK1, PHASE_BLIND_VOTE, PHASE_BREAK2, PHASE_VOTE_REVEAL,
                   PHASE_BREAK3}
            then (if is_mainnet n then check (6 \<le> input) Illegal_Argument else Inr ())
            else if p = PHASE_RESULT
            then (if is_mainnet n then check (1 \<le> input) Illegal_Argument else Inr ())
            else Inr ()) (\<lambda>_.
     rbind (validation_change (to_float (of_int current)) (to_float (of_int input)) p) (\<lambda>_.
     check (0 \<le> input) Illegal_Argument))"

definition validate_address_value :: "gov_env \<Rightarrow> string \<Rightarrow> string \<Rightarrow> unit res" where
  "validate_address_value env current input =
     rbind (check (input \<noteq> current) Illegal_Argument) (\<lambda>_.
     check (address_format_ok env input) Param_Validation_Exception)"

text \<open>\<open>_validate_param_value\<close>: every exception becomes a \<open>ParamValidationException\<close>.\<close>

definition validate_param_value ::
  "gov_env \<Rightarrow> 'a dao_service_scheme \<Rightarrow> param \<Rightarrow> string \<Rightarrow> string \<Rightarrow> unit res" where
  "validate_param_value env s p current input =
     (case (case param_type_of p of
              PT_UNDEFINED \<Rightarrow> Inr ()
            | PT_BSQ \<Rightarrow>
                rbind (bsq_formatter s p current) (\<lambda>c.
                rbind (bsq_formatter s p input) (\<lambda>i. validate_bsq_value c i p))
            | PT_BTC \<Rightarrow>
                rbind (bsq_formatter s p current) (\<lambda>c.
                rbind (bsq_formatter s p input) (\<lambda>i. validate_btc_value c i p))
            | PT_PERCENT \<Rightarrow>
                rbind (percent_parser s current) (\<lambda>c.
                rbind (percent_parser s input) (\<lambda>i. validate_percent_value c i p))
            | PT_BLOCK \<Rightarrow>
                rbind (py_int current) (\<lambda>c.
                rbind (py_int input) (\<lambda>i. validate_block_value (network s) c i p))
            | PT_ADDRESS \<Rightarrow> validate_address_value env current input) of
        Inl _ \<Rightarrow> Inl Param_Validation_Exception
      | Inr u \<Rightarrow> Inr u)"

definition validate_param_value_at_height ::
  "gov_env \<Rightarrow> 'a dao_service_scheme \<Rightarrow> param \<Rightarrow> string \<Rightarrow> int \<Rightarrow> unit res" where
  "validate_param_value_at_height env s p input h =
     validate_param_value env s p (get_param_value s p h) input"

definition validate_change_param ::
  "gov_env \<Rightarrow> 'a dao_service_scheme \<Rightarrow> proposal \<Rightarrow> unit res" where
  "validate_change_param env s p = as_validation_error (
     rbind (validate_base_fields p) (\<lambda>_.
     if parse_block_chain_complete s
     then (case prop_kind p of
             Change_Param_Proposal x v \<Rightarrow>
               rbind (validate_param_value_at_height env s x v (get_block_height s p)) (\<lambda>_.
               check (length v \<le> 200) Illegal_Argument)
           | _ \<Rightarrow> Inl Proposal_Validation_Exception)
     else Inr ()))"

section \<open>The validator of a proposal\<close>

text \<open>\<open>get_validator\<close> chooses by the type of the proposal.\<close>

definition validate_data_fields ::
  "gov_env \<Rightarrow> 'a dao_service_scheme \<Rightarrow> proposal \<Rightarrow> unit res" where
  "validate_data_fields env s p =
     (case kind_type (prop_kind p) of
        PrT_COMPENSATION_REQUEST \<Rightarrow> validate_compensation env s p
      | PrT_REIMBURSEMENT_REQUEST \<Rightarrow> validate_reimbursement env s p
      | PrT_CHANGE_PARAM \<Rightarrow> validate_change_param env s p
      | PrT_BONDED_ROLE \<Rightarrow> validate_role p
      | PrT_CONFISCATE_BOND \<Rightarrow> validate_confiscate_bond p
      | PrT_GENERIC \<Rightarrow> validate_generic p
      | PrT_REMOVE_ASSET \<Rightarrow> validate_remove_asset p
      | PrT_UNDEFINED \<Rightarrow> Inl Runtime_Error)"

definition are_data_fields_valid :: "gov_env \<Rightarrow> 'a dao_service_scheme \<Rightarrow> proposal \<Rightarrow> bool" where
  "are_data_fields_valid env s p \<longleftrightarrow> is_ok (validate_data_fields env s p)"

definition is_tx_type_valid :: "'a dao_state_scheme \<Rightarrow> proposal \<Rightarrow> bool" where
  "is_tx_type_valid s p =
     (case prop_tx_id p of
        None \<Rightarrow> False
      | Some i \<Rightarrow> if i = [] then False
                 else get_optional_tx_type s i = Some (kind_tx_type (prop_kind p)))"

text \<open>\<open>_is_valid\<close>; the type of the transaction is the one its class of proposal requires.\<close>

definition is_valid_proposal :: "gov_env \<Rightarrow> 'a dao_service_scheme \<Rightarrow> proposal \<Rightarrow> bool \<Rightarrow> bool" where
  "is_valid_proposal env s p allow_unconfirmed =
     (if \<not> are_data_fields_valid env s p then False
      else case prop_tx_id p of
        None \<Rightarrow> False
      | Some i \<Rightarrow>
          if i = [] then False
          else (case get_tx s i of
            Some t \<Rightarrow>
              if \<not> is_tx_in_correct_cycle s (tx_block_height t) (chain_height s) then False
              else if \<not> is_in_phase s (tx_block_height t) Phase_PROPOSAL then False
              else (case prop_kind p of
                  Compensation_Proposal _ _ \<Rightarrow> tx_tx_type t = Some COMPENSATION_REQUEST
                | Reimbursement_Proposal _ _ \<Rightarrow> tx_tx_type t = Some REIMBURSEMENT_REQUEST
                | _ \<Rightarrow> tx_tx_type t = Some PROPOSAL)
          | None \<Rightarrow> if allow_unconfirmed then is_in_phase s (chain_height s) Phase_PROPOSAL else False))"

definition is_valid_and_confirmed :: "gov_env \<Rightarrow> 'a dao_service_scheme \<Rightarrow> proposal \<Rightarrow> bool" where
  "is_valid_and_confirmed env s p = is_valid_proposal env s p False"

definition is_valid_or_unconfirmed :: "gov_env \<Rightarrow> 'a dao_service_scheme \<Rightarrow> proposal \<Rightarrow> bool" where
  "is_valid_or_unconfirmed env s p = is_valid_proposal env s p True"


section \<open>What the validators accept\<close>

lemma as_validation_error_ok [simp]: "as_validation_error r = Inr u \<longleftrightarrow> r = Inr ()"
  by (cases r) (auto simp: as_validation_error_def)

lemma validate_base_fields_iff:
  "validate_base_fields p = Inr () \<longleftrightarrow>
     prop_name p \<noteq> [] \<and> prop_link p \<noteq> [] \<and> length (prop_name p) \<le> 200 \<and> length (prop_link p) \<le> 200 \<and>
     (\<forall>i. prop_tx_id p = Some i \<longrightarrow> length i = 64) \<and> validate_extra_data (prop_extra_data_map p) = Inr ()"
  by (auto simp: validate_base_fields_def split: option.splits)

lemma data_fields_valid_base:
  "are_data_fields_valid env s p \<Longrightarrow> validate_base_fields p = Inr ()"
  by (cases "prop_kind p")
    (auto simp: are_data_fields_valid_def is_ok_iff validate_data_fields_def validate_compensation_def
      validate_reimbursement_def validate_change_param_def validate_role_def validate_confiscate_bond_def
      validate_generic_def validate_remove_asset_def)

text \<open>A confirmed and valid proposal was published in the proposal phase of the current cycle, by a
  transaction of the type its kind requires.\<close>

lemma valid_and_confirmed_tx:
  assumes "is_valid_and_confirmed env s p"
  shows "\<exists>i t. prop_tx_id p = Some i \<and> length i = 64 \<and> get_tx s i = Some t \<and>
     tx_tx_type t = Some (kind_tx_type (prop_kind p)) \<and>
     is_tx_in_phase_and_cycle s i Phase_PROPOSAL (chain_height s)"
proof -
  have "are_data_fields_valid env s p"
    using assms by (auto simp: is_valid_and_confirmed_def is_valid_proposal_def split: if_splits)
  then have l: "\<forall>i. prop_tx_id p = Some i \<longrightarrow> length i = 64"
    using data_fields_valid_base validate_base_fields_iff by blast
  from assms obtain i t where "prop_tx_id p = Some i" "get_tx s i = Some t"
    "tx_tx_type t = Some (kind_tx_type (prop_kind p))"
    "is_tx_in_correct_cycle s (tx_block_height t) (chain_height s)"
    "is_in_phase s (tx_block_height t) Phase_PROPOSAL"
    by (auto simp: is_valid_and_confirmed_def is_valid_proposal_def
        split: if_splits option.splits proposal_kind.splits)
  then show ?thesis
    using l by (auto simp: is_tx_in_phase_and_cycle_def is_tx_in_phase_def is_tx_in_correct_cycle_by_id_def)
qed

text \<open>The limits of a change, for amounts the doubles represent exactly.\<close>

lemma validate_change_limits:
  assumes "validate_change (to_float (of_int cur)) (to_float (of_int new)) (of_int mn) (of_int mx) = Inr ()"
    and "0 < cur" and "0 \<le> new" and "0 < mn" and "0 < mx" and "mx * cur < 2 ^ 52" and "new < 2 ^ 53"
  shows "new \<noteq> cur \<and> new \<le> mx * cur \<and> cur \<le> mn * new"
proof -
  have c: "cur < 2 ^ 52"
  proof -
    have "1 * cur \<le> mx * cur" using assms by (intro mult_right_mono) auto
    then show ?thesis using assms(6) by simp
  qed
  have e: "to_float (of_int cur) = of_int cur" "to_float (of_int new) = of_int new"
    using assms c by (simp_all add: to_float_int)
  have "\<not> of_int mx < to_float (of_int new / of_int cur)" "to_float (1 / of_int mn) \<le> to_float (of_int new / of_int cur)"
    "new \<noteq> cur"
    using assms(1,2,4,5) by (auto simp: validate_change_def e Let_def split: if_splits)
  then show ?thesis
    using quotient_le_int [OF assms(3,2,5,6)] quotient_ge_inverse [OF assms(3,2,4) c] by simp
qed

lemma coin_param_factors:
  assumes "param_type_of p \<in> {PT_BSQ, PT_BTC}"
  shows "\<exists>mn mx. max_decrease p = of_int mn \<and> max_increase p = of_int mx \<and> 0 < mn \<and> 0 < mx"
proof (cases "max_decrease p = 4")
  case True
  then have "max_decrease p = of_int 4 \<and> max_increase p = of_int 2" by (simp add: max_increase_def)
  then show ?thesis by force
next
  case False
  have "max_decrease p \<in> {of_int 2, of_int 4, of_int 5, of_int 10}"
    using assms by (cases p) (simp_all add: max_decrease_def)
  with False show ?thesis by (auto simp: max_increase_def)
qed

lemma coin_param_change_limits:
  assumes "validate_param_value env s p current input = Inr ()" and "param_type_of p \<in> {PT_BSQ, PT_BTC}"
    and "bsq_formatter s p current = Inr cur" and "0 < cur"
    and "bsq_formatter s p input = Inr new" and "0 \<le> new" and "new < 2 ^ 53"
    and "max_increase p * of_int cur < 2 ^ 52"
  shows "new \<noteq> cur \<and> of_int new \<le> max_increase p * of_int cur \<and> of_int cur \<le> max_decrease p * of_int new"
proof -
  obtain mn mx where m: "max_decrease p = of_int mn" "max_increase p = of_int mx" "0 < mn" "0 < mx"
    using coin_param_factors [OF assms(2)] by blast
  have "validation_change (to_float (of_int cur)) (to_float (of_int new)) p = Inr ()"
    using assms(1-3,5)
    by (auto simp: validate_param_value_def validate_bsq_value_def validate_btc_value_def split: sum.splits)
  then have v: "validate_change (to_float (of_int cur)) (to_float (of_int new)) (of_int mn) (of_int mx) = Inr ()"
    by (simp add: validation_change_def m)
  have "of_int (mx * cur) < (of_int (2 ^ 52) :: rat)" using assms(8) by (simp add: m)
  then have "mx * cur < 2 ^ 52" by (simp only: of_int_less_iff)
  from validate_change_limits [OF v assms(4,6) m(3,4) this assms(7)]
  have "new \<noteq> cur" "new \<le> mx * cur" "cur \<le> mn * new" by simp_all
  moreover from this have "(of_int new :: rat) \<le> of_int (mx * cur)" "(of_int cur :: rat) \<le> of_int (mn * new)"
    by (simp_all only: of_int_le_iff)
  ultimately show ?thesis by (simp add: m)
qed

end
