(* ===== verification/Gov_Lists.thy ===== *)
theory Gov_Lists
  imports Proposal_Validator
begin

text \<open>
  The services that collect what the P2P network delivers: blind votes
  (\<open>dao/governance/blindvote/blind_vote_validator.py\<close>, \<open>blind_vote_list_service.py\<close>,
  \<open>blind_vote_consensus.py\<close>), proposals (\<open>dao/governance/proposal/proposal_service.py\<close>,
  \<open>proposal_list_presentation.py\<close>) and the ballots made of them
  (\<open>dao/governance/ballot/ballot_list_service.py\<close>).  Payloads arrive as values of
  \<open>persistable_payload\<close> and \<open>storage_payload\<close>; the stores they are read from are arguments.
  Persistence requests and the listeners of the user interface are left out.
\<close>

section \<open>Blind votes\<close>

definition validate_blind_vote_fields :: "blind_vote \<Rightarrow> unit res" where
  "validate_blind_vote_fields bv = as_validation_error (
     rbind (check (bv_encrypted_votes bv \<noteq> []) Illegal_Argument) (\<lambda>_.
     rbind (check (length (bv_encrypted_votes bv) \<le> 100000) Illegal_Argument) (\<lambda>_.
     rbind (check (length (bv_tx_id bv) = 64) Illegal_Argument) (\<lambda>_.
     rbind (check (MIN_NON_DUST_OUTPUT \<le> bv_stake bv) Illegal_Argument) (\<lambda>_.
     rbind (check (bv_encrypted_merit_list bv \<noteq> []) Illegal_Argument) (\<lambda>_.
     rbind (check (length (bv_encrypted_merit_list bv) \<le> 100000) Illegal_Argument) (\<lambda>_.
     validate_extra_data (bv_extra_data_map bv))))))))"

definition are_blind_vote_fields_valid :: "blind_vote \<Rightarrow> bool" where
  "are_blind_vote_fields_valid bv \<longleftrightarrow> is_ok (validate_blind_vote_fields bv)"

definition are_data_fields_valid_and_tx_confirmed :: "'a dao_state_scheme \<Rightarrow> blind_vote \<Rightarrow> bool" where
  "are_data_fields_valid_and_tx_confirmed s bv \<longleftrightarrow>
     are_blind_vote_fields_valid bv \<and> get_tx s (bv_tx_id bv) \<noteq> None"

definition is_blind_vote_in_phase_and_cycle :: "'a dao_state_scheme \<Rightarrow> blind_vote \<Rightarrow> bool" where
  "is_blind_vote_in_phase_and_cycle s bv =
     (case get_tx s (bv_tx_id bv) of
        None \<Rightarrow> False
      | Some t \<Rightarrow>
          if \<not> is_tx_in_correct_cycle s (tx_block_height t) (chain_height s) then False
          else if \<not> is_tx_in_phase s (bv_tx_id bv) Phase_BLIND_VOTE then False
          else True)"

datatype persistable_payload =
    Proposal_Payload_Item proposal_payload
  | Blind_Vote_Payload_Item blind_vote_payload
  | Other_Persistable_Item

definition not_in_vote_reveal_phase :: "'a dao_state_scheme \<Rightarrow> int \<Rightarrow> bool" where
  "not_in_vote_reveal_phase s h \<longleftrightarrow> \<not> is_in_phase s h Phase_VOTE_REVEAL"

definition blind_vote_on_new_block_height :: "int \<Rightarrow> gov_service \<Rightarrow> gov_service" where
  "blind_vote_on_new_block_height h s =
     s\<lparr>storage_not_in_vote_reveal_phase := not_in_vote_reveal_phase s h\<rparr>"

text \<open>\<open>BlindVoteStorageService.can_handle\<close>: whether the store takes a payload.\<close>

definition blind_vote_storage_can_handle :: "gov_service \<Rightarrow> persistable_payload \<Rightarrow> bool" where
  "blind_vote_storage_can_handle s p \<longleftrightarrow>
     (case p of Blind_Vote_Payload_Item _ \<Rightarrow> True | _ \<Rightarrow> False) \<and> storage_not_in_vote_reveal_phase s"

definition blind_vote_data_added :: "persistable_payload \<Rightarrow> bool \<Rightarrow> gov_service \<Rightarrow> gov_service" where
  "blind_vote_data_added p from_broadcast_message s =
     (case p of
        Blind_Vote_Payload_Item bp \<Rightarrow>
          if \<exists>q \<in> set (blind_vote_payloads s). blind_vote_payload_eq q bp then s
          else if are_blind_vote_fields_valid (bvp_blind_vote bp) then
            (if from_broadcast_message then
               (if not_in_vote_reveal_phase s (chain_height s)
                then s\<lparr>blind_vote_payloads := blind_vote_payloads s @ [bp]\<rparr> else s)
             else s\<lparr>blind_vote_payloads := blind_vote_payloads s @ [bp]\<rparr>)
          else s
      | _ \<Rightarrow> s)"

definition blind_vote_on_added :: "persistable_payload \<Rightarrow> gov_service \<Rightarrow> gov_service" where
  "blind_vote_on_added p = blind_vote_data_added p True"

definition blind_vote_fill_list :: "persistable_payload list \<Rightarrow> gov_service \<Rightarrow> gov_service" where
  "blind_vote_fill_list stored s = fold (\<lambda>p. blind_vote_data_added p False) stored s"

definition get_blind_votes_in_phase_and_cycle :: "gov_service \<Rightarrow> blind_vote list" where
  "get_blind_votes_in_phase_and_cycle s =
     filter (is_blind_vote_in_phase_and_cycle s) (map bvp_blind_vote (blind_vote_payloads s))"

definition get_confirmed_blind_votes :: "gov_service \<Rightarrow> blind_vote list" where
  "get_confirmed_blind_votes s =
     filter (are_data_fields_valid_and_tx_confirmed s) (map bvp_blind_vote (blind_vote_payloads s))"

definition get_sorted_blind_vote_list_of_cycle :: "gov_service \<Rightarrow> blind_vote list" where
  "get_sorted_blind_vote_list_of_cycle s = sort_key bv_tx_id (get_blind_votes_in_phase_and_cycle s)"

section \<open>Ballots\<close>

definition is_new_proposal :: "gov_service \<Rightarrow> proposal \<Rightarrow> bool" where
  "is_new_proposal s p \<longleftrightarrow> (\<forall>b \<in> set (ballot_list s). \<not> proposal_eq (bal_proposal b) p)"

definition register_proposal_as_ballot :: "proposal \<Rightarrow> gov_service \<Rightarrow> gov_service" where
  "register_proposal_as_ballot p s =
     (let b = \<lparr>bal_proposal = p, bal_vote = None\<rparr>
      in if \<exists>x \<in> set (ballot_list s). ballot_eq x b then s
         else s\<lparr>ballot_list := ballot_list s @ [b]\<rparr>)"

definition ballots_on_changed :: "proposal_payload list \<Rightarrow> gov_service \<Rightarrow> gov_service" where
  "ballots_on_changed added s =
     fold (\<lambda>pp u. if is_new_proposal u (pp_proposal pp)
                  then register_proposal_as_ballot (pp_proposal pp) u else u) added s"

text \<open>The ballot object is one of the list; it is named by its position.\<close>

definition set_vote :: "nat \<Rightarrow> vote option \<Rightarrow> gov_service \<Rightarrow> gov_service" where
  "set_vote i v s = s\<lparr>ballot_list := (ballot_list s)[i := (ballot_list s ! i)\<lparr>bal_vote := v\<rparr>]\<rparr>"

definition get_validated_ballot_list :: "gov_service \<Rightarrow> ballot list" where
  "get_validated_ballot_list s = filter (\<lambda>b. is_tx_type_valid s (bal_proposal b)) (ballot_list s)"

definition get_valid_ballots_of_cycle :: "gov_service \<Rightarrow> ballot list" where
  "get_valid_ballots_of_cycle s =
     filter (\<lambda>b. is_tx_type_valid s (bal_proposal b) \<and>
        (case ballot_tx_id b of
           None \<Rightarrow> False | Some i \<Rightarrow> is_tx_in_correct_cycle_by_id s i (chain_height s))) (ballot_list s)"

definition get_sorted_ballot_list :: "gov_service \<Rightarrow> ballot list res" where
  "get_sorted_ballot_list s = sort_by_tx_id ballot_tx_id (get_valid_ballots_of_cycle s)"

section \<open>Proposals\<close>

datatype storage_payload = Temp_Proposal_Payload proposal | Other_Storage_Payload

text \<open>Appending to the observable list \<open>proposal_payloads\<close> calls the ballot service.\<close>

definition append_proposal_payload :: "proposal_payload \<Rightarrow> gov_service \<Rightarrow> gov_service" where
  "append_proposal_payload pp s =
     ballots_on_changed [pp] (s\<lparr>proposal_payloads := proposal_payloads s @ [pp]\<rparr>)"

definition protected_data_added :: "gov_env \<Rightarrow> storage_payload \<Rightarrow> gov_service \<Rightarrow> gov_service" where
  "protected_data_added env e s =
     (case e of
        Temp_Proposal_Payload p \<Rightarrow>
          if is_in_phase s (chain_height s) Phase_PROPOSAL \<or> is_in_phase s (chain_height s) Phase_BREAK1 then
            (if \<exists>q \<in> set (temp_proposals s). proposal_eq q p then s
             else if \<not> parse_block_chain_complete s \<or> are_data_fields_valid env s p
             then s\<lparr>temp_proposals := temp_proposals s @ [p]\<rparr> else s)
          else s
      | Other_Storage_Payload \<Rightarrow> s)"

definition append_only_data_added :: "gov_env \<Rightarrow> persistable_payload \<Rightarrow> gov_service \<Rightarrow> gov_service" where
  "append_only_data_added env e s =
     (case e of
        Proposal_Payload_Item pp \<Rightarrow>
          if \<exists>q \<in> set (proposal_payloads s). proposal_payload_eq q pp then s
          else if \<not> parse_block_chain_complete s \<or> are_data_fields_valid env s (pp_proposal pp)
          then append_proposal_payload pp s else s
      | _ \<Rightarrow> s)"

text \<open>The class inherits \<open>on_added\<close> from two listener interfaces and defines it twice; only the second
  definition, the one for the append-only store, exists.  The P2P data storage calls it with a list
  of storage entries as well, which is no \<open>ProposalPayload\<close>.\<close>

datatype on_added_argument =
  Storage_Entries "storage_payload list" | Persistable_Payload persistable_payload

definition proposal_service_on_added :: "gov_env \<Rightarrow> on_added_argument \<Rightarrow> gov_service \<Rightarrow> gov_service" where
  "proposal_service_on_added env a s =
     (case a of
        Persistable_Payload p \<Rightarrow> append_only_data_added env p s
      | Storage_Entries _ \<Rightarrow> s)"

fun remove_first :: "('v \<Rightarrow> bool) \<Rightarrow> 'v list \<Rightarrow> 'v list" where
  "remove_first p [] = []"
| "remove_first p (x # xs) = (if p x then xs else x # remove_first p xs)"

definition removal_allowed :: "gov_service \<Rightarrow> proposal \<Rightarrow> bool" where
  "removal_allowed s p \<longleftrightarrow>
     is_in_phase s (chain_height s) Phase_PROPOSAL \<or>
     (case prop_tx_id p of None \<Rightarrow> False | Some i \<Rightarrow> is_tx_in_past_cycle s i (chain_height s)) \<or>
     proposal_tx s p = None"

definition protected_data_removed :: "storage_payload list \<Rightarrow> gov_service \<Rightarrow> gov_service" where
  "protected_data_removed es s =
     (let kept = fold (\<lambda>e ps. case e of
              Temp_Proposal_Payload p \<Rightarrow>
                if removal_allowed s p then remove_first (\<lambda>q. proposal_eq q p) ps else ps
            | Other_Storage_Payload \<Rightarrow> ps) es (temp_proposals s)
      in s\<lparr>temp_proposals := filter (\<lambda>p. \<exists>q \<in> set kept. proposal_eq q p) (temp_proposals s)\<rparr>)"

definition fill_list_from_protected_store ::
  "gov_env \<Rightarrow> storage_payload list \<Rightarrow> gov_service \<Rightarrow> gov_service" where
  "fill_list_from_protected_store env data s = fold (protected_data_added env) data s"

definition fill_list_from_append_only_data_store ::
  "gov_env \<Rightarrow> persistable_payload list \<Rightarrow> gov_service \<Rightarrow> gov_service" where
  "fill_list_from_append_only_data_store env stored s = fold (append_only_data_added env) stored s"

text \<open>The proposals that \<open>_maybe_publish_to_append_only_data_store\<close> hands to the network.\<close>

definition proposals_to_publish :: "gov_env \<Rightarrow> gov_service \<Rightarrow> proposal list" where
  "proposals_to_publish env s = filter (is_valid_and_confirmed env s) (temp_proposals s)"

definition get_validated_proposals :: "gov_service \<Rightarrow> proposal list" where
  "get_validated_proposals s = filter (is_tx_type_valid s) (map pp_proposal (proposal_payloads s))"

definition get_required_quorum :: "gov_service \<Rightarrow> proposal \<Rightarrow> int res" where
  "get_required_quorum s p = get_param_value_as_coin s (get_quorum_param p) (get_block_height s p)"

definition get_required_threshold :: "gov_service \<Rightarrow> proposal \<Rightarrow> int res" where
  "get_required_threshold s p = get_param_value_as_percent s (get_threshold_param p) (get_block_height s p)"

text \<open>\<open>ProposalListPresentation._update_lists\<close>; \<open>mine\<close> are the own proposals whose transaction the
  wallet reports as pending, \<open>order\<close> the order in which the set of proposals is iterated.\<close>

definition update_lists ::
  "gov_env \<Rightarrow> (proposal list \<Rightarrow> proposal list) \<Rightarrow> proposal list \<Rightarrow> gov_service \<Rightarrow> gov_service" where
  "update_lists env order mine s =
     (let verified = filter (\<lambda>p. \<not> parse_block_chain_complete s \<or> is_valid_and_confirmed env s p)
                       (map pp_proposal (proposal_payloads s));
          mine' = filter (\<lambda>p. proposal_tx s p = None) mine;
          all = order (set_of_list same_proposal_key (temp_proposals s @ verified @ mine'))
      in s\<lparr>active_or_my_unconfirmed_proposals :=
             filter (\<lambda>p. is_valid_and_confirmed env s p \<or> (\<exists>q \<in> set mine'. proposal_eq q p)) all\<rparr>)"


section \<open>Invariants of the lists\<close>

text \<open>What can happen to the lists: payloads arrive by broadcast or from the stores, entries are
  removed, the user votes, the lists for the user interface are rebuilt, and the chain advances,
  which changes anything but the lists.\<close>

definition lists_same :: "gov_service \<Rightarrow> gov_service \<Rightarrow> bool" where
  "lists_same s t \<longleftrightarrow>
     ballot_list t = ballot_list s \<and> blind_vote_payloads t = blind_vote_payloads s \<and>
     proposal_payloads t = proposal_payloads s \<and> temp_proposals t = temp_proposals s"

inductive gov_step :: "gov_env \<Rightarrow> gov_service \<Rightarrow> gov_service \<Rightarrow> bool" for env where
  proposal_added: "gov_step env s (proposal_service_on_added env a s)"
| proposal_stored: "gov_step env s (append_only_data_added env p s)"
| temp_proposal_stored: "gov_step env s (protected_data_added env e s)"
| temp_proposals_removed: "gov_step env s (protected_data_removed es s)"
| blind_vote_added: "gov_step env s (blind_vote_on_added p s)"
| blind_vote_stored: "gov_step env s (blind_vote_data_added p False s)"
| voted: "i < length (ballot_list s) \<Longrightarrow> gov_step env s (set_vote i v s)"
| lists_updated: "gov_step env s (update_lists env order mine s)"
| chain_advanced: "lists_same s t \<Longrightarrow> gov_step env s t"

text \<open>Every proposal payload has a ballot, no two ballots are for the same proposal; every blind vote
  has valid fields, and none is there twice.\<close>

definition lists_ok :: "gov_service \<Rightarrow> bool" where
  "lists_ok s \<longleftrightarrow>
     (\<forall>pp \<in> set (proposal_payloads s). \<exists>b \<in> set (ballot_list s). proposal_eq (bal_proposal b) (pp_proposal pp)) \<and>
     sorted_wrt (\<lambda>a b. \<not> proposal_eq (bal_proposal a) (bal_proposal b)) (ballot_list s) \<and>
     (\<forall>bp \<in> set (blind_vote_payloads s). are_blind_vote_fields_valid (bvp_blind_vote bp)) \<and>
     sorted_wrt (\<lambda>a b. \<not> blind_vote_payload_eq a b) (blind_vote_payloads s)"

lemma lists_ok_same: "lists_same s t \<Longrightarrow> lists_ok t = lists_ok s"
  by (simp add: lists_same_def lists_ok_def)

lemma register_cases:
  "ballot_list (ballots_on_changed [pp] s) =
     (if is_new_proposal s (pp_proposal pp)
      then ballot_list s @ [\<lparr>bal_proposal = pp_proposal pp, bal_vote = None\<rparr>] else ballot_list s)"
  "blind_vote_payloads (ballots_on_changed [pp] s) = blind_vote_payloads s"
  "proposal_payloads (ballots_on_changed [pp] s) = proposal_payloads s"
  by (auto simp: ballots_on_changed_def register_proposal_as_ballot_def is_new_proposal_def ballot_eq_def Let_def)

lemma append_proposal_payload_ok:
  assumes "lists_ok s"
  shows "lists_ok (append_proposal_payload pp s)"
proof -
  let ?u = "s\<lparr>proposal_payloads := proposal_payloads s @ [pp]\<rparr>"
  have n: "is_new_proposal ?u p = is_new_proposal s p" for p by (simp add: is_new_proposal_def)
  show ?thesis
    using assms unfolding lists_ok_def append_proposal_payload_def register_cases n
    by (auto simp: sorted_wrt_append is_new_proposal_def)
qed

lemma blind_vote_data_added_ok: "lists_ok s \<Longrightarrow> lists_ok (blind_vote_data_added p b s)"
  by (auto simp: lists_ok_def blind_vote_data_added_def sorted_wrt_append split: persistable_payload.split)

lemma set_vote_ok:
  assumes "lists_ok s" and "i < length (ballot_list s)"
  shows "lists_ok (set_vote i v s)"
proof -
  let ?l = "(ballot_list s)[i := (ballot_list s ! i)\<lparr>bal_vote := v\<rparr>]"
  have p: "map bal_proposal ?l = map bal_proposal (ballot_list s)"
    using assms(2) list_update_id [of "map bal_proposal (ballot_list s)" i] by (simp add: map_update)
  have ex: "(\<exists>b \<in> set l. proposal_eq (bal_proposal b) q) \<longleftrightarrow> (\<exists>r \<in> set (map bal_proposal l). proposal_eq r q)"
    for l q by simp
  have so: "sorted_wrt (\<lambda>a b. \<not> proposal_eq (bal_proposal a) (bal_proposal b)) l \<longleftrightarrow>
      sorted_wrt (\<lambda>a b. \<not> proposal_eq a b) (map bal_proposal l)" for l
    by (simp add: sorted_wrt_map)
  show ?thesis using assms(1) unfolding lists_ok_def ex so by (simp add: set_vote_def p del: set_map)
qed

lemma gov_step_ok: "gov_step env s t \<Longrightarrow> lists_ok s \<Longrightarrow> lists_ok t"
proof (induction rule: gov_step.induct)
  case (proposal_added s a)
  then show ?case
    by (auto simp: proposal_service_on_added_def append_only_data_added_def append_proposal_payload_ok
        split: on_added_argument.split persistable_payload.split)
next
  case (proposal_stored s p)
  then show ?case
    by (auto simp: append_only_data_added_def append_proposal_payload_ok split: persistable_payload.split)
next
  case (temp_proposal_stored s e)
  then show ?case by (auto simp: lists_ok_def protected_data_added_def split: storage_payload.split)
next
  case (temp_proposals_removed s es)
  then show ?case by (simp add: lists_ok_def protected_data_removed_def Let_def)
next
  case (blind_vote_added s p)
  then show ?case by (simp add: blind_vote_on_added_def blind_vote_data_added_ok)
next
  case (lists_updated s order mine)
  then show ?case by (simp add: lists_ok_def update_lists_def Let_def)
next
  case (chain_advanced s t)
  then show ?case by (simp add: lists_ok_same)
qed (simp_all add: blind_vote_data_added_ok set_vote_ok)

lemma gov_reachable_ok: "(gov_step env)\<^sup>*\<^sup>* s t \<Longrightarrow> lists_ok s \<Longrightarrow> lists_ok t"
  by (induction rule: rtranclp_induct) (auto intro: gov_step_ok)

text \<open>Late publishing: blind votes that arrive by broadcast in the vote reveal phase change nothing,
  so the list whose hash the voters reveal stays what it is.\<close>

lemma late_blind_votes_ignored:
  "is_in_phase s (chain_height s) Phase_VOTE_REVEAL \<Longrightarrow> fold blind_vote_on_added ps s = s"
  by (induction ps)
    (auto simp: blind_vote_on_added_def blind_vote_data_added_def not_in_vote_reveal_phase_def
      split: persistable_payload.split)

end
