(* ===== verification/Merit.thy ===== *)
theory Merit
  imports Dao_Bond
begin

text \<open>
  The merit of a voter (\<open>dao/governance/merit/merit_consensus.py\<close>): past issuance, weighted by its
  age, that the voter proves with a signature of the blind vote transaction.  The verification of
  an ECDSA signature is a parameter: public key, signature and hash, \<open>None\<close> when the library
  raises.
\<close>

definition BLOCKS_PER_YEAR :: int where "BLOCKS_PER_YEAR = 50000"

definition get_weighted_merit_amount :: "int \<Rightarrow> int \<Rightarrow> int \<Rightarrow> int \<Rightarrow> int res" where
  "get_weighted_merit_amount amount issuance_height block_height blocks_per_year =
     rbind (check (issuance_height \<le> block_height) Value_Error) (\<lambda>_.
     rbind (check (0 \<le> block_height) Value_Error) (\<lambda>_.
     rbind (check (0 \<le> amount) Value_Error) (\<lambda>_.
     rbind (check (0 \<le> blocks_per_year) Value_Error) (\<lambda>_.
     rbind (check (0 \<le> issuance_height) Value_Error) (\<lambda>_.
       let max_age = 2 * blocks_per_year;
           age = min max_age (block_height - issuance_height);
           inverse_age = max_age - age
       in if max_age = 0 then Inl Zero_Division_Error
          else Inr ((amount * inverse_age) div max_age))))))"

text \<open>\<open>logger\<close> is assigned in two branches of the function and so is a local variable: its use in the
  first branch, where it has no value yet, raises.\<close>

definition is_signature_valid ::
  "(string \<Rightarrow> bytes \<Rightarrow> string \<Rightarrow> bool option) \<Rightarrow> bytes \<Rightarrow> string option \<Rightarrow> string \<Rightarrow> bool res" where
  "is_signature_valid verify signature_from_merit pub_key_as_hex blind_vote_tx_id =
     (case pub_key_as_hex of
        None \<Rightarrow> Inl Unbound_Local_Error
      | Some k \<Rightarrow>
          Inr (case verify k signature_from_merit blind_vote_tx_id of None \<Rightarrow> False | Some b \<Rightarrow> b))"

definition merit_weight :: "issuance \<Rightarrow> int \<Rightarrow> int res" where
  "merit_weight iss h =
     rbind (check (iss_issuance_type iss = IT_COMPENSATION) Illegal_Argument) (\<lambda>_.
       get_weighted_merit_amount (iss_amount iss) (iss_chain_height iss) h BLOCKS_PER_YEAR)"

text \<open>The handler of the \<open>try\<close> block uses \<open>logger\<close>, which only the first branch assigns.\<close>

definition merit_step ::
  "(string \<Rightarrow> bytes \<Rightarrow> string \<Rightarrow> bool option) \<Rightarrow> string \<Rightarrow> int \<Rightarrow> merit \<Rightarrow> int \<Rightarrow> int res" where
  "merit_step verify blind_vote_tx_id h m acc =
     rbind (is_signature_valid verify (merit_signature m) (iss_pub_key (merit_issuance m))
              blind_vote_tx_id) (\<lambda>v.
       if v \<and> iss_chain_height (merit_issuance m) \<le> h
       then (case merit_weight (merit_issuance m) h of
               Inl _ \<Rightarrow> Inl Unbound_Local_Error
             | Inr w \<Rightarrow> Inr (acc + w))
       else Inr acc)"

definition get_merit_stake ::
  "(string \<Rightarrow> bytes \<Rightarrow> string \<Rightarrow> bool option) \<Rightarrow> string \<Rightarrow> merit list \<Rightarrow> 'a dao_state_scheme \<Rightarrow> int res" where
  "get_merit_stake verify blind_vote_tx_id merits s =
     (let h = (case get_tx s blind_vote_tx_id of Some t \<Rightarrow> tx_block_height t | None \<Rightarrow> 0)
      in if h = 0 then Inr 0 else fold_res (merit_step verify blind_vote_tx_id h) merits 0)"

definition currently_available_step :: "int \<Rightarrow> merit \<Rightarrow> int \<Rightarrow> int" where
  "currently_available_step height m acc =
     (case rbind (check (iss_issuance_type (merit_issuance m) = IT_COMPENSATION) Illegal_Argument) (\<lambda>_.
           rbind (check (iss_chain_height (merit_issuance m) \<le> height) Illegal_Argument) (\<lambda>_.
           get_weighted_merit_amount (iss_amount (merit_issuance m))
             (iss_chain_height (merit_issuance m)) height BLOCKS_PER_YEAR)) of
        Inl _ \<Rightarrow> acc
      | Inr w \<Rightarrow> acc + w)"

definition get_currently_available_merit :: "merit list \<Rightarrow> int \<Rightarrow> int" where
  "get_currently_available_merit merits current_chain_height =
     fold (currently_available_step (current_chain_height + 1)) merits 0"

section \<open>The weight\<close>

lemma weighted_merit_ok_iff:
  "(\<exists>w. get_weighted_merit_amount a i h b = Inr w) \<longleftrightarrow> 0 \<le> a \<and> 0 \<le> i \<and> i \<le> h \<and> 0 < b"
  by (auto simp: get_weighted_merit_amount_def Let_def rbind_def check_def split: if_splits)

lemma weighted_merit_eq:
  assumes "0 \<le> a" and "0 \<le> i" and "i \<le> h" and "0 < b"
  shows "get_weighted_merit_amount a i h b = Inr (a * max 0 (2 * b - (h - i)) div (2 * b))"
  using assms by (simp add: get_weighted_merit_amount_def Let_def min_def max_def)

lemma weighted_merit_bounds:
  assumes "get_weighted_merit_amount a i h b = Inr w"
  shows "0 \<le> w \<and> w \<le> a"
proof -
  have ok: "0 \<le> a" "0 \<le> i" "i \<le> h" "0 < b" using assms weighted_merit_ok_iff by blast+
  have w: "w = a * max 0 (2 * b - (h - i)) div (2 * b)" using weighted_merit_eq [OF ok] assms by simp
  have "a * max 0 (2 * b - (h - i)) \<le> a * (2 * b)" using ok by (intro mult_left_mono) auto
  then have "w \<le> a * (2 * b) div (2 * b)" unfolding w using ok by (intro zdiv_mono1) auto
  moreover have "a * (2 * b) div (2 * b) = a" using ok by (intro nonzero_mult_div_cancel_right) simp
  moreover have "0 \<le> w" unfolding w using ok by (simp add: pos_imp_zdiv_nonneg_iff)
  ultimately show ?thesis by simp
qed

lemma weighted_merit_antimono:
  assumes "get_weighted_merit_amount a i h b = Inr w" and "h \<le> h'"
  shows "\<exists>w'. get_weighted_merit_amount a i h' b = Inr w' \<and> w' \<le> w"
proof -
  have ok: "0 \<le> a" "0 \<le> i" "i \<le> h" "0 < b" using assms weighted_merit_ok_iff by blast+
  have w: "w = a * max 0 (2 * b - (h - i)) div (2 * b)" using weighted_merit_eq [OF ok] assms by simp
  have "a * max 0 (2 * b - (h' - i)) \<le> a * max 0 (2 * b - (h - i))"
    using ok assms(2) by (intro mult_left_mono) auto
  then have "a * max 0 (2 * b - (h' - i)) div (2 * b) \<le> w"
    unfolding w using ok by (intro zdiv_mono1) auto
  then show ?thesis using weighted_merit_eq [of a i h' b] ok assms(2) by simp
qed

section \<open>The merit of a vote\<close>

lemma merit_step_mono:
  "merit_step verify i h m acc = Inr acc' \<Longrightarrow>
     acc \<le> acc' \<and> acc' \<le> acc + max 0 (iss_amount (merit_issuance m))"
  by (auto simp: merit_step_def merit_weight_def dest: weighted_merit_bounds split: if_splits sum.splits)

lemma merit_fold_bounds:
  "fold_res (merit_step verify i h) ms acc = Inr acc' \<Longrightarrow>
     acc \<le> acc' \<and> acc' \<le> acc + (\<Sum>m\<leftarrow>ms. max 0 (iss_amount (merit_issuance m)))"
proof (induction ms arbitrary: acc)
  case (Cons m ms)
  then obtain u where u: "merit_step verify i h m acc = Inr u"
    "fold_res (merit_step verify i h) ms u = Inr acc'" by auto
  show ?case using Cons.IH [OF u(2)] merit_step_mono [OF u(1)] by simp
qed simp

lemma merit_stake_bounds:
  assumes "get_merit_stake verify i ms s = Inr n"
  shows "0 \<le> n \<and> n \<le> (\<Sum>m\<leftarrow>ms. max 0 (iss_amount (merit_issuance m)))"
proof -
  have "0 \<le> (\<Sum>m\<leftarrow>ms. max 0 (iss_amount (merit_issuance m)))" by (intro sum_list_nonneg) auto
  then show ?thesis using assms merit_fold_bounds [of verify i _ ms 0 n]
    by (auto simp: get_merit_stake_def Let_def split: if_splits)
qed

text \<open>The only exception that leaves the function is the one of the logger.\<close>

lemma merit_step_error: "merit_step verify i h m acc = Inl e \<Longrightarrow> e = Unbound_Local_Error"
  by (auto simp: merit_step_def rbind_eq_Inl is_signature_valid_def split: option.splits if_splits sum.splits)

lemma merit_fold_error:
  "fold_res (merit_step verify i h) ms acc = Inl e \<Longrightarrow> e = Unbound_Local_Error"
  by (induction ms arbitrary: acc) (auto simp: rbind_eq_Inl dest: merit_step_error)

lemma merit_fold_no_pub_key:
  "m \<in> set ms \<Longrightarrow> iss_pub_key (merit_issuance m) = None \<Longrightarrow>
     \<nexists>n. fold_res (merit_step verify i h) ms acc = Inr n"
  by (induction ms arbitrary: acc) (auto simp: merit_step_def is_signature_valid_def)

lemma merit_stake_no_pub_key:
  assumes "get_tx s i = Some t" and "tx_block_height t \<noteq> 0"
    and "m \<in> set ms" and "iss_pub_key (merit_issuance m) = None"
  shows "get_merit_stake verify i ms s = Inl Unbound_Local_Error"
  using assms merit_fold_no_pub_key [OF assms(3,4), of verify i "tx_block_height t" 0]
    merit_fold_error [of verify i "tx_block_height t" ms 0]
  by (cases "fold_res (merit_step verify i (tx_block_height t)) ms 0") (auto simp: get_merit_stake_def)

lemma merit_stake_cong: "get_tx t = get_tx s \<Longrightarrow> get_merit_stake verify i ms t = get_merit_stake verify i ms s"
  by (simp add: get_merit_stake_def)

end
