(* ===== verification/Permutation.thy ===== *)
theory Permutation
  imports Bisq_Prelude "HOL-Library.Sublist"
begin

text \<open>
  The search for a variation of a list that satisfies a predicate
  (\<open>bisq/common/util/permutation_util.py\<close>): elements are left out, one more at each level, until
  the predicate holds or the budget of evaluations is used up.  The shared counter \<open>AtomicInt\<close> is
  threaded through; the empty list stands for "not found", as in the code.
\<close>

section \<open>The search\<close>

definition remove_nth :: "nat \<Rightarrow> 'a list \<Rightarrow> 'a list" where
  "remove_nth i xs = take i xs @ drop (i + 1) xs"

text \<open>The loop over the indices: it ends when the counter is used up or a result is found.\<close>

fun level_loop :: "(nat \<Rightarrow> int \<Rightarrow> 'a list \<times> int) \<Rightarrow> nat list \<Rightarrow> int \<Rightarrow> 'a list \<times> int" where
  "level_loop f [] n = ([], n)"
| "level_loop f (i # is) n =
     (if n \<le> 0 then ([], n)
      else case f i n of (r, n') \<Rightarrow> if r \<noteq> [] then (r, n') else level_loop f is n')"

primrec check_level ::
  "('a list \<Rightarrow> bool) \<Rightarrow> nat \<Rightarrow> nat \<Rightarrow> 'a list \<Rightarrow> int \<Rightarrow> 'a list \<times> int" where
  "check_level p 0 = (\<lambda>permutation_index previous_level n.
     if length previous_level = 1 then ([], n)
     else level_loop (\<lambda>i n. let new_list = remove_nth i previous_level
                           in (if p new_list then new_list else [], n - 1))
            [permutation_index..<length previous_level] n)"
| "check_level p (Suc level) = (\<lambda>permutation_index previous_level n.
     if length previous_level = 1 then ([], n)
     else level_loop (\<lambda>i n. check_level p level i (remove_nth i previous_level) n)
            [permutation_index..<length previous_level] n)"

fun try_levels :: "('a list \<Rightarrow> bool) \<Rightarrow> 'a list \<Rightarrow> nat list \<Rightarrow> int \<Rightarrow> 'a list" where
  "try_levels p xs [] n = []"
| "try_levels p xs (l # ls) n =
     (case check_level p l 0 xs n of (r, n') \<Rightarrow> if r \<noteq> [] then r else try_levels p xs ls n')"

definition find_matching_permutation :: "('a list \<Rightarrow> bool) \<Rightarrow> 'a list \<Rightarrow> int \<Rightarrow> 'a list" where
  "find_matching_permutation p xs max_iterations =
     (if p xs then xs else try_levels p xs [0..<length xs] max_iterations)"

section \<open>Reference: a linear search through the candidates\<close>

primrec candidates :: "nat \<Rightarrow> nat \<Rightarrow> 'a list \<Rightarrow> 'a list list" where
  "candidates 0 = (\<lambda>k xs. if length xs = 1 then [] else map (\<lambda>i. remove_nth i xs) [k..<length xs])"
| "candidates (Suc l) = (\<lambda>k xs. if length xs = 1 then []
     else concat (map (\<lambda>i. candidates l i (remove_nth i xs)) [k..<length xs]))"

definition all_candidates :: "'a list \<Rightarrow> 'a list list" where
  "all_candidates xs = concat (map (\<lambda>l. candidates l 0 xs) [0..<length xs])"

fun search :: "('a list \<Rightarrow> bool) \<Rightarrow> 'a list list \<Rightarrow> int \<Rightarrow> 'a list \<times> int" where
  "search p [] n = ([], n)"
| "search p (c # cs) n = (if n \<le> 0 then ([], n) else if p c then (c, n - 1) else search p cs (n - 1))"

lemma search_append:
  assumes "\<forall>c \<in> set cs. c \<noteq> []"
  shows "search p (cs @ ds) n =
     (case search p cs n of (r, n') \<Rightarrow> if r \<noteq> [] then (r, n') else search p ds n')"
proof -
  have "n \<le> 0 \<Longrightarrow> search p es n = ([], n)" for es n by (cases es) auto
  then show ?thesis using assms by (induction cs arbitrary: n) auto
qed

lemma length_remove_nth: "i < length xs \<Longrightarrow> length (remove_nth i xs) = length xs - 1"
  by (simp add: remove_nth_def)

lemma candidates_not_Nil: "c \<in> set (candidates l k xs) \<Longrightarrow> c \<noteq> []"
proof (induction l arbitrary: k xs)
  case 0
  then obtain i where "c = remove_nth i xs" "i < length xs" "length xs \<noteq> 1" by (auto split: if_splits)
  then show ?case using length_remove_nth [of i xs] by (cases xs) auto
qed (auto split: if_splits)

lemma level_loop_search:
  assumes "\<And>i n. i \<in> set is \<Longrightarrow> f i n = search p (cs i) n" and "\<And>i c. c \<in> set (cs i) \<Longrightarrow> c \<noteq> []"
  shows "level_loop f is n = search p (concat (map cs is)) n"
proof -
  have z: "n \<le> 0 \<Longrightarrow> search p es n = ([], n)" for es n by (cases es) auto
  show ?thesis using assms
    by (induction "is" arbitrary: n) (auto simp: search_append z split: prod.split)
qed

lemma check_level_search: "check_level p l k xs n = search p (candidates l k xs) n"
proof (induction l arbitrary: k xs n)
  case 0
  have "level_loop (\<lambda>i n. let c = remove_nth i xs in (if p c then c else [], n - 1)) is n =
      search p (map (\<lambda>i. remove_nth i xs) is) n"
    if "length xs \<noteq> 1" "set is \<subseteq> {..<length xs}" for "is" n
    using that length_remove_nth [of _ xs]
    by (induction "is" arbitrary: n) (auto simp: Let_def, fastforce)
  moreover have "set [k..<length xs] \<subseteq> {..<length xs}" by auto
  ultimately show ?case by (cases "length xs = 1") simp_all
next
  case (Suc l)
  have "level_loop (\<lambda>i n. check_level p l i (remove_nth i xs) n) [k..<length xs] n =
      search p (concat (map (\<lambda>i. candidates l i (remove_nth i xs)) [k..<length xs])) n"
    by (rule level_loop_search) (use Suc candidates_not_Nil in blast)+
  then show ?case by simp
qed

lemma try_levels_search:
  "try_levels p xs ls n = fst (search p (concat (map (\<lambda>l. candidates l 0 xs) ls)) n)"
  by (induction ls arbitrary: n)
    (auto simp: check_level_search search_append candidates_not_Nil split: prod.splits)

lemma find_matching_permutation_search:
  "find_matching_permutation p xs n = (if p xs then xs else fst (search p (all_candidates xs) n))"
  by (simp add: find_matching_permutation_def try_levels_search all_candidates_def)


section \<open>The candidates are the sublists\<close>

lemma remove_nth_Cons: "remove_nth (Suc i) (x # xs) = x # remove_nth i xs"
  by (simp add: remove_nth_def)

text \<open>A shorter sublist leaves out a first element, at some index.\<close>

lemma subseq_first_removed:
  "subseq zs xs \<Longrightarrow> length zs < length xs \<Longrightarrow>
     \<exists>i < length xs. \<exists>us. zs = take i xs @ us \<and> subseq us (drop (Suc i) xs)"
proof (induction xs arbitrary: zs)
  case (Cons x xs)
  show ?case
  proof (cases "subseq zs xs")
    case True
    then have "zs = take 0 (x # xs) @ zs \<and> subseq zs (drop (Suc 0) (x # xs))" by simp
    then show ?thesis by blast
  next
    case False
    then obtain us where us: "zs = x # us" "subseq us xs"
      using Cons.prems(1) by (cases zs) (auto split: if_splits)
    with Cons.IH [OF us(2)] Cons.prems(2) obtain i vs where
      "i < length xs" "us = take i xs @ vs" "subseq vs (drop (Suc i) xs)" by auto
    then have "Suc i < length (x # xs) \<and> zs = take (Suc i) (x # xs) @ vs \<and> subseq vs (drop (Suc (Suc i)) (x # xs))"
      using us by simp
    then show ?thesis by blast
  qed
qed simp

lemma removed_keeps_prefix:
  assumes "k \<le> i" and "i < length xs" and "subseq zs (drop (Suc i) xs)"
  shows "\<exists>us. take i xs @ zs = take k xs @ us \<and> subseq us (drop k xs)"
proof -
  have t: "take i xs = take k xs @ drop k (take i xs)"
    using assms(1) by (metis append_take_drop_id min.absorb1 take_take)
  have "drop k xs = drop k (take i xs) @ (xs ! i) # drop (Suc i) xs"
    using id_take_nth_drop [OF assms(2)] assms(1,2)
    by (metis drop_append length_take min.absorb2 less_imp_le diff_is_0_eq drop_0)
  moreover have "subseq (drop k (take i xs) @ zs) (drop k (take i xs) @ (xs ! i) # drop (Suc i) xs)"
    using assms(3) by (intro list_emb_append_mono) auto
  ultimately have "subseq (drop k (take i xs) @ zs) (drop k xs)" by simp
  with t show ?thesis by (metis append.assoc)
qed

lemma first_removed_after_prefix:
  assumes "k \<le> length xs" and "subseq zs (drop k xs)" and "length zs < length (drop k xs)"
  shows "\<exists>i us. k \<le> i \<and> i < length xs \<and> take k xs @ zs = take i xs @ us \<and> subseq us (drop (Suc i) xs)"
proof -
  from subseq_first_removed [OF assms(2,3)] obtain j us where
    j: "j < length (drop k xs)" "zs = take j (drop k xs) @ us" "subseq us (drop (Suc j) (drop k xs))" by blast
  then have "k \<le> k + j \<and> k + j < length xs \<and> take k xs @ zs = take (k + j) xs @ us \<and>
      subseq us (drop (Suc (k + j)) xs)"
    by (auto simp: take_add drop_drop add.commute [of _ k])
  then show ?thesis by blast
qed

lemma remove_nth_sel:
  "i < length xs \<Longrightarrow> take i (remove_nth i xs) = take i xs"
  "i < length xs \<Longrightarrow> drop i (remove_nth i xs) = drop (Suc i) xs"
  "i < length xs \<Longrightarrow> i \<le> length (remove_nth i xs)"
  by (auto simp: remove_nth_def)

lemma candidates_iff:
  assumes "k \<le> length xs"
  shows "ys \<in> set (candidates l k xs) \<longleftrightarrow>
     ys \<noteq> [] \<and> length ys + Suc l = length xs \<and> (\<exists>zs. ys = take k xs @ zs \<and> subseq zs (drop k xs))"
    (is "_ \<longleftrightarrow> ?len l xs \<and> ?pre k xs")
  using assms
proof (induction l arbitrary: k xs)
  case 0
  show ?case
  proof
    assume ys: "ys \<in> set (candidates 0 k xs)"
    then obtain i where i: "k \<le> i" "i < length xs" "ys = take i xs @ drop (Suc i) xs"
      by (auto simp: remove_nth_def split: if_splits)
    from removed_keeps_prefix [OF i(1,2), of "drop (Suc i) xs"] i
    show "ys \<noteq> [] \<and> length ys + Suc 0 = length xs \<and> (\<exists>zs. ys = take k xs @ zs \<and> subseq zs (drop k xs))"
      using candidates_not_Nil [OF ys] by auto
  next
    assume a: "ys \<noteq> [] \<and> length ys + Suc 0 = length xs \<and> (\<exists>zs. ys = take k xs @ zs \<and> subseq zs (drop k xs))"
    then obtain zs where zs: "ys = take k xs @ zs" "subseq zs (drop k xs)" by blast
    have "length zs < length (drop k xs)" using a zs(1) 0 by auto
    from first_removed_after_prefix [OF 0 zs(2) this] obtain i us where
      i: "k \<le> i" "i < length xs" "ys = take i xs @ us" "subseq us (drop (Suc i) xs)" using zs(1) by blast
    then have "us = drop (Suc i) xs" using a by (intro subseq_same_length) auto
    then have "ys = remove_nth i xs" using i(3) by (simp add: remove_nth_def)
    moreover have "length xs \<noteq> 1" using a by auto
    ultimately show "ys \<in> set (candidates 0 k xs)" using i(1,2) by simp
  qed
next
  case (Suc l)
  show ?case
  proof
    assume ys: "ys \<in> set (candidates (Suc l) k xs)"
    then obtain i where i: "k \<le> i" "i < length xs" "ys \<in> set (candidates l i (remove_nth i xs))"
      by (auto split: if_splits)
    from Suc.IH [OF remove_nth_sel(3) [OF i(2)]] i(3)
    have "ys \<noteq> [] \<and> length ys + Suc l = length xs - 1 \<and> (\<exists>zs. ys = take i xs @ zs \<and> subseq zs (drop (Suc i) xs))"
      by (simp only: remove_nth_sel [OF i(2)] length_remove_nth [OF i(2)])
    then obtain zs where zs: "ys \<noteq> []" "length ys + Suc l = length xs - 1"
      "ys = take i xs @ zs" "subseq zs (drop (Suc i) xs)" by blast
    from removed_keeps_prefix [OF i(1,2) zs(4)] zs i(2)
    show "ys \<noteq> [] \<and> length ys + Suc (Suc l) = length xs \<and> (\<exists>zs. ys = take k xs @ zs \<and> subseq zs (drop k xs))"
      by auto
  next
    assume a: "ys \<noteq> [] \<and> length ys + Suc (Suc l) = length xs \<and>
        (\<exists>zs. ys = take k xs @ zs \<and> subseq zs (drop k xs))"
    then obtain zs where zs: "ys = take k xs @ zs" "subseq zs (drop k xs)" by blast
    have "length zs < length (drop k xs)" using a zs(1) Suc.prems by auto
    from first_removed_after_prefix [OF Suc.prems zs(2) this] obtain i us where
      i: "k \<le> i" "i < length xs" "ys = take i xs @ us" "subseq us (drop (Suc i) xs)" using zs(1) by blast
    have "ys \<in> set (candidates l i (remove_nth i xs))"
      using Suc.IH [OF remove_nth_sel(3) [OF i(2)]] a i by (auto simp: remove_nth_sel length_remove_nth)
    moreover have "length xs \<noteq> 1" using a by auto
    ultimately show "ys \<in> set (candidates (Suc l) k xs)" using i(1,2) by force
  qed
qed

lemma all_candidates_iff: "ys \<in> set (all_candidates xs) \<longleftrightarrow> ys \<noteq> [] \<and> subseq ys xs \<and> ys \<noteq> xs"
proof
  assume "ys \<in> set (all_candidates xs)"
  then show "ys \<noteq> [] \<and> subseq ys xs \<and> ys \<noteq> xs" by (auto simp: all_candidates_def candidates_iff)
next
  assume a: "ys \<noteq> [] \<and> subseq ys xs \<and> ys \<noteq> xs"
  then have "length ys < length xs"
    using list_emb_length [of "(=)" ys xs] subseq_same_length [of ys xs] by force
  then have "length ys + Suc (length xs - Suc (length ys)) = length xs" by simp
  with a have "ys \<in> set (candidates (length xs - Suc (length ys)) 0 xs)" by (simp add: candidates_iff)
  moreover have "length xs - Suc (length ys) < length xs" using a by (cases xs) auto
  ultimately show "ys \<in> set (all_candidates xs)" by (force simp: all_candidates_def)
qed

section \<open>How many there are\<close>

lemma sum_choose_upt:
  "k \<le> n \<Longrightarrow> (\<Sum>i\<leftarrow>[k..<n]. (n - Suc i) choose m) = (n - k) choose Suc m"
proof (induction "n - k" arbitrary: k)
  case (Suc d)
  then have "[k..<n] = k # [Suc k..<n]" by (simp add: upt_conv_Cons)
  moreover have "n - k = Suc (n - Suc k)" using Suc by simp
  ultimately show ?case using Suc by simp
qed simp

lemma length_candidates: "k \<le> length xs \<Longrightarrow> length (candidates l k xs) \<le> (length xs - k) choose Suc l"
proof (induction l arbitrary: k xs)
  case (Suc l)
  have "(\<Sum>i\<leftarrow>[k..<length xs]. length (candidates l i (remove_nth i xs))) \<le>
      (\<Sum>i\<leftarrow>[k..<length xs]. (length xs - Suc i) choose Suc l)"
  proof (rule sum_list_mono)
    fix i assume "i \<in> set [k..<length xs]"
    then have i: "i < length xs" by simp
    from Suc.IH [OF remove_nth_sel(3) [OF i]]
    show "length (candidates l i (remove_nth i xs)) \<le> (length xs - Suc i) choose Suc l"
      by (simp add: length_remove_nth [OF i])
  qed
  then show ?case using sum_choose_upt [OF Suc.prems, of "Suc l"] by (simp add: length_concat comp_def)
qed simp

lemma length_all_candidates: "length (all_candidates xs) < 2 ^ length xs"
proof -
  let ?n = "length xs"
  have "length (all_candidates xs) \<le> (\<Sum>l\<leftarrow>[0..<?n]. ?n choose Suc l)"
    unfolding all_candidates_def length_concat map_map comp_def
    by (rule sum_list_mono) (use length_candidates [of 0 xs] in simp)
  also have "\<dots> = (\<Sum>l<?n. ?n choose Suc l)" by (simp add: interv_sum_list_conv_sum_set_nat atLeast0LessThan)
  also have "\<dots> < (\<Sum>l\<le>?n. ?n choose l)"
    using sum.lessThan_Suc_shift [of "\<lambda>l. ?n choose l" ?n] by (simp add: lessThan_Suc_atMost)
  also have "\<dots> = 2 ^ ?n" by (rule choose_row_sum)
  finally show ?thesis .
qed

section \<open>Facts on the search\<close>

lemma search_sound: "search p cs n = (r, n') \<Longrightarrow> r \<noteq> [] \<Longrightarrow> r \<in> set cs \<and> p r"
  by (induction cs arbitrary: n) (auto split: if_splits)

lemma search_budget: "search p cs n = (r, n') \<Longrightarrow> n' \<le> n \<and> (0 \<le> n \<longrightarrow> 0 \<le> n')"
  by (induction cs arbitrary: n) (auto split: if_splits, fastforce)

lemma search_complete:
  "int (length cs) \<le> n \<Longrightarrow> c \<in> set cs \<Longrightarrow> p c \<Longrightarrow> \<forall>c \<in> set cs. c \<noteq> [] \<Longrightarrow> fst (search p cs n) \<noteq> []"
  by (induction cs arbitrary: n) auto

lemma find_matching_sound:
  assumes "find_matching_permutation p xs n \<noteq> []"
  shows "p (find_matching_permutation p xs n) \<and> subseq (find_matching_permutation p xs n) xs"
proof (cases "p xs")
  case False
  obtain r n' where r: "search p (all_candidates xs) n = (r, n')" by fastforce
  with assms False search_sound [OF r] show ?thesis
    by (auto simp: find_matching_permutation_search all_candidates_iff)
qed (simp add: find_matching_permutation_search)

lemma find_matching_complete:
  assumes "subseq ys xs" and "ys \<noteq> []" and "p ys" and "2 ^ length xs \<le> n"
  shows "find_matching_permutation p xs n \<noteq> []"
proof (cases "p xs")
  case True
  then show ?thesis using assms(1,2) by (auto simp: find_matching_permutation_search)
next
  case False
  have "int (length (all_candidates xs)) < int (2 ^ length xs)"
    using length_all_candidates [of xs] by (simp only: of_nat_less_iff)
  also have "\<dots> \<le> n" using assms(4) by simp
  finally have "int (length (all_candidates xs)) \<le> n" by simp
  then have "fst (search p (all_candidates xs) n) \<noteq> []"
    using assms False by (intro search_complete [of _ _ ys]) (auto simp: all_candidates_iff)
  then show ?thesis by (simp add: find_matching_permutation_search False)
qed

end
