(* ===== verification/Hex_Bytes.thy ===== *)
theory Hex_Bytes
  imports Bisq_Bytes
begin

text \<open>
  The text form of bytes: \<open>bytes.hex\<close> and \<open>bytes.fromhex\<close>, and that the second undoes the first.
\<close>

definition hex_digit :: "nat \<Rightarrow> char" where
  "hex_digit n = char_of (if n < 10 then 48 + n else 87 + n)"

definition bytes_hex :: "bytes \<Rightarrow> string" where
  "bytes_hex b = concat (map (\<lambda>w. [hex_digit (unat w div 16), hex_digit (unat w mod 16)]) b)"

text \<open>\<open>bytes.fromhex\<close> takes both cases and skips white space between the bytes.\<close>

definition hex_value :: "char \<Rightarrow> nat option" where
  "hex_value c =
     (let n = of_char c :: nat
      in if 48 \<le> n \<and> n \<le> 57 then Some (n - 48)
         else if 97 \<le> n \<and> n \<le> 102 then Some (n - 87)
         else if 65 \<le> n \<and> n \<le> 70 then Some (n - 55)
         else None)"

definition is_ascii_space :: "char \<Rightarrow> bool" where
  "is_ascii_space c \<longleftrightarrow> (of_char c :: nat) \<in> {9, 10, 11, 12, 13, 32}"

fun from_hex :: "string \<Rightarrow> bytes res" where
  "from_hex [] = Inr []"
| "from_hex [c] = (if is_ascii_space c then Inr [] else Inl Value_Error)"
| "from_hex (c # d # cs) =
     (if is_ascii_space c then from_hex (d # cs)
      else (case (hex_value c, hex_value d) of
              (Some a, Some b) \<Rightarrow> rbind (from_hex cs) (\<lambda>bs. Inr (word_of_nat (16 * a + b) # bs))
            | _ \<Rightarrow> Inl Value_Error))"

lemma of_hex_digit: "n < 16 \<Longrightarrow> of_char (hex_digit n) = (if n < 10 then 48 + n else 87 + n)"
proof -
  assume n: "n < 16"
  have "of_char (hex_digit n) = (if n < 10 then 48 + n else 87 + n) mod 256"
    unfolding hex_digit_def by (rule of_char_of)
  then show ?thesis using n by (simp split: if_splits)
qed

lemma hex_value_digit: "n < 16 \<Longrightarrow> hex_value (hex_digit n) = Some n"
  by (auto simp: hex_value_def of_hex_digit Let_def)

lemma hex_digit_no_space: "n < 16 \<Longrightarrow> \<not> is_ascii_space (hex_digit n)"
  by (auto simp: is_ascii_space_def of_hex_digit)

lemma unat_8: "unat b < 256" for b :: "8 word"
  using unsigned_less [of b, where 'a = nat] by simp

lemma from_hex_bytes_hex: "from_hex (bytes_hex bs) = Inr bs"
proof (induction bs)
  case Nil
  then show ?case by (simp add: bytes_hex_def)
next
  case (Cons b bs)
  have d: "unat b div 16 < 16" "unat b mod 16 < 16" using unat_8 [of b] by auto
  have "bytes_hex (b # bs) = hex_digit (unat b div 16) # hex_digit (unat b mod 16) # bytes_hex bs"
    by (simp add: bytes_hex_def)
  then show ?case using Cons.IH d by (simp add: hex_value_digit hex_digit_no_space)
qed

lemma bytes_hex_inject [simp]: "bytes_hex xs = bytes_hex ys \<longleftrightarrow> xs = ys"
  by (metis from_hex_bytes_hex sum.inject(2))

end
