(* ===== verification/Vote_Consensus.thy ===== *)
theory Vote_Consensus
  imports Gov_Lists Merit Permutation Hex_Bytes "HOL-Library.Product_Lexorder"
begin

text \<open>
  What all voters must compute alike (\<open>dao/governance/voteresult/vote_result_consensus.py\<close>,
  \<open>votereveal/vote_reveal_consensus.py\<close>): the blind vote behind a vote reveal, the hash of a list
  of blind votes and the majority among the hashes the voters revealed.
\<close>

section \<open>The majority hash\<close>

type_synonym hash_with_stake = "bytes \<times> int"

definition majority_key :: "hash_with_stake \<Rightarrow> int \<times> string" where
  "majority_key x = (- snd x, bytes_hex (fst x))"

text \<open>The list is not empty in the code either: the exception built for an empty list is not raised,
  and the last line raises an \<open>IndexError\<close>.\<close>

definition get_majority_hash :: "hash_with_stake list \<Rightarrow> bytes res" where
  "get_majority_hash hash_with_stake_list =
     (let l = sort_key majority_key hash_with_stake_list
      in rbind (if 1 < length l
                then let total = sum_list (map snd l); stake_of_first = snd (hd l)
                     in rbind (py_div stake_of_first total) (\<lambda>q.
                        check (to_float (4 / 5) \<le> q) Consensus_Exception)
                else Inr ()) (\<lambda>_.
         if l = [] then Inl Index_Error else Inr (fst (hd l))))"

section \<open>The blind vote of a vote reveal\<close>

definition as_vote_validation_error :: "'a res \<Rightarrow> 'a res" where
  "as_vote_validation_error r = (case r of Inl _ \<Rightarrow> Inl Validation_Exception | Inr x \<Rightarrow> Inr x)"

definition get_connected_blind_vote_stake_output :: "tx \<Rightarrow> 'a dao_state_scheme \<Rightarrow> tx_output res" where
  "get_connected_blind_vote_stake_output vote_reveal_tx s = as_vote_validation_error (
     rbind (py_nth (tx_inputs vote_reveal_tx) 0) (\<lambda>inp.
     rbind (get_connected_tx_output s inp) (\<lambda>ot.
     case ot of
       None \<Rightarrow> Inl Illegal_Argument
     | Some out \<Rightarrow>
         if out_type out \<noteq> BLIND_VOTE_LOCK_STAKE_OUTPUT then Inl Validation_Exception else Inr out)))"

definition validate_blind_vote_tx :: "string \<Rightarrow> 'a dao_state_scheme \<Rightarrow> int \<Rightarrow> unit res" where
  "validate_blind_vote_tx blind_vote_tx_id s h = as_vote_validation_error (
     case get_tx s blind_vote_tx_id of
       None \<Rightarrow> Inl Illegal_Argument
     | Some t \<Rightarrow>
         (case get_optional_tx_type s (tx_id t) of
            None \<Rightarrow> Inl Illegal_Argument
          | Some ty \<Rightarrow>
              rbind (check (ty = BLIND_VOTE) Illegal_Argument) (\<lambda>_.
              rbind (check (is_tx_in_correct_cycle s (tx_block_height t) h) Illegal_Argument) (\<lambda>_.
              check (is_in_phase s (tx_block_height t) Phase_BLIND_VOTE) Illegal_Argument))))"

definition hash_of_blind_votes :: "gov_env \<Rightarrow> blind_vote list \<Rightarrow> bytes" where
  "hash_of_blind_votes env bvs = sha256_ripemd160 env (concat (map (serialize_for_hash env) bvs))"

definition decrypt_votes :: "gov_env \<Rightarrow> bytes \<Rightarrow> bytes \<Rightarrow> vote_with_proposal_tx_id list res" where
  "decrypt_votes env encrypted key =
     (case decrypt_votes_with_key env encrypted key of
        None \<Rightarrow> Inl Decryption_Exception | Some vs \<Rightarrow> Inr vs)"

definition decrypt_merit_list :: "gov_env \<Rightarrow> bytes \<Rightarrow> bytes \<Rightarrow> merit list res" where
  "decrypt_merit_list env encrypted key =
     (case decrypt_merits_with_key env encrypted key of
        None \<Rightarrow> Inl Decryption_Exception | Some ms \<Rightarrow> Inr ms)"

section \<open>Facts\<close>

subsection \<open>The order is total\<close>

lemma majority_key_inject: "majority_key x = majority_key y \<longleftrightarrow> x = y"
  by (auto simp: majority_key_def prod_eq_iff)

lemma sort_key_inj_mset:
  fixes f :: "'a \<Rightarrow> 'b :: linorder"
  assumes "inj f" and "mset xs = mset ys"
  shows "sort_key f xs = sort_key f ys"
proof -
  have "map f (sort_key f zs) = sort (map f zs)" for zs
    by (rule properties_for_sort [symmetric]) auto
  moreover have "sort (map f xs) = sort (map f ys)"
    using assms(2) by (intro properties_for_sort) (simp_all only: mset_map mset_sort sorted_sort)
  ultimately show ?thesis using assms(1) by (metis inj_map_eq_map)
qed

text \<open>The nodes may collect the vote reveals in any order.\<close>

lemma majority_hash_order:
  assumes "mset xs = mset ys"
  shows "get_majority_hash xs = get_majority_hash ys"
proof -
  have "inj majority_key" by (rule injI) (simp add: majority_key_inject)
  from sort_key_inj_mset [OF this assms] show ?thesis by (simp add: get_majority_hash_def)
qed

subsection \<open>The majority is one\<close>

lemma majority_hash_first:
  assumes "get_majority_hash xs = Inr h"
  shows "\<exists>st. (h, st) \<in> set xs \<and> (\<forall>(h', st') \<in> set xs. st' \<le> st)"
proof -
  let ?l = "sort_key majority_key xs"
  have ne: "?l \<noteq> []" and h: "h = fst (hd ?l)"
    using assms by (auto simp: get_majority_hash_def Let_def split: if_splits)
  have m: "hd ?l \<in> set xs" using hd_in_set [OF ne] by simp
  have "st' \<le> snd (hd ?l)" if "(h', st') \<in> set xs" for h' st'
  proof -
    have "sorted (map majority_key ?l)" by simp
    moreover have "(h', st') \<in> set ?l" using that by simp
    ultimately have "majority_key (hd ?l) \<le> majority_key (h', st')"
      using ne by (cases ?l) auto
    then show ?thesis by (auto simp: majority_key_def)
  qed
  then show ?thesis using m h by (intro exI [of _ "snd (hd ?l)"]) (auto simp: prod_eq_iff)
qed

lemma majority_hash_share:
  assumes "get_majority_hash xs = Inr h" and "1 < length xs" and "\<forall>x \<in> set xs. 0 \<le> snd x"
    and "sum_list (map snd xs) \<le> 2 ^ 53"
  shows "\<exists>st. (h, st) \<in> set xs \<and> 4 * sum_list (map snd xs) \<le> 5 * st \<and> 0 < sum_list (map snd xs)"
proof -
  let ?l = "sort_key majority_key xs" and ?t = "sum_list (map snd xs)"
  have t: "sum_list (map snd ?l) = ?t"
    by (metis mset_map mset_sort sum_mset_sum_list)
  have l: "length ?l = length xs" by simp
  with assms(2) have ne: "?l \<noteq> []" by (metis length_0_conv not_one_less_zero)
  then have m: "hd ?l \<in> set xs" using hd_in_set by fastforce
  have nn: "0 \<le> ?t" using assms(3) by (intro sum_list_nonneg) auto
  have st: "0 \<le> snd (hd ?l)" using m assms(3) by blast
  from assms(1,2) have r: "rbind (py_div (snd (hd ?l)) ?t) (\<lambda>q. check (to_float (4 / 5) \<le> q) Consensus_Exception) = Inr ()"
    and h: "h = fst (hd ?l)"
    by (auto simp: get_majority_hash_def Let_def t split: if_splits)
  then have t0: "?t \<noteq> 0" and q: "to_float (4 / 5) \<le> to_float (of_int (snd (hd ?l)) / of_int ?t)"
    by (auto simp: py_div_def split: if_splits)
  have pos: "0 < ?t" using nn t0 by simp
  from q py_div_less_08 [OF st pos assms(4)] have "4 * ?t \<le> 5 * snd (hd ?l)" by linarith
  then show ?thesis using m h pos by (intro exI [of _ "snd (hd ?l)"]) (auto simp: prod_eq_iff)
qed

lemma majority_hash_errors:
  "get_majority_hash xs = Inl e \<Longrightarrow>
     (xs = [] \<and> e = Index_Error) \<or> (sum_list (map snd xs) = 0 \<and> e = Zero_Division_Error) \<or> e = Consensus_Exception"
proof -
  assume a: "get_majority_hash xs = Inl e"
  have t: "sum_list (map snd (sort_key majority_key xs)) = sum_list (map snd xs)"
    by (metis mset_map mset_sort sum_mset_sum_list)
  have "sort_key majority_key xs = [] \<longleftrightarrow> xs = []" by (metis length_0_conv length_sort)
  with a show ?thesis
    by (auto simp: get_majority_hash_def Let_def t rbind_eq_Inl py_div_def check_def split: if_splits)
qed

end
