(* ===== verification/Issuance_Service.thy ===== *)
theory Issuance_Service
  imports Gov_State Utxo_Ledger Tx_Parser
begin

text \<open>
  \<open>dao/governance/voteresult/issuance/issuance_service.py\<close>: an accepted compensation or
  reimbursement request turns its issuance candidate output into BSQ.
\<close>

definition is_valid_issuance :: "'a dao_state_scheme \<Rightarrow> tx_output \<Rightarrow> proposal \<Rightarrow> int \<Rightarrow> bool" where
  "is_valid_issuance s out p h \<longleftrightarrow>
     Some (txo_tx_id out) = prop_tx_id p \<and> requested_bsq p = txo_value out \<and>
     Some (tl (bsq_address p)) = txo_address out \<and>
     is_tx_in_phase_and_cycle s (txo_tx_id out) Phase_PROPOSAL h"

definition issuance_type_of :: "proposal \<Rightarrow> issuance_type" where
  "issuance_type_of p =
     (case prop_kind p of
        Compensation_Proposal _ _ \<Rightarrow> IT_COMPENSATION
      | Reimbursement_Proposal _ _ \<Rightarrow> IT_REIMBURSEMENT
      | _ \<Rightarrow> IT_UNDEFINED)"

text \<open>The issuance that is recorded: the public key of the first input signs the merit later.\<close>

definition new_issuance :: "'a dao_state_scheme \<Rightarrow> proposal \<Rightarrow> int \<Rightarrow> issuance res" where
  "new_issuance s p h =
     rbind (check (issuance_type_of p \<noteq> IT_UNDEFINED) Illegal_Argument) (\<lambda>_.
     case proposal_tx s p of
       None \<Rightarrow> Inl Illegal_Argument
     | Some t \<Rightarrow>
         rbind (py_nth (tx_inputs t) 0) (\<lambda>inp.
         Inr \<lparr>iss_tx_id = tx_id t, iss_chain_height = h, iss_amount = requested_bsq p,
              iss_pub_key = in_pub_key inp, iss_issuance_type = issuance_type_of p\<rparr>))"

definition issue_output :: "proposal \<Rightarrow> int \<Rightarrow> tx_output \<Rightarrow> ('a dao_service_scheme, unit) action" where
  "issue_output p h out = (\<lambda>s.
     if is_valid_issuance s out p h
     then abind (query (\<lambda>u. new_issuance u p h)) (\<lambda>iss.
          abind (call (add_issuance iss)) (\<lambda>_. call (add_unspent_tx_output out))) s
     else (Inr (), s))"

definition issue_bsq :: "gov_env \<Rightarrow> proposal \<Rightarrow> int \<Rightarrow> ('a dao_service_scheme, unit) action" where
  "issue_bsq env p h = (\<lambda>s.
     for_each (issue_output p h) (order_outputs env (get_issuance_candidate_tx_outputs s)) s)"

section \<open>The ledger after an issuance\<close>

text \<open>What an issuance leaves alone.\<close>

definition issuance_frame :: "'a dao_service_scheme \<Rightarrow> 'a dao_service_scheme \<Rightarrow> bool" where
  "issuance_frame s t \<longleftrightarrow>
     t\<lparr>unspent_tx_output_map := unspent_tx_output_map s, issuance_map := issuance_map s\<rparr> = s"

lemma issuance_frame_refl [simp]: "issuance_frame s s"
  by (simp add: issuance_frame_def)

lemma issuance_frame_trans: "issuance_frame s t \<Longrightarrow> issuance_frame t u \<Longrightarrow> issuance_frame s u"
  by (cases s; cases t; cases u) (simp add: issuance_frame_def)

lemma issuance_frame_sel:
  assumes "issuance_frame s t"
  shows "tx_cache t = tx_cache s" "cycles t = cycles s" "tx_outputs_by_type t = tx_outputs_by_type s"
    "allow_dao_state_change t = allow_dao_state_change s" "network t = network s"
    "bsq_formatter t = bsq_formatter s" "percent_parser t = percent_parser s"
    "param_change_list t = param_change_list s" "chain_height t = chain_height s"
    "blocks t = blocks s" "spent_info_map t = spent_info_map s"
    "confiscated_lockup_tx_list t = confiscated_lockup_tx_list s"
    "evaluated_proposal_list t = evaluated_proposal_list s"
  using assms by (cases s; cases t; simp add: issuance_frame_def)+

lemma issuance_frame_queries:
  assumes "issuance_frame s t"
  shows "get_issuance_candidate_tx_outputs t = get_issuance_candidate_tx_outputs s"
    and "is_valid_issuance t out p h = is_valid_issuance s out p h"
    and "new_issuance t p h = new_issuance s p h"
  using issuance_frame_sel [OF assms]
  by (simp_all add: get_issuance_candidate_tx_outputs_def get_tx_output_by_tx_output_type_def
      is_valid_issuance_def is_tx_in_phase_and_cycle_def is_tx_in_phase_def is_in_phase_def get_cycle_def
      is_tx_in_correct_cycle_by_id_def is_tx_in_correct_cycle_def get_tx_def new_issuance_def proposal_tx_def
      split: option.split)

definition ledger_fine :: "'a dao_service_scheme \<Rightarrow> bool" where
  "ledger_fine s \<longleftrightarrow> utxo_keyed s \<and> nonneg_ledger s"

lemma add_output_total:
  assumes "ledger_fine s" and "add_unspent_tx_output out s = Inr t" and "0 \<le> txo_value out"
  shows "ledger_fine t \<and> utxo_total t \<le> utxo_total s + txo_value out \<and>
     (get_unspent_tx_output s (get_key out) = None \<longrightarrow> utxo_total t = utxo_total s + txo_value out)"
proof -
  have ok: "utxo_ok s" using assms(1,2) by (auto simp: utxo_ok_def ledger_fine_def mutator_defs)
  let ?k = "get_key out"
  have fin: "finite (dom (unspent_tx_output_map s))" using assms(1) by (simp add: ledger_fine_def utxo_keyed_def)
  have t: "t = s\<lparr>unspent_tx_output_map := (unspent_tx_output_map s)(?k \<mapsto> out)\<rparr>"
    using assms(2) by (simp add: mutator_defs)
  have "utxo_total t \<le> utxo_total s + txo_value out"
  proof (cases "unspent_tx_output_map s ?k")
    case None
    then show ?thesis using fin by (simp add: t utxo_total_def map_total_insert)
  next
    case (Some v)
    have "0 \<le> txo_value v" using assms(1) Some by (auto simp: ledger_fine_def nonneg_ledger_def get_unspent_tx_output_def)
    moreover have "map_total txo_value ((unspent_tx_output_map s)(?k \<mapsto> out)) =
        map_total txo_value ((unspent_tx_output_map s)(?k := None)) + txo_value out"
      using map_total_insert [of "(unspent_tx_output_map s)(?k := None)" ?k txo_value out] fin by simp
    ultimately show ?thesis using map_total_remove [OF fin Some, of txo_value] by (simp add: t utxo_total_def)
  qed
  moreover have "ledger_fine t"
    using assms utxo_keyed_update [of s out]
    by (auto simp: ledger_fine_def t nonneg_ledger_def get_unspent_tx_output_def split: if_splits)
  moreover have "get_unspent_tx_output s ?k = None \<longrightarrow> utxo_total t = utxo_total s + txo_value out"
    using ledger.add_total [OF ok assms(2)] by simp
  ultimately show ?thesis by blast
qed

lemma issue_output_cases:
  assumes "issue_output p h out s = (r, t)"
  shows "issuance_frame s t \<and>
     (unspent_tx_output_map t = unspent_tx_output_map s \<or>
      is_valid_issuance s out p h \<and> (\<exists>u. unspent_tx_output_map u = unspent_tx_output_map s \<and>
         issuance_frame s u \<and> add_unspent_tx_output out u = Inr t))"
proof (cases "is_valid_issuance s out p h")
  case False
  then show ?thesis using assms by (simp add: issue_output_def)
next
  case True
  show ?thesis
  proof (cases "new_issuance s p h")
    case (Inl e)
    then show ?thesis using assms True by (simp add: issue_output_def action_defs)
  next
    case (Inr iss)
    show ?thesis
    proof (cases "allow_dao_state_change s")
      case False
      then show ?thesis
        using assms True Inr by (auto simp: issue_output_def action_defs add_issuance_def guarded_closed)
    next
      case w: True
      let ?u = "s\<lparr>issuance_map := (issuance_map s)(iss_tx_id iss \<mapsto> iss)\<rparr>"
      have "add_issuance iss s = Inr ?u" "\<exists>v. add_unspent_tx_output out ?u = Inr v"
        using w by (simp_all add: mutator_defs)
      then obtain v where v: "add_issuance iss s = Inr ?u" "add_unspent_tx_output out ?u = Inr v" by blast
      then have "t = v" using assms True Inr by (simp add: issue_output_def action_defs)
      moreover have "issuance_frame s ?u" "issuance_frame s v"
        using v(2) by (auto simp: issuance_frame_def mutator_defs)
      ultimately show ?thesis using True v(2) by (intro conjI disjI2 exI [of _ ?u]) auto
    qed
  qed
qed

text \<open>Each candidate output is issued at most once; what the ledger gains is at most the value of the
  valid candidates, also when an exception ends the loop.\<close>

lemma issue_list_total:
  assumes "for_each (issue_output p h) outs s = (r, t)" and "ledger_fine s" and "0 \<le> requested_bsq p"
  shows "ledger_fine t \<and> issuance_frame s t \<and>
     utxo_total t \<le> utxo_total s + requested_bsq p * int (length (filter (\<lambda>out. is_valid_issuance s out p h) outs))"
  using assms(1,2)
proof (induction outs arbitrary: s)
  case Nil
  then show ?case by simp
next
  case (Cons out outs)
  obtain r1 u where u: "issue_output p h out s = (r1, u)" by fastforce
  note c = issue_output_cases [OF u]
  have f: "issuance_frame s u" using c by simp
  have g: "ledger_fine u \<and> utxo_total u \<le>
      utxo_total s + (if is_valid_issuance s out p h then requested_bsq p else 0)"
  proof (cases "unspent_tx_output_map u = unspent_tx_output_map s")
    case True
    then show ?thesis using Cons.prems(2) assms(3)
      by (simp add: ledger_fine_def utxo_keyed_def nonneg_ledger_def get_unspent_tx_output_def utxo_total_def)
  next
    case False
    with c obtain v where v: "is_valid_issuance s out p h" "unspent_tx_output_map v = unspent_tx_output_map s"
      "add_unspent_tx_output out v = Inr u" by blast
    have fv: "ledger_fine v" "utxo_total v = utxo_total s"
      using Cons.prems(2) v(2)
      by (simp_all add: ledger_fine_def utxo_keyed_def nonneg_ledger_def get_unspent_tx_output_def utxo_total_def)
    have "txo_value out = requested_bsq p" using v(1) by (simp add: is_valid_issuance_def)
    then show ?thesis using add_output_total [OF fv(1) v(3)] assms(3) v(1) fv(2) by simp
  qed
  show ?case
  proof (cases r1)
    case (Inl e)
    then have "t = u" using Cons.prems(1) u by simp
    moreover have "0 \<le> requested_bsq p * int (length (filter (\<lambda>out. is_valid_issuance s out p h) outs))"
      using assms(3) by simp
    ultimately show ?thesis using f g by (auto simp: algebra_simps)
  next
    case (Inr x)
    then have "for_each (issue_output p h) outs u = (r, t)" using Cons.prems(1) u by simp
    from Cons.IH [OF this] g
    have "ledger_fine t" "issuance_frame u t" "utxo_total t \<le> utxo_total u +
        requested_bsq p * int (length (filter (\<lambda>out. is_valid_issuance u out p h) outs))" by simp_all
    then show ?thesis
      using f g issuance_frame_queries(2) [OF f] issuance_frame_trans by (auto simp: algebra_simps)
  qed
qed

text \<open>The candidates: the second output of a request, so one per transaction.\<close>

definition candidates_ok :: "'a dao_state_scheme \<Rightarrow> bool" where
  "candidates_ok s \<longleftrightarrow>
     finite (get_issuance_candidate_tx_outputs s) \<and> inj_on get_key (get_issuance_candidate_tx_outputs s) \<and>
     (\<forall>out \<in> get_issuance_candidate_tx_outputs s. txo_index out = 1)"

lemma one_valid_candidate:
  assumes "candidates_ok s" and "set outs = get_issuance_candidate_tx_outputs s" and "distinct outs"
  shows "length (filter (\<lambda>out. is_valid_issuance s out p h) outs) \<le> 1"
proof -
  let ?V = "{out \<in> set outs. is_valid_issuance s out p h}"
  have "a = b" if "a \<in> ?V" "b \<in> ?V" for a b
  proof -
    have "Some (txo_tx_id a) = Some (txo_tx_id b)" using that unfolding is_valid_issuance_def by simp
    then have "txo_tx_id a = txo_tx_id b" by simp
    moreover have "txo_index a = txo_index b" using that assms(1,2) by (auto simp: candidates_ok_def)
    ultimately have "get_key a = get_key b" by (simp add: get_key_def)
    then show "a = b" using that assms(1,2) by (auto simp: candidates_ok_def inj_on_def)
  qed
  then have "card ?V \<le> 1" by (metis (no_types, lifting) card_le_Suc0_iff_eq One_nat_def finite_set rev_finite_subset
        mem_Collect_eq subsetI)
  moreover have "length (filter (\<lambda>out. is_valid_issuance s out p h) outs) = card ?V"
    using distinct_card [OF distinct_filter [OF assms(3), of "\<lambda>out. is_valid_issuance s out p h"]] by simp
  ultimately show ?thesis by simp
qed

lemma issue_bsq_total:
  assumes "issue_bsq env p h s = (r, t)" and "ledger_fine s" and "candidates_ok s" and "fair_order env"
    and "0 \<le> requested_bsq p"
  shows "ledger_fine t \<and> issuance_frame s t \<and> utxo_total t \<le> utxo_total s + requested_bsq p"
proof -
  let ?outs = "order_outputs env (get_issuance_candidate_tx_outputs s)"
  have o: "set ?outs = get_issuance_candidate_tx_outputs s" "distinct ?outs"
    using assms(3,4) by (simp_all add: candidates_ok_def fair_order_def)
  note l = one_valid_candidate [OF assms(3) o, of p h]
  have "requested_bsq p * int (length (filter (\<lambda>out. is_valid_issuance s out p h) ?outs)) \<le> requested_bsq p * 1"
    using l assms(5) by (intro mult_left_mono) auto
  then show ?thesis
    using issue_list_total [OF _ assms(2,5), of h ?outs r t] assms(1) by (simp add: issue_bsq_def)
qed

lemma candidates_ok_frame: "issuance_frame s t \<Longrightarrow> candidates_ok t = candidates_ok s"
  by (simp add: candidates_ok_def issuance_frame_queries(1))

end
