(* ===== verification/Vote_Result.thy ===== *)
theory Vote_Result
  imports Vote_Consensus Issuance_Service
begin

text \<open>
  \<open>dao/governance/voteresult/vote_result_service.py\<close>: at the first block of the result phase the
  blind votes revealed in the cycle are decrypted, the majority list of blind votes is determined,
  the proposals are evaluated by quorum and threshold, and the accepted ones are applied.  The
  operations that change the state are actions: when one raises, the changes made so far stay and
  the handler of \<open>_maybe_calculate_vote_result\<close> records the exception.
\<close>

section \<open>Decrypting the votes\<close>

definition record_exception :: "cycle \<Rightarrow> py_error \<Rightarrow> gov_service \<Rightarrow> gov_service" where
  "record_exception c e s =
     s\<lparr>vote_result_exceptions := vote_result_exceptions s @ [(cyc_height_of_first_block c, e)]\<rparr>"

definition send_republish_request :: "gov_service \<Rightarrow> gov_service" where
  "send_republish_request s = s\<lparr>republish_requests := republish_requests s + 1\<rparr>"

text \<open>The dictionaries keep the order of the first insertion of a key and its last value.\<close>

definition vote_by_tx_id_map :: "vote_with_proposal_tx_id list \<Rightarrow> (string \<times> vote option) list" where
  "vote_by_tx_id_map vs = fold (\<lambda>v. AList.update (vwp_proposal_tx_id v) (vwp_vote v)) vs []"

definition ballot_by_tx_id_map :: "ballot list \<Rightarrow> (string option \<times> ballot) list" where
  "ballot_by_tx_id_map bs = fold (\<lambda>b. AList.update (ballot_tx_id b) b) bs []"

definition voted_ballot :: "(string option \<times> ballot) list \<Rightarrow> string \<times> vote option \<Rightarrow> ballot option" where
  "voted_ballot ballots v =
     (case (map_of ballots (Some (fst v)), snd v) of
        (Some b, Some w) \<Rightarrow> Some \<lparr>bal_proposal = bal_proposal b, bal_vote = Some w\<rparr>
      | _ \<Rightarrow> None)"

definition create_ballot_list :: "gov_service \<Rightarrow> vote_with_proposal_tx_id list \<Rightarrow> ballot list res" where
  "create_ballot_list s votes =
     (let vote_map = vote_by_tx_id_map votes;
          ballots = ballot_by_tx_id_map (get_valid_ballots_of_cycle s);
          missing = filter (\<lambda>i. map_of ballots (Some i) = None) (map fst vote_map);
          voted = List.map_filter (voted_ballot ballots) vote_map;
          withheld = map (\<lambda>(i, b). \<lparr>bal_proposal = bal_proposal b, bal_vote = Some (Vote False)\<rparr>)
            (filter (\<lambda>(i, b). case i of None \<Rightarrow> True | Some j \<Rightarrow> map_of vote_map j = None) ballots)
      in if missing \<noteq> [] then Inl (Missing_Ballot missing)
         else sort_by_tx_id ballot_tx_id (voted @ withheld))"

definition get_empty_decrypted_ballots ::
  "string \<Rightarrow> string \<Rightarrow> bytes \<Rightarrow> int \<Rightarrow> (gov_service, decrypted_ballots option) action" where
  "get_empty_decrypted_ballots vote_reveal_tx_id blind_vote_tx_id h stake =
     abind (modify send_republish_request) (\<lambda>_.
     return (Some \<lparr>dbm_hash_of_blind_vote_list = h, dbm_blind_vote_tx_id = blind_vote_tx_id,
        dbm_vote_reveal_tx_id = vote_reveal_tx_id, dbm_stake = stake, dbm_ballot_list = [],
        dbm_merit_list = []\<rparr>))"

text \<open>Only a \<open>DecryptionException\<close> is handled here; the others go to the caller.\<close>

definition get_decrypted_ballots ::
  "gov_env \<Rightarrow> string \<Rightarrow> cycle \<Rightarrow> bytes \<Rightarrow> string \<Rightarrow> bytes \<Rightarrow> int \<Rightarrow> blind_vote \<Rightarrow>
     (gov_service, decrypted_ballots option) action" where
  "get_decrypted_ballots env vote_reveal_tx_id c op_return blind_vote_tx_id h stake bv =
     (let secret_key = get_secret_key op_return
      in try_except
        (query (\<lambda>s.
           rbind (decrypt_votes env (bv_encrypted_votes bv) secret_key) (\<lambda>votes.
           rbind (decrypt_merit_list env (bv_encrypted_merit_list bv) secret_key) (\<lambda>merits.
           rbind (create_ballot_list s votes) (\<lambda>ballots.
           Inr (Some \<lparr>dbm_hash_of_blind_vote_list = h, dbm_blind_vote_tx_id = blind_vote_tx_id,
              dbm_vote_reveal_tx_id = vote_reveal_tx_id, dbm_stake = stake,
              dbm_ballot_list = ballots, dbm_merit_list = merits\<rparr>))))))
        (\<lambda>e. if e = Decryption_Exception
             then abind (modify (record_exception c e)) (\<lambda>_. return None)
             else raise e))"

text \<open>The body of the \<open>try\<close> block of \<open>_tx_output_to_decrypted_ballots_with_merits\<close>.\<close>

definition decrypt_vote_reveal ::
  "gov_env \<Rightarrow> tx_output \<Rightarrow> int \<Rightarrow> cycle \<Rightarrow> (gov_service, decrypted_ballots option) action" where
  "decrypt_vote_reveal env out h c = (\<lambda>s.
     case get_tx s (txo_tx_id out) of
       None \<Rightarrow> (Inl Illegal_Argument, s)
     | Some vote_reveal_tx \<Rightarrow>
         (case get_connected_blind_vote_stake_output vote_reveal_tx s of
            Inl e \<Rightarrow> (Inl e, s)
          | Inr stake_output \<Rightarrow>
              let blind_vote_tx_id = txo_tx_id stake_output
              in if \<not> is_tx_in_phase_and_cycle s blind_vote_tx_id Phase_BLIND_VOTE h then (Inr None, s)
              else (case validate_blind_vote_tx blind_vote_tx_id s h of
                Inl e \<Rightarrow> (Inl e, s)
              | Inr _ \<Rightarrow>
                  (case txo_op_return_data out of
                     None \<Rightarrow> (Inl Type_Error, s)
                   | Some d \<Rightarrow>
                       let hash = get_hash_of_blind_vote_list d; stake = txo_value stake_output
                       in (case find (\<lambda>bv. bv_tx_id bv = blind_vote_tx_id)
                                  (get_sorted_blind_vote_list_of_cycle s) of
                             Some bv \<Rightarrow>
                               get_decrypted_ballots env (txo_tx_id out) c d blind_vote_tx_id hash stake bv s
                           | None \<Rightarrow>
                               get_empty_decrypted_ballots (txo_tx_id out) blind_vote_tx_id hash stake s)))))"

definition tx_output_to_decrypted_ballots ::
  "gov_env \<Rightarrow> tx_output \<Rightarrow> int \<Rightarrow> (gov_service, decrypted_ballots option) action" where
  "tx_output_to_decrypted_ballots env out h = (\<lambda>s.
     case current_cycle s of
       None \<Rightarrow> (Inl Assertion_Error, s)
     | Some c \<Rightarrow>
         try_except (decrypt_vote_reveal env out h c)
           (\<lambda>e. abind (modify (record_exception c e)) (\<lambda>_. return None)) s)"

definition is_in_vote_reveal_phase :: "'a dao_state_scheme \<Rightarrow> tx_output \<Rightarrow> bool" where
  "is_in_vote_reveal_phase s out \<longleftrightarrow> is_tx_in_phase s (txo_tx_id out) Phase_VOTE_REVEAL"

text \<open>The set comprehension of \<open>_get_decrypted_ballots_with_merits_set\<close>.\<close>

fun collect_decrypted_ballots ::
  "gov_env \<Rightarrow> int \<Rightarrow> tx_output list \<Rightarrow> decrypted_ballots list \<Rightarrow>
     (gov_service, decrypted_ballots list) action" where
  "collect_decrypted_ballots env h [] acc s = (Inr acc, s)"
| "collect_decrypted_ballots env h (out # outs) acc s =
     (if is_tx_in_correct_cycle_by_id s (txo_tx_id out) h \<and> is_in_vote_reveal_phase s out
      then (case tx_output_to_decrypted_ballots env out h s of
              (Inl e, t) \<Rightarrow> (Inl e, t)
            | (Inr None, t) \<Rightarrow> collect_decrypted_ballots env h outs acc t
            | (Inr (Some d), t) \<Rightarrow> collect_decrypted_ballots env h outs (set_add dbm_eq d acc) t)
      else collect_decrypted_ballots env h outs acc s)"

definition get_decrypted_ballots_with_merits_set ::
  "gov_env \<Rightarrow> int \<Rightarrow> (gov_service, decrypted_ballots list) action" where
  "get_decrypted_ballots_with_merits_set env h = (\<lambda>s.
     collect_decrypted_ballots env h (order_outputs env (get_vote_reveal_op_return_tx_outputs s)) [] s)"

section \<open>The majority list\<close>

definition get_stake_by_hash_of_blind_vote_list_map ::
  "gov_env \<Rightarrow> decrypted_ballots list \<Rightarrow> (bytes \<times> int) list res" where
  "get_stake_by_hash_of_blind_vote_list_map env ds =
     fold_res (\<lambda>d stakes.
       let h = dbm_hash_of_blind_vote_list d
       in if h = [] then Inl Illegal_Argument
          else let old = (case map_of stakes h of Some n \<Rightarrow> n | None \<Rightarrow> 0)
               in Inr (AList.update h (old + dbm_stake d) stakes))
       (order_ballots env ds) []"

definition calculate_majority_hash :: "(bytes \<times> int) list \<Rightarrow> bytes res" where
  "calculate_majority_hash stakes = get_majority_hash stakes"

definition is_list_matching_majority :: "gov_env \<Rightarrow> bytes \<Rightarrow> blind_vote list \<Rightarrow> bool" where
  "is_list_matching_majority env majority_hash bvs \<longleftrightarrow> majority_hash = hash_of_blind_votes env bvs"

definition find_permutated_list_matching_majority ::
  "gov_env \<Rightarrow> bytes \<Rightarrow> gov_service \<Rightarrow> blind_vote list" where
  "find_permutated_list_matching_majority env majority_hash s =
     find_matching_permutation (is_list_matching_majority env majority_hash)
       (get_sorted_blind_vote_list_of_cycle s) 1000000"

text \<open>The empty list stands for \<open>None\<close>: the caller treats both alike.\<close>

definition find_blind_vote_list_matching_majority_hash ::
  "gov_env \<Rightarrow> bytes \<Rightarrow> (gov_service, blind_vote list) action" where
  "find_blind_vote_list_matching_majority_hash env majority_hash = (\<lambda>s.
     let blind_votes = get_sorted_blind_vote_list_of_cycle s
     in if is_list_matching_majority env majority_hash blind_votes then (Inr blind_votes, s)
        else let permutated = find_permutated_list_matching_majority env majority_hash s
             in if permutated \<noteq> [] then (Inr permutated, s)
                else (Inr [], send_republish_request s))"

section \<open>Evaluating the proposals\<close>

record vote_with_stake =
  vws_vote :: "vote option"
  vws_stake :: int
  vws_sum_of_all_merits :: int

fun add_vote_with_stake ::
  "proposal \<Rightarrow> vote_with_stake \<Rightarrow> (proposal \<times> vote_with_stake list) list \<Rightarrow>
     (proposal \<times> vote_with_stake list) list" where
  "add_vote_with_stake p v [] = [(p, [v])]"
| "add_vote_with_stake p v ((q, vs) # m) =
     (if same_proposal_key q p then (q, vs @ [v]) # m else (q, vs) # add_vote_with_stake p v m)"

definition votes_of_ballots ::
  "gov_env \<Rightarrow> 'a dao_state_scheme \<Rightarrow> decrypted_ballots \<Rightarrow> (proposal \<times> vote_with_stake list) list \<Rightarrow>
     (proposal \<times> vote_with_stake list) list res" where
  "votes_of_ballots env s d m =
     fold_res (\<lambda>b m.
       rbind (get_merit_stake (ecdsa_verify env) (dbm_blind_vote_tx_id d) (dbm_merit_list d) s) (\<lambda>merits.
       Inr (add_vote_with_stake (bal_proposal b)
         \<lparr>vws_vote = bal_vote b, vws_stake = dbm_stake d, vws_sum_of_all_merits = merits\<rparr> m)))
       (dbm_ballot_list d) m"

definition get_vote_with_stake_list_by_proposal_map ::
  "gov_env \<Rightarrow> 'a dao_state_scheme \<Rightarrow> decrypted_ballots list \<Rightarrow>
     (proposal \<times> vote_with_stake list) list res" where
  "get_vote_with_stake_list_by_proposal_map env s ds =
     fold_res (votes_of_ballots env s) (order_ballots env ds) []"

definition count_vote :: "vote_with_stake \<Rightarrow> proposal_vote_result \<Rightarrow> proposal_vote_result" where
  "count_vote v r =
     (let combined_stake = vws_stake v + vws_sum_of_all_merits v
      in case vws_vote v of
           None \<Rightarrow> r\<lparr>pvr_num_ignored_votes := pvr_num_ignored_votes r + 1\<rparr>
         | Some w \<Rightarrow>
             if vote_accepted w
             then r\<lparr>pvr_stake_of_accepted_votes := pvr_stake_of_accepted_votes r + combined_stake,
                    pvr_num_accepted_votes := pvr_num_accepted_votes r + 1\<rparr>
             else r\<lparr>pvr_stake_of_rejected_votes := pvr_stake_of_rejected_votes r + combined_stake,
                    pvr_num_rejected_votes := pvr_num_rejected_votes r + 1\<rparr>)"

definition get_result_per_proposal :: "vote_with_stake list \<Rightarrow> proposal \<Rightarrow> proposal_vote_result" where
  "get_result_per_proposal vs p =
     fold count_vote vs
       \<lparr>pvr_proposal = p, pvr_stake_of_accepted_votes = 0, pvr_stake_of_rejected_votes = 0,
        pvr_num_accepted_votes = 0, pvr_num_rejected_votes = 0, pvr_num_ignored_votes = 0\<rparr>"

definition get_required_vote_threshold :: "'a dao_service_scheme \<Rightarrow> int \<Rightarrow> proposal \<Rightarrow> int res" where
  "get_required_vote_threshold s h p = get_param_value_as_percent s (get_threshold_param p) h"

definition evaluate_proposal ::
  "'a dao_service_scheme \<Rightarrow> int \<Rightarrow> proposal \<times> vote_with_stake list \<Rightarrow> evaluated_proposal res" where
  "evaluate_proposal s h pv =
     (case pv of (p, vs) \<Rightarrow>
        rbind (get_param_value_as_coin s (get_quorum_param p) h) (\<lambda>required_quorum.
        rbind (get_required_vote_threshold s h p) (\<lambda>required_vote_threshold.
        rbind (check (5000 \<le> required_vote_threshold) Illegal_Argument) (\<lambda>_.
        let r = get_result_per_proposal vs p
        in if required_quorum \<le> quorum r
           then rbind (threshold r) (\<lambda>reached_threshold.
             Inr \<lparr>ev_is_accepted = required_vote_threshold < reached_threshold, ev_proposal_vote_result = r\<rparr>)
           else Inr \<lparr>ev_is_accepted = False, ev_proposal_vote_result = r\<rparr>))))"

definition ignored_proposal :: "nat \<Rightarrow> proposal \<Rightarrow> evaluated_proposal" where
  "ignored_proposal n p =
     \<lparr>ev_is_accepted = False,
      ev_proposal_vote_result =
        \<lparr>pvr_proposal = p, pvr_stake_of_accepted_votes = 0, pvr_stake_of_rejected_votes = 0,
         pvr_num_accepted_votes = 0, pvr_num_rejected_votes = 0, pvr_num_ignored_votes = int n\<rparr>\<rparr>"

definition ignored_proposals ::
  "gov_service \<Rightarrow> int \<Rightarrow> nat \<Rightarrow> evaluated_proposal list \<Rightarrow> evaluated_proposal list" where
  "ignored_proposals s h n evs =
     map (ignored_proposal n)
       (filter (\<lambda>p. (case prop_tx_id p of None \<Rightarrow> False | Some i \<Rightarrow> is_tx_in_correct_cycle_by_id s i h) \<and>
                    prop_tx_id p \<notin> ev_proposal_tx_id ` set evs)
          (active_or_my_unconfirmed_proposals s))"

definition sum_issuance :: "evaluated_proposal list \<Rightarrow> int" where
  "sum_issuance evs =
     (\<Sum>e\<leftarrow>filter (\<lambda>e. ev_is_accepted e \<and> is_issuance_proposal (ev_proposal e)) evs.
        requested_bsq (ev_proposal e))"

definition reject_evaluated :: "evaluated_proposal \<Rightarrow> evaluated_proposal" where
  "reject_evaluated e = e\<lparr>ev_is_accepted := False\<rparr>"

definition evaluate_votes ::
  "gov_env \<Rightarrow> gov_service \<Rightarrow> decrypted_ballots list \<Rightarrow> int \<Rightarrow> evaluated_proposal list res" where
  "evaluate_votes env s ds h =
     rbind (get_vote_with_stake_list_by_proposal_map env s ds) (\<lambda>m.
     rbind (fold_res (\<lambda>pv evs. rbind (evaluate_proposal s h pv) (\<lambda>e. Inr (evs @ [e]))) m []) (\<lambda>evs.
     Inr (evs @ ignored_proposals s h (length ds) evs)))"

definition get_evaluated_proposals ::
  "gov_env \<Rightarrow> decrypted_ballots list \<Rightarrow> int \<Rightarrow> (gov_service, evaluated_proposal list) action" where
  "get_evaluated_proposals env ds h =
     abind (query (\<lambda>s. evaluate_votes env s ds h)) (\<lambda>evs.
     abind (query (\<lambda>s. get_param_value_as_coin s ISSUANCE_LIMIT h)) (\<lambda>limit.
     if limit < sum_issuance evs
     then (\<lambda>s. case current_cycle s of
             None \<Rightarrow> (Inl Assertion_Error, s)
           | Some c \<Rightarrow>
               (Inr (map reject_evaluated (filter ev_is_accepted (order_evaluated env evs))),
                record_exception c Consensus_Exception s))
     else return evs))"

section \<open>Applying the accepted proposals\<close>

definition get_accepted_evaluated_proposals :: "gov_env \<Rightarrow> evaluated_proposal list \<Rightarrow> evaluated_proposal list" where
  "get_accepted_evaluated_proposals env evs = filter ev_is_accepted (order_evaluated env evs)"

definition apply_issuance :: "gov_env \<Rightarrow> evaluated_proposal list \<Rightarrow> int \<Rightarrow> (gov_service, unit) action" where
  "apply_issuance env evs h =
     for_each (\<lambda>e. if is_issuance_proposal (ev_proposal e) then issue_bsq env (ev_proposal e) h else return ())
       (order_evaluated env evs)"

definition get_param_change :: "'a dao_state_scheme \<Rightarrow> param \<Rightarrow> string \<Rightarrow> int \<Rightarrow> param_change option" where
  "get_param_change s p v h =
     (case get_start_height_of_next_cycle s h of
        None \<Rightarrow> None
      | Some n \<Rightarrow> Some \<lparr>pc_param_name = param_name p, pc_value = v, pc_activation_height = n\<rparr>)"

fun group_add :: "'k \<Rightarrow> 'v \<Rightarrow> ('k \<times> 'v list) list \<Rightarrow> ('k \<times> 'v list) list" where
  "group_add k v [] = [(k, [v])]"
| "group_add k v ((l, vs) # m) = (if l = k then (l, vs @ [v]) # m else (l, vs) # group_add k v m)"

text \<open>The proposals by parameter name; their parameter and value are what is used of them.\<close>

definition param_changes_by_name ::
  "gov_service \<Rightarrow> evaluated_proposal list \<Rightarrow> int \<Rightarrow> (string \<times> (param \<times> string) list) list" where
  "param_changes_by_name s evs h =
     fold (\<lambda>e m. case prop_kind (ev_proposal e) of
         Change_Param_Proposal p v \<Rightarrow>
           (case get_param_change s p v h of
              None \<Rightarrow> m | Some pc \<Rightarrow> group_add (pc_param_name pc) (p, v) m)
       | _ \<Rightarrow> m) evs []"

definition apply_param_change :: "gov_env \<Rightarrow> evaluated_proposal list \<Rightarrow> int \<Rightarrow> (gov_service, unit) action" where
  "apply_param_change env evs h = (\<lambda>s.
     for_each (\<lambda>(name, changes).
         case changes of [(p, v)] \<Rightarrow> call (set_new_param h p v) | _ \<Rightarrow> return ())
       (param_changes_by_name s (order_evaluated env evs) h) s)"

definition apply_confiscate_bond :: "gov_env \<Rightarrow> evaluated_proposal list \<Rightarrow> (gov_service, unit) action" where
  "apply_confiscate_bond env evs =
     for_each (\<lambda>e. case prop_kind (ev_proposal e) of
         Confiscate_Bond_Proposal i \<Rightarrow> call (confiscate_bond i) | _ \<Rightarrow> return ())
       (order_evaluated env evs)"

text \<open>Accepted roles and removed assets are only logged.\<close>

definition apply_accepted_proposals ::
  "gov_env \<Rightarrow> evaluated_proposal list \<Rightarrow> int \<Rightarrow> (gov_service, unit) action" where
  "apply_accepted_proposals env evs h =
     abind (apply_issuance env evs h) (\<lambda>_.
     abind (apply_param_change env evs h) (\<lambda>_.
     apply_confiscate_bond env evs))"

section \<open>The vote result of a cycle\<close>

definition is_in_vote_result_phase :: "'a dao_state_scheme \<Rightarrow> int \<Rightarrow> bool" where
  "is_in_vote_result_phase s h \<longleftrightarrow> get_first_block_of_phase s h Phase_RESULT = h"

text \<open>The branch in which a list of blind votes matches the majority hash.\<close>

definition process_majority_list ::
  "gov_env \<Rightarrow> decrypted_ballots list \<Rightarrow> blind_vote list \<Rightarrow> int \<Rightarrow> (gov_service, unit) action" where
  "process_majority_list env ds blind_vote_list h =
     (let in_list = (\<lambda>d. dbm_blind_vote_tx_id d \<in> bv_tx_id ` set blind_vote_list);
          filtered = filter in_list (order_ballots env ds);
          invalid = filter (\<lambda>d. \<not> in_list d) (order_ballots env ds)
      in abind (modify (\<lambda>s. s\<lparr>invalid_decrypted_ballots :=
                  fold (set_add dbm_eq) invalid (invalid_decrypted_ballots s)\<rparr>)) (\<lambda>_.
         abind (call (add_decrypted_ballots_with_merits_set (order_ballots env filtered))) (\<lambda>_.
         abind (get_evaluated_proposals env filtered h) (\<lambda>evs.
         abind (add_evaluated_proposal_set (order_evaluated env evs)) (\<lambda>_.
         apply_accepted_proposals env (get_accepted_evaluated_proposals env evs) h)))))"

definition process_vote_result ::
  "gov_env \<Rightarrow> cycle \<Rightarrow> decrypted_ballots list \<Rightarrow> (bytes \<times> int) list \<Rightarrow> int \<Rightarrow> (gov_service, unit) action" where
  "process_vote_result env c ds stakes h =
     abind (query (\<lambda>_. calculate_majority_hash stakes)) (\<lambda>majority_hash.
     abind (find_blind_vote_list_matching_majority_hash env majority_hash) (\<lambda>blind_vote_list.
     if blind_vote_list \<noteq> [] then process_majority_list env ds blind_vote_list h
     else modify (record_exception c Vote_Result_Error)))"

definition maybe_calculate_vote_result :: "gov_env \<Rightarrow> int \<Rightarrow> (gov_service, unit) action" where
  "maybe_calculate_vote_result env h = (\<lambda>s.
     if is_in_vote_result_phase s h
     then (case current_cycle s of
             None \<Rightarrow> (Inl Assertion_Error, s)
           | Some c \<Rightarrow>
               abind (get_decrypted_ballots_with_merits_set env h) (\<lambda>ds.
               if ds \<noteq> []
               then abind (query (\<lambda>_. get_stake_by_hash_of_blind_vote_list_map env ds)) (\<lambda>stakes.
                    try_except (process_vote_result env c ds stakes h)
                      (\<lambda>e. modify (record_exception c e)))
               else return ()) s)
     else (Inr (), s))"

text \<open>The service is a listener of the state service.\<close>

definition vote_result_on_parse_block_complete :: "gov_env \<Rightarrow> block \<Rightarrow> gov_service \<Rightarrow> gov_service res" where
  "vote_result_on_parse_block_complete env b s =
     (case maybe_calculate_vote_result env (blk_height b) s of
        (Inl e, _) \<Rightarrow> Inl e | (Inr _, t) \<Rightarrow> Inr t)"

end
