(* ===== verification/Vote_Rules.thy ===== *)
theory Vote_Rules
  imports Vote_Result
begin

text \<open>
  What the vote result does to the state: the steps up to the application of the accepted proposals
  keep the ledger (\<open>vote_frame\<close>, an interpretation of \<open>action_frame\<close>), and the application issues
  at most the issuance limit, whatever exceptions the code catches on the way.
\<close>

section \<open>The steps before the proposals are applied\<close>

definition vote_frame :: "gov_service \<Rightarrow> gov_service \<Rightarrow> bool" where
  "vote_frame s t \<longleftrightarrow>
     t\<lparr>evaluated_proposal_list := evaluated_proposal_list s,
       decrypted_ballots_with_merits_list := decrypted_ballots_with_merits_list s,
       vote_result_exceptions := vote_result_exceptions s,
       invalid_decrypted_ballots := invalid_decrypted_ballots s,
       republish_requests := republish_requests s\<rparr> = s"

interpretation votes: action_frame vote_frame
proof
  show "vote_frame s s" for s by (simp add: vote_frame_def)
  show "vote_frame s t \<Longrightarrow> vote_frame t u \<Longrightarrow> vote_frame s u" for s t u
    by (cases s; cases t; cases u) (simp add: vote_frame_def)
qed

lemma vote_frame_sel:
  assumes "vote_frame s t"
  shows "unspent_tx_output_map t = unspent_tx_output_map s" "tx_outputs_by_type t = tx_outputs_by_type s"
    "tx_cache t = tx_cache s" "cycles t = cycles s" "ballot_list t = ballot_list s"
    "param_change_list t = param_change_list s" "network t = network s"
    "bsq_formatter t = bsq_formatter s" "percent_parser t = percent_parser s"
    "allow_dao_state_change t = allow_dao_state_change s" "chain_height t = chain_height s"
    "issuance_map t = issuance_map s" "confiscated_lockup_tx_list t = confiscated_lockup_tx_list s"
    "blind_vote_payloads t = blind_vote_payloads s" "blocks t = blocks s"
    "active_or_my_unconfirmed_proposals t = active_or_my_unconfirmed_proposals s"
    "spent_info_map t = spent_info_map s"
  using assms by (cases s; cases t; simp add: vote_frame_def)+

lemma record_exception_frame [simp]: "vote_frame s (record_exception c e s)"
  by (simp add: vote_frame_def record_exception_def)

lemma republish_frame [simp]: "vote_frame s (send_republish_request s)"
  by (simp add: vote_frame_def send_republish_request_def)

lemma exception_keeps: "keeps vote_frame (abind (modify (record_exception c e)) (\<lambda>_. return x))"
  by (intro votes.keeps_abind votes.keeps_modify votes.keeps_return) simp

lemma empty_ballots_keep: "keeps vote_frame (get_empty_decrypted_ballots i j h st)"
  unfolding get_empty_decrypted_ballots_def by (intro votes.keeps_intros) simp

lemma decrypted_ballots_keep: "keeps vote_frame (get_decrypted_ballots env i c d j h st bv)"
  unfolding get_decrypted_ballots_def Let_def
  by (intro votes.keeps_try votes.keeps_query) (simp add: exception_keeps votes.keeps_raise)

lemma decrypt_reveal_keeps: "keeps vote_frame (decrypt_vote_reveal env out h c)"
proof (rule keepsI)
  fix s r t assume a: "decrypt_vote_reveal env out h c s = (r, t)"
  show "vote_frame s t"
    using a unfolding decrypt_vote_reveal_def Let_def
    by (auto split: option.splits sum.splits if_splits
        intro: votes.frame_refl keepsD [OF decrypted_ballots_keep] keepsD [OF empty_ballots_keep])
qed

lemma tx_output_ballots_keep: "keeps vote_frame (tx_output_to_decrypted_ballots env out h)"
proof (rule keepsI)
  fix s r t assume a: "tx_output_to_decrypted_ballots env out h s = (r, t)"
  show "vote_frame s t"
  proof (cases "current_cycle s")
    case None
    then show ?thesis using a by (simp add: tx_output_to_decrypted_ballots_def votes.frame_refl)
  next
    case (Some c)
    have "keeps vote_frame (try_except (decrypt_vote_reveal env out h c)
        (\<lambda>e. abind (modify (record_exception c e)) (\<lambda>_. return None)))"
      by (intro votes.keeps_try decrypt_reveal_keeps exception_keeps)
    then show ?thesis using a Some by (auto simp: tx_output_to_decrypted_ballots_def dest: keepsD)
  qed
qed

lemma collect_keeps:
  "collect_decrypted_ballots env h outs acc s = (r, t) \<Longrightarrow> vote_frame s t"
proof (induction outs arbitrary: acc s)
  case Nil
  then show ?case by (simp add: votes.frame_refl)
next
  case (Cons out outs)
  obtain r1 u where u: "tx_output_to_decrypted_ballots env out h s = (r1, u)" by fastforce
  have "vote_frame s u" using keepsD [OF tx_output_ballots_keep u] .
  then show ?case
    using Cons u by (auto split: if_splits sum.splits option.splits intro: votes.frame_trans)
qed

lemma get_ballots_set_keeps: "keeps vote_frame (get_decrypted_ballots_with_merits_set env h)"
  by (auto simp: keeps_def get_decrypted_ballots_with_merits_set_def intro: collect_keeps)

lemma find_list_keeps: "keeps vote_frame (find_blind_vote_list_matching_majority_hash env m)"
  by (auto simp: keeps_def find_blind_vote_list_matching_majority_hash_def Let_def votes.frame_refl
      split: if_splits)

lemma get_evaluated_keeps: "keeps vote_frame (get_evaluated_proposals env ds h)"
  unfolding get_evaluated_proposals_def
  by (intro votes.keeps_abind votes.keeps_query)
    (auto simp: keeps_def return_def votes.frame_refl split: option.splits)

lemma add_evaluated_keeps: "keeps vote_frame (add_evaluated_proposal_set es)"
  unfolding add_evaluated_proposal_set_def
  by (intro votes.keeps_abind votes.keeps_query votes.keeps_modify votes.keeps_call) (auto simp: vote_frame_def)

lemma add_decrypted_keeps: "keeps vote_frame (call (add_decrypted_ballots_with_merits_set ds))"
  by (intro votes.keeps_call) (auto simp: vote_frame_def add_decrypted_ballots_with_merits_set_def)

lemma add_invalid_keeps: "keeps vote_frame (modify (\<lambda>s. s\<lparr>invalid_decrypted_ballots := f (invalid_decrypted_ballots s)\<rparr>))"
  by (intro votes.keeps_modify) (simp add: vote_frame_def)

section \<open>The proposals that are evaluated\<close>

text \<open>The ballots that a vote reveals carry the proposals of the node's own ballot list.\<close>

definition known_proposals :: "gov_service \<Rightarrow> proposal set" where
  "known_proposals s = bal_proposal ` set (ballot_list s)"

lemma fold_update_values:
  "set (map snd (fold (\<lambda>x. AList.update (k x) (v x)) xs al)) \<subseteq> set (map snd al) \<union> v ` set xs"
proof (induction xs arbitrary: al)
  case (Cons x xs)
  have "set (map snd (AList.update (k x) (v x) al)) \<subseteq> insert (v x) (set (map snd al))"
    by (induction al) auto
  moreover have "set (map snd (fold (\<lambda>x. AList.update (k x) (v x)) xs (AList.update (k x) (v x) al))) \<subseteq>
      set (map snd (AList.update (k x) (v x) al)) \<union> v ` set xs" by (rule Cons.IH)
  ultimately show ?case by (simp del: set_map) blast
qed simp

lemma create_ballot_list_known:
  assumes "create_ballot_list s votes = Inr bs" and "b \<in> set bs"
  shows "bal_proposal b \<in> known_proposals s"
proof -
  let ?m = "ballot_by_tx_id_map (get_valid_ballots_of_cycle s)"
  have m: "snd ` set ?m \<subseteq> set (ballot_list s)"
    using fold_update_values [of ballot_tx_id "\<lambda>b. b" "get_valid_ballots_of_cycle s" "[]"]
    by (auto simp: ballot_by_tx_id_map_def get_valid_ballots_of_cycle_def)
  obtain voted withheld where
    v: "voted = List.map_filter (voted_ballot ?m) (vote_by_tx_id_map votes)" and
    w: "withheld = map (\<lambda>(i, b). \<lparr>bal_proposal = bal_proposal b, bal_vote = Some (Vote False)\<rparr>)
        (filter (\<lambda>(i, b). case i of None \<Rightarrow> True | Some j \<Rightarrow> map_of (vote_by_tx_id_map votes) j = None) ?m)" and
    s: "sort_by_tx_id ballot_tx_id (voted @ withheld) = Inr bs"
    using assms(1) by (auto simp: create_ballot_list_def Let_def split: if_splits)
  have "b \<in> set voted \<or> b \<in> set withheld" using sort_by_tx_id_set [OF s] assms(2) by auto
  then show ?thesis
  proof
    assume "b \<in> set voted"
    then obtain x where "voted_ballot ?m x = Some b" by (auto simp: v List.map_filter_def)
    then obtain c where "map_of ?m (Some (fst x)) = Some c" "bal_proposal b = bal_proposal c"
      by (auto simp: voted_ballot_def split: option.splits)
    then show ?thesis using m map_of_SomeD by (fastforce simp: known_proposals_def)
  next
    assume "b \<in> set withheld"
    then show ?thesis using m by (force simp: w known_proposals_def)
  qed
qed

definition ballots_known :: "gov_service \<Rightarrow> decrypted_ballots \<Rightarrow> bool" where
  "ballots_known s d \<longleftrightarrow> (\<forall>b \<in> set (dbm_ballot_list d). bal_proposal b \<in> known_proposals s)"

lemma decrypted_ballots_known:
  assumes "get_decrypted_ballots env i c d j h st bv s = (Inr (Some x), t)"
  shows "ballots_known s x"
proof -
  obtain votes merits bs where "create_ballot_list s votes = Inr bs" "dbm_ballot_list x = bs"
    using assms by (auto simp: get_decrypted_ballots_def Let_def action_defs split: sum.splits if_splits prod.splits)
  then show ?thesis using create_ballot_list_known by (auto simp: ballots_known_def)
qed

lemma tx_output_ballots_known:
  assumes "tx_output_to_decrypted_ballots env out h s = (Inr (Some x), t)"
  shows "ballots_known s x"
proof -
  obtain c where "decrypt_vote_reveal env out h c s = (Inr (Some x), t)"
    using assms by (auto simp: tx_output_to_decrypted_ballots_def action_defs split: option.splits sum.splits prod.splits)
  then show ?thesis
    by (auto simp: decrypt_vote_reveal_def Let_def get_empty_decrypted_ballots_def action_defs ballots_known_def
        split: option.splits sum.splits if_splits dest!: decrypted_ballots_known)
qed

lemma collect_known:
  assumes "collect_decrypted_ballots env h outs acc s = (Inr ds, t)" and "\<forall>d \<in> set acc. ballots_known s d"
  shows "\<forall>d \<in> set ds. ballots_known s d"
  using assms
proof (induction outs arbitrary: acc s)
  case Nil
  then show ?case by simp
next
  case (Cons out outs)
  obtain r1 u where u: "tx_output_to_decrypted_ballots env out h s = (r1, u)" by fastforce
  have f: "ballots_known u d = ballots_known s d" for d
    using vote_frame_sel(5) [OF keepsD [OF tx_output_ballots_keep u]] by (simp add: ballots_known_def known_proposals_def)
  show ?case
  proof (cases "is_tx_in_correct_cycle_by_id s (txo_tx_id out) h \<and> is_in_vote_reveal_phase s out")
    case False
    then show ?thesis using Cons by auto
  next
    case True
    then obtain x where x: "r1 = Inr x" using Cons.prems(1) u by (cases r1) auto
    show ?thesis
    proof (cases x)
      case None
      then show ?thesis using Cons.IH [of acc u] Cons.prems True u x by (simp add: f)
    next
      case (Some d)
      have "ballots_known s d" using tx_output_ballots_known u x Some by simp
      then have "\<forall>e \<in> set (set_add dbm_eq d acc). ballots_known u e"
        using Cons.prems(2) set_add_subset f by fastforce
      then show ?thesis using Cons.IH [of "set_add dbm_eq d acc" u] Cons.prems True u x Some by (simp add: f)
    qed
  qed
qed

text \<open>Counting the votes of a proposal does not change the proposal.\<close>

lemma count_vote_proposal [simp]: "pvr_proposal (count_vote v r) = pvr_proposal r"
  by (simp add: count_vote_def Let_def split: option.split)

lemma result_proposal [simp]: "pvr_proposal (get_result_per_proposal vs p) = p"
proof -
  have "pvr_proposal (fold count_vote vs r) = pvr_proposal r" for r by (induction vs arbitrary: r) simp_all
  then show ?thesis by (simp add: get_result_per_proposal_def)
qed

lemma evaluate_proposal_proposal: "evaluate_proposal s h (p, vs) = Inr e \<Longrightarrow> ev_proposal e = p"
  by (auto simp: evaluate_proposal_def Let_def ev_proposal_def split: if_splits)

lemma add_vote_keys: "fst ` set (add_vote_with_stake p v m) \<subseteq> insert p (fst ` set m)"
  by (induction p v m rule: add_vote_with_stake.induct) auto

lemma votes_of_ballots_keys:
  assumes "votes_of_ballots env s d m = Inr m'"
  shows "fst ` set m' \<subseteq> fst ` set m \<union> bal_proposal ` set (dbm_ballot_list d)"
  using assms unfolding votes_of_ballots_def
proof (induction rule: fold_res_inv)
  case init
  show ?case by simp
next
  case (step b u w)
  then obtain v where w: "w = add_vote_with_stake (bal_proposal b) v u" by auto
  have "fst ` set w \<subseteq> insert (bal_proposal b) (fst ` set u)" unfolding w by (rule add_vote_keys)
  then show ?case using step by blast
qed

lemma vote_map_keys:
  assumes "get_vote_with_stake_list_by_proposal_map env s ds = Inr m" and "fair_order env"
  shows "fst ` set m \<subseteq> (\<Union>d \<in> set ds. bal_proposal ` set (dbm_ballot_list d))"
  using assms(1) unfolding get_vote_with_stake_list_by_proposal_map_def
proof (induction rule: fold_res_inv)
  case init
  show ?case by simp
next
  case (step d u w)
  then have "votes_of_ballots env s d u = Inr w" "d \<in> set ds" using fair_order_sets(1) [OF assms(2)] by auto
  then show ?case using votes_of_ballots_keys [of env s d u w] step by blast
qed

lemma evaluate_all_proposals:
  assumes "fold_res (\<lambda>pv evs. rbind (evaluate_proposal s h pv) (\<lambda>e. Inr (evs @ [e]))) m acc = Inr evs"
  shows "ev_proposal ` set evs \<subseteq> ev_proposal ` set acc \<union> fst ` set m"
  using assms
proof (induction rule: fold_res_inv)
  case init
  show ?case by simp
next
  case (step pv u w)
  obtain p vs where pv: "pv = (p, vs)" by fastforce
  with step obtain e where e: "evaluate_proposal s h (p, vs) = Inr e" "w = u @ [e]" by auto
  have "p \<in> fst ` set m" using step pv by force
  then show ?case using step evaluate_proposal_proposal [OF e(1)] e(2) by simp
qed

lemma ignored_not_accepted: "e \<in> set (ignored_proposals s h n evs) \<Longrightarrow> \<not> ev_is_accepted e"
  by (auto simp: ignored_proposals_def ignored_proposal_def)

lemma evaluate_votes_known:
  assumes "evaluate_votes env s ds h = Inr evs" and "fair_order env"
    and "\<forall>d \<in> set ds. ballots_known s0 d" and "e \<in> set evs" and "ev_is_accepted e"
  shows "ev_proposal e \<in> known_proposals s0"
proof -
  obtain m es where m: "get_vote_with_stake_list_by_proposal_map env s ds = Inr m"
    and es: "fold_res (\<lambda>pv evs. rbind (evaluate_proposal s h pv) (\<lambda>e. Inr (evs @ [e]))) m [] = Inr es"
    and evs: "evs = es @ ignored_proposals s h (length ds) es"
    using assms(1) by (auto simp: evaluate_votes_def)
  have "e \<in> set es" using assms(4,5) ignored_not_accepted by (auto simp: evs)
  then have "ev_proposal e \<in> fst ` set m" using evaluate_all_proposals [OF es] by auto
  then show ?thesis using vote_map_keys [OF m assms(2)] assms(3) by (auto simp: ballots_known_def)
qed

section \<open>The issuance limit\<close>

lemma sum_issuance_rejected: "sum_issuance (map reject_evaluated evs) = 0"
proof -
  have "filter (\<lambda>e. ev_is_accepted e \<and> is_issuance_proposal (ev_proposal e)) (map reject_evaluated evs) = []"
    by (auto simp: filter_empty_conv reject_evaluated_def)
  then show ?thesis by (simp add: sum_issuance_def)
qed

lemma evaluated_within_limit:
  assumes "get_evaluated_proposals env ds h s = (Inr evs, t)"
    and "get_param_value_as_coin s ISSUANCE_LIMIT h = Inr l" and "0 \<le> l"
  shows "sum_issuance evs \<le> l"
proof -
  from assms(1,2) obtain es where "evaluate_votes env s ds h = Inr es"
    "if l < sum_issuance es then evs = map reject_evaluated (filter ev_is_accepted (order_evaluated env es)) else evs = es"
    by (auto simp: get_evaluated_proposals_def action_defs split: sum.splits if_splits option.splits)
  then show ?thesis using assms(3) by (auto simp: sum_issuance_rejected not_less split: if_splits)
qed

lemma evaluated_known:
  assumes "get_evaluated_proposals env ds h s = (Inr evs, t)" and "fair_order env"
    and "\<forall>d \<in> set ds. ballots_known s0 d" and "e \<in> set evs" and "ev_is_accepted e"
  shows "ev_proposal e \<in> known_proposals s0"
proof -
  from assms(1) obtain es where es: "evaluate_votes env s ds h = Inr es"
    "evs = map reject_evaluated (filter ev_is_accepted (order_evaluated env es)) \<or> evs = es"
    by (auto simp: get_evaluated_proposals_def action_defs split: sum.splits if_splits option.splits)
  from es(2) show ?thesis
  proof
    assume "evs = map reject_evaluated (filter ev_is_accepted (order_evaluated env es))"
    then show ?thesis using assms(4,5) by (auto simp: reject_evaluated_def)
  next
    assume "evs = es"
    then show ?thesis using evaluate_votes_known [OF es(1) assms(2,3)] assms(4,5) by simp
  qed
qed

text \<open>Applying the issuance proposals of a list issues at most what they request.\<close>

definition requested_of :: "evaluated_proposal list \<Rightarrow> int" where
  "requested_of evs = (\<Sum>e\<leftarrow>filter (\<lambda>e. is_issuance_proposal (ev_proposal e)) evs. requested_bsq (ev_proposal e))"

lemma requested_of_nonneg: "\<forall>e \<in> set evs. 0 \<le> requested_bsq (ev_proposal e) \<Longrightarrow> 0 \<le> requested_of evs"
  unfolding requested_of_def by (intro sum_list_nonneg) auto

lemma requested_of_mset:
  assumes "mset xs = mset ys"
  shows "requested_of xs = requested_of ys"
proof -
  have "mset (filter P xs) = mset (filter P ys)" for P using assms by simp
  then have "mset (map f (filter P xs)) = mset (map f (filter P ys))" for P f by simp
  then show ?thesis unfolding requested_of_def by (metis sum_mset_sum_list)
qed

lemma issue_list_of_proposals:
  assumes "for_each (\<lambda>e. if is_issuance_proposal (ev_proposal e) then issue_bsq env (ev_proposal e) h
             else return ()) evs s = (r, t)"
    and "ledger_fine s" and "candidates_ok s" and "fair_order env"
    and "\<forall>e \<in> set evs. 0 \<le> requested_bsq (ev_proposal e)"
  shows "ledger_fine t \<and> issuance_frame s t \<and> utxo_total t \<le> utxo_total s + requested_of evs"
  using assms
proof (induction evs arbitrary: s)
  case Nil
  then show ?case by (simp add: requested_of_def)
next
  case (Cons e evs)
  let ?f = "\<lambda>e. if is_issuance_proposal (ev_proposal e) then issue_bsq env (ev_proposal e) h else return ()"
  let ?n = "if is_issuance_proposal (ev_proposal e) then requested_bsq (ev_proposal e) else 0"
  obtain r1 u where u: "?f e s = (r1, u)" by fastforce
  have u_ok: "ledger_fine u \<and> issuance_frame s u \<and> utxo_total u \<le> utxo_total s + ?n"
    using u Cons.prems(2,3,5) issue_bsq_total [OF _ Cons.prems(2,3,4), of "ev_proposal e" h r1 u]
    by (auto simp: return_def split: if_splits)
  have rest: "requested_of (e # evs) = ?n + requested_of evs" "0 \<le> requested_of evs"
    using Cons.prems(5) requested_of_nonneg [of evs] by (simp_all add: requested_of_def)
  show ?case
  proof (cases r1)
    case (Inl x)
    then have "t = u" using Cons.prems(1) u by simp
    then show ?thesis using u_ok rest by simp
  next
    case (Inr x)
    then have "for_each ?f evs u = (r, t)" using Cons.prems(1) u by simp
    from Cons.IH [OF this] u_ok candidates_ok_frame [of s u] Cons.prems(3-5)
    have "ledger_fine t" "issuance_frame u t" "utxo_total t \<le> utxo_total u + requested_of evs" by simp_all
    then show ?thesis using u_ok rest issuance_frame_trans by fastforce
  qed
qed

text \<open>Changes of parameters and confiscations leave the ledger alone.\<close>

definition same_coins :: "gov_service \<Rightarrow> gov_service \<Rightarrow> bool" where
  "same_coins s t \<longleftrightarrow> unspent_tx_output_map t = unspent_tx_output_map s"

interpretation coins: action_frame same_coins
  by unfold_locales (simp_all add: same_coins_def)

lemma set_param_keeps: "keeps same_coins (call (set_new_param h p v))"
  by (intro coins.keeps_call) (auto simp: same_coins_def set_new_param_def split: option.splits)

lemma param_change_keeps: "keeps same_coins (apply_param_change env evs h)"
proof (rule keepsI)
  fix s r t assume a: "apply_param_change env evs h s = (r, t)"
  let ?f = "\<lambda>(name, changes). case changes of [(p, v)] \<Rightarrow> call (set_new_param h p v) | _ \<Rightarrow> return ()"
  have "keeps same_coins (?f x)" for x :: "string \<times> (param \<times> string) list"
    by (cases x) (auto split: list.split intro: set_param_keeps coins.keeps_return)
  then have "keeps same_coins (for_each ?f (param_changes_by_name s (order_evaluated env evs) h))"
    by (rule coins.keeps_for_each)
  then show "same_coins s t" using a unfolding apply_param_change_def by (rule keepsD)
qed

lemma confiscate_keeps: "keeps same_coins (apply_confiscate_bond env evs)"
proof -
  have "confiscate_bond i s = Inr t \<Longrightarrow> same_coins s t" for i s t
    by (auto simp: confiscate_bond_def do_confiscate_bond_def same_coins_def split: option.splits if_splits)
  then show ?thesis unfolding apply_confiscate_bond_def
    by (intro coins.keeps_for_each) (auto split: proposal_kind.split intro: coins.keeps_call coins.keeps_return)
qed

lemma apply_accepted_total:
  assumes "apply_accepted_proposals env evs h s = (r, t)" and "ledger_fine s" and "candidates_ok s"
    and "fair_order env" and "\<forall>e \<in> set evs. 0 \<le> requested_bsq (ev_proposal e)"
  shows "utxo_total t \<le> utxo_total s + requested_of evs"
proof -
  obtain r1 u where u: "apply_issuance env evs h s = (r1, u)" by fastforce
  have nn: "\<forall>e \<in> set (order_evaluated env evs). 0 \<le> requested_bsq (ev_proposal e)"
    using assms(4,5) fair_order_sets(2) by blast
  have "mset (order_evaluated env evs) = mset evs" using assms(4) by (simp add: fair_order_def)
  then have "utxo_total u \<le> utxo_total s + requested_of evs"
    using issue_list_of_proposals [OF u [unfolded apply_issuance_def] assms(2,3,4) nn]
      requested_of_mset [of "order_evaluated env evs" evs] by simp
  moreover have "same_coins u t"
  proof (cases r1)
    case (Inl e)
    then show ?thesis using assms(1) u by (simp add: apply_accepted_proposals_def abind_def coins.frame_refl)
  next
    case (Inr x)
    have "keeps same_coins (abind (apply_param_change env evs h) (\<lambda>_. apply_confiscate_bond env evs))"
      by (intro coins.keeps_abind param_change_keeps confiscate_keeps)
    moreover have "abind (apply_param_change env evs h) (\<lambda>_. apply_confiscate_bond env evs) u = (r, t)"
      using assms(1) u Inr by (simp add: apply_accepted_proposals_def abind_def [of "apply_issuance env evs h"])
    ultimately show ?thesis by (rule keepsD)
  qed
  ultimately show ?thesis by (simp add: same_coins_def utxo_total_def)
qed

section \<open>The whole vote result\<close>

text \<open>The first action of a bind: either it raised, or the rest runs in the state it left.\<close>

lemma abind_cases [consumes 1, case_names raised went_on]:
  assumes "abind m f s = (r, t)"
    and "\<And>e. m s = (Inl e, t) \<Longrightarrow> r = Inl e \<Longrightarrow> P"
    and "\<And>x u. m s = (Inr x, u) \<Longrightarrow> f x u = (r, t) \<Longrightarrow> P"
  shows P
  using assms by (auto simp: abind_def split: prod.splits sum.splits)

definition issued_at_most :: "int \<Rightarrow> gov_service \<Rightarrow> gov_service \<Rightarrow> bool" where
  "issued_at_most l s t \<longleftrightarrow> utxo_total t \<le> utxo_total s + l"

lemma vote_frame_total: "vote_frame s t \<Longrightarrow> utxo_total t = utxo_total s"
  using vote_frame_sel(1) [of s t] by (simp add: utxo_total_def)

lemma vote_frame_keeps_facts:
  assumes "vote_frame s t"
  shows "ledger_fine t = ledger_fine s" "candidates_ok t = candidates_ok s"
    "known_proposals t = known_proposals s"
    "get_param_value_as_coin t p h = get_param_value_as_coin s p h"
  using vote_frame_sel [OF assms]
  by (simp_all add: ledger_fine_def utxo_keyed_def nonneg_ledger_def get_unspent_tx_output_def candidates_ok_def
      get_issuance_candidate_tx_outputs_def get_tx_output_by_tx_output_type_def known_proposals_def
      get_param_value_as_coin_def get_param_value_def split: option.split)

definition vote_ready :: "gov_env \<Rightarrow> int \<Rightarrow> int \<Rightarrow> gov_service \<Rightarrow> bool" where
  "vote_ready env h l s \<longleftrightarrow>
     ledger_fine s \<and> candidates_ok s \<and> get_param_value_as_coin s ISSUANCE_LIMIT h = Inr l \<and> 0 \<le> l \<and>
     (\<forall>p \<in> known_proposals s. 0 \<le> requested_bsq p)"

lemma vote_ready_frame: "vote_frame s t \<Longrightarrow> vote_ready env h l t = vote_ready env h l s"
  by (simp add: vote_ready_def vote_frame_keeps_facts)

lemma ballots_known_frame: "vote_frame s t \<Longrightarrow> ballots_known t d = ballots_known s d"
  by (simp add: ballots_known_def vote_frame_keeps_facts)

lemma accepted_sum: "requested_of (filter ev_is_accepted evs) = sum_issuance evs"
  by (simp add: requested_of_def sum_issuance_def conj_commute)

lemma accepted_requested:
  assumes "fair_order env"
  shows "requested_of (get_accepted_evaluated_proposals env evs) = sum_issuance evs"
proof -
  have m: "mset (order_evaluated env evs) = mset evs" using assms by (simp add: fair_order_def)
  have "requested_of (filter ev_is_accepted (order_evaluated env evs)) = requested_of (filter ev_is_accepted evs)"
    by (rule requested_of_mset) (simp add: m)
  then show ?thesis by (simp add: get_accepted_evaluated_proposals_def accepted_sum)
qed

lemma evaluate_and_apply_total:
  assumes "abind (get_evaluated_proposals env ds h) (\<lambda>evs.
             abind (add_evaluated_proposal_set (order_evaluated env evs)) (\<lambda>_.
             apply_accepted_proposals env (get_accepted_evaluated_proposals env evs) h)) s = (r, t)"
    and "vote_ready env h l s" and "fair_order env" and "\<forall>d \<in> set ds. ballots_known s d"
  shows "issued_at_most l s t"
  using assms(1)
proof (cases rule: abind_cases)
  case raised
  then have "vote_frame s t" using get_evaluated_keeps keepsD by metis
  then show ?thesis using assms(2) by (simp add: issued_at_most_def vote_frame_total vote_ready_def)
next
  case (went_on evs u)
  have su: "vote_frame s u" using get_evaluated_keeps went_on(1) by (rule keepsD)
  from went_on(2) show ?thesis
  proof (cases rule: abind_cases)
    case raised
    then have "vote_frame u t" using add_evaluated_keeps keepsD by metis
    then have "vote_frame s t" using su votes.frame_trans by blast
    then show ?thesis using assms(2) by (simp add: issued_at_most_def vote_frame_total vote_ready_def)
  next
    case (went_on x v)
    let ?acc = "get_accepted_evaluated_proposals env evs"
    have "vote_frame u v" using add_evaluated_keeps went_on(1) by (rule keepsD)
    then have sv: "vote_frame s v" using su votes.frame_trans by blast
    then have rv: "vote_ready env h l v" using assms(2) vote_ready_frame by blast
    have nn: "\<forall>e \<in> set ?acc. 0 \<le> requested_bsq (ev_proposal e)"
      using evaluated_known [OF \<open>get_evaluated_proposals env ds h s = (Inr evs, u)\<close> assms(3,4)]
        assms(2,3) fair_order_sets(2) by (auto simp: get_accepted_evaluated_proposals_def vote_ready_def)
    have "utxo_total t \<le> utxo_total v + requested_of ?acc"
      using apply_accepted_total [OF went_on(2) _ _ assms(3) nn] rv by (simp add: vote_ready_def)
    moreover have "requested_of ?acc \<le> l"
      using evaluated_within_limit [OF \<open>get_evaluated_proposals env ds h s = (Inr evs, u)\<close>] assms(2)
      by (simp add: accepted_requested [OF assms(3)] vote_ready_def)
    ultimately show ?thesis using vote_frame_total [OF sv] by (simp add: issued_at_most_def)
  qed
qed

text \<open>A step that keeps the votes frame may come first.\<close>

lemma abind_frame_first:
  assumes "abind m f s = (r, t)" and "keeps vote_frame m" and "vote_ready env h l s"
    and "\<And>x u. m s = (Inr x, u) \<Longrightarrow> vote_frame s u \<Longrightarrow> f x u = (r, t) \<Longrightarrow> issued_at_most l u t"
  shows "issued_at_most l s t"
  using assms(1)
proof (cases rule: abind_cases)
  case (raised e)
  then have "vote_frame s t" using assms(2) by (auto dest: keepsD)
  then show ?thesis using assms(3) by (simp add: issued_at_most_def vote_frame_total vote_ready_def)
next
  case (went_on x u)
  then have "vote_frame s u" using assms(2) by (auto dest: keepsD)
  then show ?thesis using assms(4) [OF went_on(1) _ went_on(2)]
    by (simp add: issued_at_most_def vote_frame_total)
qed

lemma majority_list_total:
  assumes "process_majority_list env ds bvs h s = (r, t)" and "vote_ready env h l s" and "fair_order env"
    and "\<forall>d \<in> set ds. ballots_known s d"
  shows "issued_at_most l s t"
proof -
  let ?in = "\<lambda>d. dbm_blind_vote_tx_id d \<in> bv_tx_id ` set bvs"
  let ?fs = "filter ?in (order_ballots env ds)"
  have known: "\<forall>d \<in> set ?fs. ballots_known s d" using assms(3,4) fair_order_sets(1) by auto
  show ?thesis
    using assms(1) unfolding process_majority_list_def Let_def
  proof (rule abind_frame_first [OF _ add_invalid_keeps assms(2)])
    fix x u
    assume su: "vote_frame s u" and
      rest: "abind (call (add_decrypted_ballots_with_merits_set (order_ballots env ?fs))) (\<lambda>_.
         abind (get_evaluated_proposals env ?fs h) (\<lambda>evs.
         abind (add_evaluated_proposal_set (order_evaluated env evs)) (\<lambda>_.
         apply_accepted_proposals env (get_accepted_evaluated_proposals env evs) h))) u = (r, t)"
    have ru: "vote_ready env h l u" using assms(2) su vote_ready_frame by blast
    show "issued_at_most l u t"
      using rest
    proof (rule abind_frame_first [OF _ add_decrypted_keeps ru])
      fix y v
      assume uv: "vote_frame u v" and
        rest: "abind (get_evaluated_proposals env ?fs h) (\<lambda>evs.
         abind (add_evaluated_proposal_set (order_evaluated env evs)) (\<lambda>_.
         apply_accepted_proposals env (get_accepted_evaluated_proposals env evs) h)) v = (r, t)"
      have sv: "vote_frame s v" using su uv votes.frame_trans by blast
      have "vote_ready env h l v" using assms(2) sv vote_ready_frame by blast
      moreover have "\<forall>d \<in> set ?fs. ballots_known v d" using known ballots_known_frame [OF sv] by blast
      ultimately show "issued_at_most l v t"
        using evaluate_and_apply_total [OF rest _ assms(3)] by blast
    qed
  qed
qed

lemma process_result_total:
  assumes "process_vote_result env c ds stakes h s = (r, t)" and "vote_ready env h l s" and "fair_order env"
    and "\<forall>d \<in> set ds. ballots_known s d"
  shows "issued_at_most l s t"
  using assms(1) unfolding process_vote_result_def
proof (rule abind_frame_first [OF _ votes.keeps_query assms(2)])
  fix m u
  assume su: "vote_frame s u" and rest: "abind (find_blind_vote_list_matching_majority_hash env m) (\<lambda>bvs.
     if bvs \<noteq> [] then process_majority_list env ds bvs h else modify (record_exception c Vote_Result_Error)) u = (r, t)"
  have ru: "vote_ready env h l u" using assms(2) su vote_ready_frame by blast
  show "issued_at_most l u t"
    using rest
  proof (rule abind_frame_first [OF _ find_list_keeps ru])
    fix bvs v
    assume uv: "vote_frame u v" and
      rest: "(if bvs \<noteq> [] then process_majority_list env ds bvs h
        else modify (record_exception c Vote_Result_Error)) v = (r, t)"
    have sv: "vote_frame s v" using su uv votes.frame_trans by blast
    have rv: "vote_ready env h l v" using assms(2) sv vote_ready_frame by blast
    show "issued_at_most l v t"
    proof (cases "bvs = []")
      case True
      then have "vote_frame v t" using rest by (auto simp: modify_def)
      then show ?thesis using rv by (simp add: issued_at_most_def vote_frame_total vote_ready_def)
    next
      case False
      then show ?thesis
        using majority_list_total [of env ds bvs h v r t l] rest rv assms(3,4) ballots_known_frame [OF sv] by simp
    qed
  qed
qed

lemma vote_result_total:
  assumes "maybe_calculate_vote_result env h s = (r, t)" and "vote_ready env h l s" and "fair_order env"
  shows "issued_at_most l s t"
proof -
  have self: "issued_at_most l s s" using assms(2) by (simp add: issued_at_most_def vote_ready_def)
  show ?thesis
  proof (cases "is_in_vote_result_phase s h")
    case False
    then show ?thesis using assms(1) self by (simp add: maybe_calculate_vote_result_def)
  next
    case phase: True
    show ?thesis
    proof (cases "current_cycle s")
      case None
      then show ?thesis using assms(1) self phase by (simp add: maybe_calculate_vote_result_def)
    next
      case (Some c)
      let ?rest = "\<lambda>ds. if ds \<noteq> []
         then abind (query (\<lambda>_. get_stake_by_hash_of_blind_vote_list_map env ds)) (\<lambda>stakes.
              try_except (process_vote_result env c ds stakes h) (\<lambda>e. modify (record_exception c e)))
         else return ()"
      have "abind (get_decrypted_ballots_with_merits_set env h) ?rest s = (r, t)"
        using assms(1) phase Some by (simp add: maybe_calculate_vote_result_def)
      then show ?thesis
      proof (rule abind_frame_first [OF _ get_ballots_set_keeps assms(2)])
        fix ds u
        assume d: "get_decrypted_ballots_with_merits_set env h s = (Inr ds, u)"
          and su: "vote_frame s u" and rest: "?rest ds u = (r, t)"
        have ru: "vote_ready env h l u" using assms(2) su vote_ready_frame by blast
        have "\<forall>d \<in> set ds. ballots_known s d"
          using collect_known [OF d [unfolded get_decrypted_ballots_with_merits_set_def]] by simp
        then have known: "\<forall>d \<in> set ds. ballots_known u d" using ballots_known_frame [OF su] by blast
        show "issued_at_most l u t"
        proof (cases "ds = []")
          case True
          then show ?thesis using rest ru by (simp add: return_def issued_at_most_def vote_ready_def)
        next
          case False
          then have "abind (query (\<lambda>_. get_stake_by_hash_of_blind_vote_list_map env ds)) (\<lambda>stakes.
              try_except (process_vote_result env c ds stakes h) (\<lambda>e. modify (record_exception c e))) u = (r, t)"
            using rest by simp
          then show ?thesis
          proof (rule abind_frame_first [OF _ votes.keeps_query ru])
            fix stakes v
            assume q: "query (\<lambda>_. get_stake_by_hash_of_blind_vote_list_map env ds) u = (Inr stakes, v)"
              and t: "try_except (process_vote_result env c ds stakes h)
                (\<lambda>e. modify (record_exception c e)) v = (r, t)"
            have v: "v = u" using q by (simp add: query_def)
            obtain r1 w where w: "process_vote_result env c ds stakes h v = (r1, w)" by fastforce
            have "issued_at_most l v w"
              using process_result_total [OF w _ assms(3)] ru known by (simp add: v)
            moreover have "vote_frame w t"
              using t w by (cases r1) (auto simp: try_except_def modify_def votes.frame_refl)
            ultimately show "issued_at_most l v t" by (simp add: issued_at_most_def vote_frame_total)
          qed
        qed
      qed
    qed
  qed
qed

end
