(* ===== verification/Vote_Facts.thy ===== *)
theory Vote_Facts
  imports Vote_Rules
begin

text \<open>
  Facts on the parts of the vote result: the counters as sums over the votes and the condition under
  which a proposal is accepted, the ballots that are made of what a voter sent, the parameters that
  change, the search for the majority list, and the exceptions of the evaluation.
\<close>

section \<open>Counting the votes\<close>

text \<open>The stake behind a verdict, as a sum over the votes: what the loop with its counters computes.\<close>

definition stake_of :: "bool \<Rightarrow> vote_with_stake list \<Rightarrow> int" where
  "stake_of b vs = (\<Sum>v\<leftarrow>filter (\<lambda>v. vws_vote v = Some (Vote b)) vs. vws_stake v + vws_sum_of_all_merits v)"

definition votes_for :: "vote option \<Rightarrow> vote_with_stake list \<Rightarrow> int" where
  "votes_for w vs = int (length (filter (\<lambda>v. vws_vote v = w) vs))"

lemma count_vote_fields:
  "pvr_stake_of_accepted_votes (count_vote v r) = pvr_stake_of_accepted_votes r + stake_of True [v]"
  "pvr_stake_of_rejected_votes (count_vote v r) = pvr_stake_of_rejected_votes r + stake_of False [v]"
  "pvr_num_accepted_votes (count_vote v r) = pvr_num_accepted_votes r + votes_for (Some (Vote True)) [v]"
  "pvr_num_rejected_votes (count_vote v r) = pvr_num_rejected_votes r + votes_for (Some (Vote False)) [v]"
  "pvr_num_ignored_votes (count_vote v r) = pvr_num_ignored_votes r + votes_for None [v]"
  by (cases "vws_vote v"; cases "the (vws_vote v)"; auto simp: count_vote_def Let_def stake_of_def votes_for_def)+

lemma stake_of_Cons: "stake_of b (v # vs) = stake_of b [v] + stake_of b vs"
  by (simp add: stake_of_def)

lemma votes_for_Cons: "votes_for w (v # vs) = votes_for w [v] + votes_for w vs"
  by (simp add: votes_for_def)

lemma int_le_div_iff: "0 < d \<Longrightarrow> n \<le> x div d \<longleftrightarrow> n * d \<le> x" for d :: int
proof
  assume d: "0 < d" and "n \<le> x div d"
  then have "n * d \<le> x div d * d" by (intro mult_right_mono) simp_all
  also have "\<dots> \<le> x" using div_mult_mod_eq [of x d] pos_mod_sign [OF d, of x] by linarith
  finally show "n * d \<le> x" .
next
  assume d: "0 < d" and "n * d \<le> x"
  then have "n * d div d \<le> x div d" by (intro zdiv_mono1)
  then show "n \<le> x div d" using d by simp
qed

lemma result_counts:
  fixes vs p
  defines "r \<equiv> get_result_per_proposal vs p"
  shows "pvr_stake_of_accepted_votes r = stake_of True vs"
    and "pvr_stake_of_rejected_votes r = stake_of False vs"
    and "pvr_num_accepted_votes r = votes_for (Some (Vote True)) vs"
    and "pvr_num_rejected_votes r = votes_for (Some (Vote False)) vs"
    and "pvr_num_ignored_votes r = votes_for None vs"
proof -
  let ?ok = "\<lambda>r0 r1. pvr_stake_of_accepted_votes r1 = pvr_stake_of_accepted_votes r0 + stake_of True vs \<and>
    pvr_stake_of_rejected_votes r1 = pvr_stake_of_rejected_votes r0 + stake_of False vs \<and>
    pvr_num_accepted_votes r1 = pvr_num_accepted_votes r0 + votes_for (Some (Vote True)) vs \<and>
    pvr_num_rejected_votes r1 = pvr_num_rejected_votes r0 + votes_for (Some (Vote False)) vs \<and>
    pvr_num_ignored_votes r1 = pvr_num_ignored_votes r0 + votes_for None vs"
  have "?ok r0 (fold count_vote vs r0)" for r0
  proof (induction vs arbitrary: r0)
    case Nil
    then show ?case by (simp add: stake_of_def votes_for_def)
  next
    case (Cons v vs)
    show ?case
      using Cons [of "count_vote v r0"] stake_of_Cons [of _ v vs] votes_for_Cons [of _ v vs]
      by (simp add: count_vote_fields)
  qed
  from this [of "\<lparr>pvr_proposal = p, pvr_stake_of_accepted_votes = 0, pvr_stake_of_rejected_votes = 0,
        pvr_num_accepted_votes = 0, pvr_num_rejected_votes = 0, pvr_num_ignored_votes = 0\<rparr>"]
  show "pvr_stake_of_accepted_votes r = stake_of True vs"
    "pvr_stake_of_rejected_votes r = stake_of False vs"
    "pvr_num_accepted_votes r = votes_for (Some (Vote True)) vs"
    "pvr_num_rejected_votes r = votes_for (Some (Vote False)) vs"
    "pvr_num_ignored_votes r = votes_for None vs"
    by (simp_all add: r_def get_result_per_proposal_def)
qed

lemma evaluate_proposal_iff:
  assumes "evaluate_proposal s h (p, vs) = Inr e"
    and "get_param_value_as_coin s (get_quorum_param p) h = Inr q"
    and "get_param_value_as_percent s (get_threshold_param p) h = Inr k" and "0 < q"
  shows "ev_is_accepted e \<longleftrightarrow>
     q \<le> stake_of True vs + stake_of False vs \<and>
     (k + 1) * (stake_of True vs + stake_of False vs) \<le> 10000 * stake_of True vs"
proof -
  let ?a = "stake_of True vs" and ?b = "stake_of False vs"
  have k: "5000 \<le> k" using assms(1,2,3) by (auto simp: evaluate_proposal_def get_required_vote_threshold_def)
  show ?thesis
  proof (cases "q \<le> ?a + ?b")
    case False
    then show ?thesis
      using assms(1,2,3) by (auto simp: evaluate_proposal_def get_required_vote_threshold_def quorum_def total_stake_def
          result_counts Let_def)
  next
    case True
    then obtain n where t: "threshold (get_result_per_proposal vs p) = Inr n" and e: "ev_is_accepted e = (k < n)"
      using assms(1,2,3) by (auto simp: evaluate_proposal_def get_required_vote_threshold_def quorum_def total_stake_def
          result_counts Let_def)
    have nn: "0 \<le> ?a" "0 \<le> ?b" and n: "n = (if ?a = 0 then 0 else ?a * 10000 div (?a + ?b))"
      using t by (auto simp: threshold_def total_stake_def result_counts split: if_splits)
    have pos: "0 < ?a + ?b" using True assms(4) by linarith
    show ?thesis
    proof (cases "?a = 0")
      case True
      have "0 < (k + 1) * ?b" using pos k True by (intro mult_pos_pos) linarith+
      then show ?thesis using k e n True by (simp add: algebra_simps)
    next
      case False
      have "(k < n) = (k + 1 \<le> ?a * 10000 div (?a + ?b))" using n False by auto
      also have "\<dots> = ((k + 1) * (?a + ?b) \<le> ?a * 10000)"
        by (rule int_le_div_iff [OF pos])
      finally show ?thesis using e \<open>q \<le> ?a + ?b\<close> by (simp add: algebra_simps)
    qed
  qed
qed

section \<open>What one voter can do to the result\<close>

text \<open>A merit whose issuance names no public key ends the evaluation of all proposals.\<close>

lemma votes_of_ballots_no_pub_key:
  assumes "dbm_ballot_list d \<noteq> []" and "get_tx s (dbm_blind_vote_tx_id d) = Some bt"
    and "tx_block_height bt \<noteq> 0" and "m \<in> set (dbm_merit_list d)" and "iss_pub_key (merit_issuance m) = None"
  shows "votes_of_ballots env s d acc = Inl Unbound_Local_Error"
  using assms(1) merit_stake_no_pub_key [OF assms(2-5)] by (cases "dbm_ballot_list d") (simp_all add: votes_of_ballots_def)

lemma merit_stake_error: "get_merit_stake verify i ms s = Inl e \<Longrightarrow> e = Unbound_Local_Error"
  by (auto simp: get_merit_stake_def Let_def dest: merit_fold_error split: if_splits)

lemma fold_res_error:
  assumes "fold_res f xs s = Inl e" and "\<And>x u e'. x \<in> set xs \<Longrightarrow> f x u = Inl e' \<Longrightarrow> P e'"
  shows "P e"
  using assms by (induction xs arbitrary: s) (auto simp: rbind_eq_Inl)

lemma votes_of_ballots_error: "votes_of_ballots env s d m = Inl e \<Longrightarrow> e = Unbound_Local_Error"
  unfolding votes_of_ballots_def
  by (erule fold_res_error) (auto simp: rbind_eq_Inl dest: merit_stake_error)

lemma fold_res_hits_error:
  assumes "x \<in> set xs" and "\<And>u. \<not> is_ok (f x u)"
  shows "\<exists>e. fold_res f xs s = Inl e"
  using assms(1)
proof (induction xs arbitrary: s)
  case (Cons y ys)
  show ?case
  proof (cases "f y s")
    case (Inr u)
    then have "y \<noteq> x" using assms(2) [of s] by auto
    then show ?thesis using Cons Inr by simp
  qed simp
qed simp

lemma evaluation_ends:
  assumes "d \<in> set ds" and "fair_order env" and "dbm_ballot_list d \<noteq> []"
    and "get_tx s (dbm_blind_vote_tx_id d) = Some bt" and "tx_block_height bt \<noteq> 0"
    and "m \<in> set (dbm_merit_list d)" and "iss_pub_key (merit_issuance m) = None"
  shows "get_evaluated_proposals env ds h s = (Inl Unbound_Local_Error, s)"
proof -
  have "\<not> is_ok (votes_of_ballots env s d u)" for u
    using votes_of_ballots_no_pub_key [OF assms(3-7), of env u] by simp
  moreover have "d \<in> set (order_ballots env ds)" using assms(1,2) fair_order_sets(1) by blast
  ultimately obtain e where e: "get_vote_with_stake_list_by_proposal_map env s ds = Inl e"
    unfolding get_vote_with_stake_list_by_proposal_map_def using fold_res_hits_error by metis
  then have "e = Unbound_Local_Error"
    unfolding get_vote_with_stake_list_by_proposal_map_def
    by (rule fold_res_error) (rule votes_of_ballots_error)
  then show ?thesis using e by (simp add: get_evaluated_proposals_def evaluate_votes_def action_defs)
qed

section \<open>The ballots of a voter\<close>

lemma map_of_fold_update:
  "map_of (fold (\<lambda>x. AList.update (k x) (v x)) xs al) i =
     (case find (\<lambda>x. k x = i) (rev xs) of Some x \<Rightarrow> Some (v x) | None \<Rightarrow> map_of al i)"
proof (induction xs rule: rev_induct)
  case (snoc x xs)
  then show ?case by (auto simp: update_conv')
qed simp

lemma distinct_fold_update:
  "distinct (map fst al) \<Longrightarrow> distinct (map fst (fold (\<lambda>x. AList.update (k x) (v x)) xs al))"
  by (induction xs arbitrary: al) (simp_all add: distinct_update)

lemma update_new_key: "k \<notin> fst ` set al \<Longrightarrow> AList.update k v al = al @ [(k, v)]"
  by (induction al) auto

lemma fold_update_new_keys:
  "distinct (map k xs) \<Longrightarrow> k ` set xs \<inter> fst ` set al = {} \<Longrightarrow>
     fold (\<lambda>x. AList.update (k x) (v x)) xs al = al @ map (\<lambda>x. (k x, v x)) xs"
proof (induction xs arbitrary: al)
  case (Cons x xs)
  then have "k ` set xs \<inter> fst ` set (al @ [(k x, v x)]) = {}" by auto
  then show ?case using Cons by (simp add: update_new_key)
qed simp

text \<open>The vote for a proposal: the last one the voter lists, a rejection where the voter lists none,
  and \<open>None\<close> where the voter chose to abstain.\<close>

definition cast_vote :: "vote_with_proposal_tx_id list \<Rightarrow> string \<Rightarrow> vote option" where
  "cast_vote votes i =
     (case find (\<lambda>v. vwp_proposal_tx_id v = i) (rev votes) of None \<Rightarrow> Some (Vote False) | Some v \<Rightarrow> vwp_vote v)"

lemma vote_map_lookup:
  "map_of (vote_by_tx_id_map votes) i =
     map_option vwp_vote (find (\<lambda>v. vwp_proposal_tx_id v = i) (rev votes))"
  by (simp add: vote_by_tx_id_map_def map_of_fold_update split: option.split)

lemma ballot_map_distinct:
  "distinct (map ballot_tx_id bs) \<Longrightarrow> ballot_by_tx_id_map bs = map (\<lambda>b. (ballot_tx_id b, b)) bs"
  by (simp add: ballot_by_tx_id_map_def fold_update_new_keys)

lemma valid_ballot_has_id: "b \<in> set (get_valid_ballots_of_cycle s) \<Longrightarrow> \<exists>i. ballot_tx_id b = Some i"
  by (auto simp: get_valid_ballots_of_cycle_def split: option.splits)

lemma created_ballots_iff:
  assumes "create_ballot_list s votes = Inr bs" and "distinct (map ballot_tx_id (get_valid_ballots_of_cycle s))"
  shows "b \<in> set bs \<longleftrightarrow>
     (\<exists>b0 i. b0 \<in> set (get_valid_ballots_of_cycle s) \<and> ballot_tx_id b0 = Some i \<and>
        bal_proposal b = bal_proposal b0 \<and> bal_vote b = cast_vote votes i \<and> bal_vote b \<noteq> None)"
    (is "_ = ?R")
proof -
  let ?bs = "get_valid_ballots_of_cycle s" and ?vm = "vote_by_tx_id_map votes"
  let ?m = "map (\<lambda>b. (ballot_tx_id b, b)) ?bs"
  have look: "map_of ?m (Some i) = Some b0 \<longleftrightarrow> b0 \<in> set ?bs \<and> ballot_tx_id b0 = Some i" for i b0
  proof -
    have "map_of ?m (Some i) = Some b0 \<longleftrightarrow> (Some i, b0) \<in> set ?m"
      using assms(2) by (intro map_of_eq_Some_iff) (simp add: comp_def)
    then show ?thesis by (auto simp: image_iff)
  qed
  have dv: "distinct (map fst ?vm)" unfolding vote_by_tx_id_map_def by (rule distinct_fold_update) simp
  have s: "sort_by_tx_id ballot_tx_id (List.map_filter (voted_ballot ?m) ?vm @
        map (\<lambda>(i, b). \<lparr>bal_proposal = bal_proposal b, bal_vote = Some (Vote False)\<rparr>)
          (filter (\<lambda>(i, b). case i of None \<Rightarrow> True | Some j \<Rightarrow> map_of ?vm j = None) ?m)) = Inr bs"
    using assms by (auto simp: create_ballot_list_def Let_def ballot_map_distinct split: if_splits)
  have "b \<in> set bs \<longleftrightarrow> (\<exists>x \<in> set ?vm. voted_ballot ?m x = Some b) \<or>
      (\<exists>b0 \<in> set ?bs. (case ballot_tx_id b0 of None \<Rightarrow> True | Some j \<Rightarrow> map_of ?vm j = None) \<and>
         b = \<lparr>bal_proposal = bal_proposal b0, bal_vote = Some (Vote False)\<rparr>)"
    unfolding sort_by_tx_id_set [OF s] by (force simp: List.map_filter_def)
  also have "(\<exists>x \<in> set ?vm. voted_ballot ?m x = Some b) \<longleftrightarrow>
      (\<exists>i w b0. map_of ?vm i = Some (Some w) \<and> b0 \<in> set ?bs \<and> ballot_tx_id b0 = Some i \<and>
         b = \<lparr>bal_proposal = bal_proposal b0, bal_vote = Some w\<rparr>)"
  proof -
    have v: "voted_ballot ?m (i, w) = Some b \<longleftrightarrow> (\<exists>u b0. w = Some u \<and> b0 \<in> set ?bs \<and> ballot_tx_id b0 = Some i \<and>
        b = \<lparr>bal_proposal = bal_proposal b0, bal_vote = Some u\<rparr>)" for i w
    proof -
      have "voted_ballot ?m (i, w) = Some b \<longleftrightarrow> (\<exists>u b0. w = Some u \<and> map_of ?m (Some i) = Some b0 \<and>
          b = \<lparr>bal_proposal = bal_proposal b0, bal_vote = Some u\<rparr>)"
        by (auto simp: voted_ballot_def split: option.split)
      then show ?thesis by (simp only: look conj_assoc)
    qed
    show ?thesis
    proof (intro iffI; elim bexE exE conjE)
      fix x assume "x \<in> set ?vm" "voted_ballot ?m x = Some b"
      then show "\<exists>i w b0. map_of ?vm i = Some (Some w) \<and> b0 \<in> set ?bs \<and> ballot_tx_id b0 = Some i \<and>
          b = \<lparr>bal_proposal = bal_proposal b0, bal_vote = Some w\<rparr>"
        using v [of "fst x" "snd x"] map_of_eq_Some_iff [OF dv, of "fst x" "snd x"]
        unfolding prod.collapse by (elim iffE) metis
    next
      fix i w b0 assume "map_of ?vm i = Some (Some w)" "b0 \<in> set ?bs" "ballot_tx_id b0 = Some i"
        "b = \<lparr>bal_proposal = bal_proposal b0, bal_vote = Some w\<rparr>"
      then show "\<exists>x \<in> set ?vm. voted_ballot ?m x = Some b"
        using v [of i "Some w"] map_of_eq_Some_iff [OF dv, of i "Some w"] by blast
    qed
  qed
  also have "(\<exists>b0 \<in> set ?bs. (case ballot_tx_id b0 of None \<Rightarrow> True | Some j \<Rightarrow> map_of ?vm j = None) \<and>
         b = \<lparr>bal_proposal = bal_proposal b0, bal_vote = Some (Vote False)\<rparr>) \<longleftrightarrow>
      (\<exists>i b0. map_of ?vm i = None \<and> b0 \<in> set ?bs \<and> ballot_tx_id b0 = Some i \<and>
         b = \<lparr>bal_proposal = bal_proposal b0, bal_vote = Some (Vote False)\<rparr>)"
  proof (intro iffI; elim bexE exE conjE)
    fix b0 assume b0: "b0 \<in> set ?bs" "b = \<lparr>bal_proposal = bal_proposal b0, bal_vote = Some (Vote False)\<rparr>"
      "case ballot_tx_id b0 of None \<Rightarrow> True | Some j \<Rightarrow> map_of ?vm j = None"
    obtain i where "ballot_tx_id b0 = Some i" using valid_ballot_has_id [OF b0(1)] by blast
    then show "\<exists>i b0. map_of ?vm i = None \<and> b0 \<in> set ?bs \<and> ballot_tx_id b0 = Some i \<and>
         b = \<lparr>bal_proposal = bal_proposal b0, bal_vote = Some (Vote False)\<rparr>" using b0 by auto
  next
    fix i b0 assume "map_of ?vm i = None" "b0 \<in> set ?bs" "ballot_tx_id b0 = Some i"
      "b = \<lparr>bal_proposal = bal_proposal b0, bal_vote = Some (Vote False)\<rparr>"
    then show "\<exists>b0 \<in> set ?bs. (case ballot_tx_id b0 of None \<Rightarrow> True | Some j \<Rightarrow> map_of ?vm j = None) \<and>
         b = \<lparr>bal_proposal = bal_proposal b0, bal_vote = Some (Vote False)\<rparr>"
      by (intro bexI [of _ b0]) simp_all
  qed
  finally have iff: "b \<in> set bs \<longleftrightarrow>
      (\<exists>i w b0. map_of ?vm i = Some (Some w) \<and> b0 \<in> set ?bs \<and> ballot_tx_id b0 = Some i \<and>
         b = \<lparr>bal_proposal = bal_proposal b0, bal_vote = Some w\<rparr>) \<or>
      (\<exists>i b0. map_of ?vm i = None \<and> b0 \<in> set ?bs \<and> ballot_tx_id b0 = Some i \<and>
         b = \<lparr>bal_proposal = bal_proposal b0, bal_vote = Some (Vote False)\<rparr>)" .
  have cv: "cast_vote votes i = (case map_of ?vm i of None \<Rightarrow> Some (Vote False) | Some w \<Rightarrow> w)" for i
    by (simp add: cast_vote_def vote_map_lookup split: option.split)
  show ?thesis
  proof
    assume "b \<in> set bs"
    then consider (cast) i w b0 where "map_of ?vm i = Some (Some w)" "b0 \<in> set ?bs" "ballot_tx_id b0 = Some i"
        "b = \<lparr>bal_proposal = bal_proposal b0, bal_vote = Some w\<rparr>"
      | (withheld) i b0 where "map_of ?vm i = None" "b0 \<in> set ?bs" "ballot_tx_id b0 = Some i"
        "b = \<lparr>bal_proposal = bal_proposal b0, bal_vote = Some (Vote False)\<rparr>"
      unfolding iff by blast
    then show ?R
    proof cases
      case (cast i w b0)
      then show ?thesis by (intro exI [of _ b0] exI [of _ i]) (simp add: cv)
    next
      case (withheld i b0)
      then show ?thesis by (intro exI [of _ b0] exI [of _ i]) (simp add: cv)
    qed
  next
    assume ?R
    then obtain b0 i where b0: "b0 \<in> set ?bs" "ballot_tx_id b0 = Some i" "bal_proposal b = bal_proposal b0"
      "bal_vote b = cast_vote votes i" "bal_vote b \<noteq> None" by blast
    then obtain w where w: "cast_vote votes i = Some w"
      "b = \<lparr>bal_proposal = bal_proposal b0, bal_vote = Some w\<rparr>" by (cases b) auto
    show "b \<in> set bs"
    proof (cases "map_of ?vm i")
      case None
      then show ?thesis using b0(1,2) w unfolding iff cv by auto
    next
      case (Some u)
      then have "map_of ?vm i = Some (Some w)" using w(1) by (simp add: cv)
      then show ?thesis using b0(1,2) w(2) unfolding iff by blast
    qed
  qed
qed

section \<open>The parameters that change\<close>

text \<open>The accepted changes in the order in which they are read; only a parameter with one accepted
  change is set.\<close>

definition accepted_changes :: "evaluated_proposal list \<Rightarrow> (param \<times> string) list" where
  "accepted_changes evs =
     List.map_filter (\<lambda>e. case prop_kind (ev_proposal e) of
        Change_Param_Proposal p v \<Rightarrow> Some (p, v) | _ \<Rightarrow> None) evs"

definition changes_of_name :: "string \<Rightarrow> (param \<times> string) list \<Rightarrow> (param \<times> string) list" where
  "changes_of_name name cs = filter (\<lambda>c. param_name (fst c) = name) cs"

lemma group_add_lookup: "map_of (group_add k v m) l =
    (if l = k then Some ((case map_of m k of None \<Rightarrow> [] | Some vs \<Rightarrow> vs) @ [v]) else map_of m l)"
  by (induction k v m rule: group_add.induct) auto

lemma group_add_keys: "fst ` set (group_add k v m) = insert k (fst ` set m)"
  by (induction k v m rule: group_add.induct) auto

lemma group_add_distinct: "distinct (map fst m) \<Longrightarrow> distinct (map fst (group_add k v m))"
  by (induction k v m rule: group_add.induct) (auto simp: group_add_keys)

lemma changes_by_name:
  assumes "get_start_height_of_next_cycle s h = Some n"
  shows "distinct (map fst (param_changes_by_name s evs h))"
    and "map_of (param_changes_by_name s evs h) name =
      (let cs = changes_of_name name (accepted_changes evs) in if cs = [] then None else Some cs)"
proof -
  have "distinct (map fst (param_changes_by_name s evs h)) \<and>
     map_of (param_changes_by_name s evs h) name =
      (let cs = changes_of_name name (accepted_changes evs) in if cs = [] then None else Some cs)"
  proof (induction evs rule: rev_induct)
    case Nil
    then show ?case by (simp add: param_changes_by_name_def changes_of_name_def accepted_changes_def List.map_filter_def)
  next
    case (snoc e evs)
    show ?case
    proof (cases "\<exists>p v. prop_kind (ev_proposal e) = Change_Param_Proposal p v")
      case True
      then obtain p v where k: "prop_kind (ev_proposal e) = Change_Param_Proposal p v" by blast
      have "param_changes_by_name s (evs @ [e]) h = group_add (param_name p) (p, v) (param_changes_by_name s evs h)"
        by (simp add: param_changes_by_name_def k get_param_change_def assms)
      moreover have "accepted_changes (evs @ [e]) = accepted_changes evs @ [(p, v)]"
        by (simp add: accepted_changes_def List.map_filter_def k)
      ultimately show ?thesis
        using snoc by (auto simp: group_add_lookup group_add_distinct changes_of_name_def Let_def)
    next
      case False
      have "param_changes_by_name s (evs @ [e]) h = param_changes_by_name s evs h"
        using False by (auto simp: param_changes_by_name_def split: proposal_kind.split)
      moreover have "accepted_changes (evs @ [e]) = accepted_changes evs"
        using False by (auto simp: accepted_changes_def List.map_filter_def split: proposal_kind.split)
      ultimately show ?thesis using snoc by simp
    qed
  qed
  then show "distinct (map fst (param_changes_by_name s evs h))"
    "map_of (param_changes_by_name s evs h) name =
      (let cs = changes_of_name name (accepted_changes evs) in if cs = [] then None else Some cs)" by simp_all
qed

definition single_change :: "(string \<times> (param \<times> string) list) list \<Rightarrow> int \<Rightarrow> param_change list" where
  "single_change m n = List.map_filter (\<lambda>(name, cs). case cs of [(p, v)] \<Rightarrow>
      Some \<lparr>pc_param_name = param_name p, pc_value = v, pc_activation_height = n\<rparr> | _ \<Rightarrow> None) m"

text \<open>What the parameter changes leave alone, and with it the start of the next cycle.\<close>

lemma set_new_param_adds:
  assumes "allow_dao_state_change s" and "get_start_height_of_next_cycle s h = Some n"
  shows "\<exists>t. set_new_param h p v s = Inr t \<and> allow_dao_state_change t \<and> cycles t = cycles s \<and>
     mset (param_change_list t) =
       add_mset \<lparr>pc_param_name = param_name p, pc_value = v, pc_activation_height = n\<rparr> (mset (param_change_list s))"
  using assms by (simp add: set_new_param_def)

lemma next_cycle_cong: "cycles t = cycles s \<Longrightarrow> get_start_height_of_next_cycle t h = get_start_height_of_next_cycle s h"
  by (simp add: get_start_height_of_next_cycle_def get_cycle_def)

lemma apply_changes_adds:
  assumes "allow_dao_state_change s" and "get_start_height_of_next_cycle s h = Some n"
    and "for_each (\<lambda>(name, changes). case changes of [(p, v)] \<Rightarrow> call (set_new_param h p v) | _ \<Rightarrow> return ()) m s = (r, t)"
  shows "r = Inr () \<and> mset (param_change_list t) = mset (param_change_list s) + mset (single_change m n)"
  using assms
proof (induction m arbitrary: s)
  case Nil
  then show ?case by (simp add: single_change_def List.map_filter_def)
next
  case (Cons x m)
  obtain name cs where x: "x = (name, cs)" by fastforce
  show ?case
  proof (cases "\<exists>p v. cs = [(p, v)]")
    case True
    then obtain p v where cs: "cs = [(p, v)]" by blast
    obtain u where u: "set_new_param h p v s = Inr u" "allow_dao_state_change u" "cycles u = cycles s"
      "mset (param_change_list u) =
        add_mset \<lparr>pc_param_name = param_name p, pc_value = v, pc_activation_height = n\<rparr> (mset (param_change_list s))"
      using set_new_param_adds [OF Cons.prems(1,2)] by blast
    have "get_start_height_of_next_cycle u h = Some n" using Cons.prems(2) next_cycle_cong [OF u(3)] by simp
    from Cons.IH [OF u(2) this] Cons.prems(3) u(1,4) show ?thesis
      by (simp add: x cs call_def single_change_def List.map_filter_def)
  next
    case False
    then have n: "(case cs of [(p, v)] \<Rightarrow> call (set_new_param h p v) | _ \<Rightarrow> return ()) = return ()"
      "(case cs of [(p, v)] \<Rightarrow> Some \<lparr>pc_param_name = param_name p, pc_value = v, pc_activation_height = n\<rparr>
         | _ \<Rightarrow> None) = None"
      by (auto split: list.split)
    from Cons.IH [OF Cons.prems(1,2)] Cons.prems(3) show ?thesis
      by (simp add: x n return_def single_change_def List.map_filter_def)
  qed
qed

lemma apply_param_change_adds:
  assumes "allow_dao_state_change s" and "get_start_height_of_next_cycle s h = Some n"
    and "apply_param_change env evs h s = (r, t)"
  shows "r = Inr ()" and "mset (param_change_list t) =
     mset (param_change_list s) + mset (single_change (param_changes_by_name s (order_evaluated env evs) h) n)"
  using apply_changes_adds [OF assms(1,2)] assms(3) by (auto simp: apply_param_change_def)

text \<open>The change for a parameter name is made when exactly one accepted proposal names it; the order
  in which the accepted proposals are iterated does not matter.\<close>

lemma single_change_count:
  assumes "distinct (map fst m)" and "\<forall>(name, cs) \<in> set m. \<forall>(p, v) \<in> set cs. param_name p = name"
  shows "count (mset (single_change m n)) pc =
     (if pc_activation_height pc = n \<and> (\<exists>p. map_of m (pc_param_name pc) = Some [(p, pc_value pc)]) then 1 else 0)"
  using assms
proof (induction m)
  case Nil
  then show ?case by (simp add: single_change_def List.map_filter_def)
next
  case (Cons x m)
  obtain name cs where x: "x = (name, cs)" by fastforce
  note IH = Cons.IH [OF distinct_tl [OF Cons.prems(1), unfolded map_tl, simplified]]
  have ih: "count (mset (single_change m n)) pc =
     (if pc_activation_height pc = n \<and> (\<exists>p. map_of m (pc_param_name pc) = Some [(p, pc_value pc)]) then 1 else 0)"
    using Cons by simp
  have new: "map_of m name = None" using Cons.prems(1) by (simp add: x map_of_eq_None_iff)
  show ?case
  proof (cases "\<exists>p v. cs = [(p, v)]")
    case True
    then obtain p v where cs: "cs = [(p, v)]" by blast
    have nm: "param_name p = name" using Cons.prems(2) by (simp add: x cs)
    have "single_change (x # m) n =
        \<lparr>pc_param_name = name, pc_value = v, pc_activation_height = n\<rparr> # single_change m n"
      by (simp add: single_change_def List.map_filter_def x cs nm)
    then show ?thesis using ih new by (cases pc) (auto simp: x cs)
  next
    case False
    then have "(case cs of [(p, v)] \<Rightarrow> Some \<lparr>pc_param_name = param_name p, pc_value = v, pc_activation_height = n\<rparr>
         | _ \<Rightarrow> None) = None"
      by (auto split: list.split)
    then have "single_change (x # m) n = single_change m n"
      by (simp add: single_change_def List.map_filter_def x)
    then show ?thesis using ih new False by (auto simp: x)
  qed
qed

lemma changes_of_name_order:
  assumes "mset xs = mset ys"
  shows "changes_of_name name (accepted_changes xs) = [c] \<longleftrightarrow> changes_of_name name (accepted_changes ys) = [c]"
proof -
  have m: "mset (changes_of_name name (accepted_changes xs)) = mset (changes_of_name name (accepted_changes ys))"
    if "mset xs = mset ys" for xs ys :: "evaluated_proposal list"
    using that unfolding changes_of_name_def accepted_changes_def List.map_filter_def
    by (metis (no_types, lifting) mset_filter mset_map)
  have one: "zs = [c] \<longleftrightarrow> mset zs = {#c#}" for zs :: "(param \<times> string) list" by (cases zs) auto
  show ?thesis unfolding one m [OF assms] ..
qed

lemma applied_changes_count:
  assumes "allow_dao_state_change s" and "get_start_height_of_next_cycle s h = Some n" and "fair_order env"
    and "apply_param_change env evs h s = (r, t)"
  shows "count (mset (param_change_list t)) pc = count (mset (param_change_list s)) pc +
     (if pc_activation_height pc = n \<and>
         (\<exists>p. changes_of_name (pc_param_name pc) (accepted_changes evs) = [(p, pc_value pc)]) then 1 else 0)"
proof -
  let ?m = "param_changes_by_name s (order_evaluated env evs) h"
  note by_name = changes_by_name [OF assms(2), of "order_evaluated env evs"]
  have l: "map_of ?m name = Some [c] \<longleftrightarrow> changes_of_name name (accepted_changes evs) = [c]" for name c
    using changes_of_name_order [of "order_evaluated env evs" evs name c] assms(3) by_name(2) [of name]
    by (auto simp: Let_def fair_order_def split: if_splits)
  have "\<forall>(name, cs) \<in> set ?m. \<forall>(p, v) \<in> set cs. param_name p = name"
  proof (intro ballI, clarify)
    fix name cs p v assume "(name, cs) \<in> set ?m" "(p, v) \<in> set cs"
    then have "map_of ?m name = Some cs" using by_name(1) by simp
    then show "param_name p = name" using \<open>(p, v) \<in> set cs\<close> by_name(2) [of name]
      by (auto simp: Let_def changes_of_name_def split: if_splits)
  qed
  from single_change_count [OF by_name(1) this, of n pc] apply_param_change_adds(2) [OF assms(1,2,4)]
  show ?thesis by (simp add: l)
qed

section \<open>The search for the majority list\<close>

lemma find_list_matches:
  assumes "find_blind_vote_list_matching_majority_hash env m s = (Inr bvs, t)" and "bvs \<noteq> []"
  shows "hash_of_blind_votes env bvs = m \<and> subseq bvs (get_sorted_blind_vote_list_of_cycle s)"
  using assms find_matching_sound
  by (fastforce simp: find_blind_vote_list_matching_majority_hash_def find_permutated_list_matching_majority_def
      is_list_matching_majority_def Let_def split: if_splits)

lemma find_list_found:
  assumes "subseq bvs (get_sorted_blind_vote_list_of_cycle s)" and "bvs \<noteq> []"
    and "hash_of_blind_votes env bvs = m" and "length (get_sorted_blind_vote_list_of_cycle s) \<le> 19"
  shows "\<exists>l. find_blind_vote_list_matching_majority_hash env m s = (Inr l, s) \<and> l \<noteq> [] \<and>
     hash_of_blind_votes env l = m \<and> subseq l (get_sorted_blind_vote_list_of_cycle s)"
proof -
  let ?l = "get_sorted_blind_vote_list_of_cycle s"
  have "(2 :: int) ^ length ?l \<le> 2 ^ 19" using assms(4) by (intro power_increasing) simp_all
  then have "find_permutated_list_matching_majority env m s \<noteq> []"
    unfolding find_permutated_list_matching_majority_def
    using assms(1-3) by (intro find_matching_complete [of bvs]) (simp_all add: is_list_matching_majority_def)
  moreover have "?l \<noteq> []" using assms(1,2) by auto
  ultimately have "\<exists>l. find_blind_vote_list_matching_majority_hash env m s = (Inr l, s) \<and> l \<noteq> []"
    by (cases "is_list_matching_majority env m ?l")
      (simp_all add: find_blind_vote_list_matching_majority_hash_def Let_def)
  then obtain l where l: "find_blind_vote_list_matching_majority_hash env m s = (Inr l, s)" "l \<noteq> []" by blast
  show ?thesis using l find_list_matches [OF l] by blast
qed

section \<open>The exceptions\<close>

lemma set_add_all: "\<forall>y \<in> set ys. P y \<Longrightarrow> P x \<Longrightarrow> \<forall>y \<in> set (set_add eq x ys). P y"
  using set_add_subset by fastforce

definition reveal_data_ok :: "gov_env \<Rightarrow> gov_service \<Rightarrow> bool" where
  "reveal_data_ok env s \<longleftrightarrow>
     (\<forall>out \<in> set (order_outputs env (get_vote_reveal_op_return_tx_outputs s)).
        \<forall>d. txo_op_return_data out = Some d \<longrightarrow> 3 \<le> length d)"

lemma decrypted_has_hash:
  assumes "tx_output_to_decrypted_ballots env out h s = (Inr (Some x), t)"
    and "\<forall>d. txo_op_return_data out = Some d \<longrightarrow> 3 \<le> length d"
  shows "dbm_hash_of_blind_vote_list x \<noteq> []"
proof -
  obtain c where c: "decrypt_vote_reveal env out h c s = (Inr (Some x), t)"
    using assms(1) by (auto simp: tx_output_to_decrypted_ballots_def action_defs split: option.splits sum.splits prod.splits)
  have dec: "get_decrypted_ballots env i c d j hh st bv s = (Inr (Some x), t) \<Longrightarrow>
      dbm_hash_of_blind_vote_list x = hh" for i d j hh st bv
    by (auto simp: get_decrypted_ballots_def Let_def action_defs split: sum.splits if_splits prod.splits)
  have ne: "3 \<le> length d \<Longrightarrow> get_hash_of_blind_vote_list d \<noteq> []" for d
    by (auto simp: get_hash_of_blind_vote_list_def py_slice_def)
  show ?thesis
    using c assms(2)
    by (auto simp: decrypt_vote_reveal_def Let_def get_empty_decrypted_ballots_def action_defs
        split: option.splits sum.splits if_splits dest!: dec dest: ne)
qed

lemma tx_output_ballots_returns:
  assumes "current_cycle s = Some c"
  shows "\<exists>x t. tx_output_to_decrypted_ballots env out h s = (Inr x, t)"
  using assms by (cases "decrypt_vote_reveal env out h c s")
    (auto simp: tx_output_to_decrypted_ballots_def action_defs split: sum.splits)

lemma current_cycle_frame: "vote_frame s t \<Longrightarrow> current_cycle t = current_cycle s"
  using vote_frame_sel(4) [of s t] by (simp add: current_cycle_def)

lemma collect_returns:
  assumes "current_cycle s = Some c" and "\<forall>out \<in> set outs. \<forall>d. txo_op_return_data out = Some d \<longrightarrow> 3 \<le> length d"
    and "\<forall>d \<in> set acc. dbm_hash_of_blind_vote_list d \<noteq> []"
  shows "\<exists>ds t. collect_decrypted_ballots env h outs acc s = (Inr ds, t) \<and> current_cycle t = Some c \<and>
     (\<forall>d \<in> set ds. dbm_hash_of_blind_vote_list d \<noteq> [])"
  using assms
proof (induction outs arbitrary: acc s)
  case Nil
  then show ?case by simp
next
  case (Cons out outs)
  show ?case
  proof (cases "is_tx_in_correct_cycle_by_id s (txo_tx_id out) h \<and> is_in_vote_reveal_phase s out")
    case False
    then have "collect_decrypted_ballots env h (out # outs) acc s = collect_decrypted_ballots env h outs acc s"
      by auto
    then show ?thesis using Cons.IH [of s acc] Cons.prems by simp
  next
    case True
    obtain x u where x: "tx_output_to_decrypted_ballots env out h s = (Inr x, u)"
      using tx_output_ballots_returns [OF Cons.prems(1)] by blast
    have c: "current_cycle u = Some c"
      using current_cycle_frame [OF keepsD [OF tx_output_ballots_keep x]] Cons.prems(1) by simp
    show ?thesis
    proof (cases x)
      case None
      then show ?thesis using Cons.IH [OF c, of acc] Cons.prems True x by simp
    next
      case (Some d)
      have "dbm_hash_of_blind_vote_list d \<noteq> []" using decrypted_has_hash x Some Cons.prems(2) by simp
      then have "\<forall>d \<in> set (set_add dbm_eq d acc). dbm_hash_of_blind_vote_list d \<noteq> []"
        using Cons.prems(3) by (intro set_add_all) simp_all
      then show ?thesis using Cons.IH [OF c, of "set_add dbm_eq d acc"] Cons.prems True x Some by simp
    qed
  qed
qed

lemma stakes_returned:
  assumes "\<forall>d \<in> set ds. dbm_hash_of_blind_vote_list d \<noteq> []" and "fair_order env"
  shows "\<exists>stakes. get_stake_by_hash_of_blind_vote_list_map env ds = Inr stakes"
proof -
  let ?f = "\<lambda>d stakes. let h = dbm_hash_of_blind_vote_list d
       in if h = [] then Inl Illegal_Argument
          else let old = (case map_of stakes h of Some n \<Rightarrow> n | None \<Rightarrow> 0)
               in Inr (AList.update h (old + dbm_stake d) stakes)"
  have "\<exists>t. fold_res ?f (order_ballots env ds) [] = Inr t \<and> True"
  proof (rule fold_res_ok)
    fix d u assume "d \<in> set (order_ballots env ds)"
    then have "dbm_hash_of_blind_vote_list d \<noteq> []" using assms fair_order_sets(1) by blast
    then show "\<exists>v. ?f d u = Inr v \<and> True" by (simp add: Let_def)
  qed simp
  then show ?thesis by (simp add: get_stake_by_hash_of_blind_vote_list_map_def)
qed

text \<open>With a current cycle and reveals that carry a hash, as the OP_RETURN parser guarantees, no
  exception leaves the handler of a new block.\<close>

lemma vote_result_returns:
  assumes "current_cycle s = Some c" and "reveal_data_ok env s" and "fair_order env"
  shows "\<exists>t. maybe_calculate_vote_result env h s = (Inr (), t)"
proof (cases "is_in_vote_result_phase s h")
  case True
  obtain ds u where ds: "get_decrypted_ballots_with_merits_set env h s = (Inr ds, u)"
    and ok: "\<forall>d \<in> set ds. dbm_hash_of_blind_vote_list d \<noteq> []"
    using collect_returns [OF assms(1), of "order_outputs env (get_vote_reveal_op_return_tx_outputs s)" "[]" env h]
      assms(2) by (auto simp: reveal_data_ok_def get_decrypted_ballots_with_merits_set_def)
  obtain stakes where st: "get_stake_by_hash_of_blind_vote_list_map env ds = Inr stakes"
    using stakes_returned [OF ok assms(3)] by blast
  obtain r v where "process_vote_result env c ds stakes h u = (r, v)" by fastforce
  then show ?thesis
    using True assms(1) ds st
    by (cases r) (auto simp: maybe_calculate_vote_result_def abind_def query_def try_except_def modify_def return_def)
qed (simp add: maybe_calculate_vote_result_def)

end
