(* ===== verification/Gov_Examples.thy ===== *)
theory Gov_Examples
  imports Dao_Examples Vote_Facts
begin

text \<open>
  A small vote: a compensation request and a change of a parameter are proposed in the first phase
  of the cycle of \<open>Dao_Examples\<close>, one voter accepts the request and says nothing on the other, and
  the first block of the result phase (height 122) is reached.
\<close>

definition ex_tx :: "string \<Rightarrow> int \<Rightarrow> (string \<times> int) list \<Rightarrow> tx_output list \<Rightarrow> tx_type \<Rightarrow> tx" where
  "ex_tx i h inps outs ty =
     \<lparr>tx_version = ''1'', tx_id = i, tx_block_height = h, tx_block_hash = ''h'', tx_time = 0,
      tx_inputs = map (\<lambda>(j, n). \<lparr>connected_tx_output_tx_id = j, connected_tx_output_index = n,
                                in_pub_key = Some ''pk''\<rparr>) inps,
      tx_outputs = outs, tx_tx_type = Some ty, tx_burnt_bsq = 0\<rparr>"

definition ex_candidate :: tx_output where
  "ex_candidate = (ex_tx_output ''c'' 100000 ISSUANCE_CANDIDATE_OUTPUT 0 0)\<lparr>txo_index := 1, txo_address := Some ''addr''\<rparr>"

definition ex_stake :: tx_output where
  "ex_stake = ex_tx_output ''v'' 3000000 BLIND_VOTE_LOCK_STAKE_OUTPUT 0 0"

definition ex_reveal_output :: tx_output where
  "ex_reveal_output = (ex_tx_output ''r'' 0 VOTE_REVEAL_OP_RETURN_OUTPUT 0 0)
     \<lparr>txo_op_return_data := Some (vote_reveal_op_return_data (replicate 20 9) (replicate 16 5))\<rparr>"

definition ex_prop :: "string \<Rightarrow> proposal_kind \<Rightarrow> proposal" where
  "ex_prop i k =
     \<lparr>prop_name = ''name'', prop_link = ''link'', prop_version = 1, prop_creation_date = 0,
      prop_tx_id = Some i, prop_extra_data_map = None, prop_kind = k\<rparr>"

definition ex_request :: proposal where
  "ex_request = ex_prop ''c'' (Compensation_Proposal 100000 ''Baddr'')"

definition ex_change :: proposal where
  "ex_change = ex_prop ''d'' (Change_Param_Proposal PROPOSAL_FEE ''3'')"

definition ex_blind_vote :: blind_vote where
  "ex_blind_vote =
     \<lparr>bv_encrypted_votes = [1], bv_tx_id = ''v'', bv_stake = 3000000, bv_encrypted_merit_list = [2],
      bv_date = 0, bv_extra_data_map = None\<rparr>"

definition ex_gov_txs :: "(string \<times> tx) list" where
  "ex_gov_txs = map (\<lambda>t. (tx_id t, t))
     [ex_tx ''c'' 112 [(''a'', 0)] [ex_tx_output ''c'' 900 BSQ_OUTPUT 0 0, ex_candidate] COMPENSATION_REQUEST,
      ex_tx ''d'' 112 [(''a'', 0)] [ex_tx_output ''d'' 900 BSQ_OUTPUT 0 0] PROPOSAL,
      ex_tx ''v'' 116 [(''a'', 0)] [ex_stake] BLIND_VOTE,
      ex_tx ''r'' 119 [(''v'', 0)] [ex_tx_output ''r'' 3000000 VOTE_REVEAL_UNLOCK_STAKE_OUTPUT 0 0, ex_reveal_output]
        VOTE_REVEAL]"

definition ex_gov :: gov_service where
  "ex_gov =
     \<lparr>chain_height = 122, blocks = [], cycles = [ex_cycle], unspent_tx_output_map = ex_ledger,
      spent_info_map = Map.empty, confiscated_lockup_tx_list = [], issuance_map = Map.empty,
      param_change_list = [], evaluated_proposal_list = [],
      decrypted_ballots_with_merits_list = [], tx_cache = ex_gov_txs, blocks_by_height = Map.empty,
      tx_outputs_by_type = Map.empty(ISSUANCE_CANDIDATE_OUTPUT \<mapsto> {ex_candidate},
        VOTE_REVEAL_OP_RETURN_OUTPUT \<mapsto> {ex_reveal_output}),
      network = BTC_REGTEST,
      bsq_formatter = (\<lambda>p v. Inr (if p = ISSUANCE_LIMIT then 20000000 else 2000000)),
      percent_parser = (\<lambda>v. Inr 5001),
      genesis_tx_id = ''g'', genesis_block_height = 111, genesis_total_supply = 1000,
      parse_block_chain_complete = False, allow_dao_state_change = True,
      cached_tx_id_set_by_address = Map.empty,
      ballot_list = [\<lparr>bal_proposal = ex_request, bal_vote = None\<rparr>, \<lparr>bal_proposal = ex_change, bal_vote = None\<rparr>],
      blind_vote_payloads = [\<lparr>bvp_blind_vote = ex_blind_vote, bvp_hash = [1]\<rparr>],
      storage_not_in_vote_reveal_phase = True, temp_proposals = [], proposal_payloads = [],
      active_or_my_unconfirmed_proposals = [], vote_result_exceptions = [],
      invalid_decrypted_ballots = [], republish_requests = 0\<rparr>"

text \<open>Sets of outputs are iterated in some order; a set with one member has only one.\<close>

definition ex_other_order :: "tx_output set \<Rightarrow> tx_output list" where
  "ex_other_order S = (SOME xs. set xs = S \<and> distinct xs)"

definition ex_order :: "tx_output set \<Rightarrow> tx_output list" where
  "ex_order S = (if S = {ex_candidate} then [ex_candidate]
     else if S = {ex_reveal_output} then [ex_reveal_output] else ex_other_order S)"

definition ex_env :: gov_env where
  "ex_env =
     \<lparr>decrypt_votes_with_key = (\<lambda>_ _. Some [\<lparr>vwp_proposal_tx_id = ''c'', vwp_vote = Some (Vote True)\<rparr>]),
      decrypt_merits_with_key = (\<lambda>_ _. Some []), ecdsa_verify = (\<lambda>_ _ _. Some True),
      sha256_ripemd160 = (\<lambda>_. replicate 20 9), serialize_for_hash = (\<lambda>_. []),
      address_format_ok = (\<lambda>_. True), order_outputs = ex_order,
      order_ballots = (\<lambda>ds. ds), order_evaluated = (\<lambda>es. es)\<rparr>"

lemma ex_fair: "fair_order ex_env"
proof -
  have "set (ex_other_order S) = S \<and> distinct (ex_other_order S)" if "finite S" for S
    unfolding ex_other_order_def using finite_distinct_list [OF that] by (rule someI_ex)
  then show ?thesis by (auto simp: fair_order_def ex_env_def ex_order_def)
qed

lemma ex_gov_sel:
  "unspent_tx_output_map ex_gov = ex_ledger" "tx_cache ex_gov = ex_gov_txs" "cycles ex_gov = [ex_cycle]"
  "get_issuance_candidate_tx_outputs ex_gov = {ex_candidate}" "chain_height ex_gov = 122"
  by (simp_all add: ex_gov_def get_issuance_candidate_tx_outputs_def get_tx_output_by_tx_output_type_def)

lemma ex_gov_ready: "vote_ready ex_env 122 20000000 ex_gov"
proof -
  have l: "get_param_value_as_coin ex_gov ISSUANCE_LIMIT 122 = Inr 20000000" by code_simp
  have p: "\<forall>p \<in> known_proposals ex_gov. 0 \<le> requested_bsq p" by code_simp
  have "ledger_fine ex_gov"
    using ex_state_ok by (auto simp: ledger_fine_def utxo_ok_def utxo_keyed_def nonneg_ledger_def get_unspent_tx_output_def
        ex_gov_sel ex_state_def)
  moreover have "candidates_ok ex_gov"
    by (simp add: candidates_ok_def ex_gov_sel ex_candidate_def ex_tx_output_def)
  ultimately show ?thesis using l p by (simp add: vote_ready_def)
qed

text \<open>The vote, revealed: the request is accepted, the change is rejected.\<close>

definition ex_decrypted :: decrypted_ballots where
  "ex_decrypted =
     \<lparr>dbm_hash_of_blind_vote_list = replicate 20 9, dbm_blind_vote_tx_id = ''v'',
      dbm_vote_reveal_tx_id = ''r'', dbm_stake = 3000000,
      dbm_ballot_list = [\<lparr>bal_proposal = ex_request, bal_vote = Some (Vote True)\<rparr>,
        \<lparr>bal_proposal = ex_change, bal_vote = Some (Vote False)\<rparr>], dbm_merit_list = []\<rparr>"

lemma ex_collected: "get_decrypted_ballots_with_merits_set ex_env 122 ex_gov = (Inr [ex_decrypted], ex_gov)"
proof -
  obtain r t where rt: "get_decrypted_ballots_with_merits_set ex_env 122 ex_gov = (r, t)" by fastforce
  have "case get_decrypted_ballots_with_merits_set ex_env 122 ex_gov of
      (Inr ds, t) \<Rightarrow> ds = [ex_decrypted] \<and> evaluated_proposal_list t = [] \<and>
        decrypted_ballots_with_merits_list t = [] \<and> vote_result_exceptions t = [] \<and>
        invalid_decrypted_ballots t = [] \<and> republish_requests t = 0
    | _ \<Rightarrow> False" by code_simp
  then have "r = Inr [ex_decrypted]" and u: "evaluated_proposal_list t = []"
    "decrypted_ballots_with_merits_list t = []" "vote_result_exceptions t = []"
    "invalid_decrypted_ballots t = []" "republish_requests t = 0" by (simp_all add: rt split: sum.splits)
  moreover have "t = ex_gov"
    using keepsD [OF get_ballots_set_keeps rt] u by (cases t) (simp add: vote_frame_def ex_gov_def)
  ultimately show ?thesis by (simp add: rt)
qed

lemma ex_processed:
  "case process_vote_result ex_env ex_cycle [ex_decrypted] [(replicate 20 9, 3000000)] 122 ex_gov of
     (Inr _, t) \<Rightarrow> get_unspent_tx_output t (get_key ex_candidate) = Some ex_candidate \<and>
       map ev_is_accepted (evaluated_proposal_list t) = [True, False] \<and> vote_result_exceptions t = []
   | _ \<Rightarrow> False"
  by code_simp

lemma ex_vote_result:
  "\<exists>t. maybe_calculate_vote_result ex_env 122 ex_gov = (Inr (), t) \<and>
     get_unspent_tx_output t (get_key ex_candidate) = Some ex_candidate \<and>
     map ev_is_accepted (evaluated_proposal_list t) = [True, False] \<and> vote_result_exceptions t = []"
proof -
  have "is_in_vote_result_phase ex_gov 122" by code_simp
  moreover have "get_stake_by_hash_of_blind_vote_list_map ex_env [ex_decrypted] = Inr [(replicate 20 9, 3000000)]"
    by code_simp
  moreover have "current_cycle ex_gov = Some ex_cycle" by (simp add: current_cycle_def ex_gov_sel)
  ultimately show ?thesis
    using ex_processed
    by (auto simp: maybe_calculate_vote_result_def ex_collected abind_def query_def try_except_def
        split: prod.splits sum.splits)
qed

lemma ex_reveal_outputs:
  "order_outputs ex_env (get_vote_reveal_op_return_tx_outputs ex_gov) = [ex_reveal_output]"
  by code_simp

text \<open>Parts of other votes: the votes on the request, an accepted proposal, a merit whose issuance has no
  public key, and a proposal that arrives when the lists are empty.\<close>

definition ex_votes :: "vote_with_stake list" where
  "ex_votes = [\<lparr>vws_vote = Some (Vote True), vws_stake = 3000000, vws_sum_of_all_merits = 0\<rparr>]"

definition ex_accepted :: "proposal \<Rightarrow> evaluated_proposal" where
  "ex_accepted p = (ignored_proposal 0 p)\<lparr>ev_is_accepted := True\<rparr>"

definition ex_keyless :: merit where
  "ex_keyless =
     \<lparr>merit_issuance = \<lparr>iss_tx_id = ''i'', iss_chain_height = 100, iss_amount = 5, iss_pub_key = None,
        iss_issuance_type = IT_COMPENSATION\<rparr>, merit_signature = []\<rparr>"

definition ex_empty_lists :: gov_service where
  "ex_empty_lists = ex_gov\<lparr>ballot_list := [], blind_vote_payloads := [], proposal_payloads := []\<rparr>"

definition ex_payload :: on_added_argument where
  "ex_payload = Persistable_Payload (Proposal_Payload_Item \<lparr>pp_proposal = ex_request, pp_hash = [3]\<rparr>)"

end
