(* ===== verification/Java_HashMap.thy ===== *)
theory Java_HashMap
  imports Bisq_Bytes
begin

text \<open>
  The \<open>HashMap\<close> of \<open>utils/java_compat.py\<close>, a copy of Java's, whose iteration order enters the
  hashes of the DAO state.  A bucket, a linked list of nodes, is a list; the table is a list of
  buckets.  Keys are compared with \<open>==\<close>; \<open>hf\<close> stands for the method \<open>_hash\<close> (for strings it is
  \<open>string_hash\<close> below).  The load factor is the default 0.75, which every caller uses: the test
  \<open>size > capacity * 0.75\<close> is exact in floats for a capacity below 2^30.  The operations are shown
  to implement a finite map, and the interface they implement is the locale \<open>map_contract\<close>.
\<close>

section \<open>Hash codes\<close>

definition signed32 :: "int \<Rightarrow> int" where
  "signed32 r = r - push_bit 1 (r AND 0x80000000)"

definition java_arrays_byte_hashcode :: "bytes \<Rightarrow> int" where
  "java_arrays_byte_hashcode bs =
     signed32 (fold (\<lambda>b r. (31 * r + (uint b AND 0xFF)) AND 0xFFFFFFFF) bs 1)"

definition java_string_hashcode :: "string \<Rightarrow> int" where
  "java_string_hashcode s = signed32 (fold (\<lambda>c r. (31 * r + of_char c) AND 0xFFFFFFFF) s 0)"

definition java_bytes_hashcode :: "bytes option \<Rightarrow> int" where
  "java_bytes_hashcode array =
     (case array of
        None \<Rightarrow> 0
      | Some bs \<Rightarrow> sint (word_of_int (fold (\<lambda>b r. 31 * r + sint b) bs 1) :: 32 word))"

definition long_unsigned_right_shift :: "int \<Rightarrow> nat \<Rightarrow> int" where
  "long_unsigned_right_shift number bits =
     (let n = (if number < 0 then number + push_bit 64 1 else number)
      in drop_bit bits n AND drop_bit bits (2 ^ 64 - 1))"

definition to_unsigned_int :: "int \<Rightarrow> int" where
  "to_unsigned_int v = v AND 0xFFFFFFFF"

fun unsigned_compare :: "int list \<Rightarrow> int list \<Rightarrow> int" where
  "unsigned_compare (a # as) (b # bs) =
     (if a AND 0xFFFFFFFF \<noteq> b AND 0xFFFFFFFF
      then (if a AND 0xFFFFFFFF < b AND 0xFFFFFFFF then - 1 else 1)
      else unsigned_compare as bs)"
| "unsigned_compare as bs = int (length as) - int (length bs)"

text \<open>\<open>_hash\<close> of a string key.\<close>

definition string_hash :: "string \<Rightarrow> int" where
  "string_hash key = (let h = java_string_hashcode key in h XOR int_unsigned_right_shift h 16)"

section \<open>The data structure\<close>

record ('k, 'v) node =
  nd_hash :: int
  nd_key :: 'k
  nd_value :: 'v

record ('k, 'v) hash_map =
  hm_capacity :: nat
  hm_size :: nat
  hm_mod_count :: nat
  hm_table :: "('k, 'v) node list list"

definition hm_new :: "nat \<Rightarrow> ('k, 'v) hash_map" where
  "hm_new initial_capacity =
     \<lparr>hm_capacity = initial_capacity, hm_size = 0, hm_mod_count = 0,
      hm_table = replicate initial_capacity []\<rparr>"

definition index_in :: "nat \<Rightarrow> int \<Rightarrow> nat" where
  "index_in capacity hash_val = nat (hash_val AND (int capacity - 1))"

definition index_for :: "('k, 'v) hash_map \<Rightarrow> int \<Rightarrow> nat" where
  "index_for m hash_val = index_in (hm_capacity m) hash_val"

fun find_node :: "int \<Rightarrow> 'k \<Rightarrow> ('k, 'v) node list \<Rightarrow> ('k, 'v) node option" where
  "find_node h key [] = None"
| "find_node h key (n # ns) = (if nd_hash n = h \<and> nd_key n = key then Some n else find_node h key ns)"

definition get_node :: "('k \<Rightarrow> int) \<Rightarrow> ('k, 'v) hash_map \<Rightarrow> 'k \<Rightarrow> ('k, 'v) node option" where
  "get_node hf m key = find_node (hf key) key (hm_table m ! index_for m (hf key))"

text \<open>Moving one bucket to the table of double capacity.  A single node goes to its new index; a
  longer chain is split in two chains that keep the order.\<close>

definition resize_bucket ::
  "nat \<Rightarrow> ('k, 'v) node list \<Rightarrow> nat \<Rightarrow> ('k, 'v) node list list \<Rightarrow> ('k, 'v) node list list" where
  "resize_bucket old_capacity bucket j tab =
     (case bucket of
        [] \<Rightarrow> tab
      | [n] \<Rightarrow> tab[index_in (2 * old_capacity) (nd_hash n) := [n]]
      | _ \<Rightarrow>
          let lo = filter (\<lambda>n. nd_hash n AND int old_capacity = 0) bucket;
              hi = filter (\<lambda>n. nd_hash n AND int old_capacity \<noteq> 0) bucket;
              tab1 = (if lo \<noteq> [] then tab[j := lo] else tab)
          in if hi \<noteq> [] then tab1[j + old_capacity := hi] else tab1)"

definition hm_resize :: "('k, 'v) hash_map \<Rightarrow> ('k, 'v) hash_map" where
  "hm_resize m =
     (if 0x40000000 \<le> hm_capacity m then m
      else
        let new = replicate (2 * hm_capacity m) []
        in m\<lparr>hm_capacity := 2 * hm_capacity m,
             hm_table :=
               (if 0 < hm_size m
                then fold (\<lambda>j. resize_bucket (hm_capacity m) (hm_table m ! j) j) [0..<hm_capacity m] new
                else new)\<rparr>)"

text \<open>The walk along a bucket: replace the value of an equal key, or append a node.\<close>

fun put_chain ::
  "int \<Rightarrow> 'k \<Rightarrow> 'v \<Rightarrow> ('k, 'v) node list \<Rightarrow> ('k, 'v) node list \<times> 'v option" where
  "put_chain h key v [] = ([\<lparr>nd_hash = h, nd_key = key, nd_value = v\<rparr>], None)"
| "put_chain h key v (n # ns) =
     (if nd_hash n = h \<and> nd_key n = key then (n\<lparr>nd_value := v\<rparr> # ns, Some (nd_value n))
      else let (ns', old) = put_chain h key v ns in (n # ns', old))"

definition hm_put :: "('k \<Rightarrow> int) \<Rightarrow> 'k \<Rightarrow> 'v \<Rightarrow> ('k, 'v) hash_map \<Rightarrow> ('k, 'v) hash_map \<times> 'v option" where
  "hm_put hf key v m =
     (let h = hf key; i = index_for m h; (ch, old) = put_chain h key v (hm_table m ! i);
          m1 = m\<lparr>hm_table := (hm_table m)[i := ch]\<rparr>
      in case old of
           Some _ \<Rightarrow> (m1, old)
         | None \<Rightarrow>
             let m2 = m1\<lparr>hm_size := hm_size m + 1, hm_mod_count := hm_mod_count m + 1\<rparr>
             in (if 3 * hm_capacity m2 < 4 * hm_size m2 then hm_resize m2 else m2, None))"

definition hm_get :: "('k \<Rightarrow> int) \<Rightarrow> ('k, 'v) hash_map \<Rightarrow> 'k \<Rightarrow> 'v option" where
  "hm_get hf m key = map_option nd_value (get_node hf m key)"

fun remove_chain :: "int \<Rightarrow> 'k \<Rightarrow> ('k, 'v) node list \<Rightarrow> ('k, 'v) node list \<times> 'v option" where
  "remove_chain h key [] = ([], None)"
| "remove_chain h key (n # ns) =
     (if nd_hash n = h \<and> nd_key n = key then (ns, Some (nd_value n))
      else let (ns', old) = remove_chain h key ns in (n # ns', old))"

definition hm_remove :: "('k \<Rightarrow> int) \<Rightarrow> 'k \<Rightarrow> ('k, 'v) hash_map \<Rightarrow> ('k, 'v) hash_map \<times> 'v option" where
  "hm_remove hf key m =
     (let h = hf key; i = index_for m h; (ch, old) = remove_chain h key (hm_table m ! i)
      in case old of
           None \<Rightarrow> (m, None)
         | Some v \<Rightarrow>
             (m\<lparr>hm_table := (hm_table m)[i := ch], hm_size := hm_size m - 1,
                hm_mod_count := hm_mod_count m + 1\<rparr>, Some v))"

definition hm_contains_key :: "('k \<Rightarrow> int) \<Rightarrow> ('k, 'v) hash_map \<Rightarrow> 'k \<Rightarrow> bool" where
  "hm_contains_key hf m key \<longleftrightarrow> get_node hf m key \<noteq> None"

definition hm_items :: "('k, 'v) hash_map \<Rightarrow> ('k \<times> 'v) list" where
  "hm_items m = map (\<lambda>n. (nd_key n, nd_value n)) (concat (hm_table m))"

definition hm_keys :: "('k, 'v) hash_map \<Rightarrow> 'k list" where
  "hm_keys m = map nd_key (concat (hm_table m))"

definition hm_key_set :: "('k, 'v) hash_map \<Rightarrow> 'k set" where
  "hm_key_set m = fold insert (hm_keys m) {}"

definition hm_values :: "('k, 'v) hash_map \<Rightarrow> 'v list" where
  "hm_values m = map nd_value (concat (hm_table m))"

definition hm_contains_value :: "('k, 'v) hash_map \<Rightarrow> 'v \<Rightarrow> bool" where
  "hm_contains_value m v \<longleftrightarrow> list_ex (list_ex (\<lambda>n. nd_value n = v)) (hm_table m)"

definition hm_clear :: "('k, 'v) hash_map \<Rightarrow> ('k, 'v) hash_map" where
  "hm_clear m =
     m\<lparr>hm_table := replicate (hm_capacity m) [], hm_size := 0, hm_mod_count := hm_mod_count m + 1\<rparr>"

definition hm_is_empty :: "('k, 'v) hash_map \<Rightarrow> bool" where
  "hm_is_empty m \<longleftrightarrow> hm_size m = 0"

text \<open>\<open>__init__\<close> with initial items.\<close>

definition hm_init :: "('k \<Rightarrow> int) \<Rightarrow> ('k \<times> 'v) list \<Rightarrow> nat \<Rightarrow> ('k, 'v) hash_map" where
  "hm_init hf items capacity = fold (\<lambda>(k, v) m. fst (hm_put hf k v m)) items (hm_new capacity)"

text \<open>The subscript forms \<open>m[key]\<close> and \<open>del m[key]\<close> test the returned value against \<open>None\<close>; a value
  may itself be \<open>None\<close>.\<close>

definition hm_getitem :: "('k \<Rightarrow> int) \<Rightarrow> ('k, 'v option) hash_map \<Rightarrow> 'k \<Rightarrow> 'v option res" where
  "hm_getitem hf m key =
     (let v = Option.bind (hm_get hf m key) id
      in if v = None \<and> \<not> hm_contains_key hf m key then Inl Key_Error else Inr v)"

definition hm_delitem ::
  "('k \<Rightarrow> int) \<Rightarrow> 'k \<Rightarrow> ('k, 'v option) hash_map \<Rightarrow> ('k, 'v option) hash_map \<times> unit res" where
  "hm_delitem hf key m =
     (let (m', old) = hm_remove hf key m
      in (m', if Option.bind old id = None then Inl Key_Error else Inr ()))"

section \<open>Bucket indices\<close>

lemma index_in_pow: "index_in (2 ^ k) h = nat (take_bit k h)"
  by (simp add: index_in_def take_bit_eq_mask mask_eq_exp_minus_1)

lemma index_in_less: "index_in (2 ^ k) h < 2 ^ k"
  using take_bit_int_less_exp [of k h] by (simp add: index_in_pow nat_less_iff)

text \<open>Doubling the capacity adds one bit to the index.\<close>

lemma index_in_double:
  "index_in (2 * 2 ^ k) h = (if h AND 2 ^ k = 0 then index_in (2 ^ k) h else index_in (2 ^ k) h + 2 ^ k)"
proof -
  have "index_in (2 * 2 ^ k) h = nat (take_bit (Suc k) h)"
    using index_in_pow [of "Suc k" h] by simp
  then show ?thesis
    by (simp add: index_in_pow take_bit_Suc_from_most and_exp_eq_0_iff_not_bit nat_add_distrib nat_power_eq)
qed

lemma index_in_double_mod: "index_in (2 * 2 ^ k) h mod 2 ^ k = index_in (2 ^ k) h"
  using index_in_less [of k h] by (simp add: index_in_double)

section \<open>The invariant and the abstract map\<close>

definition bucket_ok :: "('k \<Rightarrow> int) \<Rightarrow> nat \<Rightarrow> nat \<Rightarrow> ('k, 'v) node list \<Rightarrow> bool" where
  "bucket_ok hf capacity i ns \<longleftrightarrow>
     (\<forall>n \<in> set ns. nd_hash n = hf (nd_key n) \<and> index_in capacity (nd_hash n) = i) \<and>
     distinct (map nd_key ns)"

definition hm_inv :: "('k \<Rightarrow> int) \<Rightarrow> ('k, 'v) hash_map \<Rightarrow> bool" where
  "hm_inv hf m \<longleftrightarrow>
     (\<exists>k. hm_capacity m = 2 ^ k) \<and> length (hm_table m) = hm_capacity m \<and>
     (\<forall>i < hm_capacity m. bucket_ok hf (hm_capacity m) i (hm_table m ! i)) \<and>
     hm_size m = length (concat (hm_table m))"

lemma find_node_filter:
  "(\<And>n. n \<in> set ns \<Longrightarrow> nd_hash n = h \<and> nd_key n = key \<Longrightarrow> P n) \<Longrightarrow>
     find_node h key (filter P ns) = find_node h key ns"
  by (induction ns) auto

lemma bucket_split:
  assumes "bucket_ok hf (2 ^ k) j b" and "j < 2 ^ k" and "length tab = 2 * 2 ^ k"
    and "tab ! j = []" and "tab ! (j + 2 ^ k) = []"
  shows "length (resize_bucket (2 ^ k) b j tab) = 2 * 2 ^ k"
    and "i < 2 * 2 ^ k \<Longrightarrow> resize_bucket (2 ^ k) b j tab ! i =
       (if i mod 2 ^ k = j then filter (\<lambda>n. index_in (2 * 2 ^ k) (nd_hash n) = i) b else tab ! i)"
proof -
  let ?lo = "filter (\<lambda>n. nd_hash n AND int (2 ^ k) = 0) b" and ?hi = "filter (\<lambda>n. nd_hash n AND int (2 ^ k) \<noteq> 0) b"
  have idx: "index_in (2 ^ k) (nd_hash n) = j" if "n \<in> set b" for n
    using assms(1) that unfolding bucket_ok_def by blast
  have lo: "filter (\<lambda>n. index_in (2 * 2 ^ k) (nd_hash n) = j) b = ?lo"
    by (rule filter_cong) (auto simp: index_in_double idx)
  have hi: "filter (\<lambda>n. index_in (2 * 2 ^ k) (nd_hash n) = j + 2 ^ k) b = ?hi"
    by (rule filter_cong) (auto simp: index_in_double idx)
  have two: "i = j \<or> i = j + 2 ^ k" if "i mod 2 ^ k = j" "i < 2 * 2 ^ k" for i
    using that by (cases "i < 2 ^ k") (auto simp: mod_if split: if_splits)
  show "length (resize_bucket (2 ^ k) b j tab) = 2 * 2 ^ k"
    using assms(3) by (auto simp: resize_bucket_def Let_def split: list.splits)
  have res: "resize_bucket (2 ^ k) b j tab = tab[j := ?lo, j + 2 ^ k := ?hi]"
  proof -
    have same: "tab[j := []] = tab" "tab[j + 2 ^ k := []] = tab" "tab[j := x, j + 2 ^ k := []] = tab[j := x]" for x
      using assms(4,5) by (metis list_update_id, metis list_update_id, metis assms(2) list_update_id list_update_swap
        nat_neq_iff trans_less_add2)
    show ?thesis
      using assms(2,4,5) same index_in_double [of k] idx
      by (cases b rule: list.exhaust [case_names Nil Cons]; cases "tl b")
        (auto simp: resize_bucket_def Let_def filter_empty_conv)
  qed
  show "resize_bucket (2 ^ k) b j tab ! i =
       (if i mod 2 ^ k = j then filter (\<lambda>n. index_in (2 * 2 ^ k) (nd_hash n) = i) b else tab ! i)"
    if "i < 2 * 2 ^ k"
    using two [OF _ that] assms(2,3) lo hi that by (auto simp: res nth_list_update)
qed

lemma resize_table:
  assumes "hm_inv hf m" and "hm_capacity m = 2 ^ k" and "J \<le> 2 ^ k"
  shows "length (fold (\<lambda>j. resize_bucket (2 ^ k) (hm_table m ! j) j) [0..<J] (replicate (2 * 2 ^ k) [])) = 2 * 2 ^ k \<and>
     (\<forall>i < 2 * 2 ^ k. fold (\<lambda>j. resize_bucket (2 ^ k) (hm_table m ! j) j) [0..<J] (replicate (2 * 2 ^ k) []) ! i =
        (if i mod 2 ^ k < J
         then filter (\<lambda>n. index_in (2 * 2 ^ k) (nd_hash n) = i) (hm_table m ! (i mod 2 ^ k)) else []))"
  using assms(3)
proof (induction J)
  case (Suc J)
  let ?tab = "fold (\<lambda>j. resize_bucket (2 ^ k) (hm_table m ! j) j) [0..<J] (replicate (2 * 2 ^ k) [])"
  have ih: "length ?tab = 2 * 2 ^ k"
    "\<And>i. i < 2 * 2 ^ k \<Longrightarrow> ?tab ! i = (if i mod 2 ^ k < J
       then filter (\<lambda>n. index_in (2 * 2 ^ k) (nd_hash n) = i) (hm_table m ! (i mod 2 ^ k)) else [])"
    using Suc by simp_all
  have J: "J < 2 ^ k" using Suc.prems by simp
  have ok: "bucket_ok hf (2 ^ k) J (hm_table m ! J)" using assms(1,2) J by (simp add: hm_inv_def)
  have e: "?tab ! J = []" "?tab ! (J + 2 ^ k) = []" using ih(2) [of J] ih(2) [of "J + 2 ^ k"] J by simp_all
  note split = bucket_split [OF ok J ih(1) e]
  show ?case using split ih(2) J by (auto simp: less_Suc_eq)
qed simp

text \<open>No node is lost: the new table has as many nodes as the old one.\<close>

lemma filter_partition_length:
  "(\<And>x. x \<in> set xs \<Longrightarrow> f x = i \<or> f x = j) \<Longrightarrow> i \<noteq> j \<Longrightarrow>
     length (filter (\<lambda>x. f x = i) xs) + length (filter (\<lambda>x. f x = j) xs) = length xs"
  by (induction xs) auto

lemma length_concat_upt: "length (concat t) = (\<Sum>i<length t. length (t ! i))"
  by (simp add: length_concat sum_list_sum_nth atLeast0LessThan)

lemma sum_lessThan_add: "(\<Sum>i<n + m. f i) = (\<Sum>i<n. f i) + (\<Sum>i<m. f (n + i))" for f :: "nat \<Rightarrow> nat"
  by (induction m) (simp_all add: add.assoc)

lemma resize_length:
  assumes "length t = 2 * 2 ^ k" and "length u = 2 ^ k"
    and "\<And>i. i < 2 * 2 ^ k \<Longrightarrow> t ! i = filter (\<lambda>n. index_in (2 * 2 ^ k) (nd_hash n) = i) (u ! (i mod 2 ^ k))"
    and "\<And>i. i < 2 ^ k \<Longrightarrow> bucket_ok hf (2 ^ k) i (u ! i)"
  shows "length (concat t) = length (concat u)"
proof -
  have "length (t ! i) + length (t ! (i + 2 ^ k)) = length (u ! i)" if i: "i < 2 ^ k" for i
  proof -
    have "index_in (2 * 2 ^ k) (nd_hash n) = i \<or> index_in (2 * 2 ^ k) (nd_hash n) = i + 2 ^ k"
      if "n \<in> set (u ! i)" for n
      using assms(4) [OF i] that unfolding bucket_ok_def index_in_double by auto
    from filter_partition_length [of "u ! i", OF this] show ?thesis
      using assms(3) [of i] assms(3) [of "i + 2 ^ k"] i by simp
  qed
  then have "(\<Sum>i<2 ^ k. length (t ! i)) + (\<Sum>i<2 ^ k. length (t ! (i + 2 ^ k))) = (\<Sum>i<2 ^ k. length (u ! i))"
    by (simp add: sum.distrib [symmetric])
  moreover have "(\<Sum>i<2 * 2 ^ k. length (t ! i)) =
      (\<Sum>i<2 ^ k. length (t ! i)) + (\<Sum>i<2 ^ k. length (t ! (i + 2 ^ k)))"
    using sum_lessThan_add [of "\<lambda>i. length (t ! i)" "2 ^ k" "2 ^ k"] by (simp add: mult_2 add.commute)
  ultimately show ?thesis by (simp add: length_concat_upt assms(1,2))
qed

lemma resize_inv:
  assumes "hm_inv hf m" and "0 < hm_size m"
  shows "hm_inv hf (hm_resize m)" and "get_node hf (hm_resize m) key = get_node hf m key"
    and "hm_size (hm_resize m) = hm_size m"
proof -
  show "hm_size (hm_resize m) = hm_size m" by (simp add: hm_resize_def Let_def)
  have "hm_inv hf (hm_resize m) \<and> get_node hf (hm_resize m) key = get_node hf m key"
  proof (cases "0x40000000 \<le> hm_capacity m")
    case True
    then show ?thesis using assms(1) by (simp add: hm_resize_def)
  next
    case False
    obtain k where k: "hm_capacity m = 2 ^ k" using assms(1) by (auto simp: hm_inv_def)
    let ?t = "hm_table (hm_resize m)"
    have len: "length ?t = 2 * 2 ^ k" and nth: "\<And>i. i < 2 * 2 ^ k \<Longrightarrow>
        ?t ! i = filter (\<lambda>n. index_in (2 * 2 ^ k) (nd_hash n) = i) (hm_table m ! (i mod 2 ^ k))"
      using resize_table [OF assms(1) k order_refl] False assms(2) k by (simp_all add: hm_resize_def Let_def)
    have cap: "hm_capacity (hm_resize m) = 2 * 2 ^ k" using False k by (simp add: hm_resize_def Let_def)
    have old: "bucket_ok hf (2 ^ k) i (hm_table m ! i)" if "i < 2 ^ k" for i
      using assms(1) k that by (simp add: hm_inv_def)
    have "bucket_ok hf (2 * 2 ^ k) i (?t ! i)" if "i < 2 * 2 ^ k" for i
      using old [of "i mod 2 ^ k"] by (auto simp: bucket_ok_def nth [OF that] distinct_map_filter)
    moreover have "length (concat ?t) = length (concat (hm_table m))"
      using resize_length [of ?t k "hm_table m" hf] len nth old assms(1) k by (simp add: hm_inv_def)
    moreover have "hm_size (hm_resize m) = hm_size m" by (simp add: hm_resize_def Let_def)
    ultimately have inv: "hm_inv hf (hm_resize m)"
      using assms(1) len cap by (auto simp: hm_inv_def intro: exI [of _ "Suc k"])
    have i: "index_in (2 * 2 ^ k) (hf key) < 2 * 2 ^ k" using index_in_less [of "Suc k"] by simp
    have "get_node hf (hm_resize m) key = get_node hf m key"
      using find_node_filter [of "hm_table m ! index_in (2 ^ k) (hf key)" "hf key" key
          "\<lambda>n. index_in (2 * 2 ^ k) (nd_hash n) = index_in (2 * 2 ^ k) (hf key)"]
      by (simp add: get_node_def index_for_def cap k nth [OF i] index_in_double_mod)
    with inv show ?thesis ..
  qed
  then show "hm_inv hf (hm_resize m)" "get_node hf (hm_resize m) key = get_node hf m key" by auto
qed

section \<open>Lookup, insertion and removal\<close>

lemma put_chain_spec:
  "snd (put_chain h key v ns) = map_option nd_value (find_node h key ns)"
  "map_option nd_value (find_node h' key' (fst (put_chain h key v ns))) =
     (if h' = h \<and> key' = key then Some v else map_option nd_value (find_node h' key' ns))"
  "set (map (\<lambda>n. (nd_hash n, nd_key n)) (fst (put_chain h key v ns))) =
     insert (h, key) (set (map (\<lambda>n. (nd_hash n, nd_key n)) ns))"
  "map nd_key (fst (put_chain h key v ns)) =
     map nd_key ns @ (if find_node h key ns = None then [key] else [])"
  by (induction ns) (auto split: prod.splits)

lemma find_node_None: "find_node h key ns = None \<longleftrightarrow> (\<forall>n \<in> set ns. \<not> (nd_hash n = h \<and> nd_key n = key))"
  by (induction ns) auto

lemma bucket_ok_keys: "bucket_ok hf c i ns \<Longrightarrow> find_node (hf key) key ns = None \<longleftrightarrow> key \<notin> nd_key ` set ns"
  by (auto simp: find_node_None bucket_ok_def)

lemma bucket_ok_subset:
  "bucket_ok hf c i ns \<Longrightarrow> set ns' \<subseteq> set ns \<Longrightarrow> distinct (map nd_key ns') \<Longrightarrow> bucket_ok hf c i ns'"
  unfolding bucket_ok_def by blast

lemma put_chain_ok:
  assumes "bucket_ok hf c i ns" and "index_in c (hf key) = i"
  shows "bucket_ok hf c i (fst (put_chain (hf key) key v ns))"
proof -
  have "(nd_hash n, nd_key n) \<in> insert (hf key, key) (set (map (\<lambda>n. (nd_hash n, nd_key n)) ns))"
    if "n \<in> set (fst (put_chain (hf key) key v ns))" for n
  proof -
    have "(nd_hash n, nd_key n) \<in> set (map (\<lambda>n. (nd_hash n, nd_key n)) (fst (put_chain (hf key) key v ns)))"
      using that by force
    then show ?thesis unfolding put_chain_spec(3) .
  qed
  then have "\<forall>n \<in> set (fst (put_chain (hf key) key v ns)). nd_hash n = hf (nd_key n) \<and> index_in c (nd_hash n) = i"
    using assms unfolding bucket_ok_def by fastforce
  moreover have "distinct (map nd_key (fst (put_chain (hf key) key v ns)))"
    using assms(1) bucket_ok_keys [OF assms(1), of key] by (auto simp: put_chain_spec(4) bucket_ok_def)
  ultimately show ?thesis unfolding bucket_ok_def by blast
qed

lemma remove_chain_set: "set (fst (remove_chain h key ns)) \<subseteq> set ns"
  by (induction ns) (auto split: prod.splits)

lemma find_node_Some: "find_node h key ns = Some n \<Longrightarrow> n \<in> set ns \<and> nd_hash n = h \<and> nd_key n = key"
  by (induction ns) (auto split: if_splits)

lemma remove_chain_distinct:
  "distinct (map nd_key ns) \<Longrightarrow> distinct (map nd_key (fst (remove_chain h key ns))) \<and>
     (find_node h key ns \<noteq> None \<longrightarrow> key \<notin> nd_key ` set (fst (remove_chain h key ns)))"
proof (induction ns)
  case (Cons n ns)
  with remove_chain_set [of h key ns] show ?case
    by (auto simp: case_prod_beta dest!: find_node_Some) (metis image_eqI)+
qed simp

lemma remove_chain_spec:
  "snd (remove_chain h key ns) = map_option nd_value (find_node h key ns)"
  "(h', key') \<noteq> (h, key) \<Longrightarrow> find_node h' key' (fst (remove_chain h key ns)) = find_node h' key' ns"
  "find_node h key ns \<noteq> None \<Longrightarrow> Suc (length (fst (remove_chain h key ns))) = length ns"
  by (induction ns) (auto split: prod.splits)

definition hm_bucket :: "('k \<Rightarrow> int) \<Rightarrow> ('k, 'v) hash_map \<Rightarrow> 'k \<Rightarrow> ('k, 'v) node list" where
  "hm_bucket hf m key = hm_table m ! index_for m (hf key)"

lemma hm_inv_bucket:
  assumes "hm_inv hf m"
  shows "index_for m (hf key) < length (hm_table m)"
    and "bucket_ok hf (hm_capacity m) (index_for m (hf key)) (hm_bucket hf m key)"
  using assms index_in_less by (auto simp: hm_inv_def index_for_def hm_bucket_def)

lemma length_concat_update:
  "i < length t \<Longrightarrow> length (concat (t[i := b])) + length (t ! i) = length (concat t) + length b"
  by (induction t arbitrary: i) (auto simp: nth_Cons' split: nat.splits)

text \<open>Replacing the bucket of a key by one that is in order keeps the invariant and only changes the
  lookups in that bucket.\<close>

lemma update_bucket:
  assumes "hm_inv hf m" and "bucket_ok hf (hm_capacity m) (index_for m (hf key)) b"
    and "int n = int (hm_size m) + int (length b) - int (length (hm_bucket hf m key))"
  shows "hm_inv hf (m\<lparr>hm_table := (hm_table m)[index_for m (hf key) := b], hm_size := n, hm_mod_count := c\<rparr>)"
    and "get_node hf (m\<lparr>hm_table := (hm_table m)[index_for m (hf key) := b], hm_size := n, hm_mod_count := c\<rparr>) key' =
      (if index_for m (hf key') = index_for m (hf key) then find_node (hf key') key' b else get_node hf m key')"
proof -
  note b = hm_inv_bucket [OF assms(1), of key]
  have "int n = int (length (concat ((hm_table m)[index_for m (hf key) := b])))"
    using assms(1,3) length_concat_update [OF b(1), of b] by (simp add: hm_inv_def hm_bucket_def)
  then show "hm_inv hf (m\<lparr>hm_table := (hm_table m)[index_for m (hf key) := b], hm_size := n, hm_mod_count := c\<rparr>)"
    using assms(1,2) b(1) by (auto simp: hm_inv_def nth_list_update)
  show "get_node hf (m\<lparr>hm_table := (hm_table m)[index_for m (hf key) := b], hm_size := n, hm_mod_count := c\<rparr>) key' =
      (if index_for m (hf key') = index_for m (hf key) then find_node (hf key') key' b else get_node hf m key')"
    using b(1) by (auto simp: get_node_def index_for_def)
qed

lemma hm_put_spec:
  assumes "hm_inv hf m"
  shows "hm_inv hf (fst (hm_put hf key v m))" and "snd (hm_put hf key v m) = hm_get hf m key"
    and "hm_get hf (fst (hm_put hf key v m)) key' = (if key' = key then Some v else hm_get hf m key')"
proof -
  let ?b = "fst (put_chain (hf key) key v (hm_bucket hf m key))"
  note b = hm_inv_bucket [OF assms, of key]
  have ok: "bucket_ok hf (hm_capacity m) (index_for m (hf key)) ?b"
    by (rule put_chain_ok [OF b(2)]) (simp add: index_for_def)
  have old: "snd (put_chain (hf key) key v (hm_bucket hf m key)) = hm_get hf m key"
    by (simp add: put_chain_spec hm_get_def get_node_def hm_bucket_def)
  have get: "map_option nd_value (if index_for m (hf key') = index_for m (hf key) then find_node (hf key') key' ?b
      else get_node hf m key') = (if key' = key then Some v else hm_get hf m key')" for key'
    by (auto simp: put_chain_spec hm_get_def get_node_def hm_bucket_def)
  have len: "length ?b = length (hm_bucket hf m key) + (if hm_get hf m key = None then 1 else 0)"
    using arg_cong [OF put_chain_spec(4) [of "hf key" key v "hm_bucket hf m key"], of length]
    by (simp add: hm_get_def get_node_def hm_bucket_def)
  define m2 where "m2 = m\<lparr>hm_table := (hm_table m)[index_for m (hf key) := ?b],
      hm_size := hm_size m + (if hm_get hf m key = None then 1 else 0),
      hm_mod_count := hm_mod_count m + (if hm_get hf m key = None then 1 else 0)\<rparr>"
  have put: "hm_put hf key v m =
      (if hm_get hf m key = None \<and> 3 * hm_capacity m < 4 * (hm_size m + 1) then hm_resize m2 else m2, hm_get hf m key)"
    using old by (cases "hm_get hf m key") (simp_all add: hm_put_def m2_def Let_def hm_bucket_def case_prod_beta)
  note upd = update_bucket [OF assms ok, folded m2_def]
  have inv2: "hm_inv hf m2" unfolding m2_def by (rule update_bucket(1) [OF assms ok]) (simp add: len)
  have get2: "hm_get hf m2 key' = (if key' = key then Some v else hm_get hf m key')" for key'
  proof -
    have "get_node hf m2 key' = (if index_for m (hf key') = index_for m (hf key) then find_node (hf key') key' ?b
        else get_node hf m key')"
      unfolding m2_def by (rule update_bucket(2) [OF assms ok]) (simp add: len)
    then show ?thesis using get [of key'] by (simp only: hm_get_def)
  qed
  have "0 < hm_size m2" if "hm_get hf m key = None" using that by (simp add: m2_def)
  note res = resize_inv [OF inv2 this]
  show "hm_inv hf (fst (hm_put hf key v m))" using inv2 res(1) by (simp add: put)
  show "snd (hm_put hf key v m) = hm_get hf m key" by (simp add: put)
  show "hm_get hf (fst (hm_put hf key v m)) key' = (if key' = key then Some v else hm_get hf m key')"
    using get2 [of key'] res(2) [of key'] by (auto simp: put hm_get_def [of _ "hm_resize m2"] hm_get_def [of _ m2])
qed

lemma hm_remove_spec:
  assumes "hm_inv hf m"
  shows "hm_inv hf (fst (hm_remove hf key m))" and "snd (hm_remove hf key m) = hm_get hf m key"
    and "hm_get hf (fst (hm_remove hf key m)) key' = (if key' = key then None else hm_get hf m key')"
proof -
  let ?b = "fst (remove_chain (hf key) key (hm_bucket hf m key))"
  note b = hm_inv_bucket [OF assms, of key]
  have old: "snd (remove_chain (hf key) key (hm_bucket hf m key)) = hm_get hf m key"
    by (simp add: remove_chain_spec hm_get_def get_node_def hm_bucket_def)
  have "hm_inv hf (fst (hm_remove hf key m)) \<and> snd (hm_remove hf key m) = hm_get hf m key \<and>
    hm_get hf (fst (hm_remove hf key m)) key' = (if key' = key then None else hm_get hf m key')"
  proof (cases "hm_get hf m key")
    case None
    then show ?thesis using assms old
      by (auto simp: hm_remove_def Let_def hm_bucket_def split: prod.splits)
  next
    case (Some v)
    then have f: "find_node (hf key) key (hm_bucket hf m key) \<noteq> None"
      by (auto simp: hm_get_def get_node_def hm_bucket_def)
    have dist: "distinct (map nd_key (hm_bucket hf m key))" using b(2) by (simp add: bucket_ok_def)
    have ok: "bucket_ok hf (hm_capacity m) (index_for m (hf key)) ?b"
      using bucket_ok_subset [OF b(2) remove_chain_set] remove_chain_distinct [OF dist] by blast
    have rem: "hm_remove hf key m = (m\<lparr>hm_table := (hm_table m)[index_for m (hf key) := ?b],
        hm_size := hm_size m - 1, hm_mod_count := hm_mod_count m + 1\<rparr>, Some v)"
      using old Some by (auto simp: hm_remove_def Let_def hm_bucket_def split: prod.splits)
    have "length (hm_bucket hf m key) \<le> hm_size m"
      using length_concat_update [OF b(1), of "[]"] assms by (simp add: hm_inv_def hm_bucket_def)
    then have sz: "int (hm_size m - 1) = int (hm_size m) + int (length ?b) - int (length (hm_bucket hf m key))"
      using remove_chain_spec(3) [OF f] by linarith
    have gone: "find_node (hf key) key ?b = None"
      using remove_chain_distinct [OF dist, of "hf key" key] f by (metis find_node_Some image_eqI not_None_eq)
    have upd: "get_node hf (fst (hm_remove hf key m)) key' =
        (if index_for m (hf key') = index_for m (hf key) then find_node (hf key') key' ?b else get_node hf m key')"
      unfolding rem fst_conv by (rule update_bucket(2) [OF assms ok sz])
    have same: "find_node (hf key') key' ?b = get_node hf m key'"
      if "key' \<noteq> key" "index_for m (hf key') = index_for m (hf key)"
      using remove_chain_spec(2) [of "hf key'" key' "hf key" key "hm_bucket hf m key"] that
      by (simp add: get_node_def hm_bucket_def)
    have "get_node hf (fst (hm_remove hf key m)) key' = (if key' = key then None else get_node hf m key')"
      unfolding upd using gone same by (cases "key' = key") auto
    then have "hm_get hf (fst (hm_remove hf key m)) key' = (if key' = key then None else hm_get hf m key')"
      by (simp add: hm_get_def)
    moreover have "hm_inv hf (fst (hm_remove hf key m))"
      unfolding rem fst_conv by (rule update_bucket(1) [OF assms ok sz])
    ultimately show ?thesis using Some by (simp add: rem)
  qed
  then show "hm_inv hf (fst (hm_remove hf key m))" "snd (hm_remove hf key m) = hm_get hf m key"
    "hm_get hf (fst (hm_remove hf key m)) key' = (if key' = key then None else hm_get hf m key')" by auto
qed

section \<open>The contract of a map\<close>

text \<open>What the clients of a map rely on.  The operations that change the map also return the previous
  value of the key, as Java's do.\<close>

locale map_contract =
  fixes inv :: "'m \<Rightarrow> bool"
    and lookup :: "'m \<Rightarrow> 'k \<Rightarrow> 'v option"
    and put :: "'k \<Rightarrow> 'v \<Rightarrow> 'm \<Rightarrow> 'm \<times> 'v option"
    and remove :: "'k \<Rightarrow> 'm \<Rightarrow> 'm \<times> 'v option"
    and items :: "'m \<Rightarrow> ('k \<times> 'v) list"
  assumes put_inv: "inv m \<Longrightarrow> inv (fst (put k v m))"
    and put_old: "inv m \<Longrightarrow> snd (put k v m) = lookup m k"
    and put_lookup: "inv m \<Longrightarrow> lookup (fst (put k v m)) = (lookup m)(k \<mapsto> v)"
    and remove_inv: "inv m \<Longrightarrow> inv (fst (remove k m))"
    and remove_old: "inv m \<Longrightarrow> snd (remove k m) = lookup m k"
    and remove_lookup: "inv m \<Longrightarrow> lookup (fst (remove k m)) = (lookup m)(k := None)"
    and items_distinct: "inv m \<Longrightarrow> distinct (map fst (items m))"
    and items_lookup: "inv m \<Longrightarrow> map_of (items m) = lookup m"
begin

lemma put_all:
  "inv m \<Longrightarrow> inv (fold (\<lambda>(k, v) m. fst (put k v m)) kvs m) \<and>
     lookup (fold (\<lambda>(k, v) m. fst (put k v m)) kvs m) = lookup m ++ map_of (rev kvs)"
proof (induction kvs arbitrary: m)
  case (Cons kv kvs)
  obtain k v where "kv = (k, v)" by (cases kv)
  with Cons.IH [of "fst (put k v m)"] Cons.prems show ?case
    by (simp add: put_inv put_lookup) (simp add: map_add_def fun_eq_iff split: option.split)
qed simp

lemma set_items: "inv m \<Longrightarrow> (k, v) \<in> set (items m) \<longleftrightarrow> lookup m k = Some v"
  using items_distinct [of m] items_lookup [of m] by (metis map_of_eq_Some_iff)

lemma items_put_all:
  assumes "inv m" and "lookup m = Map.empty" and "distinct (map fst kvs)"
  shows "set (items (fold (\<lambda>(k, v) m. fst (put k v m)) kvs m)) = set kvs"
proof -
  let ?m = "fold (\<lambda>(k, v) m. fst (put k v m)) kvs m"
  have "lookup ?m = map_of (rev kvs)" and inv: "inv ?m" using put_all [OF assms(1)] assms(2) by simp_all
  moreover have "distinct (map fst (rev kvs))" using assms(3) by (simp add: rev_map [symmetric])
  ultimately have "(k, v) \<in> set (items ?m) \<longleftrightarrow> (k, v) \<in> set kvs" for k v
    using set_items [OF inv] by simp
  then show ?thesis by auto
qed

end

lemma map_of_bucket:
  "bucket_ok hf c i ns \<Longrightarrow>
     map_of (map (\<lambda>n. (nd_key n, nd_value n)) ns) key = map_option nd_value (find_node (hf key) key ns)"
proof (induction ns)
  case (Cons n ns)
  moreover have "bucket_ok hf c i ns" using Cons.prems by (rule bucket_ok_subset) (use Cons.prems in \<open>auto simp: bucket_ok_def\<close>)
  ultimately show ?case by (auto simp: bucket_ok_def)
qed simp

text \<open>A key is only in the bucket of its index.\<close>

lemma concat_buckets_distinct:
  assumes "\<And>i. i < length t \<Longrightarrow> bucket_ok hf c (a + i) (t ! i)"
  shows "distinct (map nd_key (concat t))"
  using assms
proof (induction t arbitrary: a)
  case (Cons b t)
  have b: "bucket_ok hf c a b" using Cons.prems [of 0] by simp
  have t: "bucket_ok hf c (Suc a + i) (t ! i)" if "i < length t" for i using Cons.prems [of "Suc i"] that by simp
  have "nd_key n \<noteq> nd_key n'" if "n \<in> set b" "n' \<in> set (concat t)" for n n'
  proof -
    obtain i where "i < length t" "n' \<in> set (t ! i)"
      using \<open>n' \<in> set (concat t)\<close> by (metis UN_E in_set_conv_nth set_concat)
    with t [of i] b \<open>n \<in> set b\<close> show ?thesis unfolding bucket_ok_def by force
  qed
  then show ?case using Cons.IH [OF t] b by (fastforce simp: bucket_ok_def)
qed simp

lemma concat_buckets_lookup:
  assumes "\<And>i. i < length t \<Longrightarrow> bucket_ok hf c (a + i) (t ! i)"
  shows "map_of (map (\<lambda>n. (nd_key n, nd_value n)) (concat t)) key =
      (if a \<le> index_in c (hf key) \<and> index_in c (hf key) < a + length t
       then map_option nd_value (find_node (hf key) key (t ! (index_in c (hf key) - a))) else None)"
  using assms
proof (induction t arbitrary: a)
  case (Cons b t)
  have b: "bucket_ok hf c a b" using Cons.prems [of 0] by simp
  have t: "bucket_ok hf c (Suc a + i) (t ! i)" if "i < length t" for i using Cons.prems [of "Suc i"] that by simp
  have none: "find_node (hf key) key b = None" if "index_in c (hf key) \<noteq> a"
    using b that unfolding bucket_ok_def find_node_None by metis
  show ?case
  proof (cases "index_in c (hf key) = a")
    case True
    then show ?thesis using map_of_bucket [OF b] Cons.IH [OF t] by (auto simp: map_add_def split: option.splits)
  next
    case False
    have "index_in c (hf key) - a = Suc (index_in c (hf key) - Suc a)" if "Suc a \<le> index_in c (hf key)"
      using that by simp
    with False show ?thesis
      using map_of_bucket [OF b] Cons.IH [OF t] none by (auto simp: map_add_def split: option.splits)
  qed
qed auto

lemma hm_items_spec:
  assumes "hm_inv hf m"
  shows "distinct (map fst (hm_items m))" and "map_of (hm_items m) = hm_get hf m"
proof -
  have ok: "bucket_ok hf (hm_capacity m) (0 + i) (hm_table m ! i)" if "i < length (hm_table m)" for i
    using assms that by (simp add: hm_inv_def)
  show "distinct (map fst (hm_items m))"
    using concat_buckets_distinct [OF ok] by (simp add: hm_items_def comp_def)
  have "index_in (hm_capacity m) (hf key) < length (hm_table m)" for key
    using hm_inv_bucket(1) [OF assms] by (simp add: index_for_def)
  then show "map_of (hm_items m) = hm_get hf m"
    using concat_buckets_lookup [OF ok] by (auto simp: hm_items_def hm_get_def get_node_def index_for_def fun_eq_iff)
qed

interpretation hash_map: map_contract "hm_inv hf" "hm_get hf" "hm_put hf" "hm_remove hf" hm_items
  for hf :: "'k \<Rightarrow> int"
  by unfold_locales (auto simp: hm_put_spec hm_remove_spec hm_items_spec fun_eq_iff)

lemma hm_new_inv: "hm_inv hf (hm_new (2 ^ k))" "hm_get hf (hm_new (2 ^ k)) = Map.empty"
proof -
  show "hm_inv hf (hm_new (2 ^ k))" by (auto simp: hm_inv_def hm_new_def bucket_ok_def)
  show "hm_get hf (hm_new (2 ^ k)) = Map.empty"
    using index_in_less [of k] by (simp add: hm_get_def get_node_def hm_new_def index_for_def fun_eq_iff)
qed

lemma hm_init_spec:
  "hm_inv hf (hm_init hf kvs (2 ^ k)) \<and> hm_get hf (hm_init hf kvs (2 ^ k)) = map_of (rev kvs)"
  using hash_map.put_all [OF hm_new_inv(1), of hf kvs k] by (simp add: hm_init_def hm_new_inv)

lemma hm_size_items: "hm_inv hf m \<Longrightarrow> hm_size m = card (dom (hm_get hf m))"
proof -
  assume inv: "hm_inv hf m"
  have "card (dom (map_of (hm_items m))) = length (hm_items m)"
    using hm_items_spec(1) [OF inv] by (metis dom_map_of_conv_image_fst length_map list.set_map distinct_card)
  then show ?thesis using inv hm_items_spec(2) [OF inv] by (simp add: hm_inv_def hm_items_def)
qed

text \<open>\<open>del m[key]\<close> on a key with the value \<open>None\<close> removes the entry and raises all the same.\<close>

lemma hm_delitem_none_value:
  assumes "hm_inv hf m" and "hm_get hf m key = Some None"
  shows "snd (hm_delitem hf key m) = Inl Key_Error \<and> hm_get hf (fst (hm_delitem hf key m)) key = None \<and>
    hm_getitem hf m key = Inr None"
proof -
  have "snd (hm_remove hf key m) = Some None" "hm_get hf (fst (hm_remove hf key m)) key = None"
    using hm_remove_spec(2,3) [OF assms(1)] assms(2) by simp_all
  then show ?thesis
    using assms(2)
    by (auto simp: hm_delitem_def hm_getitem_def hm_contains_key_def hm_get_def [of hf m] case_prod_beta)
qed

end
