(* ===== verification/P2P_Payload.thy ===== *)
theory P2P_Payload
  imports Gov_Model
begin

text \<open>
  The data of the P2P storage (\<open>bisq/core/network/p2p/storage/payload\<close>): payloads that only their
  owner may add and remove, the entries that carry them with a sequence number and a signature, and
  the rules by which an entry is valid.  A payload is a \<open>MailboxStoragePayload\<close> or one of the other
  classes, of which the storage sees the marker interfaces only (\<open>protected_payload\<close>).  Serialization,
  hash and signatures are fields of \<open>p2p_env\<close>.  An entry is mutable and shared between the map of the
  storage and the persisted maps: \<open>pse_ref\<close> is the identity of the object.
\<close>

section \<open>Payloads\<close>

datatype get_data_response_priority = LOW | MID | HIGH

type_synonym capabilities = "nat set"

definition contains_all :: "capabilities \<Rightarrow> capabilities \<Rightarrow> bool" where
  "contains_all have required_items \<longleftrightarrow> required_items \<subseteq> have"

record node_address =
  na_host_name :: string
  na_port :: int

definition get_full_address :: "node_address \<Rightarrow> string" where
  "get_full_address a = na_host_name a @ CHR '':'' # py_str (na_port a)"

definition from_full_address :: "string \<Rightarrow> node_address res" where
  "from_full_address full_address =
     (if take 1 full_address = ''[''
      then let split = py_split (CHR '']'') full_address in
           rbind (check (length split = 2) Illegal_Argument) (\<lambda>_.
           rbind (py_int (filter (\<lambda>c. c \<noteq> CHR '':'') (split ! 1))) (\<lambda>port.
           Inr \<lparr>na_host_name = drop 1 (split ! 0), na_port = port\<rparr>))
      else let split = py_split (CHR '':'') full_address in
           rbind (check (length split = 2) Illegal_Argument) (\<lambda>_.
           rbind (py_int (split ! 1)) (\<lambda>port.
           Inr \<lparr>na_host_name = split ! 0, na_port = port\<rparr>)))"

text \<open>What the storage asks of a payload that is not a mailbox message: its owner, and for each
  marker interface whether the class has it.  \<open>pp_ttl\<close> is \<open>ExpirablePayload\<close>, \<open>pp_owner_node_address\<close>
  is \<open>RequiresOwnerIsOnlinePayload\<close>, \<open>pp_required_capabilities\<close> is \<open>CapabilityRequiringPayload\<close>.\<close>

record protected_payload =
  pp_class_name :: string
  pp_content :: bytes
  pp_owner_pub_key_bytes :: bytes
  pp_ttl :: "int option"
  pp_persistable :: bool
  pp_owner_node_address :: "node_address option"
  pp_required_capabilities :: "capabilities option"
  pp_priority :: get_data_response_priority

record mailbox_storage_payload =
  msp_message :: bytes
  msp_sender_pub_key_for_add_operation_bytes :: bytes
  msp_owner_pub_key_bytes :: bytes
  msp_extra_data_map :: "extra_data option"

datatype protected_storage_payload =
    Mailbox_Payload mailbox_storage_payload
  | Other_Payload protected_payload

section \<open>Mailbox payloads\<close>

definition MAILBOX_TTL :: int where "MAILBOX_TTL = 15 * 24 * 60 * 60 * 1000"

definition EXTRA_MAP_KEY_TTL :: string where "EXTRA_MAP_KEY_TTL = ''ttl''"

definition new_mailbox_storage_payload ::
  "bytes \<Rightarrow> int option \<Rightarrow> extra_data option \<Rightarrow> bytes \<Rightarrow> bytes \<Rightarrow> mailbox_storage_payload" where
  "new_mailbox_storage_payload message ttl extra sender owner =
     \<lparr>msp_message = message,
      msp_sender_pub_key_for_add_operation_bytes = sender,
      msp_owner_pub_key_bytes = owner,
      msp_extra_data_map =
        (if ttl \<noteq> None \<and> ttl \<noteq> Some 0
         then (if the ttl < MAILBOX_TTL then Some [(EXTRA_MAP_KEY_TTL, py_str (the ttl))] else None)
         else if extra \<noteq> None \<and> extra \<noteq> Some [] then get_validated_extra_data_map extra
         else None)\<rparr>"

definition mailbox_get_ttl :: "mailbox_storage_payload \<Rightarrow> int" where
  "mailbox_get_ttl p =
     (case msp_extra_data_map p of
        None \<Rightarrow> MAILBOX_TTL
      | Some m \<Rightarrow>
          (case map_of m EXTRA_MAP_KEY_TTL of
             None \<Rightarrow> MAILBOX_TTL
           | Some v \<Rightarrow>
               (case py_int v of
                  Inl _ \<Rightarrow> MAILBOX_TTL
                | Inr ttl \<Rightarrow> if ttl < MAILBOX_TTL then ttl else MAILBOX_TTL)))"

section \<open>The interfaces of a payload\<close>

text \<open>\<open>get_ttl\<close> is \<open>None\<close> where the payload is not an \<open>ExpirablePayload\<close>.\<close>

fun get_ttl :: "protected_storage_payload \<Rightarrow> int option" where
  "get_ttl (Mailbox_Payload p) = Some (mailbox_get_ttl p)"
| "get_ttl (Other_Payload p) = pp_ttl p"

fun get_owner_pub_key_bytes :: "protected_storage_payload \<Rightarrow> bytes" where
  "get_owner_pub_key_bytes (Mailbox_Payload p) = msp_owner_pub_key_bytes p"
| "get_owner_pub_key_bytes (Other_Payload p) = pp_owner_pub_key_bytes p"

text \<open>\<open>MailboxStoragePayload\<close> is the only \<open>AddOncePayload\<close>.\<close>

fun is_add_once_payload :: "protected_storage_payload \<Rightarrow> bool" where
  "is_add_once_payload (Mailbox_Payload _) = True"
| "is_add_once_payload (Other_Payload _) = False"

fun is_persistable_payload :: "protected_storage_payload \<Rightarrow> bool" where
  "is_persistable_payload (Mailbox_Payload _) = False"
| "is_persistable_payload (Other_Payload p) = pp_persistable p"

fun get_owner_node_address :: "protected_storage_payload \<Rightarrow> node_address option" where
  "get_owner_node_address (Mailbox_Payload _) = None"
| "get_owner_node_address (Other_Payload p) = pp_owner_node_address p"

fun payload_required_capabilities :: "protected_storage_payload \<Rightarrow> capabilities option" where
  "payload_required_capabilities (Mailbox_Payload _) = None"
| "payload_required_capabilities (Other_Payload p) = pp_required_capabilities p"

fun payload_priority :: "protected_storage_payload \<Rightarrow> get_data_response_priority" where
  "payload_priority (Mailbox_Payload _) = LOW"
| "payload_priority (Other_Payload p) = pp_priority p"

section \<open>Hashes, keys and signatures\<close>

text \<open>\<open>pe_key_ok\<close>: \<open>DSA.import_key\<close> reads the bytes as a key.  \<open>pe_verify\<close> is \<open>Sig.verify\<close>, where a
  \<open>CryptoException\<close> is the answer \<open>False\<close> for its only caller here.  A private key is its bytes.
  \<open>pe_can_handle\<close> and \<open>pe_can_handle_network_payload\<close> say which of the registered store services take
  a payload; \<open>pe_filter\<close> is the predicate set by the filter manager; \<open>pe_entry_size\<close> is the
  \<open>ByteSize()\<close> of the message of a whole entry.\<close>

record persistable_network_payload =
  pnp_class_name :: string
  pnp_content :: bytes
  pnp_hash :: bytes
  pnp_size :: int
  pnp_process_once :: bool
  pnp_tolerant_date :: "int option"
  pnp_truncatable :: "(int \<times> int) option"
  pnp_required_capabilities :: "capabilities option"
  pnp_priority :: get_data_response_priority

text \<open>An entry of the base class has no key of a receiver, one of the mailbox class has.\<close>

record protected_storage_entry =
  pse_ref :: nat
  pse_payload :: protected_storage_payload
  pse_owner_pub_key_bytes :: bytes
  pse_sequence_number :: int
  pse_signature :: bytes
  pse_creation_time_stamp :: int
  pse_receivers_pub_key_bytes :: "bytes option"

record p2p_env =
  pe_sha256 :: "bytes \<Rightarrow> bytes"
  pe_serialize_for_hash :: "protected_storage_payload \<Rightarrow> bytes"
  pe_serialize_pair :: "protected_storage_payload \<Rightarrow> int \<Rightarrow> bytes"
  pe_entry_size :: "protected_storage_entry \<Rightarrow> int"
  pe_key_ok :: "bytes \<Rightarrow> bool"
  pe_verify :: "bytes \<Rightarrow> bytes \<Rightarrow> bytes \<Rightarrow> bool"
  pe_sign :: "bytes \<Rightarrow> bytes \<Rightarrow> bytes"
  pe_filter :: "(protected_storage_payload \<Rightarrow> bool) option"
  pe_can_handle :: "nat \<Rightarrow> protected_storage_payload \<Rightarrow> bool"
  pe_can_handle_network_payload :: "nat \<Rightarrow> persistable_network_payload \<Rightarrow> bool"
  pe_max_sequence_number_map_size_before_purge :: nat

definition get_32_byte_hash :: "p2p_env \<Rightarrow> protected_storage_payload \<Rightarrow> bytes" where
  "get_32_byte_hash env p = pe_sha256 env (pe_serialize_for_hash env p)"

text \<open>The pair of payload and sequence number that is signed.  The number is an \<open>int32\<close> of the
  message; protobuf raises \<open>ValueError\<close> for one out of range.\<close>

definition data_and_seq_nr_hash :: "p2p_env \<Rightarrow> protected_storage_payload \<Rightarrow> int \<Rightarrow> bytes res" where
  "data_and_seq_nr_hash env p n =
     (if - (2 ^ 31) \<le> n \<and> n < 2 ^ 31 then Inr (pe_sha256 env (pe_serialize_pair env p n))
      else Inl Value_Error)"

definition get_public_key_from_bytes :: "p2p_env \<Rightarrow> bytes \<Rightarrow> bytes res" where
  "get_public_key_from_bytes env k = (if pe_key_ok env k then Inr k else Inl Key_Conversion_Exception)"

text \<open>The hexadecimal form of a key in a log message: reading the key may raise.\<close>

definition log_public_key :: "p2p_env \<Rightarrow> bytes \<Rightarrow> unit res" where
  "log_public_key env k = rbind (get_public_key_from_bytes env k) (\<lambda>_. Inr ())"

definition storage_byte_array :: "bytes \<Rightarrow> bytes res" where
  "storage_byte_array b = (if b = [] then Inl Illegal_Argument else Inr b)"

section \<open>Entries\<close>

abbreviation is_mailbox_entry :: "protected_storage_entry \<Rightarrow> bool" where
  "is_mailbox_entry e \<equiv> pse_receivers_pub_key_bytes e \<noteq> None"

definition new_protected_storage_entry ::
  "int \<Rightarrow> nat \<Rightarrow> protected_storage_payload \<Rightarrow> int \<Rightarrow> bytes \<Rightarrow> int option \<Rightarrow> bytes \<Rightarrow> protected_storage_entry" where
  "new_protected_storage_entry now ref payload sequence_number signature creation_time_stamp owner =
     \<lparr>pse_ref = ref, pse_payload = payload, pse_owner_pub_key_bytes = owner,
      pse_sequence_number = sequence_number, pse_signature = signature,
      pse_creation_time_stamp =
        min (case creation_time_stamp of None \<Rightarrow> now | Some t \<Rightarrow> t) now,
      pse_receivers_pub_key_bytes = None\<rparr>"

definition new_protected_mailbox_storage_entry ::
  "int \<Rightarrow> nat \<Rightarrow> protected_storage_payload \<Rightarrow> int \<Rightarrow> bytes \<Rightarrow> int option \<Rightarrow> bytes \<Rightarrow> bytes
   \<Rightarrow> protected_storage_entry" where
  "new_protected_mailbox_storage_entry now ref payload sequence_number signature creation_time_stamp
     owner receiver =
     (new_protected_storage_entry now ref payload sequence_number signature
        (Some (case creation_time_stamp of None \<Rightarrow> now | Some t \<Rightarrow> t)) owner)
       \<lparr>pse_receivers_pub_key_bytes := Some receiver\<rparr>"

definition back_date :: "protected_storage_entry \<Rightarrow> protected_storage_entry" where
  "back_date e =
     (case get_ttl (pse_payload e) of
        None \<Rightarrow> e
      | Some ttl \<Rightarrow> e\<lparr>pse_creation_time_stamp := pse_creation_time_stamp e - ttl div 2\<rparr>)"

definition is_expired :: "int \<Rightarrow> protected_storage_entry \<Rightarrow> bool" where
  "is_expired now e =
     (case get_ttl (pse_payload e) of
        None \<Rightarrow> False
      | Some ttl \<Rightarrow> ttl < now - pse_creation_time_stamp e)"

definition entry_is_signature_valid :: "p2p_env \<Rightarrow> protected_storage_entry \<Rightarrow> bool res" where
  "entry_is_signature_valid env e =
     rbind (data_and_seq_nr_hash env (pse_payload e) (pse_sequence_number e)) (\<lambda>h.
     rbind (get_public_key_from_bytes env (pse_owner_pub_key_bytes e)) (\<lambda>k.
     Inr (pe_verify env k h (pse_signature e))))"

text \<open>The validity checks of the two entry classes.  Where the code logs a refusal it reads keys to
  print them, and a key it cannot read raises there.\<close>

definition entry_is_valid_for_add_operation :: "p2p_env \<Rightarrow> protected_storage_entry \<Rightarrow> bool res" where
  "entry_is_valid_for_add_operation env e =
     rbind (entry_is_signature_valid env e) (\<lambda>ok.
     if \<not> ok then Inr False
     else (case pse_payload e of
             Mailbox_Payload p \<Rightarrow>
               Inr (msp_sender_pub_key_for_add_operation_bytes p = pse_owner_pub_key_bytes e)
           | Other_Payload p \<Rightarrow>
               if pse_owner_pub_key_bytes e = pp_owner_pub_key_bytes p then Inr True
               else rbind (log_public_key env (pse_owner_pub_key_bytes e)) (\<lambda>_.
                    rbind (log_public_key env (pp_owner_pub_key_bytes p)) (\<lambda>_. Inr False))))"

definition entry_is_valid_for_remove_operation :: "p2p_env \<Rightarrow> protected_storage_entry \<Rightarrow> bool res" where
  "entry_is_valid_for_remove_operation env e =
     rbind (entry_is_valid_for_add_operation env e) (\<lambda>result.
     if result then Inr True
     else rbind (log_public_key env (pse_owner_pub_key_bytes e)) (\<lambda>_.
          rbind (log_public_key env (get_owner_pub_key_bytes (pse_payload e))) (\<lambda>_. Inr False)))"

definition get_mailbox_storage_payload :: "protected_storage_entry \<Rightarrow> mailbox_storage_payload res" where
  "get_mailbox_storage_payload e =
     (case pse_payload e of Mailbox_Payload p \<Rightarrow> Inr p | Other_Payload _ \<Rightarrow> Inl Illegal_Argument)"

definition mailbox_entry_is_valid_for_add_operation ::
  "p2p_env \<Rightarrow> protected_storage_entry \<Rightarrow> bytes \<Rightarrow> bool res" where
  "mailbox_entry_is_valid_for_add_operation env e receiver =
     rbind (entry_is_signature_valid env e) (\<lambda>ok.
     if \<not> ok then Inr False
     else rbind (get_mailbox_storage_payload e) (\<lambda>p.
          if msp_owner_pub_key_bytes p \<noteq> receiver then Inr False
          else if msp_sender_pub_key_for_add_operation_bytes p = pse_owner_pub_key_bytes e then Inr True
          else rbind (log_public_key env receiver) (\<lambda>_.
               rbind (log_public_key env (pse_owner_pub_key_bytes e)) (\<lambda>_.
               rbind (get_public_key_from_bytes env (msp_owner_pub_key_bytes p)) (\<lambda>_.
               rbind (log_public_key env (msp_sender_pub_key_for_add_operation_bytes p)) (\<lambda>_.
               Inr False))))))"

definition mailbox_entry_is_valid_for_remove_operation ::
  "p2p_env \<Rightarrow> protected_storage_entry \<Rightarrow> bytes \<Rightarrow> bool res" where
  "mailbox_entry_is_valid_for_remove_operation env e receiver =
     rbind (entry_is_signature_valid env e) (\<lambda>ok.
     if \<not> ok then Inr False
     else rbind (get_mailbox_storage_payload e) (\<lambda>p.
          if msp_owner_pub_key_bytes p \<noteq> receiver then Inr False
          else if msp_owner_pub_key_bytes p \<noteq> [] \<and> msp_owner_pub_key_bytes p = pse_owner_pub_key_bytes e
          then Inr True
          else rbind (log_public_key env receiver) (\<lambda>_.
               rbind (log_public_key env (pse_owner_pub_key_bytes e)) (\<lambda>_.
               rbind (if msp_owner_pub_key_bytes p \<noteq> [] then log_public_key env (msp_owner_pub_key_bytes p)
                      else Inr ()) (\<lambda>_. Inr False)))))"

text \<open>The dispatch on the class of the entry.\<close>

definition is_valid_for_add_operation :: "p2p_env \<Rightarrow> protected_storage_entry \<Rightarrow> bool res" where
  "is_valid_for_add_operation env e =
     (case pse_receivers_pub_key_bytes e of
        None \<Rightarrow> entry_is_valid_for_add_operation env e
      | Some r \<Rightarrow> mailbox_entry_is_valid_for_add_operation env e r)"

definition is_valid_for_remove_operation :: "p2p_env \<Rightarrow> protected_storage_entry \<Rightarrow> bool res" where
  "is_valid_for_remove_operation env e =
     (case pse_receivers_pub_key_bytes e of
        None \<Rightarrow> entry_is_valid_for_remove_operation env e
      | Some r \<Rightarrow> mailbox_entry_is_valid_for_remove_operation env e r)"

text \<open>\<open>self.matches_relevant_pub_key(stored)\<close>.\<close>

definition matches_relevant_pub_key ::
  "p2p_env \<Rightarrow> protected_storage_entry \<Rightarrow> protected_storage_entry \<Rightarrow> bool res" where
  "matches_relevant_pub_key env self stored =
     (case pse_receivers_pub_key_bytes self of
        None \<Rightarrow>
          if pse_owner_pub_key_bytes stored = pse_owner_pub_key_bytes self then Inr True
          else rbind (log_public_key env (pse_owner_pub_key_bytes stored)) (\<lambda>_.
               rbind (log_public_key env (pse_owner_pub_key_bytes self)) (\<lambda>_. Inr False))
      | Some r \<Rightarrow>
          (case pse_receivers_pub_key_bytes stored of
             None \<Rightarrow> rbind (log_public_key env (pse_owner_pub_key_bytes stored)) (\<lambda>_. Inr False)
           | Some r' \<Rightarrow>
               if r' = r then Inr True
               else rbind (log_public_key env r') (\<lambda>_.
                    rbind (log_public_key env r) (\<lambda>_. Inr False))))"

section \<open>Network payloads without owner\<close>

text \<open>The two \<open>DateTolerantPayload\<close> classes tolerate one day; every class demands a hash of 20 bytes.\<close>

definition TOLERANCE_MS :: int where "TOLERANCE_MS = 24 * 60 * 60 * 1000"

definition is_date_in_tolerance :: "int \<Rightarrow> int \<Rightarrow> bool" where
  "is_date_in_tolerance now date \<longleftrightarrow> \<bar>now - date\<bar> \<le> TOLERANCE_MS"

definition verify_hash_size :: "persistable_network_payload \<Rightarrow> bool" where
  "verify_hash_size p \<longleftrightarrow> length (pnp_hash p) = 20"

section \<open>What validity means\<close>

text \<open>The signature covers the payload and the sequence number, under the key of the entry.\<close>

definition signed_by_owner :: "p2p_env \<Rightarrow> protected_storage_entry \<Rightarrow> bool" where
  "signed_by_owner env e \<longleftrightarrow>
     - (2 ^ 31) \<le> pse_sequence_number e \<and> pse_sequence_number e < 2 ^ 31 \<and>
     pe_key_ok env (pse_owner_pub_key_bytes e) \<and>
     pe_verify env (pse_owner_pub_key_bytes e)
       (pe_sha256 env (pe_serialize_pair env (pse_payload e) (pse_sequence_number e)))
       (pse_signature e)"

lemma entry_is_signature_valid_iff: "entry_is_signature_valid env e = Inr True \<longleftrightarrow> signed_by_owner env e"
  by (auto simp: entry_is_signature_valid_def data_and_seq_nr_hash_def get_public_key_from_bytes_def
      signed_by_owner_def rbind_def)

text \<open>The key that may add: the sender of a mailbox message, the owner of any other payload.\<close>

fun add_key :: "protected_storage_payload \<Rightarrow> bytes" where
  "add_key (Mailbox_Payload p) = msp_sender_pub_key_for_add_operation_bytes p"
| "add_key (Other_Payload p) = pp_owner_pub_key_bytes p"

lemma entry_valid_for_add_iff:
  "entry_is_valid_for_add_operation env e = Inr True \<longleftrightarrow>
     entry_is_signature_valid env e = Inr True \<and> pse_owner_pub_key_bytes e = add_key (pse_payload e)"
proof (cases "entry_is_signature_valid env e")
  case (Inr ok)
  then show ?thesis
    by (cases ok; cases "pse_payload e")
      (auto simp: entry_is_valid_for_add_operation_def rbind_def split: sum.splits)
qed (simp add: entry_is_valid_for_add_operation_def)

lemma mailbox_entry_valid_for_add_iff:
  "mailbox_entry_is_valid_for_add_operation env e r = Inr True \<longleftrightarrow>
     entry_is_signature_valid env e = Inr True \<and> pse_owner_pub_key_bytes e = add_key (pse_payload e) \<and>
     (\<exists>p. pse_payload e = Mailbox_Payload p \<and> msp_owner_pub_key_bytes p = r)"
proof (cases "entry_is_signature_valid env e")
  case (Inr ok)
  then show ?thesis
    by (cases ok; cases "pse_payload e")
      (auto simp: mailbox_entry_is_valid_for_add_operation_def get_mailbox_storage_payload_def rbind_def
        split: sum.splits)
qed (simp add: mailbox_entry_is_valid_for_add_operation_def)

lemma valid_for_add_iff:
  "is_valid_for_add_operation env e = Inr True \<longleftrightarrow>
     signed_by_owner env e \<and> pse_owner_pub_key_bytes e = add_key (pse_payload e) \<and>
     (case pse_receivers_pub_key_bytes e of None \<Rightarrow> True
      | Some r \<Rightarrow> \<exists>p. pse_payload e = Mailbox_Payload p \<and> msp_owner_pub_key_bytes p = r)"
  by (cases "pse_receivers_pub_key_bytes e")
    (simp_all add: is_valid_for_add_operation_def entry_valid_for_add_iff mailbox_entry_valid_for_add_iff
      entry_is_signature_valid_iff)

lemma entry_valid_for_remove_iff:
  "entry_is_valid_for_remove_operation env e = Inr True \<longleftrightarrow>
     entry_is_valid_for_add_operation env e = Inr True"
  by (cases "entry_is_valid_for_add_operation env e")
    (auto simp: entry_is_valid_for_remove_operation_def rbind_def split: sum.splits)

lemma mailbox_entry_valid_for_remove_iff:
  "mailbox_entry_is_valid_for_remove_operation env e r = Inr True \<longleftrightarrow>
     entry_is_signature_valid env e = Inr True \<and>
     (\<exists>p. pse_payload e = Mailbox_Payload p \<and> msp_owner_pub_key_bytes p = r \<and> r \<noteq> [] \<and>
          pse_owner_pub_key_bytes e = r)"
  by (cases "entry_is_signature_valid env e"; cases "pse_payload e")
    (auto simp: mailbox_entry_is_valid_for_remove_operation_def get_mailbox_storage_payload_def rbind_def
      split: sum.splits)

lemma valid_for_remove_iff:
  "is_valid_for_remove_operation env e = Inr True \<longleftrightarrow>
     signed_by_owner env e \<and>
     (case pse_receivers_pub_key_bytes e of
        None \<Rightarrow> pse_owner_pub_key_bytes e = add_key (pse_payload e)
      | Some r \<Rightarrow> \<exists>p. pse_payload e = Mailbox_Payload p \<and> msp_owner_pub_key_bytes p = r \<and> r \<noteq> [] \<and>
                      pse_owner_pub_key_bytes e = r)"
proof (cases "pse_receivers_pub_key_bytes e")
  case None
  then show ?thesis
    using valid_for_add_iff [of env e]
    by (simp add: is_valid_for_remove_operation_def is_valid_for_add_operation_def entry_valid_for_remove_iff)
next
  case (Some r)
  then show ?thesis
    by (simp add: is_valid_for_remove_operation_def mailbox_entry_valid_for_remove_iff entry_is_signature_valid_iff)
qed

lemma matches_relevant_pub_key_iff:
  "matches_relevant_pub_key env e stored = Inr True \<longleftrightarrow>
     (case pse_receivers_pub_key_bytes e of
        None \<Rightarrow> pse_owner_pub_key_bytes stored = pse_owner_pub_key_bytes e
      | Some r \<Rightarrow> pse_receivers_pub_key_bytes stored = Some r)"
  by (auto simp: matches_relevant_pub_key_def split: option.splits if_splits)

lemma mailbox_get_ttl_le: "mailbox_get_ttl p \<le> MAILBOX_TTL"
  by (auto simp: mailbox_get_ttl_def split: option.splits sum.splits)

lemma mailbox_get_ttl_new:
  assumes "ttl \<noteq> 0"
  shows "mailbox_get_ttl (new_mailbox_storage_payload m (Some ttl) extra sender owner) = min ttl MAILBOX_TTL"
  using assms by (simp add: mailbox_get_ttl_def new_mailbox_storage_payload_def EXTRA_MAP_KEY_TTL_def)

lemma full_address_round_trip:
  assumes "CHR '':'' \<notin> set (na_host_name a)" and "take 1 (na_host_name a) \<noteq> ''[''"
    and "na_host_name a \<noteq> []"
  shows "from_full_address (get_full_address a) = Inr a"
proof -
  have s: "py_split (CHR '':'') (get_full_address a) = [na_host_name a, py_str (na_port a)]"
    using assms(1) by (simp add: get_full_address_def py_split_append py_split_none py_str_no_colon)
  have "take 1 (get_full_address a) \<noteq> ''[''"
    using assms(2,3) by (cases "na_host_name a") (simp_all add: get_full_address_def)
  then show ?thesis by (simp add: from_full_address_def s Let_def)
qed

end
