(* ===== verification/P2P_Storage.thy ===== *)
theory P2P_Storage
  imports P2P_Payload
begin

text \<open>
  The P2P data storage (\<open>bisq/core/network/p2p/storage/p2p_data_storage.py\<close>) with the stores it
  persists to (\<open>bisq/core/network/p2p/persistence\<close>).  A Python dictionary whose order is observable
  is an association list, updated in place by \<open>AList.update\<close> and appended to for a new key.  Listeners
  and the broadcaster are outside: what they are told is \<open>ds_log\<close>, in the order of the calls.
  \<open>ds_now\<close> is what the clock reads; it does not advance within one operation.  Every operation
  returns its result or exception and the state it leaves.
\<close>

section \<open>State\<close>

record refresh_offer_message =
  rom_hash_of_data_and_seq_nr :: bytes
  rom_signature :: bytes
  rom_hash_of_payload :: bytes
  rom_sequence_number :: int

datatype broadcast_message =
    Add_Data_Message protected_storage_entry
  | Remove_Data_Message protected_storage_entry
  | Remove_Mailbox_Data_Message protected_storage_entry
  | Refresh_Offer_Message refresh_offer_message
  | Add_Persistable_Network_Payload_Message persistable_network_payload

datatype storage_event =
    On_Added "protected_storage_entry list"
  | On_Removed "protected_storage_entry list"
  | On_Payload_Added persistable_network_payload
  | Broadcast broadcast_message "node_address option"

record storage_map_value =
  smv_sequence_nr :: int
  smv_time_stamp :: int

type_synonym 'a byte_map = "(bytes \<times> 'a) list"

record append_only_store =
  aos_is_historical :: bool
  aos_live :: "persistable_network_payload byte_map"
  aos_all_historical :: "persistable_network_payload byte_map"
  aos_stores_by_version :: "(string \<times> persistable_network_payload byte_map) list"

record data_storage =
  ds_now :: int
  ds_next_ref :: nat
  ds_map :: "protected_storage_entry byte_map"
  ds_sequence_number_map :: "storage_map_value byte_map"
  ds_removed_payloads :: "int byte_map"
  ds_protected_stores :: "protected_storage_entry byte_map list"
  ds_append_only_stores :: "append_only_store list"
  ds_initial_request_applied :: bool
  ds_timers :: "(protected_storage_entry \<times> node_address) list"
  ds_log :: "storage_event list"

type_synonym 'a storage_op = "data_storage \<Rightarrow> 'a res \<times> data_storage"

definition PURGE_AGE_DAYS :: int where "PURGE_AGE_DAYS = 10"

definition log_event :: "storage_event \<Rightarrow> data_storage \<Rightarrow> data_storage" where
  "log_event ev s = s\<lparr>ds_log := ds_log s @ [ev]\<rparr>"

text \<open>\<open>dict.update(other)\<close>.\<close>

definition al_update_all :: "('k \<times> 'v) list \<Rightarrow> ('k \<times> 'v) list \<Rightarrow> ('k \<times> 'v) list" where
  "al_update_all other al = fold (\<lambda>(k, v). AList.update k v) other al"

section \<open>The stores behind the map\<close>

text \<open>\<open>ProtectedDataStoreService\<close>: every service that can handle the entry takes it.\<close>

definition protected_store_put ::
  "p2p_env \<Rightarrow> bytes \<Rightarrow> protected_storage_entry \<Rightarrow> protected_storage_entry byte_map list
   \<Rightarrow> protected_storage_entry byte_map list" where
  "protected_store_put env h e stores =
     map (\<lambda>(i, m). if pe_can_handle env i (pse_payload e) then AList.update h e m else m)
       (enumerate_from 0 stores)"

definition protected_store_remove ::
  "p2p_env \<Rightarrow> bytes \<Rightarrow> protected_storage_entry \<Rightarrow> protected_storage_entry byte_map list
   \<Rightarrow> protected_storage_entry byte_map list" where
  "protected_store_remove env h e stores =
     map (\<lambda>(i, m). if pe_can_handle env i (pse_payload e) then AList.delete h m else m)
       (enumerate_from 0 stores)"

definition protected_store_get_map ::
  "protected_storage_entry byte_map list \<Rightarrow> protected_storage_entry byte_map" where
  "protected_store_get_map stores = fold al_update_all stores []"

text \<open>\<open>AppendOnlyDataStoreService\<close>: the first service that can handle the payload takes it.\<close>

definition find_service ::
  "p2p_env \<Rightarrow> persistable_network_payload \<Rightarrow> append_only_store list \<Rightarrow> nat option" where
  "find_service env p stores =
     find (\<lambda>i. pe_can_handle_network_payload env i p) [0..<length stores]"

definition get_map_of_all_data :: "append_only_store \<Rightarrow> persistable_network_payload byte_map" where
  "get_map_of_all_data st = al_update_all (aos_all_historical st) (aos_live st)"

definition append_only_get_map ::
  "p2p_env \<Rightarrow> persistable_network_payload \<Rightarrow> append_only_store list
   \<Rightarrow> persistable_network_payload byte_map" where
  "append_only_get_map env p stores =
     (case find_service env p stores of
        None \<Rightarrow> []
      | Some i \<Rightarrow>
          if aos_is_historical (stores ! i) then get_map_of_all_data (stores ! i)
          else aos_live (stores ! i))"

definition any_map_contains_key :: "append_only_store \<Rightarrow> bytes \<Rightarrow> bool" where
  "any_map_contains_key st h \<longleftrightarrow>
     map_of (aos_live st) h \<noteq> None \<or> map_of (aos_all_historical st) h \<noteq> None"

definition store_put_if_absent ::
  "bytes \<Rightarrow> persistable_network_payload \<Rightarrow> append_only_store \<Rightarrow> append_only_store" where
  "store_put_if_absent h p st =
     (if aos_is_historical st
      then (if any_map_contains_key st h then st else st\<lparr>aos_live := AList.update h p (aos_live st)\<rparr>)
      else (if map_of (aos_live st) h = None then st\<lparr>aos_live := AList.update h p (aos_live st)\<rparr> else st))"

definition append_only_put ::
  "p2p_env \<Rightarrow> bytes \<Rightarrow> persistable_network_payload \<Rightarrow> append_only_store list
   \<Rightarrow> append_only_store list \<times> bool" where
  "append_only_put env h p stores =
     (case find_service env p stores of
        None \<Rightarrow> (stores, False)
      | Some i \<Rightarrow> (stores[i := store_put_if_absent h p (stores ! i)], True))"

text \<open>\<open>RemovedPayloadsService\<close>.\<close>

definition was_removed :: "bytes \<Rightarrow> data_storage \<Rightarrow> bool" where
  "was_removed h s \<longleftrightarrow> map_of (ds_removed_payloads s) h \<noteq> None"

definition add_hash :: "bytes \<Rightarrow> data_storage \<Rightarrow> data_storage" where
  "add_hash h s =
     (if map_of (ds_removed_payloads s) h = None
      then s\<lparr>ds_removed_payloads := AList.update h (ds_now s) (ds_removed_payloads s)\<rparr> else s)"

definition removed_payloads_read_persisted :: "int byte_map \<Rightarrow> data_storage \<Rightarrow> data_storage" where
  "removed_payloads_read_persisted persisted s =
     s\<lparr>ds_removed_payloads :=
         al_update_all (filter (\<lambda>(_, date). ds_now s - MAILBOX_TTL < date) persisted)
           (ds_removed_payloads s)\<rparr>"

section \<open>Sequence numbers\<close>

definition has_sequence_nr_increased :: "int \<Rightarrow> bytes \<Rightarrow> data_storage \<Rightarrow> bool" where
  "has_sequence_nr_increased new_sequence_number h s =
     (case map_of (ds_sequence_number_map s) h of
        Some v \<Rightarrow> smv_sequence_nr v < new_sequence_number
      | None \<Rightarrow> True)"

definition record_sequence_number :: "bytes \<Rightarrow> int \<Rightarrow> data_storage \<Rightarrow> data_storage" where
  "record_sequence_number h n s =
     s\<lparr>ds_sequence_number_map :=
         AList.update h \<lparr>smv_sequence_nr = n, smv_time_stamp = ds_now s\<rparr> (ds_sequence_number_map s)\<rparr>"

definition get_purged_sequence_number_map ::
  "int \<Rightarrow> storage_map_value byte_map \<Rightarrow> storage_map_value byte_map" where
  "get_purged_sequence_number_map now persisted =
     (let max_age_ts = now - PURGE_AGE_DAYS * (24 * 60 * 60 * 1000)
      in filter (\<lambda>(_, v). max_age_ts < smv_time_stamp v) persisted)"

section \<open>Start-up\<close>

definition read_persisted :: "storage_map_value byte_map \<Rightarrow> data_storage \<Rightarrow> data_storage" where
  "read_persisted persisted s =
     s\<lparr>ds_sequence_number_map := get_purged_sequence_number_map (ds_now s) persisted\<rparr>"

definition read_from_resources :: "data_storage \<Rightarrow> data_storage" where
  "read_from_resources s =
     s\<lparr>ds_map := al_update_all (protected_store_get_map (ds_protected_stores s)) (ds_map s)\<rparr>"

definition add_protected_mailbox_storage_entry_to_map ::
  "p2p_env \<Rightarrow> protected_storage_entry \<Rightarrow> unit storage_op" where
  "add_protected_mailbox_storage_entry_to_map env e s =
     (case storage_byte_array (get_32_byte_hash env (pse_payload e)) of
        Inl err \<Rightarrow> (Inl err, s)
      | Inr h \<Rightarrow> (Inr (), s\<lparr>ds_map := AList.update h e (ds_map s)\<rparr>))"

section \<open>Adding an entry\<close>

definition has_already_removed_add_once_payload ::
  "protected_storage_payload \<Rightarrow> bytes \<Rightarrow> data_storage \<Rightarrow> bool" where
  "has_already_removed_add_once_payload p h s \<longleftrightarrow> is_add_once_payload p \<and> was_removed h s"

text \<open>The checks of \<open>add_protected_storage_entry\<close> in their order; each refusal returns \<open>False\<close>.\<close>

definition accepts_add :: "p2p_env \<Rightarrow> protected_storage_entry \<Rightarrow> bytes \<Rightarrow> data_storage \<Rightarrow> bool res" where
  "accepts_add env e h s =
     (let stored_entry = map_of (ds_map s) h in
      if stored_entry \<noteq> None \<and> \<not> has_sequence_nr_increased (pse_sequence_number e) h s then Inr False
      else if has_already_removed_add_once_payload (pse_payload e) h s then Inr False
      else if is_expired (ds_now s) e then Inr False
      else if (case map_of (ds_sequence_number_map s) h of
                 None \<Rightarrow> False | Some v \<Rightarrow> pse_sequence_number e < smv_sequence_nr v) then Inr False
      else
        rbind (is_valid_for_add_operation env e) (\<lambda>valid.
        if \<not> valid then Inr False
        else
          rbind (case stored_entry of
                   None \<Rightarrow> Inr True
                 | Some stored \<Rightarrow> matches_relevant_pub_key env e stored) (\<lambda>matches.
          if \<not> matches then Inr False
          else Inr (case pe_filter env of None \<Rightarrow> True | Some f \<Rightarrow> f (pse_payload e)))))"

definition store_entry :: "p2p_env \<Rightarrow> protected_storage_entry \<Rightarrow> bytes \<Rightarrow> data_storage \<Rightarrow> data_storage" where
  "store_entry env e h s =
     (if is_persistable_payload (pse_payload e)
      then s\<lparr>ds_protected_stores := protected_store_put env h e (ds_protected_stores s)\<rparr> else s)"

definition apply_add ::
  "p2p_env \<Rightarrow> protected_storage_entry \<Rightarrow> bytes \<Rightarrow> node_address option \<Rightarrow> bool
   \<Rightarrow> data_storage \<Rightarrow> data_storage" where
  "apply_add env e h sender allow_broadcast s =
     (let s1 = log_event (On_Added [e]) (s\<lparr>ds_map := AList.update h e (ds_map s)\<rparr>);
          s2 = record_sequence_number h (pse_sequence_number e) s1;
          s3 = (if allow_broadcast then log_event (Broadcast (Add_Data_Message e) sender) s2 else s2)
      in store_entry env e h s3)"

definition add_protected_storage_entry ::
  "p2p_env \<Rightarrow> protected_storage_entry \<Rightarrow> node_address option \<Rightarrow> bool \<Rightarrow> bool storage_op" where
  "add_protected_storage_entry env e sender allow_broadcast s =
     (case rbind (storage_byte_array (get_32_byte_hash env (pse_payload e))) (\<lambda>h.
           rbind (accepts_add env e h s) (\<lambda>ok. Inr (h, ok))) of
        Inl err \<Rightarrow> (Inl err, s)
      | Inr (h, ok) \<Rightarrow>
          if ok then (Inr True, apply_add env e h sender allow_broadcast s) else (Inr False, s))"

definition republish_existing_protected_mailbox_storage_entry ::
  "p2p_env \<Rightarrow> protected_storage_entry \<Rightarrow> node_address option \<Rightarrow> unit storage_op" where
  "republish_existing_protected_mailbox_storage_entry env e sender s =
     (case storage_byte_array (get_32_byte_hash env (pse_payload e)) of
        Inl err \<Rightarrow> (Inl err, s)
      | Inr h \<Rightarrow>
          (Inr (), if has_already_removed_add_once_payload (pse_payload e) h s then s
                   else log_event (Broadcast (Add_Data_Message e) sender) s))"

section \<open>Refreshing an entry\<close>

definition refreshed_entry ::
  "refresh_offer_message \<Rightarrow> protected_storage_entry \<Rightarrow> data_storage \<Rightarrow> protected_storage_entry" where
  "refreshed_entry m stored s =
     new_protected_storage_entry (ds_now s) (ds_next_ref s) (pse_payload stored)
       (rom_sequence_number m) (rom_signature m) None (pse_owner_pub_key_bytes stored)"

text \<open>An exception of the body is caught: the result is \<open>False\<close>, and nothing has been changed before the
  last check.\<close>

definition refresh_ttl ::
  "p2p_env \<Rightarrow> refresh_offer_message \<Rightarrow> node_address option \<Rightarrow> bool storage_op" where
  "refresh_ttl env m sender s =
     (case storage_byte_array (rom_hash_of_payload m) of
        Inl _ \<Rightarrow> (Inr False, s)
      | Inr h \<Rightarrow>
          (case map_of (ds_map s) h of
             None \<Rightarrow> (Inr False, s)
           | Some stored \<Rightarrow>
               let updated = refreshed_entry m stored s in
               if \<not> has_sequence_nr_increased (pse_sequence_number updated) h s then (Inr False, s)
               else if is_valid_for_add_operation env updated \<noteq> Inr True then (Inr False, s)
               else
                 let s1 = s\<lparr>ds_map := AList.update h updated (ds_map s), ds_next_ref := ds_next_ref s + 1\<rparr>;
                     s2 = record_sequence_number h (pse_sequence_number updated) s1
                 in (Inr True, log_event (Broadcast (Refresh_Offer_Message m) sender) s2)))"

section \<open>Removing entries\<close>

definition remove_one ::
  "p2p_env \<Rightarrow> bytes \<times> protected_storage_entry \<Rightarrow> data_storage \<Rightarrow> data_storage" where
  "remove_one env he s =
     s\<lparr>ds_map := AList.delete (fst he) (ds_map s),
       ds_protected_stores :=
         (if is_persistable_payload (pse_payload (snd he))
          then protected_store_remove env (fst he) (snd he) (ds_protected_stores s)
          else ds_protected_stores s)\<rparr>"

definition remove_from_map_and_data_store ::
  "p2p_env \<Rightarrow> (bytes \<times> protected_storage_entry) list \<Rightarrow> data_storage \<Rightarrow> data_storage" where
  "remove_from_map_and_data_store env entries s =
     (if entries = [] then s
      else log_event (On_Removed (map snd entries)) (fold (remove_one env) entries s))"

definition accepts_remove :: "p2p_env \<Rightarrow> protected_storage_entry \<Rightarrow> bytes \<Rightarrow> data_storage \<Rightarrow> bool res" where
  "accepts_remove env e h s =
     (if \<not> has_sequence_nr_increased (pse_sequence_number e) h s then Inr False
      else
        rbind (is_valid_for_remove_operation env e) (\<lambda>valid.
        if \<not> valid then Inr False
        else (case map_of (ds_map s) h of
                None \<Rightarrow> Inr True
              | Some stored \<Rightarrow> matches_relevant_pub_key env e stored)))"

definition apply_remove ::
  "p2p_env \<Rightarrow> protected_storage_entry \<Rightarrow> bytes \<Rightarrow> node_address option \<Rightarrow> data_storage \<Rightarrow> data_storage" where
  "apply_remove env e h sender s =
     (let s1 = record_sequence_number h (pse_sequence_number e) s;
          s2 = (if is_add_once_payload (pse_payload e) then add_hash h s1 else s1);
          s3 = (if map_of (ds_map s) h \<noteq> None then remove_from_map_and_data_store env [(h, e)] s2 else s2)
      in log_event
           (Broadcast (if is_mailbox_entry e then Remove_Mailbox_Data_Message e else Remove_Data_Message e)
              sender) s3)"

definition remove_protected_storage_entry ::
  "p2p_env \<Rightarrow> protected_storage_entry \<Rightarrow> node_address option \<Rightarrow> bool storage_op" where
  "remove_protected_storage_entry env e sender s =
     (case rbind (storage_byte_array (get_32_byte_hash env (pse_payload e))) (\<lambda>h.
           rbind (accepts_remove env e h s) (\<lambda>ok. Inr (h, ok))) of
        Inl err \<Rightarrow> (Inl err, s)
      | Inr (h, ok) \<Rightarrow> if ok then (Inr True, apply_remove env e h sender s) else (Inr False, s))"

definition remove_expired_entries :: "p2p_env \<Rightarrow> data_storage \<Rightarrow> data_storage" where
  "remove_expired_entries env s =
     (let to_remove_list = filter (\<lambda>(_, e). is_expired (ds_now s) e) (ds_map s);
          s1 = remove_from_map_and_data_store env to_remove_list s
      in if pe_max_sequence_number_map_size_before_purge env < length (ds_sequence_number_map s1)
         then s1\<lparr>ds_sequence_number_map :=
                   get_purged_sequence_number_map (ds_now s1) (ds_sequence_number_map s1)\<rparr>
         else s1)"

section \<open>Append-only payloads\<close>

definition add_persistable_network_payload_internal ::
  "p2p_env \<Rightarrow> persistable_network_payload \<Rightarrow> node_address option \<Rightarrow> bool \<Rightarrow> bool \<Rightarrow> bool
   \<Rightarrow> bool storage_op" where
  "add_persistable_network_payload_internal env p sender allow_broadcast re_broadcast check_date s =
     (if \<not> verify_hash_size p then (Inr False, s)
      else
        (case storage_byte_array (pnp_hash p) of
           Inl err \<Rightarrow> (Inl err, s)
         | Inr h \<Rightarrow>
             let already = map_of (append_only_get_map env p (ds_append_only_stores s)) h \<noteq> None in
             if already \<and> \<not> re_broadcast then (Inr False, s)
             else if check_date \<and> (case pnp_tolerant_date p of
                                     None \<Rightarrow> False | Some d \<Rightarrow> \<not> is_date_in_tolerance (ds_now s) d)
             then (Inr False, s)
             else
               let (stores, put) = append_only_put env h p (ds_append_only_stores s);
                   was_added = (\<not> already \<and> put);
                   s1 = (if was_added
                         then log_event (On_Payload_Added p) (s\<lparr>ds_append_only_stores := stores\<rparr>) else s);
                   s2 = (if allow_broadcast \<and> was_added
                         then log_event (Broadcast (Add_Persistable_Network_Payload_Message p) sender) s1
                         else s1)
               in (Inr True, s2)))"

definition add_persistable_network_payload ::
  "p2p_env \<Rightarrow> persistable_network_payload \<Rightarrow> node_address option \<Rightarrow> bool \<Rightarrow> bool storage_op" where
  "add_persistable_network_payload env p sender allow_re_broadcast =
     add_persistable_network_payload_internal env p sender True allow_re_broadcast False"

definition add_persistable_network_payload_from_initial_request ::
  "p2p_env \<Rightarrow> persistable_network_payload \<Rightarrow> unit storage_op" where
  "add_persistable_network_payload_from_initial_request env p s =
     (if verify_hash_size p
      then (case storage_byte_array (pnp_hash p) of
              Inl err \<Rightarrow> (Inl err, s)
            | Inr h \<Rightarrow>
                (Inr (), s\<lparr>ds_append_only_stores := fst (append_only_put env h p (ds_append_only_stores s))\<rparr>))
      else (Inr (), s))"

section \<open>Messages and connections\<close>

text \<open>\<open>None\<close> is an envelope of another kind; \<open>peer\<close> is \<open>connection.peers_node_address\<close>.\<close>

definition on_message ::
  "p2p_env \<Rightarrow> broadcast_message option \<Rightarrow> node_address option \<Rightarrow> unit storage_op" where
  "on_message env envelope peer s =
     (let ignore_result = (\<lambda>(r, t). (map_sum id (\<lambda>_. ()) r, t)) in
      case envelope of
        None \<Rightarrow> (Inr (), s)
      | Some m \<Rightarrow>
          if peer = None then (Inr (), s)
          else (case m of
             Add_Data_Message e \<Rightarrow> ignore_result (add_protected_storage_entry env e peer True s)
           | Remove_Data_Message e \<Rightarrow> ignore_result (remove_protected_storage_entry env e peer s)
           | Remove_Mailbox_Data_Message e \<Rightarrow> ignore_result (remove_protected_storage_entry env e peer s)
           | Refresh_Offer_Message rm \<Rightarrow> ignore_result (refresh_ttl env rm peer s)
           | Add_Persistable_Network_Payload_Message p \<Rightarrow>
               ignore_result (add_persistable_network_payload_internal env p peer True False True s)))"

datatype close_connection_reason =
    SOCKET_CLOSED | RESET | SOCKET_TIMEOUT | TERMINATED | CORRUPTED_DATA | NO_PROTO_BUFFER_DATA
  | NO_PROTO_BUFFER_ENV | UNKNOWN_EXCEPTION | APP_SHUT_DOWN | CLOSE_REQUESTED_BY_PEER
  | SEND_MSG_FAILURE | SEND_MSG_TIMEOUT | TOO_MANY_CONNECTIONS_OPEN | TOO_MANY_SEED_NODES_CONNECTED
  | UNKNOWN_PEER_ADDRESS | RULE_VIOLATION | PEER_BANNED | INVALID_CLASS_RECEIVED
  | MANDATORY_CAPABILITIES_NOT_SUPPORTED

definition is_intended :: "close_connection_reason \<Rightarrow> bool" where
  "is_intended r \<longleftrightarrow>
     r \<in> {APP_SHUT_DOWN, CLOSE_REQUESTED_BY_PEER, TOO_MANY_CONNECTIONS_OPEN,
          TOO_MANY_SEED_NODES_CONNECTED, UNKNOWN_PEER_ADDRESS}"

text \<open>A change of one entry object is seen wherever the object is stored.\<close>

definition update_object ::
  "nat \<Rightarrow> (protected_storage_entry \<Rightarrow> protected_storage_entry) \<Rightarrow> data_storage \<Rightarrow> data_storage" where
  "update_object ref f s =
     (let upd = map (\<lambda>(h, e). (h, if pse_ref e = ref then f e else e))
      in s\<lparr>ds_map := upd (ds_map s), ds_protected_stores := map upd (ds_protected_stores s)\<rparr>)"

definition on_disconnect ::
  "close_connection_reason \<Rightarrow> node_address option \<Rightarrow> data_storage \<Rightarrow> data_storage" where
  "on_disconnect reason peer s =
     (if is_intended reason then s
      else if peer = None then s
      else
        fold (\<lambda>e t. if get_owner_node_address (pse_payload e) = peer
                    then update_object (pse_ref e) back_date t else t)
          (map snd (ds_map s)) s)"

section \<open>Own entries\<close>

definition next_sequence_number :: "bytes \<Rightarrow> data_storage \<Rightarrow> int" where
  "next_sequence_number h s =
     (case map_of (ds_sequence_number_map s) h of Some v \<Rightarrow> smv_sequence_nr v + 1 | None \<Rightarrow> 1)"

text \<open>A key pair is the private key and the bytes of the public key.\<close>

definition sign_pair ::
  "p2p_env \<Rightarrow> protected_storage_payload \<Rightarrow> bytes \<times> bytes \<Rightarrow> data_storage \<Rightarrow> (bytes \<times> int \<times> bytes \<times> bytes) res" where
  "sign_pair env p key s =
     rbind (storage_byte_array (get_32_byte_hash env p)) (\<lambda>h.
     let n = next_sequence_number h s in
     rbind (data_and_seq_nr_hash env p n) (\<lambda>pair_hash.
     Inr (h, n, pair_hash, pe_sign env (fst key) pair_hash)))"

definition get_protected_storage_entry ::
  "p2p_env \<Rightarrow> protected_storage_payload \<Rightarrow> bytes \<times> bytes \<Rightarrow> protected_storage_entry storage_op" where
  "get_protected_storage_entry env p key s =
     (case sign_pair env p key s of
        Inl err \<Rightarrow> (Inl err, s)
      | Inr (h, n, pair_hash, sig) \<Rightarrow>
          (Inr (new_protected_storage_entry (ds_now s) (ds_next_ref s) p n sig None (snd key)),
           s\<lparr>ds_next_ref := ds_next_ref s + 1\<rparr>))"

definition get_refresh_ttl_message ::
  "p2p_env \<Rightarrow> protected_storage_payload \<Rightarrow> bytes \<times> bytes \<Rightarrow> data_storage \<Rightarrow> refresh_offer_message res" where
  "get_refresh_ttl_message env p key s =
     rbind (sign_pair env p key s) (\<lambda>(h, n, pair_hash, sig).
     Inr \<lparr>rom_hash_of_data_and_seq_nr = pair_hash, rom_signature = sig, rom_hash_of_payload = h,
          rom_sequence_number = n\<rparr>)"

definition get_mailbox_data_with_signed_seq_nr ::
  "p2p_env \<Rightarrow> mailbox_storage_payload \<Rightarrow> bytes \<times> bytes \<Rightarrow> bytes \<Rightarrow> protected_storage_entry storage_op" where
  "get_mailbox_data_with_signed_seq_nr env p key receiver s =
     (case sign_pair env (Mailbox_Payload p) key s of
        Inl err \<Rightarrow> (Inl err, s)
      | Inr (h, n, pair_hash, sig) \<Rightarrow>
          (Inr (new_protected_mailbox_storage_entry (ds_now s) (ds_next_ref s) (Mailbox_Payload p) n sig
                  None (snd key) receiver),
           s\<lparr>ds_next_ref := ds_next_ref s + 1\<rparr>))"

end
