(* ===== verification/P2P_Get_Data.thy ===== *)
theory P2P_Get_Data
  imports P2P_Storage
begin

text \<open>
  The exchange of data at start-up: the keys a node sends to be excluded, the response a node builds
  from them and truncates to a permitted size (\<open>p2p_data_storage.py\<close>), the versions of the historical
  stores (\<open>bisq/common/version.py\<close>, \<open>historical_data_store_service.py\<close>), and what a node does with a
  response.  A set of the message is a list here, in the order in which Python iterates it.
\<close>

section \<open>Versions\<close>

definition get_sub_version :: "string \<Rightarrow> nat \<Rightarrow> int res" where
  "get_sub_version version index =
     (let split = py_split (CHR ''.'') version in
      rbind (check (length split = 3) Illegal_Argument) (\<lambda>_. py_int (split ! index)))"

definition is_new_version :: "string \<Rightarrow> string \<Rightarrow> bool res" where
  "is_new_version new_version current_version =
     (if new_version = current_version then Inr False
      else
        rbind (get_sub_version new_version 0) (\<lambda>new_major.
        rbind (get_sub_version current_version 0) (\<lambda>current_major.
        if current_major < new_major then Inr True
        else if new_major < current_major then Inr False
        else
          rbind (get_sub_version new_version 1) (\<lambda>new_minor.
          rbind (get_sub_version current_version 1) (\<lambda>current_minor.
          if current_minor < new_minor then Inr True
          else if new_minor < current_minor then Inr False
          else
            rbind (get_sub_version new_version 2) (\<lambda>new_patch.
            rbind (get_sub_version current_version 2) (\<lambda>current_patch.
            Inr (current_patch < new_patch))))))))"

section \<open>Messages\<close>

record get_data_request =
  gdr_nonce :: int
  gdr_excluded_keys :: "bytes list"
  gdr_version :: "string option"
  gdr_sender_node_address :: "node_address option" \<comment> \<open>\<open>Some\<close> for a \<open>GetUpdatedDataRequest\<close>\<close>

record get_data_response =
  gds_data_set :: "protected_storage_entry list"
  gds_persistable_network_payload_set :: "persistable_network_payload list"
  gds_request_nonce :: int
  gds_is_get_updated_data_response :: bool
  gds_was_truncated :: bool

section \<open>Requests\<close>

text \<open>The live data of every store, later services overwriting earlier ones.\<close>

definition get_map_for_data_request :: "data_storage \<Rightarrow> persistable_network_payload byte_map" where
  "get_map_for_data_request s = fold (\<lambda>st. al_update_all (aos_live st)) (ds_append_only_stores s) []"

definition get_known_payload_hashes :: "data_storage \<Rightarrow> bytes set" where
  "get_known_payload_hashes s = set (map fst (get_map_for_data_request s)) \<union> set (map fst (ds_map s))"

definition build_preliminary_get_data_request ::
  "int \<Rightarrow> string \<Rightarrow> (bytes set \<Rightarrow> bytes list) \<Rightarrow> data_storage \<Rightarrow> get_data_request" where
  "build_preliminary_get_data_request nonce version set_order s =
     \<lparr>gdr_nonce = nonce, gdr_excluded_keys = set_order (get_known_payload_hashes s),
      gdr_version = Some version, gdr_sender_node_address = None\<rparr>"

definition build_get_updated_data_request ::
  "node_address \<Rightarrow> int \<Rightarrow> string \<Rightarrow> (bytes set \<Rightarrow> bytes list) \<Rightarrow> data_storage \<Rightarrow> get_data_request" where
  "build_get_updated_data_request sender nonce version set_order s =
     \<lparr>gdr_nonce = nonce, gdr_excluded_keys = set_order (get_known_payload_hashes s),
      gdr_version = Some version, gdr_sender_node_address = Some sender\<rparr>"

section \<open>Responses\<close>

definition get_map_since_version ::
  "string option \<Rightarrow> append_only_store \<Rightarrow> persistable_network_payload byte_map res" where
  "get_map_since_version requesters_version st =
     fold_res (\<lambda>(store_version, m) result.
       case requesters_version of
         None \<Rightarrow> Inr (al_update_all m result)
       | Some v \<Rightarrow>
           rbind (is_new_version store_version v) (\<lambda>new.
           Inr (if new then al_update_all m result else result)))
       (aos_stores_by_version st) (aos_live st)"

definition get_map_for_data_response ::
  "string option \<Rightarrow> data_storage \<Rightarrow> persistable_network_payload byte_map res" where
  "get_map_for_data_response requesters_version s =
     fold_res (\<lambda>st result.
       rbind (if aos_is_historical st then get_map_since_version requesters_version st
              else Inr (aos_live st)) (\<lambda>m. Inr (al_update_all m result)))
       (ds_append_only_stores s) []"

definition should_transmit_payload_to_peer :: "capabilities \<Rightarrow> capabilities option \<Rightarrow> bool" where
  "should_transmit_payload_to_peer peer_capabilities required =
     (case required of None \<Rightarrow> True | Some r \<Rightarrow> contains_all peer_capabilities r)"

text \<open>The running total of \<open>check_size_limit\<close>: its state is the size added so far and whether the limit
  has been exceeded, after which every item is refused.\<close>

fun take_within_limit :: "('a \<Rightarrow> int) \<Rightarrow> int \<Rightarrow> 'a list \<Rightarrow> int \<times> bool \<Rightarrow> 'a list \<times> int \<times> bool" where
  "take_within_limit sz limit [] (total_size, exceeded) = ([], total_size, exceeded)"
| "take_within_limit sz limit (x # xs) (total_size, exceeded) =
     (if exceeded then take_within_limit sz limit xs (total_size, exceeded)
      else if limit < total_size + sz x
      then take_within_limit sz limit xs (total_size + sz x, True)
      else let (ys, r) = take_within_limit sz limit xs (total_size + sz x, False) in (x # ys, r))"

text \<open>What the filter asks of an item of either kind; \<open>iv_truncatable\<close> is the date and the maximal
  number of a \<open>DateSortedTruncatablePayload\<close>.\<close>

record 'a item_view =
  iv_priority :: "'a \<Rightarrow> get_data_response_priority"
  iv_size :: "'a \<Rightarrow> int"
  iv_truncatable :: "'a \<Rightarrow> (int \<times> int) option"
  iv_required_capabilities :: "'a \<Rightarrow> capabilities option"

definition date_of :: "'a item_view \<Rightarrow> 'a \<Rightarrow> int" where
  "date_of v x = fst (the (iv_truncatable v x))"

text \<open>The oldest items beyond \<open>max_items\<close> are dropped, then the newest come first; both sorts are
  stable.  \<open>max_items\<close> is asked of the oldest item.\<close>

definition truncate_by_date :: "'a item_view \<Rightarrow> 'a list \<Rightarrow> 'a list \<times> bool" where
  "truncate_by_date v items =
     (if items = [] then ([], False)
      else
        let sorted_items = sort_key (date_of v) items;
            max_items = snd (the (iv_truncatable v (hd sorted_items)));
            n_items = int (length sorted_items)
        in if max_items < n_items
           then (drop (nat (n_items - max_items)) sorted_items, True)
           else (sorted_items, False))"

definition filter_known_hashes ::
  "'a item_view \<Rightarrow> 'a byte_map \<Rightarrow> bytes set \<Rightarrow> capabilities \<Rightarrow> nat \<Rightarrow> int \<Rightarrow> bool
   \<Rightarrow> 'a set \<times> bool" where
  "filter_known_hashes v to_filter known_hashes peer_capabilities max_entries limit out_truncated =
     (let filtered_items =
            map snd (filter (\<lambda>(key, item). key \<notin> known_hashes \<and>
              should_transmit_payload_to_peer peer_capabilities (iv_required_capabilities v item)) to_filter);
          mid_prio_items = filter (\<lambda>x. iv_priority v x = MID) filtered_items;
          low = filter (\<lambda>x. iv_priority v x = LOW) filtered_items;
          (low_prio_items, total_size, exceeded) =
            take_within_limit (iv_size v) limit (filter (\<lambda>x. iv_truncatable v x = None) low) (0, False);
          (date_sorted_items, exceeded2, truncated1) =
            (if exceeded then ([], True, out_truncated)
             else
               let (items, _, exceeded') =
                     take_within_limit (iv_size v) limit
                       (filter (\<lambda>x. iv_truncatable v x \<noteq> None) low) (total_size, False);
                   (kept, dropped) = truncate_by_date v items
               in (sort_key (\<lambda>x. - date_of v x) kept, exceeded', out_truncated \<or> dropped));
          result_items = mid_prio_items @ low_prio_items @ date_sorted_items;
          truncated2 = (truncated1 \<or> max_entries < length result_items);
          high_prio_items = filter (\<lambda>x. iv_priority v x = HIGH) filtered_items
      in (set (take max_entries result_items @ high_prio_items), truncated2 \<or> exceeded2))"

definition network_payload_view :: "persistable_network_payload item_view" where
  "network_payload_view =
     \<lparr>iv_priority = pnp_priority, iv_size = pnp_size, iv_truncatable = pnp_truncatable,
      iv_required_capabilities = pnp_required_capabilities\<rparr>"

text \<open>No \<open>ProtectedStoragePayload\<close> is a \<open>DateSortedTruncatablePayload\<close>.\<close>

definition entry_view :: "p2p_env \<Rightarrow> protected_storage_entry item_view" where
  "entry_view env =
     \<lparr>iv_priority = \<lambda>e. payload_priority (pse_payload e),
      iv_size = pe_entry_size env,
      iv_truncatable = \<lambda>e. None,
      iv_required_capabilities = \<lambda>e. payload_required_capabilities (pse_payload e)\<rparr>"

text \<open>\<open>round(MAX_PERMITTED_MESSAGE_SIZE * 0.6 * 0.25)\<close> and \<open>* 0.75\<close>, for 10 * 1024 * 1024 bytes.\<close>

definition PAYLOAD_LIMIT :: int where "PAYLOAD_LIMIT = 1572864"
definition ENTRY_LIMIT :: int where "ENTRY_LIMIT = 4718592"

definition build_get_data_response ::
  "p2p_env \<Rightarrow> get_data_request \<Rightarrow> nat \<Rightarrow> capabilities \<Rightarrow> data_storage
   \<Rightarrow> (protected_storage_entry set \<times> persistable_network_payload set \<times> int \<times> bool \<times> bool) res" where
  "build_get_data_response env request max_entries peer_capabilities s =
     rbind (fold_res (\<lambda>k ks. rbind (storage_byte_array k) (\<lambda>b. Inr (insert b ks)))
              (gdr_excluded_keys request) {}) (\<lambda>excluded.
     rbind (get_map_for_data_response (gdr_version request) s) (\<lambda>payload_map.
     let (payloads, t1) =
           filter_known_hashes network_payload_view payload_map excluded peer_capabilities max_entries
             PAYLOAD_LIMIT False;
         (entries, t2) =
           filter_known_hashes (entry_view env) (ds_map s) excluded peer_capabilities max_entries
             ENTRY_LIMIT False
     in Inr (entries, payloads, gdr_nonce request, gdr_sender_node_address request \<noteq> None, t1 \<or> t2)))"

section \<open>Processing a response\<close>

text \<open>The loop over the entries.  \<open>cur\<close> is the loop variable, which the closures \<open>rebroadcast\<close> share, and
  \<open>n\<close> the number of timers started so far.\<close>

fun process_entries ::
  "p2p_env \<Rightarrow> node_address \<Rightarrow> protected_storage_entry list \<Rightarrow> protected_storage_entry option \<Rightarrow> nat
   \<Rightarrow> data_storage \<Rightarrow> unit res \<times> protected_storage_entry option \<times> nat \<times> data_storage" where
  "process_entries env sender [] cur n s = (Inr (), cur, n, s)"
| "process_entries env sender (e # es) cur n s =
     (let n' = (if payload_priority (pse_payload e) = HIGH then n + 1 else n) in
      case add_protected_storage_entry env e (Some sender) False s of
        (Inl err, t) \<Rightarrow> (Inl err, Some e, n', t)
      | (Inr _, t) \<Rightarrow> process_entries env sender es (Some e) n' t)"

definition process_network_payload ::
  "p2p_env \<Rightarrow> bool \<Rightarrow> node_address \<Rightarrow> persistable_network_payload \<Rightarrow> unit storage_op" where
  "process_network_payload env was_truncated sender p s =
     (if pnp_process_once p
      then (if \<not> ds_initial_request_applied s \<or> was_truncated
            then add_persistable_network_payload_from_initial_request env p s
            else (Inr (), s))
      else
        (case add_persistable_network_payload_internal env p (Some sender) False False False s of
           (r, t) \<Rightarrow> (map_sum id (\<lambda>_. ()) r, t)))"

text \<open>When the timers fire the loop has ended, so that each of them broadcasts the last value of the loop
  variable.\<close>

definition process_get_data_response ::
  "p2p_env \<Rightarrow> get_data_response \<Rightarrow> node_address \<Rightarrow> unit storage_op" where
  "process_get_data_response env response sender s =
     (case process_entries env sender (gds_data_set response) None 0 s of
        (r, cur, n, t) \<Rightarrow>
          (let t1 = (case cur of
                       None \<Rightarrow> t
                     | Some e \<Rightarrow> t\<lparr>ds_timers := ds_timers t @ replicate n (e, sender)\<rparr>) in
           case r of
             Inl err \<Rightarrow> (Inl err, t1)
           | Inr _ \<Rightarrow>
               (case for_each (process_network_payload env (gds_was_truncated response) sender)
                       (gds_persistable_network_payload_set response) t1 of
                  (Inl err, u) \<Rightarrow> (Inl err, u)
                | (Inr _, u) \<Rightarrow> (Inr (), u\<lparr>ds_initial_request_applied := True\<rparr>))))"

definition fire_rebroadcast :: "data_storage \<Rightarrow> data_storage" where
  "fire_rebroadcast s =
     (case ds_timers s of
        [] \<Rightarrow> s
      | (e, sender) # ts \<Rightarrow>
          log_event (Broadcast (Add_Data_Message e) (Some sender)) (s\<lparr>ds_timers := ts\<rparr>))"

section \<open>Facts on the filter\<close>

lemma take_within_limit_subset:
  "take_within_limit sz limit xs st = (ys, r) \<Longrightarrow> set ys \<subseteq> set xs"
  by (induction sz limit xs st arbitrary: ys r rule: take_within_limit.induct)
    (auto split: if_splits prod.splits)

text \<open>The flag is raised exactly when an item was refused.\<close>

lemma take_within_limit_exceeded [simp]:
  "take_within_limit sz limit xs (n, True) = ([], n, True)"
  by (induction xs) simp_all

lemma take_within_limit_all:
  "take_within_limit sz limit xs (n, False) = (ys, m, False) \<Longrightarrow> ys = xs"
  by (induction xs arbitrary: n ys m) (auto split: if_splits prod.splits)

lemma take_within_limit_sum:
  assumes "take_within_limit sz limit xs (n, False) = (ys, m, b)" and "n \<le> limit"
  shows "n + (\<Sum>x\<leftarrow>ys. sz x) \<le> limit"
  using assms
proof (induction xs arbitrary: n ys m b)
  case (Cons x xs)
  show ?case
  proof (cases "limit < n + sz x")
    case True
    then show ?thesis using Cons.prems by simp
  next
    case False
    obtain zs r where z: "take_within_limit sz limit xs (n + sz x, False) = (zs, r)"
      by (cases "take_within_limit sz limit xs (n + sz x, False)") simp
    then have "n + sz x + (\<Sum>x\<leftarrow>zs. sz x) \<le> limit" using Cons.IH False by (cases r) simp
    then show ?thesis using Cons.prems False z by auto
  qed
qed simp

lemma truncate_by_date_subset: "truncate_by_date v items = (kept, dropped) \<Longrightarrow> set kept \<subseteq> set items"
  by (auto simp: truncate_by_date_def Let_def split: if_splits dest: in_set_dropD)

lemma truncate_by_date_all: "truncate_by_date v items = (kept, False) \<Longrightarrow> set kept = set items"
  by (auto simp: truncate_by_date_def Let_def split: if_splits)

end
