(* ===== verification/P2P_Abstract.thy ===== *)
theory P2P_Abstract
  imports P2P_Get_Data
begin

text \<open>
  What the data storage promises, as an abstract machine: the time, the entries by hash, the highest
  sequence number seen for each hash and when it was seen, and the hashes of removed mailbox messages.
  The order of the dictionaries, the persisted copies, the log and the append-only payloads are left
  out.  A step has a label.  \<open>Traffic\<close> is any number of the three guarded rules \<open>put\<close>, \<open>refresh\<close> and
  \<open>drop\<close>: none of them forgets an entry without a signed request, or a number.  Entries age when a
  connection to their owner breaks, entries that have expired and numbers that are old enough go in the
  maintenance and nowhere else, and at the start the node takes over what it persisted, which nothing
  checks: the label says what that was.
\<close>

section \<open>The abstract storage\<close>

record abstract_storage =
  as_now :: int
  as_entries :: "bytes \<Rightarrow> protected_storage_entry option"
  as_numbers :: "bytes \<Rightarrow> storage_map_value option"
  as_removed :: "bytes set"

definition abs_storage :: "data_storage \<Rightarrow> abstract_storage" where
  "abs_storage s =
     \<lparr>as_now = ds_now s, as_entries = map_of (ds_map s), as_numbers = map_of (ds_sequence_number_map s),
      as_removed = set (map fst (ds_removed_payloads s))\<rparr>"

definition number_permits_add :: "abstract_storage \<Rightarrow> bytes \<Rightarrow> int \<Rightarrow> bool" where
  "number_permits_add a h n \<longleftrightarrow>
     (case as_numbers a h of
        None \<Rightarrow> True
      | Some v \<Rightarrow> if as_entries a h = None then smv_sequence_nr v \<le> n else smv_sequence_nr v < n)"

definition relevant_keys_match :: "protected_storage_entry \<Rightarrow> protected_storage_entry \<Rightarrow> bool" where
  "relevant_keys_match e stored \<longleftrightarrow>
     (case pse_receivers_pub_key_bytes e of
        None \<Rightarrow> pse_owner_pub_key_bytes stored = pse_owner_pub_key_bytes e
      | Some r \<Rightarrow> pse_receivers_pub_key_bytes stored = Some r)"

definition record_number :: "bytes \<Rightarrow> int \<Rightarrow> abstract_storage \<Rightarrow> abstract_storage" where
  "record_number h n a =
     a\<lparr>as_numbers := (as_numbers a)(h \<mapsto> \<lparr>smv_sequence_nr = n, smv_time_stamp = as_now a\<rparr>)\<rparr>"

definition set_entry :: "bytes \<Rightarrow> protected_storage_entry option \<Rightarrow> abstract_storage \<Rightarrow> abstract_storage" where
  "set_entry h x a = a\<lparr>as_entries := (as_entries a)(h := x)\<rparr>"

definition set_removed :: "bytes \<Rightarrow> abstract_storage \<Rightarrow> abstract_storage" where
  "set_removed h a = a\<lparr>as_removed := insert h (as_removed a)\<rparr>"

lemmas abs_update_defs = record_number_def set_entry_def set_removed_def

lemma abs_update_sel [simp]:
  "as_now (record_number h n a) = as_now a" "as_entries (record_number h n a) = as_entries a"
  "as_numbers (record_number h n a) = (as_numbers a)(h \<mapsto> \<lparr>smv_sequence_nr = n, smv_time_stamp = as_now a\<rparr>)"
  "as_removed (record_number h n a) = as_removed a"
  "as_now (set_entry h x a) = as_now a" "as_entries (set_entry h x a) = (as_entries a)(h := x)"
  "as_numbers (set_entry h x a) = as_numbers a" "as_removed (set_entry h x a) = as_removed a"
  "as_now (set_removed h a) = as_now a" "as_entries (set_removed h a) = as_entries a"
  "as_numbers (set_removed h a) = as_numbers a" "as_removed (set_removed h a) = insert h (as_removed a)"
  by (simp_all add: abs_update_defs)

inductive abs_traffic :: "p2p_env \<Rightarrow> abstract_storage \<Rightarrow> abstract_storage \<Rightarrow> bool" for env where
  put: "\<lbrakk>get_32_byte_hash env (pse_payload e) = h; is_valid_for_add_operation env e = Inr True;
         \<not> is_expired (as_now a) e; number_permits_add a h (pse_sequence_number e);
         \<not> (is_add_once_payload (pse_payload e) \<and> h \<in> as_removed a);
         \<And>stored. as_entries a h = Some stored \<Longrightarrow> relevant_keys_match e stored;
         \<And>f. pe_filter env = Some f \<Longrightarrow> f (pse_payload e)\<rbrakk>
        \<Longrightarrow> abs_traffic env a (record_number h (pse_sequence_number e) (set_entry h (Some e) a))"
| refresh: "\<lbrakk>as_entries a h = Some stored;
         e = stored\<lparr>pse_ref := k, pse_sequence_number := n, pse_signature := sig,
                    pse_creation_time_stamp := as_now a, pse_receivers_pub_key_bytes := None\<rparr>;
         is_valid_for_add_operation env e = Inr True;
         \<And>v. as_numbers a h = Some v \<Longrightarrow> smv_sequence_nr v < n\<rbrakk>
        \<Longrightarrow> abs_traffic env a (record_number h n (set_entry h (Some e) a))"
| drop: "\<lbrakk>get_32_byte_hash env (pse_payload e) = h; is_valid_for_remove_operation env e = Inr True;
          \<And>v. as_numbers a h = Some v \<Longrightarrow> smv_sequence_nr v < pse_sequence_number e;
          \<And>stored. as_entries a h = Some stored \<Longrightarrow> relevant_keys_match e stored\<rbrakk>
         \<Longrightarrow> abs_traffic env a
              ((if is_add_once_payload (pse_payload e) then set_removed h else id)
                (record_number h (pse_sequence_number e) (set_entry h None a)))"

text \<open>A broken connection makes the entries of the owner older by half of their time to live: once for
  every stored entry of his that is the same object.\<close>

definition aged_entries :: "node_address \<Rightarrow> abstract_storage \<Rightarrow> bytes \<Rightarrow> protected_storage_entry option" where
  "aged_entries p a h = map_option (\<lambda>e.
     (back_date ^^ card {k. \<exists>e'. as_entries a k = Some e' \<and> pse_ref e' = pse_ref e \<and>
                                 get_owner_node_address (pse_payload e') = Some p}) e) (as_entries a h)"

definition keep_if :: "('v \<Rightarrow> bool) \<Rightarrow> ('k \<Rightarrow> 'v option) \<Rightarrow> 'k \<Rightarrow> 'v option" where
  "keep_if P m k = (case m k of Some v \<Rightarrow> if P v then Some v else None | None \<Rightarrow> None)"

lemma keep_if_Some [simp]: "keep_if P m k = Some v \<longleftrightarrow> m k = Some v \<and> P v"
  by (auto simp: keep_if_def split: option.split)

definition is_fresh_number :: "int \<Rightarrow> storage_map_value \<Rightarrow> bool" where
  "is_fresh_number now v \<longleftrightarrow> now - PURGE_AGE_DAYS * (24 * 60 * 60 * 1000) < smv_time_stamp v"

definition abs_maintenance :: "p2p_env \<Rightarrow> abstract_storage \<Rightarrow> abstract_storage" where
  "abs_maintenance env a =
     a\<lparr>as_entries := keep_if (\<lambda>e. \<not> is_expired (as_now a) e) (as_entries a),
       as_numbers := (if pe_max_sequence_number_map_size_before_purge env < card (dom (as_numbers a))
                      then keep_if (is_fresh_number (as_now a)) (as_numbers a) else as_numbers a)\<rparr>"

datatype storage_label =
    Traffic
  | Broken_Connection close_connection_reason "node_address option"
  | Time_Passes int
  | Expiry_And_Purge
  | Load_Numbers "storage_map_value byte_map"
  | Load_Entries "protected_storage_entry byte_map"
  | Load_Removed "int byte_map"

fun abs_step :: "p2p_env \<Rightarrow> storage_label \<Rightarrow> abstract_storage \<Rightarrow> abstract_storage \<Rightarrow> bool" where
  "abs_step env Traffic a b \<longleftrightarrow> (abs_traffic env)\<^sup>*\<^sup>* a b"
| "abs_step env (Broken_Connection reason peer) a b \<longleftrightarrow>
     b = (case peer of
            None \<Rightarrow> a
          | Some p \<Rightarrow> if is_intended reason then a else a\<lparr>as_entries := aged_entries p a\<rparr>)"
| "abs_step env (Time_Passes now) a b \<longleftrightarrow> b = a\<lparr>as_now := now\<rparr>"
| "abs_step env Expiry_And_Purge a b \<longleftrightarrow> b = abs_maintenance env a"
| "abs_step env (Load_Numbers m) a b \<longleftrightarrow>
     b = a\<lparr>as_numbers := keep_if (is_fresh_number (as_now a)) (map_of m)\<rparr>"
| "abs_step env (Load_Entries es) a b \<longleftrightarrow> b = a\<lparr>as_entries := as_entries a ++ map_of es\<rparr>"
| "abs_step env (Load_Removed m) a b \<longleftrightarrow>
     b = a\<lparr>as_removed := as_removed a \<union> {h. \<exists>date. (h, date) \<in> set m \<and> as_now a - MAILBOX_TTL < date}\<rparr>"

primrec labelled_run :: "('l \<Rightarrow> 's \<Rightarrow> 's \<Rightarrow> bool) \<Rightarrow> 'l list \<Rightarrow> 's \<Rightarrow> 's \<Rightarrow> bool" where
  "labelled_run step [] s t \<longleftrightarrow> s = t"
| "labelled_run step (l # ls) s t \<longleftrightarrow> (\<exists>u. step l s u \<and> labelled_run step ls u t)"

lemma labelled_run_append:
  "labelled_run step (ks @ ls) s t \<longleftrightarrow> (\<exists>u. labelled_run step ks s u \<and> labelled_run step ls u t)"
  by (induction ks arbitrary: s) auto

lemma labelled_run_one: "step l s t \<Longrightarrow> labelled_run step [l] s t"
  by simp

lemma labelled_run_inv [consumes 1, case_names start step]:
  assumes "labelled_run step ls s t" and "P s"
    and "\<And>l u v. l \<in> set ls \<Longrightarrow> step l u v \<Longrightarrow> P u \<Longrightarrow> P v"
  shows "P t"
  using assms by (induction ls arbitrary: s) auto

section \<open>The invariant\<close>

fun is_load :: "storage_label \<Rightarrow> bool" where
  "is_load (Load_Numbers _) = True"
| "is_load (Load_Entries _) = True"
| "is_load (Load_Removed _) = True"
| "is_load _ = False"

text \<open>Where nothing is taken over from the disk: each entry lies under its own hash, is valid, carries the
  recorded number, and is no removed mailbox message.\<close>

definition genuine :: "p2p_env \<Rightarrow> bytes \<Rightarrow> protected_storage_entry \<Rightarrow> bool" where
  "genuine env h e \<longleftrightarrow>
     get_32_byte_hash env (pse_payload e) = h \<and> is_valid_for_add_operation env e = Inr True"

definition abs_ok :: "p2p_env \<Rightarrow> abstract_storage \<Rightarrow> bool" where
  "abs_ok env a \<longleftrightarrow>
     (\<forall>h e. as_entries a h = Some e \<longrightarrow>
        get_32_byte_hash env (pse_payload e) = h \<and>
        is_valid_for_add_operation env e = Inr True \<and>
        (\<forall>v. as_numbers a h = Some v \<longrightarrow> pse_sequence_number e = smv_sequence_nr v) \<and>
        \<not> (is_add_once_payload (pse_payload e) \<and> h \<in> as_removed a))"

lemma abs_okD:
  assumes "abs_ok env a" and "as_entries a h = Some e"
  shows "get_32_byte_hash env (pse_payload e) = h" and "is_valid_for_add_operation env e = Inr True"
    and "\<And>v. as_numbers a h = Some v \<Longrightarrow> pse_sequence_number e = smv_sequence_nr v"
    and "\<not> (is_add_once_payload (pse_payload e) \<and> h \<in> as_removed a)"
  using assms unfolding abs_ok_def by blast+

text \<open>The time stamp does not matter to the validity of an entry.\<close>

lemma back_date_sel [simp]:
  "pse_ref (back_date e) = pse_ref e" "pse_payload (back_date e) = pse_payload e"
  "pse_owner_pub_key_bytes (back_date e) = pse_owner_pub_key_bytes e"
  "pse_sequence_number (back_date e) = pse_sequence_number e"
  "pse_signature (back_date e) = pse_signature e"
  "pse_receivers_pub_key_bytes (back_date e) = pse_receivers_pub_key_bytes e"
  by (simp_all add: back_date_def split: option.split)

lemma back_dates_sel [simp]:
  "pse_ref ((back_date ^^ n) e) = pse_ref e" "pse_payload ((back_date ^^ n) e) = pse_payload e"
  "pse_owner_pub_key_bytes ((back_date ^^ n) e) = pse_owner_pub_key_bytes e"
  "pse_sequence_number ((back_date ^^ n) e) = pse_sequence_number e"
  "pse_signature ((back_date ^^ n) e) = pse_signature e"
  "pse_receivers_pub_key_bytes ((back_date ^^ n) e) = pse_receivers_pub_key_bytes e"
  by (induction n) simp_all

lemma valid_back_dates [simp]:
  "is_valid_for_add_operation env ((back_date ^^ n) e) = Inr True \<longleftrightarrow>
   is_valid_for_add_operation env e = Inr True"
  by (cases "pse_receivers_pub_key_bytes e") (simp_all add: valid_for_add_iff signed_by_owner_def)

lemma genuine_back_dates [simp]: "genuine env h ((back_date ^^ n) e) \<longleftrightarrow> genuine env h e"
  by (simp add: genuine_def)

lemma abs_traffic_ok:
  assumes "abs_traffic env a b" and ok: "abs_ok env a"
  shows "abs_ok env b"
  using assms(1)
proof cases
  case (put e h)
  then show ?thesis using ok by (auto simp: abs_ok_def)
next
  case (refresh h stored e k n sig)
  then show ?thesis using ok abs_okD(1,4) [OF ok refresh(2)] by (auto simp: abs_ok_def)
next
  case (drop e h)
  then show ?thesis using ok by (auto simp: abs_ok_def)
qed

lemma abs_step_ok:
  assumes "abs_step env l a b" and "\<not> is_load l" and "abs_ok env a"
  shows "abs_ok env b"
proof (cases l)
  case Traffic
  then have "(abs_traffic env)\<^sup>*\<^sup>* a b" using assms(1) by simp
  then show ?thesis using assms(3) by (induction rule: rtranclp_induct) (auto intro: abs_traffic_ok)
next
  case (Broken_Connection reason peer)
  then show ?thesis using assms(1,3)
    by (auto simp: abs_ok_def aged_entries_def split: option.splits if_splits)
next
  case Expiry_And_Purge
  then show ?thesis using assms(1,3) by (auto simp: abs_ok_def abs_maintenance_def)
qed (use assms in \<open>auto simp: abs_ok_def\<close>)

section \<open>Where an entry comes from\<close>

text \<open>The payloads that a run takes over from the disk under a hash.\<close>

definition loaded :: "storage_label list \<Rightarrow> bytes \<Rightarrow> protected_storage_payload \<Rightarrow> bool" where
  "loaded ls h p \<longleftrightarrow> (\<exists>es e. Load_Entries es \<in> set ls \<and> (h, e) \<in> set es \<and> pse_payload e = p)"

definition stems ::
  "p2p_env \<Rightarrow> storage_label list \<Rightarrow> abstract_storage \<Rightarrow> abstract_storage \<Rightarrow> bool" where
  "stems env ls a b \<longleftrightarrow> (\<forall>h e. as_entries b h = Some e \<longrightarrow>
     genuine env h e \<or> loaded ls h (pse_payload e) \<or>
     (\<exists>e'. as_entries a h = Some e' \<and> pse_payload e' = pse_payload e \<and> (genuine env h e' \<longrightarrow> genuine env h e)))"

lemma stems_refl: "stems env ls a a"
  by (simp add: stems_def)

lemma stems_trans:
  assumes "stems env ks a b" and "stems env ls b c"
  shows "stems env (ks @ ls) a c"
  unfolding stems_def
proof (intro allI impI)
  fix h e assume e: "as_entries c h = Some e"
  have l: "loaded (ks @ ls) h p \<longleftrightarrow> loaded ks h p \<or> loaded ls h p" for p by (auto simp: loaded_def)
  show "genuine env h e \<or> loaded (ks @ ls) h (pse_payload e) \<or>
     (\<exists>e'. as_entries a h = Some e' \<and> pse_payload e' = pse_payload e \<and> (genuine env h e' \<longrightarrow> genuine env h e))"
  proof (cases "genuine env h e \<or> loaded ls h (pse_payload e)")
    case False
    then obtain f where f: "as_entries b h = Some f" "pse_payload f = pse_payload e"
      "genuine env h f \<longrightarrow> genuine env h e"
      using assms(2) e unfolding stems_def by blast
    from assms(1) [unfolded stems_def, rule_format, OF f(1)] f(2,3) l show ?thesis by metis
  qed (auto simp: l)
qed

lemma stems_traffic: "abs_traffic env a b \<Longrightarrow> stems env [] a b"
proof (induction rule: abs_traffic.induct)
  case (put e h a)
  then show ?case by (simp add: stems_def genuine_def)
next
  case (refresh a h stored e k n sig)
  then have p: "pse_payload e = pse_payload stored" by simp
  have "genuine env h stored \<longrightarrow> genuine env h e" using refresh(3) by (simp add: genuine_def p)
  then show ?case using refresh(1) p by (auto simp: stems_def)
next
  case (drop e h a)
  then show ?case by (simp add: stems_def)
qed

lemma stems_step:
  assumes "abs_step env l a b" shows "stems env [l] a b"
proof (cases l)
  case Traffic
  then have "(abs_traffic env)\<^sup>*\<^sup>* a b" using assms by simp
  then have "stems env [] a b"
  proof (induction rule: rtranclp_induct)
    case (step b c)
    from stems_trans [OF step.IH stems_traffic [OF step(2)]] show ?case by simp
  qed (rule stems_refl)
  with stems_trans [OF this stems_refl, of "[l]"] show ?thesis by simp
next
  case (Broken_Connection reason peer)
  then show ?thesis using assms
    by (auto simp: stems_def aged_entries_def split: option.splits if_splits)
next
  case Expiry_And_Purge
  then show ?thesis using assms by (auto simp: stems_def abs_maintenance_def)
next
  case (Load_Entries es)
  then show ?thesis using assms
    by (auto simp: stems_def loaded_def map_add_Some_iff dest!: map_of_SomeD)
qed (use assms in \<open>auto simp: stems_def\<close>)

lemma stems_run: "labelled_run (abs_step env) ls a b \<Longrightarrow> stems env ls a b"
proof (induction ls arbitrary: a)
  case (Cons l ls)
  then obtain c where "abs_step env l a c" "labelled_run (abs_step env) ls c b" by auto
  with stems_trans [OF stems_step Cons.IH] show ?case by fastforce
qed (simp add: stems_refl)

section \<open>Removed mailbox messages\<close>

definition holds_mailbox :: "abstract_storage \<Rightarrow> bytes \<Rightarrow> bool" where
  "holds_mailbox a h \<longleftrightarrow> (\<exists>e. as_entries a h = Some e \<and> is_add_once_payload (pse_payload e))"

lemma removed_traffic:
  "abs_traffic env a b \<Longrightarrow> h \<in> as_removed a \<Longrightarrow> \<not> holds_mailbox a h \<Longrightarrow>
     h \<in> as_removed b \<and> \<not> holds_mailbox b h"
proof (induction rule: abs_traffic.induct)
  case (refresh a k stored e r n sig)
  then show ?case by (cases "k = h") (auto simp: holds_mailbox_def)
qed (auto simp: holds_mailbox_def split: if_splits)

lemma removed_step:
  assumes "abs_step env l a b" and "h \<in> as_removed a" and "\<not> holds_mailbox a h"
  shows "h \<in> as_removed b \<and>
    (holds_mailbox b h \<longrightarrow> (\<exists>p. is_add_once_payload p \<and> loaded [l] h p))"
proof (cases l)
  case Traffic
  then have "(abs_traffic env)\<^sup>*\<^sup>* a b" using assms(1) by simp
  then have "h \<in> as_removed b \<and> \<not> holds_mailbox b h"
    using assms(2,3) by (induction rule: rtranclp_induct) (auto dest: removed_traffic)
  then show ?thesis by simp
next
  case (Broken_Connection reason peer)
  then show ?thesis using assms
    by (auto simp: holds_mailbox_def aged_entries_def split: option.splits if_splits)
next
  case Expiry_And_Purge
  then show ?thesis using assms by (auto simp: holds_mailbox_def abs_maintenance_def)
next
  case (Load_Entries es)
  then show ?thesis using assms
    by (auto simp: holds_mailbox_def loaded_def map_add_Some_iff dest!: map_of_SomeD)
qed (use assms in \<open>auto simp: holds_mailbox_def\<close>)

lemma removed_kept_step: "abs_step env l a b \<Longrightarrow> as_removed a \<subseteq> as_removed b"
proof (cases l)
  case Traffic
  assume "abs_step env l a b"
  then have "(abs_traffic env)\<^sup>*\<^sup>* a b" using Traffic by simp
  then show ?thesis
  proof (induction rule: rtranclp_induct)
    case (step b c)
    from step(2) have "as_removed b \<subseteq> as_removed c" by cases auto
    with step.IH show ?case by blast
  qed simp
qed (auto simp: abs_maintenance_def split: option.splits if_splits)

lemma removed_run:
  assumes "labelled_run (abs_step env) ls a b" and "h \<in> as_removed a" and "\<not> holds_mailbox a h"
  shows "h \<in> as_removed b \<and> (holds_mailbox b h \<longrightarrow> (\<exists>p. is_add_once_payload p \<and> loaded ls h p))"
  using assms
proof (induction ls arbitrary: a)
  case (Cons l ls)
  then obtain c where c: "abs_step env l a c" "labelled_run (abs_step env) ls c b" by auto
  note first = removed_step [OF c(1) Cons.prems(2,3)]
  have mono: "loaded [l] h p \<Longrightarrow> loaded (l # ls) h p" "loaded ls h p \<Longrightarrow> loaded (l # ls) h p" for p
    by (auto simp: loaded_def)
  have "as_removed c \<subseteq> as_removed b"
    using c(2) by (induction ls arbitrary: c) (auto dest!: removed_kept_step)
  then show ?case using first Cons.IH [OF c(2)] mono by blast
qed simp

end
