(* ===== verification/P2P_Rules.thy ===== *)
theory P2P_Rules
  imports P2P_Abstract
begin

text \<open>
  The operations of the data storage in terms of the abstract storage: every step of the storage, with
  the message handlers, the calls of the application, the timers, the maintenance and the start-up, is
  a step of the abstract machine with the same label.
\<close>

section \<open>The operations in terms of the abstract storage\<close>

lemmas al_convs [simp] = update_conv' delete_conv'

lemma abs_log_event [simp]: "abs_storage (log_event ev s) = abs_storage s"
  by (simp add: abs_storage_def log_event_def)

lemma abs_store_entry [simp]: "abs_storage (store_entry env e h s) = abs_storage s"
  by (simp add: abs_storage_def store_entry_def)

lemma abs_record_sequence_number [simp]:
  "abs_storage (record_sequence_number h n s) = record_number h n (abs_storage s)"
  by (simp add: abs_storage_def record_sequence_number_def record_number_def)

lemma abs_map_update:
  "abs_storage (s\<lparr>ds_map := AList.update h e (ds_map s)\<rparr>) = set_entry h (Some e) (abs_storage s)"
  by (simp add: abs_storage_def set_entry_def)

lemma abs_next_ref [simp]: "abs_storage (s\<lparr>ds_next_ref := n\<rparr>) = abs_storage s"
  by (simp add: abs_storage_def)

lemma abs_apply_add:
  "abs_storage (apply_add env e h sender b s) =
     record_number h (pse_sequence_number e) (set_entry h (Some e) (abs_storage s))"
  by (simp add: apply_add_def Let_def abs_map_update)

lemma abs_add_hash [simp]: "abs_storage (add_hash h s) = set_removed h (abs_storage s)"
  by (auto simp: abs_storage_def add_hash_def set_removed_def dom_update map_of_eq_None_iff)

lemma ds_map_frame [simp]:
  "ds_map (log_event ev s) = ds_map s"
  "ds_map (record_sequence_number h n s) = ds_map s"
  "ds_map (add_hash h s) = ds_map s"
  "ds_map (store_entry env e h s) = ds_map s"
  by (simp_all add: log_event_def record_sequence_number_def add_hash_def store_entry_def)

text \<open>Removing a list of keys restricts the entries and touches nothing else of the abstract state.\<close>

lemma abs_remove_from_map:
  "abs_storage (remove_from_map_and_data_store env entries s) =
     (abs_storage s)\<lparr>as_entries := as_entries (abs_storage s) |` (- set (map fst entries))\<rparr>"
proof -
  have "abs_storage (fold (remove_one env) es t) =
     (abs_storage t)\<lparr>as_entries := as_entries (abs_storage t) |` (- set (map fst es))\<rparr>" for es t
  proof (induction es arbitrary: t)
    case Nil
    then show ?case by (simp add: restrict_map_def)
  next
    case (Cons x es)
    show ?case
      by (simp add: Cons.IH) (auto simp: remove_one_def abs_storage_def restrict_map_def fun_eq_iff)
  qed
  then show ?thesis by (simp add: remove_from_map_and_data_store_def restrict_map_def)
qed

lemma abs_apply_remove:
  "abs_storage (apply_remove env e h sender s) =
     (if is_add_once_payload (pse_payload e) then set_removed h else id)
       (record_number h (pse_sequence_number e) (set_entry h None (abs_storage s)))"
proof -
  have r: "as_entries (abs_storage s) |` (- {h}) = (as_entries (abs_storage s))(h := None)"
    by (auto simp: restrict_map_def)
  have n: "map_of (ds_map s) h = None \<Longrightarrow>
      (as_entries (abs_storage s))(h := None) = as_entries (abs_storage s)"
    by (auto simp: abs_storage_def)
  show ?thesis using r n
    by (auto simp: apply_remove_def Let_def abs_remove_from_map abs_update_defs)
qed

lemma was_removed_abs: "was_removed h s \<longleftrightarrow> h \<in> as_removed (abs_storage s)"
  by (simp add: was_removed_def abs_storage_def map_of_eq_None_iff)

lemma abs_storage_sel [simp]:
  "as_now (abs_storage s) = ds_now s" "as_entries (abs_storage s) = map_of (ds_map s)"
  "as_numbers (abs_storage s) = map_of (ds_sequence_number_map s)"
  by (simp_all add: abs_storage_def)

text \<open>What the checks of an addition amount to.\<close>

lemma matches_relevant:
  "matches_relevant_pub_key env e stored = Inr True \<longleftrightarrow> relevant_keys_match e stored"
  by (simp add: matches_relevant_pub_key_iff relevant_keys_match_def)

lemma rbind_guard:
  "rbind r (\<lambda>v. if \<not> v then Inr False else g) = Inr True \<longleftrightarrow> r = Inr True \<and> g = Inr True"
proof (cases r)
  case (Inr v)
  then show ?thesis by (cases v) simp_all
qed simp

lemma guard_eq: "(if b then Inr False else g) = Inr True \<longleftrightarrow> \<not> b \<and> g = Inr True"
  by simp

lemma stored_matches:
  "(case x of None \<Rightarrow> Inr True | Some stored \<Rightarrow> matches_relevant_pub_key env e stored) = Inr True \<longleftrightarrow>
     (\<forall>stored. x = Some stored \<longrightarrow> relevant_keys_match e stored)"
  by (cases x) (simp_all add: matches_relevant)

lemma filter_passes:
  "(Inr (case x of None \<Rightarrow> True | Some f \<Rightarrow> f p) :: bool res) = Inr True \<longleftrightarrow> (\<forall>f. x = Some f \<longrightarrow> f p)"
  by (cases x) simp_all

lemma number_permits_add_concrete:
  "number_permits_add (abs_storage s) h n \<longleftrightarrow>
     \<not> (map_of (ds_map s) h \<noteq> None \<and> \<not> has_sequence_nr_increased n h s) \<and>
     \<not> (case map_of (ds_sequence_number_map s) h of None \<Rightarrow> False | Some v \<Rightarrow> n < smv_sequence_nr v)"
  by (auto simp: number_permits_add_def has_sequence_nr_increased_def split: option.split)

lemma accepts_add_iff:
  "accepts_add env e h s = Inr True \<longleftrightarrow>
     number_permits_add (abs_storage s) h (pse_sequence_number e) \<and>
     \<not> (is_add_once_payload (pse_payload e) \<and> h \<in> as_removed (abs_storage s)) \<and>
     \<not> is_expired (ds_now s) e \<and> is_valid_for_add_operation env e = Inr True \<and>
     (\<forall>stored. map_of (ds_map s) h = Some stored \<longrightarrow> relevant_keys_match e stored) \<and>
     (\<forall>f. pe_filter env = Some f \<longrightarrow> f (pse_payload e))"
  unfolding accepts_add_def Let_def guard_eq rbind_guard stored_matches filter_passes
    number_permits_add_concrete has_already_removed_add_once_payload_def was_removed_abs
  by blast

lemma accepts_remove_iff:
  "accepts_remove env e h s = Inr True \<longleftrightarrow>
     (\<forall>v. map_of (ds_sequence_number_map s) h = Some v \<longrightarrow> smv_sequence_nr v < pse_sequence_number e) \<and>
     is_valid_for_remove_operation env e = Inr True \<and>
     (\<forall>stored. map_of (ds_map s) h = Some stored \<longrightarrow> relevant_keys_match e stored)"
proof -
  have "has_sequence_nr_increased (pse_sequence_number e) h s \<longleftrightarrow>
      (\<forall>v. map_of (ds_sequence_number_map s) h = Some v \<longrightarrow> smv_sequence_nr v < pse_sequence_number e)"
    by (auto simp: has_sequence_nr_increased_def split: option.split)
  then show ?thesis
    unfolding accepts_remove_def guard_eq rbind_guard stored_matches by blast
qed

text \<open>The two operations on messages, as seen by their callers.\<close>

lemma storage_byte_array_nonempty [simp]: "b \<noteq> [] \<Longrightarrow> storage_byte_array b = Inr b"
  by (simp add: storage_byte_array_def)

lemma add_protected_storage_entry_cases:
  assumes "add_protected_storage_entry env e sender b s = (r, t)"
  obtains (accepted) h where "h = get_32_byte_hash env (pse_payload e)" and "h \<noteq> []"
      and "accepts_add env e h s = Inr True" and "r = Inr True" and "t = apply_add env e h sender b s"
  | (refused) "r \<noteq> Inr True" and "t = s"
proof (cases "accepts_add env e (get_32_byte_hash env (pse_payload e)) s = Inr True \<and>
    get_32_byte_hash env (pse_payload e) \<noteq> []")
  case True
  then show ?thesis using assms by (intro accepted) (auto simp: add_protected_storage_entry_def)
next
  case False
  then have "r \<noteq> Inr True \<and> t = s"
    using assms
    by (cases "accepts_add env e (get_32_byte_hash env (pse_payload e)) s")
      (auto simp: add_protected_storage_entry_def storage_byte_array_def split: if_splits)
  then show ?thesis by (intro refused) simp_all
qed

lemma remove_protected_storage_entry_cases:
  assumes "remove_protected_storage_entry env e sender s = (r, t)"
  obtains (accepted) h where "h = get_32_byte_hash env (pse_payload e)" and "h \<noteq> []"
      and "accepts_remove env e h s = Inr True" and "r = Inr True" and "t = apply_remove env e h sender s"
  | (refused) "r \<noteq> Inr True" and "t = s"
proof (cases "accepts_remove env e (get_32_byte_hash env (pse_payload e)) s = Inr True \<and>
    get_32_byte_hash env (pse_payload e) \<noteq> []")
  case True
  then show ?thesis using assms by (intro accepted) (auto simp: remove_protected_storage_entry_def)
next
  case False
  then have "r \<noteq> Inr True \<and> t = s"
    using assms
    by (cases "accepts_remove env e (get_32_byte_hash env (pse_payload e)) s")
      (auto simp: remove_protected_storage_entry_def storage_byte_array_def split: if_splits)
  then show ?thesis by (intro refused) simp_all
qed

lemma refresh_ttl_cases:
  assumes "refresh_ttl env m sender s = (r, t)"
  obtains (accepted) stored where "map_of (ds_map s) (rom_hash_of_payload m) = Some stored"
      and "has_sequence_nr_increased (rom_sequence_number m) (rom_hash_of_payload m) s"
      and "is_valid_for_add_operation env (refreshed_entry m stored s) = Inr True" and "r = Inr True"
      and "t = log_event (Broadcast (Refresh_Offer_Message m) sender)
             (record_sequence_number (rom_hash_of_payload m) (rom_sequence_number m)
               (s\<lparr>ds_map := AList.update (rom_hash_of_payload m) (refreshed_entry m stored s) (ds_map s),
                  ds_next_ref := ds_next_ref s + 1\<rparr>))"
  | (refused) "r = Inr False" and "t = s"
proof -
  have n: "pse_sequence_number (refreshed_entry m stored s) = rom_sequence_number m" for stored
    by (simp add: refreshed_entry_def new_protected_storage_entry_def)
  show ?thesis
  proof (cases "rom_hash_of_payload m = [] \<or> map_of (ds_map s) (rom_hash_of_payload m) = None")
    case True
    then show ?thesis
      using assms refused by (auto simp: refresh_ttl_def storage_byte_array_def split: option.splits if_splits)
  next
    case False
    then obtain stored where st: "map_of (ds_map s) (rom_hash_of_payload m) = Some stored" by blast
    show ?thesis
    proof (cases "has_sequence_nr_increased (rom_sequence_number m) (rom_hash_of_payload m) s \<and>
        is_valid_for_add_operation env (refreshed_entry m stored s) = Inr True")
      case True
      with assms False st n show ?thesis
        by (intro accepted [OF st]) (simp_all add: refresh_ttl_def Let_def)
    next
      case no: False
      with assms False st n show ?thesis
        by (intro refused) (auto simp: refresh_ttl_def Let_def split: if_splits)
    qed
  qed
qed

section \<open>Steps of the storage\<close>

text \<open>\<open>traffic_step\<close>: a message of a peer, a call of the application, the response of a seed node, a timer
  of it; \<open>message_step\<close> adds the closed connections, \<open>storage_step\<close> the time that passes, the periodic
  maintenance and the start-up: the persisted sequence numbers, the stores read from the resources, the
  persisted mailbox messages (\<open>MailboxMessageService.read_persisted\<close>) and the persisted hashes of removed
  ones.  What is persisted is a dictionary with any content.\<close>

inductive traffic_step :: "p2p_env \<Rightarrow> data_storage \<Rightarrow> data_storage \<Rightarrow> bool" for env where
  receive: "on_message env m peer s = (r, t) \<Longrightarrow> traffic_step env s t"
| own_add: "add_protected_storage_entry env e sender b s = (r, t) \<Longrightarrow> traffic_step env s t"
| own_remove: "remove_protected_storage_entry env e sender s = (r, t) \<Longrightarrow> traffic_step env s t"
| own_refresh: "refresh_ttl env m sender s = (r, t) \<Longrightarrow> traffic_step env s t"
| own_payload: "add_persistable_network_payload env p sender b s = (r, t) \<Longrightarrow> traffic_step env s t"
| own_entry: "get_protected_storage_entry env p key s = (r, t) \<Longrightarrow> traffic_step env s t"
| own_mailbox_entry:
    "get_mailbox_data_with_signed_seq_nr env p key receiver s = (r, t) \<Longrightarrow> traffic_step env s t"
| republish:
    "republish_existing_protected_mailbox_storage_entry env e sender s = (r, t) \<Longrightarrow> traffic_step env s t"
| response: "process_get_data_response env resp sender s = (r, t) \<Longrightarrow> traffic_step env s t"
| timer: "traffic_step env s (fire_rebroadcast s)"

inductive message_step :: "p2p_env \<Rightarrow> data_storage \<Rightarrow> data_storage \<Rightarrow> bool" for env where
  traffic: "traffic_step env s t \<Longrightarrow> message_step env s t"
| disconnect: "message_step env s (on_disconnect reason peer s)"

inductive storage_step :: "p2p_env \<Rightarrow> storage_label \<Rightarrow> data_storage \<Rightarrow> data_storage \<Rightarrow> bool" for env where
  messages: "traffic_step env s t \<Longrightarrow> storage_step env Traffic s t"
| connection: "storage_step env (Broken_Connection reason peer) s (on_disconnect reason peer s)"
| clock: "storage_step env (Time_Passes now) s (s\<lparr>ds_now := now\<rparr>)"
| maintenance: "storage_step env Expiry_And_Purge s (remove_expired_entries env s)"
| start_numbers: "distinct (map fst persisted) \<Longrightarrow>
    storage_step env (Load_Numbers persisted) s (read_persisted persisted s)"
| start_resources:
    "storage_step env (Load_Entries (protected_store_get_map (ds_protected_stores s))) s (read_from_resources s)"
| start_mailbox: "add_protected_mailbox_storage_entry_to_map env e s = (Inr (), t) \<Longrightarrow>
    storage_step env (Load_Entries [(get_32_byte_hash env (pse_payload e), e)]) s t"
| start_mailbox_fails: "add_protected_mailbox_storage_entry_to_map env e s = (Inl err, t) \<Longrightarrow>
    storage_step env (Load_Entries []) s t"
| start_removed: "storage_step env (Load_Removed persisted) s (removed_payloads_read_persisted persisted s)"

inductive_cases traffic_stepE: "traffic_step env s t"
inductive_cases storage_stepE: "storage_step env l s t"

text \<open>The keys of a dictionary are pairwise different.\<close>

definition keys_ok :: "data_storage \<Rightarrow> bool" where
  "keys_ok s \<longleftrightarrow> distinct (map fst (ds_map s)) \<and> distinct (map fst (ds_sequence_number_map s))"

lemma map_of_filter_values:
  assumes "distinct (map fst al)"
  shows "map_of (filter (\<lambda>(_, v). P v) al) h = (case map_of al h of Some v \<Rightarrow> if P v then Some v else None | None \<Rightarrow> None)"
  using assms
proof (induction al)
  case (Cons x al)
  obtain k v where x: "x = (k, v)" by (cases x)
  have "map_of al k = None" using Cons.prems x by (simp add: map_of_eq_None_iff)
  then show ?case using Cons x by auto
qed simp

lemma map_of_filter_keep_if:
  "distinct (map fst al) \<Longrightarrow> map_of (filter (\<lambda>(_, v). P v) al) = keep_if P (map_of al)"
  by (rule ext) (simp only: map_of_filter_values keep_if_def)

lemma map_of_purged:
  "distinct (map fst m) \<Longrightarrow>
     map_of (get_purged_sequence_number_map now m) = keep_if (is_fresh_number now) (map_of m)"
proof -
  assume d: "distinct (map fst m)"
  have p: "get_purged_sequence_number_map now m = filter (\<lambda>(_, v). is_fresh_number now v) m"
    by (simp add: get_purged_sequence_number_map_def Let_def is_fresh_number_def)
  show ?thesis unfolding p by (rule map_of_filter_keep_if [OF d])
qed

lemma map_of_remove_from_map:
  "map_of (ds_map (remove_from_map_and_data_store env es s)) h =
     (if h \<in> set (map fst es) then None else map_of (ds_map s) h)"
proof -
  have "map_of (ds_map (fold (remove_one env) fs u)) h =
      (if h \<in> set (map fst fs) then None else map_of (ds_map u) h)" for fs u
    by (induction fs arbitrary: u) (auto simp: remove_one_def)
  then show ?thesis by (simp add: remove_from_map_and_data_store_def)
qed

lemma remove_from_map_frame:
  "ds_sequence_number_map (remove_from_map_and_data_store env es s) = ds_sequence_number_map s"
  "ds_now (remove_from_map_and_data_store env es s) = ds_now s"
  "ds_removed_payloads (remove_from_map_and_data_store env es s) = ds_removed_payloads s"
proof -
  have "ds_sequence_number_map (fold (remove_one env) fs t) = ds_sequence_number_map t \<and>
      ds_now (fold (remove_one env) fs t) = ds_now t \<and>
      ds_removed_payloads (fold (remove_one env) fs t) = ds_removed_payloads t" for fs t
    by (induction fs arbitrary: t) (simp_all add: remove_one_def)
  then show "ds_sequence_number_map (remove_from_map_and_data_store env es s) = ds_sequence_number_map s"
    "ds_now (remove_from_map_and_data_store env es s) = ds_now s"
    "ds_removed_payloads (remove_from_map_and_data_store env es s) = ds_removed_payloads s"
    by (simp_all add: remove_from_map_and_data_store_def log_event_def)
qed

text \<open>The maintenance removes what has expired, and the old numbers when there are too many.\<close>

lemma expired_entries_removed:
  assumes "keys_ok s"
  shows "map_of (ds_map (remove_expired_entries env s)) =
     keep_if (\<lambda>e. \<not> is_expired (ds_now s) e) (map_of (ds_map s))"
proof (rule ext)
  fix h
  let ?l = "filter (\<lambda>(_, e). is_expired (ds_now s) e) (ds_map s)"
  have d: "distinct (map fst (ds_map s))" using assms by (simp add: keys_ok_def)
  have "ds_map (remove_expired_entries env s) = ds_map (remove_from_map_and_data_store env ?l s)"
    by (simp add: remove_expired_entries_def Let_def)
  moreover have "h \<in> set (map fst ?l) \<longleftrightarrow> (\<exists>e. map_of (ds_map s) h = Some e \<and> is_expired (ds_now s) e)"
  proof -
    have "h \<in> set (map fst al) \<longleftrightarrow> map_of al h \<noteq> None" for al :: "protected_storage_entry byte_map"
      by (simp add: map_of_eq_None_iff)
    then show ?thesis by (simp only: map_of_filter_values [OF d]) (auto split: option.splits)
  qed
  ultimately show "map_of (ds_map (remove_expired_entries env s)) h =
      keep_if (\<lambda>e. \<not> is_expired (ds_now s) e) (map_of (ds_map s)) h"
    by (auto simp: map_of_remove_from_map keep_if_def split: option.split)
qed

lemma card_dom_map_of: "distinct (map fst al) \<Longrightarrow> card (dom (map_of al)) = length al"
  by (metis distinct_card dom_map_of_conv_image_fst length_map set_map)

lemma abs_maintenance_step:
  assumes "keys_ok s"
  shows "abs_storage (remove_expired_entries env s) = abs_maintenance env (abs_storage s)"
proof -
  have d: "distinct (map fst (ds_sequence_number_map s))" using assms by (simp add: keys_ok_def)
  have n: "map_of (ds_sequence_number_map (remove_expired_entries env s)) =
      (if pe_max_sequence_number_map_size_before_purge env < card (dom (map_of (ds_sequence_number_map s)))
       then keep_if (is_fresh_number (ds_now s)) (map_of (ds_sequence_number_map s))
       else map_of (ds_sequence_number_map s))"
    by (simp add: remove_expired_entries_def Let_def remove_from_map_frame card_dom_map_of [OF d]
        map_of_purged [OF d])
  have "ds_now (remove_expired_entries env s) = ds_now s"
    "ds_removed_payloads (remove_expired_entries env s) = ds_removed_payloads s"
    by (simp_all add: remove_expired_entries_def Let_def remove_from_map_frame)
  then show ?thesis
    using n expired_entries_removed [OF assms, of env] by (simp add: abs_maintenance_def abs_storage_def)
qed

definition dict_keys :: "data_storage \<Rightarrow> bytes list \<times> bytes list" where
  "dict_keys s = (map fst (ds_map s), map fst (ds_sequence_number_map s))"

lemma keys_ok_dict_keys: "dict_keys t = dict_keys s \<Longrightarrow> keys_ok t = keys_ok s"
  by (simp add: dict_keys_def keys_ok_def)

lemma dict_keys_simps [simp]:
  "dict_keys (log_event ev s) = dict_keys s"
  "dict_keys (store_entry env e h s) = dict_keys s"
  "dict_keys (add_hash h s) = dict_keys s"
  "dict_keys (s\<lparr>ds_next_ref := n\<rparr>) = dict_keys s"
  "dict_keys (s\<lparr>ds_now := now\<rparr>) = dict_keys s"
  "dict_keys (s\<lparr>ds_timers := x\<rparr>) = dict_keys s"
  "dict_keys (s\<lparr>ds_initial_request_applied := y\<rparr>) = dict_keys s"
  "dict_keys (s\<lparr>ds_append_only_stores := z\<rparr>) = dict_keys s"
  by (simp_all add: dict_keys_def log_event_def store_entry_def add_hash_def)

lemma keys_ok_simps [simp]:
  "keys_ok (log_event ev s) = keys_ok s"
  "keys_ok (store_entry env e h s) = keys_ok s"
  "keys_ok (add_hash h s) = keys_ok s"
  "keys_ok (s\<lparr>ds_next_ref := n\<rparr>) = keys_ok s"
  "keys_ok (s\<lparr>ds_now := now\<rparr>) = keys_ok s"
  by (rule keys_ok_dict_keys, simp)+

lemma keys_ok_updates:
  "keys_ok s \<Longrightarrow> keys_ok (s\<lparr>ds_map := AList.update h e (ds_map s)\<rparr>)"
  "keys_ok s \<Longrightarrow> keys_ok (record_sequence_number h n s)"
  "keys_ok s \<Longrightarrow> keys_ok (remove_one env he s)"
  by (simp_all add: keys_ok_def record_sequence_number_def remove_one_def distinct_update distinct_delete)

lemma keys_ok_remove_from_map: "keys_ok s \<Longrightarrow> keys_ok (remove_from_map_and_data_store env es s)"
proof -
  have "keys_ok u \<Longrightarrow> keys_ok (fold (remove_one env) fs u)" for fs u
    by (induction fs arbitrary: u) (simp_all add: keys_ok_updates)
  then show "keys_ok s \<Longrightarrow> keys_ok (remove_from_map_and_data_store env es s)"
    by (simp add: remove_from_map_and_data_store_def)
qed

lemma abs_append_only [simp]: "abs_storage (s\<lparr>ds_append_only_stores := x\<rparr>) = abs_storage s"
  by (simp add: abs_storage_def)

lemma abs_add_payload:
  "add_persistable_network_payload_internal env p sender ab rb cd s = (r, t) \<Longrightarrow>
     abs_storage t = abs_storage s"
  by (auto simp: add_persistable_network_payload_internal_def Let_def split: if_splits sum.splits prod.splits)

lemma abs_fields [simp]:
  "abs_storage (s\<lparr>ds_timers := x\<rparr>) = abs_storage s"
  "abs_storage (s\<lparr>ds_initial_request_applied := y\<rparr>) = abs_storage s"
  "abs_storage (s\<lparr>ds_now := z\<rparr>) = (abs_storage s)\<lparr>as_now := z\<rparr>"
  by (simp_all add: abs_storage_def)

subsection \<open>Closed connections\<close>

lemma dict_keys_update_object [simp]: "dict_keys (update_object ref f s) = dict_keys s"
  by (simp add: dict_keys_def update_object_def Let_def comp_def case_prod_beta)

lemma map_of_update_object:
  "map_of (ds_map (update_object ref f s)) h = map_option (\<lambda>e. if pse_ref e = ref then f e else e) (map_of (ds_map s) h)"
proof -
  have "map_of (map (\<lambda>(h, e). (h, if pse_ref e = ref then f e else e)) al) h =
      map_option (\<lambda>e. if pse_ref e = ref then f e else e) (map_of al h)"
    for al :: "protected_storage_entry byte_map"
    by (induction al) (simp_all add: case_prod_beta)
  then show ?thesis by (simp add: update_object_def Let_def)
qed

lemma update_object_frame:
  "ds_sequence_number_map (update_object ref f s) = ds_sequence_number_map s"
  "ds_now (update_object ref f s) = ds_now s"
  "ds_removed_payloads (update_object ref f s) = ds_removed_payloads s"
  by (simp_all add: update_object_def Let_def)

abbreviation age_of :: "node_address option \<Rightarrow> protected_storage_entry \<Rightarrow> data_storage \<Rightarrow> data_storage" where
  "age_of peer e t \<equiv>
     if get_owner_node_address (pse_payload e) = peer then update_object (pse_ref e) back_date t else t"

lemma aged_fold:
  "map_of (ds_map (fold (age_of peer) es t)) h = map_option (\<lambda>e. (back_date ^^ length (filter (\<lambda>e'.
     pse_ref e' = pse_ref e \<and> get_owner_node_address (pse_payload e') = peer) es)) e) (map_of (ds_map t) h)"
proof (induction es arbitrary: t)
  case Nil
  then show ?case by (simp add: option.map_ident)
next
  case (Cons x es)
  then show ?case
    by (cases "map_of (ds_map t) h") (auto simp: map_of_update_object funpow_swap1)
qed

lemma aged_fold_frame:
  "ds_sequence_number_map (fold (age_of peer) es t) = ds_sequence_number_map t \<and>
   ds_now (fold (age_of peer) es t) = ds_now t \<and>
   ds_removed_payloads (fold (age_of peer) es t) = ds_removed_payloads t \<and>
   dict_keys (fold (age_of peer) es t) = dict_keys t"
  by (induction es arbitrary: t) (simp_all add: update_object_frame)

lemma count_values:
  assumes "distinct (map fst al)"
  shows "length (filter P (map snd al)) = card {k. \<exists>v. map_of al k = Some v \<and> P v}"
proof -
  have "length (filter P (map snd al)) = length (filter (P \<circ> snd) al)" by (simp add: filter_map)
  also have "\<dots> = card (fst ` set (filter (P \<circ> snd) al))"
    using distinct_card [OF distinct_map_filter [OF assms, of "P \<circ> snd"]] by simp
  also have "fst ` set (filter (P \<circ> snd) al) = {k. \<exists>v. map_of al k = Some v \<and> P v}"
    using assms by (force simp: map_of_eq_Some_iff [OF assms] intro: rev_image_eqI)
  finally show ?thesis .
qed

lemma abs_on_disconnect:
  assumes "keys_ok s"
  shows "abs_step env (Broken_Connection reason peer) (abs_storage s) (abs_storage (on_disconnect reason peer s))"
proof (cases "is_intended reason \<or> peer = None")
  case True
  then show ?thesis by (auto simp: on_disconnect_def split: option.split)
next
  case False
  then obtain p where p: "peer = Some p" by auto
  have d: "distinct (map fst (ds_map s))" using assms by (simp add: keys_ok_def)
  have t: "on_disconnect reason peer s = fold (age_of (Some p)) (map snd (ds_map s)) s"
    using False p by (simp add: on_disconnect_def)
  have "map_of (ds_map (on_disconnect reason peer s)) = aged_entries p (abs_storage s)"
    unfolding t by (rule ext) (simp only: aged_fold count_values [OF d] aged_entries_def abs_storage_sel)
  then show ?thesis
    using False p aged_fold_frame [of "Some p" "map snd (ds_map s)" s]
    by (simp add: abs_storage_def t [symmetric])
qed

lemma dict_keys_on_disconnect [simp]: "dict_keys (on_disconnect reason peer s) = dict_keys s"
  using aged_fold_frame [of peer "map snd (ds_map s)" s] by (simp add: on_disconnect_def)

subsection \<open>Start-up\<close>

lemma map_of_al_update_all: "map_of (al_update_all es al) = map_of al ++ map_of (rev es)"
proof -
  have "map_of (fold (\<lambda>(k, v). AList.update k v) es m) = map_of m ++ map_of (rev es)" for m
  proof (induction es arbitrary: m)
    case (Cons x es)
    obtain k v where x: "x = (k, v)" by fastforce
    show ?case by (simp add: Cons.IH x) (auto simp: map_add_def fun_eq_iff split: option.split)
  qed simp
  then show ?thesis by (simp add: al_update_all_def)
qed

lemma map_of_rev: "distinct (map fst al) \<Longrightarrow> map_of (rev al) = map_of al"
  by (subst map_of_inject_set) (simp_all add: rev_map [symmetric])

lemma distinct_al_update_all: "distinct (map fst al) \<Longrightarrow> distinct (map fst (al_update_all es al))"
proof -
  have "distinct (map fst m) \<Longrightarrow> distinct (map fst (fold (\<lambda>(k, v). AList.update k v) es m))" for m
    by (induction es arbitrary: m) (auto simp: distinct_update)
  then show "distinct (map fst al) \<Longrightarrow> distinct (map fst (al_update_all es al))" by (simp add: al_update_all_def)
qed

lemma distinct_protected_stores: "distinct (map fst (protected_store_get_map stores))"
proof -
  have "distinct (map fst m) \<Longrightarrow> distinct (map fst (fold al_update_all ss m))" for ss m
    by (induction ss arbitrary: m) (simp_all add: distinct_al_update_all)
  from this [of "[]"] show ?thesis by (simp add: protected_store_get_map_def)
qed

lemma keys_al_update_all: "set (map fst (al_update_all es al)) = set (map fst al) \<union> set (map fst es)"
proof -
  have "dom (map_of (al_update_all es al)) = dom (map_of al) \<union> dom (map_of (rev es))"
    by (simp add: map_of_al_update_all Un_commute)
  then show ?thesis by (simp add: dom_map_of_conv_image_fst)
qed

text \<open>The steps that change the dictionaries at the start.\<close>

lemma abs_loads:
  "distinct (map fst m) \<Longrightarrow> abs_step env (Load_Numbers m) (abs_storage s) (abs_storage (read_persisted m s))"
  "abs_step env (Load_Entries (protected_store_get_map (ds_protected_stores s))) (abs_storage s)
     (abs_storage (read_from_resources s))"
  "add_protected_mailbox_storage_entry_to_map env e s = (Inr (), t) \<Longrightarrow>
     abs_step env (Load_Entries [(get_32_byte_hash env (pse_payload e), e)]) (abs_storage s) (abs_storage t)"
  "abs_step env (Load_Removed r) (abs_storage s) (abs_storage (removed_payloads_read_persisted r s))"
proof -
  show "distinct (map fst m) \<Longrightarrow> abs_step env (Load_Numbers m) (abs_storage s) (abs_storage (read_persisted m s))"
    by (simp add: abs_storage_def read_persisted_def map_of_purged)
  show "abs_step env (Load_Entries (protected_store_get_map (ds_protected_stores s))) (abs_storage s)
     (abs_storage (read_from_resources s))"
    by (simp add: abs_storage_def read_from_resources_def map_of_al_update_all map_of_rev distinct_protected_stores)
  show "abs_step env (Load_Entries [(get_32_byte_hash env (pse_payload e), e)]) (abs_storage s) (abs_storage t)"
    if "add_protected_mailbox_storage_entry_to_map env e s = (Inr (), t)"
    using that
    by (auto simp: abs_storage_def add_protected_mailbox_storage_entry_to_map_def storage_byte_array_def
        split: if_splits)
  have "set (map fst (al_update_all (filter (\<lambda>(_, date). ds_now s - MAILBOX_TTL < date) r) (ds_removed_payloads s))) =
      set (map fst (ds_removed_payloads s)) \<union> {h. \<exists>date. (h, date) \<in> set r \<and> ds_now s - MAILBOX_TTL < date}"
    unfolding keys_al_update_all by force
  then show "abs_step env (Load_Removed r) (abs_storage s) (abs_storage (removed_payloads_read_persisted r s))"
    by (simp add: abs_storage_def removed_payloads_read_persisted_def)
qed

text \<open>A relation between the states before and after that the three operations on entries keep, and every
  change outside the abstract state, is kept by every message.\<close>

locale storage_frame = action_frame R for R :: "data_storage \<Rightarrow> data_storage \<Rightarrow> bool" +
  fixes env :: p2p_env
  assumes frame_add: "add_protected_storage_entry env e sender b s = (r, t) \<Longrightarrow> R s t"
    and frame_remove: "remove_protected_storage_entry env e sender s = (r, t) \<Longrightarrow> R s t"
    and frame_refresh: "refresh_ttl env m sender s = (r, t) \<Longrightarrow> R s t"
    and frame_same: "abs_storage t = abs_storage s \<Longrightarrow> dict_keys t = dict_keys s \<Longrightarrow> R s t"
begin

lemma frame_payload:
  assumes "add_persistable_network_payload_internal env p sender ab rb cd s = (r, t)"
  shows "R s t"
proof (rule frame_same)
  show "abs_storage t = abs_storage s" by (rule abs_add_payload [OF assms])
  show "dict_keys t = dict_keys s"
    using assms
    by (auto simp: add_persistable_network_payload_internal_def Let_def split: if_splits sum.splits prod.splits)
qed

lemma frame_on_message:
  assumes "on_message env m peer s = (r, t)"
  shows "R s t"
proof (cases m)
  case None
  then show ?thesis using assms by (simp add: on_message_def frame_refl)
next
  case (Some msg)
  then show ?thesis
    using assms
    by (cases msg) (auto simp: on_message_def Let_def frame_refl
        intro: frame_add frame_remove frame_refresh frame_payload split: if_splits prod.splits)
qed

lemma frame_process_entries: "process_entries env sender es cur n s = (r, c, k, t) \<Longrightarrow> R s t"
proof (induction es arbitrary: cur n s)
  case (Cons e es)
  obtain r' u where u: "add_protected_storage_entry env e (Some sender) False s = (r', u)"
    by (cases "add_protected_storage_entry env e (Some sender) False s")
  have "R s u" by (rule frame_add [OF u])
  moreover have "R u t" if "r' = Inr x" for x
    using Cons that u by simp
  moreover have "t = u" if "r' = Inl err" for err
    using Cons.prems u that by simp
  ultimately show ?case by (cases r') (auto intro: frame_trans)
qed (simp add: frame_refl)

lemma frame_network_payload: "keeps R (process_network_payload env wt sender p)"
proof (rule keepsI)
  fix s r t assume a: "process_network_payload env wt sender p s = (r, t)"
  show "R s t"
  proof (cases "pnp_process_once p")
    case True
    then show ?thesis using a
      by (intro frame_same) (auto simp: process_network_payload_def
          add_persistable_network_payload_from_initial_request_def split: if_splits sum.splits)
  next
    case False
    then show ?thesis using a
      by (auto simp: process_network_payload_def split: prod.splits intro: frame_payload)
  qed
qed

lemma frame_response:
  assumes "process_get_data_response env response sender s = (r, t)"
  shows "R s t"
proof -
  obtain r1 cur n u where 1: "process_entries env sender (gds_data_set response) None 0 s = (r1, cur, n, u)"
    by (cases "process_entries env sender (gds_data_set response) None 0 s")
  define u1 where "u1 = (case cur of None \<Rightarrow> u | Some e \<Rightarrow> u\<lparr>ds_timers := ds_timers u @ replicate n (e, sender)\<rparr>)"
  have "R u u1" by (rule frame_same) (simp_all add: u1_def split: option.split)
  with frame_process_entries [OF 1] have s1: "R s u1" by (rule frame_trans)
  obtain r2 w where 2: "for_each (process_network_payload env (gds_was_truncated response) sender)
      (gds_persistable_network_payload_set response) u1 = (r2, w)" by (meson surj_pair)
  have s2: "R u1 w" by (rule keepsD [OF keeps_for_each 2]) (rule frame_network_payload)
  show ?thesis
  proof (cases r1)
    case (Inl err)
    then have "t = u1" using assms 1 by (simp add: process_get_data_response_def u1_def Let_def)
    then show ?thesis using s1 by simp
  next
    case (Inr x)
    then have "abs_storage t = abs_storage w" "dict_keys t = dict_keys w"
      using assms 1 2 by (auto simp: process_get_data_response_def u1_def Let_def split: sum.splits)
    then have "R w t" by (rule frame_same)
    with frame_trans [OF s1 s2] show ?thesis by (rule frame_trans)
  qed
qed

lemma frame_traffic_step:
  assumes "traffic_step env s t"
  shows "R s t"
  using assms
proof cases
  case (own_payload p sender b r)
  then show ?thesis by (simp add: add_persistable_network_payload_def frame_payload)
next
  case (own_entry p key r)
  then show ?thesis by (intro frame_same) (auto simp: get_protected_storage_entry_def split: sum.splits prod.splits)
next
  case (own_mailbox_entry p key receiver r)
  then show ?thesis
    by (intro frame_same) (auto simp: get_mailbox_data_with_signed_seq_nr_def split: sum.splits prod.splits)
next
  case (republish e sender r)
  then show ?thesis
    by (intro frame_same) (auto simp: republish_existing_protected_mailbox_storage_entry_def
        split: sum.splits if_splits)
next
  case timer
  then show ?thesis by (intro frame_same) (auto simp: fire_rebroadcast_def split: list.splits)
qed (auto intro: frame_on_message frame_add frame_remove frame_refresh frame_response)


end

section \<open>The operations implement the abstract storage\<close>

definition sim :: "p2p_env \<Rightarrow> data_storage \<Rightarrow> data_storage \<Rightarrow> bool" where
  "sim env s t \<longleftrightarrow> abs_step env Traffic (abs_storage s) (abs_storage t)"

lemma sim_same: "abs_storage t = abs_storage s \<Longrightarrow> sim env s t"
  by (simp add: sim_def)

lemma sim_step: "abs_traffic env (abs_storage s) (abs_storage t) \<Longrightarrow> sim env s t"
  by (simp add: sim_def r_into_rtranclp)

lemma add_sim:
  assumes "add_protected_storage_entry env e sender b s = (r, t)"
  shows "sim env s t"
  using assms
proof (cases rule: add_protected_storage_entry_cases)
  case (accepted h)
  show ?thesis
    using accepted(1,3)
    by (intro sim_step) (auto simp: accepted(5) abs_apply_add accepts_add_iff intro!: abs_traffic.put)
qed (simp add: sim_def)

lemma remove_sim:
  assumes "remove_protected_storage_entry env e sender s = (r, t)"
  shows "sim env s t"
  using assms
proof (cases rule: remove_protected_storage_entry_cases)
  case (accepted h)
  have "abs_traffic env (abs_storage s) (abs_storage t)"
    unfolding accepted(5) abs_apply_remove
    using accepted(1,3) by (intro abs_traffic.drop) (auto simp: accepts_remove_iff)
  then show ?thesis by (rule sim_step)
qed (simp add: sim_def)

lemma refreshed_entry_simps [simp]:
  "pse_payload (refreshed_entry m stored s) = pse_payload stored"
  "pse_owner_pub_key_bytes (refreshed_entry m stored s) = pse_owner_pub_key_bytes stored"
  "pse_sequence_number (refreshed_entry m stored s) = rom_sequence_number m"
  "pse_signature (refreshed_entry m stored s) = rom_signature m"
  "pse_receivers_pub_key_bytes (refreshed_entry m stored s) = None"
  "pse_creation_time_stamp (refreshed_entry m stored s) = ds_now s"
  by (simp_all add: refreshed_entry_def new_protected_storage_entry_def)

lemma refresh_sim:
  assumes "refresh_ttl env m sender s = (r, t)"
  shows "sim env s t"
  using assms
proof (cases rule: refresh_ttl_cases)
  case (accepted stored)
  let ?h = "rom_hash_of_payload m" and ?e = "refreshed_entry m stored s" and ?a = "abs_storage s"
  have t: "abs_storage t = record_number ?h (rom_sequence_number m) (set_entry ?h (Some ?e) ?a)"
    by (simp add: accepted(5) abs_map_update)
  show ?thesis
  proof (rule sim_step, unfold t, rule abs_traffic.refresh)
    show "as_entries ?a ?h = Some stored" using accepted(1) by simp
    show "?e = stored\<lparr>pse_ref := ds_next_ref s, pse_sequence_number := rom_sequence_number m,
        pse_signature := rom_signature m, pse_creation_time_stamp := as_now ?a, pse_receivers_pub_key_bytes := None\<rparr>"
      by (simp add: refreshed_entry_def new_protected_storage_entry_def)
    show "is_valid_for_add_operation env ?e = Inr True" by (fact accepted(3))
    show "smv_sequence_nr v < rom_sequence_number m" if "as_numbers ?a ?h = Some v" for v
      using that accepted(2) by (simp add: has_sequence_nr_increased_def)
  qed
qed (simp add: sim_def)

interpretation storage_sim: storage_frame "sim env" env for env
proof unfold_locales
  show "sim env s s" for s by (simp add: sim_def)
  show "sim env s t \<Longrightarrow> sim env t u \<Longrightarrow> sim env s u" for s t u
    by (simp add: sim_def)
qed (rule add_sim remove_sim refresh_sim sim_same, assumption)+

section \<open>Keys and numbers\<close>

text \<open>What no message can undo: keys stay different, a recorded number never goes back, and the hash of
  a removed mailbox message stays recorded.\<close>

definition records_kept :: "data_storage \<Rightarrow> data_storage \<Rightarrow> bool" where
  "records_kept s t \<longleftrightarrow>
     (keys_ok s \<longrightarrow> keys_ok t) \<and>
     (\<forall>h v. as_numbers (abs_storage s) h = Some v \<longrightarrow>
        (\<exists>w. as_numbers (abs_storage t) h = Some w \<and> smv_sequence_nr v \<le> smv_sequence_nr w)) \<and>
     as_removed (abs_storage s) \<subseteq> as_removed (abs_storage t)"

lemma records_same: "abs_storage t = abs_storage s \<Longrightarrow> dict_keys t = dict_keys s \<Longrightarrow> records_kept s t"
  using keys_ok_dict_keys [of t s] by (simp add: records_kept_def)

lemma add_records:
  assumes "add_protected_storage_entry env e sender b s = (r, t)"
  shows "records_kept s t"
  using assms
proof (cases rule: add_protected_storage_entry_cases)
  case (accepted h)
  have n: "smv_sequence_nr v \<le> pse_sequence_number e" if "map_of (ds_sequence_number_map s) h = Some v" for v
    using accepted(3) that by (auto simp: accepts_add_iff number_permits_add_def split: if_splits)
  have "keys_ok s \<longrightarrow> keys_ok t"
    by (simp add: accepted(5) apply_add_def Let_def keys_ok_updates)
  with n show ?thesis unfolding accepted(5)
    by (simp add: records_kept_def abs_apply_add)
qed (simp add: records_kept_def)

lemma remove_records:
  assumes "remove_protected_storage_entry env e sender s = (r, t)"
  shows "records_kept s t"
  using assms
proof (cases rule: remove_protected_storage_entry_cases)
  case (accepted h)
  have n: "smv_sequence_nr v \<le> pse_sequence_number e" if "map_of (ds_sequence_number_map s) h = Some v" for v
    using accepted(3) that by (simp add: accepts_remove_iff order_less_imp_le)
  have "keys_ok s \<longrightarrow> keys_ok t"
    by (simp add: accepted(5) apply_remove_def Let_def keys_ok_updates keys_ok_remove_from_map)
  with n show ?thesis unfolding accepted(5)
    by (auto simp: records_kept_def abs_apply_remove)
qed (simp add: records_kept_def)

lemma refresh_records:
  assumes "refresh_ttl env m sender s = (r, t)"
  shows "records_kept s t"
  using assms
proof (cases rule: refresh_ttl_cases)
  case (accepted stored)
  have n: "smv_sequence_nr v \<le> rom_sequence_number m"
    if "map_of (ds_sequence_number_map s) (rom_hash_of_payload m) = Some v" for v
    using accepted(2) that by (auto simp: has_sequence_nr_increased_def)
  have "keys_ok s \<longrightarrow> keys_ok t"
    by (simp add: accepted(5) keys_ok_updates)
  with n show ?thesis unfolding accepted(5)
    by (simp add: records_kept_def abs_map_update)
qed (simp add: records_kept_def)

lemma records_keptD:
  "records_kept s t \<Longrightarrow> map_of (ds_sequence_number_map s) h = Some v \<Longrightarrow>
     \<exists>w. map_of (ds_sequence_number_map t) h = Some w \<and> smv_sequence_nr v \<le> smv_sequence_nr w"
  by (simp add: records_kept_def)

lemma records_trans:
  assumes "records_kept s t" and "records_kept t u" shows "records_kept s u"
proof -
  have "\<exists>w. map_of (ds_sequence_number_map u) h = Some w \<and> smv_sequence_nr v \<le> smv_sequence_nr w"
    if v: "map_of (ds_sequence_number_map s) h = Some v" for h v
    using records_keptD [OF assms(1) v] records_keptD [OF assms(2)] by (meson order_trans)
  then show ?thesis using assms by (auto simp: records_kept_def)
qed

interpretation records: storage_frame records_kept env for env
proof unfold_locales
  show "records_kept s s" for s by (simp add: records_kept_def)
qed (rule records_trans add_records remove_records refresh_records records_same, assumption+)+

lemma records_message_step: "message_step env s t \<Longrightarrow> records_kept s t"
proof (induction rule: message_step.induct)
  case (disconnect s reason peer)
  have "keys_ok s \<Longrightarrow> keys_ok (on_disconnect reason peer s)"
    using keys_ok_dict_keys [of "on_disconnect reason peer s" s] by simp
  moreover have "ds_sequence_number_map (on_disconnect reason peer s) = ds_sequence_number_map s"
    "ds_removed_payloads (on_disconnect reason peer s) = ds_removed_payloads s"
    using aged_fold_frame [of peer "map snd (ds_map s)" s] by (simp_all add: on_disconnect_def)
  ultimately show ?case by (simp add: records_kept_def abs_storage_def)
qed (rule records.frame_traffic_step)

lemma records_message_steps: "(message_step env)\<^sup>*\<^sup>* s t \<Longrightarrow> records_kept s t"
  by (induction rule: rtranclp_induct) (auto intro: records.frame_refl records_trans records_message_step)

section \<open>Every step is an abstract step\<close>

lemma keys_ok_maintenance: "keys_ok s \<Longrightarrow> keys_ok (remove_expired_entries env s)"
proof -
  assume "keys_ok s"
  then have k: "keys_ok (remove_from_map_and_data_store env es s)" for es by (rule keys_ok_remove_from_map)
  have p: "keys_ok t \<Longrightarrow> keys_ok (t\<lparr>ds_sequence_number_map :=
      get_purged_sequence_number_map now (ds_sequence_number_map t)\<rparr>)" for t now
    by (auto simp: keys_ok_def get_purged_sequence_number_map_def distinct_map_filter)
  show ?thesis by (simp add: remove_expired_entries_def Let_def k p)
qed

lemma storage_step_sim:
  assumes "storage_step env l s t" and "keys_ok s"
  shows "abs_step env l (abs_storage s) (abs_storage t) \<and> keys_ok t"
  using assms(1)
proof cases
  case messages
  then show ?thesis
    using storage_sim.frame_traffic_step [of env s t] records.frame_traffic_step [of env s t] assms(2)
    by (simp add: sim_def records_kept_def)
next
  case (connection reason peer)
  then show ?thesis
    using abs_on_disconnect [OF assms(2)] keys_ok_dict_keys [of t s] assms(2) by simp
next
  case (clock now)
  then show ?thesis using assms(2) by simp
next
  case maintenance
  then show ?thesis using abs_maintenance_step [OF assms(2)] keys_ok_maintenance [OF assms(2)] by simp
next
  case (start_numbers persisted)
  then have "keys_ok t" using assms(2)
    by (auto simp: keys_ok_def read_persisted_def get_purged_sequence_number_map_def distinct_map_filter)
  then show ?thesis using start_numbers abs_loads(1) by blast
next
  case start_resources
  then have "keys_ok t" using assms(2) by (simp add: keys_ok_def read_from_resources_def distinct_al_update_all)
  then show ?thesis using start_resources abs_loads(2) by blast
next
  case (start_mailbox e)
  then have "keys_ok t" using assms(2)
    by (auto simp: keys_ok_def add_protected_mailbox_storage_entry_to_map_def distinct_update split: sum.splits)
  then show ?thesis using start_mailbox abs_loads(3) by blast
next
  case (start_mailbox_fails e err)
  then have "t = s" by (auto simp: add_protected_mailbox_storage_entry_to_map_def split: sum.splits)
  then show ?thesis using start_mailbox_fails assms(2) by simp
next
  case (start_removed persisted)
  then have "keys_ok t" using assms(2) by (simp add: keys_ok_def removed_payloads_read_persisted_def)
  then show ?thesis using start_removed abs_loads(4) by blast
qed

lemma storage_run_sim:
  "labelled_run (storage_step env) ls s t \<Longrightarrow> keys_ok s \<Longrightarrow>
     labelled_run (abs_step env) ls (abs_storage s) (abs_storage t) \<and> keys_ok t"
proof (induction ls arbitrary: s)
  case (Cons l ls)
  then obtain u where "storage_step env l s u" "labelled_run (storage_step env) ls u t" by auto
  with storage_step_sim [OF this(1) Cons.prems(2)] Cons.IH show ?case by auto
qed simp

end
