(* ===== verification/P2P_Facts.thy ===== *)
theory P2P_Facts
  imports P2P_Rules
begin

text \<open>
  Consequences for the network: who can make an entry disappear, which messages are too old to be
  accepted, what a response contains, and that the own entries of a node are accepted by its peers.
\<close>

section \<open>Runs of the storage\<close>

lemma storage_runs_ok:
  assumes "labelled_run (storage_step env) ls s t" and "keys_ok s" and "abs_ok env (abs_storage s)"
    and "\<forall>l \<in> set ls. \<not> is_load l"
  shows "abs_ok env (abs_storage t)"
proof -
  have "labelled_run (abs_step env) ls (abs_storage s) (abs_storage t)"
    using storage_run_sim [OF assms(1,2)] by simp
  then show ?thesis using assms(3,4)
    by (induction rule: labelled_run_inv) (auto intro: abs_step_ok)
qed

text \<open>A stored entry that was not there at the beginning was added with all checks, or carries a payload
  taken over from the disk.\<close>

lemma storage_runs_stem:
  assumes "labelled_run (storage_step env) ls s t" and "keys_ok s" and "map_of (ds_map t) h = Some e"
  shows "genuine env h e \<or> loaded ls h (pse_payload e) \<or>
     (\<exists>e'. map_of (ds_map s) h = Some e' \<and> pse_payload e' = pse_payload e \<and> (genuine env h e' \<longrightarrow> genuine env h e))"
proof -
  have "stems env ls (abs_storage s) (abs_storage t)"
    using storage_run_sim [OF assms(1,2)] by (blast intro: stems_run)
  then show ?thesis using assms(3) by (simp add: stems_def)
qed

text \<open>An accepted removal of a mailbox message records its hash and leaves no message under it.\<close>

lemma accepted_removal_recorded:
  assumes "remove_protected_storage_entry env e sender s = (Inr True, t)"
    and "is_add_once_payload (pse_payload e)"
  shows "was_removed (get_32_byte_hash env (pse_payload e)) t"
    and "map_of (ds_map t) (get_32_byte_hash env (pse_payload e)) = None"
proof -
  obtain h where h: "h = get_32_byte_hash env (pse_payload e)" "t = apply_remove env e h sender s"
    using assms(1) by (cases rule: remove_protected_storage_entry_cases) auto
  have a: "abs_storage t = set_removed h (record_number h (pse_sequence_number e) (set_entry h None (abs_storage s)))"
    using assms(2) by (simp add: h(2) abs_apply_remove)
  then have "as_entries (abs_storage t) h = None" "h \<in> as_removed (abs_storage t)" by simp_all
  then show "was_removed (get_32_byte_hash env (pse_payload e)) t"
    "map_of (ds_map t) (get_32_byte_hash env (pse_payload e)) = None"
    using h(1) by (simp_all add: was_removed_abs)
qed

section \<open>Numbers\<close>

lemma stale_add_refused:
  assumes "map_of (ds_sequence_number_map s) h = Some v" and "get_32_byte_hash env (pse_payload e) = h"
    and "pse_sequence_number e < smv_sequence_nr v"
  shows "fst (add_protected_storage_entry env e sender b s) \<noteq> Inr True \<and>
         snd (add_protected_storage_entry env e sender b s) = s"
proof -
  obtain r t where a: "add_protected_storage_entry env e sender b s = (r, t)"
    by (cases "add_protected_storage_entry env e sender b s")
  then show ?thesis
  proof (cases rule: add_protected_storage_entry_cases)
    case (accepted k)
    then have "number_permits_add (abs_storage s) h (pse_sequence_number e)"
      using assms(2) by (simp add: accepts_add_iff)
    then show ?thesis using assms(1,3) by (auto simp: number_permits_add_def split: if_splits)
  qed (simp add: a)
qed

lemma stale_add_refused_later:
  assumes "(message_step env)\<^sup>*\<^sup>* s t" and "map_of (ds_sequence_number_map s) h = Some v"
    and "get_32_byte_hash env (pse_payload e) = h" and "pse_sequence_number e < smv_sequence_nr v"
  shows "fst (add_protected_storage_entry env e sender b t) \<noteq> Inr True \<and>
         snd (add_protected_storage_entry env e sender b t) = t"
proof -
  obtain w where w: "map_of (ds_sequence_number_map t) h = Some w" "smv_sequence_nr v \<le> smv_sequence_nr w"
    using records_keptD [OF records_message_steps [OF assms(1)] assms(2)] by (elim exE conjE)
  show ?thesis by (rule stale_add_refused [OF w(1) assms(3)]) (use w(2) assms(4) in simp)
qed

section \<open>Who can remove an entry\<close>

lemma entries_apply_add: "map_of (ds_map (apply_add env e h sender b s)) = (map_of (ds_map s))(h \<mapsto> e)"
  by (simp add: apply_add_def Let_def)

lemma removal_needs_signature:
  assumes "on_message env (Some m) peer s = (r, t)"
    and "map_of (ds_map s) h = Some stored" and "map_of (ds_map t) h = None"
  shows "\<exists>e. (m = Remove_Data_Message e \<or> m = Remove_Mailbox_Data_Message e) \<and>
             get_32_byte_hash env (pse_payload e) = h \<and> signed_by_owner env e \<and>
             (\<forall>v. map_of (ds_sequence_number_map s) h = Some v \<longrightarrow> smv_sequence_nr v < pse_sequence_number e) \<and>
             (if is_mailbox_entry e
              then pse_receivers_pub_key_bytes stored = Some (pse_owner_pub_key_bytes e)
              else pse_owner_pub_key_bytes stored = pse_owner_pub_key_bytes e)"
proof -
  have rem: ?thesis
    if rm: "remove_protected_storage_entry env e peer s = (r', t)"
      and m: "m = Remove_Data_Message e \<or> m = Remove_Mailbox_Data_Message e" for e r'
    using rm
  proof (cases rule: remove_protected_storage_entry_cases)
    case (accepted k)
    have k: "k = h"
    proof (rule ccontr)
      assume "k \<noteq> h"
      then have "as_entries (abs_storage t) h = as_entries (abs_storage s) h"
        by (simp add: accepted(5) abs_apply_remove)
      with assms(2,3) show False by simp
    qed
    have v: "is_valid_for_remove_operation env e = Inr True" "relevant_keys_match e stored"
      using accepted(3) assms(2) k by (simp_all add: accepts_remove_iff)
    have n: "\<forall>v. map_of (ds_sequence_number_map s) h = Some v \<longrightarrow> smv_sequence_nr v < pse_sequence_number e"
      using accepted(3) k by (simp add: accepts_remove_iff)
    have "if is_mailbox_entry e then pse_receivers_pub_key_bytes stored = Some (pse_owner_pub_key_bytes e)
          else pse_owner_pub_key_bytes stored = pse_owner_pub_key_bytes e"
      using v by (cases "pse_receivers_pub_key_bytes e")
        (auto simp: valid_for_remove_iff relevant_keys_match_def)
    moreover have "signed_by_owner env e" using v(1) by (simp add: valid_for_remove_iff)
    ultimately show ?thesis using m n accepted(1) k by blast
  next
    case refused
    then show ?thesis using assms(2,3) by simp
  qed
  have peer: "peer \<noteq> None" using assms by (cases peer) (auto simp: on_message_def Let_def)
  show ?thesis
  proof (cases m)
    case (Add_Data_Message e)
    then obtain r' where "add_protected_storage_entry env e peer True s = (r', t)"
      using assms(1) peer by (auto simp: on_message_def split: prod.splits)
    then show ?thesis
      by (cases rule: add_protected_storage_entry_cases)
        (use assms(2,3) in \<open>auto simp: entries_apply_add split: if_splits\<close>)
  next
    case (Refresh_Offer_Message rm)
    then obtain r' where "refresh_ttl env rm peer s = (r', t)"
      using assms(1) peer by (auto simp: on_message_def split: prod.splits)
    then show ?thesis
      by (cases rule: refresh_ttl_cases) (use assms(2,3) in \<open>auto split: if_splits\<close>)
  next
    case (Add_Persistable_Network_Payload_Message p)
    then obtain r' where "add_persistable_network_payload_internal env p peer True False True s = (r', t)"
      using assms(1) peer by (auto simp: on_message_def split: prod.splits)
    then have "abs_storage t = abs_storage s" by (rule abs_add_payload)
    then have "as_entries (abs_storage t) h = as_entries (abs_storage s) h" by simp
    then show ?thesis using assms(2,3) by simp
  next
    case (Remove_Data_Message e)
    then show ?thesis using assms(1) peer rem by (auto simp: on_message_def split: prod.splits)
  next
    case (Remove_Mailbox_Data_Message e)
    then show ?thesis using assms(1) peer rem by (auto simp: on_message_def split: prod.splits)
  qed
qed

text \<open>The number of a remove message is recorded, but an addition with the same number is accepted when
  the entry is not stored, and both sign the same data: the message can be sent again as an addition.\<close>

lemma remove_replayed_as_add:
  assumes "remove_protected_storage_entry env e sender s = (Inr True, t)"
    and "pse_payload e = Other_Payload p" and "\<not> is_expired (ds_now s) e"
    and "\<And>f. pe_filter env = Some f \<Longrightarrow> f (Other_Payload p)"
  shows "map_of (ds_map t) (get_32_byte_hash env (pse_payload e)) = None \<and>
         fst (add_protected_storage_entry env e sender' True t) = Inr True"
  using assms(1)
proof (cases rule: remove_protected_storage_entry_cases)
  case (accepted h)
  have "as_entries (abs_storage t) h = None \<and>
      as_numbers (abs_storage t) h = Some \<lparr>smv_sequence_nr = pse_sequence_number e, smv_time_stamp = ds_now s\<rparr>"
    by (simp add: accepted(5) abs_apply_remove)
  then have m: "map_of (ds_map t) h = None"
    and number: "map_of (ds_sequence_number_map t) h = Some \<lparr>smv_sequence_nr = pse_sequence_number e, smv_time_stamp = ds_now s\<rparr>"
    by simp_all
  have v: "is_valid_for_remove_operation env e = Inr True" using accepted(3) by (simp add: accepts_remove_iff)
  then have "pse_receivers_pub_key_bytes e = None"
    using assms(2) by (auto simp: valid_for_remove_iff split: option.splits)
  with v have add: "is_valid_for_add_operation env e = Inr True"
    by (simp add: valid_for_remove_iff valid_for_add_iff)
  have now: "ds_now t = ds_now s"
    using accepted(5)
    by (simp add: apply_remove_def Let_def log_event_def record_sequence_number_def add_hash_def
        remove_from_map_and_data_store_def remove_one_def)
  have "accepts_add env e h t = Inr True"
    using number m add assms(2-4) now
    by (auto simp: accepts_add_iff number_permits_add_def)
  with accepted(1,2) m show ?thesis
    by (simp add: add_protected_storage_entry_def)
qed simp

text \<open>A refresh replaces the stored entry by one of the base class, even when it was a mailbox entry: the
  removal by the receiver is then refused.\<close>

lemma refreshed_mailbox_not_removable:
  assumes "refresh_ttl env m sender s = (Inr True, t)"
    and "get_32_byte_hash env (pse_payload e) = rom_hash_of_payload m" and "is_mailbox_entry e"
  shows "fst (remove_protected_storage_entry env e sender' t) \<noteq> Inr True"
  using assms(1)
proof (cases rule: refresh_ttl_cases)
  case (accepted stored)
  have st: "map_of (ds_map t) (rom_hash_of_payload m) = Some (refreshed_entry m stored s)"
    by (simp add: accepted(5))
  obtain r u where u: "remove_protected_storage_entry env e sender' t = (r, u)"
    by (cases "remove_protected_storage_entry env e sender' t")
  then show ?thesis
  proof (cases rule: remove_protected_storage_entry_cases)
    case (accepted k)
    then have "relevant_keys_match e (refreshed_entry m stored s)"
      using st assms(2) by (simp add: accepts_remove_iff)
    then show ?thesis using assms(3) by (auto simp: relevant_keys_match_def)
  qed (simp add: u)
qed simp

section \<open>Own entries\<close>

definition signature_scheme_ok :: "p2p_env \<Rightarrow> bytes \<times> bytes \<Rightarrow> bool" where
  "signature_scheme_ok env key \<longleftrightarrow>
     pe_key_ok env (snd key) \<and> (\<forall>d. pe_verify env (snd key) d (pe_sign env (fst key) d))"

lemma sign_pair_Inr:
  assumes "sign_pair env p key s = Inr (h, n, pair_hash, sig)"
  shows "h = get_32_byte_hash env p" and "h \<noteq> []" and "n = next_sequence_number h s"
    and "data_and_seq_nr_hash env p n = Inr pair_hash" and "sig = pe_sign env (fst key) pair_hash"
  using assms by (auto simp: sign_pair_def Let_def storage_byte_array_def split: if_splits)

text \<open>No other payload with the same hash is stored.\<close>

definition no_collision :: "p2p_env \<Rightarrow> protected_storage_payload \<Rightarrow> data_storage \<Rightarrow> bool" where
  "no_collision env p s \<longleftrightarrow>
     (\<forall>stored. map_of (ds_map s) (get_32_byte_hash env p) = Some stored \<longrightarrow> pse_payload stored = p)"

lemma own_entry_accepted:
  assumes "get_protected_storage_entry env (Other_Payload p) key s = (Inr e, s')"
    and "signature_scheme_ok env key" and "snd key = pp_owner_pub_key_bytes p"
    and "\<And>ttl. pp_ttl p = Some ttl \<Longrightarrow> 0 \<le> ttl"
    and "\<And>f. pe_filter env = Some f \<Longrightarrow> f (Other_Payload p)"
    and "abs_ok env (abs_storage s)" and "no_collision env (Other_Payload p) s"
  shows "fst (add_protected_storage_entry env e sender b s') = Inr True"
proof -
  obtain h n pair_hash sig where sp: "sign_pair env (Other_Payload p) key s = Inr (h, n, pair_hash, sig)"
    using assms(1) by (auto simp: get_protected_storage_entry_def split: sum.splits)
  have e: "e = new_protected_storage_entry (ds_now s) (ds_next_ref s) (Other_Payload p) n sig None (snd key)"
    and s': "s' = s\<lparr>ds_next_ref := ds_next_ref s + 1\<rparr>"
    using assms(1) sp by (simp_all add: get_protected_storage_entry_def)
  note f = sign_pair_Inr [OF sp]
  have fields: "pse_payload e = Other_Payload p" "pse_sequence_number e = n" "pse_signature e = sig"
    "pse_owner_pub_key_bytes e = snd key" "pse_receivers_pub_key_bytes e = None"
    "pse_creation_time_stamp e = ds_now s"
    by (simp_all add: e new_protected_storage_entry_def)
  have "signed_by_owner env e"
    using f(4,5) assms(2)
    by (auto simp: signed_by_owner_def fields data_and_seq_nr_hash_def signature_scheme_ok_def split: if_splits)
  then have valid: "is_valid_for_add_operation env e = Inr True"
    using assms(3) by (simp add: valid_for_add_iff fields)
  have number: "number_permits_add (abs_storage s') h n"
    using f(3) by (auto simp: s' number_permits_add_def next_sequence_number_def split: option.split)
  have stored: "relevant_keys_match e stored" if "map_of (ds_map s') h = Some stored" for stored
  proof -
    have at: "as_entries (abs_storage s) h = Some stored"
      using that by (simp add: s')
    have "is_valid_for_add_operation env stored = Inr True" using abs_okD(2) [OF assms(6) at] by simp
    moreover have "pse_payload stored = Other_Payload p"
      using assms(7) that f(1) by (simp add: no_collision_def s')
    ultimately show ?thesis using assms(3) by (simp add: relevant_keys_match_def fields valid_for_add_iff)
  qed
  have "\<not> is_expired (ds_now s') e"
    using assms(4) by (auto simp: is_expired_def fields s' split: option.splits)
  then have "accepts_add env e h s' = Inr True"
    using valid number stored assms(5) by (auto simp: accepts_add_iff fields)
  then show ?thesis using f(1,2) by (simp add: add_protected_storage_entry_def fields)
qed

section \<open>Responses\<close>

text \<open>The items a peer should get: unknown to it and permitted by its capabilities.\<close>

definition wanted_items ::
  "'a item_view \<Rightarrow> 'a byte_map \<Rightarrow> bytes set \<Rightarrow> capabilities \<Rightarrow> 'a set" where
  "wanted_items v to_filter known peer =
     {x. \<exists>k. (k, x) \<in> set to_filter \<and> k \<notin> known \<and>
         should_transmit_payload_to_peer peer (iv_required_capabilities v x)}"

lemma sort_key_set: "set (sort_key f xs) = set xs"
  by simp

text \<open>The three parts of the response, before the cut to \<open>max_entries\<close>.\<close>

definition filtered_list ::
  "'a item_view \<Rightarrow> 'a byte_map \<Rightarrow> bytes set \<Rightarrow> capabilities \<Rightarrow> 'a list" where
  "filtered_list v to_filter known peer =
     map snd (filter (\<lambda>(key, item). key \<notin> known \<and>
       should_transmit_payload_to_peer peer (iv_required_capabilities v item)) to_filter)"

lemma set_filtered_list: "set (filtered_list v to_filter known peer) = wanted_items v to_filter known peer"
  by (force simp: filtered_list_def wanted_items_def)

lemma filter_known_hashes_parts:
  fixes v :: "'a item_view"
  assumes "filter_known_hashes v to_filter known peer max_entries limit tr = (result, truncated)"
  obtains lows dates where
    "result = set (take max_entries (filter (\<lambda>x. iv_priority v x = MID) (filtered_list v to_filter known peer)
                @ lows @ dates)
              @ filter (\<lambda>x. iv_priority v x = HIGH) (filtered_list v to_filter known peer))"
    and "set (lows @ dates) \<subseteq> {x \<in> wanted_items v to_filter known peer. iv_priority v x = LOW}"
    and "\<not> truncated \<Longrightarrow>
           set (lows @ dates) = {x \<in> wanted_items v to_filter known peer. iv_priority v x = LOW} \<and>
           length (filter (\<lambda>x. iv_priority v x = MID) (filtered_list v to_filter known peer) @ lows @ dates)
             \<le> max_entries"
proof -
  let ?f = "filtered_list v to_filter known peer"
  let ?low = "filter (\<lambda>x. iv_priority v x = LOW) ?f"
  let ?plain = "filter (\<lambda>x. iv_truncatable v x = None) ?low"
  let ?dated = "filter (\<lambda>x. iv_truncatable v x \<noteq> None) ?low"
  obtain lows n ex where 1: "take_within_limit (iv_size v) limit ?plain (0, False) = (lows, n, ex)"
    by (metis prod_cases3)
  obtain items m ex2 where 2: "take_within_limit (iv_size v) limit ?dated (n, False) = (items, m, ex2)"
    by (metis prod_cases3)
  obtain kept dropped where 3: "truncate_by_date v items = (kept, dropped)" by (metis surj_pair)
  define dates where "dates = (if ex then [] else sort_key (\<lambda>x. - date_of v x) kept)"
  have l: "set lows \<subseteq> set ?plain" by (rule take_within_limit_subset [OF 1])
  have d: "set dates \<subseteq> set ?dated"
    using take_within_limit_subset [OF 2] truncate_by_date_subset [OF 3] by (auto simp: dates_def)
  have low: "set ?low = {x \<in> wanted_items v to_filter known peer. iv_priority v x = LOW}"
    by (auto simp: set_filtered_list)
  have sub: "set (lows @ dates) \<subseteq> set ?low" using l d by auto
  have split: "set ?low = set ?plain \<union> set ?dated" by (simp only: set_filter) blast
  have eq: "filter_known_hashes v to_filter known peer max_entries limit tr =
      (set (take max_entries (filter (\<lambda>x. iv_priority v x = MID) ?f @ lows @ dates)
            @ filter (\<lambda>x. iv_priority v x = HIGH) ?f),
       ((if ex then tr else tr \<or> dropped) \<or>
        max_entries < length (filter (\<lambda>x. iv_priority v x = MID) ?f @ lows @ dates)) \<or> ex \<or> ex2 \<and> \<not> ex)"
    unfolding filter_known_hashes_def filtered_list_def [symmetric] Let_def 1 prod.case 2 3
    by (cases ex) (simp_all only: if_True if_False prod.case dates_def HOL.simp_thms)
  note r = eq [unfolded assms, simplified prod.inject, THEN conjunct1]
    and t = eq [unfolded assms, simplified prod.inject, THEN conjunct2]
  show thesis
  proof (rule that [of lows dates])
    show "\<not> truncated \<Longrightarrow>
           set (lows @ dates) = {x \<in> wanted_items v to_filter known peer. iv_priority v x = LOW} \<and>
           length (filter (\<lambda>x. iv_priority v x = MID) ?f @ lows @ dates) \<le> max_entries"
    proof -
      assume "\<not> truncated"
      then have f: "\<not> ex" "\<not> ex2" "\<not> dropped"
        "length (filter (\<lambda>x. iv_priority v x = MID) ?f @ lows @ dates) \<le> max_entries"
        using t by (auto split: if_splits)
      have "lows = ?plain" using take_within_limit_all [of _ _ ?plain 0 lows n] 1 f(1) by simp
      moreover have "items = ?dated" using take_within_limit_all [of _ _ ?dated n items m] 2 f(2) by simp
      then have "set dates = set ?dated"
        using truncate_by_date_all [of v items kept] 3 f(1,3) by (simp add: dates_def)
      ultimately have "set (lows @ dates) = set ?low" using split by simp
      with low f(4) show ?thesis by simp
    qed
  next
    show "set (lows @ dates) \<subseteq> {x \<in> wanted_items v to_filter known peer. iv_priority v x = LOW}"
      using sub unfolding low .
  qed (fact r)
qed

lemma priority_cases: "p = LOW \<or> p = MID \<or> p = HIGH"
  by (cases p) simp_all

lemma response_sound:
  assumes "filter_known_hashes v to_filter known peer max_entries limit tr = (result, truncated)"
  shows "result \<subseteq> wanted_items v to_filter known peer"
    and "{x \<in> wanted_items v to_filter known peer. iv_priority v x = HIGH} \<subseteq> result"
    and "card result \<le> max_entries + length (filter (\<lambda>(_, x). iv_priority v x = HIGH) to_filter)"
proof -
  let ?f = "filtered_list v to_filter known peer"
  obtain lows dates where r: "result = set (take max_entries (filter (\<lambda>x. iv_priority v x = MID) ?f @ lows @ dates)
              @ filter (\<lambda>x. iv_priority v x = HIGH) ?f)"
    and sub: "set (lows @ dates) \<subseteq> {x \<in> wanted_items v to_filter known peer. iv_priority v x = LOW}"
    using assms by (rule filter_known_hashes_parts)
  show "result \<subseteq> wanted_items v to_filter known peer"
    using sub set_filtered_list [of v to_filter known peer]
    by (auto simp: r dest!: in_set_takeD)
  show "{x \<in> wanted_items v to_filter known peer. iv_priority v x = HIGH} \<subseteq> result"
    by (auto simp: r set_filtered_list)
  have "card result \<le> length (take max_entries (filter (\<lambda>x. iv_priority v x = MID) ?f @ lows @ dates)
              @ filter (\<lambda>x. iv_priority v x = HIGH) ?f)"
    unfolding r by (rule card_length)
  moreover have "length (take max_entries xs) \<le> max_entries" for xs :: "'a list" by simp
  moreover have "length (filter (\<lambda>x. iv_priority v x = HIGH) ?f) \<le>
      length (filter (\<lambda>(_, x). iv_priority v x = HIGH) to_filter)"
    by (induction to_filter) (auto simp: filtered_list_def)
  ultimately show "card result \<le> max_entries + length (filter (\<lambda>(_, x). iv_priority v x = HIGH) to_filter)"
    by (smt (verit) add_le_mono length_append order_trans)
qed

lemma response_complete:
  assumes "filter_known_hashes v to_filter known peer max_entries limit tr = (result, False)"
  shows "result = wanted_items v to_filter known peer"
proof -
  let ?f = "filtered_list v to_filter known peer" and ?w = "wanted_items v to_filter known peer"
  obtain lows dates where r: "result = set (take max_entries (filter (\<lambda>x. iv_priority v x = MID) ?f @ lows @ dates)
              @ filter (\<lambda>x. iv_priority v x = HIGH) ?f)"
    and c: "set (lows @ dates) = {x \<in> ?w. iv_priority v x = LOW} \<and>
           length (filter (\<lambda>x. iv_priority v x = MID) ?f @ lows @ dates) \<le> max_entries"
    using filter_known_hashes_parts [OF assms] by (metis (no_types, lifting))
  have "result = {x \<in> ?w. iv_priority v x = MID} \<union> {x \<in> ?w. iv_priority v x = LOW}
      \<union> {x \<in> ?w. iv_priority v x = HIGH}"
    using c take_all [of "filter (\<lambda>x. iv_priority v x = MID) ?f @ lows @ dates" max_entries]
    unfolding r by (auto simp: set_filtered_list simp del: take_append)
  then show ?thesis using priority_cases by blast
qed

section \<open>Broadcasts\<close>

text \<open>All timers of one response broadcast the same entry, the last one of its data set.\<close>

lemma process_entries_cur:
  "process_entries env sender es cur n s = (Inr u, c, k, t) \<Longrightarrow>
     c = (if es = [] then cur else Some (last es)) \<and>
     k = n + length (filter (\<lambda>e. payload_priority (pse_payload e) = HIGH) es)"
proof (induction es arbitrary: cur n s)
  case (Cons e es)
  define n' where "n' = (if payload_priority (pse_payload e) = HIGH then n + 1 else n)"
  obtain r' w where w: "add_protected_storage_entry env e (Some sender) False s = (r', w)"
    by (cases "add_protected_storage_entry env e (Some sender) False s")
  then have "process_entries env sender es (Some e) n' w = (Inr u, c, k, t)"
    using Cons.prems by (cases r') (simp_all add: n'_def Let_def)
  from Cons.IH [OF this] show ?case by (auto simp: n'_def)
qed simp

lemma timers_frame:
  "ds_timers (apply_add env e h sender b s) = ds_timers s"
  by (simp add: apply_add_def Let_def log_event_def record_sequence_number_def store_entry_def)

lemma process_entries_timers:
  "process_entries env sender es cur n s = (r, c, k, t) \<Longrightarrow> ds_timers t = ds_timers s"
proof (induction es arbitrary: cur n s)
  case (Cons e es)
  obtain r' u where u: "add_protected_storage_entry env e (Some sender) False s = (r', u)"
    by (cases "add_protected_storage_entry env e (Some sender) False s")
  then have "ds_timers u = ds_timers s"
    by (cases rule: add_protected_storage_entry_cases) (simp_all add: timers_frame)
  with Cons u show ?case by (auto simp: Let_def split: sum.splits)
qed simp

lemma payload_timers:
  "process_network_payload env wt sender p s = (r, t) \<Longrightarrow> ds_timers t = ds_timers s"
  by (auto simp: process_network_payload_def add_persistable_network_payload_from_initial_request_def
      add_persistable_network_payload_internal_def log_event_def Let_def
      split: if_splits sum.splits prod.splits)

lemma rebroadcasts_last_entry:
  assumes "process_get_data_response env response sender s = (Inr (), t)"
  shows "ds_timers t = ds_timers s @
           replicate (length (filter (\<lambda>e. payload_priority (pse_payload e) = HIGH) (gds_data_set response)))
             (last (gds_data_set response), sender)"
proof -
  obtain r cur n u where 1: "process_entries env sender (gds_data_set response) None 0 s = (r, cur, n, u)"
    by (cases "process_entries env sender (gds_data_set response) None 0 s")
  have r: "r = Inr ()" using assms 1 by (cases r) (auto simp: process_get_data_response_def Let_def)
  define u1 where "u1 = (case cur of None \<Rightarrow> u | Some e \<Rightarrow> u\<lparr>ds_timers := ds_timers u @ replicate n (e, sender)\<rparr>)"
  obtain r2 w where 2: "for_each (process_network_payload env (gds_was_truncated response) sender)
      (gds_persistable_network_payload_set response) u1 = (r2, w)" by (meson surj_pair)
  have "ds_timers t = ds_timers w"
    using assms 1 2 r by (auto simp: process_get_data_response_def u1_def Let_def split: sum.splits)
  also have "\<dots> = ds_timers u1"
    using 2 by (rule for_each_inv) (auto dest: payload_timers)
  also have "\<dots> = ds_timers s @
           replicate (length (filter (\<lambda>e. payload_priority (pse_payload e) = HIGH) (gds_data_set response)))
             (last (gds_data_set response), sender)"
    using process_entries_cur [OF 1 [unfolded r]] process_entries_timers [OF 1]
    by (simp add: u1_def)
  finally show ?thesis .
qed

text \<open>A payload that is already stored is not broadcast, whatever the flag \<open>re_broadcast\<close> says.\<close>

lemma known_payload_not_rebroadcast:
  assumes "map_of (append_only_get_map env p (ds_append_only_stores s)) (pnp_hash p) \<noteq> None"
  shows "snd (add_persistable_network_payload env p sender re_broadcast s) = s"
  using assms
  by (auto simp: add_persistable_network_payload_def add_persistable_network_payload_internal_def Let_def
      storage_byte_array_def split: prod.splits)

section \<open>Initial states\<close>

text \<open>A storage that has just been created: the stores hold what is on the disk.\<close>

definition new_storage ::
  "int \<Rightarrow> protected_storage_entry byte_map list \<Rightarrow> append_only_store list \<Rightarrow> data_storage" where
  "new_storage now protected stores =
     \<lparr>ds_now = now, ds_next_ref = 0, ds_map = [], ds_sequence_number_map = [], ds_removed_payloads = [],
      ds_protected_stores = protected, ds_append_only_stores = stores,
      ds_initial_request_applied = False, ds_timers = [], ds_log = []\<rparr>"

lemma new_storage_ok: "keys_ok (new_storage now protected stores)" "abs_ok env (abs_storage (new_storage now protected stores))"
  by (simp_all add: new_storage_def keys_ok_def abs_ok_def)

lemma new_storage_stems:
  assumes "labelled_run (storage_step env) ls (new_storage now protected stores) t" and "map_of (ds_map t) h = Some e"
  shows "genuine env h e \<or> loaded ls h (pse_payload e)"
  using storage_runs_stem [OF assms(1) new_storage_ok(1) assms(2)] by (simp add: new_storage_def)

text \<open>Which hashes of removed messages are known after a start.\<close>

lemma removed_hashes_read:
  "was_removed h (removed_payloads_read_persisted r s) \<longleftrightarrow>
     was_removed h s \<or> (\<exists>date. (h, date) \<in> set r \<and> ds_now s - MAILBOX_TTL < date)"
  using abs_loads(4) [of env r s] by (simp add: was_removed_abs)

end
