(* ===== verification/P2P_Examples.thy ===== *)
theory P2P_Examples
  imports P2P_Facts
begin

text \<open>
  A small network for the witnesses: keys and hashes are short byte strings, a signature is the key
  followed by the signed data, the hash of a payload is its content.
\<close>

definition ex_serialize :: "protected_storage_payload \<Rightarrow> bytes" where
  "ex_serialize p = (case p of Mailbox_Payload m \<Rightarrow> 1 # msp_message m | Other_Payload o' \<Rightarrow> 2 # pp_content o')"

definition ex_p2p_env :: p2p_env where
  "ex_p2p_env =
     \<lparr>pe_sha256 = \<lambda>b. b, pe_serialize_for_hash = ex_serialize,
      pe_serialize_pair = \<lambda>p n. word_of_int n # ex_serialize p, pe_entry_size = \<lambda>e. 100 + int (length (pse_signature e)),
      pe_key_ok = \<lambda>k. k \<noteq> [], pe_verify = \<lambda>k d sig. sig = k @ d, pe_sign = \<lambda>k d. k @ d,
      pe_filter = None, pe_can_handle = \<lambda>i p. True, pe_can_handle_network_payload = \<lambda>i p. True,
      pe_max_sequence_number_map_size_before_purge = 2\<rparr>"

definition ex_alice :: "bytes \<times> bytes" where "ex_alice = ([7], [7])"
definition ex_bob :: "bytes \<times> bytes" where "ex_bob = ([8], [8])"

definition ex_address :: node_address where "ex_address = \<lparr>na_host_name = ''a.onion'', na_port = 9\<rparr>"

definition ex_offer :: protected_payload where
  "ex_offer =
     \<lparr>pp_class_name = ''Offer'', pp_content = [5], pp_owner_pub_key_bytes = [7], pp_ttl = Some 1000,
      pp_persistable = True, pp_owner_node_address = Some ex_address, pp_required_capabilities = None,
      pp_priority = LOW\<rparr>"

definition ex_alert :: protected_payload where
  "ex_alert = ex_offer\<lparr>pp_class_name := ''Alert'', pp_content := [6], pp_priority := HIGH\<rparr>"

definition ex_mail :: mailbox_storage_payload where
  "ex_mail = \<lparr>msp_message = [9], msp_sender_pub_key_for_add_operation_bytes = [7],
      msp_owner_pub_key_bytes = [8], msp_extra_data_map = None\<rparr>"

definition ex_storage :: data_storage where "ex_storage = new_storage 5000 [[]] []"

definition ex_offer_entry :: protected_storage_entry where
  "ex_offer_entry = new_protected_storage_entry 5000 0 (Other_Payload ex_offer) 1 [7, 1, 2, 5] None [7]"

definition ex_offer_removal :: protected_storage_entry where
  "ex_offer_removal = new_protected_storage_entry 5000 1 (Other_Payload ex_offer) 2 [7, 2, 2, 5] None [7]"

definition ex_mail_entry :: protected_storage_entry where
  "ex_mail_entry = new_protected_mailbox_storage_entry 5000 2 (Mailbox_Payload ex_mail) 1 [7, 1, 1, 9] None [7] [8]"

definition ex_mail_removal :: protected_storage_entry where
  "ex_mail_removal = new_protected_mailbox_storage_entry 5000 3 (Mailbox_Payload ex_mail) 3 [8, 3, 1, 9] None [8] [8]"

definition ex_mail_refresh :: refresh_offer_message where
  "ex_mail_refresh = \<lparr>rom_hash_of_data_and_seq_nr = [2, 1, 9], rom_signature = [7, 2, 1, 9],
     rom_hash_of_payload = [1, 9], rom_sequence_number = 2\<rparr>"

definition ex_with_offer :: data_storage where
  "ex_with_offer = snd (add_protected_storage_entry ex_p2p_env ex_offer_entry None True ex_storage)"

definition ex_with_mail :: data_storage where
  "ex_with_mail = snd (add_protected_storage_entry ex_p2p_env ex_mail_entry None True ex_with_offer)"

lemmas ex_p2p_defs = ex_p2p_env_def ex_serialize_def ex_alice_def ex_bob_def ex_address_def ex_offer_def
  ex_alert_def ex_mail_def ex_storage_def ex_offer_entry_def ex_offer_removal_def ex_mail_entry_def
  ex_mail_removal_def ex_mail_refresh_def new_storage_def

lemma ex_offer_added: "fst (add_protected_storage_entry ex_p2p_env ex_offer_entry None True ex_storage) = Inr True"
  by code_simp

lemma ex_mail_added: "fst (add_protected_storage_entry ex_p2p_env ex_mail_entry None True ex_with_offer) = Inr True"
  by code_simp

lemma ex_offer_removed:
  "fst (remove_protected_storage_entry ex_p2p_env ex_offer_removal None ex_with_mail) = Inr True"
  by code_simp

lemma ex_mail_refreshed: "fst (refresh_ttl ex_p2p_env ex_mail_refresh None ex_with_mail) = Inr True"
  by code_simp

section \<open>Properties of the storage\<close>

text \<open>C22: Every run of the storage, step by step and with the same labels, is a run of the abstract
  storage.  Messages, calls, responses and timers (\<open>Traffic\<close>) only add an entry that is valid, not
  expired and new enough, renew one with a higher signed number, or drop one on a request that is valid
  and has a higher number, and no number is forgotten; a broken connection ages the entries of the peer;
  the maintenance drops exactly the expired entries and, when there are too many, the numbers older than
  \<open>PURGE_AGE_DAYS\<close>; what a start takes over from the disk is in the labels.  So a stored entry lies
  under its own hash and is valid, unless its payload was taken over from the disk, and where nothing
  is, it also carries the recorded number and is no removed mailbox message.\<close>

theorem storage_refines_abstract:
  assumes "labelled_run (storage_step env) ls (new_storage now protected stores) t"
  shows "labelled_run (abs_step env) ls (abs_storage (new_storage now protected stores)) (abs_storage t) \<and>
         keys_ok t \<and>
         (\<forall>h e. map_of (ds_map t) h = Some e \<longrightarrow> genuine env h e \<or> loaded ls h (pse_payload e)) \<and>
         ((\<forall>l \<in> set ls. \<not> is_load l) \<longrightarrow> abs_ok env (abs_storage t))"
  using storage_run_sim [OF assms new_storage_ok(1)] new_storage_stems [OF assms]
    storage_runs_ok [OF assms new_storage_ok] by blast

lemma ex_step_offer: "traffic_step ex_p2p_env ex_storage ex_with_offer"
  unfolding ex_with_offer_def by (rule own_add) (rule prod.collapse [symmetric])

lemma ex_step_mail: "traffic_step ex_p2p_env ex_with_offer ex_with_mail"
  unfolding ex_with_mail_def by (rule own_add) (rule prod.collapse [symmetric])

lemma ex_reaches_mail: "labelled_run (storage_step ex_p2p_env) [Traffic, Traffic] (new_storage 5000 [[]] []) ex_with_mail"
  using messages [OF ex_step_offer] messages [OF ex_step_mail] by (auto simp: ex_storage_def)

definition ex_alert_entry :: protected_storage_entry where
  "ex_alert_entry = new_protected_storage_entry 5000 4 (Other_Payload ex_alert) 1 [7, 1, 2, 6] None [7]"

text \<open>A start with an entry on the disk, an offer, and the time after which both have expired.\<close>

definition ex_started :: data_storage where
  "ex_started = read_from_resources (new_storage 5000 [[([2, 6], ex_alert_entry)]] [])"

definition ex_expired :: data_storage where
  "ex_expired = remove_expired_entries ex_p2p_env
     ((snd (add_protected_storage_entry ex_p2p_env ex_offer_entry None True ex_started))\<lparr>ds_now := 7000\<rparr>)"

theorem storage_refines_abstract_witness:
  "labelled_run (abs_step ex_p2p_env) [Load_Entries [([2, 6], ex_alert_entry)], Traffic, Time_Passes 7000, Expiry_And_Purge]
     (abs_storage (new_storage 5000 [[([2, 6], ex_alert_entry)]] [])) (abs_storage ex_expired) \<and>
   ds_map ex_expired = [] \<and> map fst (ds_sequence_number_map ex_expired) = [[2, 5]]"
proof -
  let ?s = "new_storage 5000 [[([2, 6], ex_alert_entry)]] []"
  let ?t = "snd (add_protected_storage_entry ex_p2p_env ex_offer_entry None True ex_started)"
  have l: "protected_store_get_map (ds_protected_stores ?s) = [([2, 6], ex_alert_entry)]"
    by (simp add: new_storage_def protected_store_get_map_def al_update_all_def)
  have "storage_step ex_p2p_env (Load_Entries [([2, 6], ex_alert_entry)]) ?s ex_started"
    using start_resources [of ex_p2p_env ?s] unfolding l ex_started_def .
  moreover have "storage_step ex_p2p_env Traffic ex_started ?t"
    by (rule messages, rule own_add) (rule prod.collapse [symmetric])
  ultimately have "labelled_run (storage_step ex_p2p_env)
      [Load_Entries [([2, 6], ex_alert_entry)], Traffic, Time_Passes 7000, Expiry_And_Purge] ?s ex_expired"
    using clock [of ex_p2p_env 7000 ?t] maintenance [of ex_p2p_env "?t\<lparr>ds_now := 7000\<rparr>"]
    by (auto simp: ex_expired_def)
  moreover have "ds_map ex_expired = []" "map fst (ds_sequence_number_map ex_expired) = [[2, 5]]" by code_simp+
  ultimately show ?thesis using storage_refines_abstract by blast
qed

text \<open>C23: While the node runs, a removed mailbox message does not come back from the network.  Once the hash of a mailbox message is recorded as
  removed and no such message is stored under it, which an accepted removal brings about, the hash stays
  recorded, and whatever messages, responses, broken connections, maintenance (the purge of the sequence
  numbers included) and start-up steps follow, no mailbox message is stored under the hash, unless the
  start-up itself puts one there: the code that takes over the persisted mailbox messages of the node
  (\<open>add_protected_mailbox_storage_entry_to_map\<close>) does not ask whether the message was removed, as
  \<open>start_up_restores_removed_message\<close> shows.  A restart begins a new run, in which only the hashes are
  recorded that are younger than the time to live of a mailbox message (\<open>removed_hashes_read\<close>).\<close>

theorem removed_mailbox_message_never_returns:
  assumes "labelled_run (storage_step env) ls s t" and "keys_ok s" and "was_removed h s"
    and "\<not> (\<exists>e. map_of (ds_map s) h = Some e \<and> is_add_once_payload (pse_payload e))"
  shows "was_removed h t \<and>
     ((\<exists>e. map_of (ds_map t) h = Some e \<and> is_add_once_payload (pse_payload e)) \<longrightarrow>
      (\<exists>es e. Load_Entries es \<in> set ls \<and> (h, e) \<in> set es \<and> is_add_once_payload (pse_payload e)))"
proof -
  have "labelled_run (abs_step env) ls (abs_storage s) (abs_storage t)"
    using storage_run_sim [OF assms(1,2)] by simp
  moreover have "h \<in> as_removed (abs_storage s)" "\<not> holds_mailbox (abs_storage s) h"
    using assms(3,4) by (simp_all add: was_removed_abs holds_mailbox_def)
  ultimately have "h \<in> as_removed (abs_storage t) \<and>
      (holds_mailbox (abs_storage t) h \<longrightarrow> (\<exists>p. is_add_once_payload p \<and> loaded ls h p))"
    by (rule removed_run)
  then show ?thesis by (auto simp: was_removed_abs holds_mailbox_def loaded_def)
qed

definition ex_mail_removed :: data_storage where
  "ex_mail_removed = snd (remove_protected_storage_entry ex_p2p_env ex_mail_removal None ex_with_mail)"

text \<open>The message as its sender would send it again, with a higher number; and the start-up that puts it
  back.\<close>

definition ex_mail_again :: protected_storage_entry where
  "ex_mail_again = new_protected_mailbox_storage_entry 5000 5 (Mailbox_Payload ex_mail) 4 [7, 4, 1, 9] None [7] [8]"

lemma ex_mail_not_added:
  "fst (add_protected_storage_entry ex_p2p_env ex_mail_again None True ex_mail_removed) = Inr False"
  by code_simp

lemma start_up_restores_removed_message:
  "map_of (ds_map (snd (add_protected_mailbox_storage_entry_to_map ex_p2p_env ex_mail_entry ex_mail_removed))) [1, 9]
     = Some ex_mail_entry"
  by code_simp

theorem removed_mailbox_message_never_returns_witness:
  "map_of (ds_map ex_with_mail) [1, 9] = Some ex_mail_entry \<and>
   was_removed [1, 9] (snd (add_protected_storage_entry ex_p2p_env ex_mail_again None True ex_mail_removed)) \<and>
   \<not> (\<exists>e. map_of (ds_map (snd (add_protected_storage_entry ex_p2p_env ex_mail_again None True ex_mail_removed))) [1, 9]
         = Some e \<and> is_add_once_payload (pse_payload e))"
proof -
  let ?t = "snd (add_protected_storage_entry ex_p2p_env ex_mail_again None True ex_mail_removed)"
  have "traffic_step ex_p2p_env ex_with_mail ex_mail_removed"
    unfolding ex_mail_removed_def by (rule own_remove) (rule prod.collapse [symmetric])
  then have "labelled_run (storage_step ex_p2p_env) [Traffic] ex_with_mail ex_mail_removed"
    by (intro labelled_run_one messages)
  with ex_reaches_mail have "labelled_run (storage_step ex_p2p_env) ([Traffic, Traffic] @ [Traffic]) (new_storage 5000 [[]] []) ex_mail_removed"
    unfolding labelled_run_append by blast
  then have k: "keys_ok ex_mail_removed" using storage_run_sim [OF _ new_storage_ok(1)] by blast
  have w: "was_removed [1, 9] ex_mail_removed" and n: "map_of (ds_map ex_mail_removed) [1, 9] = None" by code_simp+
  have "traffic_step ex_p2p_env ex_mail_removed ?t" by (rule own_add) (rule prod.collapse [symmetric])
  then have "labelled_run (storage_step ex_p2p_env) [Traffic] ex_mail_removed ?t" by (intro labelled_run_one messages)
  moreover have "map_of (ds_map ex_with_mail) [1, 9] = Some ex_mail_entry" by code_simp
  ultimately show ?thesis using removed_mailbox_message_never_returns [OF _ k w] n by fastforce
qed

text \<open>C24: The recorded sequence number of a payload never decreases while messages are processed, so that
  an addition with a lower number, a late or replayed message, is refused and changes nothing.\<close>

theorem stale_addition_refused:
  assumes "(message_step env)\<^sup>*\<^sup>* s t"
    and "map_of (ds_sequence_number_map s) (get_32_byte_hash env (pse_payload e)) = Some v"
    and "pse_sequence_number e < smv_sequence_nr v"
  shows "fst (add_protected_storage_entry env e sender b t) \<noteq> Inr True \<and>
         snd (add_protected_storage_entry env e sender b t) = t"
  by (rule stale_add_refused_later [OF assms(1,2) refl assms(3)])

definition ex_offer_gone :: data_storage where
  "ex_offer_gone = snd (remove_protected_storage_entry ex_p2p_env ex_offer_removal None ex_with_mail)"

theorem stale_addition_refused_witness:
  "snd (add_protected_storage_entry ex_p2p_env ex_offer_entry None True ex_offer_gone) = ex_offer_gone"
proof -
  have n: "map_of (ds_sequence_number_map ex_offer_gone) (get_32_byte_hash ex_p2p_env (pse_payload ex_offer_entry))
      = Some \<lparr>smv_sequence_nr = 2, smv_time_stamp = 5000\<rparr>" by code_simp
  have "pse_sequence_number ex_offer_entry < 2" by code_simp
  with stale_addition_refused [OF rtranclp.rtrancl_refl n] show ?thesis by simp
qed

text \<open>C25: A message of a peer makes a stored entry disappear only if it is a remove message for that
  payload, with a number above the recorded one, signed by the key of the entry: for a mailbox entry
  the key of the receiver, otherwise the key that added the stored entry.\<close>

theorem removal_is_authorised:
  assumes "on_message env (Some m) peer s = (r, t)"
    and "map_of (ds_map s) h = Some stored" and "map_of (ds_map t) h = None"
  shows "\<exists>e. (m = Remove_Data_Message e \<or> m = Remove_Mailbox_Data_Message e) \<and>
             get_32_byte_hash env (pse_payload e) = h \<and> signed_by_owner env e \<and>
             (\<forall>v. map_of (ds_sequence_number_map s) h = Some v \<longrightarrow> smv_sequence_nr v < pse_sequence_number e) \<and>
             (if is_mailbox_entry e
              then pse_receivers_pub_key_bytes stored = Some (pse_owner_pub_key_bytes e)
              else pse_owner_pub_key_bytes stored = pse_owner_pub_key_bytes e)"
  by (rule removal_needs_signature [OF assms])

theorem removal_is_authorised_witness:
  "signed_by_owner ex_p2p_env ex_offer_removal \<and>
   map_of (ds_map (snd (on_message ex_p2p_env (Some (Remove_Data_Message ex_offer_removal)) (Some ex_address)
     ex_with_mail))) [2, 5] = None"
proof -
  let ?m = "Remove_Data_Message ex_offer_removal"
  have m: "on_message ex_p2p_env (Some ?m) (Some ex_address) ex_with_mail =
      (fst (on_message ex_p2p_env (Some ?m) (Some ex_address) ex_with_mail),
       snd (on_message ex_p2p_env (Some ?m) (Some ex_address) ex_with_mail))" by simp
  have s: "map_of (ds_map ex_with_mail) [2, 5] = Some ex_offer_entry" by code_simp
  have t: "map_of (ds_map (snd (on_message ex_p2p_env (Some ?m) (Some ex_address) ex_with_mail))) [2, 5] = None"
    by code_simp
  from removal_is_authorised [OF m s t] t show ?thesis by auto
qed

text \<open>C26: A response that is not marked as truncated contains exactly the items the peer does not know and
  may get; any response contains only such items, all of those with high priority, and no more than
  the permitted number besides.\<close>

theorem response_contains_wanted_items:
  assumes "filter_known_hashes v to_filter known peer max_entries limit tr = (result, truncated)"
  shows "(\<not> truncated \<longrightarrow> result = wanted_items v to_filter known peer) \<and>
         result \<subseteq> wanted_items v to_filter known peer \<and>
         {x \<in> wanted_items v to_filter known peer. iv_priority v x = HIGH} \<subseteq> result \<and>
         card result \<le> max_entries + length (filter (\<lambda>(_, x). iv_priority v x = HIGH) to_filter)"
proof -
  have "\<not> truncated \<longrightarrow> result = wanted_items v to_filter known peer"
    using assms response_complete [of v to_filter known peer max_entries limit tr result] by (cases truncated) simp_all
  with response_sound [OF assms] show ?thesis by blast
qed

theorem response_contains_wanted_items_witness:
  "filter_known_hashes (entry_view ex_p2p_env) (ds_map ex_with_mail) {[2, 5]} {} 5 1000 False =
     ({ex_mail_entry}, False) \<and>
   wanted_items (entry_view ex_p2p_env) (ds_map ex_with_mail) {[2, 5]} {} = {ex_mail_entry}"
proof -
  have f: "filter_known_hashes (entry_view ex_p2p_env) (ds_map ex_with_mail) {[2, 5]} {} 5 1000 False =
     ({ex_mail_entry}, False)" by code_simp
  with response_contains_wanted_items [OF f] show ?thesis by simp
qed

text \<open>C27: An entry that a node builds and signs for its own payload is accepted by its storage, also when
  an older version is stored.\<close>

theorem own_entry_is_accepted:
  assumes "get_protected_storage_entry env (Other_Payload p) key s = (Inr e, s')"
    and "signature_scheme_ok env key" and "snd key = pp_owner_pub_key_bytes p"
    and "\<And>ttl. pp_ttl p = Some ttl \<Longrightarrow> 0 \<le> ttl"
    and "\<And>f. pe_filter env = Some f \<Longrightarrow> f (Other_Payload p)"
    and "abs_ok env (abs_storage s)" and "no_collision env (Other_Payload p) s"
  shows "fst (add_protected_storage_entry env e sender b s') = Inr True"
  using assms by (rule own_entry_accepted)

lemma ex_scheme: "signature_scheme_ok ex_p2p_env ex_alice"
  by (simp add: signature_scheme_ok_def ex_p2p_defs)

theorem own_entry_is_accepted_witness:
  "\<exists>e s'. get_protected_storage_entry ex_p2p_env (Other_Payload ex_offer) ex_alice ex_with_offer = (Inr e, s') \<and>
     pse_sequence_number e = 2 \<and> fst (add_protected_storage_entry ex_p2p_env e None True s') = Inr True"
proof -
  let ?g = "get_protected_storage_entry ex_p2p_env (Other_Payload ex_offer) ex_alice ex_with_offer"
  have "is_ok (fst ?g)" by code_simp
  then obtain e s' where g: "?g = (Inr e, s')" by (metis is_ok_iff prod.collapse)
  have "map_sum id pse_sequence_number (fst ?g) = Inr 2" by code_simp
  then have n: "pse_sequence_number e = 2" using g by simp
  have ok: "abs_ok ex_p2p_env (abs_storage ex_with_offer)"
  proof (rule storage_runs_ok)
    show "labelled_run (storage_step ex_p2p_env) [Traffic] (new_storage 5000 [[]] []) ex_with_offer"
      using messages [OF ex_step_offer] by (simp add: ex_storage_def)
  qed (simp_all add: new_storage_ok)
  have "map_option pse_payload (map_of (ds_map ex_with_offer) (get_32_byte_hash ex_p2p_env (Other_Payload ex_offer)))
      = Some (Other_Payload ex_offer)" by code_simp
  then have c: "no_collision ex_p2p_env (Other_Payload ex_offer) ex_with_offer"
    by (auto simp: no_collision_def)
  have "fst (add_protected_storage_entry ex_p2p_env e None True s') = Inr True"
    by (rule own_entry_is_accepted [OF g ex_scheme _ _ _ ok c])
      (simp_all add: ex_alice_def ex_offer_def ex_p2p_env_def)
  with g n show ?thesis by blast
qed

text \<open>C28: The fields of a stored entry, unless its payload was taken over from the disk at the start: the
  key of its owner can be read and is the key that may add the payload, the sequence number is an
  \<open>int32\<close>, as its message needs, and an entry of the mailbox class carries a mailbox payload whose
  owner is the receiver of the entry, so that the property \<open>mailbox_storage_payload\<close> of a stored entry
  does not raise.  The key of the receiver is not read by the checks: it need not be a key.\<close>

theorem stored_entries_well_typed:
  assumes "labelled_run (storage_step env) ls (new_storage now protected stores) t"
    and "map_of (ds_map t) h = Some e" and "\<not> loaded ls h (pse_payload e)"
  shows "pe_key_ok env (pse_owner_pub_key_bytes e) \<and> pse_owner_pub_key_bytes e = add_key (pse_payload e) \<and>
         - (2 ^ 31) \<le> pse_sequence_number e \<and> pse_sequence_number e < 2 ^ 31 \<and>
         (\<forall>r. pse_receivers_pub_key_bytes e = Some r \<longrightarrow>
            (\<exists>p. get_mailbox_storage_payload e = Inr p \<and> msp_owner_pub_key_bytes p = r))"
proof -
  have "is_valid_for_add_operation env e = Inr True"
    using new_storage_stems [OF assms(1,2)] assms(3) by (simp add: genuine_def)
  then show ?thesis
    by (auto simp: valid_for_add_iff signed_by_owner_def get_mailbox_storage_payload_def)
qed

theorem stored_entries_well_typed_witness:
  "get_mailbox_storage_payload ex_mail_entry = Inr ex_mail \<and> pe_key_ok ex_p2p_env (pse_owner_pub_key_bytes ex_mail_entry)"
proof -
  have m: "map_of (ds_map ex_with_mail) [1, 9] = Some ex_mail_entry" by code_simp
  have p: "get_mailbox_storage_payload ex_mail_entry = Inr ex_mail" by code_simp
  have "\<not> loaded [Traffic, Traffic] [1, 9] (pse_payload ex_mail_entry)" by (simp add: loaded_def)
  then have "pe_key_ok ex_p2p_env (pse_owner_pub_key_bytes ex_mail_entry)"
    using stored_entries_well_typed [OF ex_reaches_mail m] by blast
  with p show ?thesis by (rule conjI)
qed

text \<open>An entry for a receiver whose key nobody can read is accepted.\<close>

definition ex_unreadable_entry :: protected_storage_entry where
  "ex_unreadable_entry = new_protected_mailbox_storage_entry 5000 6
     (Mailbox_Payload (ex_mail\<lparr>msp_owner_pub_key_bytes := []\<rparr>)) 1 [7, 1, 1, 9] None [7] []"

lemma unreadable_receiver_accepted:
  "fst (add_protected_storage_entry ex_p2p_env ex_unreadable_entry None True ex_with_offer) = Inr True \<and>
   pse_receivers_pub_key_bytes ex_unreadable_entry = Some [] \<and> \<not> pe_key_ok ex_p2p_env []"
  by code_simp

end
