(* ===== verification/Bond_Repository.thy ===== *)
theory Bond_Repository
  imports Gov_State Vote_Consensus "HOL-Library.AList"
begin

text \<open>
  The repositories that follow the bonds of the DAO (\<open>dao/governance/bond/\<close>): the bond objects and
  their states (\<open>bond.py\<close>, \<open>bond_state.py\<close>), the bonds of roles (\<open>bond_repository.py\<close>,
  \<open>role/bonded_roles_repository.py\<close>), the bonded reputations found on the chain
  (\<open>reputation/bonded_reputation_repository.py\<close>) and the user's own
  (\<open>my_bonded_reputation_repository.py\<close>, \<open>my_reputation_list_service.py\<close>).

  A repository's \<open>bonds\<close> list holds the objects of its dictionary.  The role repository never
  replaces an object of the dictionary, so its list is modelled by their uids and a mutation of a bond
  shows in both.  The wallet is not modelled: \<open>pending_tx\<close> is what the code reads of an unconfirmed
  wallet transaction.  Roles are hashed by \<open>br_role_hash\<close>, salts by \<open>br_salt_hash\<close>;
  \<open>br_order_outputs\<close> is the order in which Python iterates the set of lockup outputs.
\<close>

section \<open>Bonds\<close>

datatype bond_state =
    BS_UNDEFINED | READY_FOR_LOCKUP | LOCKUP_TX_PENDING | LOCKUP_TX_CONFIRMED | UNLOCK_TX_PENDING
  | UNLOCK_TX_CONFIRMED | BS_UNLOCKING | BS_UNLOCKED | BS_CONFISCATED

definition bond_state_is_active :: "bond_state \<Rightarrow> bool" where
  "bond_state_is_active b \<longleftrightarrow>
     b \<in> {LOCKUP_TX_CONFIRMED, UNLOCK_TX_PENDING, UNLOCK_TX_CONFIRMED, BS_UNLOCKING}"

record 'asset bond =
  bonded_asset :: 'asset
  bond_lockup_tx_id :: "string option"
  bond_unlock_tx_id :: "string option"
  bond_bond_state :: bond_state
  bond_amount :: int
  bond_lockup_date :: int
  bond_unlock_date :: int
  bond_lock_time :: int

definition new_bond :: "'asset \<Rightarrow> 'asset bond" where
  "new_bond a =
     \<lparr>bonded_asset = a, bond_lockup_tx_id = None, bond_unlock_tx_id = None,
      bond_bond_state = READY_FOR_LOCKUP, bond_amount = 0, bond_lockup_date = 0, bond_unlock_date = 0,
      bond_lock_time = 0\<rparr>"

definition bond_is_active :: "'asset bond \<Rightarrow> bool" where
  "bond_is_active b \<longleftrightarrow> bond_state_is_active (bond_bond_state b)"

section \<open>The state of a bond on the chain\<close>

text \<open>The two tests for confiscation differ in the ids they take as absent: the inline test in
  \<open>apply_bond_state\<close> skips an empty id, the static method only \<open>None\<close>.\<close>

definition id_confiscated :: "(string option \<Rightarrow> bool) \<Rightarrow> 'a dao_state_scheme \<Rightarrow> 'asset bond \<Rightarrow> bool res" where
  "id_confiscated present s b =
     (if present (bond_lockup_tx_id b) \<and> is_confiscated_lockup_tx_output s (the (bond_lockup_tx_id b))
      then Inr True
      else if present (bond_unlock_tx_id b)
      then is_confiscated_unlock_tx_output s (the (bond_unlock_tx_id b))
      else Inr False)"

definition truthy_id :: "string option \<Rightarrow> bool" where
  "truthy_id i \<longleftrightarrow> (case i of None \<Rightarrow> False | Some j \<Rightarrow> j \<noteq> [])"

definition bond_is_confiscated :: "'a dao_state_scheme \<Rightarrow> 'asset bond \<Rightarrow> bool res" where
  "bond_is_confiscated s b = id_confiscated (\<lambda>i. i \<noteq> None) s b"

definition apply_unlock_state :: "'a dao_state_scheme \<Rightarrow> tx_output \<Rightarrow> ('asset bond, unit) action" where
  "apply_unlock_state s out =
     (case get_spent_info s out of
        None \<Rightarrow> return ()
      | Some si \<Rightarrow> (case get_tx s (si_tx_id si) of
          None \<Rightarrow> return ()
        | Some ut \<Rightarrow>
            if tx_tx_type ut = Some UNLOCK
            then abind (modify (\<lambda>b. b\<lparr>bond_unlock_tx_id := Some (tx_id ut),
                                      bond_bond_state := UNLOCK_TX_CONFIRMED,
                                      bond_unlock_date := tx_time ut\<rparr>)) (\<lambda>_.
                 abind (query (\<lambda>_. is_unlocking_and_unspent_tx_id s (tx_id ut))) (\<lambda>unlocking.
                 modify (\<lambda>b. b\<lparr>bond_bond_state := if unlocking then BS_UNLOCKING else BS_UNLOCKED\<rparr>)))
            else return ()))"

definition apply_bond_state ::
  "'a dao_state_scheme \<Rightarrow> tx \<Rightarrow> tx_output \<Rightarrow> ('asset bond, unit) action" where
  "apply_bond_state s lockup_tx out =
     abind (modify (\<lambda>b. if bond_bond_state b \<in> {LOCKUP_TX_PENDING, UNLOCK_TX_PENDING} then b
                        else b\<lparr>bond_bond_state := LOCKUP_TX_CONFIRMED\<rparr>)) (\<lambda>_.
     abind (modify (\<lambda>b. b\<lparr>bond_lockup_tx_id := Some (tx_id lockup_tx),
                          bond_lockup_date := tx_time lockup_tx\<rparr>)) (\<lambda>_.
     abind (query (\<lambda>_. locked_amount lockup_tx)) (\<lambda>amount.
     abind (modify (\<lambda>b. b\<lparr>bond_amount := amount\<rparr>)) (\<lambda>_.
     abind (query (\<lambda>_. tx_lock_time lockup_tx)) (\<lambda>lt.
     abind (modify (\<lambda>b. b\<lparr>bond_lock_time := lt\<rparr>)) (\<lambda>_.
     abind (if is_unspent s (get_key out) then return () else apply_unlock_state s out) (\<lambda>_.
     abind (query (id_confiscated truthy_id s)) (\<lambda>confiscated.
     if confiscated then modify (\<lambda>b. b\<lparr>bond_bond_state := BS_CONFISCATED\<rparr>) else return ()))))))))"

section \<open>Unconfirmed lockup and unlock transactions\<close>

record pending_output =
  po_is_op_return :: bool
  po_pushes :: "bytes option list" \<comment> \<open>the data of the entries of \<open>script.decoded\<close>\<close>

record pending_tx =
  pt_inputs :: "(int \<times> string option) option list"
    \<comment> \<open>of the connected output, if known: its index and the id of its parent, if it has one\<close>
  pt_outputs :: "pending_output list"

definition op_return_push :: "pending_output \<Rightarrow> bytes option" where
  "op_return_push out =
     (if po_is_op_return out \<and> 1 < length (po_pushes out) then po_pushes out ! 1 else None)"

definition is_lockup_tx_unconfirmed :: "pending_tx list \<Rightarrow> bytes \<Rightarrow> bool" where
  "is_lockup_tx_unconfirmed pending h \<longleftrightarrow>
     (\<exists>t \<in> set pending. pt_outputs t \<noteq> [] \<and>
        (case op_return_push (last (pt_outputs t)) of
           None \<Rightarrow> False
         | Some d \<Rightarrow> get_hash_from_op_return_data d = h))"

fun any_res :: "('v \<Rightarrow> bool res) \<Rightarrow> 'v list \<Rightarrow> bool res" where
  "any_res p [] = Inr False"
| "any_res p (x # xs) = rbind (p x) (\<lambda>b. if b then Inr True else any_res p xs)"

definition input_unlocks :: "'a dao_state_scheme \<Rightarrow> bytes \<Rightarrow> (int \<times> string option) option \<Rightarrow> bool res" where
  "input_unlocks s h inp =
     (case inp of
        Some (i, Some parent) \<Rightarrow>
          if i = 0
          then rbind (get_lockup_op_return_tx_output s parent) (\<lambda>out. Inr
                 (case out of
                    None \<Rightarrow> False
                  | Some o' \<Rightarrow> (case txo_op_return_data o' of
                      None \<Rightarrow> False
                    | Some d \<Rightarrow> get_hash_from_op_return_data d = h)))
          else Inr False
      | _ \<Rightarrow> Inr False)"

definition is_unlock_tx_unconfirmed ::
  "'a dao_state_scheme \<Rightarrow> pending_tx list \<Rightarrow> bytes \<Rightarrow> bool res" where
  "is_unlock_tx_unconfirmed s pending h =
     any_res (input_unlocks s h) (concat (map pt_inputs (filter (\<lambda>t. 1 < length (pt_inputs t)) pending)))"

section \<open>Bonds of roles\<close>

record bond_env =
  br_role_hash :: "role \<Rightarrow> bytes"
  br_salt_hash :: "bytes \<Rightarrow> bytes"
  br_order_outputs :: "tx_output set \<Rightarrow> tx_output list"

definition lockup_outputs :: "bond_env \<Rightarrow> 'a dao_state_scheme \<Rightarrow> tx_output list" where
  "lockup_outputs env s = br_order_outputs env (get_lockup_tx_outputs s)"

text \<open>\<open>op_return_data[5:25]\<close> of an output that has no op return data raises.\<close>

definition hash_of_op_return :: "bytes option \<Rightarrow> bytes res" where
  "hash_of_op_return d = (case d of None \<Rightarrow> Inl Type_Error | Some d' \<Rightarrow> Inr (get_hash_from_op_return_data d'))"

definition lockup_tx_hash :: "tx \<Rightarrow> bytes res" where
  "lockup_tx_hash t = rbind (last_tx_output t) (\<lambda>out. hash_of_op_return (txo_op_return_data out))"

fun proposal_role :: "proposal_kind \<Rightarrow> role option" where
  "proposal_role (Role_Proposal r _ _) = Some r"
| "proposal_role _ = None"

definition get_bonded_role_proposals :: "'a dao_state_scheme \<Rightarrow> proposal list" where
  "get_bonded_role_proposals s =
     filter (\<lambda>p. proposal_role (prop_kind p) \<noteq> None) (map ev_proposal (evaluated_proposal_list s))"

definition get_accepted_bonded_role_proposals :: "'a dao_state_scheme \<Rightarrow> proposal list" where
  "get_accepted_bonded_role_proposals s =
     filter (\<lambda>p. proposal_role (prop_kind p) \<noteq> None)
       (map ev_proposal (filter ev_is_accepted (evaluated_proposal_list s)))"

definition role_of :: "proposal \<Rightarrow> role" where
  "role_of p = the (proposal_role (prop_kind p))"

definition get_bonded_roles :: "'a dao_state_scheme \<Rightarrow> role list" where
  "get_bonded_roles s = map role_of (get_bonded_role_proposals s)"

record role_repository =
  role_bond_map :: "(string \<times> role bond) list"
  role_by_hash :: "(bytes \<rightharpoonup> role) option"
  role_bonds :: "string list"

definition empty_role_repository :: role_repository where
  "empty_role_repository = \<lparr>role_bond_map = [], role_by_hash = None, role_bonds = []\<rparr>"

definition bond_of_role :: "role_repository \<Rightarrow> string \<Rightarrow> role bond option" where
  "bond_of_role r u = map_of (role_bond_map r) u"

definition get_bonds :: "role_repository \<Rightarrow> role bond list" where
  "get_bonds r = List.map_filter (bond_of_role r) (role_bonds r)"

definition get_active_bonds :: "role_repository \<Rightarrow> role bond list" where
  "get_active_bonds r = filter bond_is_active (get_bonds r)"

definition is_bonded_asset_already_in_bond :: "role_repository \<Rightarrow> role \<Rightarrow> bool" where
  "is_bonded_asset_already_in_bond r a =
     (case bond_of_role r (role_uid a) of None \<Rightarrow> False | Some b \<Rightarrow> bond_lockup_tx_id b \<noteq> None)"

definition is_my_role :: "'a dao_state_scheme \<Rightarrow> string set \<Rightarrow> role \<Rightarrow> bool" where
  "is_my_role s wallet_tx_ids a \<longleftrightarrow>
     (\<exists>p \<in> set (get_accepted_bonded_role_proposals s).
        role_of p = a \<and> (case prop_tx_id p of None \<Rightarrow> False | Some i \<Rightarrow> i \<in> wallet_tx_ids))"

definition get_accepted_bonded_role_proposal :: "'a dao_state_scheme \<Rightarrow> role \<Rightarrow> proposal option" where
  "get_accepted_bonded_role_proposal s a =
     find (\<lambda>p. role_uid (role_of p) = role_uid a) (get_accepted_bonded_role_proposals s)"

definition get_accepted_bonds :: "'a dao_state_scheme \<Rightarrow> role_repository \<Rightarrow> role bond list" where
  "get_accepted_bonds s r =
     filter (\<lambda>b. get_accepted_bonded_role_proposal s (bonded_asset b) \<noteq> None) (get_bonds r)"

text \<open>A call on the bond object stored under a uid.\<close>

definition on_bond :: "string \<Rightarrow> (role bond, unit) action \<Rightarrow> (role_repository, unit) action" where
  "on_bond u m r =
     (case bond_of_role r u of
        None \<Rightarrow> (Inr (), r)
      | Some b \<Rightarrow> (case m b of (x, b') \<Rightarrow> (x, r\<lparr>role_bond_map := AList.update u b' (role_bond_map r)\<rparr>)))"

definition roles_by_hash :: "bond_env \<Rightarrow> 'a dao_state_scheme \<Rightarrow> bytes \<rightharpoonup> role" where
  "roles_by_hash env s = fold (\<lambda>a m. m(br_role_hash env a \<mapsto> a)) (get_bonded_roles s) Map.empty"

definition get_bonded_asset_by_hash_map ::
  "bond_env \<Rightarrow> 'a dao_state_scheme \<Rightarrow> (role_repository, bytes \<rightharpoonup> role) action" where
  "get_bonded_asset_by_hash_map env s r =
     (case role_by_hash r of
        Some m \<Rightarrow> if m \<noteq> Map.empty then (Inr m, r)
                  else (Inr (roles_by_hash env s), r\<lparr>role_by_hash := Some (roles_by_hash env s)\<rparr>)
      | None \<Rightarrow> (Inr (roles_by_hash env s), r\<lparr>role_by_hash := Some (roles_by_hash env s)\<rparr>))"

definition role_update_bond ::
  "bond_env \<Rightarrow> 'a dao_state_scheme \<Rightarrow> role \<Rightarrow> tx_output \<Rightarrow> (role_repository, unit) action" where
  "role_update_bond env s a out =
     (case get_tx s (txo_tx_id out) of
        None \<Rightarrow> return ()
      | Some lockup_tx \<Rightarrow>
          abind (query (\<lambda>_. lockup_tx_hash lockup_tx)) (\<lambda>h.
          abind (get_bonded_asset_by_hash_map env s) (\<lambda>m.
          if m h = Some a then on_bond (role_uid a) (apply_bond_state s lockup_tx out) else return ())))"

definition update_role :: "bond_env \<Rightarrow> 'a dao_state_scheme \<Rightarrow> role \<Rightarrow> (role_repository, unit) action" where
  "update_role env s a =
     abind (modify (\<lambda>r. if bond_of_role r (role_uid a) = None
                        then r\<lparr>role_bond_map := AList.update (role_uid a) (new_bond a) (role_bond_map r)\<rparr>
                        else r)) (\<lambda>_.
     for_each (role_update_bond env s a) (lockup_outputs env s))"

text \<open>The static method \<open>is_confiscated(bond, dao_state_service)\<close> called as \<open>self.is_confiscated(bond)\<close>
  lacks an argument: the call raises before the state is assigned.\<close>

definition update_pending_lockup ::
  "bond_env \<Rightarrow> pending_tx list \<Rightarrow> role \<Rightarrow> (role_repository, unit) action" where
  "update_pending_lockup env pending a r =
     (if is_lockup_tx_unconfirmed pending (br_role_hash env a) \<and>
         (case bond_of_role r (role_uid a) of
            None \<Rightarrow> False | Some b \<Rightarrow> bond_bond_state b = READY_FOR_LOCKUP)
      then abind (raise Type_Error) (\<lambda>confiscated.
             on_bond (role_uid a)
               (modify (\<lambda>b. b\<lparr>bond_bond_state := if confiscated then BS_CONFISCATED
                                                 else LOCKUP_TX_PENDING\<rparr>))) r
      else return () r)"

definition update_pending_unlock ::
  "bond_env \<Rightarrow> 'a dao_state_scheme \<Rightarrow> pending_tx list \<Rightarrow> role \<Rightarrow> (role_repository, unit) action" where
  "update_pending_unlock env s pending a =
     abind (query (\<lambda>_. is_unlock_tx_unconfirmed s pending (br_role_hash env a))) (\<lambda>unlock_pending r.
     if unlock_pending \<and>
        (case bond_of_role r (role_uid a) of
           None \<Rightarrow> False | Some b \<Rightarrow> bond_bond_state b = LOCKUP_TX_CONFIRMED)
     then abind (raise Type_Error) (\<lambda>confiscated.
            on_bond (role_uid a)
              (modify (\<lambda>b. b\<lparr>bond_bond_state := if confiscated then BS_CONFISCATED
                                                else UNLOCK_TX_PENDING\<rparr>))) r
     else return () r)"

definition update_role_bonds ::
  "bond_env \<Rightarrow> 'a dao_state_scheme \<Rightarrow> pending_tx list \<Rightarrow> (role_repository, unit) action" where
  "update_role_bonds env s pending =
     abind (modify (\<lambda>r. r\<lparr>role_by_hash := None\<rparr>)) (\<lambda>_.
     abind (for_each (update_role env s) (get_bonded_roles s)) (\<lambda>_.
     abind (for_each (update_pending_lockup env pending) (get_bonded_roles s)) (\<lambda>_.
     abind (for_each (update_pending_unlock env s pending) (get_bonded_roles s)) (\<lambda>_.
     modify (\<lambda>r. r\<lparr>role_bonds := map fst (role_bond_map r)\<rparr>)))))"

section \<open>Bonded reputations on the chain\<close>

record reputation_repository =
  rep_bond_map :: "(string \<times> bytes bond) list"
  rep_bonds :: "bytes bond list"

definition reputation_uid :: "bytes \<Rightarrow> string" where
  "reputation_uid h = bytes_hex h"

definition bonded_roles_lockup_tx_ids :: "role bond list \<Rightarrow> string set" where
  "bonded_roles_lockup_tx_ids bs = {i. \<exists>b \<in> set bs. bond_lockup_tx_id b = Some i \<and> i \<noteq> []}"

definition lockup_outputs_for_reputation ::
  "bond_env \<Rightarrow> 'a dao_state_scheme \<Rightarrow> role bond list \<Rightarrow> tx_output list" where
  "lockup_outputs_for_reputation env s bs =
     filter (\<lambda>out. txo_tx_id out \<notin> bonded_roles_lockup_tx_ids bs) (lockup_outputs env s)"

text \<open>A bond is built by an action on a fresh object; if that raises the object is lost.\<close>

definition built :: "('v, unit) action \<Rightarrow> 'v \<Rightarrow> 'v res" where
  "built m v = (case m v of (Inl e, _) \<Rightarrow> Inl e | (Inr _, w) \<Rightarrow> Inr w)"

definition reputation_update_bond ::
  "'a dao_state_scheme \<Rightarrow> tx_output \<Rightarrow> (bytes bond, unit) action" where
  "reputation_update_bond s out =
     (case get_tx s (txo_tx_id out) of
        None \<Rightarrow> return ()
      | Some t \<Rightarrow> apply_bond_state s t out)"

definition create_bonded_reputation :: "'a dao_state_scheme \<Rightarrow> tx_output \<Rightarrow> bytes bond option res" where
  "create_bonded_reputation s out =
     rbind (get_lockup_op_return_tx_output s (txo_tx_id out)) (\<lambda>op.
     case op of
       None \<Rightarrow> Inr None
     | Some o' \<Rightarrow> rbind (hash_of_op_return (txo_op_return_data o')) (\<lambda>h.
         rbind (built (reputation_update_bond s out) (new_bond h)) (\<lambda>b. Inr (Some b))))"

definition add_bonded_reputation ::
  "'a dao_state_scheme \<Rightarrow> tx_output \<Rightarrow> (reputation_repository, unit) action" where
  "add_bonded_reputation s out =
     abind (query (\<lambda>_. create_bonded_reputation s out)) (\<lambda>r.
     case r of
       None \<Rightarrow> return ()
     | Some b \<Rightarrow> modify (\<lambda>p. p\<lparr>rep_bond_map :=
                     AList.update (reputation_uid (bonded_asset b)) b (rep_bond_map p)\<rparr>))"

definition update_reputation_bonds ::
  "bond_env \<Rightarrow> 'a dao_state_scheme \<Rightarrow> role bond list \<Rightarrow> (reputation_repository, unit) action" where
  "update_reputation_bonds env s bs =
     abind (modify (\<lambda>p. p\<lparr>rep_bond_map := []\<rparr>)) (\<lambda>_.
     abind (for_each (add_bonded_reputation s) (lockup_outputs_for_reputation env s bs)) (\<lambda>_.
     modify (\<lambda>p. p\<lparr>rep_bonds := map snd (rep_bond_map p)\<rparr>)))"

section \<open>The user's own bonded reputations\<close>

record my_reputation =
  mr_salt :: bytes
  mr_hash :: bytes

definition make_my_reputation :: "bond_env \<Rightarrow> bytes \<Rightarrow> my_reputation res" where
  "make_my_reputation env salt =
     (if length salt \<le> 20 then Inr \<lparr>mr_salt = salt, mr_hash = br_salt_hash env salt\<rparr>
      else Inl Illegal_Argument)"

definition my_reputation_uid :: "my_reputation \<Rightarrow> string" where
  "my_reputation_uid a = bytes_hex (mr_hash a)"

definition my_reputation_eq :: "my_reputation \<Rightarrow> my_reputation \<Rightarrow> bool" where
  "my_reputation_eq a b \<longleftrightarrow> my_reputation_uid a = my_reputation_uid b \<and> mr_salt a = mr_salt b"

record my_reputation_service =
  my_reputation_list :: "my_reputation list"
  my_reputation_persisted :: nat

definition add_reputation :: "my_reputation \<Rightarrow> my_reputation_service \<Rightarrow> my_reputation_service" where
  "add_reputation a l =
     (if \<exists>b \<in> set (my_reputation_list l). my_reputation_eq b a then l
      else l\<lparr>my_reputation_list := my_reputation_list l @ [a],
             my_reputation_persisted := my_reputation_persisted l + 1\<rparr>)"

definition reputations_read_persisted ::
  "my_reputation list option \<Rightarrow> my_reputation_service \<Rightarrow> my_reputation_service" where
  "reputations_read_persisted persisted l =
     (case persisted of None \<Rightarrow> l | Some as \<Rightarrow> l\<lparr>my_reputation_list := as\<rparr>)"

definition get_my_bonded_reputation_step ::
  "'a dao_state_scheme \<Rightarrow> my_reputation \<Rightarrow> tx_output \<Rightarrow>
   my_reputation bond list \<Rightarrow> my_reputation bond list res" where
  "get_my_bonded_reputation_step s a out bs =
     (case get_tx s (txo_tx_id out) of
        None \<Rightarrow> Inr bs
      | Some t \<Rightarrow> rbind (lockup_tx_hash t) (\<lambda>h.
          if h = mr_hash a
          then rbind (built (apply_bond_state s t out) (new_bond a)) (\<lambda>b. Inr (bs @ [b]))
          else Inr bs))"

definition get_my_bonded_reputation ::
  "bond_env \<Rightarrow> 'a dao_state_scheme \<Rightarrow> my_reputation \<Rightarrow> my_reputation bond list res" where
  "get_my_bonded_reputation env s a =
     fold_res (get_my_bonded_reputation_step s a) (lockup_outputs env s) []"

definition my_update_bond_state ::
  "'a dao_state_scheme \<Rightarrow> pending_tx list \<Rightarrow> my_reputation bond \<Rightarrow> my_reputation bond res" where
  "my_update_bond_state s pending b =
     rbind (bond_is_confiscated s b) (\<lambda>confiscated.
     if confiscated then Inr (b\<lparr>bond_bond_state := BS_CONFISCATED\<rparr>)
     else if is_lockup_tx_unconfirmed pending (mr_hash (bonded_asset b)) \<and>
             bond_bond_state b = READY_FOR_LOCKUP
     then Inr (b\<lparr>bond_bond_state := LOCKUP_TX_PENDING\<rparr>)
     else rbind (is_unlock_tx_unconfirmed s pending (mr_hash (bonded_asset b))) (\<lambda>unlock_pending.
       if unlock_pending \<and> bond_bond_state b = LOCKUP_TX_CONFIRMED
       then Inr (b\<lparr>bond_bond_state := UNLOCK_TX_PENDING\<rparr>)
       else Inr b))"

text \<open>The dictionary keeps the first bond of a lockup transaction; the list is only replaced when every
  bond could be updated.\<close>

definition collect_my_bonds ::
  "bond_env \<Rightarrow> 'a dao_state_scheme \<Rightarrow> my_reputation list \<Rightarrow>
   (string option \<times> my_reputation bond) list res" where
  "collect_my_bonds env s as =
     fold_res (\<lambda>a m. rbind (get_my_bonded_reputation env s a) (\<lambda>bs.
       Inr (fold (\<lambda>b. al_setdefault (bond_lockup_tx_id b) b) bs m))) as []"

definition update_my_bonds ::
  "bond_env \<Rightarrow> 'a dao_state_scheme \<Rightarrow> pending_tx list \<Rightarrow> my_reputation list \<Rightarrow>
   my_reputation bond list res" where
  "update_my_bonds env s pending as =
     rbind (collect_my_bonds env s as) (\<lambda>m.
       fold_res (\<lambda>b l. rbind (my_update_bond_state s pending b) (\<lambda>b'. Inr (l @ [b']))) (map snd m) [])"

end
