(* ===== verification/Bond_Facts.thy ===== *)
theory Bond_Facts
  imports Bond_Repository
begin

text \<open>
  The facts on the bond repositories: what a bond of the role repository says about the chain, why it
  never shows a pending transaction, and which bonded reputations the chain gives.
\<close>

section \<open>The state of one bond\<close>

definition shows_pending :: "'asset bond \<Rightarrow> bool" where
  "shows_pending b \<longleftrightarrow> bond_bond_state b = LOCKUP_TX_PENDING \<or> bond_bond_state b = UNLOCK_TX_PENDING"

lemma new_bond_sel [simp]:
  "bonded_asset (new_bond a) = a" "bond_lockup_tx_id (new_bond a) = None"
  "bond_unlock_tx_id (new_bond a) = None" "bond_bond_state (new_bond a) = READY_FOR_LOCKUP"
  by (simp_all add: new_bond_def)

text \<open>The reference: the unlock transaction of a lockup output, and the bond the chain describes.\<close>

definition unlock_tx_of :: "'a dao_state_scheme \<Rightarrow> tx_output \<Rightarrow> tx option" where
  "unlock_tx_of s out =
     (if is_unspent s (get_key out) then None
      else case get_spent_info s out of
             None \<Rightarrow> None
           | Some si \<Rightarrow> (case get_tx s (si_tx_id si) of
               None \<Rightarrow> None
             | Some ut \<Rightarrow> if tx_tx_type ut = Some UNLOCK then Some ut else None))"

definition lockup_confiscated :: "'a dao_state_scheme \<Rightarrow> tx \<Rightarrow> tx_output \<Rightarrow> bool" where
  "lockup_confiscated s t out \<longleftrightarrow>
     (tx_id t \<noteq> [] \<and> is_confiscated_lockup_tx_output s (tx_id t)) \<or>
     (case unlock_tx_of s out of
        None \<Rightarrow> False
      | Some ut \<Rightarrow> tx_id ut \<noteq> [] \<and> is_confiscated_unlock_tx_output s (tx_id ut) = Inr True)"

definition chain_bond_state :: "'a dao_state_scheme \<Rightarrow> tx \<Rightarrow> tx_output \<Rightarrow> bond_state" where
  "chain_bond_state s t out =
     (if lockup_confiscated s t out then BS_CONFISCATED
      else case unlock_tx_of s out of
             None \<Rightarrow> LOCKUP_TX_CONFIRMED
           | Some ut \<Rightarrow> if is_unlocking_and_unspent_tx_id s (tx_id ut) = Inr True then BS_UNLOCKING
                        else BS_UNLOCKED)"

definition on_chain :: "'a dao_state_scheme \<Rightarrow> tx \<Rightarrow> tx_output \<Rightarrow> 'asset \<Rightarrow> 'asset bond \<Rightarrow> bool" where
  "on_chain s t out a b \<longleftrightarrow>
     bonded_asset b = a \<and> bond_lockup_tx_id b = Some (tx_id t) \<and>
     bond_unlock_tx_id b = map_option tx_id (unlock_tx_of s out) \<and>
     bond_bond_state b = chain_bond_state s t out \<and> locked_amount t = Inr (bond_amount b) \<and>
     bond_lockup_date b = tx_time t \<and> tx_lock_time t = Inr (bond_lock_time b) \<and>
     (\<forall>ut. unlock_tx_of s out = Some ut \<longrightarrow> bond_unlock_date b = tx_time ut)"

text \<open>A bond that the chain has not reached yet, or that already follows the same output.\<close>

definition follows :: "'a dao_state_scheme \<Rightarrow> tx \<Rightarrow> tx_output \<Rightarrow> 'asset \<Rightarrow> 'asset bond \<Rightarrow> bool" where
  "follows s t out a b \<longleftrightarrow>
     bonded_asset b = a \<and> \<not> shows_pending b \<and>
     (bond_unlock_tx_id b = None \<or> bond_unlock_tx_id b = map_option tx_id (unlock_tx_of s out))"

lemma follows_new: "follows s t out a (new_bond a)"
  by (simp add: follows_def shows_pending_def)

lemma chain_state_not_pending:
  "chain_bond_state s t out \<noteq> LOCKUP_TX_PENDING" "chain_bond_state s t out \<noteq> UNLOCK_TX_PENDING"
  by (simp_all add: chain_bond_state_def split: option.split)

lemma on_chain_follows: "on_chain s t out a b \<Longrightarrow> follows s t out a b"
  by (simp add: on_chain_def follows_def shows_pending_def chain_state_not_pending)

lemma apply_unlock_state_cases:
  "apply_unlock_state s out b =
     (case (case get_spent_info s out of None \<Rightarrow> None | Some si \<Rightarrow> get_tx s (si_tx_id si)) of
        None \<Rightarrow> (Inr (), b)
      | Some ut \<Rightarrow>
          if tx_tx_type ut = Some UNLOCK
          then (let b' = b\<lparr>bond_unlock_tx_id := Some (tx_id ut), bond_bond_state := UNLOCK_TX_CONFIRMED,
                          bond_unlock_date := tx_time ut\<rparr>
                in case is_unlocking_and_unspent_tx_id s (tx_id ut) of
                     Inl e \<Rightarrow> (Inl e, b')
                   | Inr u \<Rightarrow> (Inr (), b'\<lparr>bond_bond_state := if u then BS_UNLOCKING else BS_UNLOCKED\<rparr>))
          else (Inr (), b))"
  by (simp add: apply_unlock_state_def action_defs Let_def split: option.split sum.split)

lemma apply_bond_state_on_chain:
  assumes "apply_bond_state s t out b = (Inr (), b')" and "follows s t out a b"
  shows "on_chain s t out a b'"
proof -
  have np: "bond_bond_state b \<notin> {LOCKUP_TX_PENDING, UNLOCK_TX_PENDING}" and a: "bonded_asset b = a"
    and u: "bond_unlock_tx_id b = None \<or> bond_unlock_tx_id b = map_option tx_id (unlock_tx_of s out)"
    using assms(2) by (auto simp: follows_def shows_pending_def)
  obtain am where am: "locked_amount t = Inr am"
    using assms(1) np by (cases "locked_amount t") (simp_all add: apply_bond_state_def action_defs)
  obtain lt where lt: "tx_lock_time t = Inr lt"
    using assms(1) np am by (cases "tx_lock_time t") (simp_all add: apply_bond_state_def action_defs)
  define c where "c = b\<lparr>bond_bond_state := LOCKUP_TX_CONFIRMED, bond_lockup_tx_id := Some (tx_id t),
                        bond_lockup_date := tx_time t, bond_amount := am, bond_lock_time := lt\<rparr>"
  have step: "abind (if is_unspent s (get_key out) then return () else apply_unlock_state s out) (\<lambda>_.
      abind (query (id_confiscated truthy_id s)) (\<lambda>confiscated.
        if confiscated then modify (\<lambda>b. b\<lparr>bond_bond_state := BS_CONFISCATED\<rparr>) else return ())) c =
      (Inr (), b')"
    using assms(1) np am lt unfolding apply_bond_state_def c_def
    by (simp add: abind_def modify_def query_def)
  define ut where "ut = unlock_tx_of s out"
  obtain d where d: "(if is_unspent s (get_key out) then return () else apply_unlock_state s out) c = (Inr (), d)"
    and conf: "abind (query (id_confiscated truthy_id s)) (\<lambda>confiscated.
        if confiscated then modify (\<lambda>b. b\<lparr>bond_bond_state := BS_CONFISCATED\<rparr>) else return ()) d = (Inr (), b')"
    using step by (auto simp: abind_Inr)
  have d': "d = (case ut of None \<Rightarrow> c
      | Some x \<Rightarrow> c\<lparr>bond_unlock_tx_id := Some (tx_id x), bond_unlock_date := tx_time x,
                    bond_bond_state := if is_unlocking_and_unspent_tx_id s (tx_id x) = Inr True
                                       then BS_UNLOCKING else BS_UNLOCKED\<rparr>)"
    using d unfolding ut_def unlock_tx_of_def
    by (auto simp: apply_unlock_state_cases return_def Let_def split: if_splits option.splits sum.splits)
  have uid: "bond_unlock_tx_id d = map_option tx_id ut" using u d' by (auto simp: c_def ut_def split: option.splits)
  have lid: "bond_lockup_tx_id d = Some (tx_id t)" using d' by (simp add: c_def split: option.splits)
  obtain z where z: "id_confiscated truthy_id s d = Inr z"
      "b' = (if z then d\<lparr>bond_bond_state := BS_CONFISCATED\<rparr> else d)"
    using conf by (auto simp: abind_Inr query_def modify_def return_def split: if_splits)
  have "z = lockup_confiscated s t out"
    using z(1) lid uid unfolding id_confiscated_def lockup_confiscated_def ut_def [symmetric]
    by (cases ut) (auto simp: truthy_id_def split: if_splits)
  then show ?thesis using z(2) d' uid lid a am lt
    by (cases ut) (simp_all add: on_chain_def chain_bond_state_def ut_def [symmetric] c_def)
qed

text \<open>Whatever happens, also when the call raises, no bond becomes pending.\<close>

lemma apply_bond_state_not_pending:
  assumes "apply_bond_state s t out b = (r, b')" and "\<not> shows_pending b"
  shows "\<not> shows_pending b'"
proof -
  have "bond_bond_state b \<notin> {LOCKUP_TX_PENDING, UNLOCK_TX_PENDING}"
    using assms(2) by (simp add: shows_pending_def)
  with assms(1) show ?thesis
    unfolding apply_bond_state_def
    by (auto simp: abind_def modify_def query_def return_def apply_unlock_state_cases shows_pending_def Let_def
             split: prod.splits sum.splits option.splits if_splits)
qed

section \<open>The role repository\<close>

definition none_pending :: "role_repository \<Rightarrow> bool" where
  "none_pending r \<longleftrightarrow> (\<forall>u b. bond_of_role r u = Some b \<longrightarrow> \<not> shows_pending b)"

definition keeps_none_pending :: "role_repository \<Rightarrow> role_repository \<Rightarrow> bool" where
  "keeps_none_pending r r' \<longleftrightarrow> (none_pending r \<longrightarrow> none_pending r')"

interpretation quiet: action_frame keeps_none_pending
  by unfold_locales (auto simp: keeps_none_pending_def)

lemma bond_of_role_simps [simp]:
  "bond_of_role (r\<lparr>role_by_hash := m\<rparr>) u = bond_of_role r u"
  "bond_of_role (r\<lparr>role_bonds := bs\<rparr>) u = bond_of_role r u"
  "bond_of_role (r\<lparr>role_bond_map := AList.update v b (role_bond_map r)\<rparr>) u =
     (if u = v then Some b else bond_of_role r u)"
  by (simp_all add: bond_of_role_def update_conv')

lemma on_bond_cases:
  "on_bond u m r = (x, r') \<longleftrightarrow>
     (bond_of_role r u = None \<and> x = Inr () \<and> r' = r) \<or>
     (\<exists>b b'. bond_of_role r u = Some b \<and> m b = (x, b') \<and>
        r' = r\<lparr>role_bond_map := AList.update u b' (role_bond_map r)\<rparr>)"
  by (auto simp: on_bond_def split: option.splits prod.splits)

lemma on_bond_quiet:
  assumes "\<And>b x b'. m b = (x, b') \<Longrightarrow> \<not> shows_pending b \<Longrightarrow> \<not> shows_pending b'"
  shows "keeps keeps_none_pending (on_bond u m)"
  using assms by (intro keepsI)
     (fastforce simp: on_bond_cases keeps_none_pending_def none_pending_def split: if_splits)

lemma hash_map_bonds:
  "get_bonded_asset_by_hash_map env s r = (x, r') \<Longrightarrow> bond_of_role r' u = bond_of_role r u"
  by (auto simp: get_bonded_asset_by_hash_map_def split: option.splits if_splits)

lemma same_bonds_quiet:
  assumes "\<And>u. bond_of_role r' u = bond_of_role r u"
  shows "keeps_none_pending r r'"
  unfolding keeps_none_pending_def none_pending_def assms by simp

lemma role_update_bond_quiet: "keeps keeps_none_pending (role_update_bond env s a out)"
proof (cases "get_tx s (txo_tx_id out)")
  case (Some t)
  have lookup: "keeps keeps_none_pending (get_bonded_asset_by_hash_map env s)"
    by (rule keepsI, rule same_bonds_quiet) (erule hash_map_bonds)
  have applied: "keeps keeps_none_pending
      (if m h = Some a then on_bond (role_uid a) (apply_bond_state s t out) else return ())" for m h
  proof (cases "m h = Some a")
    case True
    have "keeps keeps_none_pending (on_bond (role_uid a) (apply_bond_state s t out))"
      by (rule on_bond_quiet) (rule apply_bond_state_not_pending)
    with True show ?thesis by simp
  qed (simp add: quiet.keeps_return)
  show ?thesis unfolding role_update_bond_def Some option.case
    by (rule quiet.keeps_abind, rule quiet.keeps_query, rule quiet.keeps_abind, rule lookup, rule applied)
qed (simp add: role_update_bond_def quiet.keeps_intros)

lemma update_role_quiet: "keeps keeps_none_pending (update_role env s a)"
  unfolding update_role_def
  by (intro quiet.keeps_abind quiet.keeps_modify quiet.keeps_for_each role_update_bond_quiet)
     (auto simp: keeps_none_pending_def none_pending_def shows_pending_def)

text \<open>Neither of the two loops over the wallet changes a bond: the call that would decide the new state
  raises.\<close>

lemma update_pending_lockup_same: "update_pending_lockup env pending a r = (x, r') \<Longrightarrow> r' = r"
  by (auto simp: update_pending_lockup_def abind_def raise_def return_def split: if_splits option.splits)

lemma update_pending_unlock_same: "update_pending_unlock env s pending a r = (x, r') \<Longrightarrow> r' = r"
  by (auto simp: update_pending_unlock_def abind_def raise_def return_def query_def
           split: if_splits option.splits sum.splits)

lemma for_each_same:
  assumes "\<And>x u r v. f x u = (r, v) \<Longrightarrow> v = u" and "for_each f xs s = (r, t)"
  shows "t = s"
  using assms(2) by (rule for_each_inv [where P = "\<lambda>u. u = s"]) (auto dest: assms(1))

lemma update_role_bonds_quiet: "keeps keeps_none_pending (update_role_bonds env s pending)"
proof -
  have "keeps keeps_none_pending (update_pending_lockup env pending a)" for a
    by (rule keepsI) (auto simp: keeps_none_pending_def dest: update_pending_lockup_same)
  moreover have "keeps keeps_none_pending (update_pending_unlock env s pending a)" for a
    by (rule keepsI) (auto simp: keeps_none_pending_def dest: update_pending_unlock_same)
  moreover have "keeps keeps_none_pending (modify (\<lambda>r. r\<lparr>role_by_hash := m\<rparr>))"
    "keeps keeps_none_pending (modify (\<lambda>r. r\<lparr>role_bonds := f r\<rparr>))" for m f
    by (auto simp: keeps_def modify_def keeps_none_pending_def none_pending_def)
  ultimately show ?thesis unfolding update_role_bonds_def
    by (intro quiet.keeps_abind quiet.keeps_for_each update_role_quiet)
qed

text \<open>The repositories that updates lead to, at any states of the chain and of the wallet.\<close>

inductive role_repository_reachable :: "bond_env \<Rightarrow> role_repository \<Rightarrow> bool" for env where
  reach_empty: "role_repository_reachable env empty_role_repository"
| reach_update: "role_repository_reachable env r \<Longrightarrow>
    update_role_bonds env (s :: dao_service) pending r = (x, r') \<Longrightarrow> role_repository_reachable env r'"

lemma reachable_none_pending: "role_repository_reachable env r \<Longrightarrow> none_pending r"
proof (induction rule: role_repository_reachable.induct)
  case reach_empty
  then show ?case by (simp add: none_pending_def empty_role_repository_def bond_of_role_def)
next
  case (reach_update r s pending x r')
  then show ?case using keepsD [OF update_role_bonds_quiet reach_update(2)]
    by (simp add: keeps_none_pending_def)
qed

lemma for_each_raises:
  assumes "\<And>x u r v. x \<in> set xs \<Longrightarrow> f x u = (r, v) \<Longrightarrow> v = u" and "x \<in> set xs" and "f x s = (Inl e, s)"
    and "\<And>y e'. y \<in> set xs \<Longrightarrow> fst (f y s) = Inl e' \<Longrightarrow> e' = e"
  shows "for_each f xs s = (Inl e, s)"
  using assms
proof (induction xs)
  case (Cons y ys)
  obtain r v where y: "f y s = (r, v)" by fastforce
  then have v: "v = s" using Cons.prems(1) [of y s r v] by simp
  show ?case
  proof (cases r)
    case (Inl e')
    then show ?thesis using y v Cons.prems(4) [of y e'] by simp
  next
    case (Inr z)
    then have "x \<in> set ys" using Cons.prems(2,3) y by auto
    then have "for_each f ys s = (Inl e, s)"
      by (intro Cons.IH Cons.prems(3)) (auto intro: Cons.prems(1) Cons.prems(4))
    then show ?thesis using y v Inr by simp
  qed
qed simp

lemma pending_lockup_raises:
  assumes "for_each (update_role env s) (get_bonded_roles s) (r\<lparr>role_by_hash := None\<rparr>) = (Inr (), r')"
    and "a \<in> set (get_bonded_roles s)" and "is_lockup_tx_unconfirmed pending (br_role_hash env a)"
    and "bond_of_role r' (role_uid a) = Some b" and "bond_bond_state b = READY_FOR_LOCKUP"
  shows "update_role_bonds env s pending r = (Inl Type_Error, r')"
proof -
  have err: "e = Type_Error" if "fst (update_pending_lockup env pending x u) = Inl e" for x u e
    using that by (auto simp: update_pending_lockup_def abind_def raise_def return_def split: if_splits)
  have a: "update_pending_lockup env pending a r' = (Inl Type_Error, r')"
    using assms(3-5) by (simp add: update_pending_lockup_def abind_def raise_def)
  have "for_each (update_pending_lockup env pending) (get_bonded_roles s) r' = (Inl Type_Error, r')"
    by (rule for_each_raises) (use assms(2) a update_pending_lockup_same err in blast)+
  then show ?thesis using assms(1) by (simp add: update_role_bonds_def abind_def modify_def)
qed

section \<open>A role's bond follows its lockup output\<close>

lemma for_each_ok:
  assumes "for_each f xs s = (Inr (), t)" and "P s"
    and "\<And>y u v. y \<in> set xs \<Longrightarrow> P u \<Longrightarrow> f y u = (Inr (), v) \<Longrightarrow> P v"
  shows "P t"
  using assms
proof (induction xs arbitrary: s)
  case (Cons y ys)
  obtain w where w: "f y s = (Inr (), w)" "for_each f ys w = (Inr (), t)"
    using Cons.prems(1) by (auto split: prod.splits sum.splits)
  have "P w" by (rule Cons.prems(3) [OF _ Cons.prems(2) w(1)]) simp
  then show ?case by (rule Cons.IH [OF w(2)]) (rule Cons.prems(3), simp_all)
qed simp

lemma for_each_reaches:
  assumes "for_each f xs s = (Inr (), t)" and "P s" and "x \<in> set xs"
    and "\<And>y u v. y \<in> set xs \<Longrightarrow> P u \<Longrightarrow> f y u = (Inr (), v) \<Longrightarrow> P v"
    and "\<And>u v. P u \<Longrightarrow> f x u = (Inr (), v) \<Longrightarrow> Q v"
    and "\<And>y u v. y \<in> set xs \<Longrightarrow> Q u \<Longrightarrow> f y u = (Inr (), v) \<Longrightarrow> Q v"
  shows "Q t"
  using assms
proof (induction xs arbitrary: s)
  case (Cons y ys)
  obtain w where w: "f y s = (Inr (), w)" "for_each f ys w = (Inr (), t)"
    using Cons.prems(1) by (auto split: prod.splits sum.splits)
  show ?case
  proof (cases "x = y")
    case True
    then have "Q w" using Cons.prems(5) [OF Cons.prems(2)] w(1) by simp
    with w(2) show ?thesis by (rule for_each_ok) (rule Cons.prems(6), simp_all)
  next
    case False
    have "P w" by (rule Cons.prems(4) [OF _ Cons.prems(2) w(1)]) simp
    moreover have "x \<in> set ys" using False Cons.prems(3) by simp
    ultimately show ?thesis
      by (intro Cons.IH [OF w(2)]) (auto intro: Cons.prems(4) Cons.prems(5) Cons.prems(6))
  qed
qed simp

text \<open>Of the lockup outputs, \<open>out\<close> is the only one whose transaction carries the role's hash, and the
  roles of the evaluated proposals have their own uids and hashes.\<close>

definition only_lockup_of ::
  "bond_env \<Rightarrow> 'a dao_state_scheme \<Rightarrow> role \<Rightarrow> tx \<Rightarrow> tx_output \<Rightarrow> bool" where
  "only_lockup_of env s a t out \<longleftrightarrow>
     out \<in> set (lockup_outputs env s) \<and> get_tx s (txo_tx_id out) = Some t \<and>
     lockup_tx_hash t = Inr (br_role_hash env a) \<and>
     (\<forall>o' \<in> set (lockup_outputs env s). \<forall>t'. get_tx s (txo_tx_id o') = Some t' \<longrightarrow>
        lockup_tx_hash t' = Inr (br_role_hash env a) \<longrightarrow> o' = out)"

definition roles_distinguished :: "bond_env \<Rightarrow> 'a dao_state_scheme \<Rightarrow> bool" where
  "roles_distinguished env s \<longleftrightarrow>
     inj_on role_uid (set (get_bonded_roles s)) \<and> inj_on (br_role_hash env) (set (get_bonded_roles s))"

lemma roles_by_hash_fold:
  "fold (\<lambda>a m. m(h a \<mapsto> a)) as m x = Some b \<Longrightarrow> (b \<in> set as \<and> h b = x) \<or> m x = Some b"
proof (induction as arbitrary: m)
  case (Cons a as)
  then show ?case using Cons.IH [of "m(h a \<mapsto> a)"] by (auto split: if_splits)
qed simp

lemma roles_by_hash_Some:
  "roles_by_hash env s x = Some b \<Longrightarrow> b \<in> set (get_bonded_roles s) \<and> br_role_hash env b = x"
  unfolding roles_by_hash_def by (drule roles_by_hash_fold) simp

lemma roles_by_hash_dom:
  assumes "a \<in> set as" shows "\<exists>b. fold (\<lambda>a m. m(h a \<mapsto> a)) as m (h a) = Some b"
proof -
  have keep: "m x \<noteq> None \<Longrightarrow> fold (\<lambda>a m. m(h a \<mapsto> a)) bs m x \<noteq> None" for bs m x
    by (induction bs arbitrary: m) simp_all
  show ?thesis using assms
  proof (induction as arbitrary: m)
    case (Cons c cs)
    show ?case
    proof (cases "a \<in> set cs")
      case False
      then have "a = c" using Cons.prems by simp
      then show ?thesis using keep [of "m(h c \<mapsto> c)" "h c" cs] by (simp del: fun_upd_apply) simp
    qed (use Cons.IH in simp)
  qed simp
qed

lemma roles_by_hash_iff:
  assumes "roles_distinguished env s" and "a \<in> set (get_bonded_roles s)"
  shows "roles_by_hash env s x = Some a \<longleftrightarrow> x = br_role_hash env a"
proof
  assume "x = br_role_hash env a"
  then obtain b where b: "roles_by_hash env s x = Some b"
    using roles_by_hash_dom [OF assms(2), of "br_role_hash env" Map.empty] by (auto simp: roles_by_hash_def)
  then show "roles_by_hash env s x = Some a"
    using roles_by_hash_Some [OF b] assms \<open>x = br_role_hash env a\<close>
    by (auto simp: roles_distinguished_def dest: inj_onD)
qed (use roles_by_hash_Some in blast)

definition cache_current :: "bond_env \<Rightarrow> 'a dao_state_scheme \<Rightarrow> role_repository \<Rightarrow> bool" where
  "cache_current env s r \<longleftrightarrow> role_by_hash r = None \<or> role_by_hash r = Some (roles_by_hash env s)"

lemma hash_map_current:
  assumes "get_bonded_asset_by_hash_map env s r = (Inr m, r')" and "cache_current env s r"
  shows "m = roles_by_hash env s \<and> cache_current env s r'"
  using assms by (auto simp: get_bonded_asset_by_hash_map_def cache_current_def split: option.splits if_splits)

lemma role_update_bond_cases:
  assumes "role_update_bond env s a out r = (Inr (), r')" and "cache_current env s r"
    and "roles_distinguished env s" and "a \<in> set (get_bonded_roles s)"
  shows "cache_current env s r' \<and>
    (\<forall>u. bond_of_role r' u = bond_of_role r u \<or>
       u = role_uid a \<and> (\<exists>t b b'. get_tx s (txo_tx_id out) = Some t \<and>
         lockup_tx_hash t = Inr (br_role_hash env a) \<and> bond_of_role r u = Some b \<and>
         apply_bond_state s t out b = (Inr (), b') \<and> bond_of_role r' u = Some b')) \<and>
    (\<forall>t b. get_tx s (txo_tx_id out) = Some t \<longrightarrow> lockup_tx_hash t = Inr (br_role_hash env a) \<longrightarrow>
       bond_of_role r (role_uid a) = Some b \<longrightarrow>
       (\<exists>b'. apply_bond_state s t out b = (Inr (), b') \<and> bond_of_role r' (role_uid a) = Some b'))"
proof (cases "get_tx s (txo_tx_id out)")
  case None
  then show ?thesis using assms(1,2) by (simp add: role_update_bond_def return_def)
next
  case (Some t)
  obtain h m r1 where h: "lockup_tx_hash t = Inr h"
    and m: "get_bonded_asset_by_hash_map env s r = (Inr m, r1)"
    and upd: "(if m h = Some a then on_bond (role_uid a) (apply_bond_state s t out) else return ()) r1 = (Inr (), r')"
    using assms(1) Some by (auto simp: role_update_bond_def abind_Inr query_def)
  have c: "m = roles_by_hash env s" "cache_current env s r1"
    using hash_map_current [OF m assms(2)] by simp_all
  have same: "bond_of_role r1 u = bond_of_role r u" for u by (rule hash_map_bonds [OF m])
  show ?thesis
  proof (cases "h = br_role_hash env a")
    case True
    then have "m h = Some a" using c(1) roles_by_hash_iff [OF assms(3,4)] by simp
    with upd have "on_bond (role_uid a) (apply_bond_state s t out) r1 = (Inr (), r')" by simp
    then consider (absent) "bond_of_role r (role_uid a) = None" "r' = r1"
      | (present) b b' where "bond_of_role r (role_uid a) = Some b" "apply_bond_state s t out b = (Inr (), b')"
          "r' = r1\<lparr>role_bond_map := AList.update (role_uid a) b' (role_bond_map r1)\<rparr>"
      by (auto simp: on_bond_cases same)
    then show ?thesis
    proof cases
      case absent
      then show ?thesis using c(2) same by simp
    next
      case present
      then show ?thesis using c(2) same Some h True by (auto simp: cache_current_def)
    qed
  next
    case False
    then have "m h \<noteq> Some a" using c(1) roles_by_hash_iff [OF assms(3,4)] by simp
    then show ?thesis using upd c(2) same Some h False by (simp add: return_def)
  qed
qed

text \<open>Before the role's turn its bond is absent or follows the output, after it it is the chain's.\<close>

definition role_before ::
  "bond_env \<Rightarrow> 'a dao_state_scheme \<Rightarrow> role \<Rightarrow> tx \<Rightarrow> tx_output \<Rightarrow> role_repository \<Rightarrow> bool" where
  "role_before env s a t out r \<longleftrightarrow>
     cache_current env s r \<and>
     (\<forall>b. bond_of_role r (role_uid a) = Some b \<longrightarrow> follows s t out a b)"

definition role_after ::
  "bond_env \<Rightarrow> 'a dao_state_scheme \<Rightarrow> role \<Rightarrow> tx \<Rightarrow> tx_output \<Rightarrow> role_repository \<Rightarrow> bool" where
  "role_after env s a t out r \<longleftrightarrow>
     cache_current env s r \<and> (\<exists>b. bond_of_role r (role_uid a) = Some b \<and> on_chain s t out a b)"

definition watched ::
  "bond_env \<Rightarrow> 'a dao_state_scheme \<Rightarrow> role \<Rightarrow> tx \<Rightarrow> tx_output \<Rightarrow> bool" where
  "watched env s a t out \<longleftrightarrow>
     roles_distinguished env s \<and> a \<in> set (get_bonded_roles s) \<and> only_lockup_of env s a t out"

lemma watchedD:
  assumes "watched env s a t out"
  shows "roles_distinguished env s" "a \<in> set (get_bonded_roles s)" "only_lockup_of env s a t out"
    "a' \<in> set (get_bonded_roles s) \<Longrightarrow> role_uid a' = role_uid a \<Longrightarrow> a' = a"
    "o' \<in> set (lockup_outputs env s) \<Longrightarrow> get_tx s (txo_tx_id o') = Some t' \<Longrightarrow>
       lockup_tx_hash t' = Inr (br_role_hash env a) \<Longrightarrow> o' = out \<and> t' = t"
  using assms by (auto simp: watched_def only_lockup_of_def roles_distinguished_def dest: inj_onD)

text \<open>What one call of \<open>role_update_bond\<close> does to the bond of the role that is watched.\<close>

lemma watched_step:
  assumes "watched env s a t out" and "role_update_bond env s a' o' r = (Inr (), r')"
    and "a' \<in> set (get_bonded_roles s)" and "o' \<in> set (lockup_outputs env s)" and "cache_current env s r"
  shows "cache_current env s r' \<and>
      (bond_of_role r' (role_uid a) = bond_of_role r (role_uid a) \<or>
       (\<exists>b b'. bond_of_role r (role_uid a) = Some b \<and> apply_bond_state s t out b = (Inr (), b') \<and>
          bond_of_role r' (role_uid a) = Some b'))"
proof -
  note w = watchedD [OF assms(1)] and c = role_update_bond_cases [OF assms(2,5) watchedD(1) [OF assms(1)] assms(3)]
  have "bond_of_role r' (role_uid a) = bond_of_role r (role_uid a) \<or>
      role_uid a = role_uid a' \<and> (\<exists>t' b b'. get_tx s (txo_tx_id o') = Some t' \<and>
        lockup_tx_hash t' = Inr (br_role_hash env a') \<and> bond_of_role r (role_uid a) = Some b \<and>
        apply_bond_state s t' o' b = (Inr (), b') \<and> bond_of_role r' (role_uid a) = Some b')"
    using c by blast
  then show ?thesis
  proof (elim disjE conjE exE)
    fix t' b b'
    assume x: "role_uid a = role_uid a'" "get_tx s (txo_tx_id o') = Some t'"
      "lockup_tx_hash t' = Inr (br_role_hash env a')" "bond_of_role r (role_uid a) = Some b"
      "apply_bond_state s t' o' b = (Inr (), b')" "bond_of_role r' (role_uid a) = Some b'"
    have "a' = a" by (rule w(4) [OF assms(3)]) (simp add: x)
    then have "o' = out \<and> t' = t" using w(5) [OF assms(4) x(2)] x(3) by simp
    then show ?thesis using c x by simp
  qed (use c in simp)
qed

lemma step_keeps_before:
  assumes "watched env s a t out" and "role_update_bond env s a' o' r = (Inr (), r')"
    and "a' \<in> set (get_bonded_roles s)" and "o' \<in> set (lockup_outputs env s)"
    and "role_before env s a t out r"
  shows "role_before env s a t out r'"
proof -
  have r: "cache_current env s r" "\<And>b. bond_of_role r (role_uid a) = Some b \<Longrightarrow> follows s t out a b"
    using assms(5) by (auto simp: role_before_def)
  note st = watched_step [OF assms(1-4) r(1)]
  have "follows s t out a b'" if b': "bond_of_role r' (role_uid a) = Some b'" for b'
    using conjunct2 [OF st]
  proof (elim disjE exE conjE)
    fix b c
    assume "bond_of_role r (role_uid a) = Some b" "apply_bond_state s t out b = (Inr (), c)"
      "bond_of_role r' (role_uid a) = Some c"
    then show ?thesis using b' on_chain_follows [OF apply_bond_state_on_chain [OF _ r(2)]] by simp
  qed (use b' r(2) in simp)
  then show ?thesis using st by (simp add: role_before_def)
qed

lemma step_keeps_after:
  assumes "watched env s a t out" and "role_update_bond env s a' o' r = (Inr (), r')"
    and "a' \<in> set (get_bonded_roles s)" and "o' \<in> set (lockup_outputs env s)"
    and "role_after env s a t out r"
  shows "role_after env s a t out r'"
proof -
  obtain b where r: "cache_current env s r" "bond_of_role r (role_uid a) = Some b" "on_chain s t out a b"
    using assms(5) by (auto simp: role_after_def)
  note st = watched_step [OF assms(1-4) r(1)]
  have "\<exists>b'. bond_of_role r' (role_uid a) = Some b' \<and> on_chain s t out a b'"
    using conjunct2 [OF st]
  proof (elim disjE exE conjE)
    fix b0 c
    assume c: "bond_of_role r (role_uid a) = Some b0" "apply_bond_state s t out b0 = (Inr (), c)"
      "bond_of_role r' (role_uid a) = Some c"
    then have "on_chain s t out a b0" using r by simp
    then show ?thesis using apply_bond_state_on_chain [OF c(2) on_chain_follows] c(3) by blast
  qed (use r in simp)
  then show ?thesis using st by (simp add: role_after_def)
qed

lemma step_reaches:
  assumes "watched env s a t out" and "role_update_bond env s a out r = (Inr (), r')"
    and "role_before env s a t out r" and "bond_of_role r (role_uid a) \<noteq> None"
  shows "role_after env s a t out r'"
proof -
  note w = watchedD [OF assms(1)]
  obtain b where b: "cache_current env s r" "bond_of_role r (role_uid a) = Some b" "follows s t out a b"
    using assms(3,4) by (auto simp: role_before_def)
  have "get_tx s (txo_tx_id out) = Some t" "lockup_tx_hash t = Inr (br_role_hash env a)"
    using w(3) by (simp_all add: only_lockup_of_def)
  then obtain b' where "apply_bond_state s t out b = (Inr (), b')" "bond_of_role r' (role_uid a) = Some b'"
    using role_update_bond_cases [OF assms(2) b(1) w(1,2)] b(2) by blast
  then show ?thesis
    using apply_bond_state_on_chain [OF _ b(3)] role_update_bond_cases [OF assms(2) b(1) w(1,2)]
    by (auto simp: role_after_def)
qed

text \<open>The bond of the role exists from its first turn on.\<close>

lemma bond_exists_kept:
  assumes "role_update_bond env s a' o' r = (Inr (), r')" and "bond_of_role r u \<noteq> None"
  shows "bond_of_role r' u \<noteq> None"
proof (cases "get_tx s (txo_tx_id o')")
  case (Some t')
  obtain h m r1 where m: "get_bonded_asset_by_hash_map env s r = (Inr m, r1)"
    and upd: "(if m h = Some a' then on_bond (role_uid a') (apply_bond_state s t' o') else return ()) r1 = (Inr (), r')"
    using assms(1) Some by (auto simp: role_update_bond_def abind_Inr query_def)
  have "bond_of_role r1 u = bond_of_role r u" by (rule hash_map_bonds [OF m])
  then show ?thesis using upd assms(2)
    by (auto simp: on_bond_cases return_def split: if_splits)
qed (use assms in \<open>simp add: role_update_bond_def return_def\<close>)

lemma update_role_steps:
  assumes "update_role env s a' r = (Inr (), r')"
  obtains r1 where
    "r1 = r \<and> bond_of_role r (role_uid a') \<noteq> None \<or>
     bond_of_role r (role_uid a') = None \<and>
       r1 = r\<lparr>role_bond_map := AList.update (role_uid a') (new_bond a') (role_bond_map r)\<rparr>"
    and "for_each (role_update_bond env s a') (lockup_outputs env s) r1 = (Inr (), r')"
  using assms by (cases "bond_of_role r (role_uid a') = None") (simp_all add: update_role_def abind_def modify_def)

lemma create_keeps:
  assumes "watched env s a t out" and "a' \<in> set (get_bonded_roles s)"
    and "r1 = r \<and> bond_of_role r (role_uid a') \<noteq> None \<or>
       bond_of_role r (role_uid a') = None \<and>
         r1 = r\<lparr>role_bond_map := AList.update (role_uid a') (new_bond a') (role_bond_map r)\<rparr>"
  shows "bond_of_role r1 (role_uid a') \<noteq> None"
    and "role_before env s a t out r \<Longrightarrow> role_before env s a t out r1"
    and "role_after env s a t out r \<Longrightarrow> role_after env s a t out r1"
proof -
  let ?new = "r\<lparr>role_bond_map := AList.update (role_uid a') (new_bond a') (role_bond_map r)\<rparr>"
  have own: "a' = a" if "role_uid a = role_uid a'"
    using watchedD(4) [OF assms(1,2)] that by simp
  show "bond_of_role r1 (role_uid a') \<noteq> None"
    using assms(3) by (elim disjE conjE) simp_all
  show "role_before env s a t out r1" if b: "role_before env s a t out r"
    using assms(3)
  proof (elim disjE conjE)
    assume "r1 = ?new"
    then have "follows s t out a b'" if "bond_of_role r1 (role_uid a) = Some b'" for b'
      using that b own by (cases "role_uid a = role_uid a'") (auto simp: role_before_def follows_new)
    then show ?thesis using b \<open>r1 = ?new\<close> by (simp add: role_before_def cache_current_def)
  qed (use b in simp)
  show "role_after env s a t out r1" if b: "role_after env s a t out r"
    using assms(3)
  proof (elim disjE conjE)
    assume n: "r1 = ?new" "bond_of_role r (role_uid a') = None"
    then have "role_uid a \<noteq> role_uid a'" using b by (auto simp: role_after_def)
    then show ?thesis using b n(1) by (simp add: role_after_def cache_current_def)
  qed (use b in simp)
qed

lemma update_role_before:
  assumes "watched env s a t out" and "update_role env s a' r = (Inr (), r')"
    and "a' \<in> set (get_bonded_roles s)" and "role_before env s a t out r"
  shows "role_before env s a t out r'"
  using assms(2)
proof (rule update_role_steps)
  fix r1
  assume r1: "r1 = r \<and> bond_of_role r (role_uid a') \<noteq> None \<or> bond_of_role r (role_uid a') = None \<and>
       r1 = r\<lparr>role_bond_map := AList.update (role_uid a') (new_bond a') (role_bond_map r)\<rparr>"
    and loop: "for_each (role_update_bond env s a') (lockup_outputs env s) r1 = (Inr (), r')"
  have "role_before env s a t out r1" by (rule create_keeps(2) [OF assms(1,3) r1 assms(4)])
  with loop show ?thesis
    by (rule for_each_ok) (rule step_keeps_before [OF assms(1) _ assms(3)])
qed

lemma update_role_after:
  assumes "watched env s a t out" and "update_role env s a' r = (Inr (), r')"
    and "a' \<in> set (get_bonded_roles s)" and "role_after env s a t out r"
  shows "role_after env s a t out r'"
  using assms(2)
proof (rule update_role_steps)
  fix r1
  assume r1: "r1 = r \<and> bond_of_role r (role_uid a') \<noteq> None \<or> bond_of_role r (role_uid a') = None \<and>
       r1 = r\<lparr>role_bond_map := AList.update (role_uid a') (new_bond a') (role_bond_map r)\<rparr>"
    and loop: "for_each (role_update_bond env s a') (lockup_outputs env s) r1 = (Inr (), r')"
  have "role_after env s a t out r1" by (rule create_keeps(3) [OF assms(1,3) r1 assms(4)])
  with loop show ?thesis
    by (rule for_each_ok) (rule step_keeps_after [OF assms(1) _ assms(3)])
qed

lemma update_role_reaches:
  assumes "watched env s a t out" and "update_role env s a r = (Inr (), r')"
    and "role_before env s a t out r"
  shows "role_after env s a t out r'"
  using assms(2)
proof (rule update_role_steps)
  fix r1
  assume r1: "r1 = r \<and> bond_of_role r (role_uid a) \<noteq> None \<or> bond_of_role r (role_uid a) = None \<and>
       r1 = r\<lparr>role_bond_map := AList.update (role_uid a) (new_bond a) (role_bond_map r)\<rparr>"
    and loop: "for_each (role_update_bond env s a) (lockup_outputs env s) r1 = (Inr (), r')"
  note w = watchedD [OF assms(1)]
  note c = create_keeps [OF assms(1) w(2) r1]
  have here: "out \<in> set (lockup_outputs env s)" using w(3) by (simp add: only_lockup_of_def)
  have start: "role_before env s a t out r1 \<and> bond_of_role r1 (role_uid a) \<noteq> None"
    using c(1,2) assms(3) by simp
  show ?thesis
  proof (rule for_each_reaches [OF loop, where P = "\<lambda>r. role_before env s a t out r \<and>
      bond_of_role r (role_uid a) \<noteq> None" and x = out])
    show "role_before env s a t out r1 \<and> bond_of_role r1 (role_uid a) \<noteq> None" by (rule start)
    show "out \<in> set (lockup_outputs env s)" by (rule here)
  next
    fix y u v
    assume y: "y \<in> set (lockup_outputs env s)" "role_update_bond env s a y u = (Inr (), v)"
    show "role_after env s a t out v" if "role_after env s a t out u"
      by (rule step_keeps_after [OF assms(1) y(2) w(2) y(1) that])
    show "role_before env s a t out v \<and> bond_of_role v (role_uid a) \<noteq> None"
      if "role_before env s a t out u \<and> bond_of_role u (role_uid a) \<noteq> None"
      using step_keeps_before [OF assms(1) y(2) w(2) y(1)] bond_exists_kept [OF y(2)] that by simp
  next
    fix u v
    assume "role_before env s a t out u \<and> bond_of_role u (role_uid a) \<noteq> None"
      "role_update_bond env s a out u = (Inr (), v)"
    then show "role_after env s a t out v" using step_reaches [OF assms(1)] by blast
  qed
qed

lemma role_bond_follows_chain:
  assumes "update_role_bonds env s pending r = (Inr (), r')" and "watched env s a t out"
    and "\<And>b. bond_of_role r (role_uid a) = Some b \<Longrightarrow> follows s t out a b"
  shows "\<exists>b. bond_of_role r' (role_uid a) = Some b \<and> on_chain s t out a b"
proof -
  obtain r1 r2 r3 where u: "for_each (update_role env s) (get_bonded_roles s) (r\<lparr>role_by_hash := None\<rparr>) = (Inr (), r1)"
    and p: "for_each (update_pending_lockup env pending) (get_bonded_roles s) r1 = (Inr (), r2)"
      "for_each (update_pending_unlock env s pending) (get_bonded_roles s) r2 = (Inr (), r3)"
    and r': "r' = r3\<lparr>role_bonds := map fst (role_bond_map r3)\<rparr>"
    using assms(1) by (auto simp: update_role_bonds_def abind_Inr modify_def)
  have same: "r3 = r1"
    using for_each_same [OF update_pending_lockup_same p(1)] for_each_same [OF update_pending_unlock_same p(2)]
    by simp
  have "role_before env s a t out (r\<lparr>role_by_hash := None\<rparr>)"
    using assms(3) by (simp add: role_before_def cache_current_def)
  then have "role_after env s a t out r1"
    by (rule for_each_reaches [OF u _ watchedD(2) [OF assms(2)]])
       (rule update_role_before [OF assms(2)] update_role_reaches [OF assms(2)] update_role_after [OF assms(2)],
        assumption+)+
  then show ?thesis using same r' by (simp add: role_after_def)
qed

section \<open>Updating returns\<close>

text \<open>Transactions of the chain have inputs and outputs, those with a lockup output end with an op return
  output.\<close>

definition txs_shaped :: "bond_env \<Rightarrow> 'a dao_state_scheme \<Rightarrow> bool" where
  "txs_shaped env s \<longleftrightarrow>
     (\<forall>i t. get_tx s i = Some t \<longrightarrow> tx_outputs t \<noteq> [] \<and> tx_inputs t \<noteq> []) \<and>
     (\<forall>out \<in> set (lockup_outputs env s). \<forall>t. get_tx s (txo_tx_id out) = Some t \<longrightarrow>
        txo_op_return_data (last (tx_outputs t)) \<noteq> None)"

lemma txs_shapedD:
  assumes "txs_shaped env s" and "get_tx s i = Some t"
  shows "tx_outputs t \<noteq> []" "tx_inputs t \<noteq> []"
  using assms by (auto simp: txs_shaped_def)

lemma first_exists: "xs \<noteq> [] \<Longrightarrow> py_nth xs 0 = Inr (hd xs)"
  by (cases xs) (simp_all add: py_nth_def)

lemma unlocking_query_returns:
  assumes "txs_shaped env s" shows "\<exists>b. is_unlocking_and_unspent_tx_id s i = Inr b"
proof -
  have over: "\<exists>b. is_lock_time_over_for_unlock_tx_output s out = Inr b" if "out_type out = UNLOCK_OUTPUT" for out
    using that by (auto simp: is_lock_time_over_for_unlock_tx_output_def get_unlock_block_height_def check_def
        tx_unlock_block_height_def lockup_output_def first_exists txs_shapedD [OF assms] split: option.split)
  have "\<exists>b. is_unlocking_and_unspent_tx_output s out = Inr b" for out
    using over [of out] by (auto simp: is_unlocking_and_unspent_tx_output_def)
  then show ?thesis
    by (auto simp: is_unlocking_and_unspent_tx_id_def first_exists txs_shapedD [OF assms] split: option.split)
qed

lemma confiscated_query_returns:
  assumes "txs_shaped env s" shows "\<exists>b. is_confiscated_unlock_tx_output s i = Inr b"
  by (auto simp: is_confiscated_unlock_tx_output_def get_lockup_tx_from_unlock_tx_id_def first_exists
      txs_shapedD [OF assms] split: option.split)

lemma apply_bond_state_returns:
  assumes "txs_shaped env s" and "get_tx s i = Some t"
  shows "\<exists>b'. apply_bond_state s t out b = (Inr (), b')"
proof -
  have amounts: "locked_amount t = Inr (txo_value (hd (tx_outputs t)))"
    "tx_lock_time t = Inr (out_lock_time (hd (tx_outputs t)))"
    using txs_shapedD [OF assms] by (simp_all add: locked_amount_def tx_lock_time_def lockup_output_def first_exists)
  have unlock: "\<exists>c. apply_unlock_state s out b = (Inr (), c)" for b :: "'c bond"
  proof (cases "case get_spent_info s out of None \<Rightarrow> None | Some si \<Rightarrow> get_tx s (si_tx_id si)")
    case (Some ut)
    obtain z where "is_unlocking_and_unspent_tx_id s (tx_id ut) = Inr z"
      using unlocking_query_returns [OF assms(1)] by blast
    then show ?thesis by (simp add: apply_unlock_state_cases Some Let_def)
  qed (simp add: apply_unlock_state_cases)
  have conf: "\<exists>z. id_confiscated p s b = Inr z" for b :: "'c bond" and p
    using confiscated_query_returns [OF assms(1), of "the (bond_unlock_tx_id b)"]
    by (auto simp: id_confiscated_def)
  define c where "c = (if bond_bond_state b \<in> {LOCKUP_TX_PENDING, UNLOCK_TX_PENDING} then b
       else b\<lparr>bond_bond_state := LOCKUP_TX_CONFIRMED\<rparr>)
     \<lparr>bond_lockup_tx_id := Some (tx_id t), bond_lockup_date := tx_time t,
      bond_amount := txo_value (hd (tx_outputs t)), bond_lock_time := out_lock_time (hd (tx_outputs t))\<rparr>"
  obtain d where d: "(if is_unspent s (get_key out) then return () else apply_unlock_state s out) c = (Inr (), d)"
    using unlock [of c] by (cases "is_unspent s (get_key out)") (auto simp: return_def)
  obtain z where "id_confiscated truthy_id s d = Inr z" using conf by blast
  then have "\<exists>b'. (abind (if is_unspent s (get_key out) then return () else apply_unlock_state s out) (\<lambda>_.
      abind (query (id_confiscated truthy_id s)) (\<lambda>confiscated.
        if confiscated then modify (\<lambda>b. b\<lparr>bond_bond_state := BS_CONFISCATED\<rparr>) else return ()))) c = (Inr (), b')"
    using d by (auto simp: abind_def query_def modify_def return_def)
  then show ?thesis unfolding apply_bond_state_def amounts
    by (simp add: abind_def modify_def query_def c_def)
qed

lemma for_each_returns:
  assumes "\<And>x u. x \<in> set xs \<Longrightarrow> \<exists>v. f x u = (Inr (), v)"
  shows "\<exists>t. for_each f xs s = (Inr (), t)"
  using assms
proof (induction xs arbitrary: s)
  case (Cons x xs)
  obtain v where "f x s = (Inr (), v)" using Cons.prems by fastforce
  then show ?case using Cons.IH [of v] Cons.prems by simp
qed simp

lemma role_update_bond_returns:
  assumes "txs_shaped env s" and "out \<in> set (lockup_outputs env s)"
  shows "\<exists>r'. role_update_bond env s a out r = (Inr (), r')"
proof (cases "get_tx s (txo_tx_id out)")
  case (Some t)
  have "txo_op_return_data (last (tx_outputs t)) \<noteq> None"
    using assms Some by (auto simp: txs_shaped_def)
  then obtain h where h: "lockup_tx_hash t = Inr h"
    using txs_shapedD(1) [OF assms(1) Some]
    by (auto simp: lockup_tx_hash_def last_tx_output_def py_last_def hash_of_op_return_def)
  have "\<exists>m r1. get_bonded_asset_by_hash_map env s r = (Inr m, r1)"
    by (simp add: get_bonded_asset_by_hash_map_def split: option.split)
  then obtain m r1 where m: "get_bonded_asset_by_hash_map env s r = (Inr m, r1)" by blast
  have "\<exists>r'. on_bond (role_uid a) (apply_bond_state s t out) r1 = (Inr (), r')"
    using apply_bond_state_returns [OF assms(1) Some]
    by (cases "bond_of_role r1 (role_uid a)") (simp_all add: on_bond_cases)
  then show ?thesis by (simp add: role_update_bond_def Some abind_def query_def h m return_def)
qed (simp add: role_update_bond_def return_def)

text \<open>Without unconfirmed transactions in the wallet the update returns.\<close>

lemma update_role_bonds_returns:
  assumes "txs_shaped env s" shows "\<exists>r'. update_role_bonds env s [] r = (Inr (), r')"
proof -
  have role: "\<exists>v. update_role env s a u = (Inr (), v)" for a u
    using for_each_returns [of "lockup_outputs env s" "role_update_bond env s a"] role_update_bond_returns [OF assms]
    by (simp add: update_role_def abind_def modify_def)
  have pending: "\<exists>v. update_pending_lockup env [] a u = (Inr (), v)"
    "\<exists>v. update_pending_unlock env s [] a u = (Inr (), v)" for a u
    by (simp_all add: update_pending_lockup_def is_lockup_tx_unconfirmed_def update_pending_unlock_def
        is_unlock_tx_unconfirmed_def abind_def query_def return_def)
  obtain r1 where r1: "for_each (update_role env s) (get_bonded_roles s) (r\<lparr>role_by_hash := None\<rparr>) = (Inr (), r1)"
    using for_each_returns role by metis
  obtain r2 where r2: "for_each (update_pending_lockup env []) (get_bonded_roles s) r1 = (Inr (), r2)"
    using for_each_returns pending(1) by metis
  obtain r3 where r3: "for_each (update_pending_unlock env s []) (get_bonded_roles s) r2 = (Inr (), r3)"
    using for_each_returns pending(2) by metis
  show ?thesis by (simp add: update_role_bonds_def abind_def modify_def r1 r2 r3)
qed

section \<open>Bonded reputations\<close>

lemma built_Inr: "built m v = Inr w \<longleftrightarrow> m v = (Inr (), w)"
  by (auto simp: built_def split: prod.split sum.split)

lemma lockup_op_return_hash:
  assumes "get_tx s i = Some t" and "lockup_tx_hash t = Inr h"
  shows "\<exists>o'. get_lockup_op_return_tx_output s i = Inr (Some o') \<and> hash_of_op_return (txo_op_return_data o') = Inr h"
proof -
  obtain o' where o': "last_tx_output t = Inr o'" "hash_of_op_return (txo_op_return_data o') = Inr h"
    using assms(2) by (auto simp: lockup_tx_hash_def rbind_eq_Inr)
  then have "txo_op_return_data o' \<noteq> None" by (auto simp: hash_of_op_return_def split: option.splits)
  then show ?thesis using o' assms(1) by (simp add: get_lockup_op_return_tx_output_def)
qed

lemma created_reputation:
  assumes "create_bonded_reputation s out = Inr (Some b)"
  shows "\<exists>t. get_tx s (txo_tx_id out) = Some t \<and> lockup_tx_hash t = Inr (bonded_asset b) \<and>
     on_chain s t out (bonded_asset b) b"
proof -
  obtain o' h where o': "get_lockup_op_return_tx_output s (txo_tx_id out) = Inr (Some o')"
    and h: "hash_of_op_return (txo_op_return_data o') = Inr h"
    and b: "reputation_update_bond s out (new_bond h) = (Inr (), b)"
    using assms by (auto simp: create_bonded_reputation_def rbind_eq_Inr built_Inr split: option.splits)
  obtain t where t: "get_tx s (txo_tx_id out) = Some t" "last_tx_output t = Inr o'"
    using o' by (auto simp: get_lockup_op_return_tx_output_def rbind_eq_Inr split: option.splits if_splits)
  have c: "on_chain s t out h b"
    using b t(1) by (auto simp: reputation_update_bond_def intro!: apply_bond_state_on_chain follows_new)
  then show ?thesis using t h by (auto simp: on_chain_def lockup_tx_hash_def)
qed

lemma set_al_update: "set (AList.update k v al) \<subseteq> insert (k, v) (set al)"
  by (induction al) auto

text \<open>Each entry of the dictionary was created from one of the outputs, under the uid of its hash, and
  every output that gives a bond gives its hash an entry.\<close>

lemma add_bonded_reputations:
  assumes "for_each (add_bonded_reputation s) outs p = (Inr (), p')"
  shows "(distinct (map fst (rep_bond_map p)) \<longrightarrow> distinct (map fst (rep_bond_map p'))) \<and>
    (\<forall>(u, b) \<in> set (rep_bond_map p'). (u, b) \<in> set (rep_bond_map p) \<or>
       u = reputation_uid (bonded_asset b) \<and> (\<exists>out \<in> set outs. create_bonded_reputation s out = Inr (Some b))) \<and>
    fst ` set (rep_bond_map p) \<subseteq> fst ` set (rep_bond_map p') \<and>
    (\<forall>out \<in> set outs. \<exists>ob. create_bonded_reputation s out = Inr ob \<and>
       (\<forall>b. ob = Some b \<longrightarrow> reputation_uid (bonded_asset b) \<in> fst ` set (rep_bond_map p')))"
  using assms
proof (induction outs arbitrary: p)
  case (Cons out outs)
  obtain q where q: "add_bonded_reputation s out p = (Inr (), q)" "for_each (add_bonded_reputation s) outs q = (Inr (), p')"
    using Cons.prems by (auto split: prod.splits sum.splits)
  obtain ob where ob: "create_bonded_reputation s out = Inr ob"
    using q(1) by (cases "create_bonded_reputation s out") (simp_all add: add_bonded_reputation_def abind_def query_def)
  note IH = Cons.IH [OF q(2)]
  note dist = conjunct1 [OF IH] and old = conjunct1 [OF conjunct2 [OF IH]]
    and kept = conjunct1 [OF conjunct2 [OF conjunct2 [OF IH]]]
    and cover = conjunct2 [OF conjunct2 [OF conjunct2 [OF IH]]]
  show ?case
  proof (cases ob)
    case None
    then have "q = p" using q(1) ob by (simp add: add_bonded_reputation_def abind_def query_def return_def)
    then show ?thesis using IH ob None by auto
  next
    case (Some b)
    have m: "rep_bond_map q = AList.update (reputation_uid (bonded_asset b)) b (rep_bond_map p)"
      using q(1) ob Some by (auto simp: add_bonded_reputation_def abind_def query_def modify_def)
    have keys: "fst ` set (rep_bond_map q) = insert (reputation_uid (bonded_asset b)) (fst ` set (rep_bond_map p))"
      by (simp add: m dom_update)
    have sub: "set (rep_bond_map q) \<subseteq> insert (reputation_uid (bonded_asset b), b) (set (rep_bond_map p))"
      by (simp add: m set_al_update)
    have d: "distinct (map fst (rep_bond_map p)) \<longrightarrow> distinct (map fst (rep_bond_map q))"
      by (simp add: m distinct_update)
    show ?thesis
    proof (intro conjI)
      show "distinct (map fst (rep_bond_map p)) \<longrightarrow> distinct (map fst (rep_bond_map p'))" using d dist by simp
      show "fst ` set (rep_bond_map p) \<subseteq> fst ` set (rep_bond_map p')" using keys kept by simp
      show "\<forall>out \<in> set (out # outs). \<exists>ob. create_bonded_reputation s out = Inr ob \<and>
          (\<forall>b. ob = Some b \<longrightarrow> reputation_uid (bonded_asset b) \<in> fst ` set (rep_bond_map p'))"
      proof
        fix o'
        assume "o' \<in> set (out # outs)"
        then consider "o' = out" | "o' \<in> set outs" by auto
        then show "\<exists>ob. create_bonded_reputation s o' = Inr ob \<and>
            (\<forall>b. ob = Some b \<longrightarrow> reputation_uid (bonded_asset b) \<in> fst ` set (rep_bond_map p'))"
        proof cases
          case 1
          have "reputation_uid (bonded_asset b) \<in> fst ` set (rep_bond_map p')" using keys kept by simp
          then show ?thesis using 1 ob Some by simp
        next
          case 2
          then show ?thesis using cover by simp
        qed
      qed
      show "\<forall>(u, b) \<in> set (rep_bond_map p'). (u, b) \<in> set (rep_bond_map p) \<or>
          u = reputation_uid (bonded_asset b) \<and>
          (\<exists>out \<in> set (out # outs). create_bonded_reputation s out = Inr (Some b))"
        using old sub ob Some by fastforce
    qed
  qed
qed simp

lemma reputations_from_chain:
  assumes "update_reputation_bonds env s bs p = (Inr (), p')"
  shows "distinct (map bonded_asset (rep_bonds p'))"
    and "b \<in> set (rep_bonds p') \<Longrightarrow> \<exists>out t. out \<in> set (lockup_outputs env s) \<and>
       txo_tx_id out \<notin> bonded_roles_lockup_tx_ids bs \<and> get_tx s (txo_tx_id out) = Some t \<and>
       lockup_tx_hash t = Inr (bonded_asset b) \<and> on_chain s t out (bonded_asset b) b"
    and "out \<in> set (lockup_outputs env s) \<Longrightarrow> txo_tx_id out \<notin> bonded_roles_lockup_tx_ids bs \<Longrightarrow>
       get_tx s (txo_tx_id out) = Some t \<Longrightarrow> lockup_tx_hash t = Inr h \<Longrightarrow>
       \<exists>b \<in> set (rep_bonds p'). bonded_asset b = h"
proof -
  let ?outs = "lockup_outputs_for_reputation env s bs"
  obtain q where q: "for_each (add_bonded_reputation s) ?outs (p\<lparr>rep_bond_map := []\<rparr>) = (Inr (), q)"
    and p': "p' = q\<lparr>rep_bonds := map snd (rep_bond_map q)\<rparr>"
    using assms by (auto simp: update_reputation_bonds_def abind_Inr modify_def)
  note a = add_bonded_reputations [OF q, simplified]
  have bonds: "rep_bonds p' = map snd (rep_bond_map q)" by (simp add: p')
  have keyed: "\<forall>(u, b) \<in> set (rep_bond_map q). u = reputation_uid (bonded_asset b)" using a by fast
  then have "map fst (rep_bond_map q) = map (reputation_uid \<circ> bonded_asset) (rep_bonds p')"
    by (auto simp: bonds)
  then have "distinct (map (reputation_uid \<circ> bonded_asset) (rep_bonds p'))" using a by metis
  then have "distinct (map reputation_uid (map bonded_asset (rep_bonds p')))" by simp
  then show "distinct (map bonded_asset (rep_bonds p'))" by (simp only: distinct_map)
  show "\<exists>out t. out \<in> set (lockup_outputs env s) \<and>
       txo_tx_id out \<notin> bonded_roles_lockup_tx_ids bs \<and> get_tx s (txo_tx_id out) = Some t \<and>
       lockup_tx_hash t = Inr (bonded_asset b) \<and> on_chain s t out (bonded_asset b) b"
    if b: "b \<in> set (rep_bonds p')"
  proof -
    obtain u where "(u, b) \<in> set (rep_bond_map q)" using b by (auto simp: bonds)
    then obtain out where "out \<in> set ?outs" "create_bonded_reputation s out = Inr (Some b)" using a by fast
    then show ?thesis using created_reputation by (fastforce simp: lockup_outputs_for_reputation_def)
  qed
  show "\<exists>b \<in> set (rep_bonds p'). bonded_asset b = h"
    if o: "out \<in> set (lockup_outputs env s)" "txo_tx_id out \<notin> bonded_roles_lockup_tx_ids bs"
      "get_tx s (txo_tx_id out) = Some t" "lockup_tx_hash t = Inr h"
  proof -
    have "out \<in> set ?outs" using o by (simp add: lockup_outputs_for_reputation_def)
    then obtain ob where ob: "create_bonded_reputation s out = Inr ob"
        "\<forall>b. ob = Some b \<longrightarrow> reputation_uid (bonded_asset b) \<in> fst ` set (rep_bond_map q)"
      using a by blast
    obtain o' where "get_lockup_op_return_tx_output s (txo_tx_id out) = Inr (Some o')"
        "hash_of_op_return (txo_op_return_data o') = Inr h"
      using lockup_op_return_hash [OF o(3,4)] by blast
    then obtain b where b: "ob = Some b"
      using ob(1) by (auto simp: create_bonded_reputation_def rbind_eq_Inr)
    have "bonded_asset b = h" using created_reputation [of s out b] ob(1) b o(3,4) by auto
    then obtain b' where "(reputation_uid h, b') \<in> set (rep_bond_map q)" using ob(2) b by auto
    then show ?thesis using keyed by (force simp: reputation_uid_def bonds)
  qed
qed

section \<open>The user's own bonded reputations\<close>

lemma my_bonded_reputations_from_chain:
  assumes "get_my_bonded_reputation env s a = Inr bs" and "b \<in> set bs"
  shows "\<exists>out t. out \<in> set (lockup_outputs env s) \<and> get_tx s (txo_tx_id out) = Some t \<and>
     lockup_tx_hash t = Inr (mr_hash a) \<and> on_chain s t out a b"
proof -
  have "\<forall>b \<in> set bs. \<exists>out t. out \<in> set (lockup_outputs env s) \<and> get_tx s (txo_tx_id out) = Some t \<and>
     lockup_tx_hash t = Inr (mr_hash a) \<and> on_chain s t out a b"
    using assms(1) unfolding get_my_bonded_reputation_def
  proof (induction rule: fold_res_inv)
    case (step out u v)
    show ?case
    proof (cases "get_tx s (txo_tx_id out)")
      case (Some t)
      obtain h where h: "lockup_tx_hash t = Inr h"
        using step(2) Some by (auto simp: get_my_bonded_reputation_step_def rbind_eq_Inr)
      show ?thesis
      proof (cases "h = mr_hash a")
        case True
        then obtain b where "apply_bond_state s t out (new_bond a) = (Inr (), b)" "v = u @ [b]"
          using step(2) Some h by (auto simp: get_my_bonded_reputation_step_def rbind_eq_Inr built_Inr)
        moreover from this(1) have "on_chain s t out a b" by (rule apply_bond_state_on_chain) (rule follows_new)
        ultimately show ?thesis using step(1,3) Some h True by auto
      qed (use step Some h in \<open>simp add: get_my_bonded_reputation_step_def\<close>)
    qed (use step in \<open>simp add: get_my_bonded_reputation_step_def\<close>)
  qed simp
  then show ?thesis using assms(2) by blast
qed

lemma fold_setdefault_bonds:
  assumes "distinct (map fst m)" and "\<forall>(k, b) \<in> set m. k = bond_lockup_tx_id b"
  shows "distinct (map fst (fold (\<lambda>b. al_setdefault (bond_lockup_tx_id b) b) bs m)) \<and>
    (\<forall>(k, b) \<in> set (fold (\<lambda>b. al_setdefault (bond_lockup_tx_id b) b) bs m).
       k = bond_lockup_tx_id b \<and> (b \<in> set bs \<or> (k, b) \<in> set m))"
  using assms
proof (induction bs arbitrary: m)
  case (Cons b bs)
  let ?m = "al_setdefault (bond_lockup_tx_id b) b m"
  have sub: "set ?m \<subseteq> insert (bond_lockup_tx_id b, b) (set m)" by (rule set_al_setdefault)
  have "distinct (map fst ?m)" by (rule distinct_setdefault) (rule Cons.prems(1))
  moreover have "\<forall>(k, b) \<in> set ?m. k = bond_lockup_tx_id b" using Cons.prems(2) sub by auto
  ultimately show ?case using Cons.IH [of ?m] sub by fastforce
qed auto

lemma my_update_bond_state_sel:
  assumes "my_update_bond_state s pending b = Inr b'"
  shows "bonded_asset b' = bonded_asset b" "bond_lockup_tx_id b' = bond_lockup_tx_id b"
  using assms by (auto simp: my_update_bond_state_def rbind_eq_Inr split: if_splits)

lemma my_bonds_from_chain:
  assumes "update_my_bonds env s pending as = Inr l"
  shows "distinct (map bond_lockup_tx_id l)"
    and "b \<in> set l \<Longrightarrow> bonded_asset b \<in> set as \<and> (\<exists>out t. out \<in> set (lockup_outputs env s) \<and>
       get_tx s (txo_tx_id out) = Some t \<and> lockup_tx_hash t = Inr (mr_hash (bonded_asset b)) \<and>
       bond_lockup_tx_id b = Some (tx_id t))"
proof -
  define from_chain where "from_chain b \<longleftrightarrow> bonded_asset b \<in> set as \<and> (\<exists>out t. out \<in> set (lockup_outputs env s) \<and>
       get_tx s (txo_tx_id out) = Some t \<and> lockup_tx_hash t = Inr (mr_hash (bonded_asset b)) \<and>
       bond_lockup_tx_id b = Some (tx_id t))" for b :: "my_reputation bond"
  obtain m where m: "collect_my_bonds env s as = Inr m"
    and l: "fold_res (\<lambda>b l. rbind (my_update_bond_state s pending b) (\<lambda>b'. Inr (l @ [b']))) (map snd m) [] = Inr l"
    using assms by (auto simp: update_my_bonds_def rbind_eq_Inr)
  have "distinct (map fst m) \<and> (\<forall>(k, b) \<in> set m. k = bond_lockup_tx_id b) \<and> (\<forall>(k, b) \<in> set m. from_chain b)"
    using m unfolding collect_my_bonds_def
  proof (induction rule: fold_res_inv)
    case (step a u v)
    obtain bs where bs: "get_my_bonded_reputation env s a = Inr bs"
      and v: "v = fold (\<lambda>b. al_setdefault (bond_lockup_tx_id b) b) bs u"
      using step(2) by (auto simp: rbind_eq_Inr)
    have "from_chain b" if "b \<in> set bs" for b
      using my_bonded_reputations_from_chain [OF bs that] step(1) by (auto simp: from_chain_def on_chain_def)
    then show ?case using fold_setdefault_bonds [of u bs] step(3) v by fastforce
  qed simp
  moreover have "map bond_lockup_tx_id l = map (bond_lockup_tx_id \<circ> snd) m \<and> (\<forall>b \<in> set l. \<exists>c \<in> set (map snd m).
      bonded_asset b = bonded_asset c \<and> bond_lockup_tx_id b = bond_lockup_tx_id c)"
  proof -
    have "map bond_lockup_tx_id l = map bond_lockup_tx_id l0 @ map bond_lockup_tx_id bs \<and>
        (\<forall>b \<in> set l. b \<in> set l0 \<or> (\<exists>c \<in> set bs. bonded_asset b = bonded_asset c \<and> bond_lockup_tx_id b = bond_lockup_tx_id c))"
      if "fold_res (\<lambda>b l. rbind (my_update_bond_state s pending b) (\<lambda>b'. Inr (l @ [b']))) bs l0 = Inr l" for bs l0
      using that
    proof (induction bs arbitrary: l0)
      case (Cons b bs)
      then obtain b' where b': "my_update_bond_state s pending b = Inr b'"
          "fold_res (\<lambda>b l. rbind (my_update_bond_state s pending b) (\<lambda>b'. Inr (l @ [b']))) bs (l0 @ [b']) = Inr l"
        by (auto simp: rbind_eq_Inr)
      show ?case using Cons.IH [OF b'(2)] my_update_bond_state_sel [OF b'(1)] by auto
    qed simp
    from this [OF l] show ?thesis by auto
  qed
  ultimately have m: "distinct (map fst m)" "\<forall>(k, b) \<in> set m. k = bond_lockup_tx_id b" "\<forall>(k, b) \<in> set m. from_chain b"
    and l: "map bond_lockup_tx_id l = map (bond_lockup_tx_id \<circ> snd) m"
      "\<forall>b \<in> set l. \<exists>c \<in> set (map snd m). bonded_asset b = bonded_asset c \<and> bond_lockup_tx_id b = bond_lockup_tx_id c"
    by simp_all
  have "map (bond_lockup_tx_id \<circ> snd) m = map fst m" using m(2) by auto
  then show "distinct (map bond_lockup_tx_id l)" using m(1) l(1) by metis
  show "bonded_asset b \<in> set as \<and> (\<exists>out t. out \<in> set (lockup_outputs env s) \<and>
       get_tx s (txo_tx_id out) = Some t \<and> lockup_tx_hash t = Inr (mr_hash (bonded_asset b)) \<and>
       bond_lockup_tx_id b = Some (tx_id t))" if b: "b \<in> set l"
  proof -
    obtain c where "c \<in> set (map snd m)" "bonded_asset b = bonded_asset c" "bond_lockup_tx_id b = bond_lockup_tx_id c"
      using l(2) b by blast
    moreover from this(1) have "from_chain c" using m(3) by auto
    ultimately show ?thesis by (simp add: from_chain_def)
  qed
qed

end
