(* ===== verification/Bond_Examples.thy ===== *)
theory Bond_Examples
  imports Bond_Facts Gov_Examples
begin

text \<open>
  The properties of the bond repositories, with examples: a role whose lockup transaction is confirmed
  and unlocked again, and the same lockup transaction read as a bonded reputation.
\<close>

section \<open>Examples\<close>

definition ex_role :: role where
  "ex_role = \<lparr>role_uid = ''id'', role_name = ''n'', role_link = ''l'', role_bonded_role_type = BTC_DONATION_ADDRESS_OWNER\<rparr>"

definition ex_bond_out :: tx_output where
  "ex_bond_out = ex_tx_output ''k'' 1000 LOCKUP_OUTPUT 20 0"

definition ex_bond_tx :: tx where
  "ex_bond_tx = ex_tx ''k'' 112 [(''a'', 0)]
     [ex_bond_out, (ex_tx_output ''k'' 0 LOCKUP_OP_RETURN_OUTPUT 0 0)
        \<lparr>txo_index := 1, txo_op_return_data := Some (get_lockup_op_return_data 20 BONDED_ROLE (replicate 20 7))\<rparr>] LOCKUP"

definition ex_unlocked_out :: tx_output where
  "ex_unlocked_out = ex_tx_output ''m'' 1000 UNLOCK_OUTPUT 0 200"

definition ex_unlocked_tx :: tx where
  "ex_unlocked_tx = ex_tx ''m'' 112 [(''k'', 0)] [ex_unlocked_out] UNLOCK"

definition ex_bonds_state :: dao_service where
  "ex_bonds_state = ex_state
     \<lparr>tx_cache := [(''k'', ex_bond_tx), (''m'', ex_unlocked_tx)],
      tx_outputs_by_type := Map.empty(LOCKUP_OUTPUT \<mapsto> {ex_bond_out}, UNLOCK_OUTPUT \<mapsto> {ex_unlocked_out}),
      unspent_tx_output_map := Map.empty(get_key ex_unlocked_out \<mapsto> ex_unlocked_out),
      spent_info_map := Map.empty(get_key ex_bond_out \<mapsto>
        \<lparr>si_block_height = 112, si_tx_id = ''m'', si_input_index = 0\<rparr>),
      evaluated_proposal_list := [ex_accepted (ex_prop ''p'' (Role_Proposal ex_role 1 2))]\<rparr>"

definition ex_bond_env :: bond_env where
  "ex_bond_env =
     \<lparr>br_role_hash = (\<lambda>r. replicate 20 7), br_salt_hash = (\<lambda>d. d),
      br_order_outputs = (\<lambda>S. if S = {ex_bond_out} then [ex_bond_out] else ex_other_order S)\<rparr>"

lemma ex_bonds_lockups: "lockup_outputs ex_bond_env ex_bonds_state = [ex_bond_out]"
  by (simp add: lockup_outputs_def ex_bond_env_def get_lockup_tx_outputs_def get_tx_output_by_tx_output_type_def
      ex_bonds_state_def)

lemma ex_bonds_roles: "get_bonded_roles ex_bonds_state = [ex_role]"
  by code_simp

lemma ex_bond_lookup: "get_tx ex_bonds_state (txo_tx_id ex_bond_out) = Some ex_bond_tx"
  by code_simp

lemma ex_bond_hash: "lockup_tx_hash ex_bond_tx = Inr (replicate 20 7)"
  by code_simp

lemma ex_bonds_shaped: "txs_shaped ex_bond_env ex_bonds_state"
proof -
  have "tx_outputs t \<noteq> [] \<and> tx_inputs t \<noteq> []" if "get_tx ex_bonds_state i = Some t" for i t
    using that by (auto simp: get_tx_def ex_bonds_state_def ex_bond_tx_def ex_unlocked_tx_def ex_tx_def split: if_splits)
  moreover have "txo_op_return_data (last (tx_outputs ex_bond_tx)) \<noteq> None"
    by (simp add: ex_bond_tx_def ex_tx_def)
  ultimately show ?thesis by (simp add: txs_shaped_def ex_bonds_lockups ex_bond_lookup)
qed

lemma ex_bonds_watched: "watched ex_bond_env ex_bonds_state ex_role ex_bond_tx ex_bond_out"
  by (simp add: watched_def roles_distinguished_def only_lockup_of_def ex_bonds_roles ex_bonds_lockups ex_bond_lookup
      ex_bond_hash) (simp add: ex_bond_env_def)

section \<open>Properties\<close>

text \<open>C14: When the chain holds exactly one lockup output for a role, an update of the role repository
  without unconfirmed wallet transactions returns, and the bond of the role shows what the chain says:
  the lockup and unlock transactions, the locked amount, the lock time, and the state, which is confirmed
  while the output is unspent, unlocking or unlocked once it was spent by an unlock transaction, and
  confiscated when the bond was confiscated, whatever it showed before.\<close>

theorem role_bond_shows_chain_state:
  assumes "txs_shaped env s" and "watched env s a t out"
    and "\<And>b. bond_of_role r (role_uid a) = Some b \<Longrightarrow> follows s t out a b"
  shows "\<exists>r' b. update_role_bonds env s [] r = (Inr (), r') \<and> bond_of_role r' (role_uid a) = Some b \<and>
     bond_lockup_tx_id b = Some (tx_id t) \<and> locked_amount t = Inr (bond_amount b) \<and>
     tx_lock_time t = Inr (bond_lock_time b) \<and>
     bond_unlock_tx_id b = map_option tx_id (unlock_tx_of s out) \<and>
     bond_bond_state b = chain_bond_state s t out"
proof -
  obtain r' where r': "update_role_bonds env s [] r = (Inr (), r')"
    using update_role_bonds_returns [OF assms(1)] by blast
  show ?thesis using role_bond_follows_chain [OF r' assms(2,3)] r' by (auto simp: on_chain_def)
qed

theorem role_bond_shows_chain_state_witness:
  "\<exists>r' b. update_role_bonds ex_bond_env ex_bonds_state [] empty_role_repository = (Inr (), r') \<and>
     bond_of_role r' ''id'' = Some b \<and> bond_bond_state b = BS_UNLOCKING \<and> bond_unlock_tx_id b = Some ''m''"
proof -
  have "chain_bond_state ex_bonds_state ex_bond_tx ex_bond_out = BS_UNLOCKING"
    "map_option tx_id (unlock_tx_of ex_bonds_state ex_bond_out) = Some ''m''" "role_uid ex_role = ''id''"
    by code_simp+
  then show ?thesis
    using role_bond_shows_chain_state [OF ex_bonds_shaped ex_bonds_watched, of empty_role_repository]
    by (auto simp: empty_role_repository_def bond_of_role_def)
qed

text \<open>C15: The role repository cannot show a pending transaction: the static \<open>is_confiscated\<close> is called
  without its second argument, so when the wallet has an unconfirmed lockup transaction of a role whose
  bond is ready for lockup, the update raises before the bond list is refreshed, and no bond ever is in
  one of the two pending states.\<close>

theorem pending_lockup_stops_update:
  assumes "role_repository_reachable env r"
    and "for_each (update_role env s) (get_bonded_roles s) (r\<lparr>role_by_hash := None\<rparr>) = (Inr (), r')"
    and "a \<in> set (get_bonded_roles s)" and "is_lockup_tx_unconfirmed pending (br_role_hash env a)"
    and "bond_of_role r' (role_uid a) = Some b" and "bond_bond_state b = READY_FOR_LOCKUP"
  shows "update_role_bonds env (s :: dao_service) pending r = (Inl Type_Error, r') \<and>
     none_pending r \<and> none_pending r'"
proof -
  note upd = pending_lockup_raises [OF assms(2-6)]
  show ?thesis
    using upd reachable_none_pending [OF assms(1)] reachable_none_pending [OF reach_update [OF assms(1) upd]] by blast
qed

definition ex_ready_state :: dao_service where
  "ex_ready_state = ex_bonds_state\<lparr>tx_cache := [], tx_outputs_by_type := Map.empty\<rparr>"

definition ex_pending_lockup :: pending_tx where
  "ex_pending_lockup =
     \<lparr>pt_inputs = [], pt_outputs = [\<lparr>po_is_op_return = True,
        po_pushes = [None, Some (get_lockup_op_return_data 20 BONDED_ROLE (replicate 20 7))]\<rparr>]\<rparr>"

theorem pending_lockup_stops_update_witness:
  "\<exists>r'. update_role_bonds ex_bond_env ex_ready_state [ex_pending_lockup] empty_role_repository = (Inl Type_Error, r') \<and>
     map_option bond_bond_state (bond_of_role r' ''id'') = Some READY_FOR_LOCKUP"
proof -
  have roles: "get_bonded_roles ex_ready_state = [ex_role]" by code_simp
  have none: "role_update_bond ex_bond_env ex_ready_state ex_role out r = (Inr (), r)" for out r
    by (simp add: role_update_bond_def get_tx_def ex_ready_state_def return_def)
  have loop: "for_each (role_update_bond ex_bond_env ex_ready_state ex_role) outs r = (Inr (), r)" for outs r
    by (induction outs) (simp_all add: none)
  define r' where "r' = empty_role_repository\<lparr>role_bond_map := [(''id'', new_bond ex_role)]\<rparr>"
  have uid: "role_uid ex_role = ''id''" by (simp add: ex_role_def)
  have turn: "for_each (update_role ex_bond_env ex_ready_state) (get_bonded_roles ex_ready_state)
      (empty_role_repository\<lparr>role_by_hash := None\<rparr>) = (Inr (), r')"
    by (simp add: roles update_role_def abind_def modify_def loop uid r'_def empty_role_repository_def bond_of_role_def)
  have b: "bond_of_role r' (role_uid ex_role) = Some (new_bond ex_role)"
    by (simp add: r'_def uid bond_of_role_def)
  have "is_lockup_tx_unconfirmed [ex_pending_lockup] (br_role_hash ex_bond_env ex_role)" by code_simp
  then have "update_role_bonds ex_bond_env ex_ready_state [ex_pending_lockup] empty_role_repository = (Inl Type_Error, r')"
    using pending_lockup_stops_update [OF reach_empty turn _ _ b] roles by simp
  then show ?thesis using b uid by simp
qed

text \<open>C16: After an update of the bonded reputations there is exactly one bond for each hash that a
  lockup transaction carries whose id is not the lockup transaction of a bonded role, and the bond shows
  the state on the chain of one of the lockup outputs with that hash.\<close>

theorem reputations_match_lockups:
  assumes "update_reputation_bonds env s bs p = (Inr (), p')"
  shows "distinct (map bonded_asset (rep_bonds p')) \<and>
    bonded_asset ` set (rep_bonds p') =
      {h. \<exists>out t. out \<in> set (lockup_outputs env s) \<and> txo_tx_id out \<notin> bonded_roles_lockup_tx_ids bs \<and>
         get_tx s (txo_tx_id out) = Some t \<and> lockup_tx_hash t = Inr h} \<and>
    (\<forall>b \<in> set (rep_bonds p'). \<exists>out t. out \<in> set (lockup_outputs env s) \<and>
       txo_tx_id out \<notin> bonded_roles_lockup_tx_ids bs \<and> get_tx s (txo_tx_id out) = Some t \<and>
       bond_lockup_tx_id b = Some (tx_id t) \<and> bond_bond_state b = chain_bond_state s t out)"
  using reputations_from_chain [OF assms] unfolding on_chain_def by (intro conjI) (blast, blast, metis)

theorem reputations_match_lockups_witness:
  "\<exists>p'. update_reputation_bonds ex_bond_env ex_bonds_state [] \<lparr>rep_bond_map = [], rep_bonds = []\<rparr> = (Inr (), p') \<and>
     map bonded_asset (rep_bonds p') = [replicate 20 7] \<and> bonded_asset ` set (rep_bonds p') = {replicate 20 7}"
proof -
  obtain b where c: "create_bonded_reputation ex_bonds_state ex_bond_out = Inr (Some b)"
    "bonded_asset b = replicate 20 7"
  proof -
    have "\<exists>b. create_bonded_reputation ex_bonds_state ex_bond_out = Inr (Some b) \<and> bonded_asset b = replicate 20 7"
      by (rule exI [of _ "the (case create_bonded_reputation ex_bonds_state ex_bond_out of Inr b \<Rightarrow> b | Inl _ \<Rightarrow> None)"])
         code_simp
    then show ?thesis using that by blast
  qed
  define p' where "p' = \<lparr>rep_bond_map = [(reputation_uid (replicate 20 7), b)], rep_bonds = [b]\<rparr>"
  have upd: "update_reputation_bonds ex_bond_env ex_bonds_state [] \<lparr>rep_bond_map = [], rep_bonds = []\<rparr> = (Inr (), p')"
    by (simp add: update_reputation_bonds_def lockup_outputs_for_reputation_def bonded_roles_lockup_tx_ids_def
        ex_bonds_lockups add_bonded_reputation_def c abind_def query_def modify_def p'_def)
  have "distinct (map bonded_asset (rep_bonds p'))" using reputations_match_lockups [OF upd] by blast
  then show ?thesis using upd c by (auto simp: p'_def)
qed

end
