(* ===== verification/Dao_Monitoring.thy ===== *)
theory Dao_Monitoring
  imports Gov_Lists
begin

text \<open>
  DAO state monitoring (\<open>dao/monitoring/\<close>): the chain of hashes over the DAO state, the hashes
  received from peers and the conflicts they show, the check of the unspent outputs
  (\<open>dao_state_monitoring_service.py\<close>), the same for the blind votes and the proposals of a cycle
  (\<open>blind_vote_state_monitoring_service.py\<close>, \<open>proposal_state_monitoring_service.py\<close>), and the handler
  of a request for hashes (\<open>network/request_state_hashes_handler.py\<close>).

  A state block is mutable and shared by the chain list and the dictionary by height: the dictionary
  holds its position in the list, which is only appended to or cleared together with the dictionary.
  The hash function, the serialised forms that are hashed and the addresses of the seed nodes are
  parameters; \<open>rnd\<close> gives the random numbers of unknown peers.  What the services ask of others
  (broadcasts, requests, listener calls) is logged as events in order.
\<close>

section \<open>State hashes and blocks\<close>

record state_hash =
  sh_height :: int
  sh_hash :: bytes

record dao_state_hash = state_hash +
  sh_is_self_created :: bool

record blind_vote_state_hash = state_hash +
  sh_num_blind_votes :: int

record proposal_state_hash = state_hash +
  sh_num_proposals :: int

definition has_equal_hash :: "'h state_hash_scheme \<Rightarrow> 'h state_hash_scheme \<Rightarrow> bool" where
  "has_equal_hash a b \<longleftrightarrow> sh_hash a = sh_hash b"

record 'h state_block =
  my_state_hash :: 'h
  peers_map :: "(string \<times> 'h) list"
  in_conflict_map :: "(string \<times> 'h) list"

definition new_state_block :: "'h \<Rightarrow> 'h state_block" where
  "new_state_block h = \<lparr>my_state_hash = h, peers_map = [], in_conflict_map = []\<rparr>"

definition put_in_peers_map :: "string \<Rightarrow> 'h \<Rightarrow> 'h state_block \<Rightarrow> 'h state_block" where
  "put_in_peers_map peer h b = b\<lparr>peers_map := al_setdefault peer h (peers_map b)\<rparr>"

definition put_in_conflict_map :: "string \<Rightarrow> 'h \<Rightarrow> 'h state_block \<Rightarrow> 'h state_block" where
  "put_in_conflict_map peer h b = b\<lparr>in_conflict_map := al_setdefault peer h (in_conflict_map b)\<rparr>"

definition block_sh_height :: "'h state_hash_scheme state_block \<Rightarrow> int" where
  "block_sh_height b = sh_height (my_state_hash b)"

definition block_sh_hash :: "'h state_hash_scheme state_block \<Rightarrow> bytes" where
  "block_sh_hash b = sh_hash (my_state_hash b)"

section \<open>The DAO state monitoring service\<close>

record utxo_mismatch =
  um_height :: int
  um_sum_utxo :: int
  um_sum_bsq :: int

record checkpoint =
  cp_height :: int
  cp_hash :: bytes

datatype dao_monitor_event =
    Dao_State_Hashes_Changed | Dao_State_Block_Created | On_Checkpoint_Failed
  | Broadcast_State_Hash dao_state_hash | Request_Hashes_From int
  | Send_Hashes nat "dao_state_hash list" | Add_Network_Listeners | Network_Reset
  | Remove_All_Dao_Data | Run_Snapshot_Handler

record dao_monitoring =
  dm_block_chain :: "dao_state_hash state_block list"
  dm_hash_chain :: "dao_state_hash list"
  dm_block_by_height :: "int \<rightharpoonup> nat"
  dm_parse_complete :: bool
  dm_conflict_non_seed :: bool
  dm_conflict_seed :: bool
  dm_not_connecting :: bool
  dm_utxo_mismatches :: "utxo_mismatch list"
  dm_checkpoint_failed :: bool
  dm_snapshot_handler :: bool \<comment> \<open>\<open>create_snapshot_handler\<close> is set\<close>
  dm_events :: "dao_monitor_event list"

record monitor_env =
  me_hash :: "bytes \<Rightarrow> bytes"
  me_serialize_state :: "dao_service \<Rightarrow> bytes"
  me_serialize_blind_votes :: "blind_vote list \<Rightarrow> bytes"
  me_serialize_proposals :: "proposal list \<Rightarrow> bytes"
  me_seed_node_addresses :: "string set"
  me_full_mode_dao_monitor :: bool
  me_ignore_dev_msg :: bool

definition new_dao_monitoring :: dao_monitoring where
  "new_dao_monitoring =
     \<lparr>dm_block_chain = [], dm_hash_chain = [], dm_block_by_height = Map.empty, dm_parse_complete = False,
      dm_conflict_non_seed = False, dm_conflict_seed = False, dm_not_connecting = False,
      dm_utxo_mismatches = [], dm_checkpoint_failed = False, dm_snapshot_handler = False, dm_events = []\<rparr>"

definition checkpoints :: "checkpoint list" where
  "checkpoints =
     [\<lparr>cp_height = 586920, cp_hash = [0x52, 0x3a, 0xaa, 0xd4, 0xe7, 0x60, 0xf6, 0xac, 0x61, 0x96,
        0xfe, 0xc1, 0xb3, 0xec, 0x9a, 0x2f, 0x42, 0xe5, 0xb2, 0x72]\<rparr>]"

definition dm_log :: "dao_monitor_event \<Rightarrow> dao_monitoring \<Rightarrow> dao_monitoring" where
  "dm_log e m = m\<lparr>dm_events := dm_events m @ [e]\<rparr>"

definition get_peers_address :: "string option \<Rightarrow> nat \<Rightarrow> string" where
  "get_peers_address peer rnd =
     (case peer of Some a \<Rightarrow> a | None \<Rightarrow> ''Unknown peer '' @ nat_str rnd)"

definition is_seed_node :: "monitor_env \<Rightarrow> string \<Rightarrow> bool" where
  "is_seed_node env peer \<longleftrightarrow> peer \<in> me_seed_node_addresses env"

definition find_dao_state_block :: "dao_monitoring \<Rightarrow> int \<Rightarrow> nat option" where
  "find_dao_state_block m h = dm_block_by_height m h"

subsection \<open>The hash chain\<close>

definition append_state_hash :: "dao_state_hash \<Rightarrow> dao_monitoring \<Rightarrow> dao_monitoring" where
  "append_state_hash h m =
     m\<lparr>dm_block_by_height := (dm_block_by_height m)(sh_height h \<mapsto> length (dm_block_chain m)),
       dm_block_chain := dm_block_chain m @ [new_state_block h],
       dm_hash_chain := dm_hash_chain m @ [h]\<rparr>"

text \<open>The hash a new block is linked to: none if the block does not connect.\<close>

definition prev_state_hash :: "dao_service \<Rightarrow> int \<Rightarrow> dao_monitoring \<Rightarrow> bytes option" where
  "prev_state_hash s height m =
     (if dm_block_chain m = [] then (if height = genesis_block_height s then Some [] else None)
      else if height = block_sh_height (last (dm_block_chain m)) + 1
      then Some (block_sh_hash (last (dm_block_chain m))) else None)"

definition create_dao_state_block ::
  "monitor_env \<Rightarrow> dao_service \<Rightarrow> block \<Rightarrow> dao_monitoring \<Rightarrow> dao_monitoring \<times> nat option" where
  "create_dao_state_block env s b m =
     (case prev_state_hash s (blk_height b) m of
        None \<Rightarrow> (dm_log Dao_State_Hashes_Changed (m\<lparr>dm_not_connecting := True\<rparr>), None)
      | Some prev \<Rightarrow>
          let h = \<lparr>sh_height = blk_height b, sh_hash = me_hash env (prev @ me_serialize_state env s),
                   sh_is_self_created = True\<rparr>;
              m1 = append_state_hash h m;
              m2 = if dm_parse_complete m1 then dm_log (Broadcast_State_Hash h) m1 else m1
          in (dm_log Dao_State_Block_Created m2, Some (length (dm_block_chain m))))"

definition create_hash_from_block ::
  "monitor_env \<Rightarrow> dao_service \<Rightarrow> block \<Rightarrow> dao_monitoring \<Rightarrow> dao_monitoring" where
  "create_hash_from_block env s b m =
     (let m' = fst (create_dao_state_block env s b m)
      in if dm_parse_complete m' then dm_log Dao_State_Hashes_Changed m' else m')"

definition monitoring_apply_snapshot :: "dao_state_hash list \<Rightarrow> dao_monitoring \<Rightarrow> dao_monitoring" where
  "monitoring_apply_snapshot persisted m =
     (let m0 = dm_log Network_Reset (m\<lparr>dm_hash_chain := [], dm_block_chain := [], dm_block_by_height := Map.empty\<rparr>)
      in fold append_state_hash persisted m0)"

subsection \<open>Hashes of peers\<close>

definition check_for_hash_conflicts ::
  "monitor_env \<Rightarrow> dao_state_hash \<Rightarrow> string \<Rightarrow> nat \<Rightarrow> dao_monitoring \<Rightarrow> dao_monitoring" where
  "check_for_hash_conflicts env h peer i m =
     (let b = dm_block_chain m ! i
      in if has_equal_hash (my_state_hash b) h then m
         else let m' = m\<lparr>dm_block_chain := (dm_block_chain m)[i := put_in_conflict_map peer h b]\<rparr>
              in if is_seed_node env peer then m'\<lparr>dm_conflict_seed := True\<rparr>
                 else m'\<lparr>dm_conflict_non_seed := True\<rparr>)"

definition put_in_peers_map_and_check ::
  "monitor_env \<Rightarrow> string \<Rightarrow> dao_state_hash \<Rightarrow> nat option \<Rightarrow> dao_monitoring \<Rightarrow> dao_monitoring" where
  "put_in_peers_map_and_check env peer h oi m =
     (case oi of
        None \<Rightarrow> m
      | Some i \<Rightarrow> check_for_hash_conflicts env h peer i
          (m\<lparr>dm_block_chain := (dm_block_chain m)[i := put_in_peers_map peer h (dm_block_chain m ! i)]\<rparr>))"

definition process_peers_dao_state_hash ::
  "monitor_env \<Rightarrow> dao_service \<Rightarrow> string \<Rightarrow> dao_state_hash \<Rightarrow> dao_monitoring \<Rightarrow> dao_monitoring" where
  "process_peers_dao_state_hash env s peer h m =
     (let found = find_dao_state_block m (sh_height h);
          (m1, oi) =
            (if \<not> me_full_mode_dao_monitor env \<and> found = None
             then if chain_height s = sh_height h
                  then case last_block s of
                         None \<Rightarrow> (m, found)
                       | Some b \<Rightarrow> (case create_dao_state_block env s b m of
                           (m', None) \<Rightarrow> (m', find_dao_state_block m' (sh_height h))
                         | (m', Some i) \<Rightarrow> (m', Some i))
                  else (append_state_hash (h\<lparr>sh_is_self_created := False\<rparr>) m, Some (length (dm_block_chain m)))
             else (m, found))
      in put_in_peers_map_and_check env peer h oi m1)"

definition process_peers_dao_state_hashes ::
  "monitor_env \<Rightarrow> dao_service \<Rightarrow> dao_state_hash list \<Rightarrow> string option \<Rightarrow> (nat \<Rightarrow> nat) \<Rightarrow>
   dao_monitoring \<Rightarrow> dao_monitoring" where
  "process_peers_dao_state_hashes env s hs peer rnd m =
     fold (\<lambda>(n, h). process_peers_dao_state_hash env s (get_peers_address peer (rnd n)) h) (enumerate_from 0 hs) m"

definition on_new_dao_state_hash_message ::
  "monitor_env \<Rightarrow> dao_service \<Rightarrow> dao_state_hash \<Rightarrow> string option \<Rightarrow> nat \<Rightarrow> dao_monitoring \<Rightarrow> dao_monitoring" where
  "on_new_dao_state_hash_message env s h peer rnd m =
     (if sh_height h \<le> chain_height s
      then dm_log Dao_State_Hashes_Changed
             (put_in_peers_map_and_check env (get_peers_address peer rnd) h
                (find_dao_state_block m (sh_height h)) m)
      else m)"

definition on_peers_dao_state_hashes ::
  "monitor_env \<Rightarrow> dao_service \<Rightarrow> dao_state_hash list \<Rightarrow> string option \<Rightarrow> (nat \<Rightarrow> nat) \<Rightarrow>
   dao_monitoring \<Rightarrow> dao_monitoring" where
  "on_peers_dao_state_hashes env s hs peer rnd m =
     (let m' = dm_log Dao_State_Hashes_Changed (process_peers_dao_state_hashes env s hs peer rnd m)
      in if dm_snapshot_handler m' then dm_log Run_Snapshot_Handler (m'\<lparr>dm_snapshot_handler := False\<rparr>) else m')"

definition on_get_dao_state_hash_request :: "nat \<Rightarrow> int \<Rightarrow> dao_monitoring \<Rightarrow> dao_monitoring" where
  "on_get_dao_state_hash_request nonce from_height m =
     dm_log (Send_Hashes nonce (filter (\<lambda>h. from_height \<le> sh_height h) (dm_hash_chain m))) m"

subsection \<open>Unspent outputs and checkpoints\<close>

definition sum_of_utxos :: "'a dao_state_scheme \<Rightarrow> int" where
  "sum_of_utxos s = map_total txo_value (unspent_tx_output_map s)"

definition sum_of_bsq :: "'a dao_service_scheme \<Rightarrow> int" where
  "sum_of_bsq s =
     genesis_total_supply s + get_total_issued_amount s IT_COMPENSATION
       + get_total_issued_amount s IT_REIMBURSEMENT - get_total_amount_of_burnt_bsq s"

definition check_utxos :: "dao_service \<Rightarrow> block \<Rightarrow> dao_monitoring \<Rightarrow> dao_monitoring" where
  "check_utxos s b m =
     (if sum_of_bsq s \<noteq> sum_of_utxos s
      then m\<lparr>dm_utxo_mismatches := dm_utxo_mismatches m @
               [\<lparr>um_height = blk_height b, um_sum_utxo = sum_of_utxos s, um_sum_bsq = sum_of_bsq s\<rparr>]\<rparr>
      else m)"

text \<open>The nested loops of \<open>_verify_checkpoints\<close>, whose \<open>return\<close> leaves both.\<close>

fun verify_pairs :: "(checkpoint \<times> dao_state_hash) list \<Rightarrow> dao_monitoring \<Rightarrow> dao_monitoring" where
  "verify_pairs [] m = m"
| "verify_pairs ((c, h) # xs) m =
     (if sh_height h = cp_height c
      then if sh_hash h = cp_hash c then verify_pairs xs m
           else if dm_checkpoint_failed m then m
           else verify_pairs xs (dm_log On_Checkpoint_Failed (dm_log Remove_All_Dao_Data
                  (m\<lparr>dm_checkpoint_failed := True\<rparr>)))
      else verify_pairs xs m)"

definition verify_checkpoints :: "dao_monitoring \<Rightarrow> dao_monitoring" where
  "verify_checkpoints m = verify_pairs (List.product checkpoints (dm_hash_chain m)) m"

definition monitoring_on_dao_state_changed :: "dao_service \<Rightarrow> block \<Rightarrow> dao_monitoring \<Rightarrow> dao_monitoring" where
  "monitoring_on_dao_state_changed s b m = (if dm_parse_complete m then check_utxos s b m else m)"

definition monitoring_on_parse_block_chain_complete ::
  "monitor_env \<Rightarrow> dao_service \<Rightarrow> dao_monitoring \<Rightarrow> dao_monitoring" where
  "monitoring_on_parse_block_chain_complete env s m =
     (let m1 = m\<lparr>dm_parse_complete := True\<rparr>;
          m2 = (case last_block s of None \<Rightarrow> m1 | Some b \<Rightarrow> check_utxos s b m1);
          next_block_height = (if dm_block_chain m2 = [] then genesis_block_height s
                               else block_sh_height (last (dm_block_chain m2)) + 1);
          from_height = min next_block_height (chain_height s - 10);
          m3 = dm_log (Request_Hashes_From from_height) (dm_log Add_Network_Listeners m2)
      in if me_ignore_dev_msg env then m3 else verify_checkpoints m3)"

section \<open>Hashes of blind votes and proposals\<close>

text \<open>\<open>BlindVoteStateMonitoringService\<close> and \<open>ProposalStateMonitoringService\<close> are the same code over
  another payload: the operations below are shared, those named after one of the services are its
  own.\<close>

datatype 'h state_monitor_event =
    State_Block_Chain_Changed | Broadcast_My_State_Hash 'h | Request_State_Hashes_From int
  | Send_State_Hashes nat "'h list" | Add_Message_Listener

record 'h state_monitoring =
  sm_block_chain :: "'h state_block list"
  sm_hash_chain :: "'h list"
  sm_conflict_non_seed :: bool
  sm_conflict_seed :: bool
  sm_parse_complete :: bool
  sm_events :: "'h state_monitor_event list"

definition sm_log :: "'h state_monitor_event \<Rightarrow> 'h state_monitoring \<Rightarrow> 'h state_monitoring" where
  "sm_log e m = m\<lparr>sm_events := sm_events m @ [e]\<rparr>"

definition chain_prev_hash :: "'h state_hash_scheme state_block list \<Rightarrow> bytes" where
  "chain_prev_hash chain = (if chain = [] then [] else block_sh_hash (last chain))"

definition add_state_hash ::
  "monitor_env \<Rightarrow> bytes \<Rightarrow> (bytes \<Rightarrow> 'h state_hash_scheme) \<Rightarrow>
   'h state_hash_scheme state_monitoring \<Rightarrow> 'h state_hash_scheme state_monitoring" where
  "add_state_hash env serialized mk m =
     (let h = mk (me_hash env (chain_prev_hash (sm_block_chain m) @ serialized));
          m1 = m\<lparr>sm_block_chain := sm_block_chain m @ [new_state_block h],
                 sm_hash_chain := sm_hash_chain m @ [h]\<rparr>
      in if sm_parse_complete m1
         then sm_log (Broadcast_My_State_Hash h) (sm_log State_Block_Chain_Changed m1) else m1)"

definition blind_votes_for_hash :: "gov_service \<Rightarrow> int \<Rightarrow> blind_vote list" where
  "blind_votes_for_hash s h =
     sort_key bv_tx_id (filter (\<lambda>v. bv_tx_id v \<noteq> [] \<and> is_tx_in_phase_and_cycle s (bv_tx_id v) Phase_BLIND_VOTE h)
       (get_confirmed_blind_votes s))"

definition blind_vote_maybe_update_hash_chain ::
  "monitor_env \<Rightarrow> gov_service \<Rightarrow> int \<Rightarrow> blind_vote_state_hash state_monitoring \<Rightarrow>
   blind_vote_state_hash state_monitoring \<times> bool" where
  "blind_vote_maybe_update_hash_chain env s h m =
     (if h \<noteq> get_first_block_of_phase s h Phase_VOTE_REVEAL then (m, False)
      else (case get_cycle s h of
              None \<Rightarrow> m
            | Some _ \<Rightarrow> add_state_hash env (me_serialize_blind_votes env (blind_votes_for_hash s h))
                (\<lambda>d. \<lparr>sh_height = h, sh_hash = d, sh_num_blind_votes = int (length (blind_votes_for_hash s h))\<rparr>) m,
            True))"

definition truthy_tx_id :: "proposal \<Rightarrow> bool" where
  "truthy_tx_id p \<longleftrightarrow> (case prop_tx_id p of None \<Rightarrow> False | Some i \<Rightarrow> i \<noteq> [])"

definition proposals_for_hash :: "gov_service \<Rightarrow> int \<Rightarrow> proposal list" where
  "proposals_for_hash s h =
     sort_key (\<lambda>p. the (prop_tx_id p))
       (filter (\<lambda>p. truthy_tx_id p \<and> is_tx_in_phase_and_cycle s (the (prop_tx_id p)) Phase_PROPOSAL h)
         (get_validated_proposals s))"

definition proposal_maybe_update_hash_chain ::
  "monitor_env \<Rightarrow> gov_service \<Rightarrow> int \<Rightarrow> proposal_state_hash state_monitoring \<Rightarrow>
   proposal_state_hash state_monitoring \<times> bool" where
  "proposal_maybe_update_hash_chain env s h m =
     (if h \<noteq> get_first_block_of_phase s h Phase_BLIND_VOTE then (m, False)
      else (case get_cycle s h of
              None \<Rightarrow> m
            | Some _ \<Rightarrow> add_state_hash env (me_serialize_proposals env (proposals_for_hash s h))
                (\<lambda>d. \<lparr>sh_height = h, sh_hash = d, sh_num_proposals = int (length (proposals_for_hash s h))\<rparr>) m,
            True))"

definition state_on_dao_state_changed ::
  "(int \<Rightarrow> 'h state_monitoring \<Rightarrow> 'h state_monitoring \<times> bool) \<Rightarrow> int \<Rightarrow> int \<Rightarrow>
   'h state_monitoring \<Rightarrow> 'h state_monitoring" where
  "state_on_dao_state_changed update genesis_height height m =
     (let m1 = (if sm_block_chain m = [] \<and> genesis_height < height
                then fold (\<lambda>i m. fst (update i m)) [genesis_height..height - 1] m else m)
      in fst (update height m1))"

definition blind_vote_on_dao_state_changed ::
  "monitor_env \<Rightarrow> gov_service \<Rightarrow> block \<Rightarrow> blind_vote_state_hash state_monitoring \<Rightarrow>
   blind_vote_state_hash state_monitoring" where
  "blind_vote_on_dao_state_changed env s b =
     state_on_dao_state_changed (blind_vote_maybe_update_hash_chain env s) (genesis_block_height s) (blk_height b)"

definition proposal_on_dao_state_changed ::
  "monitor_env \<Rightarrow> gov_service \<Rightarrow> block \<Rightarrow> proposal_state_hash state_monitoring \<Rightarrow>
   proposal_state_hash state_monitoring" where
  "proposal_on_dao_state_changed env s b =
     state_on_dao_state_changed (proposal_maybe_update_hash_chain env s) (genesis_block_height s) (blk_height b)"

definition state_on_parse_block_chain_complete ::
  "gov_service \<Rightarrow> ('h state_monitoring, unit) action" where
  "state_on_parse_block_chain_complete s =
     abind (modify (\<lambda>m. sm_log Add_Message_Listener (m\<lparr>sm_parse_complete := True\<rparr>))) (\<lambda>_.
     case current_cycle s of
       None \<Rightarrow> raise Assertion_Error
     | Some c \<Rightarrow> modify (sm_log (Request_State_Hashes_From
         (max (genesis_block_height s) (chain_height s - get_duration c None * 5)))))"

definition process_peers_state_hash ::
  "monitor_env \<Rightarrow> 'h state_hash_scheme \<Rightarrow> string \<Rightarrow> bool \<Rightarrow>
   'h state_hash_scheme state_monitoring \<Rightarrow> 'h state_hash_scheme state_monitoring \<times> bool" where
  "process_peers_state_hash env h peer notify_listeners m =
     (case find (\<lambda>i. block_sh_height (sm_block_chain m ! i) = sh_height h) [0..<length (sm_block_chain m)] of
        None \<Rightarrow> (m, False)
      | Some i \<Rightarrow>
          let b = put_in_peers_map peer h (sm_block_chain m ! i);
              m1 = (if has_equal_hash (my_state_hash b) h then m\<lparr>sm_block_chain := (sm_block_chain m)[i := b]\<rparr>
                    else let m' = m\<lparr>sm_block_chain := (sm_block_chain m)[i := put_in_conflict_map peer h b]\<rparr>
                         in if is_seed_node env peer then m'\<lparr>sm_conflict_seed := True\<rparr>
                            else m'\<lparr>sm_conflict_non_seed := True\<rparr>)
          in (if notify_listeners then sm_log State_Block_Chain_Changed m1 else m1, True))"

definition on_new_state_hash_message ::
  "monitor_env \<Rightarrow> 'a dao_state_scheme \<Rightarrow> 'h state_hash_scheme \<Rightarrow> string option \<Rightarrow> nat \<Rightarrow>
   'h state_hash_scheme state_monitoring \<Rightarrow> 'h state_hash_scheme state_monitoring" where
  "on_new_state_hash_message env s h peer rnd m =
     (if sh_height h \<le> chain_height s
      then fst (process_peers_state_hash env h (get_peers_address peer rnd) True m) else m)"

definition on_peers_state_hashes ::
  "monitor_env \<Rightarrow> 'h state_hash_scheme list \<Rightarrow> string option \<Rightarrow> (nat \<Rightarrow> nat) \<Rightarrow>
   'h state_hash_scheme state_monitoring \<Rightarrow> 'h state_hash_scheme state_monitoring" where
  "on_peers_state_hashes env hs peer rnd m =
     (let (m1, has_changed) =
            fold (\<lambda>(n, h) (m, c). case process_peers_state_hash env h (get_peers_address peer (rnd n)) False m of
                                    (m', changed) \<Rightarrow> (m', c \<or> changed)) (enumerate_from 0 hs) (m, False)
      in if has_changed then sm_log State_Block_Chain_Changed m1 else m1)"

definition on_get_state_hash_request ::
  "nat \<Rightarrow> int \<Rightarrow> 'h state_hash_scheme state_monitoring \<Rightarrow> 'h state_hash_scheme state_monitoring" where
  "on_get_state_hash_request nonce from_height m =
     sm_log (Send_State_Hashes nonce
       (map my_state_hash (filter (\<lambda>b. from_height \<le> block_sh_height b) (sm_block_chain m)))) m"

section \<open>Requests for state hashes\<close>

text \<open>\<open>RequestStateHashesHandler\<close>: the outcomes its listener and the peer manager are told.\<close>

datatype 'h request_outcome = On_Complete "'h list" string | On_Fault | Handle_Connection_Fault string

record 'h request_handler =
  rh_node_address :: string
  rh_nonce :: nat
  rh_stopped :: bool
  rh_timer :: bool
  rh_listening :: bool
  rh_future :: bool
  rh_sent :: "int list"
  rh_outcomes :: "'h request_outcome list"

definition new_request_handler :: "string \<Rightarrow> nat \<Rightarrow> 'h request_handler" where
  "new_request_handler a nonce =
     \<lparr>rh_node_address = a, rh_nonce = nonce, rh_stopped = False, rh_timer = False, rh_listening = False,
      rh_future = False, rh_sent = [], rh_outcomes = []\<rparr>"

definition request_state_hashes :: "int \<Rightarrow> 'h request_handler \<Rightarrow> 'h request_handler" where
  "request_state_hashes from_height r =
     (if \<not> rh_stopped r
      then r\<lparr>rh_timer := True, rh_listening := True, rh_future := True, rh_sent := rh_sent r @ [from_height]\<rparr>
      else r)"

definition handler_cleanup :: "'h request_handler \<Rightarrow> 'h request_handler" where
  "handler_cleanup r = r\<lparr>rh_stopped := True, rh_listening := False, rh_timer := False\<rparr>"

definition handle_request_fault :: "'h request_handler \<Rightarrow> 'h request_handler" where
  "handle_request_fault r =
     (let r' = handler_cleanup r
      in r'\<lparr>rh_outcomes := rh_outcomes r' @ [Handle_Connection_Fault (rh_node_address r'), On_Fault]\<rparr>)"

definition handle_request_timeout :: "'h request_handler \<Rightarrow> 'h request_handler" where
  "handle_request_timeout r = (if \<not> rh_stopped r then handle_request_fault r else r)"

definition handle_send_success :: "'h request_handler \<Rightarrow> 'h request_handler" where
  "handle_send_success r = r\<lparr>rh_future := False\<rparr>"

definition handle_send_failure :: "'h request_handler \<Rightarrow> 'h request_handler" where
  "handle_send_failure r =
     (let r' = r\<lparr>rh_future := False\<rparr> in if \<not> rh_stopped r' then handle_request_fault r' else r')"

definition on_state_hashes_response ::
  "'h list \<Rightarrow> nat \<Rightarrow> string option \<Rightarrow> 'h request_handler \<Rightarrow> 'h request_handler" where
  "on_state_hashes_response hs request_nonce peer r =
     (if peer = Some (rh_node_address r) \<and> \<not> rh_stopped r \<and> request_nonce = rh_nonce r
      then let r' = handler_cleanup r
           in r'\<lparr>rh_outcomes := rh_outcomes r' @ [On_Complete hs (rh_node_address r')]\<rparr>
      else r)"

definition cancel_request :: "'h request_handler \<Rightarrow> 'h request_handler" where
  "cancel_request r = r\<lparr>rh_future := False\<rparr>"

end
