(* ===== verification/Dao_Monitoring_Facts.thy ===== *)
theory Dao_Monitoring_Facts
  imports Dao_Monitoring
begin

text \<open>
  The facts on DAO state monitoring: the lists and the dictionary of state blocks stay consistent,
  differing hashes of peers are recorded as conflicts, an own hash commits to the whole history of states, and a
  request for hashes ends at most once.
\<close>

section \<open>The state blocks stay consistent\<close>

text \<open>What is true of one state block: a hash of a peer that differs from ours is recorded as a
  conflict of that peer, and the conflict flag for the kind of peer is set.\<close>

definition block_sound :: "monitor_env \<Rightarrow> bool \<Rightarrow> bool \<Rightarrow> dao_state_hash state_block \<Rightarrow> bool" where
  "block_sound env seed non_seed b \<longleftrightarrow>
     (\<forall>(p, h) \<in> set (peers_map b). sh_hash h \<noteq> sh_hash (my_state_hash b) \<longrightarrow>
        p \<in> fst ` set (in_conflict_map b)) \<and>
     (\<forall>(p, h) \<in> set (in_conflict_map b). sh_hash h \<noteq> sh_hash (my_state_hash b) \<and>
        (if is_seed_node env p then seed else non_seed))"

definition blocks_sound :: "monitor_env \<Rightarrow> dao_monitoring \<Rightarrow> bool" where
  "blocks_sound env m \<longleftrightarrow>
     (\<forall>b \<in> set (dm_block_chain m). block_sound env (dm_conflict_seed m) (dm_conflict_non_seed m) b)"

definition chains_agree :: "dao_monitoring \<Rightarrow> bool" where
  "chains_agree m \<longleftrightarrow>
     dm_hash_chain m = map my_state_hash (dm_block_chain m) \<and>
     (\<forall>h i. dm_block_by_height m h = Some i \<longrightarrow>
        i < length (dm_block_chain m) \<and> block_sh_height (dm_block_chain m ! i) = h) \<and>
     (\<forall>b \<in> set (dm_block_chain m). dm_block_by_height m (block_sh_height b) \<noteq> None)"

definition monitoring_ok :: "monitor_env \<Rightarrow> dao_monitoring \<Rightarrow> bool" where
  "monitoring_ok env m \<longleftrightarrow> chains_agree m \<and> blocks_sound env m"

definition core_of :: "dao_monitoring \<Rightarrow> dao_state_hash state_block list \<times> dao_state_hash list \<times> (int \<rightharpoonup> nat) \<times> bool \<times> bool" where
  "core_of m = (dm_block_chain m, dm_hash_chain m, dm_block_by_height m, dm_conflict_seed m, dm_conflict_non_seed m)"

lemma monitoring_ok_core: "core_of m = core_of m' \<Longrightarrow> monitoring_ok env m = monitoring_ok env m'"
  by (simp add: core_of_def monitoring_ok_def chains_agree_def blocks_sound_def)

lemma core_of_updates [simp]:
  "core_of (dm_log e m) = core_of m" "core_of (m\<lparr>dm_not_connecting := x\<rparr>) = core_of m"
  "core_of (m\<lparr>dm_parse_complete := x\<rparr>) = core_of m" "core_of (m\<lparr>dm_snapshot_handler := x\<rparr>) = core_of m"
  "core_of (m\<lparr>dm_checkpoint_failed := x\<rparr>) = core_of m" "core_of (m\<lparr>dm_utxo_mismatches := ms\<rparr>) = core_of m"
  by (simp_all add: core_of_def dm_log_def)

lemma monitoring_ok_updates [simp]:
  "monitoring_ok env (dm_log e m) = monitoring_ok env m"
  "monitoring_ok env (m\<lparr>dm_not_connecting := x\<rparr>) = monitoring_ok env m"
  "monitoring_ok env (m\<lparr>dm_parse_complete := x\<rparr>) = monitoring_ok env m"
  "monitoring_ok env (m\<lparr>dm_snapshot_handler := x\<rparr>) = monitoring_ok env m"
  "monitoring_ok env (m\<lparr>dm_checkpoint_failed := x\<rparr>) = monitoring_ok env m"
  "monitoring_ok env (m\<lparr>dm_utxo_mismatches := ms\<rparr>) = monitoring_ok env m"
  by (rule monitoring_ok_core; simp)+

lemma new_state_block_sel [simp]:
  "my_state_hash (new_state_block h) = h" "peers_map (new_state_block h) = []"
  "in_conflict_map (new_state_block h) = []" "block_sh_height (new_state_block h) = sh_height h"
  "block_sh_hash (new_state_block h) = sh_hash h"
  by (simp_all add: new_state_block_def block_sh_height_def block_sh_hash_def)

lemma append_state_hash_sel [simp]:
  "dm_block_chain (append_state_hash h m) = dm_block_chain m @ [new_state_block h]"
  "dm_hash_chain (append_state_hash h m) = dm_hash_chain m @ [h]"
  "dm_block_by_height (append_state_hash h m) = (dm_block_by_height m)(sh_height h \<mapsto> length (dm_block_chain m))"
  "dm_conflict_seed (append_state_hash h m) = dm_conflict_seed m"
  "dm_conflict_non_seed (append_state_hash h m) = dm_conflict_non_seed m"
  "dm_parse_complete (append_state_hash h m) = dm_parse_complete m"
  by (simp_all add: append_state_hash_def)

lemma append_state_hash_ok:
  assumes "monitoring_ok env m" shows "monitoring_ok env (append_state_hash h m)"
proof -
  have "blocks_sound env (append_state_hash h m)"
    using assms by (auto simp: monitoring_ok_def blocks_sound_def block_sound_def)
  moreover have "chains_agree (append_state_hash h m)"
    using assms by (fastforce simp: monitoring_ok_def chains_agree_def nth_append)
  ultimately show ?thesis by (simp add: monitoring_ok_def)
qed

lemma create_dao_state_block_ok:
  assumes "monitoring_ok env m" and "create_dao_state_block env s b m = (m', oi)"
  shows "monitoring_ok env m' \<and> (\<forall>i. oi = Some i \<longrightarrow> i < length (dm_block_chain m'))"
proof (cases "prev_state_hash s (blk_height b) m")
  case None
  then show ?thesis using assms by (auto simp: create_dao_state_block_def)
next
  case (Some prev)
  let ?h = "\<lparr>sh_height = blk_height b, sh_hash = me_hash env (prev @ me_serialize_state env s), sh_is_self_created = True\<rparr>"
  have m': "m' = dm_log Dao_State_Block_Created (if dm_parse_complete m
       then dm_log (Broadcast_State_Hash ?h) (append_state_hash ?h m) else append_state_hash ?h m)"
    and oi: "oi = Some (length (dm_block_chain m))"
    using assms(2) Some by (auto simp: create_dao_state_block_def Let_def)
  have "monitoring_ok env m'" using append_state_hash_ok [OF assms(1), of ?h] by (simp add: m')
  moreover have "length (dm_block_chain m') = Suc (length (dm_block_chain m))" by (simp add: m' dm_log_def)
  ultimately show ?thesis using oi by simp
qed

lemma core_update_chain:
  assumes "chains_agree m" and "i < length (dm_block_chain m)" and "my_state_hash b = my_state_hash (dm_block_chain m ! i)"
  shows "chains_agree (m\<lparr>dm_block_chain := (dm_block_chain m)[i := b]\<rparr>)"
proof -
  have same: "map my_state_hash ((dm_block_chain m)[i := b]) = map my_state_hash (dm_block_chain m)"
    using assms(2,3) by (simp add: map_update list_update_same_conv)
  have heights: "j < length (dm_block_chain m) \<Longrightarrow>
      block_sh_height ((dm_block_chain m)[i := b] ! j) = block_sh_height (dm_block_chain m ! j)" for j
    using assms(3) by (cases "j = i") (simp_all add: block_sh_height_def)
  have mem: "\<exists>c \<in> set (dm_block_chain m). block_sh_height c = block_sh_height x"
    if "x \<in> set ((dm_block_chain m)[i := b])" for x
    using that heights by (metis in_set_conv_nth length_list_update)
  show ?thesis unfolding chains_agree_def
  proof (intro conjI allI impI ballI)
    show "dm_hash_chain (m\<lparr>dm_block_chain := (dm_block_chain m)[i := b]\<rparr>) =
        map my_state_hash (dm_block_chain (m\<lparr>dm_block_chain := (dm_block_chain m)[i := b]\<rparr>))"
      using assms(1) same by (simp add: chains_agree_def)
    fix h j
    assume j: "dm_block_by_height (m\<lparr>dm_block_chain := (dm_block_chain m)[i := b]\<rparr>) h = Some j"
    then have "j < length (dm_block_chain m) \<and> block_sh_height (dm_block_chain m ! j) = h"
      using assms(1) by (simp add: chains_agree_def)
    then show "j < length (dm_block_chain (m\<lparr>dm_block_chain := (dm_block_chain m)[i := b]\<rparr>))"
      "block_sh_height (dm_block_chain (m\<lparr>dm_block_chain := (dm_block_chain m)[i := b]\<rparr>) ! j) = h"
      using heights by simp_all
  next
    fix x assume "x \<in> set (dm_block_chain (m\<lparr>dm_block_chain := (dm_block_chain m)[i := b]\<rparr>))"
    then obtain c where "c \<in> set (dm_block_chain m)" "block_sh_height c = block_sh_height x" using mem by auto
    then show "dm_block_by_height (m\<lparr>dm_block_chain := (dm_block_chain m)[i := b]\<rparr>) (block_sh_height x) \<noteq> None"
      using assms(1) by (auto simp: chains_agree_def)
  qed
qed

lemma fst_al_setdefault: "fst ` set (al_setdefault k v al) = insert k (fst ` set al)"
  by (auto simp: al_setdefault_def map_of_eq_None_iff split: option.splits dest: map_of_SomeD intro: rev_image_eqI)

text \<open>Recording a peer's hash and checking it keeps a block sound, under the flags that result.\<close>

lemma put_and_check_block:
  assumes "block_sound env seed non_seed b" and "has_equal_hash (my_state_hash b) h"
  shows "block_sound env seed non_seed (put_in_peers_map p h b)"
proof -
  have "(q, k) = (p, h) \<or> (q, k) \<in> set (peers_map b)" if "(q, k) \<in> set (al_setdefault p h (peers_map b))" for q k
    using that set_al_setdefault by fast
  then have "q \<in> fst ` set (in_conflict_map b)"
    if "(q, k) \<in> set (al_setdefault p h (peers_map b))" "sh_hash k \<noteq> sh_hash (my_state_hash b)" for q k
    using that assms by (auto simp: block_sound_def has_equal_hash_def) blast
  then show ?thesis using assms(1) unfolding block_sound_def by (simp add: put_in_peers_map_def) blast
qed

lemma put_and_conflict_block:
  assumes "block_sound env seed non_seed b" and "\<not> has_equal_hash (my_state_hash b) h"
  shows "block_sound env (seed \<or> is_seed_node env p) (non_seed \<or> \<not> is_seed_node env p)
    (put_in_conflict_map p h (put_in_peers_map p h b))"
proof -
  let ?b = "put_in_conflict_map p h (put_in_peers_map p h b)"
  have mem: "(q, k) = (p, h) \<or> (q, k) \<in> set al" if "(q, k) \<in> set (al_setdefault p h al)"
    for q k and al :: "(string \<times> dao_state_hash) list"
    using that set_al_setdefault by fast
  have sel: "my_state_hash ?b = my_state_hash b" "peers_map ?b = al_setdefault p h (peers_map b)"
    "in_conflict_map ?b = al_setdefault p h (in_conflict_map b)"
    by (simp_all add: put_in_peers_map_def put_in_conflict_map_def)
  have "q \<in> fst ` set (in_conflict_map ?b)"
    if "(q, k) \<in> set (peers_map ?b)" "sh_hash k \<noteq> sh_hash (my_state_hash ?b)" for q k
  proof -
    have "q = p \<or> q \<in> fst ` set (in_conflict_map b)"
      using mem [of q k "peers_map b"] that assms(1) by (auto simp: sel block_sound_def)
    then show ?thesis by (simp add: sel fst_al_setdefault)
  qed
  moreover have "sh_hash k \<noteq> sh_hash (my_state_hash ?b) \<and>
      (if is_seed_node env q then seed \<or> is_seed_node env p else non_seed \<or> \<not> is_seed_node env p)"
    if "(q, k) \<in> set (in_conflict_map ?b)" for q k
  proof -
    have "(q, k) = (p, h) \<or> (q, k) \<in> set (in_conflict_map b)" using mem that by (simp add: sel)
    then show ?thesis using assms by (auto simp: sel block_sound_def has_equal_hash_def split: if_splits)
  qed
  ultimately show ?thesis unfolding block_sound_def by blast
qed

lemma block_sound_mono:
  "block_sound env seed non_seed b \<Longrightarrow> (seed \<longrightarrow> seed') \<Longrightarrow> (non_seed \<longrightarrow> non_seed') \<Longrightarrow>
   block_sound env seed' non_seed' b"
  by (auto simp: block_sound_def split: if_splits)

lemma put_in_peers_map_and_check_ok:
  assumes "monitoring_ok env m" and "\<And>i. oi = Some i \<Longrightarrow> i < length (dm_block_chain m)"
  shows "monitoring_ok env (put_in_peers_map_and_check env p h oi m)"
proof (cases oi)
  case None
  then show ?thesis using assms(1) by (simp add: put_in_peers_map_and_check_def)
next
  case (Some i)
  let ?b = "dm_block_chain m ! i"
  have i: "i < length (dm_block_chain m)" using assms(2) Some by simp
  have agree: "chains_agree m" and sound: "blocks_sound env m" using assms(1) by (simp_all add: monitoring_ok_def)
  have b: "block_sound env (dm_conflict_seed m) (dm_conflict_non_seed m) ?b"
    using sound i by (simp add: blocks_sound_def)
  have own: "my_state_hash (put_in_peers_map p h ?b) = my_state_hash ?b"
    "my_state_hash (put_in_conflict_map p h (put_in_peers_map p h ?b)) = my_state_hash ?b"
    by (simp_all add: put_in_peers_map_def put_in_conflict_map_def)
  show ?thesis
  proof (cases "has_equal_hash (my_state_hash ?b) h")
    case True
    then have "put_in_peers_map_and_check env p h oi m =
        m\<lparr>dm_block_chain := (dm_block_chain m)[i := put_in_peers_map p h ?b]\<rparr>"
      using Some i own by (simp add: put_in_peers_map_and_check_def check_for_hash_conflicts_def)
    moreover have "blocks_sound env (m\<lparr>dm_block_chain := (dm_block_chain m)[i := put_in_peers_map p h ?b]\<rparr>)"
      using sound put_and_check_block [OF b True] set_update_subset_insert [of "dm_block_chain m" i "put_in_peers_map p h ?b"]
      by (auto simp: blocks_sound_def)
    ultimately show ?thesis using core_update_chain [OF agree i own(1)] by (simp add: monitoring_ok_def)
  next
    case False
    let ?c = "put_in_conflict_map p h (put_in_peers_map p h ?b)"
    let ?m = "m\<lparr>dm_block_chain := (dm_block_chain m)[i := ?c]\<rparr>"
    have eq: "put_in_peers_map_and_check env p h oi m =
        (if is_seed_node env p then ?m\<lparr>dm_conflict_seed := True\<rparr> else ?m\<lparr>dm_conflict_non_seed := True\<rparr>)"
      using Some i own False by (simp add: put_in_peers_map_and_check_def check_for_hash_conflicts_def Let_def)
    have c: "block_sound env (dm_conflict_seed m \<or> is_seed_node env p) (dm_conflict_non_seed m \<or> \<not> is_seed_node env p) ?c"
      by (rule put_and_conflict_block [OF b False])
    have "block_sound env (dm_conflict_seed m \<or> is_seed_node env p) (dm_conflict_non_seed m \<or> \<not> is_seed_node env p) x"
      if "x \<in> set ((dm_block_chain m)[i := ?c])" for x
    proof -
      have "x = ?c \<or> x \<in> set (dm_block_chain m)" using that set_update_subset_insert by fast
      then show ?thesis using c block_sound_mono sound by (auto simp: blocks_sound_def)
    qed
    then have "blocks_sound env (put_in_peers_map_and_check env p h oi m)"
      unfolding eq by (cases "is_seed_node env p") (simp_all add: blocks_sound_def)
    moreover have "chains_agree (put_in_peers_map_and_check env p h oi m)"
      using core_update_chain [OF agree i own(2)] unfolding eq by (auto simp: chains_agree_def)
    ultimately show ?thesis by (simp add: monitoring_ok_def)
  qed
qed

lemma found_in_chain:
  "monitoring_ok env m \<Longrightarrow> find_dao_state_block m h = Some i \<Longrightarrow> i < length (dm_block_chain m)"
  by (simp add: monitoring_ok_def chains_agree_def find_dao_state_block_def)

lemma process_peers_dao_state_hash_ok:
  assumes "monitoring_ok env m" shows "monitoring_ok env (process_peers_dao_state_hash env s p h m)"
proof -
  obtain m1 oi where step: "(if \<not> me_full_mode_dao_monitor env \<and> find_dao_state_block m (sh_height h) = None
       then if chain_height s = sh_height h
            then case last_block s of
                   None \<Rightarrow> (m, find_dao_state_block m (sh_height h))
                 | Some b \<Rightarrow> (case create_dao_state_block env s b m of
                     (m', None) \<Rightarrow> (m', find_dao_state_block m' (sh_height h))
                   | (m', Some i) \<Rightarrow> (m', Some i))
            else (append_state_hash (h\<lparr>sh_is_self_created := False\<rparr>) m, Some (length (dm_block_chain m)))
       else (m, find_dao_state_block m (sh_height h))) = (m1, oi)" by fastforce
  have "monitoring_ok env m1 \<and> (\<forall>i. oi = Some i \<longrightarrow> i < length (dm_block_chain m1))"
  proof (cases "\<not> me_full_mode_dao_monitor env \<and> find_dao_state_block m (sh_height h) = None")
    case False
    then have "m1 = m" "oi = find_dao_state_block m (sh_height h)" using step by auto
    then show ?thesis using assms by (simp add: found_in_chain)
  next
    case missing: True
    show ?thesis
    proof (cases "chain_height s = sh_height h")
      case False
      then have "m1 = append_state_hash (h\<lparr>sh_is_self_created := False\<rparr>) m" "oi = Some (length (dm_block_chain m))"
        using step missing by auto
      then show ?thesis using append_state_hash_ok [OF assms] by simp
    next
      case top: True
      show ?thesis
      proof (cases "last_block s")
        case None
        then show ?thesis using step missing top assms by auto
      next
        case (Some b)
        obtain m' oj where c: "create_dao_state_block env s b m = (m', oj)" by fastforce
        note ok = create_dao_state_block_ok [OF assms c]
        have "m1 = m'" "oi = (case oj of None \<Rightarrow> find_dao_state_block m' (sh_height h) | Some i \<Rightarrow> Some i)"
          using step missing top Some c by (auto split: option.splits)
        then show ?thesis using ok by (auto simp: found_in_chain split: option.splits)
      qed
    qed
  qed
  then show ?thesis using step put_in_peers_map_and_check_ok [of env m1 oi p h]
    by (simp add: process_peers_dao_state_hash_def Let_def)
qed

lemma fold_ok: "(\<And>x m. P m \<Longrightarrow> P (f x m)) \<Longrightarrow> P m \<Longrightarrow> P (fold f xs m)"
  by (induction xs arbitrary: m) simp_all

lemma process_peers_dao_state_hashes_ok:
  "monitoring_ok env m \<Longrightarrow> monitoring_ok env (process_peers_dao_state_hashes env s hs peer rnd m)"
  unfolding process_peers_dao_state_hashes_def
  by (rule fold_ok) (auto intro: process_peers_dao_state_hash_ok split: prod.splits)

lemma verify_pairs_core: "core_of (verify_pairs ps m) = core_of m"
  by (induction ps m rule: verify_pairs.induct) simp_all

lemma check_utxos_core: "core_of (check_utxos s b m) = core_of m"
  by (simp add: check_utxos_def)

lemma create_hash_from_block_ok:
  assumes "monitoring_ok env m" shows "monitoring_ok env (create_hash_from_block env s b m)"
proof -
  obtain m' oi where "create_dao_state_block env s b m = (m', oi)" by fastforce
  then show ?thesis using create_dao_state_block_ok [OF assms] by (simp add: create_hash_from_block_def Let_def)
qed

lemma apply_snapshot_ok: "monitoring_ok env (monitoring_apply_snapshot hs m)"
proof -
  have "monitoring_ok env (m\<lparr>dm_hash_chain := [], dm_block_chain := [], dm_block_by_height := Map.empty\<rparr>)"
    by (simp add: monitoring_ok_def chains_agree_def blocks_sound_def)
  then show ?thesis unfolding monitoring_apply_snapshot_def Let_def
    by (intro fold_ok [where P = "monitoring_ok env"]) (auto intro: append_state_hash_ok)
qed

text \<open>The events that reach the service, at any state of the chain: a snapshot, and all others.\<close>

inductive collecting_step :: "monitor_env \<Rightarrow> dao_monitoring \<Rightarrow> dao_monitoring \<Rightarrow> bool" for env where
  step_created: "collecting_step env m (create_hash_from_block env s b m)"
| step_message: "collecting_step env m (on_new_dao_state_hash_message env s h peer n m)"
| step_response: "collecting_step env m (on_peers_dao_state_hashes env s hs peer rnd m)"
| step_request: "collecting_step env m (on_get_dao_state_hash_request nonce from m)"
| step_changed: "collecting_step env m (monitoring_on_dao_state_changed s b m)"
| step_complete: "collecting_step env m (monitoring_on_parse_block_chain_complete env s m)"
| step_handler: "collecting_step env m (m\<lparr>dm_snapshot_handler := True\<rparr>)"

inductive monitoring_step :: "monitor_env \<Rightarrow> dao_monitoring \<Rightarrow> dao_monitoring \<Rightarrow> bool" for env where
  step_collecting: "collecting_step env m m' \<Longrightarrow> monitoring_step env m m'"
| step_snapshot: "monitoring_step env m (monitoring_apply_snapshot hs m)"

lemma same_core_steps:
  "core_of (monitoring_on_dao_state_changed s b m) = core_of m"
  "core_of (monitoring_on_parse_block_chain_complete env s m) = core_of m"
  by (simp_all add: monitoring_on_dao_state_changed_def monitoring_on_parse_block_chain_complete_def Let_def
      verify_checkpoints_def verify_pairs_core check_utxos_core split: option.split)

lemma collecting_step_ok:
  assumes "collecting_step env m m'" and "monitoring_ok env m" shows "monitoring_ok env m'"
  using assms(1)
proof cases
  case (step_message s h peer n)
  then show ?thesis using put_in_peers_map_and_check_ok [OF assms(2) found_in_chain [OF assms(2)]] assms(2)
    by (simp add: on_new_dao_state_hash_message_def)
next
  case (step_response s hs peer rnd)
  then show ?thesis using process_peers_dao_state_hashes_ok [OF assms(2)]
    by (simp add: on_peers_dao_state_hashes_def Let_def)
next
  case (step_changed s b)
  then show ?thesis using monitoring_ok_core [OF same_core_steps(1)] assms(2) by simp
next
  case (step_complete s)
  then show ?thesis using monitoring_ok_core [OF same_core_steps(2)] assms(2) by simp
qed (simp_all add: assms(2) create_hash_from_block_ok on_get_dao_state_hash_request_def)

lemma monitoring_step_ok:
  assumes "monitoring_step env m m'" and "monitoring_ok env m" shows "monitoring_ok env m'"
  using assms(1) by cases (use assms(2) in \<open>auto intro: collecting_step_ok apply_snapshot_ok\<close>)

inductive monitoring_reachable :: "monitor_env \<Rightarrow> dao_monitoring \<Rightarrow> bool" for env where
  monitoring_new: "monitoring_reachable env new_dao_monitoring"
| monitoring_next: "monitoring_reachable env m \<Longrightarrow> monitoring_step env m m' \<Longrightarrow> monitoring_reachable env m'"

lemma monitoring_reachable_ok: "monitoring_reachable env m \<Longrightarrow> monitoring_ok env m"
proof (induction rule: monitoring_reachable.induct)
  case monitoring_new
  show ?case by (simp add: monitoring_ok_def new_dao_monitoring_def chains_agree_def blocks_sound_def)
qed (rule monitoring_step_ok)

section \<open>A hash commits to the history\<close>

fun chain_hashes :: "(bytes \<Rightarrow> bytes) \<Rightarrow> bytes \<Rightarrow> bytes list \<Rightarrow> bytes list" where
  "chain_hashes H prev [] = []"
| "chain_hashes H prev (x # xs) = H (prev @ x) # chain_hashes H (H (prev @ x)) xs"

text \<open>What is hashed along the way.\<close>

fun chain_inputs :: "(bytes \<Rightarrow> bytes) \<Rightarrow> bytes \<Rightarrow> bytes list \<Rightarrow> bytes list" where
  "chain_inputs H prev [] = []"
| "chain_inputs H prev (x # xs) = (prev @ x) # chain_inputs H (H (prev @ x)) xs"

lemma chain_hashes_length [simp]: "length (chain_hashes H prev xs) = length xs"
  by (induction xs arbitrary: prev) simp_all

lemma chain_hashes_snoc:
  "chain_hashes H prev (xs @ [x]) =
     chain_hashes H prev xs @ [H ((if xs = [] then prev else last (chain_hashes H prev xs)) @ x)]"
proof (induction xs arbitrary: prev)
  case (Cons a xs)
  have "chain_hashes H (H (prev @ a)) xs \<noteq> []" if "xs \<noteq> []" using that by (cases xs) simp_all
  then show ?case using Cons.IH by simp
qed simp

lemma chain_inputs_snoc:
  "chain_inputs H prev (xs @ [x]) =
     chain_inputs H prev xs @ [(if xs = [] then prev else last (chain_hashes H prev xs)) @ x]"
proof (induction xs arbitrary: prev)
  case (Cons a xs)
  have "chain_hashes H (H (prev @ a)) xs \<noteq> []" if "xs \<noteq> []" using that by (cases xs) simp_all
  then show ?case using Cons.IH by simp
qed simp

text \<open>Equal last hashes of equally long chains have equal states, if no two of the byte strings that
  were hashed collide.\<close>

lemma chain_hashes_commit:
  assumes "\<And>x. length (H x) = n" and "length xs = length ys" and "xs \<noteq> []"
    and "last (chain_hashes H [] xs) = last (chain_hashes H [] ys)"
    and "inj_on H (set (chain_inputs H [] xs) \<union> set (chain_inputs H [] ys))"
  shows "xs = ys"
  using assms(2-5)
proof (induction xs arbitrary: ys rule: rev_induct)
  case (snoc x xs)
  obtain y zs where ys: "ys = zs @ [y]" using snoc.prems(1) by (cases ys rule: rev_cases) auto
  let ?p = "if xs = [] then [] else last (chain_hashes H [] xs)"
  let ?q = "if zs = [] then [] else last (chain_hashes H [] zs)"
  have len: "length xs = length zs" using snoc.prems(1) ys by simp
  have "H (?p @ x) = H (?q @ y)" using snoc.prems(3) ys by (simp add: chain_hashes_snoc)
  then have eq: "?p @ x = ?q @ y"
    using inj_onD [OF snoc.prems(4), of "?p @ x" "?q @ y"] ys by (simp add: chain_inputs_snoc)
  have inj: "inj_on H (set (chain_inputs H [] xs) \<union> set (chain_inputs H [] zs))"
    using snoc.prems(4) ys by (auto simp: chain_inputs_snoc intro: inj_on_subset)
  show ?case
  proof (cases "xs = []")
    case True
    then show ?thesis using eq len ys by simp
  next
    case False
    then have ne: "zs \<noteq> []" using len by auto
    have out: "length (last (chain_hashes H [] us)) = n" if "us \<noteq> []" for us
      using that assms(1) by (cases us rule: rev_cases) (simp_all add: chain_hashes_snoc)
    have "last (chain_hashes H [] xs) = last (chain_hashes H [] zs) \<and> x = y"
      using eq False ne out [OF False] out [OF ne] by simp
    then show ?thesis using snoc.IH [OF len False _ inj] ys by simp
  qed
qed simp

text \<open>A service that only created its own hashes, block after block.\<close>

definition create_hashes ::
  "monitor_env \<Rightarrow> (dao_service \<times> block) list \<Rightarrow> dao_monitoring \<Rightarrow> dao_monitoring" where
  "create_hashes env run m = fold (\<lambda>(s, b). create_hash_from_block env s b) run m"

definition run_states :: "monitor_env \<Rightarrow> (dao_service \<times> block) list \<Rightarrow> bytes list" where
  "run_states env run = map (\<lambda>(s, b). me_serialize_state env s) run"

lemma create_hash_not_connecting:
  "dm_not_connecting m \<Longrightarrow> dm_not_connecting (create_hash_from_block env s b m)"
  by (simp add: create_hash_from_block_def create_dao_state_block_def Let_def dm_log_def append_state_hash_def
      split: option.split)

lemma create_hash_connected:
  assumes "\<not> dm_not_connecting (create_hash_from_block env s b m)"
  shows "\<exists>prev. prev_state_hash s (blk_height b) m = Some prev \<and>
     dm_block_chain (create_hash_from_block env s b m) = dm_block_chain m @
       [new_state_block \<lparr>sh_height = blk_height b, sh_hash = me_hash env (prev @ me_serialize_state env s),
                         sh_is_self_created = True\<rparr>]"
  using assms
  by (cases "prev_state_hash s (blk_height b) m")
     (auto simp: create_hash_from_block_def create_dao_state_block_def Let_def dm_log_def append_state_hash_def
      split: if_splits)

lemma create_hashes_chain:
  assumes "\<not> dm_not_connecting (create_hashes env run new_dao_monitoring)"
    and "\<forall>(s, b) \<in> set run. genesis_block_height s = g"
  shows "map block_sh_hash (dm_block_chain (create_hashes env run new_dao_monitoring)) =
       chain_hashes (me_hash env) [] (run_states env run) \<and>
     map block_sh_height (dm_block_chain (create_hashes env run new_dao_monitoring)) =
       map (\<lambda>i. g + int i) [0..<length run]"
  using assms
proof (induction run rule: rev_induct)
  case Nil
  then show ?case by (simp add: create_hashes_def new_dao_monitoring_def run_states_def)
next
  case (snoc x run)
  obtain s b where x: "x = (s, b)" by fastforce
  let ?m = "create_hashes env run new_dao_monitoring"
  have last: "create_hashes env (run @ [x]) new_dao_monitoring = create_hash_from_block env s b ?m"
    by (simp add: create_hashes_def x)
  have conn: "\<not> dm_not_connecting (create_hash_from_block env s b ?m)" using snoc.prems(1) last by simp
  then have "\<not> dm_not_connecting ?m" using create_hash_not_connecting by blast
  then have IH: "map block_sh_hash (dm_block_chain ?m) = chain_hashes (me_hash env) [] (run_states env run)"
    "map block_sh_height (dm_block_chain ?m) = map (\<lambda>i. g + int i) [0..<length run]"
    using snoc by auto
  obtain prev where prev: "prev_state_hash s (blk_height b) ?m = Some prev"
    and chain: "dm_block_chain (create_hash_from_block env s b ?m) = dm_block_chain ?m @
       [new_state_block \<lparr>sh_height = blk_height b, sh_hash = me_hash env (prev @ me_serialize_state env s),
                         sh_is_self_created = True\<rparr>]"
    using create_hash_connected [OF conn] by blast
  have len: "length (dm_block_chain ?m) = length run" using arg_cong [OF IH(2), of length] by simp
  have "g = genesis_block_height s" using snoc.prems(2) x by auto
  moreover have "prev = (if run = [] then [] else last (chain_hashes (me_hash env) [] (run_states env run))) \<and>
      blk_height b = genesis_block_height s + int (length run)"
  proof (cases "run = []")
    case True
    then show ?thesis using prev len by (simp add: prev_state_hash_def split: if_splits)
  next
    case False
    then have ne: "dm_block_chain ?m \<noteq> []" using len by auto
    have "block_sh_hash (last (dm_block_chain ?m)) = last (chain_hashes (me_hash env) [] (run_states env run))"
      using IH(1) ne by (metis last_map)
    moreover have "block_sh_height (last (dm_block_chain ?m)) = g + int (length run) - 1"
      using arg_cong [OF IH(2), of last] ne False by (simp add: last_map of_nat_diff Suc_leI)
    ultimately show ?thesis using prev ne False \<open>g = genesis_block_height s\<close>
      by (simp add: prev_state_hash_def split: if_splits)
  qed
  ultimately show ?case unfolding last chain
    using IH by (simp add: x run_states_def chain_hashes_snoc)
qed

lemma create_hashes_commit:
  assumes "\<And>x. length (me_hash env x) = n" and "run \<noteq> []" and "run' \<noteq> []"
    and "\<forall>(s, b) \<in> set run. genesis_block_height s = g" and "\<forall>(s, b) \<in> set run'. genesis_block_height s = g"
    and "\<not> dm_not_connecting (create_hashes env run new_dao_monitoring)"
    and "\<not> dm_not_connecting (create_hashes env run' new_dao_monitoring)"
    and "my_state_hash (last (dm_block_chain (create_hashes env run new_dao_monitoring))) =
         my_state_hash (last (dm_block_chain (create_hashes env run' new_dao_monitoring)))"
    and "inj_on (me_hash env) (set (chain_inputs (me_hash env) [] (run_states env run)) \<union>
                               set (chain_inputs (me_hash env) [] (run_states env run')))"
  shows "run_states env run = run_states env run'"
proof -
  let ?c = "dm_block_chain (create_hashes env run new_dao_monitoring)"
  let ?c' = "dm_block_chain (create_hashes env run' new_dao_monitoring)"
  note a = create_hashes_chain [OF assms(6,4)] and b = create_hashes_chain [OF assms(7,5)]
  have len: "length ?c = length run" "length ?c' = length run'"
    using a b by (metis length_map length_upt minus_nat.diff_0)+
  then have ne: "?c \<noteq> []" "?c' \<noteq> []" using assms(2,3) by auto
  have pos: "Suc 0 \<le> length run" "Suc 0 \<le> length run'" using assms(2,3) by (simp_all add: Suc_le_eq)
  have "block_sh_height (last ?c) = g + int (length run) - 1" "block_sh_height (last ?c') = g + int (length run') - 1"
    using arg_cong [OF conjunct2 [OF a], of last] arg_cong [OF conjunct2 [OF b], of last] ne assms(2,3) pos
    by (simp_all add: last_map of_nat_diff)
  then have "length run = length run'" using assms(8) by (simp add: block_sh_height_def)
  then have lens: "length (run_states env run) = length (run_states env run')" by (simp add: run_states_def)
  have "last (chain_hashes (me_hash env) [] (run_states env run)) = block_sh_hash (last ?c)"
    "last (chain_hashes (me_hash env) [] (run_states env run')) = block_sh_hash (last ?c')"
    using a b ne by (metis last_map)+
  then have "last (chain_hashes (me_hash env) [] (run_states env run)) =
      last (chain_hashes (me_hash env) [] (run_states env run'))"
    using assms(8) by (simp add: block_sh_hash_def)
  then show ?thesis
    by (intro chain_hashes_commit [OF assms(1) lens _ _ assms(9)]) (use assms(2) in \<open>simp_all add: run_states_def\<close>)
qed

section \<open>A request ends at most once\<close>

fun is_ending :: "'h request_outcome \<Rightarrow> bool" where
  "is_ending (Handle_Connection_Fault _) = False"
| "is_ending (On_Complete _ _) = True"
| "is_ending On_Fault = True"

definition ended :: "'h request_handler \<Rightarrow> nat" where
  "ended r = length (filter is_ending (rh_outcomes r))"

datatype 'h request_event =
  Ev_Request int | Ev_Timeout | Ev_Sent | Ev_Send_Failed | Ev_Response "'h list" nat "string option" | Ev_Cancel

fun handle_request_event :: "'h request_event \<Rightarrow> 'h request_handler \<Rightarrow> 'h request_handler" where
  "handle_request_event (Ev_Request h) r = request_state_hashes h r"
| "handle_request_event Ev_Timeout r = handle_request_timeout r"
| "handle_request_event Ev_Sent r = handle_send_success r"
| "handle_request_event Ev_Send_Failed r = handle_send_failure r"
| "handle_request_event (Ev_Response hs n peer) r = on_state_hashes_response hs n peer r"
| "handle_request_event Ev_Cancel r = cancel_request r"

lemmas request_defs = request_state_hashes_def handle_request_timeout_def handle_send_success_def
  handle_send_failure_def on_state_hashes_response_def cancel_request_def handle_request_fault_def
  handler_cleanup_def

lemma request_step:
  assumes "ended r = (if rh_stopped r then 1 else 0)" and "rh_stopped r \<Longrightarrow> \<not> rh_timer r \<and> \<not> rh_listening r"
  shows "ended (handle_request_event e r) = (if rh_stopped (handle_request_event e r) then 1 else 0)"
    and "rh_stopped (handle_request_event e r) \<Longrightarrow>
       \<not> rh_timer (handle_request_event e r) \<and> \<not> rh_listening (handle_request_event e r)"
    and "rh_node_address (handle_request_event e r) = rh_node_address r" "rh_nonce (handle_request_event e r) = rh_nonce r"
proof -
  show "ended (handle_request_event e r) = (if rh_stopped (handle_request_event e r) then 1 else 0)"
    using assms(1) by (cases e) (auto simp add: request_defs ended_def Let_def split: if_splits)
  show "rh_stopped (handle_request_event e r) \<Longrightarrow>
       \<not> rh_timer (handle_request_event e r) \<and> \<not> rh_listening (handle_request_event e r)"
    using assms(2) by (cases e) (simp_all add: request_defs Let_def split: if_splits)
  show "rh_node_address (handle_request_event e r) = rh_node_address r" "rh_nonce (handle_request_event e r) = rh_nonce r"
    by (cases e; simp add: request_defs Let_def)+
qed

lemma request_ends_once:
  "ended (fold handle_request_event es (new_request_handler a n)) =
     (if rh_stopped (fold handle_request_event es (new_request_handler a n)) then 1 else 0) \<and>
   (rh_stopped (fold handle_request_event es (new_request_handler a n)) \<longrightarrow>
      \<not> rh_timer (fold handle_request_event es (new_request_handler a n)) \<and>
      \<not> rh_listening (fold handle_request_event es (new_request_handler a n)))"
proof -
  let ?ok = "\<lambda>r. ended r = (if rh_stopped r then 1 else 0) \<and> (rh_stopped r \<longrightarrow> \<not> rh_timer r \<and> \<not> rh_listening r)"
  have "?ok (fold handle_request_event es r)" if "?ok r" for r
    using that
  proof (induction es arbitrary: r)
    case (Cons e es)
    then show ?case using request_step [of r e] by simp
  qed simp
  moreover have "?ok (new_request_handler a n)" by (simp add: new_request_handler_def ended_def)
  ultimately show ?thesis by blast
qed

end
