(* ===== verification/Dao_Monitoring_Peers.thy ===== *)
theory Dao_Monitoring_Peers
  imports Dao_Monitoring_Facts
begin

text \<open>
  What becomes of the hashes of peers over the runs of the monitoring service: what is recorded of a
  peer is kept and never replaced while no snapshot starts the blocks over, a hash that differs from
  the own one is recorded as a conflict whatever was known of the peer before, and the flags of
  conflicts survive everything.
\<close>

section \<open>What is kept\<close>

definition block_grows :: "'h state_block \<Rightarrow> 'h state_block \<Rightarrow> bool" where
  "block_grows b c \<longleftrightarrow>
     my_state_hash c = my_state_hash b \<and> map_of (peers_map b) \<subseteq>\<^sub>m map_of (peers_map c) \<and>
     map_of (in_conflict_map b) \<subseteq>\<^sub>m map_of (in_conflict_map c)"

definition blocks_grow :: "'h state_block list \<Rightarrow> 'h state_block list \<Rightarrow> bool" where
  "blocks_grow bs cs \<longleftrightarrow> length bs \<le> length cs \<and> (\<forall>i < length bs. block_grows (bs ! i) (cs ! i))"

definition flags_kept :: "dao_monitoring \<Rightarrow> dao_monitoring \<Rightarrow> bool" where
  "flags_kept m m' \<longleftrightarrow>
     (dm_conflict_seed m \<longrightarrow> dm_conflict_seed m') \<and> (dm_conflict_non_seed m \<longrightarrow> dm_conflict_non_seed m')"

definition grows :: "dao_monitoring \<Rightarrow> dao_monitoring \<Rightarrow> bool" where
  "grows m m' \<longleftrightarrow> blocks_grow (dm_block_chain m) (dm_block_chain m') \<and> flags_kept m m'"

lemma block_grows_refl [simp]: "block_grows b b"
  by (simp add: block_grows_def)

lemma block_grows_trans: "block_grows a b \<Longrightarrow> block_grows b c \<Longrightarrow> block_grows a c"
  by (auto simp: block_grows_def intro: map_le_trans)

lemma blocks_grow_refl [simp]: "blocks_grow bs bs"
  by (simp add: blocks_grow_def)

lemma grows_refl [simp]: "grows m m"
  by (simp add: grows_def flags_kept_def)

lemma blocks_grow_trans: "blocks_grow as bs \<Longrightarrow> blocks_grow bs cs \<Longrightarrow> blocks_grow as cs"
  unfolding blocks_grow_def by (meson block_grows_trans less_le_trans order_trans)

lemma grows_trans: "grows a b \<Longrightarrow> grows b c \<Longrightarrow> grows a c"
  by (auto simp: grows_def flags_kept_def intro: blocks_grow_trans)

lemma grows_same_core: "core_of m' = core_of m \<Longrightarrow> grows m m'"
  by (simp add: core_of_def grows_def flags_kept_def)

lemma map_le_setdefault: "map_of al \<subseteq>\<^sub>m map_of (al_setdefault k v al)"
  by (auto simp: map_of_setdefault map_le_def split: if_splits option.splits)

lemma put_block_grows:
  "block_grows b (put_in_peers_map p h b)" "block_grows b (put_in_conflict_map p h b)"
  by (simp_all add: block_grows_def put_in_peers_map_def put_in_conflict_map_def map_le_setdefault)

lemma blocks_grow_append: "blocks_grow bs (bs @ cs)"
  by (simp add: blocks_grow_def nth_append)

lemma blocks_grow_update: "(i < length bs \<Longrightarrow> block_grows (bs ! i) c) \<Longrightarrow> blocks_grow bs (bs[i := c])"
  by (simp add: blocks_grow_def) (metis block_grows_refl nth_list_update_eq nth_list_update_neq)

lemma grows_append: "grows m (append_state_hash h m)"
  by (simp add: grows_def flags_kept_def blocks_grow_append)

lemma create_dao_state_block_grows:
  assumes "create_dao_state_block env s b m = (m', oi)"
  shows "grows m m'"
proof (cases "prev_state_hash s (blk_height b) m")
  case None
  then show ?thesis using assms by (auto simp: create_dao_state_block_def intro!: grows_same_core)
next
  case (Some prev)
  let ?h = "\<lparr>sh_height = blk_height b, sh_hash = me_hash env (prev @ me_serialize_state env s), sh_is_self_created = True\<rparr>"
  have "core_of m' = core_of (append_state_hash ?h m)"
    using assms Some by (auto simp: create_dao_state_block_def Let_def)
  then show ?thesis using grows_append grows_same_core grows_trans by blast
qed

text \<open>The state after a hash of a peer was looked at: the block with the hash, and the flag.\<close>

definition checked_block :: "string \<Rightarrow> dao_state_hash \<Rightarrow> dao_state_hash state_block \<Rightarrow> dao_state_hash state_block" where
  "checked_block p h b =
     (if has_equal_hash (my_state_hash b) h then put_in_peers_map p h b
      else put_in_conflict_map p h (put_in_peers_map p h b))"

lemma checked_block_grows: "block_grows b (checked_block p h b)"
  by (simp add: checked_block_def put_block_grows block_grows_trans [OF put_block_grows(1) put_block_grows(2)])

lemma put_in_peers_map_and_check_eq:
  assumes "i < length (dm_block_chain m)"
  shows "dm_block_chain (put_in_peers_map_and_check env p h (Some i) m) =
       (dm_block_chain m)[i := checked_block p h (dm_block_chain m ! i)]"
    and "dm_conflict_seed (put_in_peers_map_and_check env p h (Some i) m) \<longleftrightarrow> dm_conflict_seed m \<or>
       (\<not> has_equal_hash (my_state_hash (dm_block_chain m ! i)) h \<and> is_seed_node env p)"
    and "dm_conflict_non_seed (put_in_peers_map_and_check env p h (Some i) m) \<longleftrightarrow> dm_conflict_non_seed m \<or>
       (\<not> has_equal_hash (my_state_hash (dm_block_chain m ! i)) h \<and> \<not> is_seed_node env p)"
proof -
  have own: "my_state_hash (put_in_peers_map p h b) = my_state_hash b" for b
    by (simp add: put_in_peers_map_def)
  show "dm_block_chain (put_in_peers_map_and_check env p h (Some i) m) =
       (dm_block_chain m)[i := checked_block p h (dm_block_chain m ! i)]"
    "dm_conflict_seed (put_in_peers_map_and_check env p h (Some i) m) \<longleftrightarrow> dm_conflict_seed m \<or>
       (\<not> has_equal_hash (my_state_hash (dm_block_chain m ! i)) h \<and> is_seed_node env p)"
    "dm_conflict_non_seed (put_in_peers_map_and_check env p h (Some i) m) \<longleftrightarrow> dm_conflict_non_seed m \<or>
       (\<not> has_equal_hash (my_state_hash (dm_block_chain m ! i)) h \<and> \<not> is_seed_node env p)"
    using assms
    by (auto simp: put_in_peers_map_and_check_def check_for_hash_conflicts_def checked_block_def own Let_def)
qed

lemma put_in_peers_map_and_check_grows:
  assumes "\<And>i. oi = Some i \<Longrightarrow> i < length (dm_block_chain m)"
  shows "grows m (put_in_peers_map_and_check env p h oi m)"
proof (cases oi)
  case None
  then show ?thesis by (simp add: put_in_peers_map_and_check_def)
next
  case (Some i)
  then have i: "i < length (dm_block_chain m)" using assms by blast
  show ?thesis
    unfolding grows_def flags_kept_def Some put_in_peers_map_and_check_eq [OF i]
    by (auto intro!: blocks_grow_update checked_block_grows)
qed

lemma process_peers_dao_state_hash_grows:
  assumes "monitoring_ok env m" shows "grows m (process_peers_dao_state_hash env s p h m)"
proof -
  let ?found = "find_dao_state_block m (sh_height h)"
  have put: "grows m' (put_in_peers_map_and_check env p h (find_dao_state_block m' k) m')"
    if "monitoring_ok env m'" for m' k
    using put_in_peers_map_and_check_grows found_in_chain [OF that] by blast
  show ?thesis
  proof (cases "\<not> me_full_mode_dao_monitor env \<and> ?found = None")
    case False
    then have "process_peers_dao_state_hash env s p h m = put_in_peers_map_and_check env p h ?found m"
      by (auto simp: process_peers_dao_state_hash_def)
    then show ?thesis using put [OF assms] by simp
  next
    case missing: True
    show ?thesis
    proof (cases "chain_height s = sh_height h")
      case False
      let ?m = "append_state_hash (h\<lparr>sh_is_self_created := False\<rparr>) m"
      have "process_peers_dao_state_hash env s p h m =
          put_in_peers_map_and_check env p h (Some (length (dm_block_chain m))) ?m"
        using missing False by (simp add: process_peers_dao_state_hash_def)
      moreover have "grows ?m (put_in_peers_map_and_check env p h (Some (length (dm_block_chain m))) ?m)"
        by (rule put_in_peers_map_and_check_grows) simp
      ultimately show ?thesis using grows_trans [OF grows_append] by simp
    next
      case top: True
      show ?thesis
      proof (cases "last_block s")
        case None
        then have "process_peers_dao_state_hash env s p h m = put_in_peers_map_and_check env p h ?found m"
          using missing top by (simp add: process_peers_dao_state_hash_def)
        then show ?thesis using put [OF assms] by simp
      next
        case (Some b)
        obtain m' oj where c: "create_dao_state_block env s b m = (m', oj)" by fastforce
        note ok = create_dao_state_block_ok [OF assms c]
        let ?oi = "case oj of None \<Rightarrow> find_dao_state_block m' (sh_height h) | Some i \<Rightarrow> Some i"
        have "process_peers_dao_state_hash env s p h m = put_in_peers_map_and_check env p h ?oi m'"
          using missing top Some c by (auto simp: process_peers_dao_state_hash_def split: option.splits)
        moreover have "grows m' (put_in_peers_map_and_check env p h ?oi m')"
          by (rule put_in_peers_map_and_check_grows) (use ok in \<open>auto simp: found_in_chain split: option.splits\<close>)
        ultimately show ?thesis using grows_trans [OF create_dao_state_block_grows [OF c]] by simp
      qed
    qed
  qed
qed

lemma fold_grows:
  assumes "monitoring_ok env m"
  shows "grows m (fold (\<lambda>(n, h). process_peers_dao_state_hash env s (f n) h) xs m) \<and>
    monitoring_ok env (fold (\<lambda>(n, h). process_peers_dao_state_hash env s (f n) h) xs m)"
  using assms
proof (induction xs arbitrary: m)
  case (Cons x xs)
  obtain n h where x: "x = (n, h)" by fastforce
  show ?case
    using Cons.IH [OF process_peers_dao_state_hash_ok [OF Cons.prems, of s "f n" h]]
      process_peers_dao_state_hash_grows [OF Cons.prems, of s "f n" h] grows_trans
    by (auto simp: x)
qed simp

lemma same_core_response:
  "core_of (on_peers_dao_state_hashes env s hs peer rnd m) = core_of (process_peers_dao_state_hashes env s hs peer rnd m)"
  by (simp add: on_peers_dao_state_hashes_def Let_def)

lemma collecting_step_grows:
  assumes "collecting_step env m m'" and "monitoring_ok env m" shows "grows m m'"
  using assms(1)
proof cases
  case (step_created s b)
  obtain m1 oi where c: "create_dao_state_block env s b m = (m1, oi)" by fastforce
  then have "core_of m' = core_of m1" using step_created by (simp add: create_hash_from_block_def Let_def)
  then show ?thesis using create_dao_state_block_grows [OF c] grows_same_core grows_trans by blast
next
  case (step_message s h peer n)
  let ?m = "put_in_peers_map_and_check env (get_peers_address peer n) h (find_dao_state_block m (sh_height h)) m"
  have "grows m ?m" using put_in_peers_map_and_check_grows found_in_chain [OF assms(2)] by blast
  moreover have "m' = m \<or> core_of m' = core_of ?m"
    using step_message by (simp add: on_new_dao_state_hash_message_def)
  ultimately show ?thesis using grows_same_core grows_trans by auto
next
  case (step_response s hs peer rnd)
  then have "core_of m' = core_of (process_peers_dao_state_hashes env s hs peer rnd m)"
    by (simp add: same_core_response)
  moreover have "grows m (process_peers_dao_state_hashes env s hs peer rnd m)"
    unfolding process_peers_dao_state_hashes_def by (rule conjunct1 [OF fold_grows [OF assms(2)]])
  ultimately show ?thesis using grows_same_core grows_trans by blast
next
  case (step_changed s b)
  then show ?thesis using grows_same_core [OF same_core_steps(1)] by simp
next
  case (step_complete s)
  then show ?thesis using grows_same_core [OF same_core_steps(2)] by simp
qed (auto simp: on_get_dao_state_hash_request_def intro!: grows_same_core)

lemma apply_snapshot_flags: "flags_kept m (monitoring_apply_snapshot hs m)"
proof -
  have "flags_kept n (fold append_state_hash hs n)" for n
    by (induction hs arbitrary: n) (auto simp: flags_kept_def)
  from this [of "dm_log Network_Reset (m\<lparr>dm_hash_chain := [], dm_block_chain := [], dm_block_by_height := Map.empty\<rparr>)"]
  show ?thesis by (simp add: monitoring_apply_snapshot_def Let_def flags_kept_def dm_log_def)
qed

lemma monitoring_steps_flags:
  assumes "(monitoring_step env)\<^sup>*\<^sup>* m m'" and "monitoring_ok env m"
  shows "flags_kept m m' \<and> monitoring_ok env m'"
  using assms(1)
proof (induction rule: rtranclp_induct)
  case base
  then show ?case using assms(2) by (simp add: flags_kept_def)
next
  case (step a b)
  then have ok: "monitoring_ok env a" by simp
  have "flags_kept a b"
    using step(2)
  proof cases
    case step_collecting
    then show ?thesis using collecting_step_grows [OF _ ok] by (simp add: grows_def)
  qed (simp add: apply_snapshot_flags)
  then show ?case using step.IH monitoring_step_ok [OF step(2) ok] by (auto simp: flags_kept_def)
qed

lemma collecting_steps_grow:
  assumes "(collecting_step env)\<^sup>*\<^sup>* m m'" and "monitoring_ok env m"
  shows "grows m m' \<and> monitoring_ok env m'"
  using assms(1)
proof (induction rule: rtranclp_induct)
  case (step a b)
  then show ?case using collecting_step_grows collecting_step_ok grows_trans by blast
qed (simp add: assms(2))

section \<open>Hashes that are received\<close>

text \<open>\<open>hash_received env p h i m m'\<close>: between \<open>m\<close> and \<open>m'\<close> the service has handled the hash \<open>h\<close> of the peer
  with the address \<open>p\<close>, for which it has the state block at position \<open>i\<close>: in a message for a known
  height, or as one of the hashes of a response, in the state the ones before it left.\<close>

inductive hash_received ::
  "monitor_env \<Rightarrow> string \<Rightarrow> dao_state_hash \<Rightarrow> nat \<Rightarrow> dao_monitoring \<Rightarrow> dao_monitoring \<Rightarrow> bool" for env where
  by_message: "\<lbrakk>sh_height h \<le> chain_height s; find_dao_state_block m (sh_height h) = Some i\<rbrakk>
    \<Longrightarrow> hash_received env (get_peers_address peer n) h i m (on_new_dao_state_hash_message env s h peer n m)"
| by_response: "\<lbrakk>k < length hs;
      find_dao_state_block (process_peers_dao_state_hashes env s (take k hs) peer rnd m) (sh_height (hs ! k)) = Some i\<rbrakk>
    \<Longrightarrow> hash_received env (get_peers_address peer (rnd k)) (hs ! k) i m (on_peers_dao_state_hashes env s hs peer rnd m)"

text \<open>What there is of a hash of a peer in the state block at a position.\<close>

definition hash_on_record ::
  "monitor_env \<Rightarrow> string \<Rightarrow> dao_state_hash \<Rightarrow> nat \<Rightarrow> dao_monitoring \<Rightarrow> bool" where
  "hash_on_record env p h i m \<longleftrightarrow>
     (let b = dm_block_chain m ! i
      in i < length (dm_block_chain m) \<and> map_of (peers_map b) p \<noteq> None \<and>
         (sh_hash h \<noteq> block_sh_hash b \<longrightarrow>
            (\<exists>k. map_of (in_conflict_map b) p = Some k \<and> sh_hash k \<noteq> block_sh_hash b) \<and>
            (if is_seed_node env p then dm_conflict_seed m else dm_conflict_non_seed m)))"

lemma hash_on_record_grows:
  assumes "hash_on_record env p h i m" and "grows m m'" shows "hash_on_record env p h i m'"
proof -
  have i: "i < length (dm_block_chain m)" using assms(1) by (simp add: hash_on_record_def Let_def)
  then have g: "i < length (dm_block_chain m')" "block_grows (dm_block_chain m ! i) (dm_block_chain m' ! i)"
    using assms(2) by (auto simp: grows_def blocks_grow_def)
  let ?b = "dm_block_chain m ! i" and ?c = "dm_block_chain m' ! i"
  have keep: "map_of al p = Some k \<Longrightarrow> map_of al \<subseteq>\<^sub>m map_of al' \<Longrightarrow> map_of al' p = Some k"
    for k and al al' :: "(string \<times> dao_state_hash) list"
    by (metis domI map_le_def)
  have own: "block_sh_hash ?c = block_sh_hash ?b" using g(2) by (simp add: block_grows_def block_sh_hash_def)
  obtain x where x: "map_of (peers_map ?b) p = Some x" using assms(1) by (auto simp: hash_on_record_def Let_def)
  have "map_of (peers_map ?c) p = Some x" by (rule keep [OF x]) (use g(2) in \<open>simp add: block_grows_def\<close>)
  moreover have "\<exists>k. map_of (in_conflict_map ?c) p = Some k \<and> sh_hash k \<noteq> block_sh_hash ?c"
    if d: "sh_hash h \<noteq> block_sh_hash ?c"
  proof -
    obtain k where k: "map_of (in_conflict_map ?b) p = Some k" "sh_hash k \<noteq> block_sh_hash ?b"
      using assms(1) d own by (auto simp: hash_on_record_def Let_def)
    have "map_of (in_conflict_map ?c) p = Some k" by (rule keep [OF k(1)]) (use g(2) in \<open>simp add: block_grows_def\<close>)
    with k(2) own show ?thesis by simp
  qed
  moreover have "if is_seed_node env p then dm_conflict_seed m' else dm_conflict_non_seed m'"
    if "sh_hash h \<noteq> block_sh_hash ?c"
    using assms that own by (auto simp: hash_on_record_def Let_def grows_def flags_kept_def split: if_splits)
  ultimately show ?thesis using g(1) by (simp add: hash_on_record_def Let_def)
qed

lemma put_and_check_on_record:
  assumes "monitoring_ok env m" and "i < length (dm_block_chain m)"
  shows "hash_on_record env p h i (put_in_peers_map_and_check env p h (Some i) m)"
proof -
  let ?b = "dm_block_chain m ! i" and ?c = "checked_block p h (dm_block_chain m ! i)"
  have same: "my_state_hash ?c = my_state_hash ?b" using checked_block_grows by (simp add: block_grows_def)
  have peer: "map_of (peers_map ?c) p \<noteq> None"
    by (cases "map_of (peers_map ?b) p")
      (simp_all add: checked_block_def put_in_peers_map_def put_in_conflict_map_def map_of_setdefault)
  have "block_sound env (dm_conflict_seed m) (dm_conflict_non_seed m) ?b"
    using assms by (simp add: monitoring_ok_def blocks_sound_def)
  then have old: "sh_hash k \<noteq> block_sh_hash ?b" if "map_of (in_conflict_map ?b) p = Some k" for k
    using map_of_SomeD [OF that] by (auto simp: block_sound_def block_sh_hash_def)
  have "\<exists>k. map_of (in_conflict_map ?c) p = Some k \<and> sh_hash k \<noteq> block_sh_hash ?b" if d: "sh_hash h \<noteq> block_sh_hash ?b"
  proof -
    have "\<not> has_equal_hash (my_state_hash ?b) h" using d by (auto simp: has_equal_hash_def block_sh_hash_def)
    then have "in_conflict_map ?c = al_setdefault p h (in_conflict_map ?b)"
      by (simp add: checked_block_def put_in_peers_map_def put_in_conflict_map_def)
    then show ?thesis using d old by (cases "map_of (in_conflict_map ?b) p") (auto simp: map_of_setdefault)
  qed
  then show ?thesis
    using assms(2) peer same
    unfolding hash_on_record_def Let_def put_in_peers_map_and_check_eq [OF assms(2)] block_sh_hash_def
    by (auto simp: has_equal_hash_def)
qed

lemma enumerate_take_drop:
  "k < length hs \<Longrightarrow> enumerate_from 0 hs =
     enumerate_from 0 (take k hs) @ (k, hs ! k) # enumerate_from (Suc k) (drop (Suc k) hs)"
proof -
  assume k: "k < length hs"
  have app: "enumerate_from n (xs @ ys) = enumerate_from n xs @ enumerate_from (n + length xs) ys"
    for n and xs ys :: "'a list"
    by (induction xs arbitrary: n) simp_all
  have "hs = take k hs @ hs ! k # drop (Suc k) hs" by (rule id_take_nth_drop [OF k])
  then have "enumerate_from 0 hs = enumerate_from 0 (take k hs @ hs ! k # drop (Suc k) hs)" by simp
  also have "\<dots> = enumerate_from 0 (take k hs) @ (k, hs ! k) # enumerate_from (Suc k) (drop (Suc k) hs)"
    using k by (simp add: app min_def)
  finally show ?thesis .
qed

lemma received_on_record:
  assumes "hash_received env p h i m m'" and "monitoring_ok env m"
  shows "hash_on_record env p h i m'" and "collecting_step env m m'"
proof -
  show "collecting_step env m m'" using assms(1) by cases (auto intro: step_message step_response)
  show "hash_on_record env p h i m'"
    using assms(1)
  proof cases
    case (by_message s peer n)
    let ?m = "put_in_peers_map_and_check env p h (Some i) m"
    have "core_of m' = core_of ?m" using by_message by (simp add: on_new_dao_state_hash_message_def)
    moreover have "hash_on_record env p h i ?m"
      using put_and_check_on_record [OF assms(2)] found_in_chain [OF assms(2)] by_message by blast
    ultimately show ?thesis using hash_on_record_grows grows_same_core by blast
  next
    case (by_response k hs s peer rnd)
    let ?f = "\<lambda>(n, h). process_peers_dao_state_hash env s (get_peers_address peer (rnd n)) h"
    let ?a = "process_peers_dao_state_hashes env s (take k hs) peer rnd m"
    let ?b = "put_in_peers_map_and_check env p h (Some i) ?a"
    have ok: "monitoring_ok env ?a" by (rule process_peers_dao_state_hashes_ok [OF assms(2)])
    have one: "process_peers_dao_state_hash env s (get_peers_address peer (rnd k)) (hs ! k) ?a = ?b"
      using by_response by (simp add: process_peers_dao_state_hash_def)
    have split: "process_peers_dao_state_hashes env s hs peer rnd m =
        fold ?f (enumerate_from (Suc k) (drop (Suc k) hs)) ?b"
      unfolding process_peers_dao_state_hashes_def enumerate_take_drop [OF by_response(4)] fold_append comp_def
      using one by (simp add: process_peers_dao_state_hashes_def)
    have rec: "hash_on_record env p h i ?b"
      using put_and_check_on_record [OF ok] found_in_chain [OF ok] by_response(5) by_response(2) by blast
    have okb: "monitoring_ok env ?b"
      using process_peers_dao_state_hash_ok [OF ok] one by metis
    have "grows ?b (process_peers_dao_state_hashes env s hs peer rnd m)"
      unfolding split by (rule conjunct1 [OF fold_grows [OF okb]])
    with rec have "hash_on_record env p h i (process_peers_dao_state_hashes env s hs peer rnd m)"
      by (rule hash_on_record_grows)
    moreover have "core_of m' = core_of (process_peers_dao_state_hashes env s hs peer rnd m)"
      using by_response(3) by (simp add: same_core_response)
    ultimately show ?thesis using hash_on_record_grows grows_same_core by blast
  qed
qed

end
