(* ===== verification/Dao_Monitoring_Examples.thy ===== *)
theory Dao_Monitoring_Examples
  imports Dao_Monitoring_Peers Dao_Chain Dao_Examples
begin

text \<open>
  The properties of DAO state monitoring with examples, among them the composition with the block
  parser: what a parsed block does to the sums that the check of the unspent outputs compares.
\<close>

section \<open>The check of the unspent outputs and the block parser\<close>

definition own_output_ids :: "raw_block \<Rightarrow> bool" where
  "own_output_ids raw \<longleftrightarrow> (\<forall>x \<in> set (raw_txs raw). \<forall>out \<in> set (raw_tx_outputs x). txo_tx_id out = tx_id x)"

definition issuances_known :: "'a dao_state_scheme \<Rightarrow> bool" where
  "issuances_known s \<longleftrightarrow> (\<forall>i. issuance_map s i \<noteq> None \<longrightarrow> i \<in> set (map tx_id (all_txs s)))"

lemma raw_outputs_ids:
  assumes "raw_tx_from_tx t = x" and "\<forall>out \<in> set (raw_tx_outputs x). txo_tx_id out = tx_id x" and "out \<in> set (tx_outputs t)"
  shows "txo_tx_id out = tx_id x"
proof -
  have "raw_output_from_tx_output out \<in> set (raw_tx_outputs x)"
    using assms(1,3) by (auto simp: raw_tx_from_tx_def)
  then have "txo_tx_id (raw_output_from_tx_output out) = tx_id x" using assms(2) by blast
  then show ?thesis by (simp add: raw_output_from_tx_output_def)
qed

lemma parsed_issued_amount:
  assumes "block_parsed s raw t new bonds" and "chain_ok s" and "txs_ok s (raw_txs raw)"
    and "own_output_ids raw" and "issuances_known s"
  shows "get_total_issued_amount t ty = get_total_issued_amount s ty"
proof -
  have c: "caches_ok s" "caches_ok t" using assms(1,2) by (simp_all add: block_parsed_def chain_ok_def)
  have txs: "all_txs t = all_txs s @ new" using assms(1) by (simp add: block_parsed_def all_txs_def)
  have iss: "is_issuance_tx t i (Some ty) = is_issuance_tx s i (Some ty)" for i
    using assms(1) by (simp add: block_parsed_def is_issuance_tx_def get_issuance_def)
  have outs: "get_tx_output_by_tx_output_type u ty' = outputs_of_type (all_txs u) ty'" if "caches_ok u" for u :: "'a dao_service_scheme" and ty'
    using that by (simp add: caches_ok_def)
  have "\<not> is_issuance_tx s (txo_tx_id out) (Some ty)" if new: "x \<in> set new" "out \<in> set (tx_outputs x)" for x out
  proof -
    have "raw_tx_from_tx x \<in> set (raw_txs raw)"
    proof -
      have "subseq (map raw_tx_from_tx new) (raw_txs raw)" using assms(1) by (simp add: block_parsed_def)
      from list_emb_set [OF this, of "raw_tx_from_tx x"] show ?thesis using new(1) by auto
    qed
    then have "txo_tx_id out = tx_id (raw_tx_from_tx x)" "tx_id (raw_tx_from_tx x) \<notin> set (map tx_id (all_txs s))"
      using raw_outputs_ids [OF refl _ new(2)] assms(3,4) by (auto simp: own_output_ids_def txs_ok_def)
    then show ?thesis using assms(5)
      by (auto simp: issuances_known_def is_issuance_tx_def get_issuance_def split: option.splits)
  qed
  then have "{out \<in> outputs_of_type (all_txs t) ISSUANCE_CANDIDATE_OUTPUT. is_issuance_tx s (txo_tx_id out) (Some ty)} =
      {out \<in> outputs_of_type (all_txs s) ISSUANCE_CANDIDATE_OUTPUT. is_issuance_tx s (txo_tx_id out) (Some ty)}"
    by (auto simp: outputs_of_type_def txs)
  then show ?thesis by (simp add: get_total_issued_amount_def outs [OF c(1)] outs [OF c(2)] iss)
qed

lemma parsed_burnt_amount:
  assumes "block_parsed s raw t new bonds" and "chain_ok s"
  shows "get_total_amount_of_burnt_bsq t = get_total_amount_of_burnt_bsq s + burnt_by new"
proof -
  have c: "caches_ok s" "caches_ok t" using assms by (simp_all add: block_parsed_def chain_ok_def)
  have "all_txs t = all_txs s @ new" using assms(1) by (simp add: block_parsed_def all_txs_def)
  moreover have "get_unordered_txs u = all_txs u" if "caches_ok u" for u :: "'a dao_service_scheme"
    using that by (simp add: get_unordered_txs_def caches_ok_def cache_of_def comp_def)
  ultimately show ?thesis using c by (simp add: get_total_amount_of_burnt_bsq_def burnt_by_def)
qed

lemma parsed_gap:
  assumes "block_parsed s raw t new bonds" and "chain_ok s" and "txs_ok s (raw_txs raw)"
    and "own_output_ids raw" and "issuances_known s"
  shows "sum_of_bsq t - sum_of_utxos t =
    sum_of_bsq s - sum_of_utxos s - sum_list (map (minted s) (raw_txs raw)) + bonds"
  using assms(1) parsed_issued_amount [OF assms] parsed_burnt_amount [OF assms(1,2)]
  by (simp add: block_parsed_def sum_of_bsq_def sum_of_utxos_def utxo_total_def)

section \<open>Examples\<close>

definition ex_monitor_env :: monitor_env where
  "ex_monitor_env =
     \<lparr>me_hash = (\<lambda>d. take 20 (rev d @ replicate 20 0)), me_serialize_state = (\<lambda>s. [word_of_int (chain_height s)]),
      me_serialize_blind_votes = (\<lambda>_. []), me_serialize_proposals = (\<lambda>_. []),
      me_seed_node_addresses = {''seed:1''}, me_full_mode_dao_monitor = True, me_ignore_dev_msg = True\<rparr>"

definition ex_blk :: "int \<Rightarrow> block" where
  "ex_blk h = \<lparr>blk_height = h, blk_time = 0, blk_hash = ''b'', blk_previous_block_hash = None, blk_txs = []\<rparr>"

definition ex_run :: "(dao_service \<times> block) list" where
  "ex_run = [(ex_state\<lparr>chain_height := 111\<rparr>, ex_blk 111), (ex_state, ex_blk 112)]"

definition ex_peer_hash :: dao_state_hash where
  "ex_peer_hash = \<lparr>sh_height = 112, sh_hash = [9], sh_is_self_created = True\<rparr>"

section \<open>Properties\<close>

text \<open>C13: conflicts with peers are never lost.  When the service handles the hash of a peer for a height it
  has a state block for, in a message or in a response, and the hash differs from the own one, then the
  flag for its kind of peer is set, whatever was recorded of the peer before, and stays set through every
  later block, message, response, check and snapshot.  Until a snapshot starts the blocks over, which
  is the only event that does, the hashes recorded of a peer in a state block stay as they are, also when
  he sends another one, the conflict stays recorded with a hash that differs, and the own hash of the
  block stays the same.\<close>

theorem conflicts_are_reported:
  assumes "monitoring_reachable env m" and "hash_received env p h i m m1" and "(monitoring_step env)\<^sup>*\<^sup>* m1 m2"
  shows "(sh_hash h \<noteq> block_sh_hash (dm_block_chain m1 ! i) \<longrightarrow>
            (if is_seed_node env p then dm_conflict_seed m2 else dm_conflict_non_seed m2)) \<and>
    (dm_conflict_seed m \<longrightarrow> dm_conflict_seed m2) \<and> (dm_conflict_non_seed m \<longrightarrow> dm_conflict_non_seed m2) \<and>
    ((collecting_step env)\<^sup>*\<^sup>* m1 m2 \<longrightarrow>
       blocks_grow (dm_block_chain m) (dm_block_chain m2) \<and> hash_on_record env p h i m2)"
proof -
  have ok: "monitoring_ok env m" by (rule monitoring_reachable_ok [OF assms(1)])
  note rec = received_on_record [OF assms(2) ok]
  have first: "grows m m1" and ok1: "monitoring_ok env m1"
    using collecting_step_grows [OF rec(2) ok] collecting_step_ok [OF rec(2) ok] by blast+
  have flags: "flags_kept m1 m2" using monitoring_steps_flags [OF assms(3) ok1] by blast
  have "blocks_grow (dm_block_chain m) (dm_block_chain m2) \<and> hash_on_record env p h i m2"
    if "(collecting_step env)\<^sup>*\<^sup>* m1 m2"
  proof -
    have g: "grows m1 m2" using collecting_steps_grow [OF that ok1] by blast
    then show ?thesis
      using hash_on_record_grows [OF rec(1) g] grows_trans [OF first g] by (simp add: grows_def)
  qed
  then show ?thesis
    using rec(1) first flags unfolding hash_on_record_def Let_def grows_def flags_kept_def by presburger
qed

text \<open>The seed node first sends a hash that agrees, later one that differs.\<close>

definition ex_agreeing :: dao_monitoring where
  "ex_agreeing =
     (let m = create_hash_from_block ex_monitor_env ex_state (ex_blk 112)
            (create_hash_from_block ex_monitor_env (ex_state\<lparr>chain_height := 111\<rparr>) (ex_blk 111) new_dao_monitoring)
      in on_new_dao_state_hash_message ex_monitor_env ex_state (my_state_hash (dm_block_chain m ! 1))
           (Some ''seed:1'') 0 m)"

theorem conflicts_are_reported_witness:
  "\<not> dm_conflict_seed ex_agreeing \<and>
   dm_conflict_seed (monitoring_apply_snapshot []
     (on_new_dao_state_hash_message ex_monitor_env ex_state ex_peer_hash (Some ''seed:1'') 0 ex_agreeing))"
proof -
  let ?m1 = "on_new_dao_state_hash_message ex_monitor_env ex_state ex_peer_hash (Some ''seed:1'') 0 ex_agreeing"
  have r: "monitoring_reachable ex_monitor_env ex_agreeing"
    unfolding ex_agreeing_def Let_def
    by (intro monitoring_next [OF _ step_collecting [OF step_message]] monitoring_next [OF _ step_collecting [OF step_created]]
        monitoring_new)
  have f: "find_dao_state_block ex_agreeing (sh_height ex_peer_hash) = Some 1" by code_simp
  have "sh_height ex_peer_hash \<le> chain_height ex_state" by code_simp
  from by_message [OF this f, of ex_monitor_env "Some ''seed:1''" 0]
  have received: "hash_received ex_monitor_env ''seed:1'' ex_peer_hash 1 ex_agreeing ?m1" by (simp add: get_peers_address_def)
  have "sh_hash ex_peer_hash \<noteq> block_sh_hash (dm_block_chain ?m1 ! 1)" by code_simp
  moreover have "is_seed_node ex_monitor_env ''seed:1''" by (simp add: is_seed_node_def ex_monitor_env_def)
  moreover have "\<not> dm_conflict_seed ex_agreeing" by code_simp
  ultimately show ?thesis
    using conflicts_are_reported [OF r received r_into_rtranclp [of "monitoring_step ex_monitor_env", OF step_snapshot]]
    by simp
qed

text \<open>C12: the hash of a state commits to the whole history.  If two nodes hash the states of their blocks
  with the same functions, none of their blocks failed to connect and their last state hashes are
  equal, then they have hashed the same serialised states at every height, unless two of the byte
  strings they hashed collide.\<close>

theorem hash_commits_to_history:
  assumes "\<And>x. length (me_hash env x) = n" and "run \<noteq> []" and "run' \<noteq> []"
    and "\<forall>(s, b) \<in> set run. genesis_block_height s = g" and "\<forall>(s, b) \<in> set run'. genesis_block_height s = g"
    and "\<not> dm_not_connecting (create_hashes env run new_dao_monitoring)"
    and "\<not> dm_not_connecting (create_hashes env run' new_dao_monitoring)"
    and "my_state_hash (last (dm_block_chain (create_hashes env run new_dao_monitoring))) =
         my_state_hash (last (dm_block_chain (create_hashes env run' new_dao_monitoring)))"
    and "inj_on (me_hash env) (set (chain_inputs (me_hash env) [] (run_states env run)) \<union>
                               set (chain_inputs (me_hash env) [] (run_states env run')))"
  shows "map (\<lambda>(s, b). me_serialize_state env s) run = map (\<lambda>(s, b). me_serialize_state env s) run'"
  using create_hashes_commit [OF assms] by (simp add: run_states_def)

theorem hash_commits_to_history_witness:
  "map (\<lambda>(s, b). me_serialize_state ex_monitor_env s) ex_run =
   map (\<lambda>(s, b). me_serialize_state ex_monitor_env s) (map (\<lambda>(s, b). (s\<lparr>parse_block_chain_complete := True\<rparr>, b)) ex_run)"
proof (rule hash_commits_to_history [of _ 20 _ _ 111])
  show "length (me_hash ex_monitor_env x) = 20" for x by (simp add: ex_monitor_env_def)
  have states: "run_states ex_monitor_env ex_run = [[111], [112]]"
    "run_states ex_monitor_env (map (\<lambda>(s, b). (s\<lparr>parse_block_chain_complete := True\<rparr>, b)) ex_run) = [[111], [112]]"
    by code_simp+
  show "inj_on (me_hash ex_monitor_env)
     (set (chain_inputs (me_hash ex_monitor_env) [] (run_states ex_monitor_env ex_run)) \<union>
      set (chain_inputs (me_hash ex_monitor_env) []
        (run_states ex_monitor_env (map (\<lambda>(s, b). (s\<lparr>parse_block_chain_complete := True\<rparr>, b)) ex_run))))"
    unfolding states by (simp add: ex_monitor_env_def)
  let ?run' = "map (\<lambda>(s, b). (s\<lparr>parse_block_chain_complete := True\<rparr>, b)) ex_run"
  show "ex_run \<noteq> []" "?run' \<noteq> []" "\<forall>(s, b) \<in> set ex_run. genesis_block_height s = 111"
    "\<forall>(s, b) \<in> set ?run'. genesis_block_height s = 111"
    by (simp_all add: ex_run_def ex_state_def)
  show "\<not> dm_not_connecting (create_hashes ex_monitor_env ex_run new_dao_monitoring)"
    "\<not> dm_not_connecting (create_hashes ex_monitor_env ?run' new_dao_monitoring)"
    "my_state_hash (last (dm_block_chain (create_hashes ex_monitor_env ex_run new_dao_monitoring))) =
     my_state_hash (last (dm_block_chain (create_hashes ex_monitor_env ?run' new_dao_monitoring)))"
    by code_simp+
qed

text \<open>C11: the check of the unspent outputs fails only through invalid transactions that spend a bond.
  Parsing a block changes the difference between the BSQ that should exist and the unspent outputs by
  the supply it mints and by the bonds its invalid transactions spend before their time, so a block
  without invalid transactions, parsed when the difference is what the block mints, passes the
  check.\<close>

theorem utxo_check_accounts:
  assumes "parse_block dev ls raw s = Inr (s', r)" and "chain_ok s"
    and "\<forall>l \<in> set (l_new_block_height ls). keeps_chain (l (blk_height raw))"
    and "txs_ok s (raw_txs raw)" and "blocks s = [] \<longrightarrow> blk_height raw = genesis_block_height s"
    and "own_output_ids raw" and "issuances_known s"
  shows "\<exists>(t :: dao_service) new bonds. on_parse_block_complete ls r t = Inr s' \<and>
     blocks t = blocks s @ [(new_block raw)\<lparr>blk_txs := new\<rparr>] \<and> 0 \<le> bonds \<and>
     sum_of_bsq t - sum_of_utxos t =
       sum_of_bsq s - sum_of_utxos s - sum_list (map (minted s) (raw_txs raw)) + bonds \<and>
     ((\<forall>x \<in> set new. tx_tx_type x \<noteq> Some INVALID) \<and>
      sum_of_bsq s - sum_of_utxos s = sum_list (map (minted s) (raw_txs raw)) \<longrightarrow> check_utxos t b m = m)"
proof -
  obtain t new bonds where p: "block_parsed s raw t new bonds" "on_parse_block_complete ls r t = Inr s'"
    using parse_block_step [OF assms(1-5)] by blast
  note gap = parsed_gap [OF p(1) assms(2,4,6,7)]
  have "check_utxos t b m = m"
    if "\<forall>x \<in> set new. tx_tx_type x \<noteq> Some INVALID"
      and "sum_of_bsq s - sum_of_utxos s = sum_list (map (minted s) (raw_txs raw))"
    using that gap p(1) by (simp add: block_parsed_def check_utxos_def)
  then show ?thesis using p gap by (auto simp: block_parsed_def)
qed

theorem utxo_check_accounts_witness:
  "\<exists>s r (t :: dao_service) new bonds. parse_block False ex_listeners ex_block ex_start = Inr (s, r) \<and>
     blocks t = [(new_block ex_block)\<lparr>blk_txs := new\<rparr>] \<and> 0 \<le> bonds \<and> sum_of_bsq t - sum_of_utxos t = bonds"
proof -
  obtain s r where p: "parse_block False ex_listeners ex_block ex_start = Inr (s, r)"
    using ex_block_parsed by blast
  have e: "blocks ex_start = []" "blk_height ex_block = genesis_block_height ex_start"
    "sum_list (map (minted ex_start) (raw_txs ex_block)) = 1000" "own_output_ids ex_block" by code_simp+
  have known: "issuances_known ex_start" by (simp add: issuances_known_def ex_start_def ex_state_def)
  have gap: "sum_of_bsq ex_start - sum_of_utxos ex_start = 1000"
    by (simp add: sum_of_bsq_def sum_of_utxos_def get_total_issued_amount_def get_tx_output_by_tx_output_type_def
        get_total_amount_of_burnt_bsq_def get_unordered_txs_def ex_start_def ex_state_def)
  obtain t :: dao_service and new bonds where t: "blocks t = blocks ex_start @ [(new_block ex_block)\<lparr>blk_txs := new\<rparr>]"
    "0 \<le> bonds" "sum_of_bsq t - sum_of_utxos t = sum_of_bsq ex_start - sum_of_utxos ex_start -
       sum_list (map (minted ex_start) (raw_txs ex_block)) + bonds"
    using utxo_check_accounts [OF p ex_start_ok ex_listeners_keep ex_block_txs_ok _ e(4) known] e(1,2) by blast
  have "sum_of_bsq t - sum_of_utxos t = bonds" using t(3) unfolding gap e(3) by simp
  then show ?thesis using p t(1,2) e(1) by fastforce
qed

end
