(* ===== verification/Float_Ops.thy ===== *)
theory Float_Ops
  imports Py_Float
begin

text \<open>
  The operators of Python's \<open>float\<close> that the burning man code uses, each rounding its exact result to
  a double (\<open>Py_Float\<close>), \<open>round\<close> and \<open>int\<close> back to integers, and \<open>sum\<close> over floats.  \<open>sum\<close> adds from
  the left and rounds after each addition up to Python 3.11; from 3.12 on it compensates the
  rounding errors.  Both are defined; the code allows Python 3.9 and later, so the services take
  the summation as a parameter, and \<open>fair_sum\<close> is what their facts need of it.
\<close>

section \<open>Operators\<close>

definition float_of_int :: "int \<Rightarrow> rat" where
  "float_of_int n = to_float (of_int n)"

definition fadd :: "rat \<Rightarrow> rat \<Rightarrow> rat" where "fadd x y = to_float (x + y)"
definition fsub :: "rat \<Rightarrow> rat \<Rightarrow> rat" where "fsub x y = to_float (x - y)"
definition fmul :: "rat \<Rightarrow> rat \<Rightarrow> rat" where "fmul x y = to_float (x * y)"

definition fdiv :: "rat \<Rightarrow> rat \<Rightarrow> rat res" where
  "fdiv x y = (if y = 0 then Inl Zero_Division_Error else Inr (to_float (x / y)))"

text \<open>\<open>round(x)\<close> rounds half to even, \<open>int(x)\<close> truncates towards zero.\<close>

definition py_round :: "rat \<Rightarrow> int" where "py_round x = round_half_even x"

definition py_trunc :: "rat \<Rightarrow> int" where "py_trunc x = (if 0 \<le> x then \<lfloor>x\<rfloor> else \<lceil>x\<rceil>)"

section \<open>Sums\<close>

definition sum_left :: "rat list \<Rightarrow> rat" where
  "sum_left xs = fold (\<lambda>x acc. fadd acc x) xs 0"

text \<open>The compensated sum: the running total and the sum of the errors.\<close>

definition compensate :: "rat \<Rightarrow> rat \<times> rat \<Rightarrow> rat \<times> rat" where
  "compensate x p =
     (case p of (f, c) \<Rightarrow>
        let t = fadd f x
        in (t, if \<bar>x\<bar> \<le> \<bar>f\<bar> then fadd c (fadd (fsub f t) x) else fadd c (fadd (fsub x t) f)))"

definition sum_compensated :: "rat list \<Rightarrow> rat" where
  "sum_compensated xs =
     (case fold compensate xs (0, 0) of (f, c) \<Rightarrow> if c = 0 then f else fadd f c)"

definition fair_sum :: "(rat list \<Rightarrow> rat) \<Rightarrow> bool" where
  "fair_sum f \<longleftrightarrow>
     (\<forall>xs. (\<forall>x \<in> set xs. 0 \<le> x) \<longrightarrow> 0 \<le> f xs \<and> (f xs = 0 \<longleftrightarrow> (\<forall>x \<in> set xs. x = 0)))"

section \<open>Facts\<close>

lemma to_float_0 [simp]: "to_float 0 = 0"
  by (simp add: to_float_def)

lemma to_float_1 [simp]: "to_float 1 = 1"
  using to_float_int [of 1] by simp

lemma to_float_gt_0: "0 < x \<Longrightarrow> 0 < to_float x"
  using to_float_range(1) [of x] pow2_pos(1) [of "float_exponent x + 52"] by linarith

lemma to_float_eq_0: "0 \<le> x \<Longrightarrow> to_float x = 0 \<longleftrightarrow> x = 0"
  using to_float_gt_0 [of x] by (cases "x = 0") auto

lemma to_float_le_1: "0 \<le> x \<Longrightarrow> x \<le> 1 \<Longrightarrow> to_float x \<le> 1"
  using to_float_mono [of x 1] by simp

lemma to_float_ge_1: "1 \<le> x \<Longrightarrow> 1 \<le> to_float x"
  using to_float_mono [of 1 x] by simp

lemma py_round_mono: "x \<le> y \<Longrightarrow> py_round x \<le> py_round y"
  by (simp add: py_round_def round_half_even_mono)

lemma py_round_int [simp]: "py_round (of_int n) = n"
  by (simp add: py_round_def)

lemma py_round_0 [simp]: "py_round 0 = 0"
  using py_round_int [of 0] by simp

lemma py_round_nonneg: "0 \<le> x \<Longrightarrow> 0 \<le> py_round x"
  using py_round_mono [of 0 x] by simp

lemma py_round_error: "\<bar>of_int (py_round x) - x\<bar> \<le> 1 / 2"
  unfolding py_round_def by (rule round_half_even_error)

text \<open>A share of an amount never exceeds the amount.\<close>

lemma share_of_amount:
  assumes "0 \<le> a" and "a < 2 ^ 53" and "0 \<le> f" and "f \<le> 1"
  shows "0 \<le> py_round (fmul (float_of_int a) f)" and "py_round (fmul (float_of_int a) f) \<le> a"
proof -
  have a: "float_of_int a = of_int a" using assms by (simp add: float_of_int_def to_float_int)
  have nn: "0 \<le> (of_int a :: rat)" using assms by simp
  have le: "(of_int a :: rat) * f \<le> of_int a" using nn assms(4) by (simp add: mult_left_le)
  have "to_float (of_int a * f) \<le> to_float (of_int a)"
    by (rule to_float_mono) (use nn assms le in auto)
  then have "fmul (float_of_int a) f \<le> of_int a" using assms by (simp add: fmul_def a to_float_int)
  then show "py_round (fmul (float_of_int a) f) \<le> a" using py_round_mono py_round_int by metis
  show "0 \<le> py_round (fmul (float_of_int a) f)"
    using nn assms by (intro py_round_nonneg) (simp add: fmul_def a to_float_nonneg)
qed

lemma fdiv_Inr: "fdiv x y = Inr z \<longleftrightarrow> y \<noteq> 0 \<and> z = to_float (x / y)"
  by (auto simp: fdiv_def)

text \<open>The comment on \<open>get_burn_cap_ratio\<close>: a quotient below 1 has a dividend below the divisor, rounding
  notwithstanding.\<close>

lemma fdiv_less_1: "fdiv x y = Inr z \<Longrightarrow> 0 < y \<Longrightarrow> z < 1 \<Longrightarrow> x < y"
  using to_float_ge_1 [of "x / y"] by (force simp: fdiv_Inr)

lemma fdiv_pos: "fdiv x y = Inr z \<Longrightarrow> 0 < x \<Longrightarrow> 0 \<le> y \<Longrightarrow> 0 < z"
  by (auto simp: fdiv_Inr intro!: to_float_gt_0)

lemma sum_left_fair: "fair_sum sum_left"
proof -
  have "0 \<le> fold (\<lambda>x acc. fadd acc x) xs a \<and>
      (fold (\<lambda>x acc. fadd acc x) xs a = 0 \<longleftrightarrow> a = 0 \<and> (\<forall>x \<in> set xs. x = 0))"
    if "\<forall>x \<in> set xs. 0 \<le> x" and "0 \<le> a" for xs a
    using that
  proof (induction xs arbitrary: a)
    case (Cons x xs)
    have x: "0 \<le> x" "\<forall>x \<in> set xs. 0 \<le> x" using Cons.prems by simp_all
    have "0 \<le> fadd a x" "fadd a x = 0 \<longleftrightarrow> a = 0 \<and> x = 0"
      using x Cons.prems by (auto simp: fadd_def to_float_nonneg to_float_eq_0)
    with Cons.IH [OF x(2), of "fadd a x"] show ?case by simp
  qed simp
  from this [of _ 0] show ?thesis by (simp add: fair_sum_def sum_left_def)
qed

section \<open>Evaluation\<close>

text \<open>Rounding by integer division, for evaluation with the code equations.\<close>

definition round_div :: "int \<Rightarrow> int \<Rightarrow> int" where
  "round_div a b =
     (let q = a div b; r = 2 * (a mod b)
      in if r < b then q else if b < r then q + 1 else if even q then q else q + 1)"

lemma round_div_half_even:
  assumes "0 < b"
  shows "round_half_even (of_int a / of_int b) = round_div a b"
proof -
  have f: "\<lfloor>of_int a / of_int b :: rat\<rfloor> = a div b" by (rule floor_divide_of_int_eq)
  have "a = a div b * b + a mod b" by simp
  then have "(of_int a :: rat) = of_int (a div b) * of_int b + of_int (a mod b)"
    by (metis of_int_add of_int_mult)
  then have d: "of_int a / of_int b - of_int (a div b) = (of_int (a mod b) / of_int b :: rat)"
    using assms by (simp add: add_divide_distrib)
  have "((of_int (2 * (a mod b)) :: rat) < of_int b) = (2 * (a mod b) < b)"
    "((of_int b :: rat) < of_int (2 * (a mod b))) = (b < 2 * (a mod b))"
    by (simp_all only: of_int_less_iff)
  then have l: "(of_int (a mod b) / of_int b < (1 / 2 :: rat)) = (2 * (a mod b) < b)"
    "((1 / 2 :: rat) < of_int (a mod b) / of_int b) = (b < 2 * (a mod b))"
    using assms by (simp_all add: field_simps)
  show ?thesis unfolding round_half_even_def round_div_def Let_def f d l by (rule refl)
qed

definition float_value :: "int \<Rightarrow> int \<Rightarrow> rat" where
  "float_value a b =
     (let e0 = bitlen a - bitlen b - 53; k = e0 + 53;
          e = (if (if 0 \<le> k then a < b * 2 ^ nat k else a * 2 ^ nat (- k) < b) then e0 else e0 + 1)
      in if 0 \<le> e then of_int (round_div a (b * 2 ^ nat e) * 2 ^ nat e)
         else of_int (round_div (a * 2 ^ nat (- e)) b) / of_int (2 ^ nat (- e)))"

lemma float_value_correct:
  assumes "0 < a" and "0 < b" and q: "quotient_of x = (a, b)"
  shows "to_float x = float_value a b"
proof -
  have x: "x = of_int a / of_int b" by (rule quotient_of_div [OF q])
  have bp: "0 < (of_int b :: rat)" using assms by simp
  have xp: "0 < x" using assms by (simp add: x)
  define e0 where "e0 = bitlen a - bitlen b - 53"
  define k where "k = e0 + 53"
  have less: "x < pow2 k \<longleftrightarrow> (if 0 \<le> k then a < b * 2 ^ nat k else a * 2 ^ nat (- k) < b)"
  proof (cases "0 \<le> k")
    case True
    have "x < 2 ^ nat k \<longleftrightarrow> (of_int a :: rat) < of_int (b * 2 ^ nat k)"
      using bp by (simp add: x divide_less_eq mult.commute)
    also have "\<dots> \<longleftrightarrow> a < b * 2 ^ nat k" by (simp only: of_int_less_iff)
    finally show ?thesis using True by (simp add: pow2_def)
  next
    case False
    have "x < 1 / 2 ^ nat (- k) \<longleftrightarrow> (of_int (a * 2 ^ nat (- k)) :: rat) < of_int b"
      using bp by (simp add: x field_simps)
    also have "\<dots> \<longleftrightarrow> a * 2 ^ nat (- k) < b" by (simp only: of_int_less_iff)
    finally show ?thesis using False by (simp add: pow2_def)
  qed
  define e where "e = (if x < pow2 k then e0 else e0 + 1)"
  have e: "float_exponent x = e"
    by (simp add: float_exponent_def q e_def e0_def k_def Let_def)
  have "of_int (round_half_even (x / pow2 e)) * pow2 e =
      (if 0 \<le> e then of_int (round_div a (b * 2 ^ nat e) * 2 ^ nat e)
       else of_int (round_div (a * 2 ^ nat (- e)) b) / of_int (2 ^ nat (- e)))"
  proof (cases "0 \<le> e")
    case True
    have "x / pow2 e = of_int a / of_int (b * 2 ^ nat e)" using True by (simp add: x pow2_def)
    then show ?thesis
      using True assms(2) round_div_half_even [of "b * 2 ^ nat e" a] by (simp add: pow2_def)
  next
    case False
    have "x / pow2 e = of_int (a * 2 ^ nat (- e)) / of_int b" using False by (simp add: x pow2_def)
    then show ?thesis
      using False assms(2) round_div_half_even [of b "a * 2 ^ nat (- e)"] by (simp add: pow2_def)
  qed
  moreover have "e = (if (if 0 \<le> k then a < b * 2 ^ nat k else a * 2 ^ nat (- k) < b) then e0 else e0 + 1)"
    by (simp only: e_def less)
  ultimately show ?thesis
    by (simp only: to_float_pos [OF xp] e float_value_def Let_def k_def e0_def)
qed

lemma to_float_code [code]:
  "to_float x =
     (let (a, b) = quotient_of x
      in if a = 0 then 0 else if 0 < a then float_value a b else - float_value (- a) b)"
proof -
  obtain a b where q: "quotient_of x = (a, b)" by fastforce
  have x: "x = of_int a / of_int b" and b: "0 < b"
    by (rule quotient_of_div [OF q], rule quotient_of_denom_pos [OF q])
  consider "a = 0" | "0 < a" | "a < 0" by linarith
  then show ?thesis
  proof cases
    case 1
    then show ?thesis by (simp add: x q)
  next
    case 2
    then show ?thesis using float_value_correct [OF 2 b q] by (simp add: q)
  next
    case 3
    have qm: "quotient_of (- x) = (- a, b)" using q by (simp add: rat_uminus_code)
    have "x < 0" using 3 b by (simp add: x divide_less_0_iff)
    then have "to_float x = - to_float (- x)" by (simp add: to_float_def Let_def)
    then show ?thesis using float_value_correct [OF _ b qm] 3 by (simp add: q)
  qed
qed

text \<open>The two summations differ.\<close>

lemma sum_versions_differ:
  "sum_left [1, 1 / 2 ^ 53, 1 / 2 ^ 53] = 1"
  "sum_compensated [1, 1 / 2 ^ 53, 1 / 2 ^ 53] = 1 + 1 / 2 ^ 52"
  by code_simp+

end
