(* ===== verification/Cycles_Cache.thy ===== *)
theory Cycles_Cache
  imports Period_Service
begin

text \<open>
  \<open>CyclesInDaoStateService\<close> (\<open>bisq/core/dao/cycles_in_dao_state_service.py\<close>): which cycle a height
  lies in, its index, and the height at the same offset in a past cycle, with three dictionaries of
  cached answers.  The class \<open>Cycle\<close> has no \<open>__eq__\<close>, so \<open>list.index\<close> and the dictionary keyed by a
  cycle compare objects: a cycle object is the cycle together with its identity.  The reference
  definitions below say what the service answers when the cached objects are those of the state.
\<close>

section \<open>The service\<close>

type_synonym cycle_object = "nat \<times> cycle"

record cycles_in_dao =
  dao_cycles :: "cycle_object list"
  cycles_by_height :: "int \<rightharpoonup> cycle_object"
  index_by_cycle :: "nat \<rightharpoonup> int"
  cycles_by_index :: "int \<rightharpoonup> cycle_object"

definition covers :: "int \<Rightarrow> cycle \<Rightarrow> bool" where
  "covers h c \<longleftrightarrow> cyc_height_of_first_block c \<le> h \<and> h \<le> height_of_last_block c"

definition first_position :: "('a \<Rightarrow> bool) \<Rightarrow> 'a list \<Rightarrow> nat" where
  "first_position P xs = length (takeWhile (\<lambda>x. \<not> P x) xs)"

text \<open>\<open>cycles.index(cycle)\<close>, by identity.\<close>

definition cycle_service_index :: "cycles_in_dao \<Rightarrow> cycle_object \<Rightarrow> int res" where
  "cycle_service_index c x =
     (if \<exists>y \<in> set (dao_cycles c). fst y = fst x
      then Inr (int (first_position (\<lambda>y. fst y = fst x) (dao_cycles c))) else Inl Value_Error)"

definition find_cycle_at_height :: "int \<Rightarrow> (cycles_in_dao, cycle_object option) action" where
  "find_cycle_at_height h c =
     (case cycles_by_height c h of
        Some x \<Rightarrow> (Inr (Some x), c)
      | None \<Rightarrow>
          (case find (\<lambda>x. covers h (snd x)) (dao_cycles c) of
             Some x \<Rightarrow> (Inr (Some x), c\<lparr>cycles_by_height := (cycles_by_height c)(h \<mapsto> x)\<rparr>)
           | None \<Rightarrow> (Inr None, c)))"

definition get_cycle_index_at_chain_height :: "int \<Rightarrow> (cycles_in_dao, int) action" where
  "get_cycle_index_at_chain_height h =
     abind (find_cycle_at_height h) (\<lambda>x.
       case x of Some x \<Rightarrow> query (\<lambda>c. cycle_service_index c x) | None \<Rightarrow> raise Illegal_State)"

definition get_index_for_cycle :: "cycle_object \<Rightarrow> (cycles_in_dao, int) action" where
  "get_index_for_cycle x c =
     (case index_by_cycle c (fst x) of
        Some i \<Rightarrow> (Inr i, c)
      | None \<Rightarrow>
          abind (query (\<lambda>c. cycle_service_index c x)) (\<lambda>i.
            abind (modify (\<lambda>c. c\<lparr>index_by_cycle := (index_by_cycle c)(fst x \<mapsto> i)\<rparr>)) (\<lambda>_. return i)) c)"

text \<open>\<open>dao_state_service.get_cycle_at_index\<close> indexes the list.\<close>

definition get_cycle_at_index :: "int \<Rightarrow> (cycles_in_dao, cycle_object) action" where
  "get_cycle_at_index i =
     abind (query (\<lambda>_. check (0 \<le> i) Illegal_Argument)) (\<lambda>_ c.
       case cycles_by_index c i of
         Some x \<Rightarrow> (Inr x, c)
       | None \<Rightarrow>
           abind (query (\<lambda>c. py_nth (dao_cycles c) (nat i))) (\<lambda>x.
             abind (modify (\<lambda>c. c\<lparr>cycles_by_index := (cycles_by_index c)(i \<mapsto> x)\<rparr>)) (\<lambda>_. return x)) c)"

definition get_height_of_first_block_of_past_cycle ::
  "int \<Rightarrow> int \<Rightarrow> int \<Rightarrow> (cycles_in_dao, int) action" where
  "get_height_of_first_block_of_past_cycle genesis h num_past_cycles =
     abind (find_cycle_at_height h) (\<lambda>x.
       case x of
         None \<Rightarrow> return genesis
       | Some x \<Rightarrow>
           abind (get_index_for_cycle x) (\<lambda>i.
             if 0 < i - num_past_cycles
             then abind (get_cycle_at_index (i - num_past_cycles)) (\<lambda>y.
                    return (cyc_height_of_first_block (snd y)))
             else return genesis))"

definition get_offset_from_first_block_in_cycle :: "cycles_in_dao \<Rightarrow> int \<Rightarrow> int" where
  "get_offset_from_first_block_in_cycle c h =
     (case find (\<lambda>x. covers h (snd x)) (dao_cycles c) of
        Some x \<Rightarrow> h - cyc_height_of_first_block (snd x) | None \<Rightarrow> 0)"

definition get_chain_height_of_past_cycle :: "int \<Rightarrow> int \<Rightarrow> int \<Rightarrow> (cycles_in_dao, int) action" where
  "get_chain_height_of_past_cycle genesis h num_past_cycles =
     abind (get_height_of_first_block_of_past_cycle genesis h num_past_cycles) (\<lambda>f.
       if f = genesis then return f
       else query (\<lambda>c. Inr (f + get_offset_from_first_block_in_cycle c h)))"

section \<open>What it answers\<close>

definition cycle_index_at :: "'a dao_state_scheme \<Rightarrow> int \<Rightarrow> int res" where
  "cycle_index_at s h =
     (if \<exists>c \<in> set (cycles s). covers h c then Inr (int (first_position (covers h) (cycles s)))
      else Inl Illegal_State)"

definition first_block_of_past_cycle :: "'a dao_service_scheme \<Rightarrow> int \<Rightarrow> nat \<Rightarrow> int" where
  "first_block_of_past_cycle s h n =
     (let i = first_position (covers h) (cycles s)
      in if (\<exists>c \<in> set (cycles s). covers h c) \<and> n < i
         then cyc_height_of_first_block (cycles s ! (i - n)) else genesis_block_height s)"

definition height_of_past_cycle :: "'a dao_service_scheme \<Rightarrow> int \<Rightarrow> nat \<Rightarrow> int" where
  "height_of_past_cycle s h n =
     (let f = first_block_of_past_cycle s h n
      in if f = genesis_block_height s then f
         else f + (case get_cycle s h of Some c \<Rightarrow> h - cyc_height_of_first_block c | None \<Rightarrow> 0))"

lemma first_position_props:
  assumes "\<exists>x \<in> set xs. P x"
  shows "first_position P xs < length xs" and "P (xs ! first_position P xs)"
    and "find P xs = Some (xs ! first_position P xs)"
proof -
  show "first_position P xs < length xs"
    using assms by (induction xs) (auto simp: first_position_def)
  show "P (xs ! first_position P xs)"
    using assms by (induction xs) (auto simp: first_position_def)
  show "find P xs = Some (xs ! first_position P xs)"
    using assms by (induction xs) (auto simp: first_position_def)
qed

lemma first_position_unique:
  assumes "distinct (map f xs)" and "i < length xs"
  shows "first_position (\<lambda>x. f x = f (xs ! i)) xs = i"
proof -
  let ?P = "\<lambda>x. f x = f (xs ! i)"
  have e: "\<exists>x \<in> set xs. ?P x" using assms(2) nth_mem by blast
  have "f (xs ! first_position ?P xs) = f (xs ! i)" by (rule first_position_props(2) [OF e])
  then have "map f xs ! first_position ?P xs = map f xs ! i"
    using first_position_props(1) [OF e] assms(2) by simp
  then show ?thesis
    using first_position_props(1) [OF e] assms by (simp only: nth_eq_iff_index_eq length_map)
qed

lemma first_position_append:
  "\<exists>x \<in> set xs. P x \<Longrightarrow> first_position P (xs @ ys) = first_position P xs"
  by (auto simp: first_position_def takeWhile_append)

lemma first_position_map: "first_position P (map f xs) = first_position (\<lambda>x. P (f x)) xs"
  by (induction xs) (auto simp: first_position_def)

section \<open>The caches are sound while the objects are the state's\<close>

definition cycle_cache_ok :: "cycles_in_dao \<Rightarrow> bool" where
  "cycle_cache_ok c \<longleftrightarrow>
     distinct (map fst (dao_cycles c)) \<and>
     (\<forall>h x. cycles_by_height c h = Some x \<longrightarrow> find (\<lambda>y. covers h (snd y)) (dao_cycles c) = Some x) \<and>
     (\<forall>k i. index_by_cycle c k = Some i \<longrightarrow>
        (\<exists>y \<in> set (dao_cycles c). fst y = k) \<and> i = int (first_position (\<lambda>y. fst y = k) (dao_cycles c))) \<and>
     (\<forall>i x. cycles_by_index c i = Some x \<longrightarrow> py_nth (dao_cycles c) (nat i) = Inr x)"

definition same_cycles :: "cycles_in_dao \<Rightarrow> cycles_in_dao \<Rightarrow> bool" where
  "same_cycles c d \<longleftrightarrow> cycle_cache_ok d \<and> dao_cycles d = dao_cycles c"

lemma find_cycle_at_height_cached:
  assumes "cycle_cache_ok c"
  shows "\<exists>d. find_cycle_at_height h c = (Inr (find (\<lambda>y. covers h (snd y)) (dao_cycles c)), d) \<and> same_cycles c d"
  using assms
  by (auto simp: find_cycle_at_height_def cycle_cache_ok_def same_cycles_def split: option.splits)

lemma found_index:
  assumes "cycle_cache_ok c" and "find (\<lambda>y. covers h (snd y)) (dao_cycles c) = Some x"
  shows "cycle_service_index c x = Inr (int (first_position (\<lambda>y. covers h (snd y)) (dao_cycles c)))"
    and "first_position (\<lambda>y. covers h (snd y)) (dao_cycles c) < length (dao_cycles c)"
    and "x = dao_cycles c ! first_position (\<lambda>y. covers h (snd y)) (dao_cycles c)"
proof -
  let ?P = "\<lambda>y. covers h (snd y)"
  have ex: "\<exists>y \<in> set (dao_cycles c). ?P y"
    using assms(2) by (auto simp: find_Some_iff)
  note p = first_position_props [OF ex]
  have x: "x = dao_cycles c ! first_position ?P (dao_cycles c)" using p(3) assms(2) by simp
  have "first_position (\<lambda>y. fst y = fst x) (dao_cycles c) = first_position ?P (dao_cycles c)"
    unfolding x using assms(1) p(1) by (intro first_position_unique) (simp_all add: cycle_cache_ok_def)
  moreover have "x \<in> set (dao_cycles c)" using x p(1) by simp
  ultimately show "cycle_service_index c x = Inr (int (first_position ?P (dao_cycles c)))"
    by (auto simp: cycle_service_index_def)
  show "first_position ?P (dao_cycles c) < length (dao_cycles c)" by (rule p(1))
  show "x = dao_cycles c ! first_position ?P (dao_cycles c)" by (rule x)
qed

lemma get_index_for_cycle_cached:
  assumes "cycle_cache_ok c" and "find (\<lambda>y. covers h (snd y)) (dao_cycles c) = Some x"
  shows "\<exists>d. get_index_for_cycle x c =
      (Inr (int (first_position (\<lambda>y. covers h (snd y)) (dao_cycles c))), d) \<and> same_cycles c d"
proof (cases "index_by_cycle c (fst x)")
  case None
  have "x \<in> set (dao_cycles c)" using found_index [OF assms] by auto
  then show ?thesis
    using None found_index [OF assms] assms(1)
    by (auto simp: get_index_for_cycle_def action_defs cycle_cache_ok_def same_cycles_def
        cycle_service_index_def split: if_splits)
next
  case (Some i)
  then have "cycle_service_index c x = Inr i"
    using assms(1) by (auto simp: cycle_cache_ok_def cycle_service_index_def)
  then show ?thesis
    using Some found_index(1) [OF assms] assms(1) by (simp add: get_index_for_cycle_def same_cycles_def)
qed

lemma get_cycle_at_index_cached:
  assumes "cycle_cache_ok c" and "0 \<le> i" and "nat i < length (dao_cycles c)"
  shows "\<exists>d. get_cycle_at_index i c = (Inr (dao_cycles c ! nat i), d) \<and> same_cycles c d"
  using assms
  by (auto simp: get_cycle_at_index_def action_defs check_def py_nth_def cycle_cache_ok_def
      same_cycles_def split: option.splits if_splits)

lemma same_cycles_trans: "same_cycles c d \<Longrightarrow> same_cycles d e \<Longrightarrow> same_cycles c e"
  by (simp add: same_cycles_def)

lemma ex_covers_map: "(\<exists>c \<in> set (map snd xs). covers h c) \<longleftrightarrow> (\<exists>y \<in> set xs. covers h (snd y))"
  by auto

lemma cycle_index_cached:
  assumes "cycle_cache_ok c" and "cycles s = map snd (dao_cycles c)"
  shows "\<exists>d. get_cycle_index_at_chain_height h c = (cycle_index_at s h, d) \<and> same_cycles c d"
proof -
  let ?P = "\<lambda>y. covers h (snd y)"
  obtain d where d: "find_cycle_at_height h c = (Inr (find ?P (dao_cycles c)), d)" "same_cycles c d"
    using find_cycle_at_height_cached [OF assms(1)] by blast
  show ?thesis
  proof (cases "find ?P (dao_cycles c)")
    case None
    then have "\<not> (\<exists>y \<in> set (dao_cycles c). ?P y)" by (auto simp: find_None_iff)
    then have "cycle_index_at s h = Inl Illegal_State"
      by (simp add: cycle_index_at_def assms(2) ex_covers_map del: set_map)
    then show ?thesis using d None by (simp add: get_cycle_index_at_chain_height_def action_defs)
  next
    case (Some x)
    have dd: "dao_cycles d = dao_cycles c" using d(2) by (simp add: same_cycles_def)
    have "cycle_service_index d x = Inr (int (first_position ?P (dao_cycles c)))"
      using found_index(1) [of d h x] d(2) Some by (simp add: dd same_cycles_def)
    moreover have "\<exists>y \<in> set (dao_cycles c). ?P y" using Some by (auto simp: find_Some_iff)
    ultimately show ?thesis
      using d Some
      by (simp add: get_cycle_index_at_chain_height_def action_defs cycle_index_at_def assms(2)
          first_position_map ex_covers_map del: set_map)
  qed
qed

lemma first_block_cached:
  assumes "cycle_cache_ok c" and "cycles s = map snd (dao_cycles c)"
  shows "\<exists>d. get_height_of_first_block_of_past_cycle (genesis_block_height s) h (int n) c =
      (Inr (first_block_of_past_cycle s h n), d) \<and> same_cycles c d"
proof -
  let ?P = "\<lambda>y. covers h (snd y)" and ?xs = "dao_cycles c"
  obtain d where d: "find_cycle_at_height h c = (Inr (find ?P ?xs), d)" "same_cycles c d"
    using find_cycle_at_height_cached [OF assms(1)] by blast
  have dd: "dao_cycles d = ?xs" "cycle_cache_ok d" using d(2) by (simp_all add: same_cycles_def)
  show ?thesis
  proof (cases "find ?P ?xs")
    case None
    then have "\<not> (\<exists>y \<in> set ?xs. ?P y)" by (auto simp: find_None_iff)
    then have "first_block_of_past_cycle s h n = genesis_block_height s"
      by (simp add: first_block_of_past_cycle_def assms(2) ex_covers_map del: set_map)
    then show ?thesis
      using d None by (simp add: get_height_of_first_block_of_past_cycle_def action_defs)
  next
    case (Some x)
    let ?i = "first_position ?P ?xs"
    have ex: "\<exists>y \<in> set ?xs. ?P y" using Some by (auto simp: find_Some_iff)
    have i: "?i < length ?xs" by (rule first_position_props(1) [OF ex])
    obtain e where e: "get_index_for_cycle x d = (Inr (int ?i), e)" "same_cycles d e"
      using get_index_for_cycle_cached [OF dd(2), of h x] Some by (auto simp: dd(1))
    have ee: "dao_cycles e = ?xs" "cycle_cache_ok e" using e(2) dd by (simp_all add: same_cycles_def)
    have ref: "first_block_of_past_cycle s h n =
        (if n < ?i then cyc_height_of_first_block (snd (?xs ! (?i - n))) else genesis_block_height s)"
      using ex i by (simp add: first_block_of_past_cycle_def assms(2) first_position_map Let_def
          ex_covers_map less_imp_diff_less del: set_map)
    show ?thesis
    proof (cases "n < ?i")
      case True
      then have ni: "int ?i - int n = int (?i - n)" by (simp add: of_nat_diff)
      obtain f where f: "get_cycle_at_index (int (?i - n)) e = (Inr (?xs ! (?i - n)), f)" "same_cycles e f"
      proof -
        have "\<exists>f. get_cycle_at_index (int (?i - n)) e = (Inr (?xs ! (?i - n)), f) \<and> same_cycles e f"
          using get_cycle_at_index_cached [OF ee(2), of "int (?i - n)"] i by (simp add: ee(1))
        then show thesis using that by blast
      qed
      have "same_cycles c f" using d(2) e(2) f(2) same_cycles_trans by blast
      then show ?thesis
        using Some True
        by (simp add: get_height_of_first_block_of_past_cycle_def action_defs ref d(1) e(1) f(1) [folded ni])
    next
      case False
      have "same_cycles c e" using d(2) e(2) same_cycles_trans by blast
      then show ?thesis
        using Some False
        by (simp add: get_height_of_first_block_of_past_cycle_def action_defs ref d(1) e(1))
    qed
  qed
qed

lemma find_covers_map: "find (covers h) (map snd xs) = map_option snd (find (\<lambda>y. covers h (snd y)) xs)"
  by (induction xs) auto

lemma get_cycle_covers: "get_cycle s h = find (covers h) (cycles s)"
  by (simp add: get_cycle_def find_cycle_def covers_def [abs_def])

lemma past_height_cached:
  assumes "cycle_cache_ok c" and "cycles s = map snd (dao_cycles c)"
  shows "\<exists>d. get_chain_height_of_past_cycle (genesis_block_height s) h (int n) c =
      (Inr (height_of_past_cycle s h n), d) \<and> same_cycles c d"
proof -
  obtain d where d: "get_height_of_first_block_of_past_cycle (genesis_block_height s) h (int n) c =
      (Inr (first_block_of_past_cycle s h n), d)" "same_cycles c d"
    using first_block_cached [OF assms] by blast
  have "get_offset_from_first_block_in_cycle d h =
      (case get_cycle s h of Some c \<Rightarrow> h - cyc_height_of_first_block c | None \<Rightarrow> 0)"
    using d(2) by (simp add: get_offset_from_first_block_in_cycle_def get_cycle_covers assms(2)
        find_covers_map same_cycles_def split: option.split)
  then have "get_chain_height_of_past_cycle (genesis_block_height s) h (int n) c =
      (Inr (height_of_past_cycle s h n), d)"
    by (simp add: get_chain_height_of_past_cycle_def action_defs d(1) height_of_past_cycle_def Let_def)
  then show ?thesis using d(2) by blast
qed

text \<open>A new cycle at the end keeps the caches sound.\<close>

lemma find_append_Some: "find P xs = Some x \<Longrightarrow> find P (xs @ ys) = Some x"
  by (induction xs) (auto split: if_splits)

lemma new_cycle_keeps_cache:
  assumes "cycle_cache_ok c" and "k \<notin> fst ` set (dao_cycles c)"
  shows "cycle_cache_ok (c\<lparr>dao_cycles := dao_cycles c @ [(k, y)]\<rparr>)"
  using assms
  by (auto simp: cycle_cache_ok_def find_append_Some first_position_append py_nth_def nth_append
      split: if_splits)

text \<open>A snapshot puts other objects in the list, and the caches are not cleared.\<close>

definition cycles_of_snapshot :: "cycle_object list \<Rightarrow> cycles_in_dao \<Rightarrow> cycles_in_dao" where
  "cycles_of_snapshot xs c = c\<lparr>dao_cycles := xs\<rparr>"

lemma cached_object_is_stale:
  assumes "cycles_by_height c h = Some x" and "fst x \<notin> fst ` set xs"
  shows "fst (get_cycle_index_at_chain_height h (cycles_of_snapshot xs c)) = Inl Value_Error"
  using assms
  by (auto simp: get_cycle_index_at_chain_height_def find_cycle_at_height_def action_defs
      cycles_of_snapshot_def cycle_service_index_def image_iff)

end
