(* ===== verification/Burning_Man.thy ===== *)
theory Burning_Man
  imports Float_Ops Cycles_Cache Gov_State Op_Return
begin

text \<open>
  The burning men (\<open>bisq/core/dao/burningman\<close>): the models of \<open>burningman/model\<close> and
  \<open>burning_man_service.py\<close>, which computes from the compensation requests, the genesis outputs and
  the proofs of burn the share of the trade payouts and fees that each contributor receives.  A set of
  Python objects is the list of its members in the order they were added; \<open>burn_env\<close> adds to
  \<open>gov_env\<close> the orders in which the sets are iterated, the summation of floats and the start of the
  month of a date.  The cached validity of the receiver address is recomputed: the code clears the
  cache whenever the address may change.
\<close>

section \<open>Models\<close>

record compensation_model =
  cm_address :: "string option"
  cm_is_custom_address :: bool
  cm_amount :: int
  cm_decayed_amount :: int
  cm_height :: int
  cm_tx_id :: string
  cm_output_index :: "int option"
  cm_date :: int
  cm_cycle_index :: int

definition from_compensation_request ::
  "string \<Rightarrow> bool \<Rightarrow> int \<Rightarrow> int \<Rightarrow> int \<Rightarrow> string \<Rightarrow> int \<Rightarrow> int \<Rightarrow> compensation_model" where
  "from_compensation_request a custom amount decayed h i d n =
     \<lparr>cm_address = Some a, cm_is_custom_address = custom, cm_amount = amount,
      cm_decayed_amount = decayed, cm_height = h, cm_tx_id = i, cm_output_index = None,
      cm_date = d, cm_cycle_index = n\<rparr>"

definition from_genesis_output ::
  "string option \<Rightarrow> int \<Rightarrow> int \<Rightarrow> int \<Rightarrow> string \<Rightarrow> int \<Rightarrow> int \<Rightarrow> compensation_model" where
  "from_genesis_output a amount decayed h i n d =
     \<lparr>cm_address = a, cm_is_custom_address = False, cm_amount = amount,
      cm_decayed_amount = decayed, cm_height = h, cm_tx_id = i, cm_output_index = Some n,
      cm_date = d, cm_cycle_index = 0\<rparr>"

record burn_output_model =
  bo_amount :: int
  bo_decayed_amount :: int
  bo_height :: int
  bo_tx_id :: string
  bo_date :: int
  bo_cycle_index :: int

record candidate =
  bm_compensation_models :: "compensation_model list"
  bm_compensation_amount :: int
  bm_decayed_compensation_amount :: int
  bm_compensation_share :: rat
  bm_receiver_address :: "string option"
  bm_most_recent_address :: "string option"
  bm_burn_output_models :: "burn_output_model list"
  bm_burn_output_models_by_month :: "int \<rightharpoonup> burn_output_model list"
  bm_burn_amount :: int
  bm_decayed_burn_amount :: int
  bm_burn_amount_share :: rat
  bm_capped_burn_amount_share :: rat
  bm_adjusted_burn_amount_share :: rat
  bm_round_capped :: "int option"

definition new_candidate :: candidate where
  "new_candidate =
     \<lparr>bm_compensation_models = [], bm_compensation_amount = 0, bm_decayed_compensation_amount = 0,
      bm_compensation_share = 0, bm_receiver_address = None, bm_most_recent_address = None,
      bm_burn_output_models = [], bm_burn_output_models_by_month = Map.empty, bm_burn_amount = 0,
      bm_decayed_burn_amount = 0, bm_burn_amount_share = 0, bm_capped_burn_amount_share = 0,
      bm_adjusted_burn_amount_share = 0, bm_round_capped = None\<rparr>"

text \<open>\<open>parse_btc_address\<close> is \<open>Address.from_string(input_str, parameters).output_script_type\<close> of the address
  classes of \<open>bitcoinj\<close> and \<open>electrum_min\<close>, with the exception it raises.\<close>

record burn_env = gov_env +
  parse_btc_address :: "string \<Rightarrow> unit res"
  float_sum :: "rat list \<Rightarrow> rat"
  order_models :: "compensation_model list \<Rightarrow> compensation_model list"
  order_txs :: "tx set \<Rightarrow> tx list"
  start_of_month :: "int \<Rightarrow> int"

definition fair_burn_order :: "'a burn_env_scheme \<Rightarrow> bool" where
  "fair_burn_order env \<longleftrightarrow>
     (\<forall>xs. set (order_models env xs) = set xs) \<and>
     (\<forall>S. finite S \<longrightarrow> set (order_txs env S) = S \<and> distinct (order_txs env S)) \<and>
     (\<forall>S. finite S \<longrightarrow> set (order_outputs env S) = S \<and> distinct (order_outputs env S))"

section \<open>\<open>BurningManCandidate\<close>\<close>

subsection \<open>Adding models\<close>

definition add_burn_output_model ::
  "'a burn_env_scheme \<Rightarrow> burn_output_model \<Rightarrow> candidate \<Rightarrow> candidate" where
  "add_burn_output_model env b c =
     (if b \<in> set (bm_burn_output_models c) then c
      else
        let month = start_of_month env (bo_date b);
            old = (case bm_burn_output_models_by_month c month of Some bs \<Rightarrow> bs | None \<Rightarrow> [])
        in c\<lparr>bm_burn_output_models := bm_burn_output_models c @ [b],
             bm_burn_output_models_by_month :=
               (bm_burn_output_models_by_month c)(month \<mapsto> if b \<in> set old then old else old @ [b]),
             bm_decayed_burn_amount := bm_decayed_burn_amount c + bo_decayed_amount b,
             bm_burn_amount := bm_burn_amount c + bo_amount b\<rparr>)"

text \<open>Comparing addresses, one of which may be \<open>None\<close>: Python's order of strings and Java's.\<close>

definition address_less :: "string option \<Rightarrow> string option \<Rightarrow> bool res" where
  "address_less a b = (case (a, b) of (Some x, Some y) \<Rightarrow> Inr (x < y) | _ \<Rightarrow> Inl Type_Error)"

definition address_java_less :: "string option \<Rightarrow> string option \<Rightarrow> bool res" where
  "address_java_less a b =
     (case (a, b) of (Some x, Some y) \<Rightarrow> Inr (java_string_compare x y < 0) | _ \<Rightarrow> Inl Type_Error)"

text \<open>The most recent custom address, the smallest of one height.\<close>

definition custom_step ::
  "compensation_model \<Rightarrow> compensation_model option \<Rightarrow> compensation_model option res" where
  "custom_step m highest =
     (if \<not> cm_is_custom_address m then Inr highest
      else case highest of
        None \<Rightarrow> Inr (Some m)
      | Some x \<Rightarrow>
          if cm_height x < cm_height m then Inr (Some m)
          else if cm_height m = cm_height x
          then rbind (address_less (cm_address m) (cm_address x)) (\<lambda>b.
                 Inr (if b then Some m else highest))
          else Inr highest)"

text \<open>\<open>min(models, key=(height, java_cmp_str(address)))\<close>.\<close>

definition earliest_step :: "compensation_model \<Rightarrow> compensation_model \<Rightarrow> compensation_model res" where
  "earliest_step m x =
     rbind (if cm_height m \<noteq> cm_height x then Inr (cm_height m < cm_height x)
            else address_java_less (cm_address m) (cm_address x)) (\<lambda>b.
       Inr (if b then m else x))"

definition find_receiver_address :: "compensation_model list \<Rightarrow> string option res" where
  "find_receiver_address ms =
     (if \<exists>m \<in> set ms. cm_is_custom_address m
      then rbind (fold_res custom_step ms None) (\<lambda>highest.
             Inr (case highest of Some m \<Rightarrow> cm_address m | None \<Rightarrow> None))
      else case ms of
        [] \<Rightarrow> Inl Value_Error
      | m # rest \<Rightarrow> rbind (fold_res earliest_step rest m) (\<lambda>x. Inr (cm_address x)))"

definition latest_of :: "compensation_model list \<Rightarrow> compensation_model res" where
  "latest_of ms =
     (case ms of
        [] \<Rightarrow> Inl Value_Error
      | m # rest \<Rightarrow> Inr (fold (\<lambda>x cur. if cm_height cur < cm_height x then x else cur) rest m))"

definition add_compensation_model ::
  "'a burn_env_scheme \<Rightarrow> compensation_model \<Rightarrow> candidate \<Rightarrow> candidate res" where
  "add_compensation_model env m c =
     (if m \<in> set (bm_compensation_models c) then Inr c
      else
        let models = bm_compensation_models c @ [m]
        in rbind (find_receiver_address (order_models env models)) (\<lambda>a.
             rbind (latest_of (order_models env models)) (\<lambda>l.
               Inr (c\<lparr>bm_compensation_models := models,
                      bm_decayed_compensation_amount :=
                        bm_decayed_compensation_amount c + cm_decayed_amount m,
                      bm_compensation_amount := bm_compensation_amount c + cm_amount m,
                      bm_receiver_address := a,
                      bm_most_recent_address := cm_address l\<rparr>))))"

subsection \<open>Shares and caps\<close>

definition get_receiver_address :: "candidate \<Rightarrow> bool \<Rightarrow> string option" where
  "get_receiver_address c is_bugfix_6699_activated =
     (if is_bugfix_6699_activated then bm_receiver_address c else bm_most_recent_address c)"

text \<open>\<open>BtcAddressValidator\<close> answers \<open>False\<close> for an \<open>AddressFormatException\<close> (an address of another network)
  and an \<open>IllegalStateException\<close> only; any other exception of the parsers (\<open>InvalidChecksum\<close>,
  \<open>BaseDecodeError\<close>, \<open>UnicodeEncodeError\<close>) leaves it.  Its \<open>allow_empty\<close> is \<open>False\<close>.\<close>

definition validate_btc_address :: "'a burn_env_scheme \<Rightarrow> string \<Rightarrow> bool res" where
  "validate_btc_address env a =
     (case parse_btc_address env a of
        Inr _ \<Rightarrow> Inr True
      | Inl e \<Rightarrow> if e = Address_Format_Exception \<or> e = Illegal_State then Inr False else Inl e)"


definition is_receiver_address_valid :: "'a burn_env_scheme \<Rightarrow> candidate \<Rightarrow> bool res" where
  "is_receiver_address_valid env c =
     (case bm_receiver_address c of
        None \<Rightarrow> Inr False
      | Some a \<Rightarrow> if py_strip a = [] then Inr False else validate_btc_address env a)"

definition get_all_addresses :: "candidate \<Rightarrow> string option set" where
  "get_all_addresses c = set (map cm_address (bm_compensation_models c))"

definition calculate_shares :: "int \<Rightarrow> int \<Rightarrow> candidate \<Rightarrow> candidate" where
  "calculate_shares total_compensation total_burn c =
     c\<lparr>bm_compensation_share :=
         (if 0 < total_compensation
          then to_float (of_int (bm_decayed_compensation_amount c) / of_int total_compensation) else 0),
       bm_burn_amount_share :=
         (if 0 < total_burn
          then to_float (of_int (bm_decayed_burn_amount c) / of_int total_burn) else 0)\<rparr>"

definition impose_cap :: "int \<Rightarrow> rat \<Rightarrow> candidate \<Rightarrow> candidate" where
  "impose_cap capping_round adjusted c =
     c\<lparr>bm_round_capped := Some capping_round, bm_adjusted_burn_amount_share := adjusted\<rparr>"

definition ISSUANCE_BOOST_FACTOR :: rat where "ISSUANCE_BOOST_FACTOR = 10"

definition MAX_BURN_SHARE :: rat where "MAX_BURN_SHARE = to_float (11 / 100)"

definition get_max_boosted_compensation_share :: "'a burn_env_scheme \<Rightarrow> candidate \<Rightarrow> rat res" where
  "get_max_boosted_compensation_share env c =
     rbind (is_receiver_address_valid env c) (\<lambda>valid.
       Inr (if valid then min MAX_BURN_SHARE (fmul (bm_compensation_share c) ISSUANCE_BOOST_FACTOR) else 0))"

definition get_burn_cap_ratio :: "'a burn_env_scheme \<Rightarrow> candidate \<Rightarrow> rat res" where
  "get_burn_cap_ratio env c =
     (if 0 < bm_burn_amount_share c
      then rbind (get_max_boosted_compensation_share env c) (fdiv (bm_burn_amount_share c)) else Inr 0)"

definition calculate_capped_and_adjusted_shares ::
  "'a burn_env_scheme \<Rightarrow> rat \<Rightarrow> rat \<Rightarrow> int \<Rightarrow> candidate \<Rightarrow> candidate res" where
  "calculate_capped_and_adjusted_shares env sum_capped sum_non_capped num_rounds c =
     rbind (get_max_boosted_compensation_share env c) (\<lambda>cap. Inr
      (if bm_round_capped c \<noteq> None then c\<lparr>bm_capped_burn_amount_share := cap\<rparr>
      else
        let c1 = c\<lparr>bm_adjusted_burn_amount_share := bm_burn_amount_share c\<rparr>
        in if sum_capped = 0 then c1\<lparr>bm_capped_burn_amount_share := bm_burn_amount_share c\<rparr>
        else if sum_non_capped = 0 then c1\<lparr>bm_capped_burn_amount_share := bm_burn_amount_share c\<rparr>
        else
          let adjustment = to_float (fsub 1 sum_capped / sum_non_capped);
              adjusted = fmul (bm_burn_amount_share c) adjustment;
              c2 = c1\<lparr>bm_adjusted_burn_amount_share := adjusted\<rparr>
          in if adjusted < cap then c2\<lparr>bm_capped_burn_amount_share := adjusted\<rparr>
             else c2\<lparr>bm_capped_burn_amount_share := cap, bm_round_capped := Some num_rounds\<rparr>))"

subsection \<open>\<open>LegacyBurningMan\<close>\<close>

definition new_legacy_burning_man :: "string \<Rightarrow> candidate" where
  "new_legacy_burning_man a =
     new_candidate\<lparr>bm_receiver_address := Some a, bm_most_recent_address := Some a\<rparr>"

definition apply_burn_amount_share :: "rat \<Rightarrow> candidate \<Rightarrow> candidate" where
  "apply_burn_amount_share x c =
     c\<lparr>bm_burn_amount_share := x, bm_adjusted_burn_amount_share := x,
       bm_capped_burn_amount_share := x\<rparr>"

definition legacy_get_all_addresses :: "candidate \<Rightarrow> string option set" where
  "legacy_get_all_addresses c =
     (case get_receiver_address c True of
        Some a \<Rightarrow> if a = [] then {} else {Some a} | None \<Rightarrow> {})"

section \<open>\<open>BurningManService\<close>\<close>

definition NUM_CYCLES_COMP_REQUEST_DECAY :: nat where "NUM_CYCLES_COMP_REQUEST_DECAY = 24"
definition NUM_CYCLES_BURN_AMOUNT_DECAY :: nat where "NUM_CYCLES_BURN_AMOUNT_DECAY = 12"

definition GENESIS_OUTPUT_AMOUNT_FACTOR :: rat where
  "GENESIS_OUTPUT_AMOUNT_FACTOR = to_float (1 / 10)"

text \<open>Linear decay from the full amount at the current height to nothing at the past height.\<close>

definition get_decayed_amount :: "int \<Rightarrow> int \<Rightarrow> int \<Rightarrow> int \<Rightarrow> int res" where
  "get_decayed_amount amount issuance_height current_block_height past_height =
     rbind (check (issuance_height \<le> current_block_height) Illegal_Argument) (\<lambda>_.
     rbind (check (0 \<le> current_block_height) Illegal_Argument) (\<lambda>_.
     rbind (check (0 \<le> amount) Illegal_Argument) (\<lambda>_.
     rbind (check (0 \<le> issuance_height) Illegal_Argument) (\<lambda>_.
       if current_block_height \<le> past_height then Inr amount
       else
         let q = to_float (of_int (issuance_height - past_height) /
                           of_int (current_block_height - past_height));
             factor = (if 0 < q then q else 0)
         in Inr (max 0 (py_round (fmul (float_of_int amount) factor)))))))"

definition get_decayed_compensation_amount ::
  "'a dao_service_scheme \<Rightarrow> int \<Rightarrow> int \<Rightarrow> int \<Rightarrow> int res" where
  "get_decayed_compensation_amount s amount ih h =
     get_decayed_amount amount ih h (height_of_past_cycle s h NUM_CYCLES_COMP_REQUEST_DECAY)"

definition get_decayed_burned_amount ::
  "'a dao_service_scheme \<Rightarrow> int \<Rightarrow> int \<Rightarrow> int \<Rightarrow> int res" where
  "get_decayed_burned_amount s amount ih h =
     get_decayed_amount amount ih h (height_of_past_cycle s h NUM_CYCLES_BURN_AMOUNT_DECAY)"

definition get_decayed_genesis_output_amount :: "int \<Rightarrow> int" where
  "get_decayed_genesis_output_amount amount =
     py_round (fmul (float_of_int amount) GENESIS_OUTPUT_AMOUNT_FACTOR)"

definition get_address_from_compensation_request :: "tx option \<Rightarrow> string option res" where
  "get_address_from_compensation_request t =
     (case t of
        None \<Rightarrow> Inl Attribute_Error
      | Some t \<Rightarrow>
          rbind (py_nth (tx_outputs t) (if length (tx_outputs t) = 4 then 2 else 1)) (\<lambda>out.
            Inr (txo_address out)))"

definition conference_sponsorship_tx :: string where
  "conference_sponsorship_tx = ''01455fc4c88fca0665a5f56a90ff03fb9e3e88c3430ffc5217246e32d180aa64''"

definition get_issuance_amount_for_compensation_request :: "issuance \<Rightarrow> int" where
  "get_issuance_amount_for_compensation_request i =
     (if iss_tx_id i = conference_sponsorship_tx then 119400 else iss_amount i)"

definition is_valid_compensation_request :: "string \<Rightarrow> int \<Rightarrow> int \<Rightarrow> bool" where
  "is_valid_compensation_request name cycle_index amount \<longleftrightarrow>
     \<not> (name = ''RefundAgent'' \<and> cycle_index \<le> 15 \<and> 350000 < amount)"

text \<open>\<open>CompensationProposal.get_burning_man_receiver_address\<close>.\<close>

definition get_burning_man_receiver_address :: "proposal \<Rightarrow> string option" where
  "get_burning_man_receiver_address p =
     (case prop_extra_data_map p of
        None \<Rightarrow> None | Some d \<Rightarrow> map_of d ''burningManReceiverAddress'')"

definition get_proof_of_burn_op_return_tx_output_by_hash ::
  "'a dao_state_scheme \<Rightarrow> int \<Rightarrow> (bytes \<Rightarrow> tx_output set) res" where
  "get_proof_of_burn_op_return_tx_output_by_hash s h =
     (let outs = {out \<in> get_proof_of_burn_op_return_tx_outputs s. txo_block_height out \<le> h}
      in if \<exists>out \<in> outs. txo_op_return_data out = None then Inl Type_Error
         else Inr (\<lambda>k. {out \<in> outs. pob_hash_from_op_return_data (the (txo_op_return_data out)) = k}))"

text \<open>\<open>name.encode("utf-8")\<close> for code points below 256.\<close>

definition utf8_char :: "char \<Rightarrow> bytes" where
  "utf8_char c =
     (let n = of_char c :: nat
      in if n < 128 then [word_of_nat n] else [word_of_nat (192 + n div 64), word_of_nat (128 + n mod 64)])"

definition outputs_for_name ::
  "'a burn_env_scheme \<Rightarrow> (bytes \<Rightarrow> tx_output set) \<Rightarrow> string \<Rightarrow> tx_output set" where
  "outputs_for_name env by_hash name = by_hash (sha256_ripemd160 env (concat (map utf8_char name)))"

definition add_burn_outputs ::
  "'e burn_env_scheme \<Rightarrow> 'a dao_service_scheme \<Rightarrow> int \<Rightarrow> (bytes \<Rightarrow> tx_output set) \<Rightarrow> string \<Rightarrow>
   candidate \<Rightarrow> candidate res" where
  "add_burn_outputs env s h by_hash name =
     fold_res (\<lambda>out c.
       let t = get_tx s (txo_tx_id out);
           amount = (case t of Some t \<Rightarrow> tx_burnt_bsq t | None \<Rightarrow> 0);
           date = (case t of Some t \<Rightarrow> tx_time t | None \<Rightarrow> 0)
       in rbind (get_decayed_burned_amount s amount (txo_block_height out) h) (\<lambda>decayed.
          rbind (cycle_index_at s (txo_block_height out)) (\<lambda>n.
            Inr (add_burn_output_model env
              \<lparr>bo_amount = amount, bo_decayed_amount = decayed, bo_height = txo_block_height out,
               bo_tx_id = txo_tx_id out, bo_date = date, bo_cycle_index = n\<rparr> c))))
       (order_outputs env (outputs_for_name env by_hash name))"

definition candidate_of :: "string \<Rightarrow> (string \<times> candidate) list \<Rightarrow> candidate" where
  "candidate_of name d = (case map_of d name of Some c \<Rightarrow> c | None \<Rightarrow> new_candidate)"

definition add_request ::
  "'e burn_env_scheme \<Rightarrow> 'a dao_service_scheme \<Rightarrow> int \<Rightarrow> string \<Rightarrow> string \<Rightarrow> bool \<Rightarrow> issuance \<Rightarrow>
   candidate \<Rightarrow> candidate res" where
  "add_request env s h name address custom iss c =
     (let ih = iss_chain_height iss; amount = get_issuance_amount_for_compensation_request iss
      in rbind (cycle_index_at s ih) (\<lambda>n.
           if is_valid_compensation_request name n amount
           then rbind (get_decayed_compensation_amount s amount ih h) (\<lambda>decayed.
                  add_compensation_model env
                    (from_compensation_request address custom amount decayed ih (iss_tx_id iss)
                       (get_block_time s ih) n) c)
           else Inr c))"

definition process_contributor ::
  "'e burn_env_scheme \<Rightarrow> 'a dao_service_scheme \<Rightarrow> int \<Rightarrow> (bytes \<Rightarrow> tx_output set) \<Rightarrow>
   issuance \<Rightarrow> proposal \<Rightarrow> (string \<times> candidate) list \<Rightarrow> (string \<times> candidate) list res" where
  "process_contributor env s h by_hash iss p d =
     (let name = prop_name p; custom = get_burning_man_receiver_address p
      in rbind (case custom of
                  Some a \<Rightarrow> Inr (Some a)
                | None \<Rightarrow> get_address_from_compensation_request (proposal_tx s p)) (\<lambda>address.
         rbind (case address of
                  Some a \<Rightarrow> if a = [] then Inr (candidate_of name d)
                            else add_request env s h name a (custom \<noteq> None) iss (candidate_of name d)
                | None \<Rightarrow> Inr (candidate_of name d)) (\<lambda>c.
         rbind (add_burn_outputs env s h by_hash name c) (\<lambda>c'.
           Inr (AList.update name c' d)))))"

definition for_each_compensation_issuance ::
  "'a gov_service_scheme \<Rightarrow> int \<Rightarrow> (issuance \<Rightarrow> proposal \<Rightarrow> 'd \<Rightarrow> 'd res) \<Rightarrow> 'd \<Rightarrow> 'd res" where
  "for_each_compensation_issuance s h action =
     fold_res (\<lambda>pp d.
       let p = pp_proposal pp
       in case prop_kind p of
            Compensation_Proposal _ _ \<Rightarrow>
              (case Option.bind (prop_tx_id p) (\<lambda>i. get_issuance s i None) of
                 Some iss \<Rightarrow> if iss_chain_height iss \<le> h then action iss p d else Inr d
               | None \<Rightarrow> Inr d)
          | _ \<Rightarrow> Inr d) (proposal_payloads s)"

definition genesis_output_name :: "tx_output \<Rightarrow> string" where
  "genesis_output_name out = ''Bisq co-founder '' @ py_str (txo_index out)"

definition process_genesis_output ::
  "'e burn_env_scheme \<Rightarrow> 'a dao_service_scheme \<Rightarrow> int \<Rightarrow> (bytes \<Rightarrow> tx_output set) \<Rightarrow>
   tx_output \<Rightarrow> (string \<times> candidate) list \<Rightarrow> (string \<times> candidate) list res" where
  "process_genesis_output env s h by_hash out d =
     (let name = genesis_output_name out; ih = txo_block_height out
      in rbind (add_compensation_model env
                  (from_genesis_output (txo_address out) (txo_value out)
                     (get_decayed_genesis_output_amount (txo_value out)) ih (txo_tx_id out)
                     (txo_index out) (get_block_time s ih)) (candidate_of name d)) (\<lambda>c.
         rbind (add_burn_outputs env s h by_hash name c) (\<lambda>c'.
           Inr (AList.update name c' d))))"

subsection \<open>Capping\<close>

text \<open>The loop of \<open>_impose_caps\<close> over the candidates in descending order of their ratio; the sorted list
  and the dictionary share the candidate objects, and the loop reads no field that it changes.\<close>

fun impose_caps_loop ::
  "'e burn_env_scheme \<Rightarrow> bool \<Rightarrow> (string \<times> candidate) list \<Rightarrow> (string \<times> candidate) list \<Rightarrow>
   rat \<Rightarrow> rat \<Rightarrow> rat \<Rightarrow> int \<Rightarrow> ((string \<times> candidate) list \<times> int) res" where
  "impose_caps_loop env limit [] d thr remaining_burn remaining_cap capping_round =
     Inr (d, capping_round)"
| "impose_caps_loop env limit ((name, c) # rest) d thr remaining_burn remaining_cap capping_round =
     rbind (fdiv remaining_burn remaining_cap) (\<lambda>inv_scale.
     rbind (get_burn_cap_ratio env c) (\<lambda>ratio.
       if remaining_cap \<le> 0 \<or> ratio \<le> 0 \<or> ratio < inv_scale \<or> limit \<and> ratio < 1
       then Inr (d, capping_round + 1)
       else
         let (thr', round') =
               (if ratio < thr then (inv_scale, capping_round + 1) else (thr, capping_round))
         in rbind (fdiv (bm_burn_amount_share c) thr') (\<lambda>adjusted.
            rbind (get_max_boosted_compensation_share env c) (\<lambda>cap.
              impose_caps_loop env limit rest (AList.update name (impose_cap round' adjusted c) d)
                thr' (fsub remaining_burn (bm_burn_amount_share c)) (fsub remaining_cap cap) round'))))"

definition impose_caps ::
  "'e burn_env_scheme \<Rightarrow> (string \<times> candidate) list \<Rightarrow> bool \<Rightarrow> ((string \<times> candidate) list \<times> int) res" where
  "impose_caps env d limit =
     rbind (fold_res (\<lambda>(name, c) acc. rbind (get_burn_cap_ratio env c) (\<lambda>r. Inr (acc @ [(r, name, c)]))) d [])
       (\<lambda>keyed. impose_caps_loop env limit (map snd (sort_key (\<lambda>x. - fst x) keyed)) d 1 1 1 0)"

subsection \<open>The candidates\<close>

definition map_values :: "('v \<Rightarrow> 'v) \<Rightarrow> ('k \<times> 'v) list \<Rightarrow> ('k \<times> 'v) list" where
  "map_values f d = map (\<lambda>(k, v). (k, f v)) d"

text \<open>The same with a function that may raise, and a comprehension with such a filter.\<close>

fun map_res :: "('a \<Rightarrow> 'b res) \<Rightarrow> 'a list \<Rightarrow> 'b list res" where
  "map_res f [] = Inr []"
| "map_res f (x # xs) = rbind (f x) (\<lambda>y. rbind (map_res f xs) (\<lambda>ys. Inr (y # ys)))"

definition map_values_res :: "('v \<Rightarrow> 'v res) \<Rightarrow> ('k \<times> 'v) list \<Rightarrow> ('k \<times> 'v) list res" where
  "map_values_res f d = map_res (\<lambda>(k, v). rbind (f v) (\<lambda>w. Inr (k, w))) d"

fun filter_res :: "('a \<Rightarrow> bool res) \<Rightarrow> 'a list \<Rightarrow> 'a list res" where
  "filter_res f [] = Inr []"
| "filter_res f (x # xs) =
     rbind (f x) (\<lambda>b. rbind (filter_res f xs) (\<lambda>ys. Inr (if b then x # ys else ys)))"

definition collect_candidates ::
  "'e burn_env_scheme \<Rightarrow> 'a gov_service_scheme \<Rightarrow> int \<Rightarrow> (string \<times> candidate) list res" where
  "collect_candidates env s h =
     rbind (get_proof_of_burn_op_return_tx_output_by_hash s h) (\<lambda>by_hash.
     rbind (for_each_compensation_issuance s h (process_contributor env s h by_hash) []) (\<lambda>d.
       case get_tx s (genesis_tx_id s) of
         None \<Rightarrow> Inr d
       | Some g \<Rightarrow> fold_res (process_genesis_output env s h by_hash) (tx_outputs g) d))"

definition share_candidates ::
  "'e burn_env_scheme \<Rightarrow> bool \<Rightarrow> (string \<times> candidate) list \<Rightarrow> (string \<times> candidate) list res" where
  "share_candidates env limit d =
     (let total_compensation = sum_list (map (bm_decayed_compensation_amount \<circ> snd) d);
          total_burn = sum_list (map (bm_decayed_burn_amount \<circ> snd) d)
      in rbind (impose_caps env (map_values (calculate_shares total_compensation total_burn) d) limit)
           (\<lambda>(d', rounds).
         rbind (map_res (get_max_boosted_compensation_share env \<circ> snd)
                  (filter (\<lambda>x. bm_round_capped (snd x) \<noteq> None) d')) (\<lambda>caps.
           let sum_capped = float_sum env caps;
               sum_non_capped = float_sum env
                 (map (bm_burn_amount_share \<circ> snd)
                    (filter (\<lambda>x. bm_round_capped (snd x) = None) d'))
           in map_values_res (calculate_capped_and_adjusted_shares env sum_capped sum_non_capped rounds) d')))"

definition get_burning_man_candidates_by_name ::
  "'e burn_env_scheme \<Rightarrow> 'a gov_service_scheme \<Rightarrow> int \<Rightarrow> bool \<Rightarrow> (string \<times> candidate) list res" where
  "get_burning_man_candidates_by_name env s h limit =
     rbind (collect_candidates env s h) (share_candidates env limit)"

definition get_active_burning_man_candidates ::
  "'e burn_env_scheme \<Rightarrow> 'a gov_service_scheme \<Rightarrow> int \<Rightarrow> bool \<Rightarrow> candidate list res" where
  "get_active_burning_man_candidates env s h limit =
     rbind (get_burning_man_candidates_by_name env s h limit) (\<lambda>d.
       filter_res (\<lambda>c. if 0 < bm_capped_burn_amount_share c then is_receiver_address_valid env c
                       else Inr False) (map snd d))"

definition get_legacy_burning_man_address :: "'a dao_service_scheme \<Rightarrow> int \<Rightarrow> string" where
  "get_legacy_burning_man_address s h = get_param_value s RECIPIENT_BTC_ADDRESS h"

end
