(* ===== verification/Burn_Receivers.thy ===== *)
theory Burn_Receivers
  imports Burning_Man Hex_Bytes
begin

text \<open>
  Who is paid: \<open>delayed_payout_tx_receiver_service.py\<close> (the outputs of the delayed payout transaction
  that both traders must compute alike), \<open>btc_fee_receiver_service.py\<close> (the receiver of a trade fee,
  drawn at random with the shares as weights) and \<open>burn_target_service.py\<close> (how much the burning men
  should burn).  The random number is an argument.
\<close>

section \<open>\<open>DelayedPayoutTxReceiverService\<close>\<close>

definition MIN_SNAPSHOT_HEIGHT :: "base_currency_network \<Rightarrow> int" where
  "MIN_SNAPSHOT_HEIGHT n = (if is_regtest n then 0 else 767950)"

definition DPT_MIN_OUTPUT_AMOUNT :: int where "DPT_MIN_OUTPUT_AMOUNT = 1000"
definition DPT_MIN_REMAINDER_TO_LEGACY_BM :: int where "DPT_MIN_REMAINDER_TO_LEGACY_BM = 25000"
definition DPT_MIN_TX_FEE_RATE :: int where "DPT_MIN_TX_FEE_RATE = 10"
definition MIN_DELAYED_PAYOUT_TX_FEE :: int where "MIN_DELAYED_PAYOUT_TX_FEE = 1000"

definition get_snapshot_height_internal :: "int \<Rightarrow> int \<Rightarrow> int \<Rightarrow> int \<Rightarrow> int res" where
  "get_snapshot_height_internal genesis h grid min_height =
     (if genesis + 3 * grid < h
      then rbind (py_div h grid) (\<lambda>q. Inr (max min_height (py_round q * grid - grid)))
      else Inr (max min_height genesis))"

definition get_snapshot_height :: "base_currency_network \<Rightarrow> int \<Rightarrow> int \<Rightarrow> int \<Rightarrow> int res" where
  "get_snapshot_height n genesis h grid =
     get_snapshot_height_internal genesis h grid (MIN_SNAPSHOT_HEIGHT n)"

definition get_burning_man_selection_height :: "'a dao_service_scheme \<Rightarrow> int \<Rightarrow> int res" where
  "get_burning_man_selection_height s current_chain_height =
     get_snapshot_height (network s) (genesis_block_height s) current_chain_height 10"

definition get_spendable_amount :: "int \<Rightarrow> int \<Rightarrow> int \<Rightarrow> int" where
  "get_spendable_amount num_outputs input_amount tx_fee_per_vbyte =
     (let tx_size = 51 + num_outputs * 32
      in input_amount - max MIN_DELAYED_PAYOUT_TX_FEE (tx_fee_per_vbyte * tx_size))"

definition dpt_fee_rate :: "int \<Rightarrow> int" where
  "dpt_fee_rate trade_tx_fee =
     max DPT_MIN_TX_FEE_RATE (py_round (to_float (float_of_int trade_tx_fee / 278)))"

definition dpt_min_output :: "int \<Rightarrow> int" where
  "dpt_min_output fee_rate = max DPT_MIN_OUTPUT_AMOUNT (fee_rate * 32 * 2)"

definition dpt_max_output :: "int \<Rightarrow> int" where
  "dpt_max_output spendable =
     py_round (fmul (float_of_int spendable) (fmul MAX_BURN_SHARE (to_float (6 / 5))))"

text \<open>\<open>receivers\<close> of the candidates, before the remainder: the shares too small for an output are taken
  out of the adjustment that the others are divided by.\<close>

definition dpt_adjustment :: "'e burn_env_scheme \<Rightarrow> bool \<Rightarrow> int \<Rightarrow> int \<Rightarrow> candidate list \<Rightarrow> rat" where
  "dpt_adjustment env bugfix spendable min_output cs =
     fsub 1 (float_sum env (map bm_capped_burn_amount_share
       (filter (\<lambda>c. get_receiver_address c bugfix \<noteq> None \<and>
          py_round (fmul (bm_capped_burn_amount_share c) (float_of_int spendable)) < min_output) cs)))"

definition dpt_receivers_loop ::
  "bool \<Rightarrow> int \<Rightarrow> int \<Rightarrow> int \<Rightarrow> rat \<Rightarrow> candidate list \<Rightarrow> (int \<times> string) list res" where
  "dpt_receivers_loop bugfix spendable min_output max_output adjustment cs =
     fold_res (\<lambda>c receivers.
       case get_receiver_address c bugfix of
         None \<Rightarrow> Inr receivers
       | Some a \<Rightarrow>
           if a = [] then Inr receivers
           else rbind (fdiv (bm_capped_burn_amount_share c) adjustment) (\<lambda>share.
             let amount = py_round (fmul share (float_of_int spendable))
             in Inr (if min_output \<le> amount \<and> amount \<le> max_output
                     then receivers @ [(amount, a)] else receivers))) cs []"

text \<open>\<open>receivers.sort(key=(amount, java_cmp_str(address)))\<close> as two stable sorts.\<close>

definition sort_receivers :: "(int \<times> string) list \<Rightarrow> (int \<times> string) list" where
  "sort_receivers rs = sort_key fst (sort_key snd rs)"

definition add_remainder :: "int \<Rightarrow> string \<Rightarrow> (int \<times> string) list \<Rightarrow> (int \<times> string) list" where
  "add_remainder spendable legacy_address receivers =
     (let total = sum_list (map fst receivers); available = spendable - total
      in if total < spendable \<and> DPT_MIN_REMAINDER_TO_LEGACY_BM < available
         then receivers @ [(available, legacy_address)] else receivers)"

definition receivers_of ::
  "'e burn_env_scheme \<Rightarrow> bool \<Rightarrow> int \<Rightarrow> int \<Rightarrow> string \<Rightarrow> candidate list \<Rightarrow> (int \<times> string) list res" where
  "receivers_of env bugfix input_amount fee_rate legacy_address cs =
     (if cs = [] then Inr [(get_spendable_amount 1 input_amount fee_rate, legacy_address)]
      else
        let spendable = get_spendable_amount (int (length cs)) input_amount fee_rate;
            min_output = dpt_min_output fee_rate;
            adjustment = dpt_adjustment env bugfix spendable min_output cs
        in rbind (dpt_receivers_loop bugfix spendable min_output (dpt_max_output spendable) adjustment cs)
             (\<lambda>receivers. Inr (add_remainder spendable legacy_address (sort_receivers receivers))))"

definition get_receivers ::
  "'e burn_env_scheme \<Rightarrow> 'a gov_service_scheme \<Rightarrow> int \<Rightarrow> int \<Rightarrow> int \<Rightarrow> bool \<Rightarrow> bool \<Rightarrow>
   (int \<times> string) list res" where
  "get_receivers env s selection_height input_amount trade_tx_fee bugfix proposal_412 =
     rbind (check (MIN_SNAPSHOT_HEIGHT (network s) \<le> selection_height) Illegal_Argument) (\<lambda>_.
     rbind (get_active_burning_man_candidates env s selection_height (\<not> proposal_412)) (\<lambda>cs.
       receivers_of env bugfix input_amount (dpt_fee_rate trade_tx_fee)
         (get_legacy_burning_man_address s selection_height) cs))"

section \<open>\<open>BtcFeeReceiverService\<close>\<close>

fun find_index_loop :: "int \<Rightarrow> int \<Rightarrow> int \<Rightarrow> int list \<Rightarrow> int" where
  "find_index_loop i current target [] = 0"
| "find_index_loop i current target (w # ws) =
     (if target \<le> current + w then i else find_index_loop (i + 1) (current + w) target ws)"

definition find_index :: "int list \<Rightarrow> int \<Rightarrow> int" where
  "find_index weights target = find_index_loop 0 0 target weights"

text \<open>\<open>target\<close> is the number between 1 and the total weight that \<open>random.randint\<close> returns.\<close>

definition get_random_index :: "int list \<Rightarrow> int \<Rightarrow> int" where
  "get_random_index weights target =
     (if sum_list weights = 0 then - 1 else find_index weights target)"

definition fee_ceiling :: int where "fee_ceiling = 10000"

definition fee_weights :: "candidate list \<Rightarrow> int list" where
  "fee_weights cs =
     (let amounts = map (\<lambda>c. py_trunc (fmul (bm_capped_burn_amount_share c) (of_int fee_ceiling))) cs;
          total = sum_list amounts
      in if total < fee_ceiling then amounts @ [fee_ceiling - total] else amounts)"

definition fee_address_of :: "string \<Rightarrow> candidate list \<Rightarrow> int \<Rightarrow> string res" where
  "fee_address_of legacy_address cs target =
     (if cs = [] then Inr legacy_address
      else
        let winner = get_random_index (fee_weights cs) target; n = int (length cs)
        in if winner = n then Inr legacy_address
           else let i = (if winner < 0 then n + winner else winner)
             in if 0 \<le> i \<and> i < n
                then Inr (case bm_receiver_address (cs ! nat i) of
                            Some a \<Rightarrow> if a = [] then legacy_address else a
                          | None \<Rightarrow> legacy_address)
                else Inl Index_Error)"

definition get_fee_address ::
  "'e burn_env_scheme \<Rightarrow> 'a gov_service_scheme \<Rightarrow> int \<Rightarrow> int \<Rightarrow> string res" where
  "get_fee_address env s current_chain_height target =
     rbind (get_active_burning_man_candidates env s current_chain_height False) (\<lambda>cs.
       fee_address_of (get_legacy_burning_man_address s current_chain_height) cs target)"

section \<open>\<open>BurnTargetService\<close>\<close>

definition NUM_CYCLES_BURN_TARGET :: nat where "NUM_CYCLES_BURN_TARGET = 12"
definition NUM_CYCLES_AVERAGE_DISTRIBUTION :: nat where "NUM_CYCLES_AVERAGE_DISTRIBUTION = 3"
definition ACTIVATION_BLOCK :: "base_currency_network \<Rightarrow> int" where
  "ACTIVATION_BLOCK n = (if is_regtest n then 111 else 769845)"
definition DEFAULT_ESTIMATED_BTC_TRADE_FEE_REVENUE_PER_CYCLE :: int where
  "DEFAULT_ESTIMATED_BTC_TRADE_FEE_REVENUE_PER_CYCLE = 620000000"

record reimbursement_model =
  rm_amount :: int
  rm_height :: int
  rm_date :: int
  rm_cycle_index :: int
  rm_tx_id :: "string option"

text \<open>\<open>isinstance(pp.proposal, ReimbursementModel)\<close>: the class of the burning man models, of which no
  proposal is an instance.\<close>

definition is_reimbursement_model :: "proposal \<Rightarrow> bool" where
  "is_reimbursement_model p \<longleftrightarrow> False"

definition get_reimbursement_proposals_for_issuance ::
  "'a gov_service_scheme \<Rightarrow> issuance \<Rightarrow> proposal list" where
  "get_reimbursement_proposals_for_issuance s iss =
     filter (\<lambda>p. prop_tx_id p = Some (iss_tx_id iss) \<and> is_reimbursement_model p)
       (map pp_proposal (proposal_payloads s))"

definition get_issuance_set_for_type :: "'a dao_state_scheme \<Rightarrow> issuance_type \<Rightarrow> issuance set" where
  "get_issuance_set_for_type s ty = {iss \<in> ran (issuance_map s). iss_issuance_type iss = ty}"

text \<open>The loop over a set of issuances, in the order \<open>order\<close> lists it.\<close>

definition get_reimbursements ::
  "(issuance set \<Rightarrow> issuance list) \<Rightarrow> 'a gov_service_scheme \<Rightarrow> int \<Rightarrow> reimbursement_model list res" where
  "get_reimbursements order s h =
     fold_res (\<lambda>iss acc.
       if iss_chain_height iss \<le> h
       then fold_res (\<lambda>p acc.
              rbind (cycle_index_at s (iss_chain_height iss)) (\<lambda>n.
                Inr (List.insert
                  \<lparr>rm_amount = iss_amount iss, rm_height = iss_chain_height iss,
                   rm_date = get_block_time s (iss_chain_height iss), rm_cycle_index = n,
                   rm_tx_id = prop_tx_id p\<rparr> acc)))
              (get_reimbursement_proposals_for_issuance s iss) acc
       else Inr acc)
       (order (get_issuance_set_for_type s IT_REIMBURSEMENT)) []"

definition adjusted_reimbursement :: "base_currency_network \<Rightarrow> reimbursement_model \<Rightarrow> int" where
  "adjusted_reimbursement n r =
     (if ACTIVATION_BLOCK n < rm_height r
      then py_round (to_float (fmul (float_of_int (rm_amount r)) (to_float (13 / 10)) / to_float (115 / 100)))
      else rm_amount r)"

definition get_adjusted_accumulated_reimbursements ::
  "(issuance set \<Rightarrow> issuance list) \<Rightarrow> 'a gov_service_scheme \<Rightarrow> int \<Rightarrow> int \<Rightarrow> int res" where
  "get_adjusted_accumulated_reimbursements order s h from_block =
     rbind (get_reimbursements order s h) (\<lambda>rs.
       Inr (sum_list (map (adjusted_reimbursement (network s))
         (filter (\<lambda>r. from_block < rm_height r \<and> rm_height r \<le> h) rs))))"

definition get_btc_trade_fee_from_param :: "'a dao_service_scheme \<Rightarrow> cycle \<Rightarrow> int res" where
  "get_btc_trade_fee_from_param s c =
     rbind (get_param_value_as_block s LOCK_TIME_TRADE_PAYOUT (cyc_height_of_first_block c)) (\<lambda>v.
       Inr (if v \<noteq> 4320 then v else DEFAULT_ESTIMATED_BTC_TRADE_FEE_REVENUE_PER_CYCLE))"

definition get_accumulated_estimated_btc_trade_fees ::
  "'a dao_service_scheme \<Rightarrow> int \<Rightarrow> int \<Rightarrow> int res" where
  "get_accumulated_estimated_btc_trade_fees s h from_block =
     fold_res (\<lambda>c acc.
       if from_block < cyc_height_of_first_block c \<and> cyc_height_of_first_block c \<le> h
       then rbind (get_btc_trade_fee_from_param s c) (\<lambda>v. Inr (acc + v)) else Inr acc) (cycles s) 0"

definition burn_target_proof_of_burn_txs :: "'a dao_state_scheme \<Rightarrow> int \<Rightarrow> int \<Rightarrow> tx set" where
  "burn_target_proof_of_burn_txs s h from_block =
     {t \<in> get_proof_of_burn_txs s. from_block < tx_block_height t \<and> tx_block_height t \<le> h}"

text \<open>\<open>bytes.hex()\<close>.\<close>

definition OP_RETURN_DATA_LEGACY_BM_DPT :: "base_currency_network \<Rightarrow> string set" where
  "OP_RETURN_DATA_LEGACY_BM_DPT n =
     (if is_regtest n then {''170114af04ea7e34bd7378b034ddf90da53b7c27a277''}
      else {''1701e47e5d8030f444c182b5e243871ebbaeadb5e82f'', ''1701293c488822f98e70e047012f46f5f1647f37deb7''})"

definition OP_RETURN_DATA_LEGACY_BM_FEES :: "base_currency_network \<Rightarrow> string set" where
  "OP_RETURN_DATA_LEGACY_BM_FEES n =
     (if is_regtest n then {''1701b3253b7b92bb7f0916b05f10d4fa92be8e48f5e6''}
      else {''1701721206fe6b40777763de1c741f4fd2706d94775d''})"

definition get_burned_amount_from_legacy_burningman ::
  "string set \<Rightarrow> tx list \<Rightarrow> int \<Rightarrow> int \<Rightarrow> int res" where
  "get_burned_amount_from_legacy_burningman marks txs h from_block =
     fold_res (\<lambda>t acc.
       if from_block < tx_block_height t \<and> tx_block_height t \<le> h
       then rbind (last_tx_output t) (\<lambda>out.
              case txo_op_return_data out of
                None \<Rightarrow> Inl Attribute_Error
              | Some d \<Rightarrow> Inr (if bytes_hex d \<in> marks then acc + tx_burnt_bsq t else acc))
       else Inr acc) txs 0"

definition burn_outputs_between :: "candidate list \<Rightarrow> int \<Rightarrow> int \<Rightarrow> burn_output_model list" where
  "burn_outputs_between cs h from_block =
     filter (\<lambda>b. from_block < bo_height b \<and> bo_height b \<le> h) (concat (map bm_burn_output_models cs))"

definition get_burned_amount_from_burning_men :: "candidate list \<Rightarrow> int \<Rightarrow> int \<Rightarrow> int" where
  "get_burned_amount_from_burning_men cs h from_block =
     sum_list (map bo_amount (burn_outputs_between cs h from_block))"

definition get_accumulated_decayed_burned_amount ::
  "'a dao_service_scheme \<Rightarrow> candidate list \<Rightarrow> int \<Rightarrow> int" where
  "get_accumulated_decayed_burned_amount s cs h =
     sum_list (map bo_decayed_amount
       (burn_outputs_between cs h (height_of_past_cycle s h NUM_CYCLES_BURN_TARGET)))"

definition get_burn_target ::
  "'e burn_env_scheme \<Rightarrow> (issuance set \<Rightarrow> issuance list) \<Rightarrow> 'a gov_service_scheme \<Rightarrow> int \<Rightarrow>
   candidate list \<Rightarrow> int res" where
  "get_burn_target env order s h cs =
     (let from_block = height_of_past_cycle s h NUM_CYCLES_BURN_TARGET;
          txs = order_txs env (burn_target_proof_of_burn_txs s h from_block)
      in rbind (get_adjusted_accumulated_reimbursements order s h from_block) (\<lambda>reimbursements.
         rbind (get_accumulated_estimated_btc_trade_fees s h
                  (height_of_past_cycle s h (NUM_CYCLES_BURN_TARGET - 1))) (\<lambda>fees.
         rbind (get_burned_amount_from_legacy_burningman
                  (OP_RETURN_DATA_LEGACY_BM_DPT (network s)) txs h from_block) (\<lambda>legacy_dpt.
         rbind (get_burned_amount_from_legacy_burningman
                  (OP_RETURN_DATA_LEGACY_BM_FEES (network s)) txs h from_block) (\<lambda>legacy_fees.
           Inr (reimbursements + fees - legacy_dpt - legacy_fees -
                get_burned_amount_from_burning_men cs h from_block))))))"

definition get_average_distribution_per_cycle ::
  "(issuance set \<Rightarrow> issuance list) \<Rightarrow> 'a gov_service_scheme \<Rightarrow> int \<Rightarrow> int res" where
  "get_average_distribution_per_cycle order s h =
     rbind (get_adjusted_accumulated_reimbursements order s h
              (height_of_past_cycle s h NUM_CYCLES_AVERAGE_DISTRIBUTION)) (\<lambda>reimbursements.
     rbind (get_accumulated_estimated_btc_trade_fees s h
              (height_of_past_cycle s h (NUM_CYCLES_AVERAGE_DISTRIBUTION - 1))) (\<lambda>fees.
       Inr (py_round (to_float (of_int (reimbursements + fees) / 3)))))"

end
