(* ===== verification/Burning_Man_Facts.thy ===== *)
theory Burning_Man_Facts
  imports Burn_Receivers "HOL-Library.Product_Lexorder"
begin

text \<open>
  Facts on the burning men: the decay of amounts, the receiver address of a candidate, the cap of the
  shares, the delayed payout receivers and the draw of the fee receiver.
\<close>

section \<open>Decay\<close>

lemma to_float_uminus: "to_float (- x) = - to_float x"
  by (simp add: to_float_def Let_def)

lemma to_float_nonpos: "x \<le> 0 \<Longrightarrow> to_float x \<le> 0"
  using to_float_nonneg [of "- x"] by (simp add: to_float_uminus)

definition decay_factor :: "int \<Rightarrow> int \<Rightarrow> int \<Rightarrow> rat" where
  "decay_factor ih h p = (let q = to_float (of_int (ih - p) / of_int (h - p)) in if 0 < q then q else 0)"

lemma decay_ratio:
  assumes "p < h" and "ih \<le> h"
  shows "of_int (ih - p) / of_int (h - p) \<le> (1 :: rat)"
  using assms by (simp add: divide_le_eq)

lemma decay_factor_range:
  assumes "p < h" and "ih \<le> h"
  shows "0 \<le> decay_factor ih h p" and "decay_factor ih h p \<le> 1"
proof -
  show "0 \<le> decay_factor ih h p" by (simp add: decay_factor_def Let_def)
  show "decay_factor ih h p \<le> 1"
    using to_float_le_1 [OF _ decay_ratio [OF assms]] to_float_nonpos [of "of_int (ih - p) / of_int (h - p)"]
    by (cases "0 \<le> (of_int (ih - p) / of_int (h - p) :: rat)") (auto simp: decay_factor_def Let_def)
qed

lemma decay_factor_mono:
  assumes "p < h" and "i \<le> j" and "j \<le> h"
  shows "decay_factor i h p \<le> decay_factor j h p"
proof -
  let ?x = "of_int (i - p) / of_int (h - p) :: rat" and ?y = "of_int (j - p) / of_int (h - p) :: rat"
  have "0 < (of_int (h - p) :: rat)" using assms(1) by simp
  then have le: "?x \<le> ?y" using assms(2) by (intro divide_right_mono) simp_all
  show ?thesis
  proof (cases "0 \<le> ?x")
    case True
    have "to_float ?x \<le> to_float ?y" by (rule to_float_mono [OF True le])
    then show ?thesis unfolding decay_factor_def Let_def by auto
  next
    case False
    then have "to_float ?x \<le> 0" by (intro to_float_nonpos) simp
    then show ?thesis unfolding decay_factor_def Let_def by auto
  qed
qed

lemma get_decayed_amount_Inr:
  "get_decayed_amount a ih h p = Inr d \<longleftrightarrow>
     ih \<le> h \<and> 0 \<le> h \<and> 0 \<le> a \<and> 0 \<le> ih \<and>
     d = (if h \<le> p then a else max 0 (py_round (fmul (float_of_int a) (decay_factor ih h p))))"
  by (auto simp: get_decayed_amount_def check_def decay_factor_def Let_def rbind_def split: if_splits)

lemma get_decayed_amount_ok:
  "is_ok (get_decayed_amount a ih h p) \<longleftrightarrow> ih \<le> h \<and> 0 \<le> h \<and> 0 \<le> a \<and> 0 \<le> ih"
  by (auto simp: is_ok_iff get_decayed_amount_Inr)

lemma decayed_range:
  assumes "get_decayed_amount a ih h p = Inr d" and "a < 2 ^ 53"
  shows "0 \<le> d" and "d \<le> a"
proof -
  have r: "0 \<le> py_round (fmul (float_of_int a) (decay_factor ih h p))"
    "py_round (fmul (float_of_int a) (decay_factor ih h p)) \<le> a" if "\<not> h \<le> p"
    using share_of_amount [of a "decay_factor ih h p"] decay_factor_range [of p h ih] that assms
    by (simp_all add: get_decayed_amount_Inr)
  show "0 \<le> d" "d \<le> a" using assms(1) r by (auto simp: get_decayed_amount_Inr split: if_splits)
qed

lemma decayed_nonneg: "get_decayed_amount a ih h p = Inr d \<Longrightarrow> 0 \<le> d"
  by (auto simp: get_decayed_amount_Inr)

lemma decayed_mono:
  assumes "get_decayed_amount a i h p = Inr d" and "get_decayed_amount a j h p = Inr e" and "i \<le> j"
    and "a < 2 ^ 53"
  shows "d \<le> e"
proof (cases "h \<le> p")
  case False
  then have "decay_factor i h p \<le> decay_factor j h p" "0 \<le> decay_factor i h p"
    using assms decay_factor_mono [of p h i j] decay_factor_range(1) [of p h i]
    by (simp_all add: get_decayed_amount_Inr)
  moreover have "float_of_int a = of_int a" "0 \<le> a"
    using assms by (simp_all add: get_decayed_amount_Inr float_of_int_def to_float_int)
  ultimately have "fmul (float_of_int a) (decay_factor i h p) \<le> fmul (float_of_int a) (decay_factor j h p)"
    unfolding fmul_def by (intro to_float_mono) (simp_all add: mult_left_mono)
  then have "py_round (fmul (float_of_int a) (decay_factor i h p)) \<le>
      py_round (fmul (float_of_int a) (decay_factor j h p))" by (rule py_round_mono)
  then show ?thesis using assms False by (auto simp: get_decayed_amount_Inr)
next
  case True
  then show ?thesis using assms by (simp add: get_decayed_amount_Inr)
qed

lemma decayed_ends:
  assumes "p < h" and "0 \<le> a" and "a < 2 ^ 53" and "0 \<le> h"
  shows "get_decayed_amount a h h p = Inr a" and "0 \<le> p \<Longrightarrow> get_decayed_amount a p h p = Inr 0"
proof -
  have "decay_factor h h p = 1" using assms(1) by (simp add: decay_factor_def)
  moreover have "float_of_int a = of_int a" using assms by (simp add: float_of_int_def to_float_int)
  ultimately show "get_decayed_amount a h h p = Inr a"
    using assms by (simp add: get_decayed_amount_Inr fmul_def to_float_int)
  show "get_decayed_amount a p h p = Inr 0" if "0 \<le> p"
    using assms that by (simp add: get_decayed_amount_Inr decay_factor_def fmul_def)
qed

section \<open>The receiver address\<close>

text \<open>The address of the latest custom request, the smallest on a tie; without one, the address of the
  earliest request.  Neither depends on the order in which the set is iterated.\<close>

definition beats_custom :: "compensation_model \<Rightarrow> compensation_model \<Rightarrow> bool" where
  "beats_custom m x \<longleftrightarrow>
     cm_height x < cm_height m \<or> cm_height x = cm_height m \<and> the (cm_address m) \<le> the (cm_address x)"

definition beats_early :: "compensation_model \<Rightarrow> compensation_model \<Rightarrow> bool" where
  "beats_early m x \<longleftrightarrow>
     cm_height m < cm_height x \<or> cm_height m = cm_height x \<and> the (cm_address m) \<le> the (cm_address x)"

lemma custom_loop:
  assumes "\<forall>m \<in> set ms. cm_address m \<noteq> None" and "\<forall>m. acc = Some m \<longrightarrow> cm_address m \<noteq> None"
  shows "\<exists>r. fold_res custom_step ms acc = Inr r \<and>
    (case r of
       None \<Rightarrow> acc = None \<and> (\<forall>m \<in> set ms. \<not> cm_is_custom_address m)
     | Some x \<Rightarrow> (acc = Some x \<or> x \<in> set ms \<and> cm_is_custom_address x) \<and>
         (\<forall>m \<in> set ms. cm_is_custom_address m \<longrightarrow> beats_custom x m) \<and> (\<forall>m. acc = Some m \<longrightarrow> beats_custom x m))"
  using assms
proof (induction ms arbitrary: acc)
  case Nil
  then show ?case by (auto simp: beats_custom_def split: option.split)
next
  case (Cons m ms)
  obtain acc' where a: "custom_step m acc = Inr acc'" "\<forall>x. acc' = Some x \<longrightarrow> cm_address x \<noteq> None"
    and k: "acc' = acc \<and> (cm_is_custom_address m \<longrightarrow> (\<exists>x. acc = Some x \<and> beats_custom x m)) \<or>
      acc' = Some m \<and> cm_is_custom_address m \<and> (\<forall>x. acc = Some x \<longrightarrow> beats_custom m x)"
    using Cons.prems
    by (cases acc) (fastforce simp: custom_step_def beats_custom_def address_less_def
        split: option.splits if_splits)+
  have "\<forall>m \<in> set ms. cm_address m \<noteq> None" using Cons.prems by simp
  from Cons.IH [OF this a(2)] obtain r where r: "fold_res custom_step ms acc' = Inr r"
    "case r of
       None \<Rightarrow> acc' = None \<and> (\<forall>m \<in> set ms. \<not> cm_is_custom_address m)
     | Some x \<Rightarrow> (acc' = Some x \<or> x \<in> set ms \<and> cm_is_custom_address x) \<and>
         (\<forall>m \<in> set ms. cm_is_custom_address m \<longrightarrow> beats_custom x m) \<and>
         (\<forall>m. acc' = Some m \<longrightarrow> beats_custom x m)" by blast
  have tr: "beats_custom x y \<Longrightarrow> beats_custom y z \<Longrightarrow> beats_custom x z" for x y z
    by (auto simp: beats_custom_def)
  have "fold_res custom_step (m # ms) acc = Inr r" using a(1) r(1) by simp
  moreover have "case r of
       None \<Rightarrow> acc = None \<and> (\<forall>m \<in> set (m # ms). \<not> cm_is_custom_address m)
     | Some x \<Rightarrow> (acc = Some x \<or> x \<in> set (m # ms) \<and> cm_is_custom_address x) \<and>
         (\<forall>m \<in> set (m # ms). cm_is_custom_address m \<longrightarrow> beats_custom x m) \<and>
         (\<forall>m. acc = Some m \<longrightarrow> beats_custom x m)"
  proof (cases r)
    case None
    then show ?thesis using r(2) k by auto
  next
    case (Some x)
    note rx = r(2) [unfolded Some option.case]
    have all: "\<forall>m \<in> set ms. cm_is_custom_address m \<longrightarrow> beats_custom x m"
      and acc': "\<forall>m. acc' = Some m \<longrightarrow> beats_custom x m" using rx by blast+
    have m: "cm_is_custom_address m \<longrightarrow> beats_custom x m" using k acc' tr by (metis option.inject)
    moreover have "\<forall>y. acc = Some y \<longrightarrow> beats_custom x y" using k acc' tr by blast
    moreover have "acc = Some x \<or> x \<in> set (m # ms) \<and> cm_is_custom_address x" using rx k by auto
    ultimately show ?thesis using all by (simp add: Some)
  qed
  ultimately show ?case by blast
qed

lemma earliest_loop:
  assumes "\<forall>m \<in> set ms. cm_address m \<noteq> None" and "cm_address acc \<noteq> None"
  shows "\<exists>x. fold_res earliest_step ms acc = Inr x \<and> x \<in> insert acc (set ms) \<and>
    (\<forall>m \<in> insert acc (set ms). beats_early x m)"
  using assms
proof (induction ms arbitrary: acc)
  case Nil
  then show ?case by (simp add: beats_early_def)
next
  case (Cons m ms)
  obtain acc' where a: "earliest_step m acc = Inr acc'" "acc' = m \<or> acc' = acc"
    "beats_early acc' m" "beats_early acc' acc"
    using Cons.prems
    by (fastforce simp: earliest_step_def beats_early_def address_java_less_def java_string_compare_less
        split: if_splits)
  have "\<forall>m \<in> set ms. cm_address m \<noteq> None" "cm_address acc' \<noteq> None" using Cons.prems a(2) by auto
  from Cons.IH [OF this] obtain x where x: "fold_res earliest_step ms acc' = Inr x"
    "x \<in> insert acc' (set ms)" "\<forall>m \<in> insert acc' (set ms). beats_early x m" by blast
  have tr: "beats_early x y \<Longrightarrow> beats_early y z \<Longrightarrow> beats_early x z" for x y z
    by (auto simp: beats_early_def)
  have "fold_res earliest_step (m # ms) acc = Inr x" using a(1) x(1) by simp
  moreover have "x \<in> insert acc (set (m # ms))" using x(2) a(2) by auto
  moreover have "beats_early x acc'" using x(3) by simp
  ultimately show ?case using x(3) a(3,4) tr by (metis insert_iff list.set(2))
qed

lemma find_receiver_address_spec:
  assumes "ms \<noteq> []" and "\<forall>m \<in> set ms. cm_address m \<noteq> None"
  shows "\<exists>x \<in> set ms. find_receiver_address ms = Inr (cm_address x) \<and>
    (if \<exists>m \<in> set ms. cm_is_custom_address m
     then cm_is_custom_address x \<and> (\<forall>m \<in> set ms. cm_is_custom_address m \<longrightarrow> beats_custom x m)
     else \<forall>m \<in> set ms. beats_early x m)"
proof (cases "\<exists>m \<in> set ms. cm_is_custom_address m")
  case True
  from custom_loop [of ms None] assms obtain r where r: "fold_res custom_step ms None = Inr r"
    "case r of None \<Rightarrow> \<forall>m \<in> set ms. \<not> cm_is_custom_address m
     | Some x \<Rightarrow> x \<in> set ms \<and> cm_is_custom_address x \<and>
         (\<forall>m \<in> set ms. cm_is_custom_address m \<longrightarrow> beats_custom x m)"
    by (auto split: option.splits)
  then obtain x where "r = Some x" using True by (cases r) auto
  then show ?thesis using True r by (auto simp: find_receiver_address_def)
next
  case False
  obtain m rest where m: "ms = m # rest" using assms(1) by (cases ms) auto
  then show ?thesis using False earliest_loop [of rest m] assms(2) by (auto simp: find_receiver_address_def)
qed

lemma find_receiver_address_set:
  assumes "set ms = set ns" and "\<forall>m \<in> set ms. cm_address m \<noteq> None"
  shows "find_receiver_address ms = find_receiver_address ns"
proof (cases "ms = []")
  case True
  then show ?thesis using assms by simp
next
  case False
  with assms(1) have "ns \<noteq> []" by auto
  from find_receiver_address_spec [OF False assms(2)] find_receiver_address_spec [OF this] assms
  obtain x y where xy: "x \<in> set ms" "y \<in> set ms" "find_receiver_address ms = Inr (cm_address x)"
    "find_receiver_address ns = Inr (cm_address y)"
    "if \<exists>m \<in> set ms. cm_is_custom_address m
     then cm_is_custom_address x \<and> (\<forall>m \<in> set ms. cm_is_custom_address m \<longrightarrow> beats_custom x m)
     else \<forall>m \<in> set ms. beats_early x m"
    "if \<exists>m \<in> set ms. cm_is_custom_address m
     then cm_is_custom_address y \<and> (\<forall>m \<in> set ms. cm_is_custom_address m \<longrightarrow> beats_custom y m)
     else \<forall>m \<in> set ms. beats_early y m"
    by auto
  then have "beats_custom x y \<and> beats_custom y x \<or> beats_early x y \<and> beats_early y x"
    by (auto split: if_splits)
  then have "the (cm_address x) = the (cm_address y)" by (auto simp: beats_custom_def beats_early_def)
  moreover have "cm_address x \<noteq> None" "cm_address y \<noteq> None" using xy(1,2) assms(2) by auto
  ultimately show ?thesis using xy(3,4) by auto
qed

end
