(* ===== verification/Burn_Cap_Facts.thy ===== *)
theory Burn_Cap_Facts
  imports Burning_Man_Facts
begin

text \<open>
  The cap of the shares: what \<open>_impose_caps\<close> may change, that a candidate whose burn share is above
  its cap is capped, and that the final share of every candidate lies within its cap.
\<close>

section \<open>The fields the capping keeps\<close>

definition same_shares :: "candidate \<Rightarrow> candidate \<Rightarrow> bool" where
  "same_shares c d \<longleftrightarrow>
     bm_receiver_address c = bm_receiver_address d \<and> bm_compensation_share c = bm_compensation_share d \<and>
     bm_burn_amount_share c = bm_burn_amount_share d"

lemma same_shares_refl [simp]: "same_shares c c"
  by (simp add: same_shares_def)

lemma same_shares_cap:
  "same_shares c d \<Longrightarrow>
     get_max_boosted_compensation_share env c = get_max_boosted_compensation_share env d"
  by (simp add: same_shares_def get_max_boosted_compensation_share_def is_receiver_address_valid_def cong: if_cong)

lemma same_shares_valid:
  "same_shares c d \<Longrightarrow> is_receiver_address_valid env c = is_receiver_address_valid env d"
  by (simp add: same_shares_def is_receiver_address_valid_def)

lemma same_shares_ratio: "same_shares c d \<Longrightarrow> get_burn_cap_ratio env c = get_burn_cap_ratio env d"
  using same_shares_cap [of c d env] by (simp add: get_burn_cap_ratio_def) (simp add: same_shares_def)

lemma map_res_Inr: "map_res f xs = Inr ys \<longleftrightarrow> list_all2 (\<lambda>x y. f x = Inr y) xs ys"
  by (induction xs arbitrary: ys) (auto simp: rbind_eq_Inr list_all2_Cons1)

lemma map_res_Inl: "map_res f xs = Inl e \<Longrightarrow> \<exists>x \<in> set xs. f x = Inl e"
  by (induction xs) (auto simp: rbind_def split: sum.splits)

lemma list_all2_members:
  assumes "list_all2 P xs ys"
  shows "x \<in> set xs \<Longrightarrow> \<exists>y \<in> set ys. P x y" and "y \<in> set ys \<Longrightarrow> \<exists>x \<in> set xs. P x y"
  using assms by (induction rule: list_all2_induct) auto

lemma map_values_res_Inr:
  assumes "map_values_res f d = Inr e" and "(k, w) \<in> set e"
  shows "\<exists>v. (k, v) \<in> set d \<and> f v = Inr w"
proof -
  have "list_all2 (\<lambda>x y. (case x of (k, v) \<Rightarrow> rbind (f v) (\<lambda>w. Inr (k, w))) = Inr y) d e"
    using assms(1) by (simp add: map_values_res_def map_res_Inr)
  from list_all2_members(2) [OF this assms(2)] show ?thesis by (auto simp: rbind_eq_Inr)
qed

lemma map_values_res_all:
  assumes "map_values_res f d = Inr e" and "(k, v) \<in> set d" shows "\<exists>w. f v = Inr w"
proof -
  have "list_all2 (\<lambda>x y. (case x of (k, v) \<Rightarrow> rbind (f v) (\<lambda>w. Inr (k, w))) = Inr y) d e"
    using assms(1) by (simp add: map_values_res_def map_res_Inr)
  from list_all2_members(1) [OF this assms(2)] show ?thesis by (auto simp: rbind_eq_Inr)
qed

lemma map_values_res_Inl: "map_values_res f d = Inl e \<Longrightarrow> \<exists>(k, v) \<in> set d. f v = Inl e"
  unfolding map_values_res_def by (drule map_res_Inl) (fastforce simp: rbind_def split: sum.splits)

lemma filter_res_members: "filter_res f xs = Inr ys \<Longrightarrow> y \<in> set ys \<Longrightarrow> y \<in> set xs \<and> f y = Inr True"
  by (induction xs arbitrary: ys) (auto simp: rbind_eq_Inr split: if_splits)

lemma impose_cap_same [simp]: "same_shares (impose_cap k a c) c" "bm_round_capped (impose_cap k a c) = Some k"
  by (simp_all add: same_shares_def impose_cap_def)

lemma calculate_capped_same:
  "calculate_capped_and_adjusted_shares env a b n c = Inr c' \<Longrightarrow> same_shares c' c"
  by (auto simp: same_shares_def calculate_capped_and_adjusted_shares_def Let_def rbind_eq_Inr)

text \<open>A dictionary of candidates after the loop: the same names, each candidate with the same shares
  and capped only when its ratio is positive.\<close>

definition capped_from ::
  "'e burn_env_scheme \<Rightarrow> (string \<times> candidate) list \<Rightarrow> (string \<times> candidate) list \<Rightarrow> bool" where
  "capped_from env d e \<longleftrightarrow>
     map fst e = map fst d \<and>
     (\<forall>(k, c) \<in> set e. \<exists>c0. (k, c0) \<in> set d \<and> same_shares c c0 \<and>
        (bm_round_capped c \<noteq> None \<longrightarrow>
           (\<exists>r. get_burn_cap_ratio env c0 = Inr r \<and> 0 < r)))"

lemma capped_from_refl:
  "\<forall>(k, c) \<in> set d. bm_round_capped c = None \<Longrightarrow> capped_from env d d"
  by (fastforce simp: capped_from_def)

lemma update_fst: "k \<in> set (map fst d) \<Longrightarrow> map fst (AList.update k v d) = map fst d"
  by (induction d) auto

lemma set_update:
  "(a, b) \<in> set (AList.update k v d) \<Longrightarrow> distinct (map fst d) \<Longrightarrow>
     a = k \<and> b = v \<or> a \<noteq> k \<and> (a, b) \<in> set d"
proof (induction d)
  case (Cons p d)
  obtain x y where p: "p = (x, y)" by fastforce
  show ?case
  proof (cases "x = k")
    case True
    then show ?thesis using Cons.prems by (force simp: p)
  next
    case False
    then show ?thesis using Cons by (auto simp: p)
  qed
qed auto

text \<open>When the caps imposed so far add up to one, the loop divides by zero at the next candidate, before it
  checks that nothing remains.\<close>

lemma capping_can_divide_by_zero:
  "impose_caps_loop env limit (x # xs) d thr rb 0 k = Inl Zero_Division_Error"
  by (cases x) (simp add: fdiv_def)

text \<open>One round of the loop: it stops, or caps a candidate of positive ratio and goes on.\<close>

lemma impose_caps_loop_cases:
  assumes "impose_caps_loop env limit ((name, c) # rest) e thr rb rc k = Inr (e', k')"
  obtains (stop) "e' = e" and "k' = k + 1"
  | (cap) r thr' rb' rc' k1 a where "get_burn_cap_ratio env c = Inr r" and "0 < r"
      and "impose_caps_loop env limit rest (AList.update name (impose_cap k1 a c) e) thr' rb' rc' k1 = Inr (e', k')"
proof -
  obtain inv where inv: "fdiv rb rc = Inr inv" using assms by (auto simp: rbind_eq_Inr)
  obtain r where r: "get_burn_cap_ratio env c = Inr r" using assms inv by (auto simp: rbind_eq_Inr)
  show thesis
  proof (cases "rc \<le> 0 \<or> r \<le> 0 \<or> r < inv \<or> limit \<and> r < 1")
    case True
    then show thesis using assms inv r stop by simp
  next
    case False
    obtain thr' k1 where t: "(if r < thr then (inv, k + 1) else (thr, k)) = (thr', k1)" by fastforce
    then obtain a cap where
      "impose_caps_loop env limit rest (AList.update name (impose_cap k1 a c) e) thr'
          (fsub rb (bm_burn_amount_share c)) (fsub rc cap) k1 = Inr (e', k')"
      using assms False by (auto simp: inv r t rbind_eq_Inr)
    then show thesis using cap r False by simp
  qed
qed

lemma capped_from_update:
  assumes "capped_from env d e" and "distinct (map fst d)" and "(name, c) \<in> set d"
    and r: "get_burn_cap_ratio env c = Inr r" "0 < r"
  shows "capped_from env d (AList.update name (impose_cap k1 a c) e)"
  unfolding capped_from_def
proof (intro conjI)
  have fst: "map fst e = map fst d" using assms(1) by (simp add: capped_from_def)
  have n: "name \<in> set (map fst e)" unfolding fst using assms(3) by force
  show "map fst (AList.update name (impose_cap k1 a c) e) = map fst d"
    using update_fst [OF n] fst by simp
  show "\<forall>(k, c') \<in> set (AList.update name (impose_cap k1 a c) e). \<exists>c0. (k, c0) \<in> set d \<and> same_shares c' c0 \<and>
      (bm_round_capped c' \<noteq> None \<longrightarrow> (\<exists>r. get_burn_cap_ratio env c0 = Inr r \<and> 0 < r))"
  proof clarify
    fix k c' assume "(k, c') \<in> set (AList.update name (impose_cap k1 a c) e)"
    from set_update [OF this] fst assms(2)
    have "k = name \<and> c' = impose_cap k1 a c \<or> (k, c') \<in> set e" by auto
    then show "\<exists>c0. (k, c0) \<in> set d \<and> same_shares c' c0 \<and>
      (bm_round_capped c' \<noteq> None \<longrightarrow> (\<exists>r. get_burn_cap_ratio env c0 = Inr r \<and> 0 < r))"
    proof
      assume "k = name \<and> c' = impose_cap k1 a c"
      then show ?thesis using assms(3) r by (intro exI [of _ c]) auto
    next
      assume "(k, c') \<in> set e"
      then show ?thesis using assms(1) by (fastforce simp: capped_from_def)
    qed
  qed
qed

lemma impose_caps_loop_from:
  assumes "impose_caps_loop env limit xs e thr rb rc k = Inr (e', k')"
    and "distinct (map fst d)" and "capped_from env d e" and "set xs \<subseteq> set d"
  shows "capped_from env d e'"
  using assms(1,3,4)
proof (induction xs arbitrary: e thr rb rc k)
  case (Cons x xs)
  obtain name c where x: "x = (name, c)" by fastforce
  from Cons.prems(1) [unfolded x] show ?case
  proof (cases rule: impose_caps_loop_cases)
    case (cap r thr' rb' rc' k1 a)
    have "(name, c) \<in> set d" using Cons.prems(3) by (simp add: x)
    from capped_from_update [OF Cons.prems(2) assms(2) this cap(1,2)] Cons.IH [OF cap(3)] Cons.prems(3)
    show ?thesis by simp
  qed (use Cons.prems in simp)
qed simp

lemma update_member: "(k, v) \<in> set (AList.update k v d)"
  by (induction d) auto

lemma impose_caps_loop_some:
  assumes "impose_caps_loop env limit xs e thr rb rc k = Inr (e', k')"
    and "\<exists>(n, c) \<in> set e. bm_round_capped c \<noteq> None"
  shows "\<exists>(n, c) \<in> set e'. bm_round_capped c \<noteq> None"
  using assms
proof (induction xs arbitrary: e thr rb rc k)
  case (Cons x xs)
  obtain name c where x: "x = (name, c)" by fastforce
  from Cons.prems(1) [unfolded x] show ?case
  proof (cases rule: impose_caps_loop_cases)
    case (cap r thr' rb' rc' k1 a)
    have "\<exists>(n, c) \<in> set (AList.update name (impose_cap k1 a c) e). bm_round_capped c \<noteq> None"
      using update_member [of name "impose_cap k1 a c" e] by (intro bexI) auto
    from Cons.IH [OF cap(3) this] show ?thesis .
  qed (use Cons.prems in simp)
qed simp

text \<open>The keys of the sort: every ratio was computed.\<close>

lemma ratio_keys:
  "fold_res (\<lambda>(name, c) acc. rbind (get_burn_cap_ratio env c) (\<lambda>r. Inr (acc @ [(r, name, c)]))) d acc = Inr keyed \<Longrightarrow>
     \<exists>ks. keyed = acc @ ks \<and> map snd ks = d \<and> (\<forall>(r, name, c) \<in> set ks. get_burn_cap_ratio env c = Inr r)"
proof (induction d arbitrary: acc)
  case (Cons p d)
  obtain name c where p: "p = (name, c)" by fastforce
  obtain r where r: "get_burn_cap_ratio env c = Inr r"
    and f: "fold_res (\<lambda>(name, c) acc. rbind (get_burn_cap_ratio env c) (\<lambda>r. Inr (acc @ [(r, name, c)]))) d
        (acc @ [(r, name, c)]) = Inr keyed"
    using Cons.prems by (auto simp: p rbind_eq_Inr)
  from Cons.IH [OF f] obtain ks where "keyed = (acc @ [(r, name, c)]) @ ks" "map snd ks = d"
    "\<forall>(r, name, c) \<in> set ks. get_burn_cap_ratio env c = Inr r" by blast
  then show ?case using r by (intro exI [of _ "(r, name, c) # ks"]) (auto simp: p)
qed simp

lemma ratio_keys_error:
  "fold_res (\<lambda>(name, c) acc. rbind (get_burn_cap_ratio env c) (\<lambda>r. Inr (acc @ [(r, name, c)]))) d acc = Inl e \<Longrightarrow>
     \<exists>(name, c) \<in> set d. get_burn_cap_ratio env c = Inl e"
proof (induction d arbitrary: acc)
  case (Cons p d)
  obtain n b where p: "p = (n, b)" by fastforce
  show ?case
  proof (cases "get_burn_cap_ratio env b")
    case (Inl e')
    then show ?thesis using Cons.prems by (simp add: p)
  next
    case (Inr r)
    then show ?thesis using Cons by (auto simp: p)
  qed
qed simp

lemma impose_caps_from:
  assumes "impose_caps env d limit = Inr (e, k)" and "distinct (map fst d)"
    and "\<forall>(n, c) \<in> set d. bm_round_capped c = None"
  shows "capped_from env d e" and "\<forall>(n, c) \<in> set d. \<exists>r. get_burn_cap_ratio env c = Inr r"
    and "(\<forall>(n, c) \<in> set e. bm_round_capped c = None) \<Longrightarrow>
      \<forall>(n, c) \<in> set d. \<forall>r. get_burn_cap_ratio env c = Inr r \<longrightarrow> r < 1"
proof -
  obtain keyed where keyed:
    "fold_res (\<lambda>(name, c) acc. rbind (get_burn_cap_ratio env c) (\<lambda>r. Inr (acc @ [(r, name, c)]))) d [] = Inr keyed"
    and loop: "impose_caps_loop env limit (map snd (sort_key (\<lambda>x. - fst x) keyed)) d 1 1 1 0 = Inr (e, k)"
    using assms(1) by (auto simp: impose_caps_def rbind_eq_Inr)
  from ratio_keys [OF keyed] have ks: "map snd keyed = d"
    "\<forall>(r, name, c) \<in> set keyed. get_burn_cap_ratio env c = Inr r" by auto
  let ?sorted = "sort_key (\<lambda>x. - fst x) keyed"
  have sub: "set (map snd ?sorted) \<subseteq> set d" by (simp add: ks(1) [symmetric])
  show capped: "capped_from env d e"
    by (rule impose_caps_loop_from [OF loop assms(2) capped_from_refl [OF assms(3)] sub])
  show "\<forall>(n, c) \<in> set d. \<exists>r. get_burn_cap_ratio env c = Inr r"
    using ks(2) by (force simp: ks(1) [symmetric])
  show "\<forall>(n, c) \<in> set d. \<forall>r. get_burn_cap_ratio env c = Inr r \<longrightarrow> r < 1"
    if none: "\<forall>(n, c) \<in> set e. bm_round_capped c = None"
  proof (cases ?sorted)
    case Nil
    then have "keyed = []" by (metis length_0_conv length_sort)
    then show ?thesis using ks(1) by simp
  next
    case (Cons x xs)
    obtain r n c where x: "x = (r, n, c)" by (cases x) auto
    have mem: "(r, n, c) \<in> set keyed" using Cons x set_sort [of "\<lambda>x. - fst x" keyed] by auto
    then have r: "get_burn_cap_ratio env c = Inr r" using ks(2) by auto
    have max: "\<forall>y \<in> set keyed. fst y \<le> r"
    proof -
      have "sorted (map (\<lambda>x. - fst x) ?sorted)" by (rule sorted_sort_key)
      then have "\<forall>y \<in> set ?sorted. - r \<le> - fst y" by (auto simp: Cons x)
      then show ?thesis by simp
    qed
    have "r < 1"
    proof (rule ccontr)
      assume "\<not> r < 1"
      then have r1: "\<not> ((1::rat) \<le> 0 \<or> r \<le> 0 \<or> r < 1 \<or> limit \<and> r < 1)" by auto
      have one: "fdiv 1 1 = Inr (1 :: rat)" by (simp add: fdiv_def)
      obtain a where a: "fdiv (bm_burn_amount_share c) 1 = Inr a" by (simp add: fdiv_def)
      obtain cap where cap: "get_max_boosted_compensation_share env c = Inr cap"
        using loop r1 by (auto simp: Cons x one r a rbind_eq_Inr)
      have rest: "impose_caps_loop env limit (map snd xs) (AList.update n (impose_cap 0 a c) d) 1
          (fsub 1 (bm_burn_amount_share c)) (fsub 1 cap) 0 = Inr (e, k)"
        using loop r1 by (simp add: Cons x one r a cap)
      have "\<exists>(n, c) \<in> set e. bm_round_capped c \<noteq> None"
        using update_member [of n "impose_cap 0 a c" d]
        by (intro impose_caps_loop_some [OF rest] bexI) auto
      with none show False by auto
    qed
    show ?thesis
    proof clarify
      fix n' c' r' assume "(n', c') \<in> set d" and r': "get_burn_cap_ratio env c' = Inr r'"
      then obtain y where y: "y \<in> set keyed" "snd y = (n', c')" using ks(1) by auto
      then have "fst y = r'" using ks(2) r' by (cases y) auto
      then show "r' < 1" using max y(1) \<open>r < 1\<close> by force
    qed
  qed
qed

section \<open>The final shares\<close>

definition candidate_ok :: "candidate \<Rightarrow> bool" where
  "candidate_ok c \<longleftrightarrow>
     bm_round_capped c = None \<and> 0 \<le> bm_decayed_compensation_amount c \<and> 0 \<le> bm_decayed_burn_amount c"

lemma map_values_simps:
  "map fst (map_values f d) = map fst d" "set (map_values f d) = (\<lambda>(k, v). (k, f v)) ` set d"
  by (auto simp: map_values_def)

lemma calculate_shares_sel:
  "bm_round_capped (calculate_shares a b c) = bm_round_capped c"
  "bm_receiver_address (calculate_shares a b c) = bm_receiver_address c"
  "bm_decayed_burn_amount (calculate_shares a b c) = bm_decayed_burn_amount c"
  by (simp_all add: calculate_shares_def)

lemma calculate_shares_nonneg:
  assumes "candidate_ok c"
  shows "0 \<le> bm_burn_amount_share (calculate_shares a b c)"
    and "0 \<le> bm_compensation_share (calculate_shares a b c)"
  using assms by (auto simp: calculate_shares_def candidate_ok_def intro!: to_float_nonneg)

lemma max_burn_share_nonneg: "0 \<le> MAX_BURN_SHARE"
  by (simp add: MAX_BURN_SHARE_def to_float_nonneg)

lemma cap_nonneg:
  "0 \<le> bm_compensation_share c \<Longrightarrow> get_max_boosted_compensation_share env c = Inr cap \<Longrightarrow> 0 \<le> cap"
  by (auto simp: get_max_boosted_compensation_share_def max_burn_share_nonneg fmul_def
      ISSUANCE_BOOST_FACTOR_def to_float_nonneg rbind_eq_Inr)

lemma cap_le_max: "get_max_boosted_compensation_share env c = Inr cap \<Longrightarrow> cap \<le> MAX_BURN_SHARE"
  using max_burn_share_nonneg by (auto simp: get_max_boosted_compensation_share_def rbind_eq_Inr)

lemma positive_ratio_cap:
  assumes "get_burn_cap_ratio env c = Inr r" and "0 < bm_burn_amount_share c"
  shows "\<exists>cap. get_max_boosted_compensation_share env c = Inr cap \<and> cap \<noteq> 0 \<and>
    fdiv (bm_burn_amount_share c) cap = Inr r"
  using assms by (auto simp: get_burn_cap_ratio_def rbind_eq_Inr fdiv_Inr)

text \<open>The last step bounds the share by the cap when the candidates without a cap that do not take part
  in the redistribution are below theirs.\<close>

lemma final_share_le_cap:
  assumes "calculate_capped_and_adjusted_shares env sum_capped sum_non_capped n c = Inr c'"
    and "get_max_boosted_compensation_share env c = Inr cap"
    and "bm_round_capped c = None \<Longrightarrow> sum_capped = 0 \<or> sum_non_capped = 0 \<Longrightarrow> bm_burn_amount_share c \<le> cap"
  shows "bm_capped_burn_amount_share c' \<le> cap"
  using assms by (auto simp: calculate_capped_and_adjusted_shares_def Let_def)

text \<open>The candidates after the capping are those before it, with a cap only where the ratio is positive.\<close>

definition shared_out ::
  "(string \<times> candidate) list \<Rightarrow> (string \<times> candidate) list" where
  "shared_out d =
     map_values (calculate_shares (sum_list (map (bm_decayed_compensation_amount \<circ> snd) d))
       (sum_list (map (bm_decayed_burn_amount \<circ> snd) d))) d"

lemma shared_out_ok:
  assumes "\<forall>(k, c) \<in> set d. candidate_ok c" and "(k, b) \<in> set (shared_out d)"
  shows "bm_round_capped b = None" and "0 \<le> bm_burn_amount_share b" and "0 \<le> bm_compensation_share b"
  using assms calculate_shares_nonneg
  by (fastforce simp: shared_out_def map_values_simps calculate_shares_sel candidate_ok_def)+

lemma shared_out_keys [simp]: "map fst (shared_out d) = map fst d"
  by (simp add: shared_out_def map_values_simps)

lemma share_candidates_parts:
  assumes "share_candidates env limit d = Inr d2"
  obtains e n caps where "impose_caps env (shared_out d) limit = Inr (e, n)"
    and "map_res (get_max_boosted_compensation_share env \<circ> snd) (filter (\<lambda>x. bm_round_capped (snd x) \<noteq> None) e) = Inr caps"
    and "map_values_res (calculate_capped_and_adjusted_shares env (float_sum env caps)
           (float_sum env (map (bm_burn_amount_share \<circ> snd) (filter (\<lambda>x. bm_round_capped (snd x) = None) e))) n) e = Inr d2"
  using assms by (auto simp: share_candidates_def Let_def rbind_eq_Inr shared_out_def [symmetric] split: prod.splits)

lemma capped_from_member:
  assumes "capped_from env d e" and "(k, b) \<in> set e"
  obtains b0 where "(k, b0) \<in> set d" and "same_shares b b0"
    and "bm_round_capped b \<noteq> None \<Longrightarrow> \<exists>r. get_burn_cap_ratio env b0 = Inr r \<and> 0 < r"
  using assms by (fastforce simp: capped_from_def)

lemma share_candidates_within_cap:
  assumes "share_candidates env limit d = Inr d2" and "distinct (map fst d)"
    and "\<forall>(k, c) \<in> set d. candidate_ok c" and fair: "fair_sum (float_sum env)"
    and "(name, c) \<in> set d2"
  shows "\<exists>cap. get_max_boosted_compensation_share env c = Inr cap \<and> bm_capped_burn_amount_share c \<le> cap"
proof -
  obtain e n caps where e: "impose_caps env (shared_out d) limit = Inr (e, n)"
    and caps: "map_res (get_max_boosted_compensation_share env \<circ> snd) (filter (\<lambda>x. bm_round_capped (snd x) \<noteq> None) e) = Inr caps"
    and d2: "map_values_res (calculate_capped_and_adjusted_shares env (float_sum env caps)
        (float_sum env (map (bm_burn_amount_share \<circ> snd) (filter (\<lambda>x. bm_round_capped (snd x) = None) e))) n) e = Inr d2"
    using assms(1) by (rule share_candidates_parts)
  let ?free = "map (bm_burn_amount_share \<circ> snd) (filter (\<lambda>x. bm_round_capped (snd x) = None) e)"
  have dist: "distinct (map fst (shared_out d))" using assms(2) by simp
  have none: "\<forall>(k, b) \<in> set (shared_out d). bm_round_capped b = None" using shared_out_ok(1) [OF assms(3)] by blast
  note imposed = impose_caps_from [OF e dist none]
  have nonneg: "0 \<le> bm_burn_amount_share b \<and> 0 \<le> bm_compensation_share b" if m: "(k, b) \<in> set e" for k b
  proof -
    obtain b0 where "(k, b0) \<in> set (shared_out d)" "same_shares b b0"
      using capped_from_member [OF imposed(1) m] by blast
    then show ?thesis using shared_out_ok(2,3) [OF assms(3)] by (simp add: same_shares_def)
  qed
  have all: "list_all2 (\<lambda>x y. (get_max_boosted_compensation_share env \<circ> snd) x = Inr y)
      (filter (\<lambda>x. bm_round_capped (snd x) \<noteq> None) e) caps"
    using caps by (simp only: map_res_Inr)
  have nn: "\<forall>x \<in> set caps. 0 \<le> x"
    using list_all2_members(2) [OF all] nonneg cap_nonneg by fastforce
  have nn_free: "\<forall>x \<in> set ?free. 0 \<le> x" using nonneg by fastforce
  have sums: "float_sum env caps = 0 \<longleftrightarrow> (\<forall>x \<in> set caps. x = 0)"
    "float_sum env ?free = 0 \<longleftrightarrow> (\<forall>x \<in> set ?free. x = 0)"
    using fair nn nn_free unfolding fair_sum_def by blast+
  obtain b where b: "(name, b) \<in> set e"
    and c: "calculate_capped_and_adjusted_shares env (float_sum env caps) (float_sum env ?free) n b = Inr c"
    using map_values_res_Inr [OF d2 assms(5)] by blast
  obtain cap where cap: "get_max_boosted_compensation_share env b = Inr cap"
    using c by (auto simp: calculate_capped_and_adjusted_shares_def rbind_eq_Inr)
  have low: "bm_burn_amount_share b \<le> cap"
    if free: "bm_round_capped b = None" and z: "float_sum env caps = 0 \<or> float_sum env ?free = 0"
  proof (cases "bm_burn_amount_share b = 0")
    case True
    then show ?thesis using nonneg [OF b] cap_nonneg [OF _ cap] by simp
  next
    case False
    have "float_sum env ?free \<noteq> 0" using sums(2) False b free by force
    with z have zero: "\<forall>x \<in> set caps. x = 0" using sums(1) by blast
    have "\<forall>(k, x) \<in> set e. bm_round_capped x = None"
    proof (clarify, rule ccontr)
      fix k x assume x: "(k, x) \<in> set e" "bm_round_capped x \<noteq> None"
      then obtain x0 r where x0: "same_shares x x0" "get_burn_cap_ratio env x0 = Inr r" "0 < r"
        using capped_from_member [OF imposed(1) x(1)] by blast
      then have "0 < bm_burn_amount_share x0" by (auto simp: get_burn_cap_ratio_def split: if_splits)
      from positive_ratio_cap [OF x0(2) this] obtain cx where
        cx: "get_max_boosted_compensation_share env x0 = Inr cx" "cx \<noteq> 0" by blast
      have "get_max_boosted_compensation_share env x = Inr cx"
        using cx(1) by (simp add: same_shares_cap [OF x0(1)])
      then have "cx \<in> set caps" using list_all2_members(1) [OF all, of "(k, x)"] x by auto
      with zero cx(2) show False by blast
    qed
    note small = imposed(3) [OF this]
    obtain b0 where b0: "(name, b0) \<in> set (shared_out d)" "same_shares b b0"
      using capped_from_member [OF imposed(1) b] by blast
    have pos: "0 < bm_burn_amount_share b0" using nonneg [OF b] False b0(2) by (simp add: same_shares_def)
    obtain r where r: "get_burn_cap_ratio env b0 = Inr r" "r < 1" using imposed(2) small b0(1) by blast
    have cap0: "get_max_boosted_compensation_share env b0 = Inr cap"
      using cap same_shares_cap [OF b0(2), of env] by simp
    have q: "fdiv (bm_burn_amount_share b0) cap = Inr r" "cap \<noteq> 0"
      using positive_ratio_cap [OF r(1) pos] cap0 by auto
    then have "0 < cap" using cap_nonneg [OF _ cap] nonneg [OF b] by force
    then have "bm_burn_amount_share b0 < cap" using fdiv_less_1 [OF q(1)] r(2) by blast
    then show ?thesis using b0(2) by (simp add: same_shares_def)
  qed
  have "bm_capped_burn_amount_share c \<le> cap" by (rule final_share_le_cap [OF c cap low])
  moreover have "get_max_boosted_compensation_share env c = Inr cap"
    using cap same_shares_cap [OF calculate_capped_same [OF c], of env] by simp
  ultimately show ?thesis by blast
qed

section \<open>Exceptions\<close>

text \<open>What the shares can raise: a division by zero, or what the validator raises for an address.\<close>

definition share_error :: "'e burn_env_scheme \<Rightarrow> (string \<times> candidate) list \<Rightarrow> py_error \<Rightarrow> bool" where
  "share_error env d e \<longleftrightarrow>
     e = Zero_Division_Error \<or> (\<exists>(k, c) \<in> set d. is_receiver_address_valid env c = Inl e)"

lemma cap_error: "get_max_boosted_compensation_share env c = Inl e \<Longrightarrow> is_receiver_address_valid env c = Inl e"
  by (auto simp: get_max_boosted_compensation_share_def rbind_def split: sum.splits)

lemma ratio_error:
  "get_burn_cap_ratio env c = Inl e \<Longrightarrow> e = Zero_Division_Error \<or> is_receiver_address_valid env c = Inl e"
  by (auto simp: get_burn_cap_ratio_def rbind_def fdiv_def split: sum.splits if_splits dest: cap_error)

lemma rbind_Inl: "rbind r f = Inl e \<longleftrightarrow> r = Inl e \<or> (\<exists>x. r = Inr x \<and> f x = Inl e)"
  by (auto simp: rbind_def split: sum.split)

lemma impose_caps_loop_error:
  "impose_caps_loop env limit xs e thr rb rc k = Inl err \<Longrightarrow> share_error env xs err"
proof (induction xs arbitrary: e thr rb rc k)
  case (Cons x xs)
  obtain name c where x: "x = (name, c)" by fastforce
  have mono: "share_error env xs err \<Longrightarrow> share_error env (x # xs) err" by (auto simp: share_error_def)
  show ?case
  proof (cases "share_error env xs err")
    case False
    then have "impose_caps_loop env limit xs e' thr' rb' rc' k' \<noteq> Inl err" for e' thr' rb' rc' k'
      using Cons.IH by blast
    then have "err = Zero_Division_Error \<or> get_burn_cap_ratio env c = Inl err \<or>
        get_max_boosted_compensation_share env c = Inl err"
      using Cons.prems by (auto simp: x rbind_Inl fdiv_def Let_def split: if_splits)
    then show ?thesis using ratio_error cap_error by (auto simp: share_error_def x)
  qed (rule mono)
qed simp

lemma share_error_sub:
  assumes "share_error env e err"
    and "\<And>k b. (k, b) \<in> set e \<Longrightarrow> \<exists>c. (k, c) \<in> set d \<and> bm_receiver_address b = bm_receiver_address c"
  shows "share_error env d err"
proof (cases "err = Zero_Division_Error")
  case False
  then obtain k b where b: "(k, b) \<in> set e" "is_receiver_address_valid env b = Inl err"
    using assms(1) by (auto simp: share_error_def)
  from assms(2) [OF b(1)] obtain c where "(k, c) \<in> set d" "is_receiver_address_valid env c = Inl err"
    using b(2) by (auto simp: is_receiver_address_valid_def)
  then show ?thesis by (auto simp: share_error_def)
qed (simp add: share_error_def)

lemma shared_out_member:
  "(k, b) \<in> set (shared_out d) \<Longrightarrow> \<exists>c. (k, c) \<in> set d \<and> bm_receiver_address b = bm_receiver_address c"
  by (auto simp: shared_out_def map_values_simps calculate_shares_sel)

lemma impose_caps_error:
  assumes "impose_caps env d limit = Inl err" shows "share_error env d err"
proof (cases "fold_res (\<lambda>(name, c) acc. rbind (get_burn_cap_ratio env c) (\<lambda>r. Inr (acc @ [(r, name, c)]))) d []")
  case (Inl e)
  then have "e = err" using assms by (simp add: impose_caps_def)
  with ratio_keys_error [OF Inl] show ?thesis using ratio_error by (fastforce simp: share_error_def)
next
  case (Inr keyed)
  then have "share_error env (map snd (sort_key (\<lambda>x. - fst x) keyed)) err"
    using assms by (auto simp: impose_caps_def intro: impose_caps_loop_error)
  moreover have "map snd keyed = d" using ratio_keys [OF Inr] by auto
  then have "set (map snd (sort_key (\<lambda>x. - fst x) keyed)) = set d" by (simp add: image_set)
  ultimately show ?thesis by (elim share_error_sub) blast
qed

lemma share_candidates_error:
  assumes "share_candidates env limit d = Inl err" and "distinct (map fst d)"
    and "\<forall>(k, c) \<in> set d. candidate_ok c"
  shows "share_error env d err"
proof (cases "impose_caps env (shared_out d) limit")
  case (Inl e)
  then have "e = err" using assms(1) by (simp add: share_candidates_def Let_def shared_out_def)
  with impose_caps_error [OF Inl] have "share_error env (shared_out d) err" by simp
  then show ?thesis by (rule share_error_sub) (rule shared_out_member)
next
  case (Inr en)
  obtain e n where en: "en = (e, n)" by fastforce
  have dist: "distinct (map fst (shared_out d))" using assms(2) by simp
  have none: "\<forall>(k, b) \<in> set (shared_out d). bm_round_capped b = None" using shared_out_ok(1) [OF assms(3)] by blast
  note from_d = impose_caps_from(1) [OF Inr [unfolded en] dist none]
  have sub: "\<exists>c. (k, c) \<in> set d \<and> bm_receiver_address b = bm_receiver_address c" if b: "(k, b) \<in> set e" for k b
  proof -
    obtain b0 where "(k, b0) \<in> set (shared_out d)" "same_shares b b0" using capped_from_member [OF from_d b] by blast
    then show ?thesis using shared_out_member by (fastforce simp: same_shares_def)
  qed
  have "\<exists>(k, b) \<in> set e. is_receiver_address_valid env b = Inl err"
  proof (cases "map_res (get_max_boosted_compensation_share env \<circ> snd) (filter (\<lambda>x. bm_round_capped (snd x) \<noteq> None) e)")
    case caps: (Inl e')
    then have "e' = err" using assms(1) Inr en by (simp add: share_candidates_def Let_def shared_out_def)
    with map_res_Inl [OF caps] show ?thesis by (auto dest!: cap_error)
  next
    case caps: (Inr caps)
    then have "map_values_res (calculate_capped_and_adjusted_shares env (float_sum env caps)
        (float_sum env (map (bm_burn_amount_share \<circ> snd) (filter (\<lambda>x. bm_round_capped (snd x) = None) e))) n) e = Inl err"
      using assms(1) Inr en by (simp add: share_candidates_def Let_def shared_out_def)
    from map_values_res_Inl [OF this] show ?thesis
      by (auto simp: calculate_capped_and_adjusted_shares_def rbind_Inl dest!: cap_error)
  qed
  then have "share_error env e err" by (simp add: share_error_def)
  then show ?thesis by (rule share_error_sub) (rule sub)
qed

text \<open>A candidate whose address the validator cannot parse, or who burned and whose cap is zero, makes
  the computation raise.\<close>

lemma share_candidates_raises:
  assumes "(name, c) \<in> set d" and "distinct (map fst d)" and ok: "\<forall>(k, b) \<in> set d. candidate_ok b"
    and bad: "(\<exists>e. is_receiver_address_valid env c = Inl e) \<or> 0 < bm_decayed_burn_amount c \<and>
      (bm_decayed_compensation_amount c = 0 \<or> is_receiver_address_valid env c = Inr False)"
  shows "\<exists>err. share_candidates env limit d = Inl err"
proof (rule ccontr)
  assume "\<not> ?thesis"
  then obtain d2 where d2: "share_candidates env limit d = Inr d2" by (cases "share_candidates env limit d") auto
  let ?tc = "sum_list (map (bm_decayed_compensation_amount \<circ> snd) d)"
  let ?tb = "sum_list (map (bm_decayed_burn_amount \<circ> snd) d)"
  let ?c = "calculate_shares ?tc ?tb c"
  have c: "(name, ?c) \<in> set (shared_out d)" using assms(1) by (force simp: shared_out_def map_values_simps)
  obtain e n caps where e: "impose_caps env (shared_out d) limit = Inr (e, n)"
    and all: "map_values_res (calculate_capped_and_adjusted_shares env (float_sum env caps)
        (float_sum env (map (bm_burn_amount_share \<circ> snd) (filter (\<lambda>x. bm_round_capped (snd x) = None) e))) n) e = Inr d2"
    using d2 by (rule share_candidates_parts)
  have dist: "distinct (map fst (shared_out d))" using assms(2) by simp
  have none: "\<forall>(k, b) \<in> set (shared_out d). bm_round_capped b = None" using shared_out_ok(1) [OF ok] by blast
  note imposed = impose_caps_from [OF e dist none]
  have "map fst e = map fst (shared_out d)" using imposed(1) by (simp only: capped_from_def)
  moreover have "name \<in> set (map fst (shared_out d))" using imageI [OF c, of fst] by (simp only: set_map fst_conv)
  ultimately have "name \<in> set (map fst e)" by (simp only:)
  then obtain b where b: "(name, b) \<in> set e" by auto
  obtain b0 where "(name, b0) \<in> set (shared_out d)" "same_shares b b0"
    using capped_from_member [OF imposed(1) b] by blast
  then have same: "same_shares b ?c" using eq_key_imp_eq_value [OF dist c] by blast
  have v: "is_receiver_address_valid env b = is_receiver_address_valid env c"
    using same by (simp add: same_shares_def is_receiver_address_valid_def calculate_shares_sel)
  obtain w where "is_receiver_address_valid env b = Inr w"
    using map_values_res_all [OF all b]
    by (auto simp: calculate_capped_and_adjusted_shares_def get_max_boosted_compensation_share_def rbind_eq_Inr)
  then have burned: "0 < bm_decayed_burn_amount c"
    and zero: "bm_decayed_compensation_amount c = 0 \<or> is_receiver_address_valid env c = Inr False"
    using bad v by auto
  have "bm_decayed_burn_amount c \<le> ?tb"
    using assms(1) ok by (intro member_le_sum_list) (auto simp: candidate_ok_def intro: rev_image_eqI)
  then have pos: "0 < bm_burn_amount_share ?c"
    using burned by (simp add: calculate_shares_def to_float_gt_0)
  obtain r where "get_burn_cap_ratio env ?c = Inr r" using imposed(2) c by blast
  from positive_ratio_cap [OF this pos] obtain cap where
    "get_max_boosted_compensation_share env ?c = Inr cap" "cap \<noteq> 0" by blast
  then show False
    using zero max_burn_share_nonneg
    by (auto simp: get_max_boosted_compensation_share_def is_receiver_address_valid_def calculate_shares_def
        fmul_def rbind_eq_Inr split: option.splits if_splits)
qed

end
