(* ===== verification/Burn_Receiver_Facts.thy ===== *)
theory Burn_Receiver_Facts
  imports Burn_Cap_Facts
begin

text \<open>
  The candidates that the service collects satisfy what the capping needs; the delayed payout
  receivers and their limits; the draw of the fee receiver; the burn target.
\<close>

section \<open>Collecting the candidates\<close>

definition candidates_fine :: "(string \<times> candidate) list \<Rightarrow> bool" where
  "candidates_fine d \<longleftrightarrow> distinct (map fst d) \<and> (\<forall>(k, c) \<in> set d. candidate_ok c)"

definition genesis_values_ok :: "'a dao_service_scheme \<Rightarrow> bool" where
  "genesis_values_ok s \<longleftrightarrow>
     (\<forall>g. get_tx s (genesis_tx_id s) = Some g \<longrightarrow> (\<forall>out \<in> set (tx_outputs g). 0 \<le> txo_value out))"

lemma candidate_of_ok: "candidates_fine d \<Longrightarrow> candidate_ok (candidate_of name d)"
  by (auto simp: candidate_of_def candidates_fine_def candidate_ok_def new_candidate_def
      split: option.split dest!: map_of_SomeD)

lemma candidates_fine_update:
  "candidates_fine d \<Longrightarrow> candidate_ok c \<Longrightarrow> candidates_fine (AList.update name c d)"
  using set_update [of _ _ name c d] by (fastforce simp: candidates_fine_def distinct_update)

lemma add_burn_output_ok:
  "candidate_ok c \<Longrightarrow> 0 \<le> bo_decayed_amount b \<Longrightarrow> candidate_ok (add_burn_output_model env b c)"
  by (simp add: add_burn_output_model_def candidate_ok_def Let_def)

lemma decayed_burned_nonneg: "get_decayed_burned_amount s a ih h = Inr d \<Longrightarrow> 0 \<le> d"
  using decayed_nonneg by (auto simp: get_decayed_burned_amount_def)

lemma add_burn_outputs_ok:
  assumes "add_burn_outputs env s h by_hash name c = Inr c'" and "candidate_ok c"
  shows "candidate_ok c'"
  using assms unfolding add_burn_outputs_def
proof (induction rule: fold_res_inv)
  case (step out u v)
  then show ?case
    by (auto simp: rbind_eq_Inr Let_def intro!: add_burn_output_ok dest: decayed_burned_nonneg)
qed

lemma add_compensation_ok:
  "add_compensation_model env m c = Inr c' \<Longrightarrow> candidate_ok c \<Longrightarrow> 0 \<le> cm_decayed_amount m \<Longrightarrow> candidate_ok c'"
  by (auto simp: add_compensation_model_def candidate_ok_def rbind_eq_Inr Let_def split: if_splits)

lemma add_request_ok:
  assumes "add_request env s h name a custom iss c = Inr c'" and "candidate_ok c"
  shows "candidate_ok c'"
  using assms add_compensation_ok decayed_nonneg
  by (fastforce simp: add_request_def Let_def rbind_eq_Inr get_decayed_compensation_amount_def
      from_compensation_request_def split: if_splits)

lemma process_contributor_fine:
  assumes "process_contributor env s h by_hash iss p d = Inr d'" and "candidates_fine d"
  shows "candidates_fine d'"
proof -
  obtain address c c' where c: "(case address of
        Some a \<Rightarrow> if a = [] then Inr (candidate_of (prop_name p) d)
                  else add_request env s h (prop_name p) a (get_burning_man_receiver_address p \<noteq> None) iss
                         (candidate_of (prop_name p) d)
      | None \<Rightarrow> Inr (candidate_of (prop_name p) d)) = Inr c"
    and c': "add_burn_outputs env s h by_hash (prop_name p) c = Inr c'" "d' = AList.update (prop_name p) c' d"
    using assms(1) unfolding process_contributor_def Let_def rbind_eq_Inr by blast
  have "candidate_ok c"
    using c candidate_of_ok [OF assms(2)] by (auto split: option.splits if_splits dest: add_request_ok)
  then show ?thesis using add_burn_outputs_ok [OF c'(1)] candidates_fine_update assms(2) c'(2) by blast
qed

lemma process_genesis_fine:
  assumes "process_genesis_output env s h by_hash out d = Inr d'" and "candidates_fine d"
    and "0 \<le> txo_value out"
  shows "candidates_fine d'"
proof -
  let ?name = "genesis_output_name out"
  obtain c c' m where c: "add_compensation_model env m (candidate_of ?name d) = Inr c"
      "cm_decayed_amount m = get_decayed_genesis_output_amount (txo_value out)"
    and c': "add_burn_outputs env s h by_hash ?name c = Inr c'" "d' = AList.update ?name c' d"
    using assms(1) by (fastforce simp: process_genesis_output_def Let_def rbind_eq_Inr from_genesis_output_def)
  have "0 \<le> get_decayed_genesis_output_amount (txo_value out)"
    unfolding get_decayed_genesis_output_amount_def fmul_def float_of_int_def GENESIS_OUTPUT_AMOUNT_FACTOR_def
    using assms(3) by (intro py_round_nonneg to_float_nonneg mult_nonneg_nonneg) simp_all
  then have "candidate_ok c" using add_compensation_ok [OF c(1) candidate_of_ok [OF assms(2)]] c(2) by simp
  then show ?thesis using add_burn_outputs_ok [OF c'(1)] candidates_fine_update assms(2) c'(2) by blast
qed

lemma for_each_compensation_inv [consumes 1, case_names init step]:
  assumes "for_each_compensation_issuance s h action d = Inr d'" and "P d"
    and "\<And>iss p u v. action iss p u = Inr v \<Longrightarrow> P u \<Longrightarrow> P v"
  shows "P d'"
  using assms(1,2) unfolding for_each_compensation_issuance_def
proof (induction rule: fold_res_inv)
  case (step pp u v)
  then show ?case
    by (auto simp: Let_def split: proposal_kind.splits option.splits if_splits intro: assms(3))
qed

lemma collect_candidates_fine:
  assumes "collect_candidates env s h = Inr d" and "genesis_values_ok s"
  shows "candidates_fine d"
proof -
  obtain by_hash d0 where d0:
    "for_each_compensation_issuance s h (process_contributor env s h by_hash) [] = Inr d0"
    and d: "case get_tx s (genesis_tx_id s) of
         None \<Rightarrow> d = d0
       | Some g \<Rightarrow> fold_res (process_genesis_output env s h by_hash) (tx_outputs g) d0 = Inr d"
    using assms(1) by (auto simp: collect_candidates_def rbind_eq_Inr split: option.splits)
  have fine: "candidates_fine d0"
    using d0
  proof (induction rule: for_each_compensation_inv)
    case init
    show ?case by (simp add: candidates_fine_def)
  next
    case (step iss p u v)
    then show ?case by (rule process_contributor_fine)
  qed
  show ?thesis
  proof (cases "get_tx s (genesis_tx_id s)")
    case None
    then show ?thesis using d fine by simp
  next
    case (Some g)
    then have "fold_res (process_genesis_output env s h by_hash) (tx_outputs g) d0 = Inr d" using d by simp
    then show ?thesis
      using fine
    proof (induction rule: fold_res_inv)
      case (step out u v)
      then show ?case
        using assms(2) Some by (intro process_genesis_fine [OF step(2,3)]) (auto simp: genesis_values_ok_def)
    qed
  qed
qed

theorem candidates_within_cap:
  assumes "get_burning_man_candidates_by_name env s h limit = Inr d" and "genesis_values_ok s"
    and "fair_sum (float_sum env)" and "(name, c) \<in> set d"
  shows "\<exists>cap. get_max_boosted_compensation_share env c = Inr cap \<and> bm_capped_burn_amount_share c \<le> cap"
proof -
  obtain d0 where "collect_candidates env s h = Inr d0" "share_candidates env limit d0 = Inr d"
    using assms(1) by (auto simp: get_burning_man_candidates_by_name_def rbind_eq_Inr)
  then show ?thesis
    using collect_candidates_fine share_candidates_within_cap assms(2-4) by (metis candidates_fine_def)
qed

theorem zero_cap_raises:
  assumes "collect_candidates env s h = Inr d" and "genesis_values_ok s" and "(name, c) \<in> set d"
    and bad: "(\<exists>e. is_receiver_address_valid env c = Inl e) \<or> 0 < bm_decayed_burn_amount c \<and>
      (bm_decayed_compensation_amount c = 0 \<or> is_receiver_address_valid env c = Inr False)"
  shows "\<exists>err. get_burning_man_candidates_by_name env s h limit = Inl err \<and> share_error env d err"
proof -
  have ok: "distinct (map fst d)" "\<forall>(k, b) \<in> set d. candidate_ok b"
    using collect_candidates_fine [OF assms(1,2)] by (simp_all add: candidates_fine_def)
  obtain err where err: "share_candidates env limit d = Inl err"
    using share_candidates_raises [OF assms(3) ok bad] by blast
  then show ?thesis
    using share_candidates_error [OF err ok] assms(1) by (simp add: get_burning_man_candidates_by_name_def)
qed

section \<open>The delayed payout receivers\<close>

text \<open>The output of one candidate; the loop concatenates them.\<close>

definition dpt_output :: "bool \<Rightarrow> int \<Rightarrow> int \<Rightarrow> int \<Rightarrow> rat \<Rightarrow> candidate \<Rightarrow> (int \<times> string) list" where
  "dpt_output bugfix spendable min_output max_output adjustment c =
     (case get_receiver_address c bugfix of
        None \<Rightarrow> []
      | Some a \<Rightarrow>
          let amount = py_round (fmul (to_float (bm_capped_burn_amount_share c / adjustment)) (float_of_int spendable))
          in if a \<noteq> [] \<and> min_output \<le> amount \<and> amount \<le> max_output then [(amount, a)] else [])"

lemma dpt_loop_concat:
  assumes "adjustment \<noteq> 0"
  shows "dpt_receivers_loop bugfix spendable mn mx adjustment cs =
    Inr (concat (map (dpt_output bugfix spendable mn mx adjustment) cs))"
proof -
  have "fold_res (\<lambda>c receivers.
       case get_receiver_address c bugfix of
         None \<Rightarrow> Inr receivers
       | Some a \<Rightarrow>
           if a = [] then Inr receivers
           else rbind (fdiv (bm_capped_burn_amount_share c) adjustment) (\<lambda>share.
             let amount = py_round (fmul share (float_of_int spendable))
             in Inr (if mn \<le> amount \<and> amount \<le> mx then receivers @ [(amount, a)] else receivers))) cs acc
    = Inr (acc @ concat (map (dpt_output bugfix spendable mn mx adjustment) cs))" for acc
    using assms
    by (induction cs arbitrary: acc) (auto simp: fdiv_def dpt_output_def Let_def split: option.split)
  from this [of "[]"] show ?thesis by (simp add: dpt_receivers_loop_def)
qed

lemma dpt_loop_zero:
  "dpt_receivers_loop bugfix spendable mn mx 0 cs =
     (if \<forall>c \<in> set cs. get_receiver_address c bugfix \<in> {None, Some []} then Inr [] else Inl Zero_Division_Error)"
proof -
  have "fold_res (\<lambda>c receivers.
       case get_receiver_address c bugfix of
         None \<Rightarrow> Inr receivers
       | Some a \<Rightarrow>
           if a = [] then Inr receivers
           else rbind (fdiv (bm_capped_burn_amount_share c) 0) (\<lambda>share.
             let amount = py_round (fmul share (float_of_int spendable))
             in Inr (if mn \<le> amount \<and> amount \<le> mx then receivers @ [(amount, a)] else receivers))) cs acc
    = (if \<forall>c \<in> set cs. get_receiver_address c bugfix \<in> {None, Some []} then Inr acc else Inl Zero_Division_Error)" for acc
    by (induction cs) (auto simp: fdiv_def split: option.split)
  from this [of "[]"] show ?thesis by (simp add: dpt_receivers_loop_def)
qed

lemma dpt_loop_members:
  assumes "dpt_receivers_loop bugfix spendable mn mx adjustment cs = Inr rs" and "(x, a) \<in> set rs"
  shows "mn \<le> x \<and> x \<le> mx \<and> a \<noteq> [] \<and> (\<exists>c \<in> set cs. get_receiver_address c bugfix = Some a)"
proof (cases "adjustment = 0")
  case True
  then show ?thesis using assms by (auto simp: dpt_loop_zero split: if_splits)
next
  case False
  then have "rs = concat (map (dpt_output bugfix spendable mn mx adjustment) cs)"
    using assms(1) by (simp add: dpt_loop_concat)
  then obtain c where "c \<in> set cs" "(x, a) \<in> set (dpt_output bugfix spendable mn mx adjustment c)"
    using assms(2) by auto
  then show ?thesis by (auto simp: dpt_output_def Let_def split: option.splits if_splits)
qed

subsection \<open>The order of the receivers\<close>

lemma sort_receivers_lex: "sort_receivers rs = sort rs"
proof -
  have same: "sort_key snd q = sort q" if q: "\<forall>x \<in> set q. fst x = k" for q :: "(int \<times> string) list" and k
  proof (rule properties_for_sort [symmetric])
    show "mset (sort_key snd q) = mset q" by simp
    have "sorted (map snd (sort_key snd q))" by simp
    then have "sorted_wrt (\<lambda>x y. snd x \<le> snd y) (sort_key snd q)" by (simp only: sorted_map)
    then show "sorted (sort_key snd q)"
    proof (rule sorted_wrt_mono_rel [rotated])
      fix x y assume "x \<in> set (sort_key snd q)" "y \<in> set (sort_key snd q)" "snd x \<le> snd y"
      then have "fst x = k" "fst y = k" "snd x \<le> snd y" using q by simp_all
      then show "x \<le> y" by (cases x, cases y) simp
    qed
  qed
  show ?thesis
    unfolding sort_receivers_def
  proof (rule properties_for_sort_key)
    show "mset (sort rs) = mset (sort_key snd rs)" by simp
    show "filter (\<lambda>x. fst k = fst x) (sort rs) = filter (\<lambda>x. fst k = fst x) (sort_key snd rs)" for k
      using same [of "filter (\<lambda>x. fst k = fst x) rs" "fst k"] by (simp add: filter_sort)
    have "sorted (sort rs)" by simp
    then show "sorted (map fst (sort rs))"
      unfolding sorted_map by (rule sorted_wrt_mono_rel [rotated]) (auto simp: less_eq_prod_def)
  qed
qed

lemma sort_receivers_props [simp]: "set (sort_receivers rs) = set rs" "mset (sort_receivers rs) = mset rs"
  "sorted (sort_receivers rs)" "sum_list (map fst (sort_receivers rs)) = sum_list (map fst rs)"
proof -
  show "set (sort_receivers rs) = set rs" "mset (sort_receivers rs) = mset rs" "sorted (sort_receivers rs)"
    by (simp_all add: sort_receivers_lex)
  have "mset (map fst (sort_receivers rs)) = mset (map fst rs)" by (simp add: sort_receivers_lex)
  then show "sum_list (map fst (sort_receivers rs)) = sum_list (map fst rs)"
    by (metis sum_mset_sum_list)
qed

lemma sort_receivers_mset: "mset rs = mset qs \<Longrightarrow> sort_receivers rs = sort_receivers qs"
  by (simp add: sort_receivers_lex) (metis mset_sort properties_for_sort sorted_sort)

lemma mset_concat_map:
  assumes "mset xs = mset ys"
  shows "mset (concat (map f xs)) = mset (concat (map f ys))"
proof -
  have "mset (concat (map f zs)) = (\<Sum>z \<in># mset zs. mset (f z))" for zs by (induction zs) auto
  then show ?thesis using assms by simp
qed

theorem receivers_of_permuted:
  assumes "mset cs = mset ds"
    and "dpt_adjustment env bugfix (get_spendable_amount (int (length cs)) input_amount fee_rate)
           (dpt_min_output fee_rate) cs =
         dpt_adjustment env bugfix (get_spendable_amount (int (length cs)) input_amount fee_rate)
           (dpt_min_output fee_rate) ds"
  shows "receivers_of env bugfix input_amount fee_rate a cs = receivers_of env bugfix input_amount fee_rate a ds"
proof -
  have l: "length ds = length cs" and st: "set ds = set cs" and e: "ds = [] \<longleftrightarrow> cs = []"
    using assms(1) by (metis size_mset, metis set_mset_mset, metis mset_zero_iff)
  have loop: "rbind (dpt_receivers_loop bugfix sp mn mx adj cs) (\<lambda>rs. Inr (add_remainder sp a (sort_receivers rs))) =
      rbind (dpt_receivers_loop bugfix sp mn mx adj ds) (\<lambda>rs. Inr (add_remainder sp a (sort_receivers rs)))"
    for sp mn mx adj
    using sort_receivers_mset [OF mset_concat_map [OF assms(1), of "dpt_output bugfix sp mn mx adj"]] st
    by (cases "adj = 0") (simp_all add: dpt_loop_concat dpt_loop_zero)
  show ?thesis using assms(2) e by (simp add: receivers_of_def Let_def l loop)
qed

subsection \<open>Amounts\<close>

theorem receivers_of_limits:
  assumes "receivers_of env bugfix input_amount fee_rate legacy cs = Inr rs" and "cs \<noteq> []"
  defines "spendable \<equiv> get_spendable_amount (int (length cs)) input_amount fee_rate"
  obtains own where "rs = own \<or> rs = own @ [(spendable - sum_list (map fst own), legacy)] \<and>
      25000 < spendable - sum_list (map fst own)"
    and "sorted own"
    and "\<forall>(x, a) \<in> set own. dpt_min_output fee_rate \<le> x \<and> x \<le> dpt_max_output spendable \<and> a \<noteq> []"
    and "spendable \<le> sum_list (map fst rs) + 25000"
proof -
  let ?adj = "dpt_adjustment env bugfix spendable (dpt_min_output fee_rate) cs"
  obtain rs0 where rs0: "dpt_receivers_loop bugfix spendable (dpt_min_output fee_rate) (dpt_max_output spendable) ?adj cs = Inr rs0"
    and rs: "rs = add_remainder spendable legacy (sort_receivers rs0)"
    using assms(1,2) by (auto simp: receivers_of_def Let_def rbind_eq_Inr spendable_def)
  show thesis
  proof (rule that [of "sort_receivers rs0"])
    show "rs = sort_receivers rs0 \<or> rs = sort_receivers rs0 @
        [(spendable - sum_list (map fst (sort_receivers rs0)), legacy)] \<and>
        25000 < spendable - sum_list (map fst (sort_receivers rs0))"
      by (auto simp: rs add_remainder_def DPT_MIN_REMAINDER_TO_LEGACY_BM_def Let_def)
    show "sorted (sort_receivers rs0)" by simp
    show "\<forall>(x, a) \<in> set (sort_receivers rs0). dpt_min_output fee_rate \<le> x \<and> x \<le> dpt_max_output spendable \<and> a \<noteq> []"
      using dpt_loop_members [OF rs0] by (auto simp del: map_map)
    show "spendable \<le> sum_list (map fst rs) + 25000"
      by (auto simp: rs add_remainder_def DPT_MIN_REMAINDER_TO_LEGACY_BM_def Let_def)
  qed
qed

end
