(* ===== verification/Burn_Draw_Facts.thy ===== *)
theory Burn_Draw_Facts
  imports Burn_Receiver_Facts
begin

text \<open>
  The draw of the fee receiver picks each candidate with its weight; the height at which the burning
  men are selected; what the burn target counts.
\<close>

section \<open>The draw\<close>

lemma find_index_loop_ge:
  "current < t \<Longrightarrow> t \<le> current + sum_list ws \<Longrightarrow> k \<le> find_index_loop k current t ws \<and>
     find_index_loop k current t ws < k + int (length ws)"
proof (induction ws arbitrary: k current)
  case (Cons w ws)
  show ?case
  proof (cases "t \<le> current + w")
    case False
    then show ?thesis using Cons.IH [of "current + w" "k + 1"] Cons.prems by simp
  qed simp
qed simp

lemma find_index_loop_eq:
  assumes "\<forall>w \<in> set ws. 0 \<le> w" and "j < length ws" and "current < t" and "t \<le> current + sum_list ws"
  shows "find_index_loop k current t ws = k + int j \<longleftrightarrow>
    current + sum_list (take j ws) < t \<and> t \<le> current + sum_list (take (Suc j) ws)"
  using assms
proof (induction ws arbitrary: k current j)
  case (Cons w ws)
  have nn: "0 \<le> sum_list (take i ws)" for i
    using Cons.prems(1) by (intro sum_list_nonneg) (auto dest: in_set_takeD)
  show ?case
  proof (cases "t \<le> current + w")
    case True
    then show ?thesis using Cons.prems nn by (cases j) (auto, smt (verit) nn)
  next
    case False
    show ?thesis
    proof (cases j)
      case 0
      then show ?thesis
        using False Cons.prems find_index_loop_ge [of "current + w" t ws "k + 1"] by simp
    next
      case (Suc i)
      then show ?thesis
        using False Cons.prems Cons.IH [of i "current + w" "k + 1"] by (simp add: add.assoc)
    qed
  qed
qed simp

lemma find_index_card:
  assumes "\<forall>w \<in> set ws. 0 \<le> w" and "j < length ws"
  shows "card {t \<in> {1..sum_list ws}. find_index ws t = int j} = nat (ws ! j)"
proof -
  have tk: "sum_list (take (Suc j) ws) = sum_list (take j ws) + ws ! j"
    using assms(2) by (simp add: take_Suc_conv_app_nth)
  have nn: "0 \<le> sum_list (take j ws)" "0 \<le> sum_list (drop (Suc j) ws)"
    using assms(1) by (auto intro!: sum_list_nonneg dest: in_set_takeD in_set_dropD)
  have "sum_list ws = sum_list (take (Suc j) ws) + sum_list (drop (Suc j) ws)"
    by (metis append_take_drop_id sum_list_append)
  then have le: "sum_list (take (Suc j) ws) \<le> sum_list ws" using nn(2) by simp
  have "find_index ws t = int j \<longleftrightarrow> sum_list (take j ws) < t \<and> t \<le> sum_list (take (Suc j) ws)"
    if "t \<in> {1..sum_list ws}" for t
    using find_index_loop_eq [OF assms, of 0 t 0] that by (simp add: find_index_def)
  then have "{t \<in> {1..sum_list ws}. find_index ws t = int j} =
      {sum_list (take j ws) <.. sum_list (take j ws) + ws ! j}"
    using nn(1) le tk by auto
  then show ?thesis by simp
qed

lemma py_trunc_nonneg: "0 \<le> x \<Longrightarrow> 0 \<le> py_trunc x"
  by (simp add: py_trunc_def)

lemma fee_weights_props:
  assumes "\<forall>c \<in> set cs. 0 \<le> bm_capped_burn_amount_share c"
  shows "\<forall>w \<in> set (fee_weights cs). 0 \<le> w" and "10000 \<le> sum_list (fee_weights cs)"
    and "length cs \<le> length (fee_weights cs)" and "length (fee_weights cs) \<le> length cs + 1"
    and "i < length cs \<Longrightarrow> fee_weights cs ! i = py_trunc (fmul (bm_capped_burn_amount_share (cs ! i)) 10000)"
  using assms
  by (auto simp: fee_weights_def Let_def fee_ceiling_def fmul_def nth_append intro!: py_trunc_nonneg to_float_nonneg)

text \<open>For every random number in its range an address is returned, and the number of random numbers
  that select position \<open>i\<close> is its weight.\<close>

theorem fee_draw:
  assumes "cs \<noteq> []" and "\<forall>c \<in> set cs. 0 \<le> bm_capped_burn_amount_share c"
  shows "t \<in> {1..sum_list (fee_weights cs)} \<Longrightarrow> is_ok (fee_address_of legacy cs t)"
    and "i < length (fee_weights cs) \<Longrightarrow>
      card {t \<in> {1..sum_list (fee_weights cs)}. get_random_index (fee_weights cs) t = int i} =
        nat (fee_weights cs ! i)"
proof -
  note p = fee_weights_props [OF assms(2)]
  have r: "get_random_index (fee_weights cs) t = find_index (fee_weights cs) t" for t
    using p(2) by (simp add: get_random_index_def)
  show "card {t \<in> {1..sum_list (fee_weights cs)}. get_random_index (fee_weights cs) t = int i} =
        nat (fee_weights cs ! i)" if "i < length (fee_weights cs)"
    using find_index_card [OF p(1) that] by (simp add: r)
  show "is_ok (fee_address_of legacy cs t)" if t: "t \<in> {1..sum_list (fee_weights cs)}"
  proof -
    have "0 \<le> find_index (fee_weights cs) t" "find_index (fee_weights cs) t < int (length (fee_weights cs))"
      using find_index_loop_ge [of 0 t "fee_weights cs" 0] t by (simp_all add: find_index_def)
    then show ?thesis
      using p(4) by (auto simp: fee_address_of_def Let_def r is_ok_def)
  qed
qed

section \<open>The selection height\<close>

lemma round_near:
  assumes "\<bar>q - of_int h / 10\<bar> < 1 / 20"
  shows "\<bar>10 * py_round q - h\<bar> \<le> 5"
proof -
  have "\<bar>of_int (py_round q) - q\<bar> \<le> (1 / 2 :: rat)" by (rule py_round_error)
  with assms have "\<bar>of_int (py_round q) - of_int h / 10\<bar> < (11 / 20 :: rat)" by linarith
  then have "\<bar>10 * of_int (py_round q) - of_int h\<bar> < (11 / 2 :: rat)" unfolding abs_less_iff by linarith
  then have "\<bar>of_int (10 * py_round q - h)\<bar> < (6 :: rat)" by simp
  then have "(of_int \<bar>10 * py_round q - h\<bar> :: rat) < of_int 6" by (simp only: of_int_abs of_int_numeral)
  then have "\<bar>10 * py_round q - h\<bar> < 6" by (simp only: of_int_less_iff)
  then show ?thesis by simp
qed

theorem selection_height:
  assumes "0 \<le> genesis_block_height s" and "genesis_block_height s + 30 < h" and "h < 2 ^ 40"
  shows "\<exists>k. get_burning_man_selection_height s h = Inr (max (MIN_SNAPSHOT_HEIGHT (network s)) (10 * k)) \<and>
    h - 15 \<le> 10 * k \<and> 10 * k \<le> h - 5"
proof -
  let ?q = "to_float (of_int h / of_int 10) :: rat"
  have h: "0 < (of_int h :: rat)" "(of_int h :: rat) < 1099511627776"
    using assms of_int_less_iff [of h "2 ^ 40", where 'a = rat] by simp_all
  have "\<bar>?q - of_int h / 10\<bar> \<le> of_int h / 10 / 2 ^ 53"
    using to_float_error [of "of_int h / 10"] h by simp
  also have "\<dots> < 1 / 20" using h by simp
  finally have "\<bar>10 * py_round ?q - h\<bar> \<le> 5" by (rule round_near)
  then have "h - 5 \<le> 10 * py_round ?q" "10 * py_round ?q \<le> h + 5" unfolding abs_le_iff by linarith+
  then show ?thesis
    using assms(2)
    by (intro exI [of _ "py_round ?q - 1"])
      (simp add: get_burning_man_selection_height_def get_snapshot_height_def get_snapshot_height_internal_def
        py_div_def algebra_simps)
qed

text \<open>The example of the comment (\<open>139 -> 120\<close>) is not what the code computes, and a height half way
  between two grid points goes to the even one.\<close>

lemma selection_height_examples:
  "get_snapshot_height_internal 0 139 10 0 = Inr 130" "get_snapshot_height_internal 0 140 10 0 = Inr 130"
  "get_snapshot_height_internal 0 135 10 0 = Inr 130" "get_snapshot_height_internal 0 125 10 0 = Inr 110"
  by code_simp+

section \<open>The burn target\<close>

lemma get_reimbursements_empty: "get_reimbursements order s h = Inr []"
proof -
  have e: "get_reimbursement_proposals_for_issuance s i = []" for i
    by (simp add: get_reimbursement_proposals_for_issuance_def is_reimbursement_model_def)
  have "fold_res (\<lambda>iss acc.
       if iss_chain_height iss \<le> h
       then fold_res (\<lambda>p acc.
              rbind (cycle_index_at s (iss_chain_height iss)) (\<lambda>n.
                Inr (List.insert
                  \<lparr>rm_amount = iss_amount iss, rm_height = iss_chain_height iss,
                   rm_date = get_block_time s (iss_chain_height iss), rm_cycle_index = n,
                   rm_tx_id = prop_tx_id p\<rparr> acc)))
              (get_reimbursement_proposals_for_issuance s iss) acc
       else Inr acc) xs acc = Inr acc" for xs and acc :: "reimbursement_model list"
    by (induction xs) (simp_all add: e)
  then show ?thesis by (simp add: get_reimbursements_def)
qed

text \<open>No reimbursement enters the burn target: it is the estimated fees less the burned amounts.\<close>

theorem burn_target_without_reimbursements:
  assumes "get_burn_target env order s h cs = Inr target"
  shows "\<exists>fees dpt legacy_fees. target = fees - dpt - legacy_fees -
      get_burned_amount_from_burning_men cs h (height_of_past_cycle s h 12) \<and>
    get_accumulated_estimated_btc_trade_fees s h (height_of_past_cycle s h 11) = Inr fees"
  using assms
  by (auto simp: get_burn_target_def Let_def rbind_eq_Inr get_adjusted_accumulated_reimbursements_def
      get_reimbursements_empty NUM_CYCLES_BURN_TARGET_def)

end
