(* ===== verification/Burn_Examples.thy ===== *)
theory Burn_Examples
  imports Burn_Draw_Facts Gov_Examples
begin

text \<open>
  A small DAO with one burning man, for the witnesses, and the properties of the burning men.  The
  contributor of the compensation request of \<open>Gov_Examples\<close> burned BSQ for his name.
\<close>

section \<open>Examples\<close>

definition ex_hash :: "bytes \<Rightarrow> bytes" where
  "ex_hash bs = take 20 (bs @ replicate 20 0)"

definition ex_burn :: tx_output where
  "ex_burn = (ex_tx_output ''b'' 0 PROOF_OF_BURN_OP_RETURN_OUTPUT 0 0)
     \<lparr>txo_block_height := 120,
      txo_op_return_data := Some (proof_of_burn_op_return_data (ex_hash (concat (map utf8_char ''name''))))\<rparr>"

text \<open>The request names a receiver address of its own.  The network is the regtest: the first of the
  following addresses is one of it, the second one is of the main network, the third has no valid
  checksum.\<close>

definition ex_regtest_address :: string where "ex_regtest_address = ''mipcBbFg9gMiCh81Kj8tqqdgoZub1ZJRfn''"
definition ex_mainnet_address :: string where "ex_mainnet_address = ''1BoatSLRHtKNngkdXEeobR76b53LETtpyT''"
definition ex_malformed_address :: string where "ex_malformed_address = ''addr''"

definition ex_address_parser :: "string \<Rightarrow> unit res" where
  "ex_address_parser a =
     (if a = ex_regtest_address then Inr () else if a = ex_mainnet_address then Inl Address_Format_Exception
      else Inl Invalid_Checksum)"

definition ex_burn_gov_for :: "string \<Rightarrow> gov_service" where
  "ex_burn_gov_for a = ex_gov
     \<lparr>issuance_map := Map.empty(''c'' \<mapsto> \<lparr>iss_tx_id = ''c'', iss_chain_height = 119, iss_amount = 100000,
         iss_pub_key = None, iss_issuance_type = IT_COMPENSATION\<rparr>),
      tx_outputs_by_type := Map.empty(PROOF_OF_BURN_OP_RETURN_OUTPUT \<mapsto> {ex_burn}),
      tx_cache := ex_gov_txs @ [(''b'', (ex_tx ''b'' 120 [(''a'', 0)] [ex_burn] PROOF_OF_BURN)\<lparr>tx_burnt_bsq := 5000\<rparr>)],
      proposal_payloads := [\<lparr>pp_proposal =
        ex_request\<lparr>prop_extra_data_map := Some [(''burningManReceiverAddress'', a)]\<rparr>, pp_hash = [1]\<rparr>]\<rparr>"

definition ex_burn_gov :: gov_service where
  "ex_burn_gov = ex_burn_gov_for ex_regtest_address"

definition ex_list_of :: "'v set \<Rightarrow> 'v list" where
  "ex_list_of S = (SOME xs. set xs = S \<and> distinct xs)"

definition ex_burn_order :: "tx_output set \<Rightarrow> tx_output list" where
  "ex_burn_order S = (if S = {ex_burn} then [ex_burn] else ex_list_of S)"

definition ex_burn_env :: burn_env where
  "ex_burn_env =
     \<lparr>decrypt_votes_with_key = (\<lambda>_ _. None), decrypt_merits_with_key = (\<lambda>_ _. None),
      ecdsa_verify = (\<lambda>_ _ _. None), sha256_ripemd160 = ex_hash, serialize_for_hash = (\<lambda>_. []),
      address_format_ok = (\<lambda>_. True), order_outputs = ex_burn_order, order_ballots = (\<lambda>ds. ds),
      order_evaluated = (\<lambda>es. es), parse_btc_address = ex_address_parser, float_sum = sum_left, order_models = (\<lambda>ms. ms),
      order_txs = ex_list_of, start_of_month = (\<lambda>d. d div 2592000000)\<rparr>"

lemma ex_list_of_fair: "finite S \<Longrightarrow> set (ex_list_of S) = S \<and> distinct (ex_list_of S)"
  unfolding ex_list_of_def by (rule someI_ex) (rule finite_distinct_list)

lemma ex_burn_fair: "fair_burn_order ex_burn_env"
  by (auto simp: fair_burn_order_def ex_burn_env_def ex_burn_order_def ex_list_of_fair)

lemma ex_burn_sum: "fair_sum (float_sum ex_burn_env)"
  by (simp add: ex_burn_env_def sum_left_fair)

lemma ex_burn_genesis: "genesis_values_ok (ex_burn_gov_for a)"
  by (simp add: genesis_values_ok_def ex_burn_gov_for_def ex_gov_def ex_gov_txs_def get_tx_def ex_tx_def)

lemma single_result:
  assumes "case r of Inr [(n, c)] \<Rightarrow> P n c | _ \<Rightarrow> False"
  shows "\<exists>n c. r = Inr [(n, c)] \<and> P n c"
proof -
  obtain xs where r: "r = Inr xs" using assms by (cases r) auto
  then obtain n c ps where xs: "xs = (n, c) # ps" using assms by (cases xs) auto
  then have "ps = []" using assms r by (cases ps) auto
  then show ?thesis using assms r xs by simp
qed

lemma ex_addresses:
  "ex_regtest_address \<noteq> ex_mainnet_address" "ex_malformed_address \<noteq> ex_regtest_address"
  "ex_malformed_address \<noteq> ex_mainnet_address"
  "py_strip ex_regtest_address \<noteq> []" "py_strip ex_mainnet_address \<noteq> []" "py_strip ex_malformed_address \<noteq> []"
  "ex_mainnet_address \<noteq> []" "ex_malformed_address \<noteq> []"
  by (simp_all add: ex_regtest_address_def ex_mainnet_address_def ex_malformed_address_def py_strip_def is_space_def)

lemma ex_validity:
  "bm_receiver_address c = Some ex_regtest_address \<Longrightarrow> is_receiver_address_valid ex_burn_env c = Inr True"
  "bm_receiver_address c = Some ex_mainnet_address \<Longrightarrow> is_receiver_address_valid ex_burn_env c = Inr False"
  "bm_receiver_address c = Some ex_malformed_address \<Longrightarrow> is_receiver_address_valid ex_burn_env c = Inl Invalid_Checksum"
  using ex_addresses by (auto simp: is_receiver_address_valid_def ex_burn_env_def ex_address_parser_def validate_btc_address_def)

lemma ex_burn_collected:
  "case collect_candidates ex_burn_env (ex_burn_gov_for (x # xs)) 122 of
     Inr [(n, c)] \<Rightarrow> n = ''name'' \<and> bm_decayed_burn_amount c = 4091 \<and> bm_receiver_address c = Some (x # xs)
   | _ \<Rightarrow> False"
  by code_simp

lemma ex_burn_man_for:
  assumes "a \<noteq> []"
  shows "\<exists>n c. collect_candidates ex_burn_env (ex_burn_gov_for a) 122 = Inr [(n, c)] \<and>
    bm_decayed_burn_amount c = 4091 \<and> bm_receiver_address c = Some a"
proof -
  obtain x xs where "a = x # xs" using assms by (cases a) auto
  then show ?thesis using single_result [OF ex_burn_collected [of x xs]] by auto
qed

lemma ex_burn_shares:
  "case get_burning_man_candidates_by_name ex_burn_env ex_burn_gov 122 False of
     Inr [(n, c)] \<Rightarrow> n = ''name'' \<and> bm_capped_burn_amount_share c = MAX_BURN_SHARE \<and>
       bm_receiver_address c = Some ex_regtest_address
   | _ \<Rightarrow> False"
  by code_simp

lemma ex_burn_man:
  "\<exists>c. get_burning_man_candidates_by_name ex_burn_env ex_burn_gov 122 False = Inr [(''name'', c)] \<and>
     get_active_burning_man_candidates ex_burn_env ex_burn_gov 122 False = Inr [c] \<and>
     bm_capped_burn_amount_share c = MAX_BURN_SHARE \<and> bm_receiver_address c = Some ex_regtest_address"
proof -
  have "0 < MAX_BURN_SHARE" by (simp add: MAX_BURN_SHARE_def to_float_gt_0)
  then show ?thesis
    using single_result [OF ex_burn_shares]
    by (auto simp: get_active_burning_man_candidates_def ex_validity)
qed

lemma ex_burn_receivers:
  "is_ok (get_receivers ex_burn_env ex_burn_gov 122 1000000 5000 True True)"
proof -
  obtain c where c: "get_active_burning_man_candidates ex_burn_env ex_burn_gov 122 False = Inr [c]"
    "bm_capped_burn_amount_share c = MAX_BURN_SHARE" "bm_receiver_address c = Some ex_regtest_address"
    using ex_burn_man by blast
  have "get_spendable_amount (int (length [c])) 1000000 (dpt_fee_rate 5000) = 998506" by code_simp
  moreover have "\<not> py_round (fmul MAX_BURN_SHARE (float_of_int 998506)) < dpt_min_output (dpt_fee_rate 5000)"
    by code_simp
  moreover have "MIN_SNAPSHOT_HEIGHT (network ex_burn_gov) \<le> 122" by code_simp
  moreover have "fsub 1 (float_sum ex_burn_env []) = 1"
    by (simp add: fsub_def sum_left_def ex_burn_env_def)
  ultimately show ?thesis
    by (simp add: get_receivers_def c receivers_of_def Let_def dpt_adjustment_def get_receiver_address_def
        dpt_loop_concat is_ok_def)
qed

definition ex_share :: "string \<Rightarrow> rat \<Rightarrow> candidate" where
  "ex_share a x = new_candidate
     \<lparr>bm_receiver_address := Some a, bm_most_recent_address := Some a, bm_capped_burn_amount_share := x\<rparr>"

text \<open>Seven candidates of 6.6 and nine of 5.5 percent, whose outputs are just below the minimum: the
  adjustment lifts the small ones above it, so that they are paid as well, and the outputs exceed the
  input.\<close>

definition ex_many :: "candidate list" where
  "ex_many = replicate 7 (ex_share ''big'' (to_float (33 / 500))) @
     replicate 9 (ex_share ''small'' (to_float (11 / 200)))"

lemma ex_many_adjustment:
  "dpt_adjustment ex_burn_env True 18100 1000 ex_many = 4548635623644201 / 9007199254740992"
proof -
  have big: "\<not> py_round (fmul (to_float (33 / 500)) (float_of_int 18100)) < 1000" by code_simp
  have small: "py_round (fmul (to_float (11 / 200)) (float_of_int 18100)) < 1000" by code_simp
  have total: "fsub 1 (sum_left (replicate 9 (to_float (11 / 200)))) = 4548635623644201 / 9007199254740992"
    by code_simp
  show ?thesis
    using big small total
    by (simp add: dpt_adjustment_def ex_many_def ex_share_def get_receiver_address_def new_candidate_def
        ex_burn_env_def filter_replicate map_replicate)
qed

lemma outputs_can_exceed_input:
  "case receivers_of ex_burn_env True 23730 10 ''legacy'' ex_many of
     Inr rs \<Rightarrow> length rs = 16 \<and> 23730 < sum_list (map fst rs) | Inl _ \<Rightarrow> False"
proof -
  let ?out = "dpt_output True 18100 1000 (dpt_max_output 18100) (4548635623644201 / 9007199254740992)"
  have sp: "get_spendable_amount (int (length ex_many)) 23730 10 = 18100" "dpt_min_output 10 = 1000"
    by code_simp+
  have "?out (ex_share ''big'' (to_float (33 / 500))) = [(2366, ''big'')]"
    "?out (ex_share ''small'' (to_float (11 / 200))) = [(1971, ''small'')]" by code_simp+
  then have rs: "concat (map ?out ex_many) = replicate 7 (2366, ''big'') @ replicate 9 (1971, ''small'')"
    by (simp add: ex_many_def map_replicate numeral_eq_Suc)
  have "ex_many \<noteq> []" by (simp add: ex_many_def)
  then have r: "receivers_of ex_burn_env True 23730 10 ''legacy'' ex_many =
      Inr (add_remainder 18100 ''legacy'' (sort_receivers (replicate 7 (2366, ''big'') @ replicate 9 (1971, ''small''))))"
    by (simp add: receivers_of_def Let_def sp ex_many_adjustment dpt_loop_concat rs)
  have "add_remainder 18100 ''legacy'' (sort_receivers (replicate 7 (2366, ''big'') @ replicate 9 (1971, ''small''))) =
      sort_receivers (replicate 7 (2366, ''big'') @ replicate 9 (1971, ''small''))"
    by (simp add: add_remainder_def Let_def sum_list_replicate)
  moreover have "length (sort_receivers xs) = length xs" for xs by (simp add: sort_receivers_def)
  ultimately show ?thesis by (simp add: r sum_list_replicate)
qed

section \<open>Properties\<close>

text \<open>C17: The cap holds for every candidate: the share of the payouts a burning man receives is at most ten
  times his share of the compensation and at most \<open>MAX_BURN_SHARE\<close>, although the shares are computed with
  rounded floating-point numbers and what the capped candidates lose is given to the others.  It needs
  only that the genesis outputs are not negative and that the sum of non-negative floats is zero
  exactly when all are.\<close>
theorem burn_share_within_cap:
  assumes "get_burning_man_candidates_by_name env s h limit = Inr d" and "genesis_values_ok s"
    and "fair_sum (float_sum env)" and "(name, c) \<in> set d"
  shows "\<exists>cap. get_max_boosted_compensation_share env c = Inr cap \<and> bm_capped_burn_amount_share c \<le> cap \<and>
    bm_capped_burn_amount_share c \<le> MAX_BURN_SHARE"
proof -
  obtain cap where "get_max_boosted_compensation_share env c = Inr cap" "bm_capped_burn_amount_share c \<le> cap"
    using candidates_within_cap [OF assms] by blast
  then show ?thesis using cap_le_max [of env c cap] by auto
qed

lemma burn_share_within_cap_witness:
  "\<exists>d c. get_burning_man_candidates_by_name ex_burn_env ex_burn_gov 122 False = Inr d \<and>
     (''name'', c) \<in> set d \<and> bm_capped_burn_amount_share c \<le> MAX_BURN_SHARE"
proof -
  obtain c where d: "get_burning_man_candidates_by_name ex_burn_env ex_burn_gov 122 False = Inr [(''name'', c)]"
    using ex_burn_man by blast
  from burn_share_within_cap [OF d ex_burn_genesis [of ex_regtest_address, folded ex_burn_gov_def] ex_burn_sum, of "''name''" c] show ?thesis
    unfolding d by auto
qed

text \<open>C18: One contributor can stop the computation of the payout receivers for every node: when the
  validator raises on the receiver address of his request (a malformed address, as soon as his
  compensation is counted), or when he burned BSQ and his cap is zero (his compensation has decayed to
  nothing, or the validator answers that the address is not valid).  What is raised is the
  \<open>ZeroDivisionError\<close> of the division by the cap, unless the validator itself raises for a contributor.
  The code sets the cap to zero on purpose for addresses that are not valid.\<close>
theorem zero_cap_stops_receivers:
  assumes "MIN_SNAPSHOT_HEIGHT (network s) \<le> h" and "genesis_values_ok s"
    and "collect_candidates env s h = Inr d" and "(name, c) \<in> set d"
    and "(\<exists>e. is_receiver_address_valid env c = Inl e) \<or> 0 < bm_decayed_burn_amount c \<and>
      (bm_decayed_compensation_amount c = 0 \<or> is_receiver_address_valid env c = Inr False)"
  shows "\<exists>err. get_receivers env s h input_amount fee bugfix proposal_412 = Inl err \<and>
    (err = Zero_Division_Error \<or> (\<exists>(k, b) \<in> set d. is_receiver_address_valid env b = Inl err))"
proof -
  obtain err where "get_burning_man_candidates_by_name env s h (\<not> proposal_412) = Inl err" "share_error env d err"
    using zero_cap_raises [OF assms(3,2,4,5)] by blast
  then show ?thesis
    using assms(1) by (simp add: get_receivers_def get_active_burning_man_candidates_def share_error_def)
qed

lemma zero_cap_stops_receivers_witness:
  "get_receivers ex_burn_env (ex_burn_gov_for ex_mainnet_address) 122 1000000 5000 True True = Inl Zero_Division_Error \<and>
   (\<exists>err. get_receivers ex_burn_env (ex_burn_gov_for ex_malformed_address) 122 1000000 5000 True True = Inl err)"
proof
  have h: "MIN_SNAPSHOT_HEIGHT (network (ex_burn_gov_for a)) \<le> 122" for a
    by (simp add: ex_burn_gov_for_def ex_gov_def MIN_SNAPSHOT_HEIGHT_def is_regtest_def)
  obtain n c where c: "collect_candidates ex_burn_env (ex_burn_gov_for ex_mainnet_address) 122 = Inr [(n, c)]"
    "bm_decayed_burn_amount c = 4091" "is_receiver_address_valid ex_burn_env c = Inr False"
    using ex_burn_man_for [OF ex_addresses(7)] ex_validity(2) by blast
  from zero_cap_stops_receivers [OF h ex_burn_genesis c(1), of n c 1000000 5000 True True] c(2,3)
  show "get_receivers ex_burn_env (ex_burn_gov_for ex_mainnet_address) 122 1000000 5000 True True = Inl Zero_Division_Error"
    by auto
  obtain n b where b: "collect_candidates ex_burn_env (ex_burn_gov_for ex_malformed_address) 122 = Inr [(n, b)]"
    "is_receiver_address_valid ex_burn_env b = Inl Invalid_Checksum"
    using ex_burn_man_for [OF ex_addresses(8)] ex_validity(3) by blast
  from zero_cap_stops_receivers [OF h ex_burn_genesis b(1), of n b 1000000 5000 True True] b(2)
  show "\<exists>err. get_receivers ex_burn_env (ex_burn_gov_for ex_malformed_address) 122 1000000 5000 True True = Inl err"
    by auto
qed

text \<open>C19: The receivers of a delayed payout transaction: each output of a burning man lies between the
  minimum worth an output and 13.2 percent of the spendable amount, the list is sorted by amount and
  address, and the outputs leave at most 25000 satoshi of the spendable amount to the miner; a larger
  remainder goes to the legacy burning man as one output more.\<close>
theorem payout_receivers_bounded:
  assumes "get_receivers env s h input_amount fee bugfix proposal_412 = Inr rs"
    and "get_active_burning_man_candidates env s h (\<not> proposal_412) = Inr cs" and "cs \<noteq> []"
  shows "\<exists>own spendable. spendable = get_spendable_amount (int (length cs)) input_amount (dpt_fee_rate fee) \<and>
    (rs = own \<or> rs = own @ [(spendable - sum_list (map fst own), get_legacy_burning_man_address s h)] \<and>
       25000 < spendable - sum_list (map fst own)) \<and>
    sorted own \<and>
    (\<forall>(x, a) \<in> set own. dpt_min_output (dpt_fee_rate fee) \<le> x \<and> x \<le> dpt_max_output spendable \<and> a \<noteq> []) \<and>
    spendable \<le> sum_list (map fst rs) + 25000"
proof -
  have r: "receivers_of env bugfix input_amount (dpt_fee_rate fee) (get_legacy_burning_man_address s h) cs = Inr rs"
    using assms(1,2) by (auto simp: get_receivers_def rbind_eq_Inr)
  show ?thesis by (rule receivers_of_limits [OF r assms(3)]) blast
qed

lemma payout_receivers_bounded_witness:
  "\<exists>rs. get_receivers ex_burn_env ex_burn_gov 122 1000000 5000 True True = Inr rs \<and>
     998506 \<le> sum_list (map fst rs) + 25000"
proof -
  obtain c where c: "get_active_burning_man_candidates ex_burn_env ex_burn_gov 122 (\<not> True) = Inr [c]"
    using ex_burn_man by auto
  obtain rs where rs: "get_receivers ex_burn_env ex_burn_gov 122 1000000 5000 True True = Inr rs"
    using ex_burn_receivers by (auto simp: is_ok_iff)
  have "get_spendable_amount (int (length [c])) 1000000 (dpt_fee_rate 5000) = 998506" by code_simp
  then show ?thesis using payout_receivers_bounded [OF rs c] rs by auto
qed

text \<open>C20: Both traders compute the same receivers in whatever order their nodes found the candidates: if two
  lists hold the same candidates and the rounded sum of the small shares is the same, the outputs are
  the same list.\<close>
theorem payout_receivers_order_free:
  assumes "mset cs = mset ds"
    and "dpt_adjustment env bugfix (get_spendable_amount (int (length cs)) input_amount fee_rate)
           (dpt_min_output fee_rate) cs =
         dpt_adjustment env bugfix (get_spendable_amount (int (length cs)) input_amount fee_rate)
           (dpt_min_output fee_rate) ds"
  shows "receivers_of env bugfix input_amount fee_rate legacy cs = receivers_of env bugfix input_amount fee_rate legacy ds"
  by (rule receivers_of_permuted [OF assms])

lemma payout_receivers_order_free_witness:
  "receivers_of ex_burn_env True 1000000 10 ''l'' [ex_share ''a'' (1 / 16), ex_share ''b'' (1 / 32)] =
   receivers_of ex_burn_env True 1000000 10 ''l'' [ex_share ''b'' (1 / 32), ex_share ''a'' (1 / 16)]"
proof (rule payout_receivers_order_free)
  show "mset [ex_share ''a'' (1 / 16), ex_share ''b'' (1 / 32)] = mset [ex_share ''b'' (1 / 32), ex_share ''a'' (1 / 16)]"
    by simp
  show "dpt_adjustment ex_burn_env True (get_spendable_amount (int (length [ex_share ''a'' (1 / 16), ex_share ''b'' (1 / 32)])) 1000000 10)
      (dpt_min_output 10) [ex_share ''a'' (1 / 16), ex_share ''b'' (1 / 32)] =
    dpt_adjustment ex_burn_env True (get_spendable_amount (int (length [ex_share ''a'' (1 / 16), ex_share ''b'' (1 / 32)])) 1000000 10)
      (dpt_min_output 10) [ex_share ''b'' (1 / 32), ex_share ''a'' (1 / 16)]" by code_simp
qed

text \<open>C21: The receiver of a trade fee is drawn by share: for every random number in the range the call
  returns an address, and the number of random numbers that select the candidate at position \<open>i\<close> is his
  share in hundredths of a percent, rounded down; the weights add up to at least 100 percent.\<close>
theorem fee_receiver_drawn_by_share:
  assumes "get_active_burning_man_candidates env s h False = Inr cs" and "cs \<noteq> []"
  defines "weights \<equiv> fee_weights cs"
  shows "(\<forall>t \<in> {1..sum_list weights}. is_ok (get_fee_address env s h t)) \<and>
    10000 \<le> sum_list weights \<and>
    (\<forall>i < length cs. int (card {t \<in> {1..sum_list weights}. get_random_index weights t = int i}) =
       py_trunc (fmul (bm_capped_burn_amount_share (cs ! i)) 10000))"
proof -
  have nn: "\<forall>c \<in> set cs. 0 \<le> bm_capped_burn_amount_share c"
    using assms(1)
    by (fastforce simp: get_active_burning_man_candidates_def rbind_eq_Inr dest: filter_res_members split: if_splits)
  note p = fee_weights_props [OF nn] and draw = fee_draw [OF assms(2) nn]
  have "int (card {t \<in> {1..sum_list weights}. get_random_index weights t = int i}) =
       py_trunc (fmul (bm_capped_burn_amount_share (cs ! i)) 10000)" if i: "i < length cs" for i
  proof -
    have l: "i < length (fee_weights cs)" using i p(3) by simp
    then have "0 \<le> fee_weights cs ! i" using p(1) by simp
    then show ?thesis using draw(2) [OF l] p(5) [OF i] by (simp add: weights_def)
  qed
  moreover have "\<forall>t \<in> {1..sum_list weights}. is_ok (get_fee_address env s h t)"
    using draw(1) assms(1) by (simp add: get_fee_address_def weights_def)
  ultimately show ?thesis using p(2) by (simp add: weights_def)
qed

lemma fee_receiver_drawn_by_share_witness:
  "\<exists>c. get_active_burning_man_candidates ex_burn_env ex_burn_gov 122 False = Inr [c] \<and>
     10000 \<le> sum_list (fee_weights [c])"
proof -
  obtain c where c: "get_active_burning_man_candidates ex_burn_env ex_burn_gov 122 False = Inr [c]"
    using ex_burn_man by auto
  from fee_receiver_drawn_by_share [OF c] show ?thesis using c by auto
qed

text \<open>C29: The decay: an amount that is weighted by its age is never negative and never more than the amount
  itself, is the full amount at the current height and nothing at the past height, and an older
  amount never counts more than a younger one, rounding included.\<close>
theorem decayed_amount_bounded:
  assumes "get_decayed_amount a ih h p = Inr d" and "a < 2 ^ 53"
  shows "0 \<le> d \<and> d \<le> a \<and> (ih = h \<longrightarrow> d = a) \<and> (ih = p \<and> p < h \<longrightarrow> d = 0) \<and>
    (\<forall>j e. ih \<le> j \<and> get_decayed_amount a j h p = Inr e \<longrightarrow> d \<le> e)"
proof -
  have r: "ih \<le> h" "0 \<le> h" "0 \<le> a" "0 \<le> ih" using assms(1) by (simp_all add: get_decayed_amount_Inr)
  have "d = a" if "ih = h"
    using that assms decayed_ends(1) [of p h a] r by (cases "h \<le> p") (auto simp: get_decayed_amount_Inr)
  moreover have "d = 0" if "ih = p" "p < h" using that assms decayed_ends(2) [of p h a] r by auto
  ultimately show ?thesis using decayed_range [OF assms] decayed_mono [OF assms(1) _ _ assms(2)] by blast
qed

lemma decayed_amount_bounded_witness:
  "\<exists>d. get_decayed_amount 100000 119 122 111 = Inr d \<and> 0 \<le> d \<and> d \<le> 100000"
proof -
  have ok: "is_ok (get_decayed_amount 100000 119 122 111)" by (simp add: get_decayed_amount_ok)
  then obtain d where d: "get_decayed_amount 100000 119 122 111 = Inr d" by (auto simp: is_ok_iff)
  from decayed_amount_bounded [OF this] d show ?thesis by auto
qed

text \<open>C30: While the cached cycle objects are the state's, the caches of the cycle service answer as a search
  of the list of cycles would, and stay so.  After a snapshot has put other objects in the list, asking
  for the index of a height that was asked before raises a \<open>ValueError\<close>: the caches are not
  cleared, and cycles are compared by identity.\<close>
theorem past_cycle_cache_correct:
  assumes "cycle_cache_ok c" and "cycles s = map snd (dao_cycles c)"
  shows "(\<exists>d. get_chain_height_of_past_cycle (genesis_block_height s) h (int n) c =
        (Inr (height_of_past_cycle s h n), d) \<and> same_cycles c d) \<and>
    (\<exists>d. get_cycle_index_at_chain_height h c = (cycle_index_at s h, d) \<and> same_cycles c d) \<and>
    (\<forall>xs x. cycles_by_height c h = Some x \<and> fst x \<notin> fst ` set xs \<longrightarrow>
       fst (get_cycle_index_at_chain_height h (cycles_of_snapshot xs c)) = Inl Value_Error)"
  using past_height_cached [OF assms] cycle_index_cached [OF assms] cached_object_is_stale by blast

definition ex_cache :: cycles_in_dao where
  "ex_cache = \<lparr>dao_cycles = [(0, ex_cycle)], cycles_by_height = Map.empty(115 \<mapsto> (0, ex_cycle)),
     index_by_cycle = Map.empty, cycles_by_index = Map.empty\<rparr>"

lemma past_cycle_cache_correct_witness:
  "fst (get_chain_height_of_past_cycle 111 122 3 ex_cache) = Inr 111 \<and>
   fst (get_cycle_index_at_chain_height 115 (cycles_of_snapshot [(1, ex_cycle)] ex_cache)) = Inl Value_Error"
proof -
  have "covers 115 ex_cycle" by code_simp
  then have ok: "cycle_cache_ok ex_cache" by (simp add: cycle_cache_ok_def ex_cache_def)
  have cs: "cycles ex_burn_gov = map snd (dao_cycles ex_cache)" "genesis_block_height ex_burn_gov = 111"
    by (simp_all add: ex_burn_gov_def ex_burn_gov_for_def ex_gov_def ex_cache_def)
  have "height_of_past_cycle ex_burn_gov 122 3 = 111" by code_simp
  then have "fst (get_chain_height_of_past_cycle 111 122 3 ex_cache) = Inr 111"
    using past_cycle_cache_correct [OF ok cs(1), of 122 3] cs(2) by auto
  moreover have "cycles_by_height ex_cache 115 = Some (0, ex_cycle)" by (simp add: ex_cache_def)
  ultimately show ?thesis
    using past_cycle_cache_correct [OF ok cs(1), of 115 3] by fastforce
qed

end
