(* ===== verification/Spec2Isabelle.thy ===== *)
theory Spec2Isabelle
  imports Gov_Examples Java_HashMap P2P_Examples Bond_Examples Dao_Monitoring_Examples Burn_Examples
begin

text \<open>
  The BSQ DAO of the Bisq light client: chain state, transaction parser, cycles, the governance
  process from proposal to vote result, bonds and reputation, the monitoring of the state by its
  hash chain, the burning men who receive the trade fees and delayed payouts, the data structures
  below them, and the P2P storage that carries offers, proposals, votes and mailbox messages.

  \<^bold>\<open>The program.\<close>  The client follows the bitcoin chain and derives from it the state of the
  BSQ DAO: which outputs are coloured coins, which transactions are proposals, votes, bonds or fees,
  and which phase of which cycle a height lies in.  \<open>BlockParser.parse_block\<close> takes a raw block;
  \<open>TxParser.find_tx\<close> decides for each raw transaction, by its inputs (\<open>TxInputParser\<close>) and outputs
  (\<open>TxOutputParser\<close>, \<open>OpReturnParser\<close>), whether it is a BSQ transaction; \<open>DaoStateService\<close> holds
  the state and is the only one to change it, in the window that the parser events open.
  \<open>CycleService\<close> and \<open>PeriodService\<close> divide the chain into cycles and phases.  Proposals and blind
  votes arrive through the P2P network (\<open>ProposalService\<close>, \<open>BallotListService\<close>,
  \<open>BlindVoteListService\<close>); at the first block of the result phase \<open>VoteResultService\<close> decrypts the
  votes revealed on the chain, agrees on the majority list, evaluates the proposals and applies the
  accepted ones to the state: it issues BSQ, changes parameters and confiscates bonds.
  \<open>P2PDataStorage\<close> keeps what the peers publish: entries that only the owner of a signing key may
  add, refresh and remove, ordered by sequence numbers, and append-only payloads.  The bond
  repositories derive from the state which role, reputation or proof holds which lockup, and the
  monitoring services hash the state after each block, exchange the hashes with the peers and
  report the heights at which they differ.  The burning man services divide the fees of the traders
  and the payouts of failed trades among the contributors who burn BSQ: \<open>BurningManService\<close> turns
  compensations and burns into capped shares, \<open>DelayedPayoutTxReceiverService\<close> splits a payout by
  these shares, \<open>BtcFeeReceiverService\<close> draws a fee receiver by them, and \<open>BurnTargetService\<close> says
  how much is to be burned.  All traders must compute the same.

  \<^bold>\<open>Theories.\<close>  In the order of their imports (paths under \<open>src/bisq/core/dao\<close> unless they start
  with another directory):
  \<^item> \<open>Bisq_Prelude\<close>: results with errors (\<open>py_error + 'a\<close>, one constructor per exception the
    code raises), loops with errors (\<open>fold_res\<close>) and their invariant rules, actions that keep the
    state across an exception with the locale \<open>action_frame\<close> of what they may change, sums over
    finite maps.
  \<^item> \<open>Bisq_Bytes\<close>: Java string comparison, decimal integers as Python reads and prints them, the
    two-byte integers of \<open>bisq/common/util/utilities.py\<close>; \<open>Hex_Bytes\<close>: the hexadecimal form
    of bytes, which no two share.
  \<^item> \<open>Py_Float\<close>: the division and comparison of Python floats, by exact rounding to doubles.
  \<^item> \<open>Java_HashMap\<close>: the \<open>HashMap\<close> of \<open>utils/java_compat.py\<close> with its resize, and the locale
    \<open>map_contract\<close> it implements.
  \<^item> \<open>Dao_Model\<close>: \<open>state/model/blockchain\<close> and the raw and temporary forms of \<open>node/full\<close> and
    \<open>node/parser\<close>: enums as datatypes, classes as records that extend their base class.
  \<^item> \<open>Op_Return\<close>: the consensus classes that write and read OP_RETURN data, \<open>OpReturnParser\<close>;
    the locale \<open>op_return_format\<close> is interpreted for each of the eight kinds.
  \<^item> \<open>Dao_Cycle\<close>, \<open>Dao_Param\<close>: phases, cycles, parameters; the locale \<open>interval_schedule\<close> of
    segments that tile an interval is interpreted for the phases of a cycle here and for the cycles
    of the chain in \<open>Period_Service\<close>.
  \<^item> \<open>Gov_Model\<close>: \<open>state/model/governance\<close>: proposals, votes, ballots, merits, results, with the
    comparison methods the code uses for them.
  \<^item> \<open>Dao_State\<close>, \<open>Dao_Bond\<close>: \<open>DaoState\<close> and \<open>DaoStateService\<close>: state, snapshot, events,
    queries, unspent outputs, issuance, bonds, confiscation, parameter changes, vote results.
  \<^item> \<open>Utxo_Ledger\<close>: the locale \<open>coin_ledger\<close> (adding and removing outputs changes the total by
    their value) interpreted on the service.
  \<^item> \<open>Dao_Caches\<close>: the indices of the state are functions of its blocks.
  \<^item> \<open>Period_Service\<close>: \<open>governance/period\<close>.
  \<^item> \<open>Tx_Input_Parser\<close>, \<open>Tx_Output_Parser\<close>, \<open>Tx_Parser\<close>, \<open>Tx_Rules\<close>: \<open>node/parser\<close> and the
    genesis parser.  Outputs that the parser objects refer to are positions in the list of outputs,
    so that an update through the parser's reference and one through the list are the same.
  \<^item> \<open>Block_Parser\<close>, \<open>Dao_Chain\<close>: \<open>block_parser.py\<close> and the chain it builds.
  \<^item> \<open>Gov_State\<close>, \<open>Proposal_Validator\<close>, \<open>Gov_Lists\<close>: the state of the governance services, the
    validators under \<open>governance/proposal\<close>, and the lists of proposals, ballots and blind votes with
    the step relation \<open>gov_step\<close> of what changes them.
  \<^item> \<open>Merit\<close>, \<open>Permutation\<close>, \<open>Vote_Consensus\<close>: \<open>governance/merit\<close>, \<open>permutation_util.py\<close> and
    \<open>vote_result_consensus.py\<close>: what every node must compute alike.
  \<^item> \<open>Issuance_Service\<close>, \<open>Vote_Result\<close>: \<open>governance/voteresult\<close>; \<open>Vote_Rules\<close> proves the
    issuance limit, \<open>Vote_Facts\<close> the facts on ballots, counters, parameters, search and exceptions.
  \<^item> \<open>P2P_Payload\<close>, \<open>P2P_Storage\<close>, \<open>P2P_Get_Data\<close>: \<open>bisq/core/network/p2p/storage\<close>, the stores of
    \<open>persistence\<close> and the exchange of data at start-up.  \<open>P2P_Abstract\<close> states the storage abstractly,
    with a label for each step: traffic, which is made of three guarded rules (put, refresh, drop), a
    broken connection, the passing of time, the maintenance, and what a start takes over from the
    disk.  \<open>P2P_Rules\<close> has the step relation of the code with the same labels and proves, through the
    locale \<open>storage_frame\<close> interpreted twice, that every operation implements the abstract step of its
    label and keeps keys and numbers; \<open>P2P_Facts\<close> has the consequences for the network.
  \<^item> \<open>Bond_Repository\<close>: \<open>governance/bond\<close>: bonded roles, my and all bonded reputation, and
    the cached repository maps as functions of the state; \<open>Bond_Facts\<close>: each repository shows the
    lockup and unlock state of the chain, and what pending transactions add.
  \<^item> \<open>Dao_Monitoring\<close>: \<open>monitoring\<close>: the state, proposal and blind-vote monitoring services, their
    state and hash records and the utxo check; \<open>Dao_Monitoring_Facts\<close>: the hashes commit to the history and
    the invariant of the recorded hashes; \<open>Dao_Monitoring_Peers\<close>: over the runs of the service the
    hashes of peers and their conflicts are kept until a snapshot, the flags also after it.
  \<^item> \<open>Float_Ops\<close>: addition, subtraction, multiplication, rounding to integers and \<open>sum\<close> of Python
    floats, on the doubles of \<open>Py_Float\<close>; both ways in which versions of Python sum.
  \<^item> \<open>Cycles_Cache\<close>: \<open>cycles_in_dao_state_service.py\<close>, whose caches hold cycle objects by identity,
    and the search of the cycles that it must agree with.
  \<^item> \<open>Burning_Man\<close>: \<open>burningman/model\<close> and \<open>burning_man_service.py\<close>: candidates, decayed amounts,
    shares, caps, which raise where the validator of the receiver address raises;
    \<open>Burn_Receivers\<close>: the payout receivers, the fee receiver and the burn target.
    \<open>Burning_Man_Facts\<close> and \<open>Burn_Cap_Facts\<close> bound shares and caps, \<open>Burn_Receiver_Facts\<close> the
    outputs of the payout; \<open>Burn_Draw_Facts\<close> counts the draws of each fee receiver.
  \<^item> \<open>Dao_Examples\<close>, \<open>Gov_Examples\<close>, \<open>P2P_Examples\<close>, \<open>Bond_Examples\<close>,
    \<open>Dao_Monitoring_Examples\<close>, \<open>Burn_Examples\<close>: a small concrete DAO, a vote, a network, bonds,
    monitors and burning men for the witnesses; the last four also hold the properties of their part.

  \<^bold>\<open>State.\<close>  \<open>dao_state\<close> has the fields of \<open>DaoState\<close>; \<open>dao_service\<close> extends it with those of the
  service and \<open>gov_service\<close> with those of the governance services.  A dictionary is a map;
  \<open>tx_cache\<close>, whose values are iterated, is an association list in insertion order.  A \<open>Block\<close>
  object is shared and mutable and is therefore a position in the chain (\<open>block_ref\<close>).  Every
  operation returns the new state or an error; where the code catches exceptions, an action returns
  the result and the state that is left in either case.  \<open>data_storage\<close> has the fields of
  \<open>P2PDataStorage\<close> and of its stores, the clock, and the log of what listeners and broadcaster are
  told; an entry object that two dictionaries share is recognised by \<open>pse_ref\<close>.

  \<^bold>\<open>Parameters.\<close>  \<open>gov_env\<close> holds what is not in the sources or not determined by them: ciphers,
  signatures and hashes, and the order in which Python iterates a set, of which \<open>fair_order\<close> says
  that it lists the members.  The formatters that turn a parameter string into a coin value or a
  percentage are fields of the service.  \<open>p2p_env\<close> holds serialisation, hash, signatures and the
  registered stores.  \<open>burn_env\<close> adds the sum of floats, which depends on the version of Python, the
  iteration order of the sets of the burning man code, the first day of a month in the local
  time zone, and \<open>parse_btc_address\<close>, the address parser of the libraries, which may raise.  All theorems
  hold for arbitrary ones.

  \<^bold>\<open>Hypotheses.\<close>  \<open>raw_tx_ok\<close>: the outputs of a raw transaction have pairwise different keys that are
  not yet unspent (bitcoin forbids duplicate transactions) and no negative value.  \<open>utxo_ok\<close>,
  \<open>nonneg_ledger\<close>, \<open>caches_ok\<close>, \<open>chain_ok\<close>, \<open>lists_ok\<close> are invariants, proved to be kept.
  \<open>candidates_ok\<close>: an issuance candidate is the second output of its transaction, where the output
  parser looks for it; \<open>reveal_data_ok\<close>: the data of a vote reveal has the length the OP_RETURN
  parser demands.  \<open>signature_scheme_ok\<close>: a signature made with a private key verifies under its public
  key; \<open>no_collision\<close>: no other payload with the same hash is stored.  \<open>fair_burn_order\<close> and
  \<open>fair_sum\<close>: the iteration of a set lists its members, and the sum of non-negative floats is not
  negative and zero only when all are.  \<open>genesis_values_ok\<close>: genesis outputs are not negative.
  \<open>cycle_cache_ok\<close>: the caches agree with the cycles, an invariant of the queries that a snapshot
  breaks.

  \<^bold>\<open>Bounds.\<close>  Every loop of the modelled code runs over a list and is structural recursion or a
  fold; no fuel is needed.  The search for the majority list has the budget of the code (1000000
  sublists), which is enough for 19 votes.  Python integers are \<open>int\<close>; the 32-bit masks of the Java
  helpers are written out; a float is the rational number it stands for, without overflow,
  that is, exact rounding to 53 bits at any exponent.

  \<^bold>\<open>Not modelled.\<close>  Logging, timing, protobuf messages, JSON and string forms; connections and
  peers, wallets and bitcoinj, trade protocol, offers, user interface and gRPC.  The services that
  build and publish own transactions, assets and proof of burn, the snapshots and the presentation
  and accounting of the burning men are only reached through what they share with the state.
\<close>

section \<open>Facts on the examples\<close>

lemma ex_raw_ok:
  "raw_tx_ok ex_state ex_transfer" "raw_tx_ok ex_state ex_proposal" "raw_tx_ok ex_state ex_lockup_tx"
  "raw_tx_ok ex_state ex_unlock_tx" "raw_tx_ok ex_state ex_early" "raw_tx_ok ex_state ex_short"
  "raw_tx_ok ex_state ex_genesis"
  by code_simp+

lemma raw_tx_ok_fresh: "raw_tx_ok s raw \<Longrightarrow> fresh_outputs s (raw_tx_outputs raw)"
  by (simp add: raw_tx_ok_def)

section \<open>Transactions\<close>

text \<open>C2: \<open>TxParser._find_tx\<close> conserves BSQ: what the unspent outputs held before the transaction
  is what they hold after it, plus the \<open>burnt_bsq\<close> recorded in the transaction; only for a
  transaction that becomes \<open>INVALID\<close> the locked bonds it spent are lost beside \<open>burnt_bsq\<close>.  A
  transaction that is not a BSQ transaction leaves the total unchanged.\<close>

theorem find_tx_conserves_bsq:
  assumes "find_tx_body raw s = Inr (s', ot)" and "utxo_ok s" and "nonneg_ledger s" and "raw_tx_ok s raw"
  shows "utxo_ok s' \<and>
     (case ot of
        None \<Rightarrow> utxo_total s' = utxo_total s
      | Some t \<Rightarrow> utxo_total s' + tx_burnt_bsq t +
          (if tx_tx_type t = Some INVALID then burnt_bond s raw else 0) = utxo_total s)"
  by (rule find_tx_body_conserves [OF assms])

lemma find_tx_conserves_bsq_witness:
  "\<exists>s' t. find_tx_body ex_transfer ex_state = Inr (s', Some t) \<and>
     utxo_total s' + tx_burnt_bsq t = utxo_total ex_state"
proof -
  obtain s' t where r: "find_tx_body ex_transfer ex_state = Inr (s', Some t)"
    "tx_tx_type t = Some PAY_TRADE_FEE"
    using parsed_typeD [OF ex_types(1)] by blast
  then show ?thesis using find_tx_conserves_bsq [OF r(1) ex_state_ok ex_raw_ok(1)] by simp
qed

text \<open>C31: after \<open>TxParser._find_tx\<close> returns a transaction, an output of it is unspent in the state
  exactly when its type is one of a BSQ output; every other unspent output was unspent before; and
  no output of an \<open>INVALID\<close> transaction is BSQ.\<close>

theorem find_tx_unspent_outputs:
  assumes "find_tx_body raw s = Inr (s', Some t)" and "utxo_ok s" and "nonneg_ledger s" and "raw_tx_ok s raw"
  shows "(\<forall>out \<in> set (tx_outputs t). is_bsq_output out \<longleftrightarrow> get_unspent_tx_output s' (get_key out) = Some out) \<and>
     (\<forall>k out. get_unspent_tx_output s' k = Some out \<longrightarrow> get_unspent_tx_output s k = Some out \<or>
        out \<in> set (tx_outputs t) \<and> is_bsq_output out \<and> k = get_key out) \<and>
     (tx_tx_type t = Some INVALID \<longrightarrow> (\<forall>out \<in> set (tx_outputs t). \<not> is_bsq_output out))"
  using find_tx_body_unspent [OF assms] unfolding unspent_result_def .

lemma find_tx_unspent_outputs_witness:
  "\<exists>s' t. find_tx_body ex_transfer ex_state = Inr (s', Some t) \<and>
     (\<forall>out \<in> set (tx_outputs t). is_bsq_output out \<longleftrightarrow> get_unspent_tx_output s' (get_key out) = Some out)"
proof -
  obtain s' t where r: "find_tx_body ex_transfer ex_state = Inr (s', Some t)"
    using parsed_typeD [OF ex_types(1)] by blast
  then show ?thesis using find_tx_unspent_outputs [OF r ex_state_ok ex_raw_ok(1)] by blast
qed

text \<open>C32: a proposal, a compensation or reimbursement request, or a blind vote is only accepted in
  its phase of the cycle, and the BSQ it burns are exactly the fee parameter of its block
  height.\<close>

theorem find_tx_phase_and_fee:
  assumes "find_tx_body raw s = Inr (s', Some t)" and "utxo_ok s" and "nonneg_ledger s"
    and "fresh_outputs s (raw_tx_outputs raw)"
    and "tx_tx_type t = Some ty" and "phase_rule ty = Some (ph, par)"
  shows "is_in_phase s (tx_block_height raw) ph \<and>
     get_param_value_as_coin s par (tx_block_height raw) = Inr (tx_burnt_bsq t)"
  by (rule find_tx_body_phase_and_fee [OF assms])

lemma find_tx_phase_and_fee_witness:
  "\<exists>s' t. find_tx_body ex_proposal ex_state = Inr (s', Some t) \<and> is_in_phase ex_state 112 Phase_PROPOSAL \<and>
     tx_burnt_bsq t = 200"
proof -
  obtain s' t where r: "find_tx_body ex_proposal ex_state = Inr (s', Some t)"
    "tx_tx_type t = Some PROPOSAL"
    using parsed_typeD [OF ex_types(2)] by blast
  have fee: "get_param_value_as_coin ex_state PROPOSAL_FEE (tx_block_height ex_proposal) = Inr 200"
    "tx_block_height ex_proposal = 112" by code_simp+
  show ?thesis
    using find_tx_phase_and_fee [OF r(1) ex_state_ok raw_tx_ok_fresh [OF ex_raw_ok(2)] r(2)] r(1) fee
    by (simp add: phase_rule_def)
qed

text \<open>A transaction that spends an unlock output before its lock time is over is always
  recorded, as \<open>INVALID\<close>.\<close>

theorem find_tx_burnt_bond_invalid:
  assumes "find_tx_body raw s = Inr (s', ot)" and "utxo_ok s" and "nonneg_ledger s"
    and "fresh_outputs s (raw_tx_outputs raw)" and "0 < burnt_bond s raw"
  shows "\<exists>t. ot = Some t \<and> tx_tx_type t = Some INVALID"
  by (rule find_tx_body_burnt_bond [OF assms])

lemma find_tx_burnt_bond_invalid_witness:
  "\<exists>s' t. find_tx_body ex_early ex_state = Inr (s', Some t) \<and> tx_tx_type t = Some INVALID"
proof -
  obtain s' t where r: "find_tx_body ex_early ex_state = Inr (s', Some t)"
    using parsed_typeD [OF ex_types(5)] by blast
  have "0 < burnt_bond ex_state ex_early" by code_simp
  from find_tx_burnt_bond_invalid [OF r ex_state_ok raw_tx_ok_fresh [OF ex_raw_ok(5)] this] r
  show ?thesis by blast
qed

text \<open>C33: bonds: a lockup output of an accepted transaction has a lock time in the valid range; an
  unlock output returns exactly the value of an unspent lockup output the transaction spends, and
  unlocks at the height of the block plus the lock time of that lockup.\<close>

theorem find_tx_bonds_valid:
  assumes "find_tx_body raw s = Inr (s', Some t)" and "utxo_ok s" and "nonneg_ledger s"
    and "fresh_outputs s (raw_tx_outputs raw)" and "out \<in> set (tx_outputs t)"
  shows "(out_type out = LOCKUP_OUTPUT \<longrightarrow> is_lock_time_in_valid_range (out_lock_time out)) \<and>
     (out_type out = UNLOCK_OUTPUT \<longrightarrow>
        (\<exists>l. get_unspent_tx_output s (get_key l) = Some l \<and> out_type l = LOCKUP_OUTPUT \<and>
           get_key l \<in> set (map get_connected_tx_output_key (tx_inputs raw)) \<and>
           txo_value l = txo_value out \<and>
           out_unlock_block_height out = tx_block_height raw + out_lock_time l))"
  using find_tx_body_bonds [OF assms] by (simp add: valid_bond_def)

lemma find_tx_bonds_valid_witness:
  "\<exists>s' t. find_tx_body ex_unlock_tx ex_state = Inr (s', Some t) \<and>
     (\<forall>out \<in> set (tx_outputs t). out_type out = UNLOCK_OUTPUT \<longrightarrow>
        (\<exists>l. get_unspent_tx_output ex_state (get_key l) = Some l \<and> txo_value l = txo_value out \<and>
           out_unlock_block_height out = 112 + out_lock_time l))"
proof -
  obtain s' t where r: "find_tx_body ex_unlock_tx ex_state = Inr (s', Some t)"
    using parsed_typeD [OF ex_types(4)] by blast
  have h: "tx_block_height ex_unlock_tx = 112" by code_simp
  have "\<forall>out \<in> set (tx_outputs t). out_type out = UNLOCK_OUTPUT \<longrightarrow>
      (\<exists>l. get_unspent_tx_output ex_state (get_key l) = Some l \<and> txo_value l = txo_value out \<and>
           out_unlock_block_height out = 112 + out_lock_time l)"
    using find_tx_bonds_valid [OF r ex_state_ok raw_tx_ok_fresh [OF ex_raw_ok(4)]] unfolding h by blast
  with r show ?thesis by blast
qed

text \<open>The hard-fork rule: from the activation height on, once an output that is not an OP_RETURN
  is not BSQ, no output after it is.\<close>

theorem find_tx_no_bsq_after_btc:
  assumes "find_tx_body raw s = Inr (s', Some t)" and "utxo_ok s" and "nonneg_ledger s"
    and "fresh_outputs s (raw_tx_outputs raw)" and "indexed_after_fork (network s) (raw_tx_outputs raw)"
    and "i < j" and "j < length (raw_tx_outputs raw)" and "\<not> is_op_return_output (raw_tx_outputs raw ! i)"
    and "\<not> is_bsq_output (tx_outputs t ! i)"
  shows "\<not> is_bsq_output (tx_outputs t ! j)"
  by (rule find_tx_body_hard_fork [OF assms])

lemma find_tx_no_bsq_after_btc_witness:
  "\<exists>s' t. find_tx_body ex_short ex_state = Inr (s', Some t) \<and> \<not> is_bsq_output (tx_outputs t ! 2)"
proof -
  obtain s' t where r: "find_tx_body ex_short ex_state = Inr (s', Some t)"
    and b: "\<not> is_bsq_output (tx_outputs t ! 1)"
    using ex_short_result by blast
  have "indexed_after_fork (network ex_state) (raw_tx_outputs ex_short)"
    "\<not> is_op_return_output (raw_tx_outputs ex_short ! 1)" "length (raw_tx_outputs ex_short) = 3"
    by code_simp+
  then show ?thesis
    using find_tx_no_bsq_after_btc [OF r ex_state_ok raw_tx_ok_fresh [OF ex_raw_ok(6)], of 1 2] b r by simp
qed

text \<open>A blind vote stake, a vote reveal stake, a lockup or an unlock output is always the first
  output of its transaction.\<close>

theorem find_tx_special_output_first:
  assumes "find_tx_body raw s = Inr (s', Some t)" and "utxo_ok s" and "nonneg_ledger s"
    and "fresh_outputs s (raw_tx_outputs raw)" and "out \<in> set (tx_outputs t)"
    and "out_type out \<in> {BLIND_VOTE_LOCK_STAKE_OUTPUT, VOTE_REVEAL_UNLOCK_STAKE_OUTPUT, LOCKUP_OUTPUT, UNLOCK_OUTPUT}"
  shows "txo_index out = 0"
  by (rule find_tx_body_special_first [OF assms])

lemma find_tx_special_output_first_witness:
  "\<exists>s' t out. find_tx_body ex_lockup_tx ex_state = Inr (s', Some t) \<and> out \<in> set (tx_outputs t) \<and>
     out_type out = LOCKUP_OUTPUT \<and> txo_index out = 0"
proof -
  obtain s' t out where r: "find_tx_body ex_lockup_tx ex_state = Inr (s', Some t)"
    and out: "out \<in> set (tx_outputs t)" "out_type out = LOCKUP_OUTPUT"
    using ex_lockup_result by blast
  show ?thesis
    using find_tx_special_output_first [OF r ex_state_ok raw_tx_ok_fresh [OF ex_raw_ok(3)] out(1)] r out by auto
qed

text \<open>The inputs: afterwards every output the transaction refers to is spent, or it is a
  confiscated output and still there; whatever left the ledger is not confiscated and has a spent
  record that points to the block, the transaction and the input; everything else is as before.\<close>

theorem process_inputs_spends:
  assumes "process_inputs raw (new_tx_input_parser, s) = Inr (ip, s1)" and "utxo_ok s"
  shows "(\<forall>inp \<in> set (tx_inputs raw).
        get_unspent_tx_output s1 (get_connected_tx_output_key inp) = None \<or>
        is_confiscated_output s (get_connected_tx_output_key inp) = Inr True) \<and>
     (\<forall>k. get_unspent_tx_output s1 k = get_unspent_tx_output s k \<and> spent_info_map s1 k = spent_info_map s k \<or>
        get_unspent_tx_output s k \<noteq> None \<and> get_unspent_tx_output s1 k = None \<and>
        is_confiscated_output s k = Inr False \<and> spent_by raw s1 k)"
  using process_inputs_account [OF assms] by (simp add: inputs_account_def)

lemma process_inputs_spends_witness:
  "\<exists>ip s1. process_inputs ex_transfer (new_tx_input_parser, ex_state) = Inr (ip, s1) \<and>
     get_unspent_tx_output s1 (TxOutputKey ''a'' 0) = None"
proof -
  have "is_ok (process_inputs ex_transfer (new_tx_input_parser, ex_state))" by code_simp
  then obtain ip s1 where r: "process_inputs ex_transfer (new_tx_input_parser, ex_state) = Inr (ip, s1)"
    by (auto simp: is_ok_iff)
  have inp: "TxOutputKey ''a'' 0 \<in> get_connected_tx_output_key ` set (tx_inputs ex_transfer)" by code_simp
  have c: "is_confiscated_output ex_state (TxOutputKey ''a'' 0) = Inr False" by code_simp
  from process_inputs_spends [OF r ex_state_ok(1)] inp c r show ?thesis by fastforce
qed

text \<open>The transaction that is stored has the version, the id, the block, the inputs and the
  outputs of the raw transaction, in the same order and with the same values.\<close>

theorem find_tx_keeps_raw_data:
  assumes "find_tx_body raw s = Inr (s', Some t)" and "utxo_ok s" and "nonneg_ledger s" and "raw_tx_ok s raw"
  shows "raw_tx_from_tx t = raw"
  by (rule find_tx_body_raw [OF assms])

lemma find_tx_keeps_raw_data_witness:
  "\<exists>s' t. find_tx_body ex_proposal ex_state = Inr (s', Some t) \<and> raw_tx_from_tx t = ex_proposal"
proof -
  obtain s' t where r: "find_tx_body ex_proposal ex_state = Inr (s', Some t)"
    using parsed_typeD [OF ex_types(2)] by blast
  from find_tx_keeps_raw_data [OF r ex_state_ok ex_raw_ok(2)] r show ?thesis by blast
qed

section \<open>Genesis\<close>

text \<open>The genesis transaction is accepted exactly when the values of its outputs add up to the
  genesis supply.\<close>

theorem genesis_accepted_iff:
  assumes "\<forall>r \<in> set (raw_tx_outputs raw). 0 \<le> txo_value r" and "0 \<le> g_supply"
  shows "(\<exists>tt. get_genesis_temp_tx raw g_supply = Inr tt) \<longleftrightarrow>
     sum_list (map txo_value (raw_tx_outputs raw)) = g_supply"
  by (rule genesis_exact [OF assms])

lemma genesis_accepted_iff_witness:
  "(\<exists>tt. get_genesis_temp_tx ex_genesis 1000 = Inr tt) \<and> \<not> (\<exists>tt. get_genesis_temp_tx ex_genesis 999 = Inr tt)"
proof -
  have v: "\<forall>r \<in> set (raw_tx_outputs ex_genesis). 0 \<le> txo_value r"
    "sum_list (map txo_value (raw_tx_outputs ex_genesis)) = 1000" by code_simp+
  show ?thesis
    using genesis_accepted_iff [OF v(1), of 1000] genesis_accepted_iff [OF v(1), of 999] v(2) by simp
qed

text \<open>C34: the genesis transaction creates exactly the genesis supply: it burns nothing, adds its
  value to the unspent BSQ, and every output it adds has the genesis type.\<close>

theorem genesis_creates_supply:
  assumes "get_genesis_tx raw g_supply s = Inr (s', ot)" and "utxo_ok s" and "raw_tx_ok s raw" and "0 \<le> g_supply"
  shows "\<exists>t. ot = Some t \<and> raw_tx_from_tx t = raw \<and> tx_tx_type t = Some GENESIS \<and> tx_burnt_bsq t = 0 \<and>
     utxo_total s' = utxo_total s + g_supply \<and>
     (\<forall>k out. get_unspent_tx_output s' k = Some out \<longrightarrow> get_unspent_tx_output s k = Some out \<or>
        out \<in> set (tx_outputs t) \<and> out_type out = GENESIS_OUTPUT)"
  using get_genesis_tx_spec [OF assms] by blast

lemma genesis_creates_supply_witness:
  "\<exists>s' t. get_genesis_tx ex_genesis 1000 ex_state = Inr (s', Some t) \<and> utxo_total s' = utxo_total ex_state + 1000"
proof -
  have "is_ok (get_genesis_tx ex_genesis 1000 ex_state)" by code_simp
  then obtain s' ot where r: "get_genesis_tx ex_genesis 1000 ex_state = Inr (s', ot)"
    by (auto simp: is_ok_iff)
  from genesis_creates_supply [OF r ex_state_ok(1) ex_raw_ok(7)] r show ?thesis by auto
qed

section \<open>Blocks\<close>

text \<open>C1: parsing a block either raises, or appends exactly that block: linked by height and hash,
  with a subsequence of its raw transactions in their order; the caches stay the functions of the
  blocks they stand for; and over the whole block the unspent BSQ changes by the genesis supply (in
  the genesis block) less what the transactions burn and the bonds that invalid ones lose.  The state
  \<open>t\<close> is the one the listeners for a complete block are called with.\<close>

theorem parse_block_extends_chain:
  assumes "parse_block dev ls raw s = Inr (s', r)" and "chain_ok s"
    and "\<forall>l \<in> set (l_new_block_height ls). keeps_chain (l (blk_height raw))"
    and "txs_ok s (raw_txs raw)"
    and "blocks s = [] \<longrightarrow> blk_height raw = genesis_block_height s"
  shows "\<exists>t new bonds. on_parse_block_complete ls r t = Inr s' \<and> r = In_Chain (length (blocks s)) \<and>
     blocks t = blocks s @ [(new_block raw)\<lparr>blk_txs := new\<rparr>] \<and> chain_ok t \<and>
     subseq (map raw_tx_from_tx new) (raw_txs raw) \<and>
     0 \<le> bonds \<and> ((\<forall>x \<in> set new. tx_tx_type x \<noteq> Some INVALID) \<longrightarrow> bonds = 0) \<and>
     utxo_total t + burnt_by new + bonds = utxo_total s + sum_list (map (minted s) (raw_txs raw))"
  using parse_block_step [OF assms] unfolding block_parsed_def by blast

lemma parse_block_extends_chain_witness:
  "\<exists>s r (t :: dao_service) new bonds. parse_block False ex_listeners ex_block ex_start = Inr (s, r) \<and>
     blocks t = [(new_block ex_block)\<lparr>blk_txs := new\<rparr>] \<and> chain_ok t \<and>
     utxo_total t + burnt_by new + bonds = 1000"
proof -
  obtain s r where p: "parse_block False ex_listeners ex_block ex_start = Inr (s, r)"
    using ex_block_parsed by blast
  have e: "blocks ex_start = []" "blk_height ex_block = genesis_block_height ex_start"
    "sum_list (map (minted ex_start) (raw_txs ex_block)) = 1000" by code_simp+
  have z: "utxo_total ex_start = 0" by (simp add: utxo_total_def ex_start_def)
  obtain t :: dao_service and new bonds where "blocks t = [(new_block ex_block)\<lparr>blk_txs := new\<rparr>]" "chain_ok t"
    "utxo_total t + burnt_by new + bonds = 1000"
    using parse_block_extends_chain [OF p ex_start_ok ex_listeners_keep ex_block_txs_ok] e z
    unfolding e z by fastforce
  with p show ?thesis by blast
qed

section \<open>The indices of the state\<close>

text \<open>After a transaction is added to the last block, the queries by id, by height and by output
  type answer as a search of the whole chain would.\<close>

theorem queries_search_the_chain:
  assumes "on_new_tx_for_last_block r t s = Inr s'" and "caches_ok s"
    and "tx_id t \<notin> set (map tx_id (all_txs s))"
  shows "get_tx s' i = find (\<lambda>x. tx_id x = i) (all_txs s') \<and>
     get_block_at_height s' h = find (\<lambda>b. blk_height b = h) (blocks s') \<and>
     get_tx_output_by_tx_output_type s' ty =
       {out \<in> set (concat (map tx_outputs (all_txs s'))). out_type out = ty} \<and>
     get_unordered_txs s' = all_txs s'"
proof -
  have ok: "caches_ok s'" by (rule on_new_tx_caches [OF assms])
  then show ?thesis
    using get_tx_searches_chain [OF ok] get_block_at_height_searches_chain [OF ok]
    by (simp add: caches_ok_def outputs_of_type_def get_unordered_txs_def cache_of_def comp_def)
qed

lemma queries_search_the_chain_witness:
  "\<exists>s'. on_new_tx_for_last_block (In_Chain 0) (from_temp_tx (temp_tx_from_raw_tx ex_spend)) ex_chain = Inr s' \<and>
     get_tx s' ''x'' = find (\<lambda>x. tx_id x = ''x'') (all_txs s')"
proof -
  let ?t = "from_temp_tx (temp_tx_from_raw_tx ex_spend)"
  have "is_ok (on_new_tx_for_last_block (In_Chain 0) ?t ex_chain)" by code_simp
  then obtain s' where r: "on_new_tx_for_last_block (In_Chain 0) ?t ex_chain = Inr s'" by (auto simp: is_ok_iff)
  have "tx_id ?t \<notin> set (map tx_id (all_txs ex_chain))" by code_simp
  from queries_search_the_chain [OF r ex_chain_caches this, of "''x''"] r show ?thesis by blast
qed

text \<open>C35: applying a snapshot replaces the chain: whatever the state was before, the queries answer
  from the blocks of the snapshot, and the ledger, the cycles, the issuances and the parameter
  changes are those of the snapshot.\<close>

theorem snapshot_restores_state:
  assumes "apply_snapshot snapshot s = Inr s'" and "caches_ok snapshot"
  shows "blocks s' = blocks snapshot \<and>
     get_tx s' i = find (\<lambda>x. tx_id x = i) (concat (map blk_txs (blocks snapshot))) \<and>
     get_block_at_height s' h = find (\<lambda>b. blk_height b = h) (blocks snapshot) \<and>
     get_unspent_tx_output s' = get_unspent_tx_output snapshot \<and> cycles s' = cycles snapshot \<and>
     issuance_map s' = issuance_map snapshot \<and> param_change_list s' = param_change_list snapshot \<and>
     chain_height s' = chain_height snapshot"
proof -
  have ok: "caches_ok s'" by (rule apply_snapshot_caches [OF assms])
  note f = apply_snapshot_fields [OF assms]
  show ?thesis
    using get_tx_searches_chain [OF ok] get_block_at_height_searches_chain [OF ok] f
    by (simp add: all_txs_def get_unspent_tx_output_def [abs_def])
qed

lemma snapshot_restores_state_witness:
  "\<exists>s'. apply_snapshot ex_chain ex_state = Inr s' \<and> blocks s' = blocks ex_chain \<and>
     get_block_at_height s' 111 = find (\<lambda>b. blk_height b = 111) (blocks ex_chain)"
proof -
  have "is_ok (apply_snapshot ex_chain ex_state)" by code_simp
  then obtain s' where r: "apply_snapshot ex_chain ex_state = Inr s'" by (auto simp: is_ok_iff)
  from snapshot_restores_state [OF r ex_chain_caches] r show ?thesis by blast
qed

section \<open>Cycles and phases\<close>

text \<open>The phases of a well-formed cycle partition its blocks: inside the cycle every height lies
  in exactly one listed phase, and that is the answer of \<open>Cycle.get_phase_for_height\<close>; outside
  there is none.\<close>

theorem phases_partition_cycle:
  assumes "wf_cycle c"
  shows "(is_in_cycle c h \<longleftrightarrow> (\<exists>!p. p \<in> dp_phase ` set (cyc_dao_phase_list c) \<and> cycle_is_in_phase c h p)) \<and>
     (cycle_phase_for_height c h = Some p \<longleftrightarrow>
        p \<in> dp_phase ` set (cyc_dao_phase_list c) \<and> cycle_is_in_phase c h p)"
proof -
  note iff = phase_for_height_iff [OF assms] and none = phase_for_height_None [OF assms]
  have "(\<exists>!p. cycle_phase_for_height c h = Some p) \<longleftrightarrow> cycle_phase_for_height c h \<noteq> None" by auto
  then show ?thesis using none by (simp add: iff)
qed

lemma phases_partition_cycle_witness:
  "wf_cycle ex_cycle \<and> cycle_phase_for_height ex_cycle 117 = Some Phase_BLIND_VOTE \<and>
     cycle_is_in_phase ex_cycle 117 Phase_BLIND_VOTE"
proof -
  have wf: "wf_cycle ex_cycle" by code_simp
  have "cycle_phase_for_height ex_cycle 117 = Some Phase_BLIND_VOTE" by code_simp
  with phases_partition_cycle [OF wf, of 117 Phase_BLIND_VOTE] wf show ?thesis by blast
qed

text \<open>C36: a new block height keeps the chain of cycles: each height from the genesis block on lies in
  exactly one cycle, the new one included; a cycle is added exactly when the last one is over, it
  starts at the new height, and nothing else of the state changes.\<close>

theorem cycles_follow_the_chain:
  assumes "in_last_cycle h (cycles s)" and "genesis_block_height s \<le> h" and "allow_dao_state_change s"
    and "phase_params_ok s (h + 1) (last (cycles s))"
  shows "\<exists>t. cycle_on_new_block_height (h + 1) s = Inr t \<and> t\<lparr>cycles := cycles s\<rparr> = s \<and>
     get_cycle t (h + 1) = Some (last (cycles t)) \<and>
     (\<forall>g. cyc_height_of_first_block (hd (cycles t)) \<le> g \<and> g \<le> h + 1 \<longrightarrow>
        (\<exists>!c. c \<in> set (cycles t) \<and> is_in_cycle c g)) \<and>
     (cycles t = cycles s \<or> (\<exists>c. cycles t = cycles s @ [c] \<and> cyc_height_of_first_block c = h + 1))"
proof -
  obtain t where t: "cycle_on_new_block_height (h + 1) s = Inr t" "in_last_cycle (h + 1) (cycles t)"
    "cycles t = cycles s \<or> (\<exists>c. cycles t = cycles s @ [c] \<and> cyc_height_of_first_block c = h + 1)"
    "t\<lparr>cycles := cycles s\<rparr> = s"
    using cycle_on_new_block_height_step [OF assms] by blast
  have "\<exists>!c. c \<in> set (cycles t) \<and> is_in_cycle c g"
    if "cyc_height_of_first_block (hd (cycles t)) \<le> g" "g \<le> h + 1" for g
    using in_last_cycle_unique [OF t(2) that] .
  then show ?thesis using t in_last_cycle_find [OF t(2)] by (auto simp: get_cycle_def)
qed

lemma cycles_follow_the_chain_witness:
  "\<exists>t. cycle_on_new_block_height 124 ex_state = Inr t \<and> get_cycle t 124 = Some (last (cycles t))"
proof -
  have 1: "in_last_cycle 123 (cycles ex_state)" by code_simp
  have 2: "genesis_block_height ex_state \<le> 123" "allow_dao_state_change ex_state" by code_simp+
  show ?thesis using cycles_follow_the_chain [OF 1 2 ex_phase_params] by auto
qed

text \<open>C37: the first cycle: on every network the default durations give a well-formed cycle that
  starts at the genesis block and contains it.\<close>

theorem first_cycle_starts_at_genesis:
  assumes "allow_dao_state_change s" and "cycles s = []"
  shows "\<exists>t c. add_first_cycle s = Inr t \<and> cycles t = [c] \<and> wf_cycle c \<and>
     cyc_height_of_first_block c = genesis_block_height s \<and> is_in_cycle c (genesis_block_height s) \<and>
     t\<lparr>cycles := []\<rparr> = s"
  by (rule add_first_cycle_single [OF assms])

lemma first_cycle_starts_at_genesis_witness:
  "\<exists>t c. add_first_cycle (ex_state\<lparr>cycles := []\<rparr>) = Inr t \<and> cycles t = [c] \<and> is_in_cycle c 111"
proof -
  have "allow_dao_state_change (ex_state\<lparr>cycles := []\<rparr>)" "genesis_block_height (ex_state\<lparr>cycles := []\<rparr>) = 111"
    by code_simp+
  then show ?thesis using first_cycle_starts_at_genesis [of "ex_state\<lparr>cycles := []\<rparr>"] by auto
qed

section \<open>Parameters and the change window\<close>

text \<open>A parameter change that is voted in takes effect with the next cycle: \<open>get_param_value\<close>
  returns the new value from the activation height on, the former value before it, and no other
  parameter changes.\<close>

theorem param_change_takes_effect:
  assumes "set_new_param h p v s = Inr t" and "get_start_height_of_next_cycle s h = Some n"
    and "sorted (map pc_activation_height (param_change_list s))"
    and "\<forall>pc \<in> set (param_change_list s). pc_activation_height pc \<le> n"
  shows "get_param_value t q h' = (if q = p \<and> n \<le> h' then v else get_param_value s q h')"
  by (rule get_param_value_new [OF assms])

lemma param_change_takes_effect_witness:
  "\<exists>t. set_new_param 122 PROPOSAL_FEE ''5'' ex_state = Inr t \<and>
     get_param_value t PROPOSAL_FEE 124 = ''5'' \<and> get_param_value t PROPOSAL_FEE 123 = ''2''"
proof -
  have "is_ok (set_new_param 122 PROPOSAL_FEE ''5'' ex_state)" by code_simp
  then obtain t where r: "set_new_param 122 PROPOSAL_FEE ''5'' ex_state = Inr t" by (auto simp: is_ok_iff)
  have n: "get_start_height_of_next_cycle ex_state 122 = Some 124" by code_simp
  have e: "sorted (map pc_activation_height (param_change_list ex_state))"
    "\<forall>pc \<in> set (param_change_list ex_state). pc_activation_height pc \<le> 124"
    "get_param_value ex_state PROPOSAL_FEE 123 = ''2''" by code_simp+
  show ?thesis
    using param_change_takes_effect [OF r n e(1,2), of PROPOSAL_FEE 124]
      param_change_takes_effect [OF r n e(1,2), of PROPOSAL_FEE 123] r e(3) by simp
qed

text \<open>Outside the window that the parser events open, every operation that changes the state
  raises and there is no new state.\<close>

theorem closed_window_rejects_changes:
  assumes "\<not> allow_dao_state_change s"
  shows "add_cycle c s = Inl Dao_State_Change_Error \<and>
     on_new_block_with_empty_txs b s = Inl Dao_State_Change_Error \<and>
     on_new_tx_for_last_block r t s = Inl Dao_State_Change_Error \<and>
     add_unspent_tx_output out s = Inl Dao_State_Change_Error \<and>
     remove_unspent_tx_output out s = Inl Dao_State_Change_Error \<and>
     add_issuance i s = Inl Dao_State_Change_Error \<and>
     set_spent_info k si s = Inl Dao_State_Change_Error \<and>
     do_confiscate_bond l s = Inl Dao_State_Change_Error \<and>
     set_new_param h p v s = Inl Dao_State_Change_Error"
  using assms
  by (simp add: mutator_defs guarded_closed on_new_block_with_empty_txs_def
      on_new_tx_for_last_block_def assert_dao_state_change_def)

lemma closed_window_rejects_changes_witness:
  "\<not> allow_dao_state_change ex_start \<and> add_unspent_tx_output ex_bsq ex_start = Inl Dao_State_Change_Error"
proof -
  have "\<not> allow_dao_state_change ex_start" by code_simp
  then show ?thesis using closed_window_rejects_changes [of ex_start] by blast
qed

section \<open>Keys, bytes and OP_RETURN data\<close>

text \<open>\<open>TxOutputKey\<close>: the order that \<open>java_string_compare\<close> of the string forms defines is the
  lexicographic order of these strings, it is total, and two keys compare equal only when transaction
  id and index are equal.\<close>

theorem tx_output_key_order:
  "(key_lt k l \<longleftrightarrow> key_str k < key_str l) \<and> (key_eq k l \<longleftrightarrow> k = l) \<and>
   (key_lt k l \<or> key_eq k l \<or> key_lt l k) \<and> \<not> (key_lt k l \<and> key_lt l k)"
  using key_str_linear [of k l]
  by (auto simp: key_lt_def key_eq_def java_string_compare_less java_string_compare_eq)

text \<open>The string form of a key is read back as the same key, whatever the index, when the
  transaction id has no colon in it (an id is hexadecimal).\<close>

theorem tx_output_key_round_trip:
  assumes "CHR '':'' \<notin> set (key_tx_id k)"
  shows "get_key_from_string (key_str k) = Inr k"
  by (rule key_string_round_trip [OF assms])

lemma tx_output_key_round_trip_witness:
  "get_key_from_string (key_str (TxOutputKey ''4b5417'' 12)) = Inr (TxOutputKey ''4b5417'' 12)"
  by (rule tx_output_key_round_trip) simp

text \<open>OP_RETURN data of every other kind: what the encoder of the kind builds from a 20-byte hash
  (and a 16-byte key for a vote reveal) is classified as an output of this kind in an output of value
  0, and as invalid in an output with a value.\<close>

theorem op_return_kinds_classified:
  assumes "length h = 20" and "length k = 16"
    and "(d, ty) \<in> {(proposal_op_return_data h (opr_type OpR_PROPOSAL) Version_PROPOSAL, PROPOSAL_OP_RETURN_OUTPUT),
       (proposal_op_return_data h (opr_type OpR_COMPENSATION_REQUEST) Version_COMPENSATION_REQUEST, COMP_REQ_OP_RETURN_OUTPUT),
       (proposal_op_return_data h (opr_type OpR_REIMBURSEMENT_REQUEST) Version_REIMBURSEMENT_REQUEST, REIMBURSEMENT_OP_RETURN_OUTPUT),
       (blind_vote_op_return_data h, BLIND_VOTE_OP_RETURN_OUTPUT),
       (vote_reveal_op_return_data h k, VOTE_REVEAL_OP_RETURN_OUTPUT),
       (asset_op_return_data h, ASSET_LISTING_FEE_OP_RETURN_OUTPUT),
       (proof_of_burn_op_return_data h, PROOF_OF_BURN_OP_RETURN_OUTPUT)}"
    and "txo_op_return_data out = Some d"
  shows "get_tx_output_type out = Inr (if txo_value out = 0 then ty else INVALID_OUTPUT)"
proof (cases "txo_value out = 0")
  case True
  have h: "hash20 h" using assms(1) by (simp add: hash20_def)
  have vr: "case (h, k) of (h, k) \<Rightarrow> hash20 h \<and> length k = 16" using h assms(2) by simp
  show ?thesis
    using assms(3,4) True proposal.classified [OF h True] compensation.classified [OF h True]
      reimbursement.classified [OF h True] blind_vote.classified [OF h True]
      vote_reveal.classified [OF vr True] asset.classified [OF h True]
      proof_of_burn.classified [OF h True] by auto
next
  case False
  then show ?thesis using assms(4) by (simp add: get_tx_output_type_def)
qed

lemma op_return_kinds_classified_witness:
  "get_tx_output_type (ex_op_return ''p'' 1 (blind_vote_op_return_data (replicate 20 7))) = Inr BLIND_VOTE_OP_RETURN_OUTPUT"
  using op_return_kinds_classified [of "replicate 20 7" "replicate 16 0" "blind_vote_op_return_data (replicate 20 7)"
      BLIND_VOTE_OP_RETURN_OUTPUT "ex_op_return ''p'' 1 (blind_vote_op_return_data (replicate 20 7))"]
  by (simp add: ex_op_return_def ex_output_def)

text \<open>The classifier of OP_RETURN outputs raises in exactly two cases: the output has no OP_RETURN
  data, or it has value 0 and at least 22 bytes of data of which the first is 0 (the \<open>UNDEFINED\<close>
  member of \<open>OpReturnType\<close>).\<close>

theorem op_return_classifier_errors:
  "get_tx_output_type out = Inl e \<longleftrightarrow>
     (txo_op_return_data out = None \<and> e = Assertion_Error) \<or>
     (\<exists>d. txo_op_return_data out = Some d \<and> txo_value out = 0 \<and> 22 \<le> length d \<and>
        take 1 d = [0] \<and> e = Invalid_Parsing_Condition)"
  by (rule get_tx_output_type_error)

text \<open>\<open>integer_to_byte_array\<close> writes exactly the number of bytes asked for, and
  \<open>byte_array_to_integer\<close> reads the number back when it fits in them and in 31 bits.\<close>

theorem integer_bytes_round_trip:
  assumes "0 \<le> v" and "v < 256 ^ n" and "v < 2 ^ 31"
  shows "length (integer_to_byte_array v n) = n \<and> byte_array_to_integer (integer_to_byte_array v n) = v"
  using byte_array_round_trip [OF assms] by simp

lemma integer_bytes_round_trip_witness:
  "byte_array_to_integer (integer_to_byte_array 48879 2) = 48879"
  using integer_bytes_round_trip [of 48879 2] by simp

section \<open>The output parser and its specification\<close>

text \<open>The handler of an output refines the relation \<open>output_step\<close>: an output that is not
  confiscated becomes one of OP_RETURN (left to the last pass), BTC, issuance candidate, unlock or
  BSQ, and a BSQ step needs enough input value and, after the hard fork, no BTC output before it.\<close>

theorem output_parser_refines_steps:
  assumes "process_tx_output s i (p, outs) = Inr st"
    and "is_confiscated_output s (get_key (outs ! i)) = Inr False"
  shows "output_step (network s) i (p, outs) st"
  by (rule process_tx_output_refines [OF assms])

lemma output_parser_refines_steps_witness:
  "\<exists>st. output_step (network ex_state) 0
     (new_tx_output_parser\<lparr>available_input_value := 1000\<rparr>, map from_raw_tx_output (raw_tx_outputs ex_transfer)) st"
proof -
  let ?p = "new_tx_output_parser\<lparr>available_input_value := 1000\<rparr>"
  let ?o = "map from_raw_tx_output (raw_tx_outputs ex_transfer)"
  have "is_ok (process_tx_output ex_state 0 (?p, ?o))" by code_simp
  then obtain st where r: "process_tx_output ex_state 0 (?p, ?o) = Inr st" by (auto simp: is_ok_iff)
  have "is_confiscated_output ex_state (get_key (?o ! 0)) = Inr False" by code_simp
  from output_parser_refines_steps [OF r this] show ?thesis by blast
qed

section \<open>The HashMap of the hash chain\<close>

text \<open>\<open>HashMap.put\<close> implements the update of a finite map, also when it has to resize the table:
  it keeps the table in order, returns the previous value, and changes the value of no other key.\<close>

theorem hash_map_put:
  assumes "hm_inv hf m"
  shows "hm_inv hf (fst (hm_put hf k v m)) \<and> snd (hm_put hf k v m) = hm_get hf m k \<and>
     hm_get hf (fst (hm_put hf k v m)) = (hm_get hf m)(k \<mapsto> v)"
  using hash_map.put_inv [OF assms] hash_map.put_old [OF assms] hash_map.put_lookup [OF assms] by blast

lemma hash_map_put_witness:
  "hm_get string_hash (fst (hm_put string_hash ''a:0'' (7 :: int) (hm_new (2 ^ 4)))) ''a:0'' = Some 7"
  using hash_map_put [OF hm_new_inv(1), of string_hash "''a:0''" "7 :: int" 4] by simp

text \<open>Doubling the table loses and changes no entry: the invariant holds for the new capacity and
  every key is found as before.\<close>

theorem hash_map_resize:
  assumes "hm_inv hf m" and "0 < hm_size m"
  shows "hm_inv hf (hm_resize m) \<and> hm_get hf (hm_resize m) = hm_get hf m \<and>
     hm_size (hm_resize m) = hm_size m \<and>
     hm_capacity (hm_resize m) = (if hm_capacity m < 2 ^ 30 then 2 * hm_capacity m else hm_capacity m)"
proof -
  have "hm_get hf (hm_resize m) key = hm_get hf m key" for key
    using resize_inv(2) [OF assms, of key] by (simp add: hm_get_def)
  then show ?thesis
    using resize_inv(1,3) [OF assms] by (auto simp: hm_resize_def Let_def)
qed

lemma hash_map_resize_witness:
  "hm_get string_hash (hm_resize (fst (hm_put string_hash ''a:0'' (7 :: int) (hm_new (2 ^ 4))))) ''a:0'' = Some 7"
proof -
  let ?m = "fst (hm_put string_hash ''a:0'' (7 :: int) (hm_new (2 ^ 4)))"
  have inv: "hm_inv string_hash ?m" by (rule hm_put_spec(1) [OF hm_new_inv(1)])
  have "0 < hm_size ?m" "hm_get string_hash ?m ''a:0'' = Some 7" by code_simp+
  with hash_map_resize [OF inv] show ?thesis by simp
qed

text \<open>\<open>HashMap.remove\<close> deletes exactly the key, returns its value, and keeps the table in order;
  \<open>del m[key]\<close> on a key whose value is \<open>None\<close> removes it and raises a \<open>KeyError\<close> all the same.\<close>

theorem hash_map_remove:
  assumes "hm_inv hf m"
  shows "hm_inv hf (fst (hm_remove hf k m)) \<and> snd (hm_remove hf k m) = hm_get hf m k \<and>
     hm_get hf (fst (hm_remove hf k m)) = (hm_get hf m)(k := None) \<and>
     (hm_get hf m k = Some None \<longrightarrow> snd (hm_delitem hf k m) = Inl Key_Error)"
  using hash_map.remove_inv [OF assms] hash_map.remove_old [OF assms] hash_map.remove_lookup [OF assms]
    hm_delitem_none_value [OF assms] by blast

lemma hash_map_remove_witness:
  "snd (hm_delitem string_hash ''k'' (fst (hm_put string_hash ''k'' (None :: int option) (hm_new (2 ^ 4))))) =
     Inl Key_Error"
proof -
  let ?m = "fst (hm_put string_hash ''k'' (None :: int option) (hm_new (2 ^ 4)))"
  have inv: "hm_inv string_hash ?m" by (rule hm_put_spec(1) [OF hm_new_inv(1)])
  have "hm_get string_hash ?m ''k'' = Some None" by code_simp
  with hash_map_remove [OF inv, of "''k''"] show ?thesis by blast
qed

text \<open>Iterating over a HashMap yields every entry exactly once: the keys are distinct, the pairs are
  the map, and their number is the stored size.\<close>

theorem hash_map_iteration:
  assumes "hm_inv hf m"
  shows "distinct (map fst (hm_items m)) \<and> map_of (hm_items m) = hm_get hf m \<and>
     length (hm_items m) = hm_size m \<and> hm_size m = card (dom (hm_get hf m)) \<and>
     hm_keys m = map fst (hm_items m) \<and> hm_values m = map snd (hm_items m)"
  using hm_items_spec [OF assms] hm_size_items [OF assms] assms
  by (simp add: hm_inv_def hm_items_def hm_keys_def hm_values_def comp_def)

lemma hash_map_iteration_witness:
  "map_of (hm_items (hm_init string_hash [(''a:0'', 1 :: int), (''b:1'', 2)] (2 ^ 4))) ''b:1'' = Some 2"
  using hash_map_iteration [of string_hash "hm_init string_hash [(''a:0'', 1 :: int), (''b:1'', 2)] (2 ^ 4)"]
    hm_init_spec [of string_hash "[(''a:0'', 1 :: int), (''b:1'', 2)]" 4] by simp

section \<open>Votes\<close>

text \<open>C3: the vote result of a cycle increases the unspent BSQ by at most the issuance limit, whatever the
  blind votes contain and also when an exception is caught on the way.  The compensation and
  reimbursement requests of the ballot list ask for no negative amount, as their validator
  demands, and the candidate outputs of the chain are the second outputs of their transactions.\<close>

theorem vote_result_within_issuance_limit:
  assumes "maybe_calculate_vote_result env h s = (r, t)" and "fair_order env" and "ledger_fine s" and "candidates_ok s"
    and "\<forall>b \<in> set (ballot_list s). 0 \<le> requested_bsq (bal_proposal b)"
    and "get_param_value_as_coin s ISSUANCE_LIMIT h = Inr l" and "0 \<le> l"
  shows "utxo_total t \<le> utxo_total s + l"
proof -
  have "vote_ready env h l s" using assms(3-7) by (auto simp: vote_ready_def known_proposals_def)
  from vote_result_total [OF assms(1) this assms(2)] show ?thesis by (simp add: issued_at_most_def)
qed

lemma vote_result_within_issuance_limit_witness:
  "\<exists>t. maybe_calculate_vote_result ex_env 122 ex_gov = (Inr (), t) \<and>
     get_unspent_tx_output t (get_key ex_candidate) = Some ex_candidate \<and>
     utxo_total t \<le> utxo_total ex_gov + 20000000"
proof -
  obtain t where t: "maybe_calculate_vote_result ex_env 122 ex_gov = (Inr (), t)"
    "get_unspent_tx_output t (get_key ex_candidate) = Some ex_candidate" using ex_vote_result by blast
  have "utxo_total t \<le> utxo_total ex_gov + 20000000"
    by (rule vote_result_within_issuance_limit [OF t(1) ex_fair])
      (use ex_gov_ready in \<open>auto simp: vote_ready_def known_proposals_def\<close>)
  with t show ?thesis by blast
qed

text \<open>C4: when there is a cycle and every vote reveal carries a hash, no exception leaves the calculation
  of the vote result: what goes wrong is recorded in the list of exceptions.\<close>

theorem vote_result_never_raises:
  assumes "current_cycle s = Some c" and "reveal_data_ok env s" and "fair_order env"
  shows "\<exists>t. maybe_calculate_vote_result env h s = (Inr (), t)"
  using vote_result_returns [OF assms] .

lemma vote_result_never_raises_witness: "\<exists>t. maybe_calculate_vote_result ex_env 122 ex_gov = (Inr (), t)"
proof (rule vote_result_never_raises)
  show "current_cycle ex_gov = Some ex_cycle" by (simp add: current_cycle_def ex_gov_sel)
  show "reveal_data_ok ex_env ex_gov" by (simp add: reveal_data_ok_def ex_reveal_outputs ex_reveal_output_def ex_tx_output_def
        vote_reveal_op_return_data_def)
qed (rule ex_fair)

text \<open>C5: a proposal is accepted exactly when the stake and merit of all votes reach the quorum and the
  accepting share, in hundredths of a percent, is above the threshold.\<close>

theorem proposal_accepted_iff:
  assumes "evaluate_proposal s h (p, vs) = Inr e"
    and "get_param_value_as_coin s (get_quorum_param p) h = Inr q"
    and "get_param_value_as_percent s (get_threshold_param p) h = Inr k" and "0 < q"
  shows "ev_proposal e = p \<and> (ev_is_accepted e \<longleftrightarrow>
     q \<le> stake_of True vs + stake_of False vs \<and>
     (k + 1) * (stake_of True vs + stake_of False vs) \<le> 10000 * stake_of True vs)"
  using evaluate_proposal_iff [OF assms] evaluate_proposal_proposal [OF assms(1)] by blast

lemma proposal_accepted_iff_witness:
  "\<exists>e. evaluate_proposal ex_gov 122 (ex_request, ex_votes) = Inr e \<and> ev_is_accepted e"
proof -
  have "is_ok (evaluate_proposal ex_gov 122 (ex_request, ex_votes))" by code_simp
  then obtain e where e: "evaluate_proposal ex_gov 122 (ex_request, ex_votes) = Inr e" by (auto simp: is_ok_iff)
  have q: "get_param_value_as_coin ex_gov (get_quorum_param ex_request) 122 = Inr 2000000"
    "get_param_value_as_percent ex_gov (get_threshold_param ex_request) 122 = Inr 5001"
    "stake_of True ex_votes = 3000000" "stake_of False ex_votes = 0" by code_simp+
  from proposal_accepted_iff [OF e q(1,2)] q(3,4) e show ?thesis by simp
qed

text \<open>C6: the ballots made of a decrypted vote are those of the valid proposals of the cycle: with the last
  vote the voter lists for the proposal, a rejection where the voter lists none, and no ballot where
  the voter abstains.\<close>

theorem ballots_cover_the_cycle:
  assumes "create_ballot_list s votes = Inr bs" and "distinct (map ballot_tx_id (get_valid_ballots_of_cycle s))"
  shows "b \<in> set bs \<longleftrightarrow>
     (\<exists>b0 i. b0 \<in> set (get_valid_ballots_of_cycle s) \<and> ballot_tx_id b0 = Some i \<and>
        bal_proposal b = bal_proposal b0 \<and> bal_vote b = cast_vote votes i \<and> bal_vote b \<noteq> None)"
  by (rule created_ballots_iff [OF assms])

lemma ballots_cover_the_cycle_witness:
  "\<exists>bs. create_ballot_list ex_gov [\<lparr>vwp_proposal_tx_id = ''c'', vwp_vote = Some (Vote True)\<rparr>] = Inr bs \<and>
     \<lparr>bal_proposal = ex_change, bal_vote = Some (Vote False)\<rparr> \<in> set bs"
proof -
  let ?vs = "[\<lparr>vwp_proposal_tx_id = ''c'', vwp_vote = Some (Vote True)\<rparr>]"
  have "is_ok (create_ballot_list ex_gov ?vs)" by code_simp
  then obtain bs where bs: "create_ballot_list ex_gov ?vs = Inr bs" by (auto simp: is_ok_iff)
  have v: "\<lparr>bal_proposal = ex_change, bal_vote = None\<rparr> \<in> set (get_valid_ballots_of_cycle ex_gov)"
    "distinct (map ballot_tx_id (get_valid_ballots_of_cycle ex_gov))" "cast_vote ?vs ''d'' = Some (Vote False)"
    "ballot_tx_id \<lparr>bal_proposal = ex_change, bal_vote = None\<rparr> = Some ''d''" by code_simp+
  have "\<lparr>bal_proposal = ex_change, bal_vote = Some (Vote False)\<rparr> \<in> set bs"
    unfolding ballots_cover_the_cycle [OF bs v(2)]
    by (rule exI [of _ "\<lparr>bal_proposal = ex_change, bal_vote = None\<rparr>"], rule exI [of _ "''d''"]) (simp add: v)
  with bs show ?thesis by blast
qed

text \<open>C7: the majority hash is the one with the most stake; among several it has at least 80 percent of the
  revealed stake, although the code compares floating-point numbers, and it does not depend on the
  order in which the reveals are collected.\<close>

theorem majority_hash_wins:
  assumes "get_majority_hash xs = Inr h" and "1 < length xs" and "\<forall>x \<in> set xs. 0 \<le> snd x"
    and "sum_list (map snd xs) \<le> 2 ^ 53" and "mset xs = mset ys"
  shows "get_majority_hash ys = Inr h \<and>
     (\<exists>st. (h, st) \<in> set xs \<and> 4 * sum_list (map snd xs) \<le> 5 * st \<and> 0 < sum_list (map snd xs))"
  using majority_hash_share [OF assms(1-4)] majority_hash_order [OF assms(5)] assms(1) by simp

lemma majority_hash_wins_witness: "get_majority_hash [([1], 80), ([2], 20)] = Inr [1]"
proof -
  have "is_ok (get_majority_hash [([2], 20), ([1], 80)])" by code_simp
  then obtain h where h: "get_majority_hash [([2], 20), ([1], 80)] = Inr h" by (auto simp: is_ok_iff)
  have "get_majority_hash [([1], 80), ([2], 20)] = Inr h \<and>
     (\<exists>st. (h, st) \<in> set [([2], 20), ([1], 80)] \<and>
       4 * sum_list (map snd [([2 :: 8 word], 20), ([1], 80 :: int)]) \<le> 5 * st \<and>
       0 < sum_list (map snd [([2 :: 8 word], 20), ([1], 80 :: int)]))"
    using majority_hash_wins [OF h, of "[([1], 80), ([2], 20)]"] by simp
  then show ?thesis by auto
qed

text \<open>C8: when some of the known blind votes, in their order, have the majority hash and there are at most
  19 of them, the search finds a list with that hash; without such a list it asks for the data
  again.\<close>

theorem majority_list_found:
  assumes "subseq bvs (get_sorted_blind_vote_list_of_cycle s)" and "bvs \<noteq> []"
    and "hash_of_blind_votes env bvs = m" and "length (get_sorted_blind_vote_list_of_cycle s) \<le> 19"
  shows "\<exists>l. find_blind_vote_list_matching_majority_hash env m s = (Inr l, s) \<and> l \<noteq> [] \<and>
     hash_of_blind_votes env l = m \<and> subseq l (get_sorted_blind_vote_list_of_cycle s)"
  by (rule find_list_found [OF assms])

lemma majority_list_found_witness:
  "\<exists>l. find_blind_vote_list_matching_majority_hash ex_env (replicate 20 9) ex_gov = (Inr l, ex_gov) \<and> l \<noteq> []"
proof -
  have l: "get_sorted_blind_vote_list_of_cycle ex_gov = [ex_blind_vote]" by code_simp
  have "hash_of_blind_votes ex_env [ex_blind_vote] = replicate 20 9" by code_simp
  then show ?thesis using majority_list_found [of "[ex_blind_vote]" ex_gov ex_env] by (auto simp: l)
qed

text \<open>C9: the accepted proposals change a parameter exactly when one of them and only one names it; the
  change is recorded once, for the start of the next cycle, and nothing else is added.\<close>

theorem one_change_per_parameter:
  assumes "allow_dao_state_change s" and "get_start_height_of_next_cycle s h = Some n" and "fair_order env"
    and "apply_param_change env evs h s = (r, t)"
  shows "count (mset (param_change_list t)) pc = count (mset (param_change_list s)) pc +
     (if pc_activation_height pc = n \<and>
         (\<exists>p. changes_of_name (pc_param_name pc) (accepted_changes evs) = [(p, pc_value pc)]) then 1 else 0)"
  by (rule applied_changes_count [OF assms])

lemma one_change_per_parameter_witness:
  "\<exists>r t. apply_param_change ex_env [ex_accepted ex_change] 122 ex_gov = (r, t) \<and>
     count (mset (param_change_list t))
       \<lparr>pc_param_name = ''PROPOSAL_FEE'', pc_value = ''3'', pc_activation_height = 124\<rparr> = 1"
proof -
  obtain r t where rt: "apply_param_change ex_env [ex_accepted ex_change] 122 ex_gov = (r, t)" by fastforce
  have "allow_dao_state_change ex_gov" "get_start_height_of_next_cycle ex_gov 122 = Some 124"
    "param_change_list ex_gov = []"
    "changes_of_name ''PROPOSAL_FEE'' (accepted_changes [ex_accepted ex_change]) = [(PROPOSAL_FEE, ''3'')]" by code_simp+
  with one_change_per_parameter [OF _ _ ex_fair rt] rt show ?thesis by fastforce
qed

text \<open>C10: one blind vote whose merit list holds an issuance without a public key ends the evaluation of
  all proposals with an \<open>UnboundLocalError\<close>, before any of them is accepted or rejected.\<close>

theorem merit_without_key_ends_evaluation:
  assumes "d \<in> set ds" and "fair_order env" and "dbm_ballot_list d \<noteq> []"
    and "get_tx s (dbm_blind_vote_tx_id d) = Some bt" and "tx_block_height bt \<noteq> 0"
    and "m \<in> set (dbm_merit_list d)" and "iss_pub_key (merit_issuance m) = None"
  shows "get_evaluated_proposals env ds h s = (Inl Unbound_Local_Error, s)"
  by (rule evaluation_ends [OF assms])

lemma merit_without_key_ends_evaluation_witness:
  "get_evaluated_proposals ex_env [ex_decrypted\<lparr>dbm_merit_list := [ex_keyless]\<rparr>, ex_decrypted] 122 ex_gov =
     (Inl Unbound_Local_Error, ex_gov)"
proof -
  have "\<exists>bt. get_tx ex_gov ''v'' = Some bt \<and> tx_block_height bt \<noteq> 0" by (simp add: get_tx_def ex_gov_sel ex_gov_txs_def ex_tx_def)
  then obtain bt where bt: "get_tx ex_gov ''v'' = Some bt" "tx_block_height bt \<noteq> 0" by blast
  show ?thesis
    by (rule merit_without_key_ends_evaluation [where d = "ex_decrypted\<lparr>dbm_merit_list := [ex_keyless]\<rparr>"
        and bt = bt and m = ex_keyless])
      (simp_all add: ex_fair bt ex_decrypted_def ex_keyless_def)
qed

text \<open>The merit of a vote lies between zero and the sum of the issued amounts, and the weight of an
  issuance never grows with its age.\<close>

theorem merit_is_bounded:
  assumes "get_merit_stake verify i ms s = Inr n" and "get_weighted_merit_amount a ih bh b = Inr w" and "bh \<le> bh'"
  shows "0 \<le> n \<and> n \<le> (\<Sum>m\<leftarrow>ms. max 0 (iss_amount (merit_issuance m))) \<and> 0 \<le> w \<and> w \<le> a \<and>
     (\<exists>w'. get_weighted_merit_amount a ih bh' b = Inr w' \<and> w' \<le> w)"
  using merit_stake_bounds [OF assms(1)] weighted_merit_bounds [OF assms(2)]
    weighted_merit_antimono [OF assms(2,3)] by blast

lemma merit_is_bounded_witness:
  "get_weighted_merit_amount 1000 0 50000 BLOCKS_PER_YEAR = Inr 500 \<and>
     (\<exists>w'. get_weighted_merit_amount 1000 0 60000 BLOCKS_PER_YEAR = Inr w' \<and> w' \<le> 500)"
proof -
  have "get_merit_stake (ecdsa_verify ex_env) ''v'' [] ex_gov = Inr 0" by (simp add: get_merit_stake_def Let_def)
  moreover have "get_weighted_merit_amount 1000 0 50000 BLOCKS_PER_YEAR = Inr 500" by code_simp
  ultimately show ?thesis
    using merit_is_bounded [of "ecdsa_verify ex_env" "''v''" "[]" ex_gov 0 1000 0 50000 BLOCKS_PER_YEAR 500 60000] by simp
qed

text \<open>C39: whatever payloads arrive and in whatever order, every proposal payload has a ballot, no two
  ballots are for the same proposal, and every blind vote of the list has valid fields and is there
  once; blind votes that are broadcast in the vote reveal phase change nothing.  Which proposals and
  blind votes are the same is what the comparison methods of the code say.\<close>

theorem governance_lists_consistent:
  assumes "(gov_step env)\<^sup>*\<^sup>* s t" and "lists_ok s"
  shows "lists_ok t \<and>
     (is_in_phase t (chain_height t) Phase_VOTE_REVEAL \<longrightarrow> fold blind_vote_on_added ps t = t)"
  using gov_reachable_ok [OF assms] late_blind_votes_ignored [of t ps] by blast

lemma governance_lists_consistent_witness: "lists_ok (proposal_service_on_added ex_env ex_payload ex_empty_lists)"
proof -
  have "lists_ok ex_empty_lists" by (simp add: lists_ok_def ex_empty_lists_def)
  moreover have "(gov_step ex_env)\<^sup>*\<^sup>* ex_empty_lists (proposal_service_on_added ex_env ex_payload ex_empty_lists)"
    by (rule r_into_rtranclp) (rule gov_step.proposal_added)
  ultimately show ?thesis using governance_lists_consistent by blast
qed

text \<open>C38: an accepted change of a BSQ or BTC parameter passed a validator that bounds it: the new value
  differs from the current one, is at most \<open>max_increase\<close> times it and at least the
  \<open>max_decrease\<close>-th part, although the code divides floating-point numbers.\<close>

theorem parameter_changes_are_bounded:
  assumes "validate_param_value env s p current input = Inr ()" and "param_type_of p \<in> {PT_BSQ, PT_BTC}"
    and "bsq_formatter s p current = Inr cur" and "0 < cur"
    and "bsq_formatter s p input = Inr new" and "0 \<le> new" and "new < 2 ^ 53"
    and "max_increase p * of_int cur < 2 ^ 52"
  shows "new \<noteq> cur \<and> of_int new \<le> max_increase p * of_int cur \<and> of_int cur \<le> max_decrease p * of_int new"
  by (rule coin_param_change_limits [OF assms])

lemma parameter_changes_are_bounded_witness:
  "validate_param_value ex_env ex_state PROPOSAL_FEE ''2'' ''3'' = Inr () \<and>
     of_int 300 \<le> max_increase PROPOSAL_FEE * of_int 200"
proof -
  have "is_ok (validate_param_value ex_env ex_state PROPOSAL_FEE ''2'' ''3'')" by code_simp
  then have v: "validate_param_value ex_env ex_state PROPOSAL_FEE ''2'' ''3'' = Inr ()" by (simp add: is_ok_iff)
  have f: "bsq_formatter ex_state PROPOSAL_FEE ''2'' = Inr 200" "bsq_formatter ex_state PROPOSAL_FEE ''3'' = Inr 300"
    by code_simp+
  have "param_type_of PROPOSAL_FEE \<in> {PT_BSQ, PT_BTC}" by code_simp
  moreover have "max_increase PROPOSAL_FEE * of_int 200 < 2 ^ 52" by (simp add: max_increase_def max_decrease_def)
  ultimately show ?thesis using parameter_changes_are_bounded [OF v _ f(1) _ f(2)] v by simp
qed

end
